(* ===== verification/Prelude.thy ===== *)
theory Prelude
  imports
    Complex_Main
    "HOL-Library.AList"
    "HOL-Library.Multiset"
    "HOL-Library.Char_ord"
    "HOL-Library.List_Lexorder"
    "HOL-Library.Product_Lexorder"
begin

text \<open>
  What every component of the development shares: the result type of code that may raise
  (\<open>error + 'a\<close>) with its bind and traversal, the Python dictionary as an association list in
  insertion order, grouping and de-duplication loops, the ASCII part of Python's string methods, and the
  \<^theory_text>\<open>named_theorems\<close> collections the component proofs use.
\<close>

named_theorems result_simps "equations of the result type"
named_theorems dict_simps "lookups and keys of insertion-ordered dictionaries"

section \<open>Results of code that may raise\<close>

text \<open>The exception classes the modelled code raises; messages are not modelled.\<close>

datatype py_error =
    SchemaError
  | ValueError
  | KeyError
  | ConfigurationError
  | UnknownDestination
  | UnreadableLedger
  | IdentityNotImportable
  | OverflowError
  | TypeError
  | AttributeError
  | AssertionError
  | IndexError
  | InvalidOperation
  | TransportError
  | HttpStatusError int
  | RateLimitError int
  | AuthenticationError int
  | SensitiveOutputRefused

type_synonym 'a result = "py_error + 'a"

definition rbind :: "'e + 'a \<Rightarrow> ('a \<Rightarrow> 'e + 'b) \<Rightarrow> 'e + 'b" where
  "rbind r f = (case r of Inl e \<Rightarrow> Inl e | Inr x \<Rightarrow> f x)"

lemma rbind_simps [simp, result_simps]:
  "rbind (Inl e) f = Inl e"
  "rbind (Inr x) f = f x"
  by (simp_all add: rbind_def)

lemma rbind_eq_Inr [result_simps]: "rbind r f = Inr y \<longleftrightarrow> (\<exists>x. r = Inr x \<and> f x = Inr y)"
  by (cases r) auto

lemma rbind_eq_Inl [result_simps]:
  "rbind r f = Inl e \<longleftrightarrow> r = Inl e \<or> (\<exists>x. r = Inr x \<and> f x = Inl e)"
  by (cases r) auto

lemma rbind_assoc: "rbind (rbind r f) g = rbind r (\<lambda>x. rbind (f x) g)"
  by (cases r) simp_all

text \<open>A loop that stops at the first exception and otherwise collects the results.\<close>

fun traverse :: "('a \<Rightarrow> 'e + 'b) \<Rightarrow> 'a list \<Rightarrow> 'e + 'b list" where
  "traverse f [] = Inr []"
| "traverse f (x # xs) = rbind (f x) (\<lambda>y. rbind (traverse f xs) (\<lambda>ys. Inr (y # ys)))"

lemma traverse_cong [fundef_cong]:
  "xs = ys \<Longrightarrow> (\<And>x. x \<in> set ys \<Longrightarrow> f x = g x) \<Longrightarrow> traverse f xs = traverse g ys"
  by (induction ys arbitrary: xs) auto

lemma traverse_Inr_iff:
  "traverse f xs = Inr ys \<longleftrightarrow> list_all2 (\<lambda>x y. f x = Inr y) xs ys"
  by (induction xs arbitrary: ys) (auto simp: result_simps list_all2_Cons1)

lemma traverse_Inl: "traverse f xs = Inl e \<Longrightarrow> \<exists>x \<in> set xs. f x = Inl e"
  by (induction xs) (auto simp: result_simps)

lemma traverse_length: "traverse f xs = Inr ys \<Longrightarrow> length ys = length xs"
  by (auto simp: traverse_Inr_iff dest: list_all2_lengthD)

section \<open>Insertion-ordered dictionaries\<close>

text \<open>
  A Python \<open>dict\<close> whose iteration order matters is an association list with distinct keys.
  \<open>dput\<close> is item assignment: it replaces the value of a present key in place and appends a new key.
\<close>

type_synonym ('k, 'v) dict = "('k \<times> 'v) list"

abbreviation dget :: "('k, 'v) dict \<Rightarrow> 'k \<Rightarrow> 'v option" where
  "dget d k \<equiv> map_of d k"

fun dput :: "'k \<Rightarrow> 'v \<Rightarrow> ('k, 'v) dict \<Rightarrow> ('k, 'v) dict" where
  "dput k v [] = [(k, v)]"
| "dput k v ((k', v') # d) = (if k = k' then (k, v) # d else (k', v') # dput k v d)"

abbreviation dkeys :: "('k, 'v) dict \<Rightarrow> 'k list" where
  "dkeys d \<equiv> map fst d"

lemma dget_dput [simp, dict_simps]: "dget (dput k v d) k' = (if k' = k then Some v else dget d k')"
  by (induction d) auto

lemma set_dkeys_dput [simp, dict_simps]: "fst ` set (dput k v d) = insert k (fst ` set d)"
  by (induction k v d rule: dput.induct) auto

lemma dkeys_dput: "dkeys (dput k v d) = (if k \<in> fst ` set d then dkeys d else dkeys d @ [k])"
  by (induction k v d rule: dput.induct) auto

lemma distinct_dput [simp, dict_simps]: "distinct (dkeys d) \<Longrightarrow> distinct (dkeys (dput k v d))"
  by (simp add: dkeys_dput)

lemma dput_values: "snd ` set (dput k v d) \<subseteq> insert v (snd ` set d)"
  by (induction k v d rule: dput.induct) auto

lemma in_dput: "distinct (dkeys d) \<Longrightarrow>
  (a, b) \<in> set (dput k v d) \<longleftrightarrow> (if a = k then b = v else (a, b) \<in> set d)"
  by (induction k v d rule: dput.induct) (auto simp: rev_image_eqI)

lemma dget_in_set: "dget d k = Some v \<Longrightarrow> (k, v) \<in> set d"
  by (rule map_of_SomeD)

lemma in_set_dget: "distinct (dkeys d) \<Longrightarrow> (k, v) \<in> set d \<Longrightarrow> dget d k = Some v"
  by simp

text \<open>A counter, \<open>d[k] = d.get(k, 0) + 1\<close>.\<close>

definition dbump :: "'k \<Rightarrow> ('k, nat) dict \<Rightarrow> ('k, nat) dict" where
  "dbump k d = dput k (Suc (case dget d k of None \<Rightarrow> 0 | Some n \<Rightarrow> n)) d"

lemma dget_dbump: "dget (dbump k d) k' = (if k' = k then Some (Suc (case dget d k of None \<Rightarrow> 0 | Some n \<Rightarrow> n)) else dget d k')"
  by (simp add: dbump_def)

text \<open>Counting a list by a key.\<close>

lemma dget_count_by:
  "dget (foldl (\<lambda>d x. dbump (key x) d) [] xs) k =
     (if \<exists>x \<in> set xs. key x = k then Some (length (filter (\<lambda>x. key x = k) xs)) else None)"
proof (induction xs arbitrary: k rule: rev_induct)
  case (snoc x xs)
  have "length (filter (\<lambda>x. key x = k) xs) = 0" if "\<not> (\<exists>x \<in> set xs. key x = k)" for k
    using that by (auto simp: filter_empty_conv)
  then show ?case by (auto simp: dget_dbump snoc.IH)
qed simp

section \<open>Grouping\<close>

text \<open>\<open>groups.setdefault(key(x), []).append(x)\<close> for every \<open>x\<close>, in order.\<close>

definition gadd :: "'k \<Rightarrow> 'a \<Rightarrow> ('k, 'a list) dict \<Rightarrow> ('k, 'a list) dict" where
  "gadd k x g = dput k ((case dget g k of None \<Rightarrow> [] | Some xs \<Rightarrow> xs) @ [x]) g"

definition group_by :: "('a \<Rightarrow> 'k) \<Rightarrow> 'a list \<Rightarrow> ('k, 'a list) dict" where
  "group_by key xs = foldl (\<lambda>g x. gadd (key x) x g) [] xs"

lemma group_by_snoc: "group_by key (xs @ [x]) = gadd (key x) x (group_by key xs)"
  by (simp add: group_by_def)

lemma group_by_Nil [simp]: "group_by key [] = []"
  by (simp add: group_by_def)

text \<open>Every group holds exactly the elements of its key, in their order, and no group is empty.\<close>

lemma dget_group_by:
  "dget (group_by key xs) k =
     (if \<exists>x \<in> set xs. key x = k then Some (filter (\<lambda>x. key x = k) xs) else None)"
proof (induction xs arbitrary: k rule: rev_induct)
  case Nil
  then show ?case by simp
next
  case (snoc x xs)
  show ?case by (auto simp: group_by_snoc gadd_def snoc.IH)
qed

lemma distinct_group_by: "distinct (dkeys (group_by key xs))"
  by (induction xs rule: rev_induct) (simp_all add: group_by_snoc gadd_def)

lemma set_dkeys_group_by: "fst ` set (group_by key xs) = key ` set xs"
  by (induction xs rule: rev_induct) (simp_all add: group_by_snoc gadd_def)

lemma in_group_by:
  assumes "(k, ys) \<in> set (group_by key xs)"
  shows "ys = filter (\<lambda>x. key x = k) xs" and "ys \<noteq> []"
proof -
  have "dget (group_by key xs) k = Some ys"
    using assms distinct_group_by by (rule in_set_dget [rotated])
  then show "ys = filter (\<lambda>x. key x = k) xs" and "ys \<noteq> []"
    by (auto simp: dget_group_by filter_empty_conv split: if_splits)
qed

section \<open>De-duplication by a key\<close>

text \<open>
  The loop \<open>if key in seen: duplicates += 1; continue\<close> of \<open>dedupe_fills\<close> and \<open>replay\<close>:
  first occurrences, in order.
\<close>

fun dedupe_acc :: "('a \<Rightarrow> 'k) \<Rightarrow> 'k list \<Rightarrow> 'a list \<Rightarrow> 'a list" where
  "dedupe_acc key seen [] = []"
| "dedupe_acc key seen (x # xs) =
     (if key x \<in> set seen then dedupe_acc key seen xs
      else x # dedupe_acc key (key x # seen) xs)"

definition dedupe_by :: "('a \<Rightarrow> 'k) \<Rightarrow> 'a list \<Rightarrow> 'a list" where
  "dedupe_by key xs = dedupe_acc key [] xs"

lemma set_dedupe_acc_subset: "set (dedupe_acc key seen xs) \<subseteq> {x \<in> set xs. key x \<notin> set seen}"
  by (induction key seen xs rule: dedupe_acc.induct) auto

lemma keys_dedupe_acc: "key ` set (dedupe_acc key seen xs) = key ` set xs - set seen"
  by (induction key seen xs rule: dedupe_acc.induct) auto

lemma distinct_dedupe_acc: "distinct (map key (dedupe_acc key seen xs))"
proof (induction key seen xs rule: dedupe_acc.induct)
  case (2 key seen x xs)
  have "key x \<notin> key ` set (dedupe_acc key (key x # seen) xs)"
    by (simp add: keys_dedupe_acc)
  with 2 show ?case by simp
qed simp

lemma distinct_dedupe_by [simp]: "distinct (map key (dedupe_by key xs))"
  by (simp add: dedupe_by_def distinct_dedupe_acc)

lemma keys_dedupe_by [simp]: "key ` set (dedupe_by key xs) = key ` set xs"
  by (simp add: dedupe_by_def keys_dedupe_acc)

lemma dedupe_by_subset: "set (dedupe_by key xs) \<subseteq> set xs"
  using set_dedupe_acc_subset [of key "[]" xs] by (auto simp: dedupe_by_def)

lemma dedupe_acc_id:
  "distinct (map key xs) \<Longrightarrow> key ` set xs \<inter> set seen = {} \<Longrightarrow> dedupe_acc key seen xs = xs"
  by (induction key seen xs rule: dedupe_acc.induct) auto

lemma dedupe_by_id: "distinct (map key xs) \<Longrightarrow> dedupe_by key xs = xs"
  by (simp add: dedupe_by_def dedupe_acc_id)

lemma length_dedupe_acc: "length (dedupe_acc key seen xs) \<le> length xs"
  by (induction key seen xs rule: dedupe_acc.induct) auto

text \<open>
  Where equal keys mean equal elements, the survivors are the elements themselves: the result is a
  permutation that depends on the set of elements only.
\<close>

lemma set_dedupe_by:
  assumes "inj_on key (set xs)"
  shows "set (dedupe_by key xs) = set xs"
proof
  show "set (dedupe_by key xs) \<subseteq> set xs" by (rule dedupe_by_subset)
  show "set xs \<subseteq> set (dedupe_by key xs)"
  proof
    fix x assume x: "x \<in> set xs"
    then obtain y where y: "y \<in> set (dedupe_by key xs)" "key y = key x"
      by (metis imageE image_eqI keys_dedupe_by)
    with x assms dedupe_by_subset have "y = x" by (metis inj_on_def subsetD)
    with y show "x \<in> set (dedupe_by key xs)" by simp
  qed
qed

lemma mset_dedupe_by_cong:
  assumes "inj_on key (set xs)" and "set xs = set ys"
  shows "mset (dedupe_by key xs) = mset (dedupe_by key ys)"
proof (rule set_eq_iff_mset_eq_distinct [THEN iffD1])
  show "distinct (dedupe_by key xs)" "distinct (dedupe_by key ys)"
    using distinct_dedupe_by [THEN distinct_map [THEN iffD1]] by blast+
  show "set (dedupe_by key xs) = set (dedupe_by key ys)"
    using assms by (simp add: set_dedupe_by)
qed

section \<open>Python strings\<close>

text \<open>
  Strings are ASCII: \<open>str.strip\<close>, \<open>str.lower\<close> and \<open>str.upper\<close> are their
  ASCII parts, and a character above 127 is neither white space nor a letter of either case.
\<close>

definition is_space :: "char \<Rightarrow> bool" where
  "is_space c \<longleftrightarrow> c = CHR '' '' \<or> (CHR 0x09 \<le> c \<and> c \<le> CHR 0x0D) \<or> (CHR 0x1C \<le> c \<and> c \<le> CHR 0x1F)"

definition is_digit :: "char \<Rightarrow> bool" where
  "is_digit c \<longleftrightarrow> CHR ''0'' \<le> c \<and> c \<le> CHR ''9''"

definition lower_char :: "char \<Rightarrow> char" where
  "lower_char c = (if CHR ''A'' \<le> c \<and> c \<le> CHR ''Z'' then char_of (of_char c + 32 :: nat) else c)"

definition upper_char :: "char \<Rightarrow> char" where
  "upper_char c = (if CHR ''a'' \<le> c \<and> c \<le> CHR ''z'' then char_of (of_char c - 32 :: nat) else c)"

definition py_strip :: "string \<Rightarrow> string" where
  "py_strip s = rev (dropWhile is_space (rev (dropWhile is_space s)))"

definition py_lower :: "string \<Rightarrow> string" where
  "py_lower s = map lower_char s"

definition py_upper :: "string \<Rightarrow> string" where
  "py_upper s = map upper_char s"

definition digit_val :: "char \<Rightarrow> nat" where
  "digit_val c = of_char c - 48"

definition digits_val :: "string \<Rightarrow> nat" where
  "digits_val s = foldl (\<lambda>n c. 10 * n + digit_val c) 0 s"

definition blank :: "string \<Rightarrow> bool" where
  "blank s \<longleftrightarrow> py_strip s = []"

lemma dropWhile_all: "(\<forall>x \<in> set xs. P x) \<Longrightarrow> dropWhile P xs = []"
  by (induction xs) auto

lemma blank_iff: "blank s \<longleftrightarrow> (\<forall>c \<in> set s. is_space c)"
  by (auto simp: blank_def py_strip_def dropWhile_eq_Nil_conv dest: set_dropWhileD)
     (metis (no_types, opaque_lifting) dropWhile_eq_Nil_conv hd_dropWhile hd_in_set)

text \<open>\<open>s.startswith(prefix)\<close>.\<close>

definition starts_with :: "string \<Rightarrow> string \<Rightarrow> bool" where
  "starts_with s prefix \<longleftrightarrow> take (length prefix) s = prefix"

lemma starts_with_append [simp]: "starts_with (p @ s) p"
  by (simp add: starts_with_def)

lemma starts_with_iff: "starts_with s p \<longleftrightarrow> (\<exists>r. s = p @ r)"
  unfolding starts_with_def by (metis append_eq_conv_conj append_take_drop_id)

text \<open>The sorted list of a finite collection of strings, \<open>sorted(set(xs))\<close>.\<close>

definition sorted_set :: "'a :: linorder list \<Rightarrow> 'a list" where
  "sorted_set xs = sort (remdups xs)"

lemma sorted_set_simps [simp]:
  "set (sorted_set xs) = set xs" "distinct (sorted_set xs)" "sorted (sorted_set xs)" "sorted_set [] = []"
  by (simp_all add: sorted_set_def)

lemma sorted_set_Nil_iff [simp]: "sorted_set xs = [] \<longleftrightarrow> xs = []"
  by (metis set_empty sorted_set_simps(1))

lemma sorted_set_cong: "set xs = set ys \<Longrightarrow> sorted_set xs = sorted_set ys"
  unfolding sorted_set_def by (rule sorted_distinct_set_unique) simp_all

end
