(* ===== verification/PyDecimal.thy ===== *)
theory PyDecimal
  imports Prelude
begin

text \<open>
  Python's \<^verbatim>\<open>decimal.Decimal\<close> and \<^verbatim>\<open>float\<close>, as values. A Decimal is the rational
  it denotes: the sources compare, add, multiply and divide Decimals and never print one, so the
  exponent of the representation is not observable. Construction from text is exact, as in Python.
  Every arithmetic operation rounds its exact result to the 28 significant digits of the default
  context, half to even (\<open>dround\<close>); a float is the same rounding at base 2 and 53 digits
  (\<open>fround\<close>). Exponent ranges, infinities and NaNs are not modelled.

  The laws of a rounding (it keeps the sign and the order, and is the identity on what it returns) are the
  locale \<open>rounding\<close>; the facts the accounting uses about Decimal arithmetic are proved there once and
  reach the components through its two interpretations.
\<close>

section \<open>Rounding to a number of significant digits\<close>

text \<open>Half to even.\<close>

definition rhe :: "rat \<Rightarrow> int" where
  "rhe q = (let f = \<lfloor>q\<rfloor>; r = q - of_int f
            in if r < 1 / 2 \<or> (r = 1 / 2 \<and> even f) then f else f + 1)"

lemma rhe_of_int [simp]: "rhe (of_int k) = k"
  by (simp add: rhe_def)

lemma rhe_bounds: "\<lfloor>q\<rfloor> \<le> rhe q" "rhe q \<le> \<lfloor>q\<rfloor> + 1"
  by (simp_all add: rhe_def Let_def)

lemma rhe_mono:
  assumes "x \<le> y" shows "rhe x \<le> rhe y"
proof (cases "\<lfloor>x\<rfloor> = \<lfloor>y\<rfloor>")
  case True
  with assms show ?thesis by (auto simp: rhe_def Let_def)
next
  case False
  with assms floor_mono [of x y] have "\<lfloor>x\<rfloor> + 1 \<le> \<lfloor>y\<rfloor>" by simp
  with rhe_bounds [of x] rhe_bounds [of y] show ?thesis by simp
qed

lemma rhe_minus: "rhe (- q) = - rhe q"
proof (cases "q = of_int \<lfloor>q\<rfloor>")
  case True
  then show ?thesis by (metis of_int_minus rhe_of_int)
next
  case False
  then have c: "\<lfloor>- q\<rfloor> = - \<lfloor>q\<rfloor> - 1"
    by linarith
  have r: "- q - of_int \<lfloor>- q\<rfloor> = 1 - (q - of_int \<lfloor>q\<rfloor>)"
    by (simp add: c)
  show ?thesis
    unfolding rhe_def Let_def r unfolding c
    by (auto simp: not_less)
qed

lemma rhe_ge: "of_int k \<le> q \<Longrightarrow> k \<le> rhe q"
  using rhe_mono [of "of_int k" q] by simp

lemma rhe_le: "q \<le> of_int k \<Longrightarrow> rhe q \<le> k"
  using rhe_mono [of q "of_int k"] by simp

lemma rhe_close: "\<bar>of_int (rhe q) - q\<bar> \<le> 1 / 2"
  by (simp add: rhe_def Let_def abs_if) linarith

text \<open>The number of digits of a positive integer, and the exponent of a positive rational.\<close>

function ndig :: "int \<Rightarrow> int \<Rightarrow> nat" where
  "ndig b n = (if b < 2 \<or> n < b then 1 else Suc (ndig b (n div b)))"
  by pat_completeness auto
termination
  by (relation "measure (\<lambda>(b, n). nat n)") (auto simp: nat_mono_iff int_div_less_self)

declare ndig.simps [simp del]

lemma ndig_bounds:
  assumes "2 \<le> b" "0 < n"
  shows "b ^ (ndig b n - 1) \<le> n \<and> n < b ^ ndig b n"
  using assms
proof (induction b n rule: ndig.induct)
  case (1 b n)
  show ?case
  proof (cases "n < b")
    case True
    with 1 show ?thesis by (simp add: ndig.simps [of b n])
  next
    case False
    with 1 have m: "0 < n div b"
      by (simp add: pos_imp_zdiv_pos_iff)
    with 1 False have IH: "b ^ (ndig b (n div b) - 1) \<le> n div b \<and> n div b < b ^ ndig b (n div b)"
      by simp
    obtain k where k: "ndig b (n div b) = Suc k"
      by (metis ndig.simps not0_implies_Suc One_nat_def nat.distinct(1))
    have b0: "0 < b" using 1(2) by simp
    have "b * (n div b) \<le> n" "n < b * (n div b + 1)"
      using b0 by (simp_all add: mult_div_mod_eq minus_mod_eq_mult_div [symmetric] pos_mod_bound distrib_left)
    moreover from IH k have "b * b ^ k \<le> b * (n div b)" "b * (n div b + 1) \<le> b * b ^ Suc k"
      using b0 by (simp_all del: power_Suc)
    ultimately have "b * b ^ k \<le> n" and "n < b * b ^ Suc k" by linarith+
    with False 1 k show ?thesis by (simp add: ndig.simps [of b n])
  qed
qed

lemma ndig_pos: "0 < ndig b n"
  by (simp add: ndig.simps [of b n])

definition flog :: "nat \<Rightarrow> rat \<Rightarrow> int" where
  "flog b x =
     (let e = int (ndig (int b) (fst (quotient_of x))) - int (ndig (int b) (snd (quotient_of x)))
      in if x < of_nat b powi e then e - 1 else e)"

lemma flog_bounds:
  assumes b: "2 \<le> b" and x: "0 < x"
  shows "of_nat b powi flog b x \<le> x" and "x < of_nat b powi (flog b x + 1)"
proof -
  obtain n d where q: "quotient_of x = (n, d)" by force
  then have d: "0 < d" and xq: "x = of_int n / of_int d"
    by (rule quotient_of_denom_pos, rule quotient_of_div)
  with x have n: "0 < n" by (simp add: zero_less_divide_iff)
  define ln where "ln = ndig (int b) n"
  define ld where "ld = ndig (int b) d"
  have pos: "0 < ln" "0 < ld" by (simp_all add: ln_def ld_def ndig_pos)
  have bb: "of_nat b = (of_int (int b) :: rat)" by simp
  have nb: "int b ^ (ln - 1) \<le> n" "n < int b ^ ln" "int b ^ (ld - 1) \<le> d" "d < int b ^ ld"
    using ndig_bounds [of "int b" n] ndig_bounds [of "int b" d] n d b
    by (simp_all add: ln_def ld_def)
  have N: "of_nat b ^ (ln - 1) \<le> (of_int n :: rat)" "(of_int n :: rat) < of_nat b ^ ln"
    and D: "of_nat b ^ (ld - 1) \<le> (of_int d :: rat)" "(of_int d :: rat) < of_nat b ^ ld"
    unfolding bb of_int_power [symmetric] of_int_le_iff of_int_less_iff by (rule nb)+
  let ?B = "of_nat b :: rat"
  have B: "0 < ?B" "1 < ?B" using b by simp_all
  define e where "e = int ln - int ld"
  have B0: "?B \<noteq> 0" using B by simp
  have "e + 1 = int ln - int (ld - 1)" "e - 1 = int (ln - 1) - int ld"
    using pos by (simp_all add: e_def)
  then have e1: "?B powi (e + 1) = ?B ^ ln / ?B ^ (ld - 1)"
    and e2: "?B powi (e - 1) = ?B ^ (ln - 1) / ?B ^ ld"
    by (simp_all only: power_int_diff [OF disjI1 [OF B0]] power_int_of_nat)
  have up: "x < ?B powi (e + 1)"
    unfolding xq e1 using N(2) D(1) B d n
    by (intro frac_less) (auto intro: order_less_imp_le)
  have lo: "?B powi (e - 1) < x"
    unfolding xq e2 using N(1) D(2) B d
    by (intro frac_less2) (auto intro!: zero_less_power)
  show "of_nat b powi flog b x \<le> x" and "x < of_nat b powi (flog b x + 1)"
    using up lo by (auto simp: flog_def q Let_def e_def ln_def ld_def)
qed

lemma powi_lt_imp:
  assumes "1 < (B :: rat)" and "B powi m < B powi n"
  shows "m < n"
proof (rule ccontr)
  assume "\<not> m < n"
  then have "B powi n \<le> B powi m" using assms(1) by (intro power_int_increasing) auto
  with assms(2) show False by simp
qed

lemma flog_unique:
  assumes b: "2 \<le> b" and lo: "of_nat b powi e \<le> x" and up: "x < of_nat b powi (e + 1)"
  shows "flog b x = e"
proof -
  have B: "1 < (of_nat b :: rat)" using b by simp
  then have "0 < (of_nat b :: rat) powi e" by (intro zero_less_power_int) simp
  then have x: "0 < x" using lo by (rule order.strict_trans2)
  from flog_bounds [OF b x] lo up
  have "of_nat b powi flog b x < (of_nat b :: rat) powi (e + 1)"
    and "of_nat b powi e < (of_nat b :: rat) powi (flog b x + 1)" by auto
  with B powi_lt_imp have "flog b x < e + 1" "e < flog b x + 1" by blast+
  then show ?thesis by simp
qed

definition rsig :: "nat \<Rightarrow> nat \<Rightarrow> rat \<Rightarrow> rat" where
  "rsig b p x =
     (if x = 0 then 0
      else let u = of_nat b powi (flog b \<bar>x\<bar> - (int p - 1)) in of_int (rhe (x / u)) * u)"

lemma rsig_0 [simp]: "rsig b p 0 = 0"
  by (simp add: rsig_def)

lemma rsig_minus: "rsig b p (- x) = - rsig b p x"
  by (simp add: rsig_def Let_def rhe_minus)

text \<open>A number with at most \<open>p\<close> digits is its own rounding.\<close>

lemma rsig_exact:
  assumes b: "2 \<le> b" and p: "0 < p"
    and x: "x = of_int k * of_nat b powi e" and k: "\<bar>k\<bar> < int b ^ p"
  shows "rsig b p x = x"
proof (cases "x = 0")
  case False
  let ?B = "of_nat b :: rat"
  have B: "1 < ?B" "?B \<noteq> 0" using b by simp_all
  define f where "f = flog b \<bar>x\<bar> - (int p - 1)"
  have lo: "?B powi flog b \<bar>x\<bar> \<le> \<bar>x\<bar>"
    using flog_bounds [OF b, of "\<bar>x\<bar>"] False by simp
  have "\<bar>x\<bar> = of_int \<bar>k\<bar> * ?B powi e"
    using B by (simp add: x abs_mult power_int_abs)
  also have "\<dots> < of_int (int b ^ p) * ?B powi e"
    using k B by (intro mult_strict_right_mono) (simp_all add: of_int_less_iff zero_less_power_int del: of_int_power)
  also have "\<dots> = ?B powi (int p + e)"
    using B by (simp add: power_int_add)
  finally have "?B powi flog b \<bar>x\<bar> < ?B powi (int p + e)"
    using lo by simp
  then have "f \<le> e"
    using powi_lt_imp [OF B(1)] by (fastforce simp: f_def)
  then obtain n where n: "e = f + int n"
    by (metis zle_iff_zadd)
  have "x / ?B powi f = of_int (k * int b ^ n)"
    using B by (simp add: x n power_int_add)
  then show ?thesis
    using False B unfolding rsig_def f_def [symmetric]
    by (simp add: Let_def f_def [symmetric] x n power_int_add del: of_int_mult)
qed simp

text \<open>The magnitude of a rounding stays between the powers around its argument.\<close>

lemma rsig_pos_bounds:
  assumes b: "2 \<le> b" and p: "0 < p" and x: "0 < x"
  shows "of_nat b powi flog b x \<le> rsig b p x" and "rsig b p x \<le> of_nat b powi (flog b x + 1)"
proof -
  let ?B = "of_nat b :: rat"
  have B: "1 < ?B" "?B \<noteq> 0" using b by simp_all
  define f where "f = flog b x - (int p - 1)"
  define u where "u = ?B powi f"
  have u: "0 < u" using B by (simp add: u_def zero_less_power_int)
  have e1: "?B powi flog b x = of_int (int b ^ (p - 1)) * u"
    using B p by (simp add: u_def f_def of_nat_diff flip: power_int_of_nat power_int_add)
  have e2: "?B powi (flog b x + 1) = of_int (int b ^ p) * u"
    using B by (simp add: u_def f_def flip: power_int_of_nat power_int_add)
  have lo: "of_int (int b ^ (p - 1)) \<le> x / u" and up: "x / u \<le> of_int (int b ^ p)"
    using flog_bounds [OF b x] u unfolding e1 e2
    by (simp_all add: pos_le_divide_eq pos_divide_le_eq del: of_int_power)
  have r: "rsig b p x = of_int (rhe (x / u)) * u"
    using x by (simp add: rsig_def Let_def u_def f_def)
  show "?B powi flog b x \<le> rsig b p x" "rsig b p x \<le> ?B powi (flog b x + 1)"
    unfolding r e1 e2 using u rhe_ge [OF lo] rhe_le [OF up]
    by (simp_all add: mult_right_mono del: of_int_power)
qed

lemma rsig_pos: "2 \<le> b \<Longrightarrow> 0 < p \<Longrightarrow> 0 < x \<Longrightarrow> 0 < rsig b p x"
  using order.strict_trans2 [OF zero_less_power_int [of "of_nat b :: rat"] rsig_pos_bounds(1)] by simp

lemma rsig_sgn: "2 \<le> b \<Longrightarrow> 0 < p \<Longrightarrow> sgn (rsig b p x) = sgn x"
  using rsig_pos [of b p x] rsig_pos [of b p "- x"]
  by (cases x "0 :: rat" rule: linorder_cases) (simp_all add: rsig_minus)

lemma flog_mono:
  assumes b: "2 \<le> b" and x: "0 < x" and xy: "x \<le> y"
  shows "flog b x \<le> flog b y"
proof -
  have "(of_nat b :: rat) powi flog b x < of_nat b powi (flog b y + 1)"
    using flog_bounds [OF b x] flog_bounds [OF b, of y] x xy by linarith
  then have "flog b x < flog b y + 1"
    using b by (intro powi_lt_imp) auto
  then show ?thesis by simp
qed

lemma rsig_mono_pos:
  assumes b: "2 \<le> b" and p: "0 < p" and x: "0 < x" and xy: "x \<le> y"
  shows "rsig b p x \<le> rsig b p y"
proof (cases "flog b x = flog b y")
  case True
  define u where "u = (of_nat b :: rat) powi (flog b y - (int p - 1))"
  have u: "0 < u" using b by (simp add: u_def zero_less_power_int)
  then have "x / u \<le> y / u" using xy by (simp add: divide_right_mono)
  then have "rhe (x / u) \<le> rhe (y / u)" by (rule rhe_mono)
  then have "(of_int (rhe (x / u)) :: rat) \<le> of_int (rhe (y / u))" by simp
  then have "of_int (rhe (x / u)) * u \<le> of_int (rhe (y / u)) * u"
    using u by (intro mult_right_mono) simp_all
  then show ?thesis using x xy True by (simp add: rsig_def Let_def u_def)
next
  case False
  with flog_mono [OF b x xy] have "flog b x + 1 \<le> flog b y" by simp
  then have "(of_nat b :: rat) powi (flog b x + 1) \<le> of_nat b powi flog b y"
    using b by (intro power_int_increasing) auto
  with rsig_pos_bounds(2) [OF b p x] rsig_pos_bounds(1) [OF b p, of y] x xy show ?thesis
    by simp
qed

lemma rsig_mono:
  assumes b: "2 \<le> b" and p: "0 < p" and xy: "x \<le> y"
  shows "rsig b p x \<le> rsig b p y"
proof -
  consider "0 < x" | "y < 0" | "x \<le> 0" "0 \<le> y" by linarith
  then show ?thesis
  proof cases
    case 1
    then show ?thesis using rsig_mono_pos [OF b p] xy by blast
  next
    case 2
    with rsig_mono_pos [OF b p, of "- y" "- x"] xy show ?thesis by (simp add: rsig_minus)
  next
    case 3
    with rsig_sgn [OF b p, of x] rsig_sgn [OF b p, of y] have "rsig b p x \<le> 0" "0 \<le> rsig b p y"
      by (auto simp: sgn_if split: if_splits)
    then show ?thesis by simp
  qed
qed

lemma rsig_idem:
  assumes b: "2 \<le> b" and p: "0 < p"
  shows "rsig b p (rsig b p x) = rsig b p x"
proof -
  have pos: "rsig b p (rsig b p y) = rsig b p y" if y: "0 < y" for y
  proof -
    let ?B = "of_nat b :: rat"
    have B: "1 < ?B" "?B \<noteq> 0" using b by simp_all
    define f where "f = flog b y - (int p - 1)"
    define k where "k = rhe (y / ?B powi f)"
    have r: "rsig b p y = of_int k * ?B powi f"
      using y by (simp add: rsig_def Let_def k_def f_def)
    have "of_int k * ?B powi f \<le> of_int (int b ^ p) * ?B powi f"
      using rsig_pos_bounds(2) [OF b p y] B unfolding r
      by (simp add: f_def flip: power_int_of_nat power_int_add)
    then have k: "k \<le> int b ^ p"
      using B by (simp add: zero_less_power_int del: of_int_power)
    have k0: "0 < k"
      using zero_less_mult_pos2 [OF rsig_pos [OF b p y, unfolded r] zero_less_power_int] B by simp
    show ?thesis
    proof (cases "k < int b ^ p")
      case True
      then show ?thesis using k0 by (intro rsig_exact [OF b p r]) simp
    next
      case False
      with k have "k = int b ^ p" by simp
      then have "rsig b p y = of_int 1 * ?B powi (int p + f)"
        using B by (simp add: r power_int_add)
      from rsig_exact [OF b p this] show ?thesis using b p by simp
    qed
  qed
  show ?thesis
    using pos [of x] pos [of "- x"]
    by (cases x "0 :: rat" rule: linorder_cases) (simp_all add: rsig_minus)
qed

section \<open>The laws of a rounding\<close>

locale rounding =
  fixes rnd :: "rat \<Rightarrow> rat"
  assumes rnd_sgn: "sgn (rnd x) = sgn x"
    and rnd_minus: "rnd (- x) = - rnd x"
    and rnd_mono: "x \<le> y \<Longrightarrow> rnd x \<le> rnd y"
    and rnd_idem: "rnd (rnd x) = rnd x"
begin

lemma rnd_0: "rnd 0 = 0"
  using rnd_sgn [of 0] by (simp add: sgn_0_0)

lemma rnd_eq_0: "rnd x = 0 \<longleftrightarrow> x = 0"
  using rnd_sgn [of x] by (metis sgn_0_0)

lemma rnd_pos: "0 < rnd x \<longleftrightarrow> 0 < x"
  using rnd_sgn [of x] by (metis sgn_1_pos)

lemma rnd_neg: "rnd x < 0 \<longleftrightarrow> x < 0"
  using rnd_sgn [of x] by (metis sgn_1_neg)

lemma rnd_nonneg: "0 \<le> rnd x \<longleftrightarrow> 0 \<le> x"
  using rnd_neg [of x] by (simp add: not_less [symmetric])

lemma rnd_abs: "rnd \<bar>x\<bar> = \<bar>rnd x\<bar>"
  by (cases "0 \<le> x") (simp_all add: rnd_minus rnd_nonneg rnd_neg abs_if)

text \<open>A value the rounding already returns bounds the rounding of anything it bounds.\<close>

lemma rnd_le_fixed: "x \<le> y \<Longrightarrow> rnd y = y \<Longrightarrow> rnd x \<le> y"
  using rnd_mono [of x y] by simp

lemma rnd_ge_fixed: "y \<le> x \<Longrightarrow> rnd y = y \<Longrightarrow> y \<le> rnd x"
  using rnd_mono [of y x] by simp

lemma rnd_diff_eq_0: "rnd (x - y) = 0 \<longleftrightarrow> x = y"
  by (simp add: rnd_eq_0)

end

section \<open>Decimal and float\<close>

text \<open>The default context: 28 significant digits, half to even.\<close>

definition dround :: "rat \<Rightarrow> rat" where
  "dround x = rsig 10 28 x"

definition fround :: "rat \<Rightarrow> rat" where
  "fround x = rsig 2 53 x"

interpretation dec: rounding dround
  by unfold_locales (simp_all add: dround_def rsig_sgn rsig_minus rsig_mono rsig_idem)

interpretation flt: rounding fround
  by unfold_locales (simp_all add: fround_def rsig_sgn rsig_minus rsig_mono rsig_idem)

type_synonym decimal = rat

definition dadd :: "decimal \<Rightarrow> decimal \<Rightarrow> decimal" where "dadd x y = dround (x + y)"
definition dsub :: "decimal \<Rightarrow> decimal \<Rightarrow> decimal" where "dsub x y = dround (x - y)"
definition dmul :: "decimal \<Rightarrow> decimal \<Rightarrow> decimal" where "dmul x y = dround (x * y)"
definition ddiv :: "decimal \<Rightarrow> decimal \<Rightarrow> decimal" where "ddiv x y = dround (x / y)"
definition dneg :: "decimal \<Rightarrow> decimal" where "dneg x = dround (- x)"
definition dabs :: "decimal \<Rightarrow> decimal" where "dabs x = dround \<bar>x\<bar>"

text \<open>\<open>sum(values, Decimal(0))\<close>.\<close>

definition dsum :: "decimal list \<Rightarrow> decimal" where "dsum xs = foldl dadd 0 xs"

text \<open>The sign as an integer, \<open>(value > 0) - (value < 0)\<close>.\<close>

definition dsign :: "decimal \<Rightarrow> int" where
  "dsign x = (if 0 < x then 1 else 0) - (if x < 0 then 1 else 0)"

text \<open>The shortest decimal text that a float reads back from, as the value of that text.\<close>

definition frepr :: "rat \<Rightarrow> decimal" where
  "frepr x = (case find (\<lambda>n. fround (rsig 10 n x) = x) [1..<18] of
     None \<Rightarrow> x | Some n \<Rightarrow> rsig 10 n x)"

text \<open>A Decimal that carries at most 28 digits: what every operation returns.\<close>

definition drep :: "decimal \<Rightarrow> bool" where
  "drep x \<longleftrightarrow> dround x = x"

named_theorems dec_simps "sign and representability of Decimal results"

lemma drep_results [dec_simps, simp]:
  "drep (dadd x y)" "drep (dsub x y)" "drep (dmul x y)" "drep (ddiv x y)" "drep (dneg x)" "drep (dabs x)" "drep 0"
  by (simp_all add: drep_def dadd_def dsub_def dmul_def ddiv_def dneg_def dabs_def dec.rnd_idem dec.rnd_0)

lemma drepI:
  assumes "x * 10 ^ n = of_int k" and "\<bar>k\<bar> < 10 ^ 28"
  shows "drep x"
proof -
  have "x = of_int k * of_nat 10 powi (- int n)"
    using assms(1) by (simp add: power_int_minus field_simps)
  then show ?thesis
    unfolding drep_def dround_def by (rule rsig_exact [rotated 2]) (use assms(2) in simp_all)
qed

lemma drep_minus [simp, dec_simps]: "drep (- x) \<longleftrightarrow> drep x"
  by (simp add: drep_def dec.rnd_minus)

lemma drep_abs [simp, dec_simps]: "drep x \<Longrightarrow> drep \<bar>x\<bar>"
  by (simp add: drep_def dec.rnd_abs)

lemma dadd_eq_0 [dec_simps]: "dadd x y = 0 \<longleftrightarrow> x + y = 0"
  and dadd_pos [dec_simps]: "0 < dadd x y \<longleftrightarrow> 0 < x + y"
  and dadd_neg [dec_simps]: "dadd x y < 0 \<longleftrightarrow> x + y < 0"
  by (simp_all add: dadd_def dec.rnd_eq_0 dec.rnd_pos dec.rnd_neg)

lemma dabs_eq_0 [dec_simps]: "dabs x = 0 \<longleftrightarrow> x = 0"
  and dabs_pos [dec_simps]: "0 < dabs x \<longleftrightarrow> x \<noteq> 0"
  and dabs_nonneg [dec_simps, simp]: "0 \<le> dabs x"
  by (simp_all add: dabs_def dec.rnd_eq_0 dec.rnd_pos dec.rnd_nonneg)

lemma dneg_eq_0 [dec_simps]: "dneg x = 0 \<longleftrightarrow> x = 0"
  and dneg_pos [dec_simps]: "0 < dneg x \<longleftrightarrow> x < 0"
  and dneg_neg [dec_simps]: "dneg x < 0 \<longleftrightarrow> 0 < x"
  by (simp_all add: dneg_def dec.rnd_eq_0 dec.rnd_pos dec.rnd_neg)

lemma dabs_drep: "drep x \<Longrightarrow> dabs x = \<bar>x\<bar>"
  by (simp add: dabs_def drep_def dec.rnd_abs)

lemma dneg_drep: "drep x \<Longrightarrow> dneg x = - x"
  by (simp add: dneg_def drep_def dec.rnd_minus)

lemma dadd_0 [simp]: "drep x \<Longrightarrow> dadd 0 x = x" "drep x \<Longrightarrow> dadd x 0 = x"
  by (simp_all add: dadd_def drep_def)

lemma dadd_exact: "drep (x + y) \<Longrightarrow> dadd x y = x + y"
  and dsub_exact: "drep (x - y) \<Longrightarrow> dsub x y = x - y"
  and dmul_exact: "drep (x * y) \<Longrightarrow> dmul x y = x * y"
  and ddiv_exact: "drep (x / y) \<Longrightarrow> ddiv x y = x / y"
  by (simp_all add: dadd_def dsub_def dmul_def ddiv_def drep_def)

lemma dadd_comm: "dadd x y = dadd y x"
  by (simp add: dadd_def add.commute)

lemma drep_dsum [simp]: "drep (dsum xs)"
  unfolding dsum_def by (cases xs rule: rev_cases) simp_all

lemma dsign_simps [simp, dec_simps]:
  "dsign x = 1 \<longleftrightarrow> 0 < x" "dsign x = -1 \<longleftrightarrow> x < 0" "dsign x = 0 \<longleftrightarrow> x = 0" "dsign 0 = 0"
  by (auto simp: dsign_def)

lemma dsign_eq_iff: "dsign x = dsign y \<longleftrightarrow> sgn x = sgn y"
  by (auto simp: dsign_def sgn_if)

section \<open>Values on a decimal grid\<close>

text \<open>
  A value with at most \<open>n\<close> decimal places. Kalshi states quantities, prices and fees to at most six
  places, so below the 28-digit capacity their sums and products are exact.
\<close>

definition grid :: "nat \<Rightarrow> decimal \<Rightarrow> bool" where
  "grid n x \<longleftrightarrow> x * 10 ^ n \<in> \<int>"

lemma grid_add [simp, intro]: "grid n x \<Longrightarrow> grid n y \<Longrightarrow> grid n (x + y)"
  and grid_diff [simp, intro]: "grid n x \<Longrightarrow> grid n y \<Longrightarrow> grid n (x - y)"
  and grid_minus [simp]: "grid n (- x) \<longleftrightarrow> grid n x"
  and grid_0 [simp]: "grid n 0"
  by (simp_all add: grid_def distrib_right left_diff_distrib)

lemma grid_int [simp]: "grid n (of_int k)" "grid n 1" "grid n (numeral m)"
  by (simp_all add: grid_def)

lemma grid_abs [simp]: "grid n x \<Longrightarrow> grid n \<bar>x\<bar>"
  by (simp add: abs_if)

lemma grid_mult: "grid m x \<Longrightarrow> grid n y \<Longrightarrow> grid (m + n) (x * y)"
proof -
  assume "grid m x" "grid n y"
  then have "(x * 10 ^ m) * (y * 10 ^ n) \<in> \<int>" by (simp add: grid_def)
  then show ?thesis by (simp add: grid_def power_add ac_simps)
qed

lemma grid_drep:
  assumes "grid n x" and "\<bar>x\<bar> < 10 ^ m" and "n + m \<le> 28"
  shows "drep x"
proof -
  from assms(1) obtain k where k: "x * 10 ^ n = of_int k"
    by (auto simp: grid_def elim: Ints_cases)
  have "of_int \<bar>k\<bar> = \<bar>x\<bar> * 10 ^ n"
    by (simp add: k [symmetric] abs_mult)
  also have "\<dots> < 10 ^ m * 10 ^ n"
    using assms(2) by (intro mult_strict_right_mono) simp_all
  also have "\<dots> \<le> (10 :: rat) ^ 28"
    unfolding power_add [symmetric] using assms(3) by (intro power_increasing) simp_all
  finally have "of_int \<bar>k\<bar> < (of_int (10 ^ 28) :: rat)" by simp
  then have "\<bar>k\<bar> < 10 ^ 28" by (simp only: of_int_less_iff)
  with k show ?thesis by (rule drepI)
qed

text \<open>A sum of grid values of bounded total magnitude is exact.\<close>

lemma dsum_snoc: "dsum (xs @ [x]) = dadd (dsum xs) x"
  by (simp add: dsum_def)

lemma dsum_Nil [simp]: "dsum [] = 0"
  by (simp add: dsum_def)

lemma dsum_exact:
  assumes "\<forall>x \<in> set xs. grid n x" and "(\<Sum>x\<leftarrow>xs. \<bar>x\<bar>) < 10 ^ m" and "n + m \<le> 28"
  shows "dsum xs = sum_list xs"
  using assms(1,2)
proof (induction xs rule: rev_induct)
  case (snoc x xs)
  have le: "\<bar>sum_list ys\<bar> \<le> (\<Sum>y\<leftarrow>ys. \<bar>y\<bar>)" for ys :: "rat list"
    by (induction ys) auto
  have gr: "grid n (sum_list ys)" if "\<forall>y \<in> set ys. grid n y" for ys
    using that by (induction ys) auto
  from snoc.prems have "dsum xs = sum_list xs" by (intro snoc.IH) simp_all
  moreover have "drep (sum_list (xs @ [x]))"
    using snoc.prems le [of "xs @ [x]"] gr [of "xs @ [x]"] assms(3) by (intro grid_drep [of n _ m]) auto
  ultimately show ?case by (simp add: dsum_snoc dadd_exact)
qed simp

section \<open>Concrete values\<close>

text \<open>Numerals and fractions of at most six decimals: with \<open>dec_eval\<close> the simplifier computes with them.\<close>

lemma drep_numeral [simp]:
  "(numeral m :: int) < 10 ^ 28 \<Longrightarrow> drep (numeral m)" "drep 1"
  by (rule drepI [of _ 0 "numeral m"]; simp) (rule drepI [of _ 0 1]; simp)

lemma frac_grid:
  assumes "(10 ^ 6 * k) mod (numeral n :: int) = 0"
  shows "(of_int k / numeral n) * 10 ^ 6 = (of_int (10 ^ 6 * k div numeral n) :: rat)"
proof -
  obtain q where q: "10 ^ 6 * k = numeral n * q"
    using assms by (auto simp: mod_eq_0_iff_dvd elim: dvdE)
  have "of_int (10 ^ 6 * k div numeral n) = (of_int q :: rat)" by (simp only: q) simp
  moreover have "of_int (10 ^ 6 * k) = (of_int (numeral n * q) :: rat)" by (simp only: q)
  ultimately show ?thesis by (simp add: field_simps)
qed

lemma drep_frac [simp]:
  "(10 ^ 6 * numeral m) mod (numeral n :: int) = 0 \<Longrightarrow> 10 ^ 6 * numeral m div (numeral n :: int) < 10 ^ 28
    \<Longrightarrow> drep (numeral m / numeral n)"
  "(10 ^ 6 * 1) mod (numeral n :: int) = 0 \<Longrightarrow> drep (1 / numeral n)"
proof -
  show "drep (numeral m / numeral n)"
    if "(10 ^ 6 * numeral m) mod (numeral n :: int) = 0" "10 ^ 6 * numeral m div (numeral n :: int) < 10 ^ 28"
  proof (rule drepI)
    show "(numeral m / numeral n) * 10 ^ 6 = (of_int (10 ^ 6 * numeral m div numeral n) :: rat)"
      using frac_grid [OF that(1)] by simp
    have "0 \<le> 10 ^ 6 * numeral m div (numeral n :: int)"
      by (subst pos_imp_zdiv_nonneg_iff) simp_all
    then show "\<bar>10 ^ 6 * numeral m div (numeral n :: int)\<bar> < 10 ^ 28" using that(2) by simp
  qed
  show "drep (1 / numeral n)" if "(10 ^ 6 * 1) mod (numeral n :: int) = 0"
  proof (rule drepI)
    show "(1 / numeral n) * 10 ^ 6 = (of_int (10 ^ 6 * 1 div numeral n) :: rat)"
      using frac_grid [OF that] by simp
    define K :: int where "K = 10 ^ 6 * 1"
    have "0 \<le> K div (numeral n :: int)" by (subst pos_imp_zdiv_nonneg_iff) (simp_all add: K_def)
    moreover have "K div (numeral n :: int) \<le> K div 1" by (rule zdiv_mono2) (simp_all add: K_def)
    ultimately have "\<bar>K div (numeral n :: int)\<bar> \<le> K" by simp
    then show "\<bar>10 ^ 6 * 1 div (numeral n :: int)\<bar> < 10 ^ 28" by (simp add: K_def)
  qed
qed

lemmas dec_eval = dadd_exact dsub_exact dmul_exact ddiv_exact dabs_drep dneg_drep

end
