(* ===== verification/Json.thy ===== *)
theory Json
  imports PyDecimal
begin

text \<open>
  Decoded JSON values, the reads the sources make of them, and \<^verbatim>\<open>fixedpoint.py\<close>: the exact parse
  of Kalshi's fixed-point decimal strings. A JSON object is the association list of its keys; a JSON
  number with a fraction is a float, carried as the decimal value of its \<^verbatim>\<open>repr\<close> (the only reading
  the sources make of one).
\<close>

datatype json =
    JNull
  | JBool bool
  | JInt int
  | JFloat decimal
  | JStr string
  | JList "json list"
  | JObj "(string \<times> json) list"

type_synonym jobj = "(string \<times> json) list"

text \<open>\<open>raw.get(key)\<close>: an absent key and a null are both \<open>None\<close>.\<close>

definition jget :: "jobj \<Rightarrow> string \<Rightarrow> json" where
  "jget ob k = (case map_of ob k of None \<Rightarrow> JNull | Some v \<Rightarrow> v)"

definition jstr :: "json \<Rightarrow> string option" where
  "jstr v = (case v of JStr s \<Rightarrow> Some s | _ \<Rightarrow> None)"

definition jbool :: "json \<Rightarrow> bool option" where
  "jbool v = (case v of JBool b \<Rightarrow> Some b | _ \<Rightarrow> None)"

definition jint :: "json \<Rightarrow> int option" where
  "jint v = (case v of JInt i \<Rightarrow> Some i | _ \<Rightarrow> None)"

text \<open>Python truth of a value.\<close>

fun truthy :: "json \<Rightarrow> bool" where
  "truthy JNull = False"
| "truthy (JBool b) = b"
| "truthy (JInt i) = (i \<noteq> 0)"
| "truthy (JFloat x) = (x \<noteq> 0)"
| "truthy (JStr s) = (s \<noteq> [])"
| "truthy (JList xs) = (xs \<noteq> [])"
| "truthy (JObj ob) = (ob \<noteq> [])"

definition present :: "json \<Rightarrow> bool" where
  "present v \<longleftrightarrow> v \<noteq> JNull \<and> v \<noteq> JStr []"

definition first_present :: "jobj \<Rightarrow> string list \<Rightarrow> json" where
  "first_present raw keys =
     (case filter present (map (jget raw) keys) of [] \<Rightarrow> JNull | v # _ \<Rightarrow> v)"

lemma first_present_cases: "first_present raw keys = JNull \<or> present (first_present raw keys)"
proof (cases "filter present (map (jget raw) keys)")
  case (Cons v vs)
  then have "v \<in> set (filter present (map (jget raw) keys))" by (metis list.set_intros(1))
  then have "present v" by simp
  with Cons show ?thesis by (simp add: first_present_def)
qed (simp add: first_present_def)

text \<open>
  Python's \<open>==\<close> on decoded values: numbers compare by value whatever their type (a bool is an
  int), dictionaries as maps. Each value has one normal form; the keys of a decoded object are distinct.
\<close>

fun canon :: "json \<Rightarrow> json" where
  "canon JNull = JNull"
| "canon (JBool b) = JFloat (if b then 1 else 0)"
| "canon (JInt i) = JFloat (of_int i)"
| "canon (JFloat x) = JFloat x"
| "canon (JStr s) = JStr s"
| "canon (JList xs) = JList (map canon xs)"
| "canon (JObj ob) = JObj (sort_key fst (map (\<lambda>(k, v). (k, canon v)) ob))"

definition py_eq :: "json \<Rightarrow> json \<Rightarrow> bool" where
  "py_eq v w \<longleftrightarrow> canon v = canon w"

lemma py_eq_refl [simp]: "py_eq v v"
  by (simp add: py_eq_def)

lemma py_eq_sym: "py_eq v w \<longleftrightarrow> py_eq w v"
  by (auto simp: py_eq_def)

lemma canon_JStr [simp]: "canon v = JStr s \<longleftrightarrow> v = JStr s" "JStr s = canon v \<longleftrightarrow> v = JStr s"
  by (cases v; auto)+

lemma py_eq_JStr [simp]: "py_eq v (JStr s) \<longleftrightarrow> v = JStr s" "py_eq (JStr s) v \<longleftrightarrow> v = JStr s"
  by (auto simp: py_eq_def)

text \<open>What a set or a dictionary accepts as a key.\<close>

definition hashable :: "json \<Rightarrow> bool" where
  "hashable v = (case v of JList _ \<Rightarrow> False | JObj _ \<Rightarrow> False | _ \<Rightarrow> True)"

section \<open>Fixed-point strings\<close>

datatype source_type = SourceString | SourceNumber

text \<open>\<^verbatim>\<open>^-?\d+(?:\.\d+)?$\<close>, and the number a matching text denotes.\<close>

definition fp_unsigned :: "string \<Rightarrow> decimal option" where
  "fp_unsigned s =
     (let ip = takeWhile is_digit s; rest = dropWhile is_digit s in
      if ip = [] then None
      else case rest of
        [] \<Rightarrow> Some (of_nat (digits_val ip))
      | c # fp \<Rightarrow>
          if c = CHR ''.'' \<and> fp \<noteq> [] \<and> list_all is_digit fp
          then Some (of_nat (digits_val ip) + of_nat (digits_val fp) / 10 ^ length fp)
          else None)"

definition fp_text :: "string \<Rightarrow> decimal option" where
  "fp_text s = (case s of
       c # r \<Rightarrow> if c = CHR ''-'' then map_option uminus (fp_unsigned r) else fp_unsigned s
     | [] \<Rightarrow> None)"

definition parse_fixed_point :: "json \<Rightarrow> (decimal \<times> source_type) option result" where
  "parse_fixed_point raw = (case raw of
       JNull \<Rightarrow> Inr None
     | JBool _ \<Rightarrow> Inl SchemaError
     | JStr s \<Rightarrow>
         if s = [] then Inr None
         else (case fp_text (py_strip s) of
             None \<Rightarrow> Inl SchemaError
           | Some x \<Rightarrow> Inr (Some (x, SourceString)))
     | JInt i \<Rightarrow> Inr (Some (of_int i, SourceNumber))
     | JFloat x \<Rightarrow> Inr (Some (x, SourceNumber))
     | _ \<Rightarrow> Inl SchemaError)"

lemma digits_val_append:
  "digits_val (s @ t) = digits_val s * 10 ^ length t + digits_val t"
proof (induction t rule: rev_induct)
  case (snoc c t)
  then show ?case by (simp add: digits_val_def algebra_simps)
qed (simp add: digits_val_def)

lemma digit_val_le: "is_digit c \<Longrightarrow> digit_val c \<le> 9"
  by (auto simp: is_digit_def digit_val_def less_eq_char_def)

lemma digits_val_bound: "list_all is_digit s \<Longrightarrow> digits_val s < 10 ^ length s"
proof (induction s rule: rev_induct)
  case (snoc c s)
  then have "digits_val s + 1 \<le> 10 ^ length s" "digit_val c \<le> 9"
    using digit_val_le by (auto simp: Suc_le_eq)
  then have "10 * digits_val s + digit_val c < 10 * 10 ^ length s"
    by linarith
  then show ?case by (simp add: digits_val_def)
qed (simp add: digits_val_def)

lemma takeWhile_digits: "list_all is_digit ip \<Longrightarrow> \<not> is_digit c \<Longrightarrow>
    takeWhile is_digit (ip @ c # fp) = ip \<and> dropWhile is_digit (ip @ c # fp) = c # fp"
  by (induction ip) auto

lemma takeWhile_all_digits: "list_all is_digit ip \<Longrightarrow>
    takeWhile is_digit ip = ip \<and> dropWhile is_digit ip = []"
  by (induction ip) auto

lemma fp_unsigned_point:
  assumes "list_all is_digit ip" "ip \<noteq> []" "list_all is_digit fp" "fp \<noteq> []"
  shows "fp_unsigned (ip @ CHR ''.'' # fp) = Some (of_nat (digits_val (ip @ fp)) / 10 ^ length fp)"
proof -
  have "\<not> is_digit CHR ''.''" by (simp add: is_digit_def less_eq_char_def)
  with assms show ?thesis
    by (simp add: fp_unsigned_def Let_def takeWhile_digits digits_val_append add_divide_distrib)
qed

lemma fp_unsigned_int:
  "list_all is_digit ip \<Longrightarrow> ip \<noteq> [] \<Longrightarrow> fp_unsigned ip = Some (of_nat (digits_val ip))"
  by (simp add: fp_unsigned_def Let_def takeWhile_all_digits)

text \<open>What a parsed text denotes: an integer over a power of ten, so nothing was rounded.\<close>

lemma fp_unsigned_shape:
  assumes "fp_unsigned s = Some x"
  obtains k n where "x = of_nat k / 10 ^ n" and "k < 10 ^ length s" and "n < length s"
proof -
  have split: "s = takeWhile is_digit s @ dropWhile is_digit s" by simp
  have ip: "list_all is_digit (takeWhile is_digit s)"
    by (auto simp: list_all_iff dest: set_takeWhileD)
  show ?thesis
  proof (cases "dropWhile is_digit s")
    case Nil
    with assms have "x = of_nat (digits_val (takeWhile is_digit s))" and "takeWhile is_digit s \<noteq> []"
      by (auto simp: fp_unsigned_def Let_def split: if_splits)
    moreover have "takeWhile is_digit s = s" using split Nil by simp
    ultimately show ?thesis
      using that [of "digits_val s" 0] digits_val_bound [of s] ip by (auto simp: list_all_iff)
  next
    case (Cons c fp)
    with assms have x: "x = of_nat (digits_val (takeWhile is_digit s)) + of_nat (digits_val fp) / 10 ^ length fp"
      and fp: "list_all is_digit fp"
      by (auto simp: fp_unsigned_def Let_def split: if_splits)
    let ?d = "takeWhile is_digit s @ fp"
    have len: "length s = Suc (length ?d)"
      by (subst split, simp only: Cons) simp
    have "digits_val ?d < 10 ^ length ?d"
      using ip fp by (intro digits_val_bound) simp
    then have "digits_val ?d < 10 ^ length s"
      unfolding len by simp
    moreover have "x = of_nat (digits_val ?d) / 10 ^ length fp"
      by (simp add: x digits_val_append add_divide_distrib)
    ultimately show ?thesis using len by (intro that [of "digits_val ?d" "length fp"]) simp_all
  qed
qed

text \<open>A text of at most 28 characters parses to a Decimal no operation would round.\<close>

lemma drep_fp_text:
  assumes "fp_text s = Some x" and "length s \<le> 28"
  shows "drep x"
proof -
  have main: "drep y" if "fp_unsigned t = Some y" "length t \<le> 28" for t y
  proof -
    from that(1) obtain k n where y: "y = of_nat k / 10 ^ n" and k: "k < 10 ^ length t"
      by (rule fp_unsigned_shape)
    have "k < 10 ^ 28" by (rule less_le_trans [OF k]) (rule power_increasing [OF that(2)], simp)
    then show ?thesis
      by (intro drepI [of _ n "int k"]) (simp_all add: y)
  qed
  show ?thesis using assms
    by (auto simp: fp_text_def split: list.splits if_splits dest!: main)
qed

end
