(* ===== verification/TimeAxis.thy ===== *)
theory TimeAxis
  imports Json
begin

text \<open>
  \<^verbatim>\<open>timeaxis.py\<close>: the one time axis of the replay, exact seconds since the Unix epoch. The calendar and
  \<^verbatim>\<open>datetime.fromisoformat\<close> are those of Python's datetime module (3.11), with every numeric field
  read as ASCII digits; \<^verbatim>\<open>timedelta.total_seconds()\<close> is the float the library returns, and the
  Decimal is built from its shortest text, as \<^verbatim>\<open>Decimal(str(...))\<close> does.
\<close>

section \<open>The proleptic Gregorian calendar\<close>

definition is_leap :: "int \<Rightarrow> bool" where
  "is_leap y \<longleftrightarrow> y mod 4 = 0 \<and> (y mod 100 \<noteq> 0 \<or> y mod 400 = 0)"

definition days_before_year :: "int \<Rightarrow> int" where
  "days_before_year y = (let p = y - 1 in p * 365 + p div 4 - p div 100 + p div 400)"

definition days_in_month :: "int \<Rightarrow> int \<Rightarrow> int" where
  "days_in_month y m = (if m = 2 \<and> is_leap y then 29
     else [31, 28, 31, 30, 31, 30, 31, 31, 30, 31, 30, 31] ! nat (m - 1))"

definition days_before_month :: "int \<Rightarrow> int \<Rightarrow> int" where
  "days_before_month y m =
     [0, 31, 59, 90, 120, 151, 181, 212, 243, 273, 304, 334] ! nat (m - 1)
     + (if 2 < m \<and> is_leap y then 1 else 0)"

definition ymd2ord :: "int \<Rightarrow> int \<Rightarrow> int \<Rightarrow> int" where
  "ymd2ord y m d = days_before_year y + days_before_month y m + d"

definition ord2ymd :: "int \<Rightarrow> int \<times> int \<times> int" where
  "ord2ymd n0 =
     (let n = n0 - 1;
          n400 = n div 146097; n = n mod 146097;
          n100 = n div 36524; n = n mod 36524;
          n4 = n div 1461; n = n mod 1461;
          n1 = n div 365; n = n mod 365;
          year = n400 * 400 + 1 + n100 * 100 + n4 * 4 + n1
      in if n1 = 4 \<or> n100 = 4 then (year - 1, 12, 31)
         else let leap = (n1 = 3 \<and> (n4 \<noteq> 24 \<or> n100 = 3));
                  month = (n + 50) div 32;
                  preceding = [0, 31, 59, 90, 120, 151, 181, 212, 243, 273, 304, 334] ! nat (month - 1)
                              + (if 2 < month \<and> leap then 1 else 0)
              in if preceding > n
                 then let month' = month - 1;
                          preceding' = preceding
                            - ([31, 28, 31, 30, 31, 30, 31, 31, 30, 31, 30, 31] ! nat (month' - 1)
                               + (if month' = 2 \<and> leap then 1 else 0))
                      in (year, month', n - preceding' + 1)
                 else (year, month, n - preceding + 1))"

definition max_ordinal :: int where "max_ordinal = 3652059"
definition epoch_ordinal :: int where "epoch_ordinal = 719163"

definition isoweek1monday :: "int \<Rightarrow> int" where
  "isoweek1monday y =
     (let firstday = ymd2ord y 1 1; firstweekday = (firstday + 6) mod 7;
          monday = firstday - firstweekday
      in if firstweekday > 3 then monday + 7 else monday)"

definition isoweek_ordinal :: "int \<Rightarrow> int \<Rightarrow> int \<Rightarrow> int option" where
  "isoweek_ordinal y w d =
     (let fw = ymd2ord y 1 1 mod 7;
          ord = isoweek1monday y + (w - 1) * 7 + (d - 1)
      in if \<not> (1 \<le> y \<and> y \<le> 9999) then None
         else if \<not> (0 < w \<and> w < 53) \<and> \<not> (w = 53 \<and> (fw = 4 \<or> fw = 3 \<and> is_leap y)) then None
         else if \<not> (0 < d \<and> d < 8) then None
         else if 1 \<le> ord \<and> ord \<le> max_ordinal then Some ord else None)"

definition ymd_ordinal :: "int \<Rightarrow> int \<Rightarrow> int \<Rightarrow> int option" where
  "ymd_ordinal y m d =
     (if 1 \<le> y \<and> y \<le> 9999 \<and> 1 \<le> m \<and> m \<le> 12 \<and> 1 \<le> d \<and> d \<le> days_in_month y m
      then Some (ymd2ord y m d) else None)"

section \<open>Reading an ISO 8601 instant\<close>

text \<open>\<open>int(text)\<close> of a slice that must hold exactly \<open>n\<close> digits.\<close>

definition fixnum :: "nat \<Rightarrow> string \<Rightarrow> int option" where
  "fixnum n s = (if length s = n \<and> list_all is_digit s then Some (int (digits_val s)) else None)"

definition iso_separator :: "string \<Rightarrow> nat option" where
  "iso_separator s =
     (let n = length s in
      if n = 7 then Some 7
      else if s ! 4 = CHR ''-'' then
        (if s ! 5 = CHR ''W'' then
           (if n > 8 \<and> s ! 8 = CHR ''-'' then
              (if n = 9 then None
               else if n > 10 \<and> is_digit (s ! 10) then Some 8 else Some 10)
            else Some 8)
         else Some 10)
      else if s ! 4 = CHR ''W'' then
        (let idx = 7 + length (takeWhile is_digit (drop 7 s))
         in if idx < 9 then Some idx else if idx mod 2 = 0 then Some 7 else Some 8)
      else Some 8)"

definition iso_date :: "string \<Rightarrow> int option" where
  "iso_date s =
     (let sep = (s ! 4 = CHR ''-''); rest = drop (if sep then 5 else 4) s in
      case fixnum 4 (take 4 s) of None \<Rightarrow> None | Some y \<Rightarrow>
      if take 1 rest = ''W'' then
        (case fixnum 2 (take 2 (drop 1 rest)) of None \<Rightarrow> None | Some w \<Rightarrow>
         let r2 = drop 3 rest in
         if r2 = [] then isoweek_ordinal y w 1
         else if (hd r2 = CHR ''-'') \<noteq> sep then None
         else (case fixnum 1 (take 1 (if sep then drop 1 r2 else r2)) of
             None \<Rightarrow> None | Some d \<Rightarrow> isoweek_ordinal y w d))
      else
        (case fixnum 2 (take 2 rest) of None \<Rightarrow> None | Some m \<Rightarrow>
         let r2 = drop 2 rest in
         if (take 1 r2 = ''-'') \<noteq> sep then None
         else (case fixnum 2 (take 2 (if sep then drop 1 r2 else r2)) of
             None \<Rightarrow> None | Some d \<Rightarrow> ymd_ordinal y m d)))"

text \<open>The components \<open>HH[:?MM[:?SS]]\<close> and what follows them.\<close>

fun hms :: "nat \<Rightarrow> bool option \<Rightarrow> string \<Rightarrow> (int list \<times> string) option" where
  "hms left sep s =
     (case fixnum 2 (take 2 s) of None \<Rightarrow> None | Some v \<Rightarrow>
      let r = drop 2 s; sep' = (case sep of None \<Rightarrow> take 1 r = '':'' | Some b \<Rightarrow> b) in
      (case left of 0 \<Rightarrow> Some ([v], r) | Suc left' \<Rightarrow>
       if r = [] then Some ([v], r)
       else if sep' \<and> hd r \<noteq> CHR '':'' then None
       else map_option (apfst ((#) v)) (hms left' (Some sep') (if sep' then drop 1 r else r))))"

definition hms_us :: "string \<Rightarrow> (int \<times> int \<times> int \<times> int) option" where
  "hms_us s =
     (case hms 2 None s of None \<Rightarrow> None | Some (vs, r) \<Rightarrow>
      let h = vs ! 0; m = (if 1 < length vs then vs ! 1 else 0); sec = (if 2 < length vs then vs ! 2 else 0) in
      if r = [] then Some (h, m, sec, 0)
      else if hd r \<noteq> CHR ''.'' \<and> hd r \<noteq> CHR '','' then None
      else (let t = tl r; n = min 6 (length t) in
        if n = 0 \<or> \<not> list_all is_digit t then None
        else Some (h, m, sec, int (digits_val (take n t)) * 10 ^ (6 - n))))"

text \<open>The position of the zone designator: the first \<open>-\<close>, else the first \<open>+\<close>, else the first \<open>Z\<close>.\<close>

definition zone_char :: "string \<Rightarrow> char option" where
  "zone_char s = find (\<lambda>c. c \<in> set s) [CHR ''-'', CHR ''+'', CHR ''Z'']"

text \<open>Microseconds after midnight and the zone's offset in microseconds, \<open>None\<close> for no zone.\<close>

definition iso_time :: "string \<Rightarrow> (int \<times> int option) option" where
  "iso_time s =
     (if length s < 2 then None
      else let main = (case zone_char s of None \<Rightarrow> s | Some z \<Rightarrow> takeWhile (\<lambda>c. c \<noteq> z) s) in
      case hms_us main of None \<Rightarrow> None | Some (h, m, sec, us) \<Rightarrow>
      if \<not> (h \<le> 23 \<and> m \<le> 59 \<and> sec \<le> 59) then None
      else let t = (h * 3600 + m * 60 + sec) * 1000000 + us in
      (case zone_char s of None \<Rightarrow> Some (t, None) | Some z \<Rightarrow>
       let tz = drop (Suc (length main)) s in
       if z = CHR ''Z'' \<and> tz = [] then Some (t, Some 0)
       else if length tz \<in> {0, 1, 3} then None
       else (case hms_us tz of None \<Rightarrow> None | Some (zh, zm, zs, zu) \<Rightarrow>
         let off = (zh * 3600 + zm * 60 + zs) * 1000000 + zu in
         if off < 86400 * 1000000 then Some (t, Some (if z = CHR ''-'' then - off else off)) else None)))"

text \<open>Microseconds since the epoch; an instant with no zone is read as UTC.\<close>

definition iso_micros :: "string \<Rightarrow> int option" where
  "iso_micros s =
     (if length s < 7 then None
      else case iso_separator s of None \<Rightarrow> None | Some k \<Rightarrow>
      case iso_date (take k s) of None \<Rightarrow> None | Some ord \<Rightarrow>
      let t = drop (Suc k) s; base = (ord - epoch_ordinal) * 86400 * 1000000 in
      if t = [] then Some base
      else (case iso_time t of None \<Rightarrow> None
          | Some (us, off) \<Rightarrow> Some (base + us - (case off of None \<Rightarrow> 0 | Some z \<Rightarrow> z))))"

definition total_seconds :: "int \<Rightarrow> rat" where
  "total_seconds us = fround (of_int us / 1000000)"

definition zulu :: "string \<Rightarrow> string" where
  "zulu text = (if text \<noteq> [] \<and> last text \<in> {CHR ''Z'', CHR ''z''} then butlast text @ ''+00:00'' else text)"

definition parse_rfc3339_seconds :: "string option \<Rightarrow> decimal option" where
  "parse_rfc3339_seconds raw =
     (case raw of None \<Rightarrow> None | Some s \<Rightarrow>
      let text = py_strip s in
      if text = [] then None
      else map_option (\<lambda>us. frepr (total_seconds us)) (iso_micros (zulu text)))"

section \<open>Rendering\<close>

text \<open>\<open>int(value)\<close> and \<open>int(value // 1)\<close> of a Decimal truncate toward zero.\<close>

definition dtrunc :: "decimal \<Rightarrow> int" where
  "dtrunc x = (if x < 0 then \<lceil>x\<rceil> else \<lfloor>x\<rfloor>)"

definition seconds_to_days :: "decimal \<Rightarrow> int" where
  "seconds_to_days s = dtrunc (ddiv s 86400)"

definition digit_char :: "nat \<Rightarrow> char" where
  "digit_char n = char_of (48 + n)"

fun show_nat :: "nat \<Rightarrow> string" where
  "show_nat n = (if n < 10 then [digit_char n] else show_nat (n div 10) @ [digit_char (n mod 10)])"

declare show_nat.simps [simp del]

definition pad2 :: "int \<Rightarrow> string" where
  "pad2 n = [digit_char (nat n div 10), digit_char (nat n mod 10)]"

text \<open>\<open>None\<close> is the OverflowError of an instant outside the years 1 to 9999.\<close>

definition render_instant :: "int \<Rightarrow> string option" where
  "render_instant s =
     (let ord = epoch_ordinal + s div 86400; t = s mod 86400 in
      if ord < 1 \<or> max_ordinal < ord then None
      else (case ord2ymd ord of (y, m, d) \<Rightarrow>
        Some (show_nat (nat y) @ ''-'' @ pad2 m @ ''-'' @ pad2 d @ ''T''
              @ pad2 (t div 3600) @ '':'' @ pad2 (t div 60 mod 60) @ '':'' @ pad2 (t mod 60) @ ''Z'')))"

definition seconds_to_rfc3339 :: "decimal option \<Rightarrow> string option option" where
  "seconds_to_rfc3339 seconds =
     (case seconds of None \<Rightarrow> Some None | Some x \<Rightarrow> map_option Some (render_instant (dtrunc x)))"

section \<open>Whole seconds are exact\<close>

text \<open>An integer of at most fifteen digits survives the float and its shortest text.\<close>

lemma fround_int: "\<bar>k\<bar> < 2 ^ 53 \<Longrightarrow> fround (of_int k) = of_int k"
  unfolding fround_def by (rule rsig_exact [of _ _ _ k 0]) simp_all

lemma rsig_int:
  assumes n: "0 < n" and k: "0 < k" "k < 10 ^ 15"
  shows "\<exists>j. rsig 10 n (of_int k) = of_int j \<and> \<bar>j\<bar> \<le> 10 ^ 15"
proof -
  let ?x = "of_int k :: rat"
  define f where "f = flog 10 ?x"
  have fb: "(10 :: rat) powi f \<le> ?x" "?x < 10 powi (f + 1)"
    using flog_bounds [of 10 ?x] k by (simp_all add: f_def)
  have x15: "?x < 10 powi 15"
    using k(2) of_int_less_iff [of k "10 ^ 15", where ?'a = rat] by simp
  then have f15: "f < 15"
    using fb(1) by (intro powi_lt_imp [of 10 f 15]) simp_all
  show ?thesis
  proof (cases "int n - 1 \<le> f")
    case True
    then obtain m where m: "f - (int n - 1) = int m" by (metis diff_ge_0_iff_ge nonneg_int_cases)
    have "rsig 10 n ?x = of_int (rhe (?x / 10 powi int m)) * 10 powi int m"
      using k m by (simp add: rsig_def Let_def f_def [symmetric])
    then have r: "rsig 10 n ?x = of_int (rhe (?x / 10 ^ m) * 10 ^ m)" by simp
    have "rsig 10 n ?x \<le> 10 powi (f + 1)"
      using rsig_pos_bounds(2) [of 10 n ?x] n k by (simp add: f_def)
    also have "\<dots> \<le> 10 powi 15" using f15 by (intro power_int_increasing) simp_all
    finally have "rsig 10 n ?x \<le> of_int (10 ^ 15)" by simp
    moreover have "0 < rsig 10 n ?x" using rsig_pos [of 10 n ?x] n k by simp
    ultimately show ?thesis
      unfolding r of_int_le_iff of_int_0_less_iff by (intro exI conjI) (rule refl, simp)
  next
    case False
    have "?x < 10 powi int n"
      by (rule less_le_trans [OF fb(2)], rule power_int_increasing) (use False in simp_all)
    then have "?x < of_int (10 ^ n)" by (simp only: power_int_of_nat of_int_power of_int_numeral)
    then have "k < 10 ^ n" unfolding of_int_less_iff .
    then have "\<bar>k\<bar> < int 10 ^ n" using k by simp
    then have "rsig 10 n ?x = ?x" using n by (intro rsig_exact [of _ _ _ k 0]) simp_all
    then show ?thesis using k by (intro exI [of _ k]) simp
  qed
qed

lemma frepr_int:
  assumes "0 < k" "k < 10 ^ 15"
  shows "frepr (of_int k) = of_int k"
proof (cases "find (\<lambda>n. fround (rsig 10 n (of_int k)) = of_int k) [1..<18]")
  case (Some n)
  then have n: "0 < n" "fround (rsig 10 n (of_int k)) = of_int k"
    by (auto simp: find_Some_iff nth_Cons split: nat.splits)
  obtain j where j: "rsig 10 n (of_int k) = (of_int j :: rat)" "\<bar>j\<bar> \<le> 10 ^ 15"
    using rsig_int [OF n(1) assms] by blast
  then have "fround (of_int j) = of_int j" by (intro fround_int) simp
  with n(2) j(1) Some show ?thesis by (simp add: frepr_def)
qed (simp add: frepr_def)

lemma seconds_of_instant:
  assumes "iso_micros (zulu (py_strip s)) = Some (k * 1000000)" "py_strip s \<noteq> []" "0 < k" "k < 10 ^ 15"
  shows "parse_rfc3339_seconds (Some s) = Some (of_int k)"
  using assms fround_int [of k] frepr_int [of k]
  by (simp add: parse_rfc3339_seconds_def total_seconds_def Let_def)

end
