(* ===== verification/Fills.thy ===== *)
theory Fills
  imports TimeAxis
begin

text \<open>
  The fill half of \<^verbatim>\<open>models.py\<close>: the value domains, the direction vocabularies, the normalized
  fill, and the operations that build, de-duplicate and group fills. Each parser keeps the branch order of
  the source; every refusal is the \<open>SchemaError\<close> of the sum type.

  The lemmas establish what a normalized fill satisfies (\<open>fill_ok\<close>): a positive quantity, a price on
  the YES axis inside the unit interval with its complementary leg, a non-negative fee, a subaccount in range
  and an exposure that is exactly the one its buy/sell verb and contract imply.
\<close>

section \<open>Value domains\<close>

definition MIN_PRICE_DOLLARS :: decimal where "MIN_PRICE_DOLLARS = 0"
definition MAX_PRICE_DOLLARS :: decimal where "MAX_PRICE_DOLLARS = 1"
definition MIN_PRICE_CENTS :: int where "MIN_PRICE_CENTS = 0"
definition MAX_PRICE_CENTS :: int where "MAX_PRICE_CENTS = 100"
definition ONE :: decimal where "ONE = 1"
definition MIN_FEE_DOLLARS :: decimal where "MIN_FEE_DOLLARS = 0"
definition MIN_SUBACCOUNT_NUMBER :: int where "MIN_SUBACCOUNT_NUMBER = 0"
definition MAX_SUBACCOUNT_NUMBER :: int where "MAX_SUBACCOUNT_NUMBER = 63"

lemmas domain_defs = MIN_PRICE_DOLLARS_def MAX_PRICE_DOLLARS_def MIN_PRICE_CENTS_def MAX_PRICE_CENTS_def
  ONE_def MIN_FEE_DOLLARS_def MIN_SUBACCOUNT_NUMBER_def MAX_SUBACCOUNT_NUMBER_def

definition require_positive_quantity :: "decimal \<Rightarrow> decimal result" where
  "require_positive_quantity x = (if x \<le> 0 then Inl SchemaError else Inr x)"

definition require_non_negative_fee :: "decimal \<Rightarrow> decimal result" where
  "require_non_negative_fee x = (if x < MIN_FEE_DOLLARS then Inl SchemaError else Inr x)"

definition require_price_in_range :: "decimal \<Rightarrow> decimal result" where
  "require_price_in_range x =
     (if \<not> (MIN_PRICE_DOLLARS < x \<and> x < MAX_PRICE_DOLLARS) then Inl SchemaError else Inr x)"

lemma require_Inr [result_simps]:
  "require_positive_quantity x = Inr y \<longleftrightarrow> y = x \<and> 0 < x"
  "require_non_negative_fee x = Inr y \<longleftrightarrow> y = x \<and> 0 \<le> x"
  "require_price_in_range x = Inr y \<longleftrightarrow> y = x \<and> 0 < x \<and> x < 1"
  by (auto simp: require_positive_quantity_def require_non_negative_fee_def require_price_in_range_def domain_defs)

section \<open>Direction\<close>

datatype outcome_side = YesOutcome | NoOutcome
datatype book_side = Bid | Ask
datatype action = Buy | Sell
datatype side = YesSide | NoSide

fun read_outcome_side :: "string \<Rightarrow> outcome_side option" where
  "read_outcome_side s = (if s = ''yes'' then Some YesOutcome else if s = ''no'' then Some NoOutcome else None)"

fun read_book_side :: "string \<Rightarrow> book_side option" where
  "read_book_side s = (if s = ''bid'' then Some Bid else if s = ''ask'' then Some Ask else None)"

fun read_action :: "string \<Rightarrow> action option" where
  "read_action s = (if s = ''buy'' then Some Buy else if s = ''sell'' then Some Sell else None)"

fun read_side :: "string \<Rightarrow> side option" where
  "read_side s = (if s = ''yes'' then Some YesSide else if s = ''no'' then Some NoSide else None)"

fun BOOK_SIDE_TO_OUTCOME :: "book_side \<Rightarrow> outcome_side" where
  "BOOK_SIDE_TO_OUTCOME Bid = YesOutcome"
| "BOOK_SIDE_TO_OUTCOME Ask = NoOutcome"

text \<open>\<open>OutcomeSide(side.value)\<close>.\<close>

fun side_contract :: "side \<Rightarrow> outcome_side" where
  "side_contract YesSide = YesOutcome"
| "side_contract NoSide = NoOutcome"

definition exposure_from_legacy :: "action \<Rightarrow> side \<Rightarrow> outcome_side" where
  "exposure_from_legacy a s = (if (a = Buy) = (s = YesSide) then YesOutcome else NoOutcome)"

record normalized_fill =
  f_fill_id :: string
  f_ticker :: string
  f_outcome_side :: outcome_side
  f_exposure_side :: outcome_side
  f_book_side :: "book_side option"
  f_legacy_action :: "action option"
  f_legacy_side :: "side option"
  f_direction_sources :: "string list"
  f_order_id :: "string option"
  f_trade_id :: "string option"
  f_subaccount_number :: "int option"
  f_count :: "decimal option"
  f_count_source :: "string option"
  f_price_dollars :: "decimal option"
  f_leg_price_dollars :: "decimal option"
  f_price_source :: "string option"
  f_legacy_price_semantics_unproven :: bool
  f_fixed_point_number_typed :: bool
  f_fee_dollars :: "decimal option"
  f_fee_source :: "string option"
  f_is_taker :: "bool option"
  f_created_time :: "string option"
  f_ts :: "int option"

definition has_fee :: "normalized_fill \<Rightarrow> bool" where
  "has_fee f \<longleftrightarrow> f_fee_dollars f \<noteq> None"

type_synonym position_key = "int option \<times> string"

definition position_key :: "normalized_fill \<Rightarrow> position_key" where
  "position_key f = (f_subaccount_number f, f_ticker f)"

section \<open>Quantity, price and fee\<close>

definition parse_quantity :: "jobj \<Rightarrow> (decimal option \<times> string option \<times> bool) result" where
  "parse_quantity raw =
     rbind (parse_fixed_point (jget raw ''count_fp'')) (\<lambda>parsed.
     case parsed of
       Some (x, src) \<Rightarrow>
         rbind (require_positive_quantity x) (\<lambda>v. Inr (Some v, Some ''count_fp'', src = SourceNumber))
     | None \<Rightarrow>
         (case jget raw ''count'' of
            JInt i \<Rightarrow> rbind (require_positive_quantity (of_int i)) (\<lambda>v. Inr (Some v, Some ''count'', False))
          | _ \<Rightarrow> Inr (None, None, False)))"

type_synonym price_fields = "decimal option \<times> decimal option \<times> string option \<times> bool \<times> bool"

text \<open>The dictionary \<open>legs\<close> is the pair of its two possible entries.\<close>

definition resolve_legs ::
  "decimal option \<Rightarrow> decimal option \<Rightarrow> outcome_side \<Rightarrow> string \<Rightarrow> bool \<Rightarrow> decimal \<Rightarrow> price_fields result" where
  "resolve_legs yes no contract source number_typed whole =
     rbind (case (yes, no) of
              (Some y, Some n) \<Rightarrow> if dadd y n \<noteq> whole then Inl SchemaError else Inr y
            | (Some y, None) \<Rightarrow> Inr y
            | (None, Some n) \<Rightarrow> Inr (dsub whole n)
            | (None, None) \<Rightarrow> Inl KeyError)
       (\<lambda>yes_axis. Inr (Some yes_axis,
          Some (if contract = YesOutcome then yes_axis else dsub whole yes_axis),
          Some source, number_typed, False))"

definition parse_price_leg :: "jobj \<Rightarrow> string \<Rightarrow> (decimal \<times> source_type) option result" where
  "parse_price_leg raw key =
     rbind (parse_fixed_point (jget raw key)) (\<lambda>parsed.
     case parsed of
       None \<Rightarrow> Inr None
     | Some (x, src) \<Rightarrow> rbind (require_price_in_range x) (\<lambda>v. Inr (Some (v, src))))"

definition legacy_price_leg :: "jobj \<Rightarrow> string \<Rightarrow> decimal option result" where
  "legacy_price_leg raw key =
     (case jget raw key of
        JInt cents \<Rightarrow>
          if \<not> (MIN_PRICE_CENTS < cents \<and> cents < MAX_PRICE_CENTS) then Inl SchemaError
          else Inr (Some (ddiv (of_int cents) 100))
      | _ \<Rightarrow> Inr None)"

definition typed_as_number :: "(decimal \<times> source_type) option \<Rightarrow> bool" where
  "typed_as_number p = (case p of Some (_, SourceNumber) \<Rightarrow> True | _ \<Rightarrow> False)"

definition parse_price :: "jobj \<Rightarrow> outcome_side \<Rightarrow> bool \<Rightarrow> price_fields result" where
  "parse_price raw contract canonical =
     rbind (parse_price_leg raw ''yes_price_dollars'') (\<lambda>yes.
     rbind (parse_price_leg raw ''no_price_dollars'') (\<lambda>no.
     if yes \<noteq> None \<or> no \<noteq> None then
       resolve_legs (map_option fst yes) (map_option fst no) contract ''unified_price_dollars''
         (typed_as_number yes \<or> typed_as_number no) ONE
     else
       rbind (legacy_price_leg raw ''yes_price'') (\<lambda>lyes.
       rbind (legacy_price_leg raw ''no_price'') (\<lambda>lno.
       if lyes = None \<and> lno = None then Inr (None, None, None, False, False)
       else if \<not> canonical \<and> (lyes = None \<or> lno = None) then Inr (None, None, None, False, True)
       else resolve_legs lyes lno contract ''legacy_price_cents'' False ONE))))"

fun fee_alias :: "jobj \<Rightarrow> string list \<Rightarrow> (decimal option \<times> string option) result" where
  "fee_alias raw [] = Inr (None, None)"
| "fee_alias raw (key # keys) =
     rbind (parse_fixed_point (jget raw key)) (\<lambda>parsed.
     case parsed of
       Some (x, _) \<Rightarrow> rbind (require_non_negative_fee x) (\<lambda>v. Inr (Some v, Some key))
     | None \<Rightarrow> fee_alias raw keys)"

definition parse_fee :: "jobj \<Rightarrow> (decimal option \<times> string option) result" where
  "parse_fee raw =
     (let aliases = fee_alias raw [''fee_cost_dollars'', ''fee_dollars'', ''fees_paid_dollars''] in
      case jget raw ''fee_cost'' of
        JStr s \<Rightarrow>
          if blank s then aliases
          else rbind (parse_fixed_point (JStr s)) (\<lambda>parsed.
            case parsed of
              Some (x, _) \<Rightarrow> rbind (require_non_negative_fee x) (\<lambda>v. Inr (Some v, Some ''fee_cost''))
            | None \<Rightarrow> aliases)
      | JInt i \<Rightarrow>
          rbind (require_non_negative_fee (of_int i)) (\<lambda>v.
            Inr (Some (ddiv v 100), Some ''fee_cost_legacy_cents''))
      | _ \<Rightarrow> aliases)"

section \<open>Contract and exposure\<close>

text \<open>\<open>Enum(text.strip().lower())\<close> of a string that is not blank; anything else carries no evidence.\<close>

definition read_evidence :: "(string \<Rightarrow> 'a option) \<Rightarrow> json \<Rightarrow> 'a option result" where
  "read_evidence read v =
     (case v of
        JStr s \<Rightarrow>
          if blank s then Inr None
          else (case read (py_lower (py_strip s)) of None \<Rightarrow> Inl SchemaError | Some x \<Rightarrow> Inr (Some x))
      | _ \<Rightarrow> Inr None)"

definition read_verb :: "jobj \<Rightarrow> (action \<times> side) option result" where
  "read_verb raw =
     (case (first_present raw [''action''], first_present raw [''side'']) of
        (JStr a, JStr s) \<Rightarrow>
          (case read_action (py_lower (py_strip a)) of
             None \<Rightarrow> Inl SchemaError
           | Some act \<Rightarrow>
               (case read_side (py_lower (py_strip s)) of
                  None \<Rightarrow> Inl SchemaError
                | Some sd \<Rightarrow> Inr (Some (act, sd))))
      | _ \<Rightarrow> Inr None)"

text \<open>The three pieces of contract evidence in their order, each with the contract it names.\<close>

definition contract_candidates ::
  "outcome_side option \<Rightarrow> book_side option \<Rightarrow> (action \<times> side) option \<Rightarrow> (string \<times> outcome_side) list" where
  "contract_candidates oc book verb =
     (case oc of None \<Rightarrow> [] | Some x \<Rightarrow> [(''outcome_side'', x)])
     @ (case book of None \<Rightarrow> [] | Some b \<Rightarrow> [(''book_side'', BOOK_SIDE_TO_OUTCOME b)])
     @ (case verb of None \<Rightarrow> [] | Some (_, s) \<Rightarrow> [(''legacy_side'', side_contract s)])"

record resolved_direction =
  rd_contract :: outcome_side
  rd_exposure :: outcome_side
  rd_book_side :: "book_side option"
  rd_action :: action
  rd_side :: side
  rd_sources :: "string list"

definition resolve_direction :: "jobj \<Rightarrow> resolved_direction result" where
  "resolve_direction raw =
     rbind (read_evidence read_outcome_side (jget raw ''outcome_side'')) (\<lambda>oc.
     rbind (read_evidence read_book_side (jget raw ''book_side'')) (\<lambda>book.
     rbind (read_verb raw) (\<lambda>verb.
     let candidates = contract_candidates oc book verb in
     case remdups (map snd candidates) of
       [] \<Rightarrow> Inl SchemaError
     | [contract] \<Rightarrow>
         (case verb of
            None \<Rightarrow> Inl SchemaError
          | Some (act, sd) \<Rightarrow>
              Inr \<lparr>rd_contract = contract, rd_exposure = exposure_from_legacy act sd,
                   rd_book_side = book, rd_action = act, rd_side = sd,
                   rd_sources = map fst candidates\<rparr>)
     | _ \<Rightarrow> Inl SchemaError)))"

definition parse_subaccount :: "jobj \<Rightarrow> int option result" where
  "parse_subaccount raw =
     (case jget raw ''subaccount_number'' of
        JNull \<Rightarrow> Inr None
      | JInt i \<Rightarrow>
          if \<not> (MIN_SUBACCOUNT_NUMBER \<le> i \<and> i \<le> MAX_SUBACCOUNT_NUMBER) then Inl SchemaError
          else Inr (Some i)
      | _ \<Rightarrow> Inl SchemaError)"

text \<open>A required string field: \<open>isinstance(v, str) and v\<close>.\<close>

definition required_string :: "json \<Rightarrow> string result" where
  "required_string v = (case v of JStr s \<Rightarrow> if s = [] then Inl SchemaError else Inr s | _ \<Rightarrow> Inl SchemaError)"

definition normalize_fill :: "json \<Rightarrow> normalized_fill result" where
  "normalize_fill v =
     (case v of JObj raw \<Rightarrow>
       rbind (required_string (first_present raw [''fill_id'', ''id''])) (\<lambda>fill_id.
       rbind (required_string (first_present raw [''ticker'', ''market_ticker''])) (\<lambda>ticker.
       rbind (resolve_direction raw) (\<lambda>dir.
       rbind (parse_quantity raw) (\<lambda>(count, count_source, count_was_number).
       if count = None then Inl SchemaError else
       let canonical = list_ex (\<lambda>s. s \<in> {''outcome_side'', ''book_side''}) (rd_sources dir) in
       rbind (parse_price raw (rd_contract dir) canonical)
         (\<lambda>(price, leg_price, price_source, price_was_number, price_unproven).
       rbind (parse_fee raw) (\<lambda>(fee, fee_source).
       rbind (parse_subaccount raw) (\<lambda>subaccount.
       Inr \<lparr>f_fill_id = fill_id, f_ticker = ticker,
            f_outcome_side = rd_contract dir, f_exposure_side = rd_exposure dir,
            f_book_side = rd_book_side dir,
            f_legacy_action = Some (rd_action dir), f_legacy_side = Some (rd_side dir),
            f_direction_sources = rd_sources dir,
            f_order_id = jstr (first_present raw [''order_id'']),
            f_trade_id = jstr (first_present raw [''trade_id'']),
            f_subaccount_number = subaccount,
            f_count = count, f_count_source = count_source,
            f_price_dollars = price, f_leg_price_dollars = leg_price, f_price_source = price_source,
            f_legacy_price_semantics_unproven = price_unproven,
            f_fixed_point_number_typed = (count_was_number \<or> price_was_number),
            f_fee_dollars = fee, f_fee_source = fee_source,
            f_is_taker = jbool (jget raw ''is_taker''),
            f_created_time = jstr (jget raw ''created_time''),
            f_ts = jint (jget raw ''ts'')\<rparr>)))))))
     | _ \<Rightarrow> Inl SchemaError)"

section \<open>De-duplication and grouping\<close>

record dedupe_result =
  d_fills :: "normalized_fill list"
  d_duplicate_count :: nat

fun dedupe_loop :: "string list \<Rightarrow> dedupe_result \<Rightarrow> normalized_fill list \<Rightarrow> dedupe_result" where
  "dedupe_loop seen r [] = r"
| "dedupe_loop seen r (f # fs) =
     (if f_fill_id f \<in> set seen
      then dedupe_loop seen (r\<lparr>d_duplicate_count := d_duplicate_count r + 1\<rparr>) fs
      else dedupe_loop (f_fill_id f # seen) (r\<lparr>d_fills := d_fills r @ [f]\<rparr>) fs)"

definition dedupe_fills :: "normalized_fill list \<Rightarrow> dedupe_result" where
  "dedupe_fills fs = dedupe_loop [] \<lparr>d_fills = [], d_duplicate_count = 0\<rparr> fs"

definition has_order_id :: "normalized_fill \<Rightarrow> bool" where
  "has_order_id f \<longleftrightarrow> (case f_order_id f of None \<Rightarrow> False | Some s \<Rightarrow> s \<noteq> [])"

definition group_by_order :: "normalized_fill list \<Rightarrow> (string, normalized_fill list) dict" where
  "group_by_order fs = group_by (the \<circ> f_order_id) (filter has_order_id fs)"

definition count_partial_order_groups :: "normalized_fill list \<Rightarrow> nat" where
  "count_partial_order_groups fs = length (filter (\<lambda>(_, g). 1 < length g) (group_by_order fs))"

section \<open>What a normalized fill satisfies\<close>

definition price_ok :: "outcome_side \<Rightarrow> decimal option \<Rightarrow> decimal option \<Rightarrow> bool" where
  "price_ok contract price leg \<longleftrightarrow>
     (case price of
        None \<Rightarrow> leg = None
      | Some p \<Rightarrow> 0 < p \<and> p \<le> 1 \<and> leg = Some (if contract = YesOutcome then p else dsub 1 p))"

definition direction_ok :: "normalized_fill \<Rightarrow> bool" where
  "direction_ok f \<longleftrightarrow>
     (case (f_legacy_action f, f_legacy_side f) of
        (Some a, Some s) \<Rightarrow>
          f_exposure_side f = exposure_from_legacy a s \<and> f_outcome_side f = side_contract s
          \<and> (case f_book_side f of None \<Rightarrow> True | Some b \<Rightarrow> BOOK_SIDE_TO_OUTCOME b = f_outcome_side f)
      | _ \<Rightarrow> False)"

definition fill_ok :: "normalized_fill \<Rightarrow> bool" where
  "fill_ok f \<longleftrightarrow>
     f_fill_id f \<noteq> [] \<and> f_ticker f \<noteq> []
     \<and> (case f_count f of None \<Rightarrow> False | Some q \<Rightarrow> 0 < q)
     \<and> price_ok (f_outcome_side f) (f_price_dollars f) (f_leg_price_dollars f)
     \<and> (case f_fee_dollars f of None \<Rightarrow> True | Some x \<Rightarrow> 0 \<le> x)
     \<and> (case f_subaccount_number f of None \<Rightarrow> True | Some i \<Rightarrow> 0 \<le> i \<and> i \<le> 63)
     \<and> direction_ok f"

text \<open>A parser outcome: the one exception the code raises, or a value with a property.\<close>

definition outcome :: "('a \<Rightarrow> bool) \<Rightarrow> 'a result \<Rightarrow> bool" where
  "outcome P r = (case r of Inl e \<Rightarrow> e = SchemaError | Inr x \<Rightarrow> P x)"

lemma outcome_simps [simp]: "outcome P (Inl e) \<longleftrightarrow> e = SchemaError" "outcome P (Inr x) \<longleftrightarrow> P x"
  by (simp_all add: outcome_def)

lemma outcome_rbind: "outcome Q r \<Longrightarrow> (\<And>x. Q x \<Longrightarrow> outcome P (f x)) \<Longrightarrow> outcome P (rbind r f)"
  by (cases r) simp_all

lemma outcome_mono: "outcome P r \<Longrightarrow> (\<And>x. P x \<Longrightarrow> Q x) \<Longrightarrow> outcome Q r"
  by (cases r) simp_all

lemma outcome_Inr: "outcome P r \<Longrightarrow> r = Inr x \<Longrightarrow> P x"
  by simp

lemma outcome_parse_fixed_point: "outcome (\<lambda>_. True) (parse_fixed_point v)"
  by (auto simp: parse_fixed_point_def outcome_def split: json.splits option.splits)

lemma outcome_require:
  "outcome (\<lambda>y. 0 < y) (require_positive_quantity x)"
  "outcome (\<lambda>y. 0 \<le> y) (require_non_negative_fee x)"
  "outcome (\<lambda>y. 0 < y \<and> y < 1) (require_price_in_range x)"
  by (simp_all add: require_positive_quantity_def require_non_negative_fee_def require_price_in_range_def domain_defs)

lemma outcome_quantity: "outcome (\<lambda>(q, _). case q of None \<Rightarrow> True | Some x \<Rightarrow> 0 < x) (parse_quantity raw)"
  unfolding parse_quantity_def
  by (rule outcome_rbind [OF outcome_parse_fixed_point])
     (auto split: option.splits json.splits intro!: outcome_rbind [OF outcome_require(1)])

definition leg_ok :: "decimal option \<Rightarrow> bool" where
  "leg_ok p = (case p of None \<Rightarrow> True | Some x \<Rightarrow> 0 < x \<and> x < 1)"

lemma dsub_unit: "0 < x \<Longrightarrow> x < 1 \<Longrightarrow> 0 < dsub 1 x \<and> dsub 1 x \<le> 1"
  using dec.rnd_le_fixed [of "1 - x" 1] drep_numeral(2) by (simp add: dsub_def dec.rnd_pos drep_def)

lemma outcome_resolve_legs:
  assumes "leg_ok yes" "leg_ok no" "yes \<noteq> None \<or> no \<noteq> None"
  shows "outcome (\<lambda>(p, l, _). price_ok contract p l) (resolve_legs yes no contract src nt ONE)"
  unfolding resolve_legs_def
  by (rule outcome_rbind [where Q = "\<lambda>y. 0 < y \<and> y \<le> 1"])
     (use assms dsub_unit in \<open>auto simp: leg_ok_def price_ok_def domain_defs split: option.splits\<close>)

lemma outcome_price_leg: "outcome (\<lambda>p. leg_ok (map_option fst p)) (parse_price_leg raw key)"
  unfolding parse_price_leg_def
  by (rule outcome_rbind [OF outcome_parse_fixed_point])
     (auto simp: leg_ok_def split: option.splits intro!: outcome_rbind [OF outcome_require(3)])

lemma drep_cents: "0 < c \<Longrightarrow> c < 100 \<Longrightarrow> drep (rat_of_int c / 100)"
  by (rule drepI [of _ 2 c]) simp_all

lemma outcome_legacy_leg: "outcome leg_ok (legacy_price_leg raw key)"
proof -
  have "0 < ddiv (rat_of_int c) 100 \<and> ddiv (rat_of_int c) 100 < 1" if "0 < c" "c < 100" for c
    using that drep_cents [OF that] by (simp add: ddiv_exact)
  then show ?thesis
    by (auto simp: legacy_price_leg_def leg_ok_def domain_defs split: json.splits)
qed

lemma outcome_price: "outcome (\<lambda>(p, l, _). price_ok contract p l) (parse_price raw contract canonical)"
proof -
  have none: "price_ok contract None None" by (simp add: price_ok_def)
  show ?thesis
    unfolding parse_price_def
    apply (rule outcome_rbind [OF outcome_price_leg])
    apply (rule outcome_rbind [OF outcome_price_leg])
    apply (simp split del: if_split)
    apply (rule if_split [THEN iffD2], intro conjI impI)
     apply (rule outcome_resolve_legs; simp)
    apply (rule outcome_rbind [OF outcome_legacy_leg])
    apply (rule outcome_rbind [OF outcome_legacy_leg])
    apply (auto simp: none intro!: outcome_resolve_legs)
    done
qed

lemma outcome_fee_alias: "outcome (\<lambda>(x, _). case x of None \<Rightarrow> True | Some v \<Rightarrow> 0 \<le> v) (fee_alias raw keys)"
  by (induction raw keys rule: fee_alias.induct)
     (auto split: option.splits intro!: outcome_rbind [OF outcome_parse_fixed_point] outcome_rbind [OF outcome_require(2)])

lemma outcome_fee: "outcome (\<lambda>(x, _). case x of None \<Rightarrow> True | Some v \<Rightarrow> 0 \<le> v) (parse_fee raw)"
  using outcome_fee_alias [of raw]
  by (auto simp: parse_fee_def Let_def ddiv_def dec.rnd_nonneg split: option.splits json.splits
      intro!: outcome_rbind [OF outcome_parse_fixed_point] outcome_rbind [OF outcome_require(2)])

lemma outcome_subaccount:
  "outcome (\<lambda>x. case x of None \<Rightarrow> True | Some i \<Rightarrow> 0 \<le> i \<and> i \<le> 63) (parse_subaccount raw)"
  by (auto simp: parse_subaccount_def domain_defs split: json.splits)

lemma outcome_required_string: "outcome (\<lambda>s. s \<noteq> []) (required_string v)"
  by (auto simp: required_string_def split: json.splits)

lemma outcome_read_evidence: "outcome (\<lambda>_. True) (read_evidence rd v)"
  by (auto simp: read_evidence_def split: json.splits option.splits)

lemma outcome_read_verb: "outcome (\<lambda>_. True) (read_verb raw)"
  by (auto simp: read_verb_def simp del: read_action.simps read_side.simps split: json.splits option.splits)

definition resolved_ok :: "resolved_direction \<Rightarrow> bool" where
  "resolved_ok d \<longleftrightarrow> rd_exposure d = exposure_from_legacy (rd_action d) (rd_side d)
     \<and> rd_contract d = side_contract (rd_side d)
     \<and> (case rd_book_side d of None \<Rightarrow> True | Some b \<Rightarrow> BOOK_SIDE_TO_OUTCOME b = rd_contract d)"

lemma remdups_singleton: "remdups xs = [y] \<Longrightarrow> x \<in> set xs \<Longrightarrow> x = y"
  by (metis list.set(1,2) set_remdups singletonD)

lemma outcome_direction: "outcome resolved_ok (resolve_direction raw)"
proof -
  have agree: "resolved_ok \<lparr>rd_contract = c, rd_exposure = exposure_from_legacy a s, rd_book_side = b,
      rd_action = a, rd_side = s, rd_sources = src\<rparr>"
    if "remdups (map snd (contract_candidates oc b (Some (a, s)))) = [c]" for c a s b oc src
    using remdups_singleton [OF that]
    by (auto simp: resolved_ok_def contract_candidates_def split: option.splits)
  show ?thesis
    unfolding resolve_direction_def
    by (intro outcome_rbind [OF outcome_read_evidence] outcome_rbind [OF outcome_read_verb])
       (auto simp: agree Let_def split: list.splits option.splits)
qed

lemma outcome_normalize_fill: "outcome fill_ok (normalize_fill v)"
proof (cases v)
  case (JObj raw)
  show ?thesis
    unfolding normalize_fill_def JObj json.case
    apply (rule outcome_rbind [OF outcome_required_string])
    apply (rule outcome_rbind [OF outcome_required_string])
    apply (rule outcome_rbind [OF outcome_direction])
    apply (rule outcome_rbind [OF outcome_quantity])
    apply (clarsimp split del: if_split)
    apply (case_tac a; simp add: Let_def)
    apply (rule outcome_rbind [OF outcome_price])
    apply (clarsimp split del: if_split)
    apply (rule outcome_rbind [OF outcome_fee])
    apply (clarsimp split del: if_split)
    apply (rule outcome_rbind [OF outcome_subaccount])
    apply (auto simp: fill_ok_def direction_ok_def resolved_ok_def split: option.splits)
    done
qed (simp_all add: normalize_fill_def)

lemma fill_ok_count: "fill_ok f \<Longrightarrow> \<exists>q. f_count f = Some q \<and> 0 < q"
  by (auto simp: fill_ok_def split: option.splits)

section \<open>Properties\<close>

text \<open>C1: normalizing any JSON value either raises \<open>SchemaError\<close>, and no other exception, or
  yields a fill with a positive quantity, a price inside the unit interval whose leg price complements it, a
  non-negative fee, a subaccount in 0..63, and an exposure and contract that agree with its buy/sell verb, its
  side and its book side.\<close>
theorem normalize_fill_sound: "outcome fill_ok (normalize_fill v)"
  by (rule outcome_normalize_fill)

lemma case_list_const: "(case xs of [] \<Rightarrow> x | c # cs \<Rightarrow> (case cs of [] \<Rightarrow> x | _ \<Rightarrow> x)) = x"
  by (simp split: list.split)

lemma direction_needs_verb:
  assumes "\<nexists>s. first_present raw [''action''] = JStr s"
  shows "resolve_direction raw = Inl SchemaError"
proof -
  have "read_verb raw = Inr None"
    using assms by (auto simp: read_verb_def split: json.splits)
  then have "resolve_direction raw = Inr d \<Longrightarrow> False" for d
    by (auto simp: resolve_direction_def result_simps Let_def case_list_const cong: list.case_cong)
  then show ?thesis using outcome_direction [of raw]
    by (cases "resolve_direction raw") auto
qed

lemma normalize_fill_direction:
  "normalize_fill (JObj raw) = Inr f \<Longrightarrow> \<exists>d. resolve_direction raw = Inr d"
  by (auto simp: normalize_fill_def result_simps)

text \<open>A payload without a string buy/sell verb is refused, whatever its outcome side and book side say:
  the direction of a fill is never assumed.\<close>
theorem normalize_fill_needs_verb:
  assumes "\<nexists>s. first_present raw [''action''] = JStr s"
  shows "normalize_fill (JObj raw) = Inl SchemaError"
  using outcome_normalize_fill [of "JObj raw"] normalize_fill_direction [of raw] direction_needs_verb [OF assms]
  by (cases "normalize_fill (JObj raw)") auto

text \<open>The payload of the witness: a complete canonical fill without its verb.\<close>

definition verbless_payload :: jobj where
  "verbless_payload = [(''fill_id'', JStr ''F1''), (''ticker'', JStr ''T''), (''outcome_side'', JStr ''no''),
     (''book_side'', JStr ''ask''), (''count_fp'', JStr ''10.00''), (''yes_price_dollars'', JStr ''0.56'')]"

theorem normalize_fill_needs_verb_witness: "normalize_fill (JObj verbless_payload) = Inl SchemaError"
  by (rule normalize_fill_needs_verb) (simp add: verbless_payload_def first_present_def jget_def present_def)

section \<open>De-duplication\<close>

lemma dedupe_loop_eq:
  "dedupe_loop seen r fs =
     r\<lparr>d_fills := d_fills r @ dedupe_acc f_fill_id seen fs,
       d_duplicate_count := d_duplicate_count r + (length fs - length (dedupe_acc f_fill_id seen fs))\<rparr>"
proof (induction seen r fs rule: dedupe_loop.induct)
  case (2 seen r f fs)
  then show ?case
    using length_dedupe_acc [of f_fill_id seen fs] by (simp add: Suc_diff_le)
qed simp

lemma d_fills_dedupe [simp]: "d_fills (dedupe_fills fs) = dedupe_by f_fill_id fs"
  by (simp add: dedupe_fills_def dedupe_loop_eq dedupe_by_def)

lemma d_count_dedupe [simp]: "d_duplicate_count (dedupe_fills fs) = length fs - length (dedupe_by f_fill_id fs)"
  by (simp add: dedupe_fills_def dedupe_loop_eq dedupe_by_def)

end
