(* ===== verification/Settlements.thy ===== *)
theory Settlements
  imports Fills
begin

text \<open>
  The settlement half of \<^verbatim>\<open>models.py\<close>: one market's settlement row, normalized. Quantities and
  costs arrive as fixed-point dollars, \<^verbatim>\<open>revenue\<close> and \<^verbatim>\<open>value\<close> as cents, and the
  conversion is the exact Decimal division by one hundred.
\<close>

definition CENTS_PER_DOLLAR :: decimal where "CENTS_PER_DOLLAR = 100"
definition ZERO_QUANTITY :: decimal where "ZERO_QUANTITY = 0"

record normalized_settlement =
  s_ticker :: string
  s_settled_time :: string
  s_market_result :: string
  s_revenue_dollars :: decimal
  s_market_value_dollars :: "decimal option"
  s_fee_dollars :: "decimal option"
  s_yes_count :: "decimal option"
  s_no_count :: "decimal option"
  s_yes_cost_dollars :: "decimal option"
  s_no_cost_dollars :: "decimal option"

definition settled_at :: "normalized_settlement \<Rightarrow> decimal option" where
  "settled_at s = parse_rfc3339_seconds (Some (s_settled_time s))"

text \<open>\<open>self.yes_count or ZERO_QUANTITY\<close>: an absent and a zero count are both zero.\<close>

definition count_or_zero :: "decimal option \<Rightarrow> decimal" where
  "count_or_zero c = (case c of None \<Rightarrow> ZERO_QUANTITY | Some q \<Rightarrow> q)"

definition settled_quantity :: "normalized_settlement \<Rightarrow> decimal option" where
  "settled_quantity s =
     (if s_yes_count s = None \<and> s_no_count s = None then None
      else Some (dsub (count_or_zero (s_yes_count s)) (count_or_zero (s_no_count s))))"

definition cents_to_dollars :: "json \<Rightarrow> decimal option result" where
  "cents_to_dollars raw =
     rbind (parse_fixed_point raw) (\<lambda>parsed. Inr (map_option (\<lambda>p. ddiv (fst p) CENTS_PER_DOLLAR) parsed))"

definition settlement_number :: "jobj \<Rightarrow> string \<Rightarrow> decimal option result" where
  "settlement_number raw key = rbind (parse_fixed_point (jget raw key)) (\<lambda>parsed. Inr (map_option fst parsed))"

definition settlement_text :: "json \<Rightarrow> string result" where
  "settlement_text v = (case v of JStr s \<Rightarrow> if blank s then Inl SchemaError else Inr s | _ \<Rightarrow> Inl SchemaError)"

definition normalize_settlement :: "json \<Rightarrow> normalized_settlement result" where
  "normalize_settlement v =
     (case v of JObj raw \<Rightarrow>
       rbind (settlement_text (first_present raw [''ticker'', ''market_ticker''])) (\<lambda>ticker.
       rbind (settlement_text (jget raw ''settled_time'')) (\<lambda>settled_time.
       rbind (settlement_text (first_present raw [''market_result'', ''result''])) (\<lambda>mresult.
       rbind (cents_to_dollars (jget raw ''revenue'')) (\<lambda>revenue.
       case revenue of None \<Rightarrow> Inl SchemaError | Some payout \<Rightarrow>
       rbind (cents_to_dollars (jget raw ''value'')) (\<lambda>val.
       rbind (settlement_number raw ''fee_cost'') (\<lambda>fee.
       rbind (settlement_number raw ''yes_count_fp'') (\<lambda>yes_count.
       rbind (settlement_number raw ''no_count_fp'') (\<lambda>no_count.
       rbind (settlement_number raw ''yes_total_cost_dollars'') (\<lambda>yes_cost.
       rbind (settlement_number raw ''no_total_cost_dollars'') (\<lambda>no_cost.
       Inr \<lparr>s_ticker = py_strip ticker, s_settled_time = py_strip settled_time,
            s_market_result = py_lower (py_strip mresult), s_revenue_dollars = payout,
            s_market_value_dollars = val, s_fee_dollars = fee,
            s_yes_count = yes_count, s_no_count = no_count,
            s_yes_cost_dollars = yes_cost, s_no_cost_dollars = no_cost\<rparr>))))))))))
     | _ \<Rightarrow> Inl SchemaError)"

section \<open>What a normalized settlement satisfies\<close>

lemma outcome_settlement_text: "outcome (\<lambda>s. \<not> blank s) (settlement_text v)"
  by (auto simp: settlement_text_def split: json.splits)

lemma outcome_cents: "outcome (\<lambda>x. case x of None \<Rightarrow> True | Some d \<Rightarrow> drep d) (cents_to_dollars v)"
  unfolding cents_to_dollars_def
  by (rule outcome_rbind [OF outcome_parse_fixed_point]) (auto split: option.splits)

lemma outcome_settlement_number: "outcome (\<lambda>_. True) (settlement_number raw key)"
  unfolding settlement_number_def by (rule outcome_rbind [OF outcome_parse_fixed_point]) simp

text \<open>An integer number of cents converts without rounding.\<close>

lemma cents_to_dollars_int:
  assumes "\<bar>i\<bar> < 10 ^ 28"
  shows "cents_to_dollars (JInt i) = Inr (Some (of_int i / 100))"
proof -
  have "drep (of_int i / 100 :: rat)"
    by (rule drepI [of _ 2 i]) (use assms in simp_all)
  then show ?thesis
    by (simp add: cents_to_dollars_def parse_fixed_point_def CENTS_PER_DOLLAR_def ddiv_exact)
qed

definition settlement_ok :: "normalized_settlement \<Rightarrow> bool" where
  "settlement_ok s \<longleftrightarrow> s_ticker s \<noteq> [] \<and> s_settled_time s \<noteq> [] \<and> s_market_result s \<noteq> [] \<and> drep (s_revenue_dollars s)"

lemma outcome_normalize_settlement: "outcome settlement_ok (normalize_settlement v)"
proof (cases v)
  case (JObj raw)
  show ?thesis
    unfolding normalize_settlement_def JObj json.case
    apply (rule outcome_rbind [OF outcome_settlement_text])
    apply (rule outcome_rbind [OF outcome_settlement_text])
    apply (rule outcome_rbind [OF outcome_settlement_text])
    apply (rule outcome_rbind [OF outcome_cents])
    apply (rule option.split [THEN iffD2], intro conjI allI impI, simp)
    apply (intro outcome_rbind [OF outcome_cents] outcome_rbind [OF outcome_settlement_number])
    apply (auto simp: settlement_ok_def blank_def py_lower_def)
    done
qed (simp_all add: normalize_settlement_def)

text \<open>The settled quantity is the signed YES-axis size: positive for YES held, negative for NO held.\<close>

lemma settled_quantity_sign:
  "settled_quantity s = Some q \<Longrightarrow> 0 < q \<longleftrightarrow> count_or_zero (s_no_count s) < count_or_zero (s_yes_count s)"
  by (auto simp: settled_quantity_def dsub_def dec.rnd_pos split: if_splits)

end
