(* ===== verification/Sha256.thy ===== *)
theory Sha256
  imports Prelude "HOL-Library.Word"
begin

text \<open>
  \<^verbatim>\<open>hashlib.sha256(text.encode("utf-8")).hexdigest()\<close> (FIPS 180-4) on 32-bit words: the
  library call behind every source id the code derives. A string is ASCII, so its UTF-8 bytes are its
  character codes.
\<close>

unbundle bit_operations_syntax

type_synonym byte = "8 word"
type_synonym w32 = "32 word"

text \<open>
  The constants, as the standard defines them: the first 32 bits of the fractional parts of the cube roots of
  the first 64 primes, and of the square roots of the first eight.
\<close>

definition prime_upto :: "int \<Rightarrow> bool" where
  "prime_upto n \<longleftrightarrow> 2 \<le> n \<and> list_all (\<lambda>d. n mod d \<noteq> 0) [2..n - 1]"

definition small_primes :: "int list" where
  "small_primes = filter prime_upto [2..311]"

text \<open>The largest \<open>r\<close> with \<open>r ^ e \<le> n\<close>, bit by bit.\<close>

definition int_root :: "nat \<Rightarrow> int \<Rightarrow> int" where
  "int_root e n = foldl (\<lambda>r b. if (r + 2 ^ b) ^ e \<le> n then r + 2 ^ b else r) 0 (rev [0..<40])"

definition sha_k :: "w32 list" where
  "sha_k = map (\<lambda>q. word_of_int (int_root 3 (q * 2 ^ 96))) small_primes"

type_synonym sha_state = "w32 list"

definition sha_init :: sha_state where
  "sha_init = map (\<lambda>q. word_of_int (int_root 2 (q * 2 ^ 64))) (take 8 small_primes)"

definition rotr :: "nat \<Rightarrow> w32 \<Rightarrow> w32" where
  "rotr n x = drop_bit n x OR push_bit (32 - n) x"

definition big_sigma0 :: "w32 \<Rightarrow> w32" where "big_sigma0 x = rotr 2 x XOR rotr 13 x XOR rotr 22 x"
definition big_sigma1 :: "w32 \<Rightarrow> w32" where "big_sigma1 x = rotr 6 x XOR rotr 11 x XOR rotr 25 x"
definition small_sigma0 :: "w32 \<Rightarrow> w32" where "small_sigma0 x = rotr 7 x XOR rotr 18 x XOR drop_bit 3 x"
definition small_sigma1 :: "w32 \<Rightarrow> w32" where "small_sigma1 x = rotr 17 x XOR rotr 19 x XOR drop_bit 10 x"

text \<open>The message in bytes, a one bit, zeros and the bit length: a whole number of 64-byte blocks.\<close>

definition pad_zeros :: "nat \<Rightarrow> nat" where
  "pad_zeros n = (119 - n mod 64) mod 64"

definition be_bytes :: "nat \<Rightarrow> int \<Rightarrow> byte list" where
  "be_bytes width n = map (\<lambda>i. word_of_int (n div 256 ^ (width - 1 - i))) [0..<width]"

definition sha_pad :: "byte list \<Rightarrow> byte list" where
  "sha_pad m = m @ [0x80] @ replicate (pad_zeros (length m)) 0 @ be_bytes 8 (8 * int (length m))"

fun be_words :: "byte list \<Rightarrow> w32 list" where
  "be_words (a # b # c # d # r) =
     (push_bit 24 (ucast a) OR push_bit 16 (ucast b) OR push_bit 8 (ucast c) OR ucast d) # be_words r"
| "be_words _ = []"

fun sha_schedule :: "nat \<Rightarrow> w32 list \<Rightarrow> w32 list" where
  "sha_schedule 0 w = w"
| "sha_schedule (Suc n) w =
     (let t = length w;
          x = small_sigma1 (w ! (t - 2)) + w ! (t - 7) + small_sigma0 (w ! (t - 15)) + w ! (t - 16)
      in sha_schedule n (w @ [x]))"

fun sha_round :: "sha_state \<Rightarrow> w32 \<times> w32 \<Rightarrow> sha_state" where
  "sha_round [a, b, c, d, e, f, g, h] (k, w) =
     (let t1 = h + big_sigma1 e + ((e AND f) XOR (NOT e AND g)) + k + w;
          t2 = big_sigma0 a + ((a AND b) XOR (a AND c) XOR (b AND c))
      in [t1 + t2, a, b, c, d + t1, e, f, g])"
| "sha_round st _ = st"

definition sha_compress :: "sha_state \<Rightarrow> byte list \<Rightarrow> sha_state" where
  "sha_compress st block =
     map2 (+) st (foldl sha_round st (zip sha_k (sha_schedule 48 (be_words block))))"

fun sha_blocks :: "sha_state \<Rightarrow> byte list \<Rightarrow> sha_state" where
  "sha_blocks st [] = st"
| "sha_blocks st (b # bs) = sha_blocks (sha_compress st (b # take 63 bs)) (drop 63 bs)"

definition hex_char :: "nat \<Rightarrow> char" where
  "hex_char n = ''0123456789abcdef'' ! n"

definition hex_word :: "w32 \<Rightarrow> string" where
  "hex_word w = map (\<lambda>i. hex_char (unat (drop_bit (28 - 4 * i) w) mod 16)) [0..<8]"

definition utf8 :: "string \<Rightarrow> byte list" where
  "utf8 s = map (\<lambda>c. word_of_nat (of_char c)) s"

definition sha256_hex :: "string \<Rightarrow> string" where
  "sha256_hex s = concat (map hex_word (sha_blocks sha_init (sha_pad (utf8 s))))"

section \<open>Shape of a digest\<close>

lemma length_sha_init: "length sha_init = 8"
proof -
  have "filter prime_upto [2..19] = [2, 3, 5, 7, 11, 13, 17, 19]" by code_simp
  moreover have "[2..311] = [2..19] @ [20..311 :: int]" using upto_split1 [of 2 20 311] by simp
  ultimately have "8 \<le> length small_primes" by (simp add: small_primes_def del: upto_rec_numeral)
  then show ?thesis by (simp add: sha_init_def)
qed

lemma length_sha_round: "length st = 8 \<Longrightarrow> length (sha_round st kw) = 8"
  by (cases "(st, kw)" rule: sha_round.cases) (auto simp: Let_def)

lemma length_sha_rounds: "length st = 8 \<Longrightarrow> length (foldl sha_round st kws) = 8"
  by (induction kws arbitrary: st) (simp_all add: length_sha_round)

lemma length_sha_blocks: "length st = 8 \<Longrightarrow> length (sha_blocks st m) = 8"
  by (induction st m rule: sha_blocks.induct) (simp_all add: sha_compress_def length_sha_rounds)

lemma length_hex_word [simp]: "length (hex_word w) = 8"
  by (simp add: hex_word_def)

lemma length_sha256_hex [simp]: "length (sha256_hex s) = 64"
proof -
  have "length (concat (map hex_word ws)) = 8 * length ws" for ws
    by (induction ws) simp_all
  then show ?thesis
    by (simp add: sha256_hex_def length_sha_blocks length_sha_init)
qed

lemma pad_arith: "(n + 9 + (119 - n mod 64) mod 64) mod 64 = (0 :: nat)"
proof -
  have "n mod 64 < 64" by simp
  then have "(n mod 64 + 9 + (119 - n mod 64)) mod 64 = 0" by simp
  then show ?thesis by (metis (no_types, opaque_lifting) mod_add_eq mod_add_left_eq mod_mod_trivial)
qed

lemma length_sha_pad: "64 dvd length (sha_pad m)"
  using pad_arith [of "length m"]
  by (simp add: sha_pad_def pad_zeros_def be_bytes_def mod_eq_0_iff_dvd ac_simps)

lemma hex_char_set: "n < 16 \<Longrightarrow> hex_char n \<in> set ''0123456789abcdef''"
  unfolding hex_char_def by (rule nth_mem) simp

lemma hex_word_chars: "set (hex_word w) \<subseteq> set ''0123456789abcdef''"
  unfolding hex_word_def by (auto simp del: list.set intro!: hex_char_set)

lemma sha256_hex_chars: "set (sha256_hex s) \<subseteq> set ''0123456789abcdef''"
  unfolding sha256_hex_def set_concat set_map using hex_word_chars by blast

end
