(* ===== verification/Execution.thy ===== *)
theory Execution
  imports Settlements Sha256
begin

text \<open>
  \<^verbatim>\<open>accounting/identity.py\<close>, \<^verbatim>\<open>accounting/ordering.py\<close> and \<^verbatim>\<open>accounting/execution.py\<close>:
  the identities, the canonical replay order, and the summary of the fills of one submitted order.

  The lemmas show that the order of a replay depends only on the set of fills, that source keys of distinct
  episodes are distinct, that every order summary keeps exactly the fills of its order, and that the
  weighted average price is the exact ratio, rounded once, on Kalshi's six-decimal grid.
\<close>

section \<open>Identities\<close>

definition NAMESPACE :: string where "NAMESPACE = ''kalshi''"

datatype identity = StableIdentity string | ProvisionalIdentity string

definition digest_for :: "string \<Rightarrow> string" where
  "digest_for source_key = sha256_hex source_key"

fun is_importable_identity :: "identity \<Rightarrow> bool" where
  "is_importable_identity (StableIdentity _) = True"
| "is_importable_identity (ProvisionalIdentity _) = False"

text \<open>Decimal text of a Python integer.\<close>

definition show_int :: "int \<Rightarrow> string" where
  "show_int i = (if i < 0 then CHR ''-'' # show_nat (nat (- i)) else show_nat (nat i))"

definition fill_source_key :: "string \<Rightarrow> string" where
  "fill_source_key fill_id = NAMESPACE @ '':fill:'' @ fill_id"

definition order_source_key :: "string \<Rightarrow> string" where
  "order_source_key order_id = NAMESPACE @ '':order:'' @ order_id"

definition account_text :: "int option \<Rightarrow> string" where
  "account_text subaccount = (case subaccount of None \<Rightarrow> ''default'' | Some i \<Rightarrow> show_int i)"

definition episode_source_key :: "int option \<Rightarrow> string \<Rightarrow> string \<Rightarrow> string" where
  "episode_source_key subaccount ticker opening_fill_id =
     NAMESPACE @ '':episode:'' @ account_text subaccount @ '':'' @ ticker @ '':'' @ opening_fill_id"

fun require_importable_identity :: "identity \<Rightarrow> string result" where
  "require_importable_identity (StableIdentity key) = Inr key"
| "require_importable_identity (ProvisionalIdentity _) = Inl IdentityNotImportable"

section \<open>Canonical order\<close>

definition parse_execution_time :: "normalized_fill \<Rightarrow> decimal result" where
  "parse_execution_time f =
     (case parse_rfc3339_seconds (f_created_time f) of
        Some t \<Rightarrow> Inr t
      | None \<Rightarrow> (case f_ts f of Some i \<Rightarrow> Inr (of_int i) | None \<Rightarrow> Inl SchemaError))"

type_synonym sort_key_type = "decimal \<times> string"

definition canonical_fill_sort_key :: "normalized_fill \<Rightarrow> sort_key_type result" where
  "canonical_fill_sort_key f = rbind (parse_execution_time f) (\<lambda>t. Inr (t, f_fill_id f))"

text \<open>\<open>sorted(fills, key=...)\<close>: every key is computed first, then a stable sort.\<close>

definition sort_fills :: "normalized_fill list \<Rightarrow> normalized_fill list result" where
  "sort_fills fs =
     rbind (traverse canonical_fill_sort_key fs) (\<lambda>ks. Inr (map snd (sort_key fst (zip ks fs))))"

section \<open>Order execution groups\<close>

record order_execution =
  o_order_id :: string
  o_ticker :: string
  o_outcome_side :: outcome_side
  o_book_side :: "book_side option"
  o_subaccount_number :: "int option"
  o_total_quantity :: decimal
  o_fill_count :: nat
  o_fill_ids :: "string list"
  o_first_execution_time :: decimal
  o_last_execution_time :: decimal
  o_vwap_price :: "decimal option"
  o_total_fee :: "decimal option"
  o_fills_with_fee :: nat
  o_all_taker :: "bool option"
  o_exposure_side :: "outcome_side option"
  o_legacy_action :: "action option"

definition is_sell :: "order_execution \<Rightarrow> bool" where
  "is_sell x \<longleftrightarrow> o_exposure_side x \<noteq> None \<and> o_exposure_side x \<noteq> Some (o_outcome_side x)"

definition o_source_key :: "order_execution \<Rightarrow> string" where
  "o_source_key x = order_source_key (o_order_id x)"

definition o_source_id :: "order_execution \<Rightarrow> string" where
  "o_source_id x = digest_for (o_source_key x)"

definition is_partially_filled_order :: "order_execution \<Rightarrow> bool" where
  "is_partially_filled_order x \<longleftrightarrow> 1 < o_fill_count x"

definition fee_complete :: "order_execution \<Rightarrow> bool" where
  "fee_complete x \<longleftrightarrow> o_total_fee x \<noteq> None"

record order_stats =
  os_orders :: nat
  os_partial_orders :: nat
  os_fills_without_order_id :: nat
  os_orders_with_complete_fees :: nat
  os_orders_missing_fees :: nat
  os_orders_without_price :: nat

definition no_order_stats :: order_stats where
  "no_order_stats = \<lparr>os_orders = 0, os_partial_orders = 0, os_fills_without_order_id = 0,
     os_orders_with_complete_fees = 0, os_orders_missing_fees = 0, os_orders_without_price = 0\<rparr>"

fun vwap_loop :: "decimal \<Rightarrow> decimal \<Rightarrow> normalized_fill list \<Rightarrow> decimal option" where
  "vwap_loop notional quantity [] = (if quantity = 0 then None else Some (ddiv notional quantity))"
| "vwap_loop notional quantity (f # fs) =
     (case (f_price_dollars f, f_count f) of
        (Some p, Some q) \<Rightarrow> vwap_loop (dadd notional (dmul p q)) (dadd quantity q) fs
      | _ \<Rightarrow> None)"

definition weighted_average_price :: "normalized_fill list \<Rightarrow> decimal option" where
  "weighted_average_price fs = vwap_loop 0 0 fs"

text \<open>\<open>len({key(f) for f in fills}) > 1\<close>.\<close>

definition spans :: "('a \<Rightarrow> 'b) \<Rightarrow> 'a list \<Rightarrow> bool" where
  "spans key xs \<longleftrightarrow> 1 < length (remdups (map key xs))"

definition summarize_order :: "string \<Rightarrow> normalized_fill list \<Rightarrow> order_execution result" where
  "summarize_order order_id grp =
     rbind (sort_fills grp) (\<lambda>ordered.
     let book_sides = remdups (List.map_filter f_book_side ordered);
         fees = map f_fee_dollars ordered;
         with_fee = length (filter (\<lambda>x. x \<noteq> None) fees);
         taker_flags = remdups (map f_is_taker ordered);
         actions = remdups (map f_legacy_action ordered)
     in
     if spans f_ticker ordered then Inl SchemaError
     else if spans f_outcome_side ordered then Inl SchemaError
     else if spans f_exposure_side ordered then Inl SchemaError
     else if 1 < length book_sides then Inl SchemaError
     else if spans f_subaccount_number ordered then Inl SchemaError
     else if list_ex (\<lambda>f. f_count f = None) ordered then Inl SchemaError
     else
       rbind (parse_execution_time (hd ordered)) (\<lambda>first_time.
       rbind (parse_execution_time (last ordered)) (\<lambda>last_time.
       Inr \<lparr>o_order_id = order_id, o_ticker = f_ticker (hd ordered),
            o_outcome_side = f_outcome_side (hd ordered),
            o_book_side = (case book_sides of [] \<Rightarrow> None | b # _ \<Rightarrow> Some b),
            o_subaccount_number = f_subaccount_number (hd ordered),
            o_total_quantity = dsum (map (the \<circ> f_count) ordered),
            o_fill_count = length ordered,
            o_fill_ids = map f_fill_id ordered,
            o_first_execution_time = first_time,
            o_last_execution_time = last_time,
            o_vwap_price = weighted_average_price ordered,
            o_total_fee = (if with_fee = length ordered then Some (dsum (map the fees)) else None),
            o_fills_with_fee = with_fee,
            o_all_taker = (case taker_flags of [t] \<Rightarrow> t | _ \<Rightarrow> None),
            o_exposure_side = Some (f_exposure_side (hd ordered)),
            o_legacy_action = (case actions of [a] \<Rightarrow> a | _ \<Rightarrow> None)\<rparr>)))"

definition count_order :: "order_execution \<Rightarrow> order_stats \<Rightarrow> order_stats" where
  "count_order x st = st\<lparr>
     os_orders := os_orders st + 1,
     os_partial_orders := os_partial_orders st + (if is_partially_filled_order x then 1 else 0),
     os_orders_with_complete_fees := os_orders_with_complete_fees st + (if fee_complete x then 1 else 0),
     os_orders_missing_fees := os_orders_missing_fees st + (if fee_complete x then 0 else 1),
     os_orders_without_price := os_orders_without_price st + (if o_vwap_price x = None then 1 else 0)\<rparr>"

fun aggregate_groups ::
  "(string \<times> normalized_fill list) list \<Rightarrow> (string, order_execution) dict \<Rightarrow> order_stats
    \<Rightarrow> ((string, order_execution) dict \<times> order_stats) result" where
  "aggregate_groups [] executions st = Inr (executions, st)"
| "aggregate_groups ((oid, g) # gs) executions st =
     rbind (summarize_order oid g) (\<lambda>x. aggregate_groups gs (dput oid x executions) (count_order x st))"

definition aggregate_orders ::
  "normalized_fill list \<Rightarrow> order_stats \<Rightarrow> ((string, order_execution) dict \<times> order_stats) result" where
  "aggregate_orders fs st =
     aggregate_groups (group_by_order fs) []
       (st\<lparr>os_fills_without_order_id := os_fills_without_order_id st + length (filter (Not \<circ> has_order_id) fs)\<rparr>)"

section \<open>The canonical order is a function of the set of fills\<close>

definition timed :: "normalized_fill \<Rightarrow> bool" where
  "timed f \<longleftrightarrow> parse_rfc3339_seconds (f_created_time f) \<noteq> None \<or> f_ts f \<noteq> None"

definition exec_time :: "normalized_fill \<Rightarrow> decimal" where
  "exec_time f = (case parse_execution_time f of Inl _ \<Rightarrow> 0 | Inr t \<Rightarrow> t)"

definition replay_key :: "normalized_fill \<Rightarrow> sort_key_type" where
  "replay_key f = (exec_time f, f_fill_id f)"

lemma parse_execution_time_eq:
  "parse_execution_time f = (if timed f then Inr (exec_time f) else Inl SchemaError)"
  by (auto simp: exec_time_def timed_def parse_execution_time_def split: option.splits)

lemma sort_key_decorated:
  "sort_key fst (map (\<lambda>x. (k x, x)) xs) = map (\<lambda>x. (k x, x)) (sort_key k xs)"
proof -
  have "insort_key fst (k x, x) (map (\<lambda>x. (k x, x)) ys) = map (\<lambda>x. (k x, x)) (insort_key k x ys)" for x ys
    by (induction ys) auto
  then show ?thesis by (induction xs) simp_all
qed

lemma traverse_all: "(\<forall>x \<in> set xs. f x = Inr (g x)) \<Longrightarrow> traverse f xs = Inr (map g xs)"
  by (induction xs) auto

lemma traverse_fail:
  "(\<forall>x \<in> set xs. f x = (if P x then Inr (g x) else Inl e)) \<Longrightarrow> \<not> (\<forall>x \<in> set xs. P x) \<Longrightarrow> traverse f xs = Inl e"
proof (induction xs)
  case (Cons x xs)
  then show ?case by (cases "\<forall>y \<in> set xs. P y") (auto simp: traverse_all [where g = g])
qed simp

lemma sort_fills_eq:
  "sort_fills fs = (if \<forall>f \<in> set fs. timed f then Inr (sort_key replay_key fs) else Inl SchemaError)"
proof (cases "\<forall>f \<in> set fs. timed f")
  case True
  then have "traverse canonical_fill_sort_key fs = Inr (map replay_key fs)"
    by (intro traverse_all) (simp add: canonical_fill_sort_key_def parse_execution_time_eq replay_key_def)
  moreover have "zip (map replay_key fs) fs = map (\<lambda>f. (replay_key f, f)) fs"
    by (simp add: zip_map1 zip_same_conv_map)
  ultimately show ?thesis
    using True by (simp add: sort_fills_def sort_key_decorated comp_def)
next
  case False
  then have "traverse canonical_fill_sort_key fs = Inl SchemaError"
    by (intro traverse_fail [where P = timed and g = replay_key])
       (simp_all add: canonical_fill_sort_key_def parse_execution_time_eq replay_key_def)
  with False show ?thesis by (simp add: sort_fills_def)
qed

lemma sort_fills_Inr [result_simps]:
  "sort_fills fs = Inr gs \<longleftrightarrow> (\<forall>f \<in> set fs. timed f) \<and> gs = sort_key replay_key fs"
  by (auto simp: sort_fills_eq)

lemma mset_sort_fills: "sort_fills fs = Inr gs \<Longrightarrow> mset gs = mset fs"
  by (simp add: sort_fills_Inr)

lemma inj_on_replay_key: "inj_on f_fill_id A \<Longrightarrow> inj_on replay_key A"
  by (auto simp: inj_on_def replay_key_def)

lemma sort_fills_cong:
  assumes "mset xs = mset ys" and "inj_on f_fill_id (set xs)"
  shows "sort_fills xs = sort_fills ys"
proof -
  have "set xs = set ys" using assms(1) by (rule mset_eq_setD)
  moreover have "sort_key replay_key xs = sort_key replay_key ys"
    using assms inj_on_replay_key
    by (intro sort_key_inj_key_eq) auto
  ultimately show ?thesis by (simp add: sort_fills_eq)
qed

text \<open>The replay order is a function of the set of fills alone: two pages of the same history, in any
  order and with any repetitions, de-duplicate and sort to the same sequence.\<close>
theorem canonical_order_of_set:
  assumes "set xs = set ys" and "inj_on f_fill_id (set xs)"
  shows "sort_fills (d_fills (dedupe_fills xs)) = sort_fills (d_fills (dedupe_fills ys))"
proof (rule sort_fills_cong)
  show "mset (d_fills (dedupe_fills xs)) = mset (d_fills (dedupe_fills ys))"
    using mset_dedupe_by_cong [OF assms(2,1)] by simp
  show "inj_on f_fill_id (set (d_fills (dedupe_fills xs)))"
    by (simp add: inj_on_subset [OF assms(2) dedupe_by_subset])
qed

text \<open>A fill of the witnesses: YES bought on one market.\<close>

definition sample_fill :: "string \<Rightarrow> int \<Rightarrow> decimal \<Rightarrow> decimal \<Rightarrow> outcome_side \<Rightarrow> normalized_fill" where
  "sample_fill fid t q p e =
     \<lparr>f_fill_id = fid, f_ticker = ''T'', f_outcome_side = YesOutcome, f_exposure_side = e,
      f_book_side = None, f_legacy_action = Some (if e = YesOutcome then Buy else Sell), f_legacy_side = Some YesSide,
      f_direction_sources = [''legacy_side''], f_order_id = Some ''O1'', f_trade_id = None,
      f_subaccount_number = Some 0, f_count = Some q, f_count_source = Some ''count_fp'',
      f_price_dollars = Some p, f_leg_price_dollars = Some p, f_price_source = Some ''unified_price_dollars'',
      f_legacy_price_semantics_unproven = False, f_fixed_point_number_typed = False,
      f_fee_dollars = Some (1 / 100), f_fee_source = Some ''fee_cost'', f_is_taker = Some True,
      f_created_time = None, f_ts = Some t\<rparr>"

lemma sample_fill_simps [simp]:
  "f_fill_id (sample_fill i t q p e) = i" "f_ticker (sample_fill i t q p e) = ''T''"
  "f_outcome_side (sample_fill i t q p e) = YesOutcome" "f_exposure_side (sample_fill i t q p e) = e"
  "f_count (sample_fill i t q p e) = Some q" "f_price_dollars (sample_fill i t q p e) = Some p"
  "f_subaccount_number (sample_fill i t q p e) = Some 0" "f_order_id (sample_fill i t q p e) = Some ''O1''"
  "f_fee_dollars (sample_fill i t q p e) = Some (1 / 100)" "timed (sample_fill i t q p e)"
  "exec_time (sample_fill i t q p e) = of_int t" "f_is_taker (sample_fill i t q p e) = Some True"
  "f_book_side (sample_fill i t q p e) = None"
  by (simp_all add: sample_fill_def timed_def exec_time_def parse_execution_time_def parse_rfc3339_seconds_def)

theorem canonical_order_of_set_witness:
  "let a = sample_fill ''A'' 2 10 (1 / 2) YesOutcome; b = sample_fill ''B'' 1 4 (1 / 4) YesOutcome
   in sort_fills (d_fills (dedupe_fills [a, b, a])) = sort_fills (d_fills (dedupe_fills [b, a]))"
  unfolding Let_def by (rule canonical_order_of_set) (auto simp: inj_on_def)

section \<open>The weighted average\<close>

text \<open>What Kalshi states to six decimals: a price of the unit interval and a positive count.\<close>

definition six_decimal :: "normalized_fill \<Rightarrow> bool" where
  "six_decimal f \<longleftrightarrow> (case (f_price_dollars f, f_count f) of
     (Some p, Some q) \<Rightarrow> grid 6 p \<and> 0 < p \<and> p \<le> 1 \<and> grid 6 q \<and> 0 < q | _ \<Rightarrow> False)"

definition fill_qty :: "normalized_fill \<Rightarrow> decimal" where "fill_qty f = the (f_count f)"
definition fill_price :: "normalized_fill \<Rightarrow> decimal" where "fill_price f = the (f_price_dollars f)"

lemma six_decimalD:
  assumes "six_decimal f"
  shows "f_price_dollars f = Some (fill_price f)" "f_count f = Some (fill_qty f)" "grid 6 (fill_price f)" "0 < fill_price f"
    "fill_price f \<le> 1" "grid 6 (fill_qty f)" "0 < fill_qty f" "grid 12 (fill_price f * fill_qty f)" "fill_price f * fill_qty f \<le> fill_qty f"
    "0 < fill_price f * fill_qty f"
  using assms grid_mult [of 6 _ 6]
  by (auto simp: six_decimal_def fill_price_def fill_qty_def mult_left_le_one_le split: option.splits prod.splits)

lemma vwap_loop_exact:
  assumes "\<forall>f \<in> set fs. six_decimal f" and "grid 12 n" "0 \<le> n" "n \<le> q" "grid 6 q"
    and "q + (\<Sum>f\<leftarrow>fs. fill_qty f) < 10 ^ 16"
  shows "vwap_loop n q fs =
    (let q' = q + (\<Sum>f\<leftarrow>fs. fill_qty f)
     in if q' = 0 then None else Some (ddiv (n + (\<Sum>f\<leftarrow>fs. fill_price f * fill_qty f)) q'))"
  using assms
proof (induction fs arbitrary: n q)
  case (Cons f fs)
  note f = six_decimalD [of f]
  have sf: "six_decimal f" and sum0: "0 \<le> (\<Sum>f\<leftarrow>fs. fill_qty f)"
    using Cons.prems(1) six_decimalD(7) by (auto intro!: sum_list_nonneg simp: order.strict_implies_order)
  have bound: "q + fill_qty f < 10 ^ 16"
    using Cons.prems(6) sum0 by simp
  have pq: "dmul (fill_price f) (fill_qty f) = fill_price f * fill_qty f"
    using f(8-10) [OF sf] bound Cons.prems(3,4) by (intro dmul_exact grid_drep [of 12 _ 16]) auto
  have n': "dadd n (fill_price f * fill_qty f) = n + fill_price f * fill_qty f"
    using f(8-10) [OF sf] bound Cons.prems(2-4) by (intro dadd_exact grid_drep [of 12 _ 16]) auto
  have q': "dadd q (fill_qty f) = q + fill_qty f"
    using f(6,7) [OF sf] bound Cons.prems(3-5) by (intro dadd_exact grid_drep [of 6 _ 16]) auto
  have "vwap_loop n q (f # fs) = vwap_loop (n + fill_price f * fill_qty f) (q + fill_qty f) fs"
    using f(1,2) [OF sf] by (simp add: pq n' q')
  also have "\<dots> = (let q' = (q + fill_qty f) + (\<Sum>f\<leftarrow>fs. fill_qty f)
     in if q' = 0 then None else Some (ddiv ((n + fill_price f * fill_qty f) + (\<Sum>f\<leftarrow>fs. fill_price f * fill_qty f)) q'))"
    using Cons.prems f [OF sf] by (intro Cons.IH) (auto simp: add.assoc)
  finally show ?case by (simp only: list.map sum_list.Cons add.assoc)
qed (simp add: Let_def)

lemma weighted_sum_bounds:
  assumes "\<forall>f \<in> set fs. (0 :: rat) < w f \<and> lo \<le> p f \<and> p f \<le> hi"
  shows "lo * (\<Sum>f\<leftarrow>fs. w f) \<le> (\<Sum>f\<leftarrow>fs. p f * w f)" and "(\<Sum>f\<leftarrow>fs. p f * w f) \<le> hi * (\<Sum>f\<leftarrow>fs. w f)"
  using assms by (induction fs) (auto simp: distrib_left intro!: add_mono mult_right_mono)

lemma sum_qty_pos: "fs \<noteq> [] \<Longrightarrow> \<forall>f \<in> set fs. six_decimal f \<Longrightarrow> 0 < (\<Sum>f\<leftarrow>fs. fill_qty f)"
proof (induction fs rule: list_nonempty_induct)
  case (cons f fs)
  then show ?case using six_decimalD(7) [of f] by simp
qed (simp add: six_decimalD)

text \<open>On Kalshi's six-decimal grid the average entry price of an order is the exact ratio of notional to
  quantity, rounded once to 28 digits, and it lies between the cheapest and the dearest execution: it is never
  an unweighted mean and no intermediate rounding moves it.\<close>
theorem weighted_average_price_exact:
  assumes "fs \<noteq> []" and "\<forall>f \<in> set fs. six_decimal f" and "(\<Sum>f\<leftarrow>fs. fill_qty f) < 10 ^ 16"
    and "\<forall>f \<in> set fs. lo \<le> fill_price f \<and> fill_price f \<le> hi" and "drep lo" "drep hi"
  shows "\<exists>v. weighted_average_price fs = Some v
    \<and> v = dround ((\<Sum>f\<leftarrow>fs. fill_price f * fill_qty f) / (\<Sum>f\<leftarrow>fs. fill_qty f)) \<and> lo \<le> v \<and> v \<le> hi"
proof -
  let ?q = "\<Sum>f\<leftarrow>fs. fill_qty f" and ?n = "\<Sum>f\<leftarrow>fs. fill_price f * fill_qty f"
  have pos: "0 < ?q" using assms(1,2) by (rule sum_qty_pos)
  have b: "lo * ?q \<le> ?n" "?n \<le> hi * ?q"
    using weighted_sum_bounds [of fs fill_qty lo fill_price hi] assms(2,4) six_decimalD(7) by auto
  have "weighted_average_price fs = Some (dround (?n / ?q))"
    using vwap_loop_exact [of fs 0 0] assms(2,3) pos
    by (simp add: weighted_average_price_def ddiv_def Let_def)
  moreover have "lo \<le> dround (?n / ?q)" "dround (?n / ?q) \<le> hi"
    using b pos assms(5,6) dec.rnd_le_fixed dec.rnd_ge_fixed
    by (auto simp: drep_def pos_le_divide_eq pos_divide_le_eq)
  ultimately show ?thesis by blast
qed

theorem weighted_average_price_exact_witness:
  "\<exists>v. weighted_average_price [sample_fill ''A'' 1 40 (57 / 100) YesOutcome, sample_fill ''B'' 2 65 (58 / 100) YesOutcome,
      sample_fill ''C'' 3 71 (59 / 100) YesOutcome] = Some v
    \<and> v = dround ((2280 / 100 + 3770 / 100 + 4189 / 100) / 176) \<and> 57 / 100 \<le> v \<and> v \<le> 59 / 100"
proof -
  have g: "grid 6 (57 / 100)" "grid 6 (29 / 50)" "grid 6 (59 / 100)"
    using Ints_of_int [of 570000] Ints_of_int [of 580000] Ints_of_int [of 590000] by (simp_all add: grid_def)
  have d: "drep (57 / 100)" "drep (59 / 100)"
    by (rule drepI [of _ 2 57]; simp) (rule drepI [of _ 2 59]; simp)
  show ?thesis
    using weighted_average_price_exact [of "[sample_fill ''A'' 1 40 (57 / 100) YesOutcome,
        sample_fill ''B'' 2 65 (58 / 100) YesOutcome, sample_fill ''C'' 3 71 (59 / 100) YesOutcome]" "57 / 100" "59 / 100"]
    by (simp add: six_decimal_def fill_qty_def fill_price_def g d)
qed

section \<open>Every order keeps exactly its fills\<close>

lemma dput_new: "k \<notin> fst ` set d \<Longrightarrow> dput k v d = d @ [(k, v)]"
  by (induction k v d rule: dput.induct) auto

lemma aggregate_groups_Inr:
  assumes "aggregate_groups gs ex st = Inr (ex', st')" and "distinct (dkeys (ex @ map (\<lambda>(k, _). (k, x0)) gs))"
  shows "\<exists>xs. ex' = ex @ xs \<and> st' = fold count_order (map snd xs) st
    \<and> list_all2 (\<lambda>(k, g) (k', x). k' = k \<and> summarize_order k g = Inr x) gs xs"
  using assms
proof (induction gs ex st rule: aggregate_groups.induct)
  case (2 oid g gs ex st)
  then obtain x where x: "summarize_order oid g = Inr x"
    "aggregate_groups gs (dput oid x ex) (count_order x st) = Inr (ex', st')"
    by (auto simp: rbind_eq_Inr)
  have new: "dput oid x ex = ex @ [(oid, x)]"
    using "2.prems"(2) by (intro dput_new) auto
  have "distinct (dkeys (dput oid x ex @ map (\<lambda>(k, _). (k, x0)) gs))"
    using "2.prems"(2) by (auto simp: new)
  from "2.IH" [OF x(2) this] obtain xs where
    "ex' = ex @ (oid, x) # xs" "st' = fold count_order (map snd ((oid, x) # xs)) st"
    "list_all2 (\<lambda>(k, g) (k', x). k' = k \<and> summarize_order k g = Inr x) ((oid, g) # gs) ((oid, x) # xs)"
    using x(1) by (auto simp: new)
  then show ?case by blast
qed simp

lemma summarize_order_fills:
  assumes "summarize_order oid g = Inr x"
  shows "o_order_id x = oid" "mset (o_fill_ids x) = mset (map f_fill_id g)" "o_fill_count x = length g"
    "g \<noteq> [] \<Longrightarrow> \<forall>f \<in> set g. f_ticker f = o_ticker x \<and> f_subaccount_number f = o_subaccount_number x
      \<and> f_outcome_side f = o_outcome_side x \<and> Some (f_exposure_side f) = o_exposure_side x"
proof -
  obtain ord where ord: "sort_fills g = Inr ord"
    using assms by (auto simp: summarize_order_def rbind_eq_Inr)
  have m: "mset ord = mset g" using ord by (rule mset_sort_fills)
  have single: "\<forall>f \<in> set xs. key f = key (hd xs)" if "\<not> spans key xs" for key :: "normalized_fill \<Rightarrow> 'a" and xs
  proof
    fix f assume f: "f \<in> set xs"
    then have "xs \<noteq> []" by auto
    then have "key f \<in> set (remdups (map key xs))" "key (hd xs) \<in> set (remdups (map key xs))"
      using f by (simp_all add: image_eqI)
    then show "key f = key (hd xs)"
      using that by (cases "remdups (map key xs)" rule: list.exhaust) (auto simp: spans_def Suc_le_eq not_less le_Suc_eq)
  qed
  have x: "\<not> spans f_ticker ord" "\<not> spans f_outcome_side ord" "\<not> spans f_exposure_side ord"
    "\<not> spans f_subaccount_number ord" "o_order_id x = oid" "o_fill_ids x = map f_fill_id ord"
    "o_fill_count x = length ord" "o_ticker x = f_ticker (hd ord)" "o_outcome_side x = f_outcome_side (hd ord)"
    "o_subaccount_number x = f_subaccount_number (hd ord)" "o_exposure_side x = Some (f_exposure_side (hd ord))"
    using assms by (auto simp: summarize_order_def ord Let_def rbind_eq_Inr split: if_splits)
  show "o_order_id x = oid" "mset (o_fill_ids x) = mset (map f_fill_id g)" "o_fill_count x = length g"
    using x m by (simp_all add: mset_eq_length [OF m])
  show "g \<noteq> [] \<Longrightarrow> \<forall>f \<in> set g. f_ticker f = o_ticker x \<and> f_subaccount_number f = o_subaccount_number x
      \<and> f_outcome_side f = o_outcome_side x \<and> Some (f_exposure_side f) = o_exposure_side x"
    using single [OF x(1)] single [OF x(2)] single [OF x(3)] single [OF x(4)] x m
    by (metis set_mset_mset)
qed

lemma group_by_order_groups:
  "(k, g) \<in> set (group_by_order fs) \<Longrightarrow> k \<noteq> [] \<and> g \<noteq> [] \<and> g = filter (\<lambda>f. f_order_id f = Some k) fs"
  using in_group_by [of k g "the \<circ> f_order_id" "filter has_order_id fs"]
  by (auto simp: group_by_order_def has_order_id_def filter_empty_conv conj_commute
      intro!: filter_cong split: option.splits)

text \<open>Order aggregation neither loses nor duplicates a fill and never mixes submissions: each summary holds
  exactly the fill ids of its order, and every one of them is on the summary's market, subaccount, contract and
  exposure.\<close>
theorem aggregate_orders_partition:
  assumes "aggregate_orders fs st = Inr (ex, st')" and "(oid, x) \<in> set ex"
  shows "o_order_id x = oid \<and> mset (o_fill_ids x) = mset (map f_fill_id (filter (\<lambda>f. f_order_id f = Some oid) fs))
    \<and> (\<forall>f \<in> set fs. f_order_id f = Some oid \<longrightarrow> f_ticker f = o_ticker x
        \<and> f_subaccount_number f = o_subaccount_number x \<and> f_outcome_side f = o_outcome_side x
        \<and> Some (f_exposure_side f) = o_exposure_side x)"
proof -
  have d: "distinct (dkeys ([] @ map (\<lambda>(k, _). (k, x)) (group_by_order fs)))"
    using distinct_group_by [of "the \<circ> f_order_id" "filter has_order_id fs"]
    by (simp add: group_by_order_def comp_def case_prod_beta)
  from aggregate_groups_Inr [OF assms(1) [unfolded aggregate_orders_def] d] obtain
    "list_all2 (\<lambda>(k, g) (k', x). k' = k \<and> summarize_order k g = Inr x) (group_by_order fs) ex"
    by auto
  with assms(2) obtain g where g: "(oid, g) \<in> set (group_by_order fs)" "summarize_order oid g = Inr x"
    by (fastforce simp: list_all2_conv_all_nth in_set_conv_nth)
  from group_by_order_groups [OF g(1)] have gf: "g = filter (\<lambda>f. f_order_id f = Some oid) fs" "g \<noteq> []"
    by auto
  show ?thesis
    using summarize_order_fills [OF g(2)] gf by auto
qed

theorem aggregate_orders_partition_witness:
  "\<exists>ex st x. aggregate_orders [sample_fill ''B'' 2 65 (58 / 100) YesOutcome, sample_fill ''A'' 1 40 (57 / 100) YesOutcome]
       no_order_stats = Inr (ex, st) \<and> (''O1'', x) \<in> set ex
     \<and> mset (o_fill_ids x) = {#''A'', ''B''#} \<and> o_subaccount_number x = Some 0"
proof -
  let ?fs = "[sample_fill ''B'' 2 65 (58 / 100) YesOutcome, sample_fill ''A'' 1 40 (57 / 100) YesOutcome]"
  obtain ex st x where ex: "aggregate_orders ?fs no_order_stats = Inr (ex, st)" "(''O1'', x) \<in> set ex"
    by (simp add: aggregate_orders_def group_by_order_def group_by_def gadd_def has_order_id_def
        summarize_order_def sort_fills_eq replay_key_def parse_execution_time_eq spans_def Let_def
        less_eq_prod_def List.map_filter_def)
  from aggregate_orders_partition [OF ex] ex show ?thesis
    by (intro exI [of _ ex] exI [of _ st] exI [of _ x]) (auto simp: add_mset_commute)
qed

section \<open>Source keys are distinct\<close>

lemma digit_char_val: "n < 10 \<Longrightarrow> digit_val (digit_char n) = n"
  by (simp add: digit_val_def digit_char_def of_char_of)

lemma digits_val_show_nat: "digits_val (show_nat n) = n"
proof (induction n rule: show_nat.induct)
  case (1 n)
  have "digits_val [digit_char n] = n" if "n < 10" for n
    using digit_char_val [OF that] by (simp add: digits_val_def)
  with 1 show ?case
    by (subst show_nat.simps) (simp add: digits_val_append)
qed

lemma inj_show_nat: "show_nat m = show_nat n \<Longrightarrow> m = n"
  by (metis digits_val_show_nat)

lemma digit_char_is_digit: "n < 10 \<Longrightarrow> is_digit (digit_char n)"
  by (simp add: is_digit_def digit_char_def less_eq_char_def of_char_of)

lemma show_nat_digits: "list_all is_digit (show_nat n)" "show_nat n \<noteq> []"
  by (induction n rule: show_nat.induct) (subst show_nat.simps, simp add: digit_char_is_digit)+

lemma digit_not: "\<not> is_digit CHR '':''" "\<not> is_digit CHR ''-''" "\<not> is_digit CHR ''d''"
  by (simp_all add: is_digit_def less_eq_char_def)

lemma show_int_chars: "list_all (\<lambda>c. is_digit c \<or> c = CHR ''-'') (show_int i)" "show_int i \<noteq> []"
  using show_nat_digits by (auto simp: show_int_def list_all_iff)

lemma inj_show_int: "show_int i = show_int j \<Longrightarrow> i = j"
proof -
  assume eq: "show_int i = show_int j"
  have "hd (show_nat n) \<noteq> CHR ''-''" for n
    using show_nat_digits [of n] digit_not by (cases "show_nat n") auto
  then have "i < 0 \<longleftrightarrow> j < 0"
    using eq by (metis (no_types, lifting) list.sel(1) show_int_def)
  with eq show ?thesis
    by (auto simp: show_int_def dest: inj_show_nat split: if_splits)
qed

lemma account_text_no_colon: "CHR '':'' \<notin> set (account_text a)"
  using show_int_chars [of "the a"] digit_not by (auto simp: account_text_def list_all_iff split: option.splits)

lemma inj_account_text: "account_text a = account_text b \<Longrightarrow> a = b"
proof -
  have "show_int i \<noteq> ''default''" for i
    using show_int_chars(1) [of i] digit_not by auto
  then show "account_text a = account_text b \<Longrightarrow> a = b"
    by (auto simp: account_text_def inj_show_int split: option.splits dest: sym)
qed

lemma split_at_colon:
  assumes "c \<notin> set xs" "c \<notin> set ys" and "xs @ c # us = ys @ c # vs"
  shows "xs = ys \<and> us = vs"
proof -
  have "takeWhile ((\<noteq>) c) (xs @ c # us) = xs" "takeWhile ((\<noteq>) c) (ys @ c # vs) = ys"
    using assms(1,2) by (auto simp: takeWhile_append)
  with assms(3) show ?thesis by auto
qed

text \<open>Two episodes never share a source key: where tickers carry no colon, as exchange tickers do, the key
  determines the subaccount, the market and the opening fill, and an unnumbered account is never a numbered
  one.\<close>
theorem episode_source_key_injective:
  assumes "CHR '':'' \<notin> set t" "CHR '':'' \<notin> set t'"
  shows "episode_source_key a t i = episode_source_key a' t' i' \<longleftrightarrow> a = a' \<and> t = t' \<and> i = i'"
proof
  assume "episode_source_key a t i = episode_source_key a' t' i'"
  then have "account_text a @ CHR '':'' # (t @ CHR '':'' # i) = account_text a' @ CHR '':'' # (t' @ CHR '':'' # i')"
    by (simp add: episode_source_key_def)
  from split_at_colon [OF account_text_no_colon account_text_no_colon this]
  show "a = a' \<and> t = t' \<and> i = i'"
    using split_at_colon [OF assms, of i i'] inj_account_text by auto
qed simp

theorem episode_source_key_injective_witness:
  "episode_source_key None ''KXNBA'' ''F1'' \<noteq> episode_source_key (Some 0) ''KXNBA'' ''F1''"
  using episode_source_key_injective [of "''KXNBA''" "''KXNBA''" None "''F1''" "Some 0" "''F1''"] by simp

end
