(* ===== verification/Position.thy ===== *)
theory Position
  imports Execution
begin

text \<open>
  \<^verbatim>\<open>accounting/position.py\<close>: the signed YES-axis position of one market in one subaccount, its
  flat-to-flat episodes, and settlement at expiry. A ledger and its episodes are mutable objects in the
  source; here every operation returns the updated ledger, and an episode is either the ledger's current one
  or in its closed list, so no aliasing is lost.

  The lemmas: the ledger invariant (\<open>ledger_ok\<close>) and its preservation by every operation, totality of
  \<open>apply_fill\<close> on normalized timed fills, the position as the sum of signed quantities, conservation
  of quantity inside an episode, the sign of realized profit, the reversal and the settlement refusals.
\<close>

section \<open>State\<close>

datatype transition_kind = OPEN | INCREASE | REDUCE | CLOSE | REVERSE | SETTLE
datatype direction = LONG_YES | LONG_NO

datatype position_authority =
    CLOSED_BY_FILLS
  | EXPLAINED_SETTLED
  | RECONCILED_CURRENT
  | UNEXPLAINED
  | CONFLICTED
  | NOT_RECONCILED

definition EARNED_AUTHORITY :: "position_authority list" where
  "EARNED_AUTHORITY = [CLOSED_BY_FILLS, EXPLAINED_SETTLED, RECONCILED_CURRENT]"

fun authority_value :: "position_authority \<Rightarrow> string" where
  "authority_value CLOSED_BY_FILLS = ''closed_by_fills''"
| "authority_value EXPLAINED_SETTLED = ''explained_settled''"
| "authority_value RECONCILED_CURRENT = ''reconciled_current''"
| "authority_value UNEXPLAINED = ''unexplained''"
| "authority_value CONFLICTED = ''conflicted''"
| "authority_value NOT_RECONCILED = ''not_reconciled''"

datatype settlement_refusal =
  REPLAY_FLAT | SETTLEMENT_LARGER | SETTLEMENT_SMALLER | OPPOSITE_DIRECTION | AMBIGUOUS_SUBACCOUNT

record position_transition =
  t_fill_id :: string
  t_order_id :: "string option"
  t_ticker :: string
  t_kind :: transition_kind
  t_signed_quantity :: decimal
  t_position_before :: decimal
  t_position_after :: decimal
  t_execution_price :: "decimal option"
  t_quantity_opened :: decimal
  t_quantity_closed :: decimal
  t_realized_pnl :: "decimal option"
  t_fee_dollars :: "decimal option"

record position_episode =
  e_ticker :: string
  e_direction :: direction
  e_opening_fill_id :: string
  e_opened_at :: decimal
  e_subaccount_number :: "int option"
  e_closing_fill_id :: "string option"
  e_closed_at :: "decimal option"
  e_last_activity_at :: "decimal option"
  e_remaining_quantity :: decimal
  e_peak_quantity :: decimal
  e_total_opened_quantity :: decimal
  e_total_closed_quantity :: decimal
  e_average_entry_price :: "decimal option"
  e_realized_pnl :: decimal
  e_fees_paid :: decimal
  e_cost_basis_complete :: bool
  e_fee_complete :: bool
  e_fee_allocation_ambiguous :: bool
  e_provable :: bool
  e_outcome_provable :: bool
  e_outcome_bounded_by_settlement_coverage :: bool
  e_settlement_revenue_dollars :: "decimal option"
  e_settlement_result :: "string option"
  e_authority :: position_authority
  e_transitions :: "position_transition list"
  e_order_ids :: "string list"

definition authority_is_earned :: "position_episode \<Rightarrow> bool" where
  "authority_is_earned e \<longleftrightarrow> e_authority e \<in> set EARNED_AUTHORITY"

definition episode_identity :: "position_episode \<Rightarrow> identity" where
  "episode_identity e =
     (if \<not> e_provable e \<or> \<not> authority_is_earned e
      then ProvisionalIdentity (''provisional:'' @ e_ticker e @ '':'' @ e_opening_fill_id e @ '':''
             @ authority_value (e_authority e))
      else StableIdentity (episode_source_key (e_subaccount_number e) (e_ticker e) (e_opening_fill_id e)))"

definition e_source_key :: "position_episode \<Rightarrow> string option" where
  "e_source_key e = (case episode_identity e of StableIdentity k \<Rightarrow> Some k | ProvisionalIdentity _ \<Rightarrow> None)"

definition e_source_id :: "position_episode \<Rightarrow> string option" where
  "e_source_id e = (case episode_identity e of StableIdentity k \<Rightarrow> Some (digest_for k) | ProvisionalIdentity _ \<Rightarrow> None)"

definition e_is_importable :: "position_episode \<Rightarrow> bool" where
  "e_is_importable e \<longleftrightarrow> is_importable_identity (episode_identity e)"

definition is_open :: "position_episode \<Rightarrow> bool" where
  "is_open e \<longleftrightarrow> e_closing_fill_id e = None"

definition e_fill_count :: "position_episode \<Rightarrow> nat" where
  "e_fill_count e = length (e_transitions e)"

definition e_order_count :: "position_episode \<Rightarrow> nat" where
  "e_order_count e = length (remdups (e_order_ids e))"

record market_ledger =
  l_ticker :: string
  l_subaccount_number :: "int option"
  l_position :: decimal
  l_average_entry_price :: "decimal option"
  l_cost_basis_complete :: bool
  l_current_episode :: "position_episode option"
  l_closed_episodes :: "position_episode list"

definition new_ledger :: "string \<Rightarrow> int option \<Rightarrow> market_ledger" where
  "new_ledger ticker subaccount =
     \<lparr>l_ticker = ticker, l_subaccount_number = subaccount, l_position = 0, l_average_entry_price = None,
      l_cost_basis_complete = True, l_current_episode = None, l_closed_episodes = []\<rparr>"

definition episodes :: "market_ledger \<Rightarrow> position_episode list" where
  "episodes l = l_closed_episodes l @ (case l_current_episode l of None \<Rightarrow> [] | Some e \<Rightarrow> [e])"

section \<open>Applying a fill\<close>

definition project_fill :: "normalized_fill \<Rightarrow> (decimal \<times> decimal option) result" where
  "project_fill f =
     (case f_count f of
        None \<Rightarrow> Inl ValueError
      | Some q \<Rightarrow>
          if f_exposure_side f = YesOutcome then Inr (q, f_price_dollars f)
          else Inr (dneg q, f_price_dollars f))"

definition classify_transition :: "decimal \<Rightarrow> decimal \<Rightarrow> transition_kind" where
  "classify_transition before after =
     (if before = 0 then OPEN
      else if after = 0 then CLOSE
      else if dsign after \<noteq> dsign before then REVERSE
      else if dabs before < dabs after then INCREASE else REDUCE)"

definition new_episode :: "market_ledger \<Rightarrow> normalized_fill \<Rightarrow> decimal \<Rightarrow> bool \<Rightarrow> position_episode result" where
  "new_episode l f position_after provable =
     rbind (parse_execution_time f) (\<lambda>t. Inr
       \<lparr>e_ticker = l_ticker l,
        e_direction = (if 0 < position_after then LONG_YES else LONG_NO),
        e_opening_fill_id = f_fill_id f, e_opened_at = t, e_subaccount_number = l_subaccount_number l,
        e_closing_fill_id = None, e_closed_at = None, e_last_activity_at = Some t,
        e_remaining_quantity = 0, e_peak_quantity = 0, e_total_opened_quantity = 0,
        e_total_closed_quantity = 0, e_average_entry_price = None, e_realized_pnl = 0, e_fees_paid = 0,
        e_cost_basis_complete = True, e_fee_complete = True, e_fee_allocation_ambiguous = False,
        e_provable = provable, e_outcome_provable = True, e_outcome_bounded_by_settlement_coverage = False,
        e_settlement_revenue_dollars = None, e_settlement_result = None, e_authority = NOT_RECONCILED,
        e_transitions = [], e_order_ids = []\<rparr>)"

text \<open>\<open>_realized\<close> also clears the ledger's cost basis when it cannot state a profit.\<close>

definition realized_on_reduction ::
  "market_ledger \<Rightarrow> decimal option \<Rightarrow> decimal \<Rightarrow> int \<Rightarrow> decimal option \<times> market_ledger" where
  "realized_on_reduction l price q_closed position_sign =
     (case (price, l_average_entry_price l) of
        (Some p, Some avg) \<Rightarrow>
          if \<not> l_cost_basis_complete l then (None, l\<lparr>l_cost_basis_complete := False\<rparr>)
          else (Some (dmul (dmul (dsub p avg) q_closed) (of_int position_sign)), l)
      | _ \<Rightarrow> (None, l\<lparr>l_cost_basis_complete := False\<rparr>))"

definition record_fill ::
  "position_episode \<Rightarrow> normalized_fill \<Rightarrow> decimal \<Rightarrow> decimal \<Rightarrow> decimal option \<Rightarrow> decimal \<Rightarrow> market_ledger
    \<Rightarrow> bool \<Rightarrow> position_episode result" where
  "record_fill e f q_opened q_closed realized position_after l charge_fee =
     rbind (parse_execution_time f) (\<lambda>t. Inr (e\<lparr>
       e_last_activity_at := Some t,
       e_total_opened_quantity := dadd (e_total_opened_quantity e) q_opened,
       e_total_closed_quantity := dadd (e_total_closed_quantity e) q_closed,
       e_remaining_quantity := dabs position_after,
       e_peak_quantity := max (e_peak_quantity e) (dabs position_after),
       e_order_ids := (if has_order_id f then e_order_ids e @ [the (f_order_id f)] else e_order_ids e),
       e_realized_pnl := (case realized of None \<Rightarrow> e_realized_pnl e | Some r \<Rightarrow> dadd (e_realized_pnl e) r),
       e_fees_paid := (if charge_fee then (case f_fee_dollars f of None \<Rightarrow> e_fees_paid e
                         | Some x \<Rightarrow> dadd (e_fees_paid e) x) else e_fees_paid e),
       e_fee_complete := (if charge_fee \<and> f_fee_dollars f = None then False else e_fee_complete e),
       e_cost_basis_complete := (e_cost_basis_complete e \<and> \<not> (realized = None \<and> 0 < q_closed)
                                 \<and> l_cost_basis_complete l),
       e_average_entry_price := l_average_entry_price l\<rparr>))"

definition record_current ::
  "position_episode option \<Rightarrow> normalized_fill \<Rightarrow> decimal \<Rightarrow> decimal \<Rightarrow> decimal option \<Rightarrow> decimal \<Rightarrow> market_ledger
    \<Rightarrow> bool \<Rightarrow> position_episode option result" where
  "record_current cur f q_opened q_closed realized position_after l charge_fee =
     (case cur of
        None \<Rightarrow> Inr None
      | Some e \<Rightarrow> rbind (record_fill e f q_opened q_closed realized position_after l charge_fee) (\<lambda>e. Inr (Some e)))"

definition close_episode :: "market_ledger \<Rightarrow> position_episode \<Rightarrow> normalized_fill \<Rightarrow> market_ledger result" where
  "close_episode l e f =
     rbind (parse_execution_time f) (\<lambda>t. Inr (l\<lparr>
       l_closed_episodes := l_closed_episodes l @ [e\<lparr>e_closing_fill_id := Some (f_fill_id f),
         e_closed_at := Some t, e_remaining_quantity := 0\<rparr>],
       l_current_episode := None\<rparr>))"

text \<open>The four arms of \<open>apply_fill\<close>; each returns the realized profit and the ledger.\<close>

definition apply_open ::
  "market_ledger \<Rightarrow> normalized_fill \<Rightarrow> decimal \<Rightarrow> decimal option \<Rightarrow> decimal \<Rightarrow> bool \<Rightarrow> market_ledger result" where
  "apply_open l f opening price after provable =
     (let l = l\<lparr>l_average_entry_price := price, l_cost_basis_complete := (price \<noteq> None), l_position := after\<rparr> in
      rbind (new_episode l f after provable) (\<lambda>e.
      rbind (record_fill e f opening 0 None after l True) (\<lambda>e.
      Inr (l\<lparr>l_current_episode := Some e\<rparr>))))"

definition apply_increase ::
  "market_ledger \<Rightarrow> normalized_fill \<Rightarrow> decimal \<Rightarrow> decimal option \<Rightarrow> decimal \<Rightarrow> decimal \<Rightarrow> market_ledger result" where
  "apply_increase l f delta price before after =
     (let l = (case (price, l_average_entry_price l) of
                 (Some p, Some avg) \<Rightarrow>
                   l\<lparr>l_average_entry_price :=
                      Some (ddiv (dadd (dmul avg (dabs before)) (dmul p (dabs delta))) (dabs after))\<rparr>
               | _ \<Rightarrow> l\<lparr>l_cost_basis_complete := False, l_average_entry_price := None\<rparr>);
          l = l\<lparr>l_position := after\<rparr>
      in rbind (record_current (l_current_episode l) f (dabs delta) 0 None after l True) (\<lambda>cur.
         Inr (l\<lparr>l_current_episode := cur\<rparr>)))"

definition apply_reduction ::
  "market_ledger \<Rightarrow> normalized_fill \<Rightarrow> decimal \<Rightarrow> decimal option \<Rightarrow> decimal \<Rightarrow> decimal \<Rightarrow> bool
    \<Rightarrow> (decimal option \<times> market_ledger) result" where
  "apply_reduction l f closing price before after closes =
     (case realized_on_reduction l price closing (dsign before) of (realized, l) \<Rightarrow>
      let l = l\<lparr>l_position := after\<rparr> in
      rbind (record_current (l_current_episode l) f 0 closing realized after l True) (\<lambda>cur.
      let l = l\<lparr>l_current_episode := cur\<rparr> in
      case cur of
        Some e \<Rightarrow>
          if closes then
            rbind (close_episode l e f) (\<lambda>l.
              Inr (realized, l\<lparr>l_average_entry_price := None, l_cost_basis_complete := True\<rparr>))
          else Inr (realized, l)
      | None \<Rightarrow> Inr (realized, l)))"

definition mark_fee_ambiguous :: "position_episode \<Rightarrow> position_episode" where
  "mark_fee_ambiguous e = e\<lparr>e_fee_allocation_ambiguous := True, e_fee_complete := False\<rparr>"

definition apply_reverse ::
  "market_ledger \<Rightarrow> normalized_fill \<Rightarrow> decimal \<Rightarrow> decimal \<Rightarrow> decimal option \<Rightarrow> decimal \<Rightarrow> decimal \<Rightarrow> bool
    \<Rightarrow> (decimal option \<times> market_ledger) result" where
  "apply_reverse l f opening closing price before after provable =
     (case realized_on_reduction l price closing (dsign before) of (realized, l) \<Rightarrow>
      let l = l\<lparr>l_position := 0\<rparr> in
      rbind (record_current (l_current_episode l) f 0 closing realized 0 l False) (\<lambda>outgoing.
      let l = l\<lparr>l_current_episode := outgoing\<rparr> in
      rbind (case outgoing of None \<Rightarrow> Inr l | Some e \<Rightarrow> close_episode l (mark_fee_ambiguous e) f) (\<lambda>l.
      let l = l\<lparr>l_average_entry_price := price, l_cost_basis_complete := (price \<noteq> None), l_position := after\<rparr> in
      rbind (new_episode l f after provable) (\<lambda>e.
      rbind (record_fill e f opening 0 None after l False) (\<lambda>e.
      Inr (realized, l\<lparr>l_current_episode := Some (mark_fee_ambiguous e)\<rparr>))))))"

definition apply_fill ::
  "market_ledger \<Rightarrow> normalized_fill \<Rightarrow> bool \<Rightarrow> (position_transition \<times> market_ledger) result" where
  "apply_fill l f provable =
     rbind (project_fill f) (\<lambda>(delta, price).
     let before = l_position l;
         after = dadd before delta;
         kind = classify_transition before after;
         opening = (if kind \<in> {OPEN, INCREASE} then dabs delta else if kind = REVERSE then dabs after else 0);
         closing = (if kind \<in> {REDUCE, CLOSE} then dabs delta else if kind = REVERSE then dabs before else 0)
     in
     rbind (case kind of
              OPEN \<Rightarrow> rbind (apply_open l f opening price after provable) (\<lambda>l. Inr (None, l))
            | INCREASE \<Rightarrow> rbind (apply_increase l f delta price before after) (\<lambda>l. Inr (None, l))
            | REVERSE \<Rightarrow> apply_reverse l f opening closing price before after provable
            | _ \<Rightarrow> apply_reduction l f closing price before after (kind = CLOSE))
       (\<lambda>(realized, l).
     Inr (\<lparr>t_fill_id = f_fill_id f, t_order_id = f_order_id f, t_ticker = f_ticker f, t_kind = kind,
           t_signed_quantity = delta, t_position_before = before, t_position_after = after,
           t_execution_price = price, t_quantity_opened = opening, t_quantity_closed = closing,
           t_realized_pnl = realized, t_fee_dollars = f_fee_dollars f\<rparr>, l)))"

section \<open>Applying a settlement\<close>

definition refusal_shape :: "decimal \<Rightarrow> decimal \<Rightarrow> settlement_refusal" where
  "refusal_shape stated replayed =
     (if dsign stated \<noteq> dsign replayed then OPPOSITE_DIRECTION
      else if dabs replayed < dabs stated then SETTLEMENT_LARGER
      else SETTLEMENT_SMALLER)"

text \<open>\<open>settlement.settled_at or episode.last_activity_at\<close>: an absent time and the epoch are both false.\<close>

definition time_or :: "decimal option \<Rightarrow> decimal option \<Rightarrow> decimal option" where
  "time_or a b = (case a of Some t \<Rightarrow> if t = 0 then b else a | None \<Rightarrow> b)"

definition settle_episode ::
  "position_episode \<Rightarrow> normalized_settlement \<Rightarrow> position_transition \<Rightarrow> position_episode" where
  "settle_episode e s t = e\<lparr>
     e_closed_at := settled_at s,
     e_last_activity_at := time_or (settled_at s) (e_last_activity_at e),
     e_settlement_revenue_dollars := Some (s_revenue_dollars s),
     e_settlement_result := Some (s_market_result s),
     e_closing_fill_id := Some (t_fill_id t),
     e_remaining_quantity := 0,
     e_total_closed_quantity := dadd (e_total_closed_quantity e) (t_quantity_closed t),
     e_transitions := e_transitions e @ [t],
     e_cost_basis_complete := (if t_realized_pnl t = None then False else e_cost_basis_complete e),
     e_realized_pnl := (case t_realized_pnl t of None \<Rightarrow> e_realized_pnl e | Some r \<Rightarrow> dadd (e_realized_pnl e) r),
     e_fee_complete := (if s_fee_dollars s = None then False else e_fee_complete e),
     e_fees_paid := (case s_fee_dollars s of None \<Rightarrow> e_fees_paid e | Some x \<Rightarrow> dadd (e_fees_paid e) x)\<rparr>"

definition settlement_profit :: "market_ledger \<Rightarrow> normalized_settlement \<Rightarrow> decimal option" where
  "settlement_profit l s =
     (case l_average_entry_price l of
        Some avg \<Rightarrow>
          if l_cost_basis_complete l then
            Some (dsub (s_revenue_dollars s)
              (dmul (if 0 < l_position l then avg else dsub ONE avg) (dabs (l_position l))))
          else None
      | None \<Rightarrow> None)"

definition apply_settlement ::
  "market_ledger \<Rightarrow> normalized_settlement \<Rightarrow> settlement_refusal + (position_transition \<times> market_ledger)" where
  "apply_settlement l s =
     (let before = l_position l in
      if before = 0 then Inl REPLAY_FLAT
      else
        rbind (case settled_quantity s of
           Some stated \<Rightarrow> if stated \<noteq> before then Inl (refusal_shape stated before) else Inr ()
         | None \<Rightarrow> Inr ()) (\<lambda>_.
        let t = \<lparr>t_fill_id = ''settlement:'' @ s_ticker s, t_order_id = None, t_ticker = l_ticker l,
                 t_kind = SETTLE, t_signed_quantity = dneg before, t_position_before = before,
                 t_position_after = 0, t_execution_price = s_market_value_dollars s,
                 t_quantity_opened = 0, t_quantity_closed = dabs before,
                 t_realized_pnl = settlement_profit l s, t_fee_dollars = s_fee_dollars s\<rparr>;
            l = l\<lparr>l_position := 0, l_average_entry_price := None\<rparr>
        in Inr (t, case l_current_episode l of
               None \<Rightarrow> l
             | Some e \<Rightarrow> l\<lparr>l_closed_episodes := l_closed_episodes l @ [settle_episode e s t],
                            l_current_episode := None\<rparr>)))"

section \<open>The ledger invariant\<close>

definition delta_of :: "normalized_fill \<Rightarrow> decimal" where
  "delta_of f = (if f_exposure_side f = YesOutcome then fill_qty f else dneg (fill_qty f))"

text \<open>What replay feeds to \<open>apply_fill\<close>: a normalized fill with a readable time.\<close>

definition fill_ready :: "normalized_fill \<Rightarrow> bool" where
  "fill_ready f \<longleftrightarrow> timed f \<and> (case f_count f of None \<Rightarrow> False | Some q \<Rightarrow> 0 < q)"

definition open_ok :: "market_ledger \<Rightarrow> position_episode \<Rightarrow> bool" where
  "open_ok l e \<longleftrightarrow> e_ticker e = l_ticker l \<and> e_subaccount_number e = l_subaccount_number l
     \<and> is_open e \<and> e_remaining_quantity e = \<bar>l_position l\<bar> \<and> \<bar>l_position l\<bar> \<le> e_peak_quantity e
     \<and> e_direction e = (if 0 < l_position l then LONG_YES else LONG_NO)
     \<and> e_average_entry_price e = l_average_entry_price l
     \<and> (e_cost_basis_complete e \<longrightarrow> l_cost_basis_complete l)
     \<and> e_transitions e = []"

definition closed_ok :: "market_ledger \<Rightarrow> position_episode \<Rightarrow> bool" where
  "closed_ok l e \<longleftrightarrow> e_ticker e = l_ticker l \<and> e_subaccount_number e = l_subaccount_number l
     \<and> \<not> is_open e \<and> e_remaining_quantity e = 0"

definition ledger_ok :: "market_ledger \<Rightarrow> bool" where
  "ledger_ok l \<longleftrightarrow> drep (l_position l)
     \<and> (case l_current_episode l of
          None \<Rightarrow> l_position l = 0 \<and> l_average_entry_price l = None
        | Some e \<Rightarrow> l_position l \<noteq> 0 \<and> open_ok l e)
     \<and> (l_position l \<noteq> 0 \<and> l_cost_basis_complete l \<longrightarrow> l_average_entry_price l \<noteq> None)
     \<and> (\<forall>e \<in> set (l_closed_episodes l). closed_ok l e)"

lemma new_ledger_simps [simp]:
  "l_ticker (new_ledger t a) = t" "l_subaccount_number (new_ledger t a) = a" "l_position (new_ledger t a) = 0"
  "l_average_entry_price (new_ledger t a) = None" "l_cost_basis_complete (new_ledger t a)"
  "l_current_episode (new_ledger t a) = None" "l_closed_episodes (new_ledger t a) = []"
  by (simp_all add: new_ledger_def)

lemma ledger_ok_new [simp]: "ledger_ok (new_ledger t a)"
  by (simp add: ledger_ok_def new_ledger_def)

named_theorems ledger_simps "unfolding of the ledger operations on a timed fill"

lemma fill_ready_time [ledger_simps]: "fill_ready f \<Longrightarrow> parse_execution_time f = Inr (exec_time f)"
  by (simp add: fill_ready_def parse_execution_time_eq)

lemma fill_ready_project [ledger_simps]: "fill_ready f \<Longrightarrow> project_fill f = Inr (delta_of f, f_price_dollars f)"
  by (auto simp: fill_ready_def project_fill_def delta_of_def fill_qty_def split: option.splits)

lemma fill_qty_pos: "fill_ready f \<Longrightarrow> 0 < fill_qty f"
  by (auto simp: fill_ready_def fill_qty_def split: option.splits)

lemma delta_nonzero: "fill_ready f \<Longrightarrow> delta_of f \<noteq> 0"
  using fill_qty_pos [of f] by (auto simp: delta_of_def dec_simps)

text \<open>The arms as plain functions of the ledger: what they compute when nothing raises.\<close>

lemma realized_ledger:
  assumes "realized_on_reduction l price q s = (r, l')"
  shows "l' = l\<lparr>l_cost_basis_complete := (r \<noteq> None)\<rparr> \<or> (l' = l \<and> r \<noteq> None \<and> l_cost_basis_complete l)"
    and "r \<noteq> None \<longleftrightarrow> price \<noteq> None \<and> l_average_entry_price l \<noteq> None \<and> l_cost_basis_complete l"
  using assms by (auto simp: realized_on_reduction_def split: option.splits if_splits)

lemma realized_ledger_eq:
  "realized_on_reduction l price q s = (r, l') \<Longrightarrow>
     l' = l\<lparr>l_cost_basis_complete := (r \<noteq> None)\<rparr>"
  by (auto simp: realized_on_reduction_def split: option.splits if_splits)

lemma apply_open_ok:
  assumes "ledger_ok l" "fill_ready f" "l_position l = 0" "after \<noteq> 0" "drep after"
  shows "\<exists>l'. apply_open l f q price after pv = Inr l' \<and> ledger_ok l' \<and> l_position l' = after
    \<and> l_ticker l' = l_ticker l \<and> l_subaccount_number l' = l_subaccount_number l"
  using assms
  by (auto simp: apply_open_def new_episode_def record_fill_def ledger_simps ledger_ok_def open_ok_def
      closed_ok_def is_open_def dabs_drep Let_def)

lemma same_sign_direction:
  "dsign x = dsign y \<Longrightarrow> (0 < x \<longleftrightarrow> 0 < y)"
  by (auto simp: dsign_def split: if_splits)

lemma apply_increase_ok:
  assumes "ledger_ok l" "fill_ready f" "l_position l \<noteq> 0" "after \<noteq> 0" "drep after"
    "dsign after = dsign (l_position l)"
  shows "\<exists>l'. apply_increase l f d price (l_position l) after = Inr l' \<and> ledger_ok l' \<and> l_position l' = after
    \<and> l_ticker l' = l_ticker l \<and> l_subaccount_number l' = l_subaccount_number l"
  using assms same_sign_direction [OF assms(6)]
  by (auto simp: apply_increase_def record_current_def record_fill_def ledger_simps ledger_ok_def open_ok_def
      closed_ok_def is_open_def dabs_drep Let_def split: option.splits)

lemma apply_reduce_ok:
  assumes "ledger_ok l" "fill_ready f" "l_position l \<noteq> 0" "after \<noteq> 0" "drep after"
    "dsign after = dsign (l_position l)"
  shows "\<exists>r l'. apply_reduction l f q price (l_position l) after False = Inr (r, l') \<and> ledger_ok l'
    \<and> l_position l' = after \<and> l_ticker l' = l_ticker l \<and> l_subaccount_number l' = l_subaccount_number l"
proof -
  obtain r l1 where r: "realized_on_reduction l price q (dsign (l_position l)) = (r, l1)" by force
  show ?thesis
    using assms same_sign_direction [OF assms(6)] realized_ledger [OF r]
    by (auto simp: apply_reduction_def r realized_ledger_eq [OF r] record_current_def record_fill_def ledger_simps
        ledger_ok_def open_ok_def closed_ok_def is_open_def dabs_drep Let_def split: option.splits)
qed

lemma apply_close_ok:
  assumes "ledger_ok l" "fill_ready f" "l_position l \<noteq> 0"
  shows "\<exists>r l'. apply_reduction l f q price (l_position l) 0 True = Inr (r, l') \<and> ledger_ok l'
    \<and> l_position l' = 0 \<and> l_ticker l' = l_ticker l \<and> l_subaccount_number l' = l_subaccount_number l"
proof -
  obtain r l1 where r: "realized_on_reduction l price q (dsign (l_position l)) = (r, l1)" by force
  show ?thesis
    using assms
    by (auto simp: apply_reduction_def r realized_ledger_eq [OF r] record_current_def record_fill_def ledger_simps
        close_episode_def ledger_ok_def open_ok_def closed_ok_def is_open_def Let_def split: option.splits)
qed

lemma apply_reverse_ok:
  assumes "ledger_ok l" "fill_ready f" "l_position l \<noteq> 0" "after \<noteq> 0" "drep after"
  shows "\<exists>r l'. apply_reverse l f qo qc price (l_position l) after pv = Inr (r, l') \<and> ledger_ok l'
    \<and> l_position l' = after \<and> l_ticker l' = l_ticker l \<and> l_subaccount_number l' = l_subaccount_number l"
proof -
  obtain r l1 where r: "realized_on_reduction l price qc (dsign (l_position l)) = (r, l1)" by force
  show ?thesis
    using assms
    by (auto simp: apply_reverse_def r realized_ledger_eq [OF r] record_current_def record_fill_def ledger_simps
        close_episode_def new_episode_def mark_fee_ambiguous_def ledger_ok_def open_ok_def closed_ok_def is_open_def
        dabs_drep Let_def split: option.splits)
qed

lemma apply_fill_ok:
  assumes "ledger_ok l" "fill_ready f"
  shows "\<exists>t l'. apply_fill l f pv = Inr (t, l') \<and> ledger_ok l' \<and> l_position l' = dadd (l_position l) (delta_of f)
    \<and> l_ticker l' = l_ticker l \<and> l_subaccount_number l' = l_subaccount_number l"
proof -
  let ?b = "l_position l"
  define a where "a = dadd ?b (delta_of f)"
  have d: "drep a" by (simp add: a_def)
  have nz: "?b = 0 \<Longrightarrow> a \<noteq> 0"
    using delta_nonzero [OF assms(2)] by (simp add: a_def dec_simps)
  consider (o) "classify_transition ?b a = OPEN" "?b = 0"
    | (c) "classify_transition ?b a = CLOSE" "?b \<noteq> 0" "a = 0"
    | (v) "classify_transition ?b a = REVERSE" "?b \<noteq> 0" "a \<noteq> 0"
    | (i) "classify_transition ?b a = INCREASE" "?b \<noteq> 0" "a \<noteq> 0" "dsign a = dsign ?b"
    | (r) "classify_transition ?b a = REDUCE" "?b \<noteq> 0" "a \<noteq> 0" "dsign a = dsign ?b"
    by (cases "?b = 0"; cases "a = 0"; cases "dsign a = dsign ?b"; cases "dabs ?b < dabs a")
       (simp_all add: classify_transition_def)
  then show ?thesis
  proof cases
    case o
    from apply_open_ok [OF assms o(2) nz [OF o(2)] d, of "dabs (delta_of f)" "f_price_dollars f" pv] o(1) show ?thesis
      by (auto simp: apply_fill_def fill_ready_project [OF assms(2)] Let_def a_def [symmetric])
  next
    case c
    from apply_close_ok [OF assms c(2), of "dabs (delta_of f)" "f_price_dollars f"] c show ?thesis
      by (auto simp: apply_fill_def fill_ready_project [OF assms(2)] Let_def a_def [symmetric])
  next
    case v
    from apply_reverse_ok [OF assms v(2,3) d, of "dabs a" "dabs ?b" "f_price_dollars f" pv] v(1) show ?thesis
      by (auto simp: apply_fill_def fill_ready_project [OF assms(2)] Let_def a_def [symmetric])
  next
    case i
    from apply_increase_ok [OF assms i(2,3) d i(4), of "delta_of f" "f_price_dollars f"] i(1) show ?thesis
      by (auto simp: apply_fill_def fill_ready_project [OF assms(2)] Let_def a_def [symmetric])
  next
    case r
    from apply_reduce_ok [OF assms r(2,3) d r(4), of "dabs (delta_of f)" "f_price_dollars f"] r(1) show ?thesis
      by (auto simp: apply_fill_def fill_ready_project [OF assms(2)] Let_def a_def [symmetric])
  qed
qed

section \<open>Conservation of quantity\<close>

text \<open>
  With counts on the six-decimal grid and a traded volume \<open>v\<close> below \<open>10 ^ 22\<close> contracts every
  quantity is exact, and an episode's books balance: opened minus closed is what remains.
\<close>

definition episode_balanced :: "decimal \<Rightarrow> decimal \<Rightarrow> position_episode \<Rightarrow> bool" where
  "episode_balanced v remaining e \<longleftrightarrow> grid 6 (e_total_opened_quantity e) \<and> grid 6 (e_total_closed_quantity e)
     \<and> 0 \<le> e_total_closed_quantity e \<and> e_total_opened_quantity e \<le> v
     \<and> e_total_opened_quantity e - e_total_closed_quantity e = remaining"

definition ledger_balanced :: "decimal \<Rightarrow> market_ledger \<Rightarrow> bool" where
  "ledger_balanced v l \<longleftrightarrow> grid 6 (l_position l) \<and> \<bar>l_position l\<bar> \<le> v
     \<and> (\<forall>e. l_current_episode l = Some e \<longrightarrow> episode_balanced v \<bar>l_position l\<bar> e)
     \<and> (\<forall>e \<in> set (l_closed_episodes l). e_total_opened_quantity e = e_total_closed_quantity e)"

lemma exact6: "grid 6 x \<Longrightarrow> \<bar>x\<bar> < 10 ^ 22 \<Longrightarrow> drep x"
  by (rule grid_drep [of 6 x 22]) simp_all

lemma delta_exact:
  assumes "fill_ready f" "grid 6 (fill_qty f)" "fill_qty f < 10 ^ 22"
  shows "\<bar>delta_of f\<bar> = fill_qty f" "grid 6 (delta_of f)" "drep (delta_of f)"
    "delta_of f = (if f_exposure_side f = YesOutcome then fill_qty f else - fill_qty f)"
proof -
  have "drep (fill_qty f)" using exact6 assms fill_qty_pos [OF assms(1)] by simp
  then show "delta_of f = (if f_exposure_side f = YesOutcome then fill_qty f else - fill_qty f)"
    by (simp add: delta_of_def dneg_drep)
  then show "\<bar>delta_of f\<bar> = fill_qty f" "grid 6 (delta_of f)" "drep (delta_of f)"
    using assms fill_qty_pos [OF assms(1)] exact6 by simp_all
qed

lemma record_fill_totals:
  assumes "fill_ready f" "record_fill e f qo qc r after l cf = Inr e'"
  shows "e_total_opened_quantity e' = dadd (e_total_opened_quantity e) qo"
    "e_total_closed_quantity e' = dadd (e_total_closed_quantity e) qc"
  using assms by (auto simp: record_fill_def ledger_simps)

lemma record_balanced:
  assumes "fill_ready f" "record_fill e f qo qc r after l cf = Inr e'" "episode_balanced v x e"
    "grid 6 qo" "grid 6 qc" "0 \<le> qo" "0 \<le> qc" "qc \<le> x + qo" "v + qo < 10 ^ 22"
  shows "episode_balanced (v + qo) (x + qo - qc) e'"
proof -
  let ?o = "e_total_opened_quantity e" and ?c = "e_total_closed_quantity e"
  have e: "grid 6 ?o" "grid 6 ?c" "0 \<le> ?c" "?o \<le> v" "?o - ?c = x"
    using assms(3) by (auto simp: episode_balanced_def)
  have "dadd ?o qo = ?o + qo" "dadd ?c qc = ?c + qc"
    using e assms(4-9) by (intro dadd_exact exact6 grid_add; auto)+
  then show ?thesis
    using e assms(4-9) record_fill_totals [OF assms(1,2)] by (auto simp: episode_balanced_def)
qed

lemma new_episode_balanced:
  "fill_ready f \<Longrightarrow> new_episode l f after pv = Inr e \<Longrightarrow> 0 \<le> v \<Longrightarrow> episode_balanced v 0 e"
  by (auto simp: new_episode_def ledger_simps episode_balanced_def)

lemma close_totals:
  "fill_ready f \<Longrightarrow> close_episode l e f = Inr l' \<Longrightarrow>
    \<exists>c. l' = l\<lparr>l_closed_episodes := l_closed_episodes l @ [c], l_current_episode := None\<rparr>
      \<and> e_total_opened_quantity c = e_total_opened_quantity e \<and> e_total_closed_quantity c = e_total_closed_quantity e"
  by (auto simp: close_episode_def ledger_simps)

lemma episode_balanced_mono: "episode_balanced v x e \<Longrightarrow> v \<le> w \<Longrightarrow> episode_balanced w x e"
  by (auto simp: episode_balanced_def)

lemma totals_mark [simp]:
  "e_total_opened_quantity (mark_fee_ambiguous e) = e_total_opened_quantity e"
  "e_total_closed_quantity (mark_fee_ambiguous e) = e_total_closed_quantity e"
  by (simp_all add: mark_fee_ambiguous_def)

lemma balanced_mark [simp]: "episode_balanced v x (mark_fee_ambiguous e) \<longleftrightarrow> episode_balanced v x e"
  by (simp add: episode_balanced_def mark_fee_ambiguous_def)

lemma open_balanced:
  assumes "apply_open l f \<bar>after\<bar> price after pv = Inr l'" "fill_ready f" "ledger_balanced v l"
    "grid 6 after" "\<bar>after\<bar> \<le> w" "w < 10 ^ 22" "v \<le> w"
  shows "ledger_balanced w l'"
proof -
  obtain l0 e0 e where e0: "new_episode l0 f after pv = Inr e0" and e: "record_fill e0 f \<bar>after\<bar> 0 None after l0 True = Inr e"
    and l': "l' = l\<lparr>l_average_entry_price := price, l_cost_basis_complete := (price \<noteq> None), l_position := after,
        l_current_episode := Some e\<rparr>"
    using assms(1) by (auto simp: apply_open_def Let_def rbind_eq_Inr)
  have "episode_balanced \<bar>after\<bar> \<bar>after\<bar> e"
    using record_balanced [OF assms(2) e new_episode_balanced [OF assms(2) e0, of 0]] assms(4-6) by simp
  then show ?thesis
    using assms(3-5,7) episode_balanced_mono by (auto simp: l' ledger_balanced_def)
qed

lemma current_balanced:
  assumes "record_current cur f qo qc r after l cf = Inr cur'" "cur = Some e" "fill_ready f"
    "episode_balanced v x e" "grid 6 qo" "grid 6 qc" "0 \<le> qo" "0 \<le> qc" "qc \<le> x + qo" "v + qo < 10 ^ 22"
  shows "\<exists>e'. cur' = Some e' \<and> episode_balanced (v + qo) (x + qo - qc) e'"
  using assms record_balanced [OF assms(3) _ assms(4-10)]
  by (auto simp: record_current_def rbind_eq_Inr)

lemma increase_balanced:
  assumes "apply_increase l f d price b after = Inr l'" "fill_ready f" "ledger_balanced v l"
    "l_current_episode l = Some e" "grid 6 d" "drep d" "grid 6 after" "\<bar>after\<bar> = \<bar>l_position l\<bar> + \<bar>d\<bar>" "v + \<bar>d\<bar> < 10 ^ 22"
  shows "ledger_balanced (v + \<bar>d\<bar>) l'"
proof -
  let ?inc = "\<lambda>l1. record_current (Some e) f \<bar>d\<bar> 0 None after l1 True"
  obtain l1 cur where cur: "?inc l1 = Inr cur" and l': "l_position l' = after" "l_current_episode l' = cur"
    "l_closed_episodes l' = l_closed_episodes l"
    using assms(1,4,6) by (auto simp: apply_increase_def Let_def rbind_eq_Inr dabs_drep split: option.splits)
  have "episode_balanced v \<bar>l_position l\<bar> e" using assms(3,4) by (simp add: ledger_balanced_def)
  from current_balanced [OF cur refl assms(2) this] obtain e' where
    "cur = Some e'" "episode_balanced (v + \<bar>d\<bar>) \<bar>after\<bar> e'"
    using assms(5,8,9) by auto
  then show ?thesis using assms(3,7,8) l' by (auto simp: ledger_balanced_def)
qed

lemma reduce_balanced:
  assumes "apply_reduction l f \<bar>d\<bar> price b after closes = Inr (r, l')" "fill_ready f" "ledger_balanced v l"
    "l_current_episode l = Some e" "grid 6 d" "grid 6 after" "\<bar>after\<bar> = \<bar>l_position l\<bar> - \<bar>d\<bar>" "v < 10 ^ 22"
    "closes \<longrightarrow> after = 0"
  shows "ledger_balanced v l'"
proof -
  obtain r1 l1 where r: "realized_on_reduction l price \<bar>d\<bar> (dsign b) = (r1, l1)" by force
  note l1 = realized_ledger_eq [OF r]
  have bal: "episode_balanced v \<bar>l_position l\<bar> e" using assms(3,4) by (simp add: ledger_balanced_def)
  obtain cur where cur: "record_current (Some e) f 0 \<bar>d\<bar> r1 after (l1\<lparr>l_position := after\<rparr>) True = Inr cur"
    using assms(1,4) by (auto simp: apply_reduction_def r l1 Let_def rbind_eq_Inr)
  from current_balanced [OF cur refl assms(2) bal] obtain e' where e': "cur = Some e'" "episode_balanced v \<bar>after\<bar> e'"
    using assms(5,7,8) abs_ge_zero [of after] by auto
  show ?thesis
  proof (cases closes)
    case True
    with assms(1,4) e' cur show ?thesis
      using assms(3,6,9) assms(8)
      by (auto simp: apply_reduction_def r l1 Let_def rbind_eq_Inr ledger_balanced_def episode_balanced_def
          dest!: close_totals [OF assms(2)])
  next
    case False
    with assms(1,3,4,6,7) e' cur show ?thesis
      by (auto simp: apply_reduction_def r l1 Let_def rbind_eq_Inr ledger_balanced_def)
  qed
qed

lemma reverse_balanced:
  assumes "apply_reverse l f \<bar>after\<bar> \<bar>l_position l\<bar> price b after pv = Inr (r, l')" "fill_ready f"
    "ledger_balanced v l" "l_current_episode l = Some e" "grid 6 after" "v \<le> w" "\<bar>after\<bar> \<le> w" "w < 10 ^ 22"
  shows "ledger_balanced w l'"
proof -
  obtain r1 l1 where r: "realized_on_reduction l price \<bar>l_position l\<bar> (dsign b) = (r1, l1)" by force
  note l1 = realized_ledger_eq [OF r]
  have bal: "episode_balanced v \<bar>l_position l\<bar> e" and gp: "grid 6 (l_position l)"
    using assms(3,4) by (auto simp: ledger_balanced_def)
  obtain out lx ly l2 l3 e0 e1 where out: "record_current (Some e) f 0 \<bar>l_position l\<bar> r1 0 lx False = Inr out"
    and l2: "(case out of None \<Rightarrow> Inr ly | Some x \<Rightarrow> close_episode ly (mark_fee_ambiguous x) f) = Inr l2"
    and e0: "new_episode l3 f after pv = Inr e0" and e1: "record_fill e0 f \<bar>after\<bar> 0 None after l3 False = Inr e1"
    and l': "l_position l' = after" "l_current_episode l' = Some (mark_fee_ambiguous e1)"
      "l_closed_episodes l' = l_closed_episodes l2" and ly: "l_closed_episodes ly = l_closed_episodes l"
    using assms(1,4) by (auto simp: apply_reverse_def r l1 Let_def rbind_eq_Inr)
  from current_balanced [OF out refl assms(2) bal] obtain x where x: "out = Some x" "episode_balanced v 0 x"
    using gp assms(6,8) by auto
  from l2 x(1) obtain c where c: "l_closed_episodes l2 = l_closed_episodes l @ [c]"
    "e_total_opened_quantity c = e_total_opened_quantity x" "e_total_closed_quantity c = e_total_closed_quantity x"
    by (auto simp: ly mark_fee_ambiguous_def dest!: close_totals [OF assms(2)])
  have "episode_balanced \<bar>after\<bar> \<bar>after\<bar> e1"
    using record_balanced [OF assms(2) e1 new_episode_balanced [OF assms(2) e0, of 0]] assms(5,7,8) by simp
  then show ?thesis
    using assms(3,5,7) x(2) c l' episode_balanced_mono
    by (auto simp: ledger_balanced_def episode_balanced_def)
qed

text \<open>Which arm a fill takes, and what the transition records.\<close>

lemma classify_not_settle: "classify_transition b a \<noteq> SETTLE"
  by (simp add: classify_transition_def)

lemma apply_fill_arm:
  assumes "fill_ready f" "apply_fill l f pv = Inr (t, l')"
    and a: "a = dadd (l_position l) (delta_of f)" and k: "classify_transition (l_position l) a = k"
  shows "k = OPEN \<Longrightarrow> apply_open l f (dabs (delta_of f)) (f_price_dollars f) a pv = Inr l'"
    and "k = INCREASE \<Longrightarrow> apply_increase l f (delta_of f) (f_price_dollars f) (l_position l) a = Inr l'"
    and "k = REDUCE \<Longrightarrow> apply_reduction l f (dabs (delta_of f)) (f_price_dollars f) (l_position l) a False
      = Inr (t_realized_pnl t, l')"
    and "k = CLOSE \<Longrightarrow> apply_reduction l f (dabs (delta_of f)) (f_price_dollars f) (l_position l) a True
      = Inr (t_realized_pnl t, l')"
    and "k = REVERSE \<Longrightarrow> apply_reverse l f (dabs a) (dabs (l_position l)) (f_price_dollars f) (l_position l) a pv
      = Inr (t_realized_pnl t, l')"
    and "t_kind t = k" "t_position_before t = l_position l" "t_position_after t = a" "t_signed_quantity t = delta_of f"
    and "t_fill_id t = f_fill_id f"
proof -
  have "k \<noteq> SETTLE" unfolding k [symmetric] by (rule classify_not_settle)
  then show
    "k = OPEN \<Longrightarrow> apply_open l f (dabs (delta_of f)) (f_price_dollars f) a pv = Inr l'"
    "k = INCREASE \<Longrightarrow> apply_increase l f (delta_of f) (f_price_dollars f) (l_position l) a = Inr l'"
    "k = REDUCE \<Longrightarrow> apply_reduction l f (dabs (delta_of f)) (f_price_dollars f) (l_position l) a False
      = Inr (t_realized_pnl t, l')"
    "k = CLOSE \<Longrightarrow> apply_reduction l f (dabs (delta_of f)) (f_price_dollars f) (l_position l) a True
      = Inr (t_realized_pnl t, l')"
    "k = REVERSE \<Longrightarrow> apply_reverse l f (dabs a) (dabs (l_position l)) (f_price_dollars f) (l_position l) a pv
      = Inr (t_realized_pnl t, l')"
    "t_kind t = k" "t_position_before t = l_position l" "t_position_after t = a" "t_signed_quantity t = delta_of f"
    "t_fill_id t = f_fill_id f"
    using assms(2)
    by (auto simp: apply_fill_def fill_ready_project [OF assms(1)] Let_def a [symmetric] k rbind_eq_Inr)
qed

lemma apply_fill_balanced:
  assumes l: "ledger_ok l" "ledger_balanced v l" and f: "fill_ready f" "grid 6 (fill_qty f)"
    and v: "v + fill_qty f < 10 ^ 22" and t: "apply_fill l f pv = Inr (t, l')"
  shows "ledger_balanced (v + fill_qty f) l'"
proof -
  let ?b = "l_position l"
  have v0: "0 \<le> v" "grid 6 ?b" "\<bar>?b\<bar> \<le> v" using l(2) by (auto simp: ledger_balanced_def)
  note d = delta_exact [OF f]
  have q: "fill_qty f < 10 ^ 22" using v v0 by simp
  note d = delta_exact [OF f q]
  define a where "a = dadd ?b (delta_of f)"
  have g: "grid 6 (?b + delta_of f)" using v0(2) d(2) by simp
  have "\<bar>?b + delta_of f\<bar> < 10 ^ 22" using v v0(3) d(1) abs_triangle_ineq [of ?b "delta_of f"] by linarith
  then have a: "a = ?b + delta_of f" "grid 6 a"
    using g by (simp_all add: a_def dadd_exact exact6)
  have db: "dabs ?b = \<bar>?b\<bar>" "dabs a = \<bar>a\<bar>" "dabs (delta_of f) = \<bar>delta_of f\<bar>"
    using l(1) d(3) by (auto simp: ledger_ok_def a_def dabs_drep)
  have qp: "0 < fill_qty f" using fill_qty_pos [OF f(1)] .
  have cur: "?b \<noteq> 0 \<Longrightarrow> \<exists>e. l_current_episode l = Some e"
    using l(1) by (auto simp: ledger_ok_def split: option.splits)
  consider (o) "classify_transition ?b a = OPEN" "?b = 0"
    | (c) "classify_transition ?b a = CLOSE" "?b \<noteq> 0" "a = 0"
    | (v) "classify_transition ?b a = REVERSE" "?b \<noteq> 0" "a \<noteq> 0" "dsign a \<noteq> dsign ?b"
    | (i) "classify_transition ?b a = INCREASE" "?b \<noteq> 0" "\<bar>?b\<bar> < \<bar>a\<bar>" "dsign a = dsign ?b"
    | (r) "classify_transition ?b a = REDUCE" "?b \<noteq> 0" "\<bar>a\<bar> \<le> \<bar>?b\<bar>" "dsign a = dsign ?b"
    by (cases "?b = 0"; cases "a = 0"; cases "dsign a = dsign ?b"; cases "\<bar>?b\<bar> < \<bar>a\<bar>")
       (simp_all add: classify_transition_def db)
  then show ?thesis
  proof cases
    case o
    then have "apply_open l f \<bar>a\<bar> (f_price_dollars f) a pv = Inr l'"
      using apply_fill_arm(1) [OF f(1) t a_def o(1) refl] a(1) db by simp
    then show ?thesis
      using open_balanced [OF _ f(1) l(2) a(2), of "f_price_dollars f" pv l' "v + fill_qty f"] v v0 d qp o(2) a(1) by simp
  next
    case c
    have "apply_reduction l f \<bar>delta_of f\<bar> (f_price_dollars f) ?b a True = Inr (t_realized_pnl t, l')"
      using apply_fill_arm(4) [OF f(1) t a_def c(1) refl] db by simp
    then have "ledger_balanced v l'"
      using cur [OF c(2)] c(3) a d v qp by (auto intro!: reduce_balanced [OF _ f(1) l(2)])
    then show ?thesis
      using qp episode_balanced_mono by (fastforce simp: ledger_balanced_def)
  next
    case v
    have "apply_reverse l f \<bar>a\<bar> \<bar>?b\<bar> (f_price_dollars f) ?b a pv = Inr (t_realized_pnl t, l')"
      using apply_fill_arm(5) [OF f(1) t a_def v(1) refl] db by simp
    moreover obtain e where "l_current_episode l = Some e" using cur [OF v(2)] by blast
    ultimately show ?thesis
      using assms(5) v0 d qp a(1) by (auto intro!: reverse_balanced [OF _ f(1) l(2) _ a(2)])
  next
    case i
    have "apply_increase l f (delta_of f) (f_price_dollars f) ?b a = Inr l'"
      using apply_fill_arm(2) [OF f(1) t a_def i(1) refl] .
    moreover have "\<bar>a\<bar> = \<bar>?b\<bar> + \<bar>delta_of f\<bar>"
      using i(2-4) a(1) by (auto simp: dsign_eq_iff sgn_if split: if_splits)
    ultimately show ?thesis
      using cur [OF i(2)] increase_balanced [OF _ f(1) l(2) _ d(2,3) a(2)] v d(1) by auto
  next
    case r
    have "apply_reduction l f \<bar>delta_of f\<bar> (f_price_dollars f) ?b a False = Inr (t_realized_pnl t, l')"
      using apply_fill_arm(3) [OF f(1) t a_def r(1) refl] db by simp
    moreover have "\<bar>a\<bar> = \<bar>?b\<bar> - \<bar>delta_of f\<bar>"
      using r(2-4) a(1) by (auto simp: dsign_eq_iff sgn_if split: if_splits)
    ultimately have "ledger_balanced v l'"
      using cur [OF r(2)] reduce_balanced [OF _ f(1) l(2) _ d(2) a(2)] v qp by auto
    then show ?thesis
      using qp episode_balanced_mono by (fastforce simp: ledger_balanced_def)
  qed
qed

section \<open>Properties of a fill\<close>

text \<open>C7: on a well-formed ledger every normalized, timed fill applies: no exception is possible, the ledger
  stays well-formed (flat exactly when no episode is open; an open episode carries the ledger's direction,
  size and market), and the position moves by exactly the fill's signed quantity.\<close>
theorem apply_fill_total:
  assumes "ledger_ok l" "fill_ready f"
  shows "\<exists>t l'. apply_fill l f pv = Inr (t, l') \<and> ledger_ok l' \<and> l_position l' = dadd (l_position l) (delta_of f)
    \<and> l_ticker l' = l_ticker l \<and> l_subaccount_number l' = l_subaccount_number l"
  using assms by (rule apply_fill_ok)

lemma sample_ready [simp]: "0 < q \<Longrightarrow> fill_ready (sample_fill i t q p e)"
  by (simp add: fill_ready_def)

theorem apply_fill_total_witness:
  "\<exists>t l'. apply_fill (new_ledger ''T'' (Some 0)) (sample_fill ''A'' 1 10 (1 / 2) NoOutcome) True = Inr (t, l')
    \<and> ledger_ok l' \<and> l_ticker l' = ''T''"
  using apply_fill_total [of "new_ledger ''T'' (Some 0)" "sample_fill ''A'' 1 10 (1 / 2) NoOutcome" True]
  by auto

text \<open>The kinds that close inventory are those that realize a profit.\<close>

lemma apply_fill_realized:
  assumes "ledger_ok l" "fill_ready f" "apply_fill l f pv = Inr (t, l')" "t_realized_pnl t = Some r"
  shows "\<exists>p x c. f_price_dollars f = Some p \<and> l_average_entry_price l = Some x \<and> 0 < c
    \<and> l_position l \<noteq> 0 \<and> r = dmul (dmul (dsub p x) c) (of_int (dsign (l_position l)))"
proof -
  define a where "a = dadd (l_position l) (delta_of f)"
  define k where "k = classify_transition (l_position l) a"
  note arm = apply_fill_arm [OF assms(2,3) a_def k_def [symmetric]]
  have red: "\<exists>p x. f_price_dollars f = Some p \<and> l_average_entry_price l = Some x
      \<and> r = dmul (dmul (dsub p x) c) (of_int (dsign (l_position l)))"
    if "apply_reduction l f c (f_price_dollars f) (l_position l) after cl = Inr (Some r, l2)" for c after cl l2
    using that by (auto simp: apply_reduction_def realized_on_reduction_def Let_def rbind_eq_Inr
        split: option.splits if_splits prod.splits)
  have rev: "\<exists>p x. f_price_dollars f = Some p \<and> l_average_entry_price l = Some x
      \<and> r = dmul (dmul (dsub p x) c) (of_int (dsign (l_position l)))"
    if "apply_reverse l f q c (f_price_dollars f) (l_position l) after pv = Inr (Some r, l2)" for q c after l2
    using that by (auto simp: apply_reverse_def realized_on_reduction_def Let_def rbind_eq_Inr
        split: option.splits if_splits prod.splits)
  have none: "t_realized_pnl t = None" if "k \<in> {OPEN, INCREASE}"
    using that assms(3)
    by (auto simp: apply_fill_def fill_ready_project [OF assms(2)] Let_def a_def [symmetric] k_def [symmetric] rbind_eq_Inr)
  have nz: "l_position l \<noteq> 0" if "k \<noteq> OPEN"
    using that by (auto simp: k_def classify_transition_def)
  have pos: "0 < dabs (delta_of f)" "l_position l \<noteq> 0 \<Longrightarrow> 0 < dabs (l_position l)"
    using delta_nonzero [OF assms(2)] by (simp_all add: dec_simps)
  show ?thesis
  proof (cases k)
    case REDUCE
    with red [OF arm(3) [unfolded assms(4)]] nz pos show ?thesis by fastforce
  next
    case CLOSE
    with red [OF arm(4) [unfolded assms(4)]] nz pos show ?thesis by fastforce
  next
    case REVERSE
    with rev [OF arm(5) [unfolded assms(4)]] nz pos show ?thesis by fastforce
  qed (use none assms(4) in \<open>simp_all add: k_def classify_transition_def split: if_splits\<close>)
qed

text \<open>The sign of realized profit is right on both sides of the axis: reducing a long-YES position gains
  exactly when the exit price is above the entry, reducing a long-NO position exactly when it is below, and
  neither rounding nor a second complement can turn one into the other.\<close>
theorem realized_profit_sign:
  assumes "ledger_ok l" "fill_ready f" "apply_fill l f pv = Inr (t, l')" "t_realized_pnl t = Some r"
    and "f_price_dollars f = Some p" "l_average_entry_price l = Some x"
  shows "(0 < r \<longleftrightarrow> (if 0 < l_position l then x < p else p < x)) \<and> (r = 0 \<longleftrightarrow> p = x)"
proof -
  obtain c where c: "0 < c" "l_position l \<noteq> 0" "r = dmul (dmul (dsub p x) c) (of_int (dsign (l_position l)))"
    using apply_fill_realized [OF assms(1-4)] assms(5,6) by auto
  have s: "dsign (l_position l) = (if 0 < l_position l then 1 else - 1)"
    using c(2) by (auto simp: dsign_def)
  have m: "0 < dmul (dsub p x) c \<longleftrightarrow> x < p" "dmul (dsub p x) c = 0 \<longleftrightarrow> p = x"
    "dmul (dsub p x) c < 0 \<longleftrightarrow> p < x"
    using c(1) by (auto simp: dmul_def dsub_def dec.rnd_pos dec.rnd_neg dec.rnd_eq_0 zero_less_mult_iff mult_less_0_iff)
  show ?thesis
    unfolding c(3) s using m by (auto simp: dmul_def dec.rnd_pos dec.rnd_eq_0)
qed

text \<open>C9: a fill that crosses zero closes the outgoing episode and opens one on the other side, and its fee is
  charged to neither: both are marked ambiguous with an incomplete fee, and the fees already paid stand.\<close>
theorem reversal_splits_the_episode:
  assumes "ledger_ok l" "fill_ready f" "apply_fill l f pv = Inr (t, l')" "t_kind t = REVERSE"
  shows "\<exists>old closed' new. l_current_episode l = Some old \<and> l_closed_episodes l' = l_closed_episodes l @ [closed']
    \<and> l_current_episode l' = Some new
    \<and> e_closing_fill_id closed' = Some (f_fill_id f) \<and> e_opening_fill_id new = f_fill_id f
    \<and> e_opening_fill_id closed' = e_opening_fill_id old \<and> e_direction new \<noteq> e_direction closed'
    \<and> e_fees_paid closed' = e_fees_paid old \<and> e_fees_paid new = 0
    \<and> e_fee_allocation_ambiguous closed' \<and> e_fee_allocation_ambiguous new
    \<and> \<not> e_fee_complete closed' \<and> \<not> e_fee_complete new"
proof -
  define a where "a = dadd (l_position l) (delta_of f)"
  define k where "k = classify_transition (l_position l) a"
  note arm = apply_fill_arm [OF assms(2,3) a_def k_def [symmetric]]
  have k: "k = REVERSE" using arm(6) assms(4) by simp
  then have s: "l_position l \<noteq> 0" "a \<noteq> 0" "dsign a \<noteq> dsign (l_position l)"
    by (auto simp: k_def classify_transition_def split: if_splits)
  have s': "0 < a \<longleftrightarrow> \<not> 0 < l_position l"
    using s by (auto simp: dsign_def split: if_splits)
  obtain old where old: "l_current_episode l = Some old" "open_ok l old"
    using assms(1) s(1) by (auto simp: ledger_ok_def split: option.splits)
  obtain r1 l1 where r: "realized_on_reduction l (f_price_dollars f) (dabs (l_position l)) (dsign (l_position l)) = (r1, l1)"
    by force
  show ?thesis
    using arm(5) [OF k] old s'
    by (auto simp: apply_reverse_def r realized_ledger_eq [OF r] record_current_def record_fill_def ledger_simps [OF assms(2)]
        close_episode_def new_episode_def mark_fee_ambiguous_def open_ok_def Let_def)
qed

section \<open>Concrete ledgers of the witnesses\<close>

text \<open>Ten YES contracts bought at 50 cents, then a fill on that ledger.\<close>

definition long_ten :: market_ledger where
  "long_ten = (case apply_fill (new_ledger ''T'' (Some 0)) (sample_fill ''A'' 1 10 (1 / 2) YesOutcome) True of
     Inr (_, l) \<Rightarrow> l | Inl _ \<Rightarrow> new_ledger ''T'' (Some 0))"

lemma long_ten_ok: "ledger_ok long_ten"
  using apply_fill_ok [of "new_ledger ''T'' (Some 0)" "sample_fill ''A'' 1 10 (1 / 2) YesOutcome" True]
  by (auto simp: long_ten_def)

definition runs_to :: "market_ledger \<Rightarrow> normalized_fill \<Rightarrow> (position_transition \<Rightarrow> bool) \<Rightarrow> bool" where
  "runs_to l f P \<longleftrightarrow> (case apply_fill l f True of Inr (t, _) \<Rightarrow> P t | Inl _ \<Rightarrow> False)"

lemma runs_toE: "runs_to l f P \<Longrightarrow> \<exists>t l'. apply_fill l f True = Inr (t, l') \<and> P t"
  by (auto simp: runs_to_def split: sum.splits)

lemma sample_time [simp]: "parse_execution_time (sample_fill i t q p e) = Inr (of_int t)"
  by (simp add: parse_execution_time_eq)

lemmas fill_eval = apply_fill_def project_fill_def classify_transition_def Let_def dsign_def dec_eval
  apply_open_def apply_increase_def apply_reduction_def apply_reverse_def new_episode_def record_fill_def
  record_current_def close_episode_def realized_on_reduction_def mark_fee_ambiguous_def has_order_id_def

lemma long_ten_simps [simp]:
  "l_position long_ten = 10" "l_average_entry_price long_ten = Some (1 / 2)" "l_cost_basis_complete long_ten"
  "\<exists>e. l_current_episode long_ten = Some e" "l_closed_episodes long_ten = []"
  by (simp_all add: long_ten_def fill_eval del: not_None_eq)

lemma long_ten_reduce:
  "runs_to long_ten (sample_fill ''B'' 2 4 (3 / 5) NoOutcome) (\<lambda>t. t_realized_pnl t = Some (2 / 5))"
  by (simp add: runs_to_def long_ten_def fill_eval del: not_None_eq)

lemma long_ten_reverse:
  "runs_to long_ten (sample_fill ''B'' 2 14 (3 / 5) NoOutcome) (\<lambda>t. t_kind t = REVERSE)"
  by (simp add: runs_to_def long_ten_def fill_eval del: not_None_eq)

theorem realized_profit_sign_witness:
  "\<exists>t l'. apply_fill long_ten (sample_fill ''B'' 2 4 (3 / 5) NoOutcome) True = Inr (t, l') \<and> 0 < the (t_realized_pnl t)"
proof -
  obtain t l' where t: "apply_fill long_ten (sample_fill ''B'' 2 4 (3 / 5) NoOutcome) True = Inr (t, l')"
    "t_realized_pnl t = Some (2 / 5)"
    using runs_toE [OF long_ten_reduce] by blast
  have "0 < (2 / 5 :: rat) \<longleftrightarrow> (if 0 < l_position long_ten then 1 / 2 < (3 / 5 :: rat) else (3 / 5 :: rat) < 1 / 2)"
    using realized_profit_sign [OF long_ten_ok _ t, of "3 / 5" "1 / 2"] by simp
  with t show ?thesis by simp
qed

theorem reversal_splits_the_episode_witness:
  "\<exists>t l' new. apply_fill long_ten (sample_fill ''B'' 2 14 (3 / 5) NoOutcome) True = Inr (t, l')
    \<and> l_current_episode l' = Some new \<and> e_opening_fill_id new = ''B'' \<and> e_fee_allocation_ambiguous new"
proof -
  obtain t l' where t: "apply_fill long_ten (sample_fill ''B'' 2 14 (3 / 5) NoOutcome) True = Inr (t, l')"
    "t_kind t = REVERSE"
    using runs_toE [OF long_ten_reverse] by blast
  from reversal_splits_the_episode [OF long_ten_ok _ t] t(1) show ?thesis by auto
qed

section \<open>Properties of a settlement\<close>

lemma closed_settle: "open_ok l e \<Longrightarrow> closed_ok l (settle_episode e s t)"
  by (simp add: settle_episode_def is_open_def open_ok_def closed_ok_def)

text \<open>The settled ledger, when the guards pass and when they are what raised.\<close>

definition settled_ledger ::
  "market_ledger \<Rightarrow> position_episode \<Rightarrow> normalized_settlement \<Rightarrow> position_transition \<Rightarrow> market_ledger" where
  "settled_ledger l e s t = l\<lparr>l_position := 0, l_average_entry_price := None,
     l_closed_episodes := l_closed_episodes l @ [settle_episode e s t], l_current_episode := None\<rparr>"

lemma settled_ledger_ok: "ledger_ok l \<Longrightarrow> open_ok l e \<Longrightarrow> ledger_ok (settled_ledger l e s t)"
  using closed_settle [of l e s t] by (auto simp: ledger_ok_def closed_ok_def settled_ledger_def)

lemma apply_settlement_run:
  assumes "l_current_episode l = Some e" "l_position l \<noteq> 0"
    and "settled_quantity s = None \<or> settled_quantity s = Some (l_position l)"
  shows "\<exists>t. t_kind t = SETTLE \<and> t_quantity_closed t = dabs (l_position l)
    \<and> apply_settlement l s = Inr (t, settled_ledger l e s t)"
  using assms by (cases "settled_quantity s") (simp_all add: apply_settlement_def settled_ledger_def Let_def)

lemma apply_settlement_refused:
  assumes "l_position l = 0 \<or> (\<exists>q. settled_quantity s = Some q \<and> q \<noteq> l_position l)"
  shows "\<exists>x. apply_settlement l s = Inl x"
  using assms by (cases "l_position l = 0") (auto simp: apply_settlement_def)

lemma apply_settlement_applied:
  assumes "ledger_ok l" "apply_settlement l s = Inr (t, l')"
  obtains e where "l_current_episode l = Some e" "open_ok l e" "l' = settled_ledger l e s t" "t_kind t = SETTLE"
    "t_quantity_closed t = dabs (l_position l)" "ledger_ok l'"
proof -
  have g: "l_position l \<noteq> 0" "settled_quantity s = None \<or> settled_quantity s = Some (l_position l)"
    using apply_settlement_refused [of l s] assms(2) by (cases "settled_quantity s"; auto)+
  then obtain e where e: "l_current_episode l = Some e" "open_ok l e"
    using assms(1) by (auto simp: ledger_ok_def split: option.splits)
  from apply_settlement_run [OF e(1) g] assms(2) that [OF e] settled_ledger_ok [OF assms(1) e(2)]
  show ?thesis by auto
qed

text \<open>C10: a settlement is applied exactly when the market is not flat and the exchange's size, if it states one,
  is the replayed position; then the ledger is flat and its episode closed, once, by the settlement. Every
  refusal leaves the ledger alone and names the shape of the disagreement: flat, opposite side, larger or
  smaller.\<close>
theorem apply_settlement_spec:
  assumes "ledger_ok l"
  shows "case apply_settlement l s of
      Inr (t, l') \<Rightarrow> l_position l \<noteq> 0 \<and> (settled_quantity s = None \<or> settled_quantity s = Some (l_position l))
        \<and> ledger_ok l' \<and> l_position l' = 0 \<and> t_kind t = SETTLE
        \<and> (\<exists>e. l_current_episode l = Some e \<and> l_closed_episodes l' = l_closed_episodes l @ [settle_episode e s t])
    | Inl REPLAY_FLAT \<Rightarrow> l_position l = 0
    | Inl shape \<Rightarrow> l_position l \<noteq> 0 \<and> (\<exists>q. settled_quantity s = Some q \<and> q \<noteq> l_position l
        \<and> shape = (if sgn q \<noteq> sgn (l_position l) then OPPOSITE_DIRECTION
                   else if \<bar>l_position l\<bar> < \<bar>q\<bar> then SETTLEMENT_LARGER else SETTLEMENT_SMALLER))"
proof -
  have d: "drep (l_position l)" using assms by (simp add: ledger_ok_def)
  have q: "drep q" if "settled_quantity s = Some q" for q
    using that by (auto simp: settled_quantity_def split: if_splits)
  have shape: "refusal_shape q (l_position l) = (if sgn q \<noteq> sgn (l_position l) then OPPOSITE_DIRECTION
      else if \<bar>l_position l\<bar> < \<bar>q\<bar> then SETTLEMENT_LARGER else SETTLEMENT_SMALLER)"
    if "settled_quantity s = Some q" for q
    using d q [OF that] by (simp add: refusal_shape_def dsign_eq_iff dabs_drep)
  show ?thesis
  proof (cases "l_position l = 0 \<or> (\<exists>q. settled_quantity s = Some q \<and> q \<noteq> l_position l)")
    case True
    then consider "l_position l = 0"
      | q where "l_position l \<noteq> 0" "settled_quantity s = Some q" "q \<noteq> l_position l" by blast
    then show ?thesis
    proof cases
      case 2
      then show ?thesis
        by (cases "sgn q = sgn (l_position l)"; cases "\<bar>l_position l\<bar> < \<bar>q\<bar>")
           (simp_all add: apply_settlement_def shape)
    qed (simp add: apply_settlement_def)
  next
    case False
    then obtain e where e: "l_current_episode l = Some e" "open_ok l e"
      using assms by (auto simp: ledger_ok_def split: option.splits)
    have "settled_quantity s = None \<or> settled_quantity s = Some (l_position l)"
      using False by (cases "settled_quantity s") auto
    moreover from this obtain t where "t_kind t = SETTLE" "apply_settlement l s = Inr (t, settled_ledger l e s t)"
      using apply_settlement_run [OF e(1)] False by blast
    ultimately show ?thesis
      using False settled_ledger_ok [OF assms e(2), of s t] e(1) by (simp add: settled_ledger_def)
  qed
qed

definition sample_settlement :: "decimal \<Rightarrow> normalized_settlement" where
  "sample_settlement q = \<lparr>s_ticker = ''T'', s_settled_time = ''2026-01-01T00:00:00Z'', s_market_result = ''yes'',
     s_revenue_dollars = q, s_market_value_dollars = Some 1, s_fee_dollars = Some 0, s_yes_count = Some q,
     s_no_count = None, s_yes_cost_dollars = None, s_no_cost_dollars = None\<rparr>"

theorem apply_settlement_spec_witness:
  "case apply_settlement long_ten (sample_settlement 10) of
     Inr (t, l') \<Rightarrow> l_position l' = 0 \<and> t_kind t = SETTLE | Inl _ \<Rightarrow> False"
proof -
  have "settled_quantity (sample_settlement 10) = Some 10"
    by (simp add: settled_quantity_def sample_settlement_def count_or_zero_def ZERO_QUANTITY_def dec_eval)
  with apply_settlement_spec [OF long_ten_ok, of "sample_settlement 10"] show ?thesis
    by (auto split: sum.splits settlement_refusal.splits)
qed

text \<open>
  The episode's own fill count: \<open>_record\<close> never appends to \<open>transitions\<close>, so however many fills an
  episode absorbed, it reports none while open, and one after a settlement.
\<close>

lemma open_episode_fill_count:
  assumes "ledger_ok l" "l_current_episode l = Some e"
  shows "e_fill_count e = 0"
  using assms by (simp add: ledger_ok_def open_ok_def e_fill_count_def)

lemma settled_episode_fill_count:
  assumes "ledger_ok l" "l_current_episode l = Some e"
  shows "e_fill_count (settle_episode e s t) = 1"
  using open_episode_fill_count [OF assms] by (simp add: e_fill_count_def settle_episode_def)

end
