(* ===== verification/Keyed.thy ===== *)
theory Keyed
  imports Prelude
begin

text \<open>
  A replay over independent keyed ledgers: the loop \<open>ledger = ledgers.get(key) or fresh; apply(ledger, f)\<close>
  of \<^verbatim>\<open>AccountingEngine.replay\<close>, stated once for any step that may raise. The locale
  \<open>keyed_replay\<close> is its contract: a step on a ledger that satisfies the invariant for the history it has
  seen neither raises nor breaks the invariant. What follows is total replay, the invariant of every ledger for
  exactly the fills of its key, and independence of the keys.
\<close>

definition ledger_at :: "('k \<Rightarrow> 'l) \<Rightarrow> ('k, 'l) dict \<Rightarrow> 'k \<Rightarrow> 'l" where
  "ledger_at fresh d k = (case dget d k of None \<Rightarrow> fresh k | Some l \<Rightarrow> l)"

fun keyed_loop ::
  "('f \<Rightarrow> 'k) \<Rightarrow> ('k \<Rightarrow> 'l) \<Rightarrow> ('l \<Rightarrow> 'f \<Rightarrow> ('t \<times> 'l) result) \<Rightarrow> ('k, 'l) dict \<Rightarrow> 't list \<Rightarrow> 'f list
    \<Rightarrow> (('k, 'l) dict \<times> 't list) result" where
  "keyed_loop key fresh stp d ts [] = Inr (d, ts)"
| "keyed_loop key fresh stp d ts (f # fs) =
     rbind (stp (ledger_at fresh d (key f)) f) (\<lambda>(t, l).
       keyed_loop key fresh stp (dput (key f) l d) (ts @ [t]) fs)"

fun run_one :: "('l \<Rightarrow> 'f \<Rightarrow> ('t \<times> 'l) result) \<Rightarrow> 'l \<Rightarrow> 'f list \<Rightarrow> 'l result" where
  "run_one stp l [] = Inr l"
| "run_one stp l (f # fs) = rbind (stp l f) (\<lambda>(t, l). run_one stp l fs)"

lemma run_one_append: "run_one stp l (fs @ gs) = rbind (run_one stp l fs) (\<lambda>l. run_one stp l gs)"
proof (induction fs arbitrary: l)
  case (Cons f fs)
  then show ?case by (cases "stp l f") auto
qed simp

locale keyed_replay =
  fixes key :: "'f \<Rightarrow> 'k"
    and fresh :: "'k \<Rightarrow> 'l"
    and stp :: "'l \<Rightarrow> 'f \<Rightarrow> ('t \<times> 'l) result"
    and ready :: "'f \<Rightarrow> bool"
    and inv :: "'k \<Rightarrow> 'f list \<Rightarrow> 'l \<Rightarrow> bool"
  assumes inv_fresh: "inv k [] (fresh k)"
    and stp_inv: "inv (key f) hs l \<Longrightarrow> ready f \<Longrightarrow> \<exists>t l'. stp l f = Inr (t, l') \<and> inv (key f) (hs @ [f]) l'"
begin

lemma run_one_total:
  "inv k hs l \<Longrightarrow> \<forall>f \<in> set fs. ready f \<and> key f = k \<Longrightarrow> \<exists>l'. run_one stp l fs = Inr l' \<and> inv k (hs @ fs) l'"
proof (induction fs arbitrary: hs l)
  case (Cons f fs)
  then obtain t l' where l': "stp l f = Inr (t, l')" "inv k (hs @ [f]) l'"
    using stp_inv [of f hs l] by auto
  with Cons.IH [of "hs @ [f]" l'] Cons.prems show ?case by auto
qed simp

lemma ledger_at_dput: "ledger_at fresh (dput k l d) k' = (if k' = k then l else ledger_at fresh d k')"
  by (simp add: ledger_at_def)

lemma loop_spec:
  assumes "\<forall>f \<in> set fs. ready f" and "\<And>k. inv k (hist k) (ledger_at fresh d k)" and "distinct (dkeys d)"
  shows "\<exists>d' ts'. keyed_loop key fresh stp d ts fs = Inr (d', ts @ ts') \<and> length ts' = length fs
    \<and> distinct (dkeys d') \<and> fst ` set d' = fst ` set d \<union> key ` set fs
    \<and> (\<forall>k. inv k (hist k @ filter (\<lambda>f. key f = k) fs) (ledger_at fresh d' k)
         \<and> run_one stp (ledger_at fresh d k) (filter (\<lambda>f. key f = k) fs) = Inr (ledger_at fresh d' k))"
  using assms
proof (induction fs arbitrary: d ts hist)
  case (Cons f fs)
  obtain t l where l: "stp (ledger_at fresh d (key f)) f = Inr (t, l)" "inv (key f) (hist (key f) @ [f]) l"
    using stp_inv Cons.prems(1,2) by (metis list.set_intros(1))
  define hist' where "hist' = hist(key f := hist (key f) @ [f])"
  have "\<And>k. inv k (hist' k) (ledger_at fresh (dput (key f) l d) k)"
    using Cons.prems(2) l(2) by (simp add: hist'_def ledger_at_dput)
  moreover have "distinct (dkeys (dput (key f) l d))"
    using Cons.prems(3) by (rule distinct_dput)
  ultimately obtain d' ts' where IH: "keyed_loop key fresh stp (dput (key f) l d) (ts @ [t]) fs = Inr (d', (ts @ [t]) @ ts')"
    "length ts' = length fs" "distinct (dkeys d')"
    "fst ` set d' = fst ` set (dput (key f) l d) \<union> key ` set fs"
    "\<forall>k. inv k (hist' k @ filter (\<lambda>f. key f = k) fs) (ledger_at fresh d' k)
      \<and> run_one stp (ledger_at fresh (dput (key f) l d) k) (filter (\<lambda>f. key f = k) fs) = Inr (ledger_at fresh d' k)"
    using Cons.IH [of hist' "dput (key f) l d" "ts @ [t]"] Cons.prems(1) by auto
  have "inv k (hist k @ filter (\<lambda>f. key f = k) (f # fs)) (ledger_at fresh d' k)
      \<and> run_one stp (ledger_at fresh d k) (filter (\<lambda>f. key f = k) (f # fs)) = Inr (ledger_at fresh d' k)" for k
    using IH(5) l(1) by (cases "key f = k") (auto simp: hist'_def ledger_at_dput dest: spec [of _ k])
  with IH(1-4) l(1) show ?case
    by (intro exI [of _ d'] exI [of _ "t # ts'"]) auto
qed auto

text \<open>Replay from nothing.\<close>

lemma loop_total:
  assumes "\<forall>f \<in> set fs. ready f"
  shows "\<exists>d ts. keyed_loop key fresh stp [] [] fs = Inr (d, ts)"
  using loop_spec [OF assms, of "\<lambda>_. []" "[]" "[]"] inv_fresh by (auto simp: ledger_at_def)

lemma loop_result:
  assumes "\<forall>f \<in> set fs. ready f" "keyed_loop key fresh stp [] [] fs = Inr (d, ts)"
  shows "length ts = length fs" "distinct (dkeys d)" "fst ` set d = key ` set fs"
    "\<And>k. inv k (filter (\<lambda>f. key f = k) fs) (ledger_at fresh d k)"
    "\<And>k. run_one stp (fresh k) (filter (\<lambda>f. key f = k) fs) = Inr (ledger_at fresh d k)"
  using loop_spec [OF assms(1), of "\<lambda>_. []" "[]" "[]"] assms(2) inv_fresh by (auto simp: ledger_at_def)

text \<open>A ledger depends on the fills of its own key alone.\<close>

lemma loop_local:
  assumes "\<forall>f \<in> set fs. ready f" "keyed_loop key fresh stp [] [] fs = Inr (d, ts)"
    and "\<forall>f \<in> set gs. ready f" "keyed_loop key fresh stp [] [] gs = Inr (e, us)"
    and "filter (\<lambda>f. key f = k) fs = filter (\<lambda>f. key f = k) gs"
  shows "dget d k = dget e k"
proof -
  have "ledger_at fresh d k = ledger_at fresh e k"
    using loop_result(5) [OF assms(1,2), of k] loop_result(5) [OF assms(3,4), of k] assms(5) by simp
  moreover have "k \<in> key ` set fs \<longleftrightarrow> k \<in> key ` set gs"
    using arg_cong [OF assms(5), of set] by (auto simp: set_eq_iff)
  then have "dget d k = None \<longleftrightarrow> dget e k = None"
    unfolding map_of_eq_None_iff using loop_result(3) [OF assms(1,2)] loop_result(3) [OF assms(3,4)] by simp
  ultimately show ?thesis
    by (cases "dget d k"; cases "dget e k") (auto simp: ledger_at_def)
qed

end

end
