(* ===== verification/Engine.thy ===== *)
theory Engine
  imports Position Keyed
begin

text \<open>
  \<^verbatim>\<open>accounting/engine.py\<close>: the replay of a fill set into ledgers, orders, transitions and settlement
  outcomes. The fill loop of the source updates the ledgers, the fee total and the set of subaccounts in one
  pass; the three updates are independent and are three folds here. The result record keeps every counter.

  The lemmas: replay is a function of the set of fills; a ledger depends on the fills of its own subaccount and
  market only; the net position is the sum of signed quantities; every settlement is counted once; and the
  effective authority claim implies that each open position was confirmed by the exchange.
\<close>

datatype completeness = COMPLETE | BOUNDED_WINDOW

record accounting_result =
  r_completeness :: completeness
  r_ledgers :: "(position_key, market_ledger) dict"
  r_orders :: "(string, order_execution) dict"
  r_transitions :: "position_transition list"
  r_order_stats :: order_stats
  r_fills_replayed :: nat
  r_duplicate_fills_ignored :: nat
  r_settlements_applied :: nat
  r_settlements_without_a_position :: nat
  r_settlements_refused_unreconciled :: nat
  r_settlements_refused_ambiguous_subaccount :: nat
  r_settlements_refused_by_shape :: "(settlement_refusal, nat) dict"
  r_total_fees :: "decimal option"
  r_fills_with_fee :: nat
  r_subaccounts_observed :: "int option list"
  r_tickers_with_settlement_evidence :: "string list"
  r_settlement_floor :: "decimal option"
  r_exchange_view_supplied :: bool

definition ledger_for :: "accounting_result \<Rightarrow> string \<Rightarrow> int option \<Rightarrow> market_ledger option" where
  "ledger_for r ticker subaccount = dget (r_ledgers r) (subaccount, ticker)"

definition fill_history_complete :: "accounting_result \<Rightarrow> bool" where
  "fill_history_complete r \<longleftrightarrow> r_completeness r = COMPLETE"

definition r_episodes :: "accounting_result \<Rightarrow> position_episode list" where
  "r_episodes r = concat (map (\<lambda>(_, l). episodes l) (r_ledgers r))"

definition claims_complete_position_state :: "accounting_result \<Rightarrow> bool" where
  "claims_complete_position_state r \<longleftrightarrow>
     (if \<not> fill_history_complete r then False
      else list_all (\<lambda>e. e_authority e \<in> set EARNED_AUTHORITY) (r_episodes r))"

definition open_episodes :: "accounting_result \<Rightarrow> position_episode list" where
  "open_episodes r = filter is_open (r_episodes r)"

definition episodes_with_an_unprovable_outcome :: "accounting_result \<Rightarrow> position_episode list" where
  "episodes_with_an_unprovable_outcome r = filter (\<lambda>e. is_open e \<and> \<not> e_outcome_provable e) (r_episodes r)"

definition closed_episodes :: "accounting_result \<Rightarrow> position_episode list" where
  "closed_episodes r = filter (Not \<circ> is_open) (r_episodes r)"

definition transitions_of :: "accounting_result \<Rightarrow> transition_kind \<Rightarrow> position_transition list" where
  "transitions_of r k = filter (\<lambda>t. t_kind t = k) (r_transitions r)"

definition net_position :: "accounting_result \<Rightarrow> string \<Rightarrow> int option \<Rightarrow> decimal" where
  "net_position r ticker subaccount =
     (case ledger_for r ticker subaccount of Some l \<Rightarrow> l_position l | None \<Rightarrow> 0)"

section \<open>Episode updates in place\<close>

definition map_episodes :: "(position_episode \<Rightarrow> position_episode) \<Rightarrow> market_ledger \<Rightarrow> market_ledger" where
  "map_episodes g l = l\<lparr>l_closed_episodes := map g (l_closed_episodes l),
     l_current_episode := map_option g (l_current_episode l)\<rparr>"

definition map_ledgers :: "(position_key \<Rightarrow> market_ledger \<Rightarrow> market_ledger) \<Rightarrow> accounting_result \<Rightarrow> accounting_result" where
  "map_ledgers g r = r\<lparr>r_ledgers := map (\<lambda>(k, l). (k, g k l)) (r_ledgers r)\<rparr>"

definition count_refusal :: "settlement_refusal \<Rightarrow> accounting_result \<Rightarrow> accounting_result" where
  "count_refusal refusal r =
     r\<lparr>r_settlements_refused_by_shape := dbump refusal (r_settlements_refused_by_shape r)\<rparr>"

definition mark_outcome_unprovable :: "string \<Rightarrow> accounting_result \<Rightarrow> accounting_result" where
  "mark_outcome_unprovable ticker r =
     map_ledgers (\<lambda>(_, held) l.
       if held \<noteq> ticker then l
       else map_episodes (\<lambda>e. if is_open e then e\<lparr>e_outcome_provable := False\<rparr> else e) l) r"

section \<open>Settlements\<close>

definition keys_of_ticker :: "accounting_result \<Rightarrow> string \<Rightarrow> position_key list" where
  "keys_of_ticker r ticker = filter (\<lambda>k. snd k = ticker) (dkeys (r_ledgers r))"

definition apply_one_settlement :: "accounting_result \<Rightarrow> normalized_settlement \<Rightarrow> accounting_result" where
  "apply_one_settlement r s =
     (case keys_of_ticker r (s_ticker s) of
        [] \<Rightarrow> r\<lparr>r_settlements_without_a_position := r_settlements_without_a_position r + 1\<rparr>
      | k # others \<Rightarrow>
          let r = r\<lparr>r_tickers_with_settlement_evidence :=
                      List.insert (s_ticker s) (r_tickers_with_settlement_evidence r)\<rparr> in
          if others \<noteq> [] then
            mark_outcome_unprovable (s_ticker s) (count_refusal AMBIGUOUS_SUBACCOUNT
              (r\<lparr>r_settlements_refused_ambiguous_subaccount := r_settlements_refused_ambiguous_subaccount r + 1\<rparr>))
          else
            (case apply_settlement (the (dget (r_ledgers r) k)) s of
               Inl refusal \<Rightarrow>
                 mark_outcome_unprovable (s_ticker s) (count_refusal refusal
                   (r\<lparr>r_settlements_refused_unreconciled := r_settlements_refused_unreconciled r + 1\<rparr>))
             | Inr (t, l) \<Rightarrow>
                 r\<lparr>r_ledgers := dput k l (r_ledgers r), r_transitions := r_transitions r @ [t],
                   r_settlements_applied := r_settlements_applied r + 1\<rparr>))"

definition apply_settlements :: "normalized_settlement list \<Rightarrow> accounting_result \<Rightarrow> accounting_result" where
  "apply_settlements ss r = foldl apply_one_settlement r (sort_key s_settled_time ss)"

section \<open>Coverage and authority\<close>

definition mark_settlement_coverage :: "decimal option \<Rightarrow> accounting_result \<Rightarrow> accounting_result" where
  "mark_settlement_coverage settlement_floor r =
     (case settlement_floor of
        None \<Rightarrow> r
      | Some fl \<Rightarrow>
          map_ledgers (\<lambda>_. map_episodes (\<lambda>e.
            if \<not> is_open e then e
            else if e_ticker e \<in> set (r_tickers_with_settlement_evidence r) then e
            else (case e_last_activity_at e of
                    None \<Rightarrow> e\<lparr>e_outcome_provable := False\<rparr>
                  | Some t \<Rightarrow>
                      if t < fl
                      then e\<lparr>e_outcome_provable := False, e_outcome_bounded_by_settlement_coverage := True\<rparr>
                      else e))) r)"

definition closed_by_settlement :: "position_episode \<Rightarrow> bool" where
  "closed_by_settlement e \<longleftrightarrow> list_ex (\<lambda>t. t_kind t = SETTLE) (e_transitions e)"

type_synonym exchange_view = "(string, decimal option) dict option"

definition held_in :: "accounting_result \<Rightarrow> string \<Rightarrow> nat" where
  "held_in r ticker = length (keys_of_ticker r ticker)"

definition open_episode_authority :: "accounting_result \<Rightarrow> market_ledger \<Rightarrow> exchange_view \<Rightarrow> position_authority" where
  "open_episode_authority r l view =
     (if l_ticker l \<in> set (r_tickers_with_settlement_evidence r) then CONFLICTED
      else case view of
        None \<Rightarrow> NOT_RECONCILED
      | Some positions \<Rightarrow>
          (case dget positions (l_ticker l) of
             None \<Rightarrow> UNEXPLAINED
           | Some reported \<Rightarrow>
               if held_in r (l_ticker l) > 1 then CONFLICTED
               else (case reported of
                       None \<Rightarrow> CONFLICTED
                     | Some q \<Rightarrow> if q = l_position l then RECONCILED_CURRENT else CONFLICTED)))"

definition episode_authority :: "accounting_result \<Rightarrow> exchange_view \<Rightarrow> market_ledger \<Rightarrow> position_episode \<Rightarrow> position_authority" where
  "episode_authority r view l e =
     (if \<not> is_open e then (if closed_by_settlement e then EXPLAINED_SETTLED else CLOSED_BY_FILLS)
      else open_episode_authority r l view)"

definition assign_authority :: "exchange_view \<Rightarrow> accounting_result \<Rightarrow> accounting_result" where
  "assign_authority view r =
     (let r = r\<lparr>r_exchange_view_supplied := (view \<noteq> None)\<rparr> in
      map_ledgers (\<lambda>_ l. map_episodes (\<lambda>e. e\<lparr>e_authority := episode_authority r view l e\<rparr>) l) r)"

section \<open>Replay\<close>

definition replay_ledgers :: "bool \<Rightarrow> normalized_fill list
    \<Rightarrow> ((position_key, market_ledger) dict \<times> position_transition list) result" where
  "replay_ledgers provable ordered =
     keyed_loop position_key (\<lambda>(a, t). new_ledger t a) (\<lambda>l f. apply_fill l f provable) [] [] ordered"

text \<open>No phase reads the duplicate count, so it is stored last.\<close>

definition replay ::
  "normalized_fill list \<Rightarrow> completeness \<Rightarrow> normalized_settlement list \<Rightarrow> decimal option \<Rightarrow> exchange_view
    \<Rightarrow> accounting_result result" where
  "replay fs completeness settlements settlement_floor view =
     (let unique = dedupe_by f_fill_id fs in
      rbind (sort_fills unique) (\<lambda>ordered.
      rbind (replay_ledgers (completeness = COMPLETE) ordered) (\<lambda>(ledgers, transitions).
      let fees = List.map_filter f_fee_dollars ordered in
      rbind (aggregate_orders ordered no_order_stats) (\<lambda>(orders, stats).
      let r = \<lparr>r_completeness = completeness, r_ledgers = ledgers, r_orders = orders,
               r_transitions = transitions, r_order_stats = stats, r_fills_replayed = length ordered,
               r_duplicate_fills_ignored = 0,
               r_settlements_applied = 0, r_settlements_without_a_position = 0,
               r_settlements_refused_unreconciled = 0, r_settlements_refused_ambiguous_subaccount = 0,
               r_settlements_refused_by_shape = [],
               r_total_fees = (if list_all has_fee ordered then Some (dsum fees) else None),
               r_fills_with_fee = length fees,
               r_subaccounts_observed = remdups (map f_subaccount_number ordered),
               r_tickers_with_settlement_evidence = [], r_settlement_floor = settlement_floor,
               r_exchange_view_supplied = False\<rparr>
      in Inr (assign_authority view (mark_settlement_coverage settlement_floor (apply_settlements settlements r))
               \<lparr>r_duplicate_fills_ignored := length fs - length unique\<rparr>)))))"

section \<open>The ledgers of a replay\<close>

text \<open>What a ledger satisfies for the fills \<open>hs\<close> it has absorbed.\<close>

definition volume :: "normalized_fill list \<Rightarrow> decimal" where
  "volume hs = (\<Sum>f\<leftarrow>hs. fill_qty f)"

definition on_grid :: "normalized_fill list \<Rightarrow> bool" where
  "on_grid hs \<longleftrightarrow> (\<forall>h \<in> set hs. fill_ready h \<and> grid 6 (fill_qty h))"

definition ledger_inv :: "position_key \<Rightarrow> normalized_fill list \<Rightarrow> market_ledger \<Rightarrow> bool" where
  "ledger_inv k hs l \<longleftrightarrow> ledger_ok l \<and> l_subaccount_number l = fst k \<and> l_ticker l = snd k
     \<and> l_position l = dsum (map delta_of hs)
     \<and> (on_grid hs \<and> volume hs < 10 ^ 22 \<longrightarrow> ledger_balanced (volume hs) l)"

lemma volume_nonneg: "on_grid hs \<Longrightarrow> 0 \<le> volume hs"
  unfolding volume_def on_grid_def
  by (rule sum_list_nonneg) (auto simp: less_imp_le fill_qty_pos)

lemma volume_filter: "on_grid hs \<Longrightarrow> volume (filter P hs) \<le> volume hs"
  by (induction hs) (auto simp: volume_def on_grid_def dest: fill_qty_pos)

interpretation ledgers: keyed_replay position_key "\<lambda>(a, t). new_ledger t a" "\<lambda>l f. apply_fill l f pv"
  fill_ready ledger_inv for pv
proof
  show "ledger_inv k [] (case k of (a, t) \<Rightarrow> new_ledger t a)" for k
    by (cases k) (simp add: ledger_inv_def ledger_balanced_def volume_def)
  show "\<exists>t l'. apply_fill l f pv = Inr (t, l') \<and> ledger_inv (position_key f) (hs @ [f]) l'"
    if inv: "ledger_inv (position_key f) hs l" and f: "fill_ready f" for f hs l
  proof -
    have l: "ledger_ok l" using inv by (simp add: ledger_inv_def)
    obtain t l' where t: "apply_fill l f pv = Inr (t, l')" "ledger_ok l'"
      "l_position l' = dadd (l_position l) (delta_of f)" "l_ticker l' = l_ticker l"
      "l_subaccount_number l' = l_subaccount_number l"
      using apply_fill_ok [OF l f] by blast
    have "ledger_balanced (volume (hs @ [f])) l'" if g: "on_grid (hs @ [f])" "volume (hs @ [f]) < 10 ^ 22"
    proof -
      have "on_grid hs" "grid 6 (fill_qty f)" using g(1) by (simp_all add: on_grid_def)
      moreover have "volume hs < 10 ^ 22"
        using g(2) fill_qty_pos [OF f] by (simp add: volume_def)
      ultimately show ?thesis
        using inv g(2) apply_fill_balanced [OF l _ f _ _ t(1)] by (simp add: ledger_inv_def volume_def)
    qed
    with t inv show ?thesis by (auto simp: ledger_inv_def dsum_snoc)
  qed
qed

text \<open>Updates of the fields the later phases own leave the accounting alone.\<close>

definition annotates :: "(position_episode \<Rightarrow> position_episode) \<Rightarrow> bool" where
  "annotates g \<longleftrightarrow> (\<forall>e. g e = e\<lparr>e_outcome_provable := e_outcome_provable (g e),
     e_outcome_bounded_by_settlement_coverage := e_outcome_bounded_by_settlement_coverage (g e),
     e_authority := e_authority (g e)\<rparr>)"

lemma annotates_fields:
  assumes "annotates g"
  shows "e_ticker (g e) = e_ticker e" "e_subaccount_number (g e) = e_subaccount_number e" "is_open (g e) = is_open e"
    "e_remaining_quantity (g e) = e_remaining_quantity e" "e_peak_quantity (g e) = e_peak_quantity e"
    "e_direction (g e) = e_direction e" "e_average_entry_price (g e) = e_average_entry_price e"
    "e_cost_basis_complete (g e) = e_cost_basis_complete e" "e_transitions (g e) = e_transitions e"
    "e_total_opened_quantity (g e) = e_total_opened_quantity e" "e_total_closed_quantity (g e) = e_total_closed_quantity e"
    "e_provable (g e) = e_provable e" "e_opening_fill_id (g e) = e_opening_fill_id e"
proof -
  obtain a b c where "g e = e\<lparr>e_outcome_provable := a, e_outcome_bounded_by_settlement_coverage := b, e_authority := c\<rparr>"
    using assms unfolding annotates_def by blast
  then show "e_ticker (g e) = e_ticker e" "e_subaccount_number (g e) = e_subaccount_number e" "is_open (g e) = is_open e"
    "e_remaining_quantity (g e) = e_remaining_quantity e" "e_peak_quantity (g e) = e_peak_quantity e"
    "e_direction (g e) = e_direction e" "e_average_entry_price (g e) = e_average_entry_price e"
    "e_cost_basis_complete (g e) = e_cost_basis_complete e" "e_transitions (g e) = e_transitions e"
    "e_total_opened_quantity (g e) = e_total_opened_quantity e" "e_total_closed_quantity (g e) = e_total_closed_quantity e"
    "e_provable (g e) = e_provable e" "e_opening_fill_id (g e) = e_opening_fill_id e"
    by (simp_all add: is_open_def)
qed

lemma map_episodes_fields [simp]:
  "l_ticker (map_episodes g l) = l_ticker l" "l_subaccount_number (map_episodes g l) = l_subaccount_number l"
  "l_position (map_episodes g l) = l_position l"
  "l_average_entry_price (map_episodes g l) = l_average_entry_price l"
  "l_cost_basis_complete (map_episodes g l) = l_cost_basis_complete l"
  "l_current_episode (map_episodes g l) = map_option g (l_current_episode l)"
  "l_closed_episodes (map_episodes g l) = map g (l_closed_episodes l)"
  by (simp_all add: map_episodes_def)

lemma episodes_map [simp]: "episodes (map_episodes g l) = map g (episodes l)"
  by (simp add: episodes_def split: option.splits)

lemma ledger_ok_map: "annotates g \<Longrightarrow> ledger_ok (map_episodes g l) \<longleftrightarrow> ledger_ok l"
  by (auto simp: ledger_ok_def open_ok_def closed_ok_def annotates_fields split: option.splits)

lemma ledger_balanced_map: "annotates g \<Longrightarrow> ledger_balanced v (map_episodes g l) \<longleftrightarrow> ledger_balanced v l"
  by (auto simp: ledger_balanced_def episode_balanced_def annotates_fields)

lemma annotates_intros:
  "annotates (\<lambda>e. e)"
  "annotates (\<lambda>e. e\<lparr>e_authority := h e\<rparr>)"
  "annotates (\<lambda>e. if p e then e\<lparr>e_outcome_provable := False\<rparr> else e)"
  by (simp_all add: annotates_def)

section \<open>Invariants of every ledger of a result\<close>

text \<open>
  The contract of a per-ledger property: settling and annotating keep it. Then so do the three phases that
  follow the fill loop.
\<close>

lemma dget_map_values: "dget (map (\<lambda>(k, l). (k, g k l)) d) k = map_option (g k) (dget d k)"
  by (induction d) auto

lemma dkeys_map_values: "dkeys (map (\<lambda>(k, l). (k, g k l)) d) = dkeys d"
  by (induction d) auto

locale ledger_contract =
  fixes I :: "position_key \<Rightarrow> market_ledger \<Rightarrow> bool"
  assumes I_settle: "I k l \<Longrightarrow> apply_settlement l s = Inr (t, l') \<Longrightarrow> I k l'"
    and I_annotate: "I k l \<Longrightarrow> annotates g \<Longrightarrow> I k (map_episodes g l)"
begin

definition all_ledgers :: "accounting_result \<Rightarrow> bool" where
  "all_ledgers r \<longleftrightarrow> distinct (dkeys (r_ledgers r)) \<and> (\<forall>k l. dget (r_ledgers r) k = Some l \<longrightarrow> I k l)"

lemma all_map:
  assumes "all_ledgers r" "\<And>k l. I k l \<Longrightarrow> I k (g k l)"
  shows "all_ledgers (map_ledgers g r)"
  using assms
  by (auto simp: all_ledgers_def map_ledgers_def dkeys_map_values dget_map_values simp del: map_map map_of_eq_Some_iff)

lemma all_mark: "all_ledgers r \<Longrightarrow> all_ledgers (mark_outcome_unprovable t r)"
  unfolding mark_outcome_unprovable_def
  by (rule all_map) (auto intro!: I_annotate annotates_intros)

lemma all_counters [simp]:
  "all_ledgers (r\<lparr>r_settlements_without_a_position := n\<rparr>) \<longleftrightarrow> all_ledgers r"
  "all_ledgers (r\<lparr>r_tickers_with_settlement_evidence := ts\<rparr>) \<longleftrightarrow> all_ledgers r"
  "all_ledgers (r\<lparr>r_settlements_refused_ambiguous_subaccount := n\<rparr>) \<longleftrightarrow> all_ledgers r"
  "all_ledgers (r\<lparr>r_settlements_refused_unreconciled := n\<rparr>) \<longleftrightarrow> all_ledgers r"
  "all_ledgers (r\<lparr>r_exchange_view_supplied := b\<rparr>) \<longleftrightarrow> all_ledgers r"
  "all_ledgers (r\<lparr>r_duplicate_fills_ignored := n\<rparr>) \<longleftrightarrow> all_ledgers r"
  "all_ledgers (count_refusal x r) \<longleftrightarrow> all_ledgers r"
  by (simp_all add: all_ledgers_def count_refusal_def)

lemma keys_known: "keys_of_ticker r t = k # ks \<Longrightarrow> \<exists>l. dget (r_ledgers r) k = Some l"
proof -
  assume "keys_of_ticker r t = k # ks"
  then have "k \<in> set (keys_of_ticker r t)" by simp
  then have "k \<in> fst ` set (r_ledgers r)" by (auto simp: keys_of_ticker_def)
  then show ?thesis by (metis map_of_eq_None_iff not_None_eq)
qed

lemma all_one_settlement: "all_ledgers r \<Longrightarrow> all_ledgers (apply_one_settlement r s)"
proof (cases "keys_of_ticker r (s_ticker s)")
  case (Cons k ks)
  assume r: "all_ledgers r"
  obtain l where l: "dget (r_ledgers r) k = Some l" using keys_known [OF Cons] by blast
  show ?thesis
  proof (cases "apply_settlement l s")
    case (Inr tl')
    then obtain t l' where "apply_settlement l s = Inr (t, l')" by (cases tl') auto
    with r l have "I k l'" unfolding all_ledgers_def by (blast intro: I_settle)
    with r l Cons \<open>apply_settlement l s = Inr (t, l')\<close> show ?thesis
      by (auto simp: apply_one_settlement_def Let_def intro!: all_mark) (auto simp: all_ledgers_def)
  qed (use r l Cons in \<open>auto simp: apply_one_settlement_def Let_def intro!: all_mark\<close>)
qed (simp add: apply_one_settlement_def)

lemma all_settlements: "all_ledgers r \<Longrightarrow> all_ledgers (apply_settlements ss r)"
proof -
  have "all_ledgers r \<Longrightarrow> all_ledgers (foldl apply_one_settlement r xs)" for xs
    by (induction xs arbitrary: r) (simp_all add: all_one_settlement)
  then show "all_ledgers r \<Longrightarrow> all_ledgers (apply_settlements ss r)"
    by (simp add: apply_settlements_def)
qed

lemma all_coverage: "all_ledgers r \<Longrightarrow> all_ledgers (mark_settlement_coverage fl r)"
  by (auto simp: mark_settlement_coverage_def annotates_def split: option.splits intro!: all_map I_annotate)

lemma all_authority: "all_ledgers r \<Longrightarrow> all_ledgers (assign_authority view r)"
  by (auto simp: assign_authority_def Let_def intro!: all_map I_annotate annotates_intros)

text \<open>What holds of the ledgers the fill loop builds holds of the ledgers of the result.\<close>

lemma all_replay:
  assumes "replay fs c ss fl view = Inr r"
    and "\<And>ordered d ts. sort_fills (dedupe_by f_fill_id fs) = Inr ordered
      \<Longrightarrow> replay_ledgers (c = COMPLETE) ordered = Inr (d, ts)
      \<Longrightarrow> distinct (dkeys d) \<and> (\<forall>k l. dget d k = Some l \<longrightarrow> I k l)"
  shows "all_ledgers r"
proof -
  obtain ordered d ts ex st where "sort_fills (dedupe_by f_fill_id fs) = Inr ordered"
    "replay_ledgers (c = COMPLETE) ordered = Inr (d, ts)" "aggregate_orders ordered no_order_stats = Inr (ex, st)"
    using assms(1) by (auto simp: replay_def Let_def rbind_eq_Inr)
  with assms(1) assms(2) [of ordered d ts] show ?thesis
    by (auto simp: replay_def Let_def intro!: all_authority all_coverage all_settlements) (auto simp: all_ledgers_def)
qed

end

section \<open>The contracts the model keeps\<close>

definition well_formed :: "position_key \<Rightarrow> market_ledger \<Rightarrow> bool" where
  "well_formed k l \<longleftrightarrow> ledger_ok l \<and> l_subaccount_number l = fst k \<and> l_ticker l = snd k"

definition balanced_within :: "decimal \<Rightarrow> position_key \<Rightarrow> market_ledger \<Rightarrow> bool" where
  "balanced_within v k l \<longleftrightarrow> well_formed k l \<and> v < 10 ^ 22 \<and> ledger_balanced v l"

definition provable_as :: "bool \<Rightarrow> position_key \<Rightarrow> market_ledger \<Rightarrow> bool" where
  "provable_as pv k l \<longleftrightarrow> well_formed k l \<and> (\<forall>e \<in> set (episodes l). e_provable e = pv)"

lemma well_formed_settle:
  "well_formed k l \<Longrightarrow> apply_settlement l s = Inr (t, l') \<Longrightarrow> well_formed k l'"
proof -
  assume w: "well_formed k l" and s: "apply_settlement l s = Inr (t, l')"
  have "ledger_ok l" using w by (simp add: well_formed_def)
  from this s obtain e where "l' = settled_ledger l e s t" "ledger_ok l'" by (rule apply_settlement_applied)
  with w show ?thesis by (simp add: well_formed_def settled_ledger_def)
qed

interpretation wf: ledger_contract well_formed
  by unfold_locales (auto simp: well_formed_settle, simp add: well_formed_def ledger_ok_map)

interpretation books: ledger_contract "balanced_within v" for v
proof
  show "balanced_within v k l'" if b: "balanced_within v k l" and s: "apply_settlement l s = Inr (t, l')" for k l s t l'
  proof -
    have w: "well_formed k l" using b by (simp add: balanced_within_def)
    then have ok: "ledger_ok l" "well_formed k l'" using well_formed_settle [OF w s] by (simp_all add: well_formed_def)
    from ok(1) s show ?thesis
    proof (rule apply_settlement_applied)
      fix e assume e: "l_current_episode l = Some e" "l' = settled_ledger l e s t" "t_quantity_closed t = dabs (l_position l)"
      have eb: "episode_balanced v \<bar>l_position l\<bar> e" "grid 6 (l_position l)" "v < 10 ^ 22"
        using b e(1) by (auto simp: balanced_within_def ledger_balanced_def)
      have p: "dabs (l_position l) = \<bar>l_position l\<bar>" using ok(1) by (simp add: ledger_ok_def dabs_drep)
      have "dadd (e_total_closed_quantity e) \<bar>l_position l\<bar> = e_total_opened_quantity e"
        using eb by (subst dadd_exact) (auto simp: episode_balanced_def intro!: exact6)
      then have "e_total_opened_quantity (settle_episode e s t) = e_total_closed_quantity (settle_episode e s t)"
        by (simp add: settle_episode_def e(3) p)
      then show ?thesis
        using b ok(2) unfolding balanced_within_def ledger_balanced_def e(2) settled_ledger_def by auto
    qed
  qed
  show "balanced_within v k (map_episodes g l)" if "balanced_within v k l" "annotates g" for k l g
    using that by (simp add: balanced_within_def wf.I_annotate ledger_balanced_map)
qed

interpretation boundary: ledger_contract "provable_as pv" for pv
proof
  show "provable_as pv k l'" if b: "provable_as pv k l" and s: "apply_settlement l s = Inr (t, l')" for k l s t l'
  proof -
    have w: "well_formed k l" using b by (simp add: provable_as_def)
    then have ok: "ledger_ok l" "well_formed k l'" using well_formed_settle [OF w s] by (simp_all add: well_formed_def)
    from ok(1) s show ?thesis
    proof (rule apply_settlement_applied)
      fix e assume e: "l_current_episode l = Some e" "l' = settled_ledger l e s t"
      have "e_provable (settle_episode e s t) = e_provable e" by (simp add: settle_episode_def)
      then show ?thesis using b ok(2) e by (auto simp: provable_as_def episodes_def settled_ledger_def)
    qed
  qed
  show "provable_as pv k (map_episodes g l)" if "provable_as pv k l" "annotates g" for k l g
    using that by (auto simp: provable_as_def wf.I_annotate annotates_fields)
qed

section \<open>The fill loop\<close>

lemma replay_ready:
  assumes "\<forall>f \<in> set fs. fill_ok f" "sort_fills (dedupe_by f_fill_id fs) = Inr ordered"
  shows "\<forall>f \<in> set ordered. fill_ready f" "mset ordered = mset (dedupe_by f_fill_id fs)"
proof -
  show m: "mset ordered = mset (dedupe_by f_fill_id fs)" using assms(2) by (rule mset_sort_fills)
  have "set ordered \<subseteq> set fs" using mset_eq_setD [OF m] dedupe_by_subset by metis
  then show "\<forall>f \<in> set ordered. fill_ready f"
    using assms by (auto simp: sort_fills_Inr fill_ready_def fill_ok_def)
qed

lemma replay_loop:
  assumes "\<forall>f \<in> set ordered. fill_ready f" "replay_ledgers pv ordered = Inr (d, ts)"
  shows "distinct (dkeys d)" "fst ` set d = position_key ` set ordered" "length ts = length ordered"
    "dget d k = Some l \<Longrightarrow> ledger_inv k (filter (\<lambda>f. position_key f = k) ordered) l"
    "dget d k = None \<longleftrightarrow> k \<notin> position_key ` set ordered"
proof -
  note run = ledgers.loop_result [OF assms(1) assms(2) [unfolded replay_ledgers_def]]
  show "distinct (dkeys d)" "fst ` set d = position_key ` set ordered" "length ts = length ordered"
    using run(1-3) by simp_all
  show "dget d k = Some l \<Longrightarrow> ledger_inv k (filter (\<lambda>f. position_key f = k) ordered) l"
    using run(4) [of k] by (simp add: ledger_at_def del: map_of_eq_Some_iff)
  show "dget d k = None \<longleftrightarrow> k \<notin> position_key ` set ordered"
    unfolding map_of_eq_None_iff run(3) ..
qed

section \<open>Properties of a replay\<close>

text \<open>The result without its duplicate counter, the one field that sees how often a fill was supplied.\<close>

definition without_duplicate_count :: "accounting_result result \<Rightarrow> accounting_result result" where
  "without_duplicate_count r = map_sum id (\<lambda>r. r\<lparr>r_duplicate_fills_ignored := 0\<rparr>) r"

text \<open>C11: replay is a function of the set of fills: shuffled, repeated or overlapping pages of the same
  history give the same ledgers, episodes, orders, transitions, counters and claims, for any settlements,
  evidence floor and exchange view.\<close>
theorem replay_deterministic:
  assumes "set xs = set ys" and "inj_on f_fill_id (set xs)"
  shows "without_duplicate_count (replay xs c ss fl view) = without_duplicate_count (replay ys c ss fl view)"
proof -
  have s: "sort_fills (dedupe_by f_fill_id xs) = sort_fills (dedupe_by f_fill_id ys)"
    using mset_dedupe_by_cong [OF assms(2,1)] inj_on_subset [OF assms(2) dedupe_by_subset] by (rule sort_fills_cong)
  have d: "without_duplicate_count (Inr (r\<lparr>r_duplicate_fills_ignored := n\<rparr>)) = Inr (r\<lparr>r_duplicate_fills_ignored := 0\<rparr>)"
    "without_duplicate_count (Inl e) = Inl e" for r n e
    by (simp_all add: without_duplicate_count_def)
  show ?thesis
    unfolding replay_def Let_def s
    by (simp add: rbind_def d split: sum.split prod.split)
qed

theorem replay_deterministic_witness:
  "let a = sample_fill ''A'' 2 10 (1 / 2) YesOutcome; b = sample_fill ''B'' 1 4 (1 / 4) NoOutcome
   in without_duplicate_count (replay [a, b, a] COMPLETE [] None None)
      = without_duplicate_count (replay [b, a] COMPLETE [] None None)"
  unfolding Let_def by (rule replay_deterministic) (auto simp: inj_on_def)

section \<open>Positions\<close>

text \<open>The phases after the fill loop, where no settlement is supplied: no position moves.\<close>

lemma l_position_map:
  assumes "\<And>k l. l_position (g k l) = l_position l"
  shows "map_option l_position (dget (r_ledgers (map_ledgers g r)) k) = map_option l_position (dget (r_ledgers r) k)"
  by (cases "dget (r_ledgers r) k") (simp_all add: map_ledgers_def dget_map_values assms del: map_of_eq_Some_iff)

lemma position_coverage:
  "map_option l_position (dget (r_ledgers (mark_settlement_coverage fl r)) k) = map_option l_position (dget (r_ledgers r) k)"
  by (simp add: mark_settlement_coverage_def l_position_map split: option.split)

lemma position_authority_phase:
  "map_option l_position (dget (r_ledgers (assign_authority v r)) k) = map_option l_position (dget (r_ledgers r) k)"
  by (simp add: assign_authority_def Let_def l_position_map)

lemma replay_Inr:
  assumes "replay fs c ss fl view = Inr r"
  obtains ordered d ts ex st r0 where "sort_fills (dedupe_by f_fill_id fs) = Inr ordered"
    "replay_ledgers (c = COMPLETE) ordered = Inr (d, ts)" "aggregate_orders ordered no_order_stats = Inr (ex, st)"
    "r_ledgers r0 = d" "r_completeness r0 = c" "r_tickers_with_settlement_evidence r0 = []"
    "r_settlements_applied r0 = 0" "r_settlements_without_a_position r0 = 0" "r_settlements_refused_unreconciled r0 = 0"
    "r_settlements_refused_ambiguous_subaccount r0 = 0" "r_settlements_refused_by_shape r0 = []"
    "r = assign_authority view (mark_settlement_coverage fl (apply_settlements ss r0))
          \<lparr>r_duplicate_fills_ignored := length fs - length (dedupe_by f_fill_id fs)\<rparr>"
proof -
  obtain ordered d ts ex st where o: "sort_fills (dedupe_by f_fill_id fs) = Inr ordered"
    "replay_ledgers (c = COMPLETE) ordered = Inr (d, ts)" "aggregate_orders ordered no_order_stats = Inr (ex, st)"
    using assms by (auto simp: replay_def Let_def rbind_eq_Inr)
  show ?thesis
    by (rule that [OF o, of "\<lparr>r_completeness = c, r_ledgers = d, r_orders = ex,
               r_transitions = ts, r_order_stats = st, r_fills_replayed = length ordered,
               r_duplicate_fills_ignored = 0,
               r_settlements_applied = 0, r_settlements_without_a_position = 0,
               r_settlements_refused_unreconciled = 0, r_settlements_refused_ambiguous_subaccount = 0,
               r_settlements_refused_by_shape = [],
               r_total_fees = (if list_all has_fee ordered then Some (dsum (List.map_filter f_fee_dollars ordered)) else None),
               r_fills_with_fee = length (List.map_filter f_fee_dollars ordered),
               r_subaccounts_observed = remdups (map f_subaccount_number ordered),
               r_tickers_with_settlement_evidence = [], r_settlement_floor = fl,
               r_exchange_view_supplied = False\<rparr>"])
       (use assms o in \<open>simp_all add: replay_def Let_def\<close>)
qed

definition signed_count :: "normalized_fill \<Rightarrow> decimal" where
  "signed_count f = (if f_exposure_side f = YesOutcome then fill_qty f else - fill_qty f)"

lemma dsum_delta_exact:
  assumes "on_grid hs" "volume hs < 10 ^ 22"
  shows "dsum (map delta_of hs) = (\<Sum>f\<leftarrow>hs. signed_count f)"
proof -
  have q: "\<forall>f \<in> set hs. delta_of f = signed_count f \<and> grid 6 (signed_count f) \<and> \<bar>signed_count f\<bar> = fill_qty f"
  proof
    fix f assume f: "f \<in> set hs"
    then have r: "fill_ready f" "grid 6 (fill_qty f)" using assms(1) by (auto simp: on_grid_def)
    have "fill_qty f \<le> volume hs"
      using f assms(1) unfolding volume_def by (intro member_le_sum_list) (auto simp: on_grid_def less_imp_le fill_qty_pos)
    then have "fill_qty f < 10 ^ 22" using assms(2) by simp
    from delta_exact [OF r this] show "delta_of f = signed_count f \<and> grid 6 (signed_count f) \<and> \<bar>signed_count f\<bar> = fill_qty f"
      by (simp add: signed_count_def)
  qed
  have eq: "map delta_of hs = map signed_count hs" using q by simp
  have "map abs (map signed_count hs) = map fill_qty hs" using q by simp
  then have "(\<Sum>x\<leftarrow>map signed_count hs. \<bar>x\<bar>) < 10 ^ 22" using assms(2) by (simp only: volume_def)
  then show ?thesis
    unfolding eq using q by (intro dsum_exact [of _ 6 22]) auto
qed

lemma sum_list_mset_eq: "mset xs = mset ys \<Longrightarrow> (\<Sum>x\<leftarrow>xs. h x) = (\<Sum>x\<leftarrow>ys. (h x :: decimal))"
  by (metis mset_map sum_mset_sum_list)

text \<open>C12: the net position of a market in one subaccount is the sum of its fills, each counted once with the
  sign of its exposure, exactly: for six-decimal counts of less than \<open>10 ^ 22\<close> contracts in all, no
  rounding, repetition, order of arrival or other market moves it.\<close>
theorem net_position_is_signed_sum:
  assumes "replay fs c [] fl view = Inr r" and "\<forall>f \<in> set fs. fill_ok f \<and> grid 6 (fill_qty f)"
    and "volume (dedupe_by f_fill_id fs) < 10 ^ 22"
  shows "net_position r t a = (\<Sum>f\<leftarrow>filter (\<lambda>f. position_key f = (a, t)) (dedupe_by f_fill_id fs). signed_count f)"
proof -
  let ?u = "dedupe_by f_fill_id fs" and ?k = "(a, t)"
  from assms(1) obtain ordered d ts ex st r0 where o: "sort_fills ?u = Inr ordered"
    "replay_ledgers (c = COMPLETE) ordered = Inr (d, ts)" "r_ledgers r0 = d"
    "r = assign_authority view (mark_settlement_coverage fl (apply_settlements [] r0))\<lparr>r_duplicate_fills_ignored := length fs - length ?u\<rparr>"
    by (rule replay_Inr)
  let ?h = "filter (\<lambda>f. position_key f = ?k) ordered"
  have ready: "\<forall>f \<in> set ordered. fill_ready f" and m: "mset ordered = mset ?u"
    using replay_ready [OF _ o(1)] assms(2) by auto
  have grid: "on_grid ordered"
    using ready assms(2) mset_eq_setD [OF m] dedupe_by_subset [of f_fill_id fs] by (auto simp: on_grid_def)
  have h: "on_grid ?h" "volume ?h < 10 ^ 22"
    using grid volume_filter [OF grid, of "\<lambda>f. position_key f = ?k"] assms(3) sum_list_mset_eq [OF m, of fill_qty]
    by (auto simp: on_grid_def volume_def)
  have p: "map_option l_position (ledger_for r t a) = map_option l_position (dget d ?k)"
    by (simp add: o(4) ledger_for_def position_authority_phase position_coverage apply_settlements_def o(3)
        del: map_of_eq_Some_iff)
  have s: "(\<Sum>f\<leftarrow>?h. signed_count f) = (\<Sum>f\<leftarrow>filter (\<lambda>f. position_key f = ?k) ?u. signed_count f)"
    by (intro sum_list_mset_eq) (simp add: m mset_filter)
  show ?thesis
  proof (cases "dget d ?k")
    case None
    then have "\<forall>f \<in> set ordered. position_key f \<noteq> ?k" using replay_loop(5) [OF ready o(2), of ?k] by (metis imageI)
    then have "?h = []" by (simp add: filter_empty_conv)
    then show ?thesis using p None s by (simp add: net_position_def split: option.splits)
  next
    case (Some l)
    from replay_loop(4) [OF ready o(2) Some] have "l_position l = dsum (map delta_of ?h)"
      by (simp add: ledger_inv_def)
    then show ?thesis using p Some s dsum_delta_exact [OF h] by (auto simp: net_position_def split: option.splits)
  qed
qed

text \<open>Positions never net across subaccounts or markets: two replays whose fills of one subaccount and
  market agree, in order, build the same ledger for it, whatever else they hold.\<close>
theorem ledger_depends_on_its_key:
  assumes "\<forall>f \<in> set fs. fill_ready f" "replay_ledgers pv fs = Inr (d, ts)"
    and "\<forall>f \<in> set gs. fill_ready f" "replay_ledgers pv gs = Inr (e, us)"
    and "filter (\<lambda>f. f_subaccount_number f = a \<and> f_ticker f = t) fs = filter (\<lambda>f. f_subaccount_number f = a \<and> f_ticker f = t) gs"
  shows "dget d (a, t) = dget e (a, t)"
proof -
  have "position_key f = (a, t) \<longleftrightarrow> f_subaccount_number f = a \<and> f_ticker f = t" for f
    by (simp add: position_key_def)
  with assms(5) have same: "filter (\<lambda>f. position_key f = (a, t)) fs = filter (\<lambda>f. position_key f = (a, t)) gs" by simp
  show ?thesis
    by (rule ledgers.loop_local [OF assms(1) assms(2) [unfolded replay_ledgers_def] assms(3)
          assms(4) [unfolded replay_ledgers_def] same])
qed

lemma replay_ledgers_total:
  "\<forall>f \<in> set fs. fill_ready f \<Longrightarrow> \<exists>d ts. replay_ledgers pv fs = Inr (d, ts)"
  unfolding replay_ledgers_def by (rule ledgers.loop_total)

theorem ledger_depends_on_its_key_witness:
  "let a = sample_fill ''A'' 1 10 (1 / 2) YesOutcome; b = (sample_fill ''B'' 2 7 (1 / 4) NoOutcome)\<lparr>f_subaccount_number := None\<rparr>
   in \<exists>d ts e us. replay_ledgers True [a] = Inr (d, ts) \<and> replay_ledgers True [a, b] = Inr (e, us)
      \<and> dget d (Some 0, ''T'') = dget e (Some 0, ''T'')"
proof -
  let ?a = "sample_fill ''A'' 1 10 (1 / 2) YesOutcome"
  let ?b = "(sample_fill ''B'' 2 7 (1 / 4) NoOutcome)\<lparr>f_subaccount_number := None\<rparr>"
  have r: "\<forall>f \<in> set [?a]. fill_ready f" "\<forall>f \<in> set [?a, ?b]. fill_ready f"
    by (simp_all add: fill_ready_def timed_def sample_fill_def)
  obtain d ts e us where "replay_ledgers True [?a] = Inr (d, ts)" "replay_ledgers True [?a, ?b] = Inr (e, us)"
    using replay_ledgers_total [OF r(1)] replay_ledgers_total [OF r(2)] by blast
  with ledger_depends_on_its_key [OF r(1) _ r(2), of True d ts e us "Some 0" "''T''"] show ?thesis
    by (auto simp: sample_fill_def)
qed

lemma sample_fill_ok [simp]:
  "i \<noteq> [] \<Longrightarrow> 0 < q \<Longrightarrow> 0 < p \<Longrightarrow> p \<le> 1 \<Longrightarrow> fill_ok (sample_fill i t q p e)"
  by (cases e) (simp_all add: fill_ok_def price_ok_def direction_ok_def exposure_from_legacy_def sample_fill_def)

lemma sample_qty [simp]: "fill_qty (sample_fill i t q p e) = q"
  by (simp add: fill_qty_def)

lemma sample_key [simp]: "position_key (sample_fill i t q p e) = (Some 0, ''T'')"
  by (simp add: position_key_def)

text \<open>Ten YES contracts bought and four sold, supplied out of order and with a repetition.\<close>

definition sample_history :: "normalized_fill list" where
  "sample_history = [sample_fill ''B'' 2 4 (3 / 5) YesOutcome, sample_fill ''A'' 1 10 (1 / 2) YesOutcome,
     sample_fill ''B'' 2 4 (3 / 5) YesOutcome]"

lemma sample_history_simps [simp]:
  "dedupe_by f_fill_id sample_history = [sample_fill ''B'' 2 4 (3 / 5) YesOutcome, sample_fill ''A'' 1 10 (1 / 2) YesOutcome]"
  "\<forall>f \<in> set sample_history. fill_ok f \<and> grid 6 (fill_qty f)"
  by (simp_all add: sample_history_def dedupe_by_def)

lemma sample_replay: "\<exists>r. replay sample_history c ss fl view = Inr r"
proof -
  let ?o = "[sample_fill ''A'' 1 10 (1 / 2) YesOutcome, sample_fill ''B'' 2 4 (3 / 5) YesOutcome]"
  have s: "sort_fills (dedupe_by f_fill_id sample_history) = Inr ?o"
    by (simp add: sort_fills_eq replay_key_def less_eq_prod_def)
  have "\<exists>d ts. replay_ledgers (c = COMPLETE) ?o = Inr (d, ts)"
    by (rule replay_ledgers_total) simp
  then obtain d ts where l: "replay_ledgers (c = COMPLETE) ?o = Inr (d, ts)" by blast
  obtain ex st where a: "aggregate_orders ?o no_order_stats = Inr (ex, st)"
    by (simp add: aggregate_orders_def group_by_order_def group_by_def gadd_def has_order_id_def
        summarize_order_def sort_fills_eq replay_key_def parse_execution_time_eq spans_def Let_def
        less_eq_prod_def List.map_filter_def)
  show ?thesis unfolding replay_def Let_def s by (simp add: l a)
qed

theorem net_position_is_signed_sum_witness:
  "\<exists>r. replay sample_history COMPLETE [] None None = Inr r \<and> net_position r ''T'' (Some 0) = 14"
proof -
  obtain r where r: "replay sample_history COMPLETE [] None None = Inr r" using sample_replay by blast
  have "volume (dedupe_by f_fill_id sample_history) < 10 ^ 22" by (simp add: volume_def)
  from net_position_is_signed_sum [OF r sample_history_simps(2) this, of "''T''" "Some 0"] r
  show ?thesis by (simp add: signed_count_def)
qed

section \<open>Books\<close>

lemma replay_well_formed:
  assumes "replay fs c ss fl view = Inr r" "\<forall>f \<in> set fs. fill_ok f"
  shows "distinct (dkeys (r_ledgers r))" "dget (r_ledgers r) k = Some l \<Longrightarrow> well_formed k l"
proof -
  have "wf.all_ledgers r"
    using assms(1)
  proof (rule wf.all_replay)
    fix ordered d ts
    assume o: "sort_fills (dedupe_by f_fill_id fs) = Inr ordered" "replay_ledgers (c = COMPLETE) ordered = Inr (d, ts)"
    note ready = replay_ready(1) [OF assms(2) o(1)]
    show "distinct (dkeys d) \<and> (\<forall>k l. dget d k = Some l \<longrightarrow> well_formed k l)"
      using replay_loop(1,4) [OF ready o(2)] by (simp add: ledger_inv_def well_formed_def del: map_of_eq_Some_iff)
  qed
  then show "distinct (dkeys (r_ledgers r))" "dget (r_ledgers r) k = Some l \<Longrightarrow> well_formed k l"
    unfolding wf.all_ledgers_def by blast+
qed

lemma in_r_episodes:
  assumes "e \<in> set (r_episodes r)" "distinct (dkeys (r_ledgers r))"
  obtains k l where "dget (r_ledgers r) k = Some l" "e \<in> set (episodes l)"
  using assms by (fastforce simp: r_episodes_def)

lemma replay_books:
  assumes "replay fs c ss fl view = Inr r" "\<forall>f \<in> set fs. fill_ok f \<and> grid 6 (fill_qty f)"
    and "volume (dedupe_by f_fill_id fs) < 10 ^ 22" and "dget (r_ledgers r) k = Some l"
  shows "balanced_within (volume (dedupe_by f_fill_id fs)) k l"
proof -
  let ?v = "volume (dedupe_by f_fill_id fs)"
  have "books.all_ledgers ?v r"
    using assms(1)
  proof (rule books.all_replay)
    fix ordered d ts
    assume o: "sort_fills (dedupe_by f_fill_id fs) = Inr ordered" "replay_ledgers (c = COMPLETE) ordered = Inr (d, ts)"
    have ready: "\<forall>f \<in> set ordered. fill_ready f" and m: "mset ordered = mset (dedupe_by f_fill_id fs)"
      using replay_ready [OF _ o(1)] assms(2) by auto
    have grid: "on_grid ordered"
      using ready assms(2) mset_eq_setD [OF m] dedupe_by_subset [of f_fill_id fs] by (auto simp: on_grid_def)
    have v: "volume ordered = ?v" unfolding volume_def by (rule sum_list_mset_eq [OF m])
    have "balanced_within ?v k l" if l: "dget d k = Some l" for k l
    proof -
      let ?h = "filter (\<lambda>f. position_key f = k) ordered"
      have "on_grid ?h" "volume ?h \<le> ?v"
        using grid volume_filter [OF grid, of "\<lambda>f. position_key f = k"] v by (simp_all add: on_grid_def)
      then have "ledger_balanced (volume ?h) l" "well_formed k l"
        using replay_loop(4) [OF ready o(2) l] assms(3) by (simp_all add: ledger_inv_def well_formed_def)
      with \<open>volume ?h \<le> ?v\<close> assms(3) show ?thesis
        by (auto simp: balanced_within_def ledger_balanced_def intro: episode_balanced_mono)
    qed
    then show "distinct (dkeys d) \<and> (\<forall>k l. dget d k = Some l \<longrightarrow> balanced_within ?v k l)"
      using replay_loop(1) [OF ready o(2)] by blast
  qed
  with assms(4) show ?thesis unfolding books.all_ledgers_def by blast
qed

text \<open>C14: the books of every episode of a replay balance, settlements included: what it opened minus what it
  closed is exactly what remains, nothing remains of a closed one, and an open one holds its market's net
  position.\<close>
theorem episode_books_balance:
  assumes "replay fs c ss fl view = Inr r" "\<forall>f \<in> set fs. fill_ok f \<and> grid 6 (fill_qty f)"
    and "volume (dedupe_by f_fill_id fs) < 10 ^ 22" and "e \<in> set (r_episodes r)"
  shows "e_total_opened_quantity e - e_total_closed_quantity e = e_remaining_quantity e
    \<and> e_remaining_quantity e = (if is_open e then \<bar>net_position r (e_ticker e) (e_subaccount_number e)\<bar> else 0)"
proof -
  have ok: "\<forall>f \<in> set fs. fill_ok f" using assms(2) by blast
  obtain k l where l: "dget (r_ledgers r) k = Some l" "e \<in> set (episodes l)"
    using in_r_episodes [OF assms(4) replay_well_formed(1) [OF assms(1) ok]] by blast
  have b: "well_formed k l" "ledger_balanced (volume (dedupe_by f_fill_id fs)) l"
    using replay_books [OF assms(1-3) l(1)] by (simp_all add: balanced_within_def)
  have n: "net_position r (l_ticker l) (l_subaccount_number l) = l_position l"
    using b(1) l(1) by (simp add: net_position_def ledger_for_def well_formed_def del: map_of_eq_Some_iff)
  show ?thesis
  proof (cases "e \<in> set (l_closed_episodes l)")
    case True
    then show ?thesis using b by (auto simp: well_formed_def ledger_ok_def closed_ok_def ledger_balanced_def)
  next
    case False
    then have "l_current_episode l = Some e" using l(2) by (auto simp: episodes_def split: option.splits)
    then show ?thesis
      using b n by (auto simp: well_formed_def ledger_ok_def open_ok_def ledger_balanced_def episode_balanced_def)
  qed
qed

theorem episode_books_balance_witness:
  "\<exists>r. replay sample_history COMPLETE [sample_settlement 14] None None = Inr r
    \<and> (\<forall>e \<in> set (r_episodes r). e_total_opened_quantity e - e_total_closed_quantity e = e_remaining_quantity e)"
proof -
  obtain r where r: "replay sample_history COMPLETE [sample_settlement 14] None None = Inr r" using sample_replay by blast
  have "volume (dedupe_by f_fill_id sample_history) < 10 ^ 22" by (simp add: volume_def)
  from episode_books_balance [OF r sample_history_simps(2) this] r show ?thesis by blast
qed

section \<open>Settlement accounting\<close>

definition settlements_refused :: "accounting_result \<Rightarrow> nat" where
  "settlements_refused r = r_settlements_refused_unreconciled r + r_settlements_refused_ambiguous_subaccount r"

definition settlements_seen :: "accounting_result \<Rightarrow> nat" where
  "settlements_seen r = r_settlements_applied r + r_settlements_without_a_position r + settlements_refused r"

definition refusals_by_shape :: "accounting_result \<Rightarrow> nat" where
  "refusals_by_shape r = sum_list (map snd (r_settlements_refused_by_shape r))"

lemma sum_dput: "sum_list (map snd (dput k (Suc (case dget d k of None \<Rightarrow> 0 | Some n \<Rightarrow> n)) d)) = Suc (sum_list (map snd d))"
  by (induction d) auto

lemma sum_dbump: "sum_list (map snd (dbump k d)) = Suc (sum_list (map snd d))"
  unfolding dbump_def by (rule sum_dput)

lemma apply_one_settlement_counts:
  "settlements_seen (apply_one_settlement r s) = Suc (settlements_seen r)
    \<and> refusals_by_shape (apply_one_settlement r s) + settlements_refused r
      = refusals_by_shape r + settlements_refused (apply_one_settlement r s)"
proof (cases "keys_of_ticker r (s_ticker s)")
  case (Cons k ks)
  then show ?thesis
    by (cases "ks = []"; cases "apply_settlement (the (dget (r_ledgers r) k)) s")
       (auto simp: apply_one_settlement_def settlements_seen_def settlements_refused_def refusals_by_shape_def
          mark_outcome_unprovable_def map_ledgers_def count_refusal_def sum_dbump)
qed (simp add: apply_one_settlement_def settlements_seen_def settlements_refused_def refusals_by_shape_def)

lemma foldl_settlement_counts:
  "settlements_seen (foldl apply_one_settlement r ss) = settlements_seen r + length ss
    \<and> refusals_by_shape (foldl apply_one_settlement r ss) + settlements_refused r
      = refusals_by_shape r + settlements_refused (foldl apply_one_settlement r ss)"
proof (induction ss arbitrary: r)
  case (Cons s ss)
  show ?case
    using apply_one_settlement_counts [of r s] Cons.IH [of "apply_one_settlement r s"] by simp
qed simp

lemma phases_keep_counts:
  "settlements_seen (assign_authority v r) = settlements_seen r" "refusals_by_shape (assign_authority v r) = refusals_by_shape r"
  "settlements_refused (assign_authority v r) = settlements_refused r"
  "settlements_seen (mark_settlement_coverage fl r) = settlements_seen r"
  "refusals_by_shape (mark_settlement_coverage fl r) = refusals_by_shape r"
  "settlements_refused (mark_settlement_coverage fl r) = settlements_refused r"
  by (auto simp: settlements_seen_def refusals_by_shape_def settlements_refused_def assign_authority_def
      mark_settlement_coverage_def map_ledgers_def Let_def split: option.split)

text \<open>No settlement is dropped or counted twice: each one supplied is applied, refused, or names no
  replayed market, and the refusals by shape add up to the refusals.\<close>
theorem settlements_are_accounted_for:
  assumes "replay fs c ss fl view = Inr r"
  shows "r_settlements_applied r + r_settlements_without_a_position r + r_settlements_refused_unreconciled r
      + r_settlements_refused_ambiguous_subaccount r = length ss
    \<and> sum_list (map snd (r_settlements_refused_by_shape r))
      = r_settlements_refused_unreconciled r + r_settlements_refused_ambiguous_subaccount r"
proof -
  from assms obtain r0 where r0: "r_settlements_applied r0 = 0" "r_settlements_without_a_position r0 = 0"
    "r_settlements_refused_unreconciled r0 = 0" "r_settlements_refused_ambiguous_subaccount r0 = 0"
    "r_settlements_refused_by_shape r0 = []"
    "r = assign_authority view (mark_settlement_coverage fl (apply_settlements ss r0))
          \<lparr>r_duplicate_fills_ignored := length fs - length (dedupe_by f_fill_id fs)\<rparr>"
    by (rule replay_Inr)
  let ?q = "assign_authority view (mark_settlement_coverage fl (apply_settlements ss r0))"
  have "settlements_seen r0 = 0" "refusals_by_shape r0 = 0" "settlements_refused r0 = 0"
    using r0(1-5) by (simp_all add: settlements_seen_def settlements_refused_def refusals_by_shape_def)
  then have "settlements_seen ?q = length ss" "refusals_by_shape ?q = settlements_refused ?q"
    using foldl_settlement_counts [of r0 "sort_key s_settled_time ss"]
    by (simp_all add: phases_keep_counts apply_settlements_def)
  then show ?thesis
    by (simp add: r0(6) settlements_seen_def settlements_refused_def refusals_by_shape_def)
qed

theorem settlements_are_accounted_for_witness:
  "\<exists>r. replay sample_history COMPLETE [sample_settlement 14, sample_settlement 3] None None = Inr r
    \<and> r_settlements_applied r + r_settlements_without_a_position r + r_settlements_refused_unreconciled r
      + r_settlements_refused_ambiguous_subaccount r = 2"
proof -
  obtain r where r: "replay sample_history COMPLETE [sample_settlement 14, sample_settlement 3] None None = Inr r"
    using sample_replay by blast
  from settlements_are_accounted_for [OF r] r show ?thesis by simp
qed

section \<open>Authority\<close>

lemma assign_authority_dget:
  "dget (r_ledgers (assign_authority view r)) k =
     map_option (\<lambda>l. map_episodes (\<lambda>e. e\<lparr>e_authority :=
       episode_authority (r\<lparr>r_exchange_view_supplied := (view \<noteq> None)\<rparr>) view l e\<rparr>) l) (dget (r_ledgers r) k)"
  by (simp add: assign_authority_def Let_def map_ledgers_def dget_map_values)

lemma assign_authority_keys: "dkeys (r_ledgers (assign_authority view r)) = dkeys (r_ledgers r)"
  by (simp add: assign_authority_def Let_def map_ledgers_def dkeys_map_values del: map_map)

lemma completeness_phases:
  "r_completeness (assign_authority view r) = r_completeness r"
  "r_completeness (mark_settlement_coverage fl r) = r_completeness r"
  "r_completeness (apply_settlements ss r) = r_completeness r"
proof -
  have one: "r_completeness (apply_one_settlement r s) = r_completeness r" for r s
    by (auto simp: apply_one_settlement_def Let_def mark_outcome_unprovable_def map_ledgers_def count_refusal_def
        split: list.split sum.split)
  have "r_completeness (foldl apply_one_settlement r xs) = r_completeness r" for xs r
    by (induction xs arbitrary: r) (simp_all add: one)
  then show "r_completeness (apply_settlements ss r) = r_completeness r"
    by (simp add: apply_settlements_def)
qed (simp_all add: assign_authority_def mark_settlement_coverage_def map_ledgers_def Let_def split: option.split)

lemma reconciled_open_episode:
  assumes "open_episode_authority r l view \<in> set EARNED_AUTHORITY"
  shows "\<exists>ps. view = Some ps \<and> dget ps (l_ticker l) = Some (Some (l_position l)) \<and> held_in r (l_ticker l) \<le> 1
    \<and> l_ticker l \<notin> set (r_tickers_with_settlement_evidence r)"
  using assms
  by (auto simp: open_episode_authority_def EARNED_AUTHORITY_def simp del: map_of_eq_Some_iff split: if_splits option.splits)

lemma held_in_unique:
  assumes "held_in r t \<le> 1" "(a, t) \<in> set (dkeys (r_ledgers r))" "(b, t) \<in> set (dkeys (r_ledgers r))"
  shows "a = b"
proof -
  have "(a, t) \<in> set (keys_of_ticker r t)" "(b, t) \<in> set (keys_of_ticker r t)"
    using assms(2,3) by (auto simp: keys_of_ticker_def)
  moreover obtain ks where "keys_of_ticker r t = ks" "length ks \<le> 1"
    using assms(1) by (simp add: held_in_def)
  ultimately show ?thesis by (cases ks) auto
qed

text \<open>C16: the effective authority claim is never made on replay evidence alone: when it holds, the history was
  complete and every open position was stated by the exchange with the very quantity replayed, on a market no
  other subaccount holds.\<close>
theorem claim_means_exchange_confirmed:
  assumes "replay fs c ss fl view = Inr r" "\<forall>f \<in> set fs. fill_ok f" "claims_complete_position_state r"
    and "e \<in> set (r_episodes r)" "is_open e"
  shows "c = COMPLETE \<and> (\<exists>ps. view = Some ps
      \<and> dget ps (e_ticker e) = Some (Some (net_position r (e_ticker e) (e_subaccount_number e))))
    \<and> (\<forall>a. (a, e_ticker e) \<in> set (dkeys (r_ledgers r)) \<longrightarrow> a = e_subaccount_number e)"
proof -
  from assms(1) obtain r0 where r0: "r_completeness r0 = c" "r = assign_authority view (mark_settlement_coverage fl
      (apply_settlements ss r0))\<lparr>r_duplicate_fills_ignored := length fs - length (dedupe_by f_fill_id fs)\<rparr>"
    by (rule replay_Inr)
  let ?q = "mark_settlement_coverage fl (apply_settlements ss r0)"
  have led: "r_ledgers r = r_ledgers (assign_authority view ?q)" by (simp add: r0(2))
  have c: "c = COMPLETE" and earned: "e_authority e \<in> set EARNED_AUTHORITY"
    using assms(3,4) r0
    by (auto simp: claims_complete_position_state_def fill_history_complete_def completeness_phases list_all_iff
        simp del: if_False split: if_splits)
  obtain k l where l: "dget (r_ledgers r) k = Some l" "e \<in> set (episodes l)"
    using in_r_episodes [OF assms(4) replay_well_formed(1) [OF assms(1,2)]] by blast
  obtain l0 where l0: "dget (r_ledgers ?q) k = Some l0" "l = map_episodes (\<lambda>e. e\<lparr>e_authority :=
       episode_authority (?q\<lparr>r_exchange_view_supplied := (view \<noteq> None)\<rparr>) view l0 e\<rparr>) l0"
    using l(1) unfolding led assign_authority_dget by auto
  obtain e0 where e0: "e0 \<in> set (episodes l0)" "e = e0\<lparr>e_authority :=
       episode_authority (?q\<lparr>r_exchange_view_supplied := (view \<noteq> None)\<rparr>) view l0 e0\<rparr>"
    using l(2) unfolding l0(2) episodes_map by auto
  have "open_episode_authority (?q\<lparr>r_exchange_view_supplied := (view \<noteq> None)\<rparr>) l0 view \<in> set EARNED_AUTHORITY"
    using earned assms(5) e0(2) by (simp add: episode_authority_def is_open_def)
  from reconciled_open_episode [OF this] obtain ps where ps: "view = Some ps"
    "dget ps (l_ticker l0) = Some (Some (l_position l0))" "held_in ?q (l_ticker l0) \<le> 1"
    by (auto simp: held_in_def keys_of_ticker_def)
  have w: "well_formed k l" using replay_well_formed(2) [OF assms(1,2) l(1)] .
  then have et: "e_ticker e = l_ticker l" "e_subaccount_number e = l_subaccount_number l"
    using l(2) by (auto simp: well_formed_def ledger_ok_def open_ok_def closed_ok_def episodes_def split: option.splits)
  have lk: "k = (l_subaccount_number l, l_ticker l)" using w by (cases k) (simp add: well_formed_def)
  have n: "net_position r (e_ticker e) (e_subaccount_number e) = l_position l"
    using l(1) by (simp add: net_position_def ledger_for_def et lk del: map_of_eq_Some_iff)
  have same: "l_ticker l0 = l_ticker l" "l_position l0 = l_position l" by (simp_all add: l0(2))
  have keys: "dkeys (r_ledgers r) = dkeys (r_ledgers ?q)" unfolding led by (rule assign_authority_keys)
  have "(l_subaccount_number l, l_ticker l) \<in> set (dkeys (r_ledgers ?q))"
    using l0(1) lk by (metis keys l(1) map_of_eq_None_iff not_None_eq set_map)
  then have "\<forall>a. (a, e_ticker e) \<in> set (dkeys (r_ledgers r)) \<longrightarrow> a = e_subaccount_number e"
    using held_in_unique [OF ps(3)] unfolding keys et same by blast
  with c ps n same et show ?thesis by (simp del: map_of_eq_Some_iff)
qed

text \<open>The exchange states exactly the fourteen contracts the sample history holds.\<close>

lemma sample_ledgers:
  "\<exists>L ts. replay_ledgers pv [sample_fill ''A'' 1 10 (1 / 2) YesOutcome, sample_fill ''B'' 2 4 (3 / 5) YesOutcome]
      = Inr ([((Some 0, ''T''), L)], ts) \<and> l_position L = 14 \<and> l_ticker L = ''T'' \<and> l_closed_episodes L = []
    \<and> (\<exists>e. l_current_episode L = Some e \<and> is_open e \<and> e_ticker e = ''T'')"
  by (simp add: replay_ledgers_def ledger_at_def fill_eval is_open_def del: not_None_eq)

lemma sample_sorted:
  "sort_fills (dedupe_by f_fill_id sample_history)
    = Inr [sample_fill ''A'' 1 10 (1 / 2) YesOutcome, sample_fill ''B'' 2 4 (3 / 5) YesOutcome]"
  by (simp add: sort_fills_eq replay_key_def less_eq_prod_def)

theorem claim_means_exchange_confirmed_witness:
  "\<exists>r. replay sample_history COMPLETE [] None (Some [(''T'', Some 14)]) = Inr r
    \<and> claims_complete_position_state r
    \<and> (\<exists>e \<in> set (r_episodes r). is_open e \<and> net_position r (e_ticker e) (e_subaccount_number e) = 14)"
proof -
  let ?v = "Some [(''T'', Some 14)] :: exchange_view"
  obtain r where r: "replay sample_history COMPLETE [] None ?v = Inr r" using sample_replay by blast
  have ok: "\<forall>f \<in> set sample_history. fill_ok f" using sample_history_simps(2) by blast
  obtain L ts e where L: "replay_ledgers True [sample_fill ''A'' 1 10 (1 / 2) YesOutcome, sample_fill ''B'' 2 4 (3 / 5) YesOutcome]
      = Inr ([((Some 0, ''T''), L)], ts)" "l_position L = 14" "l_ticker L = ''T''" "l_closed_episodes L = []"
    "l_current_episode L = Some e" "is_open e" "e_ticker e = ''T''"
    using sample_ledgers by blast
  have eps: "r_episodes r = [e\<lparr>e_authority := RECONCILED_CURRENT\<rparr>]" and c: "r_completeness r = COMPLETE"
    using r
    by (auto simp: replay_def sample_sorted L rbind_eq_Inr apply_settlements_def mark_settlement_coverage_def
        assign_authority_def map_ledgers_def r_episodes_def map_episodes_def episodes_def episode_authority_def
        open_episode_authority_def held_in_def keys_of_ticker_def simp del: sample_history_simps)
  have claim: "claims_complete_position_state r"
    by (simp add: claims_complete_position_state_def fill_history_complete_def c eps EARNED_AUTHORITY_def)
  have e: "e\<lparr>e_authority := RECONCILED_CURRENT\<rparr> \<in> set (r_episodes r)" "is_open (e\<lparr>e_authority := RECONCILED_CURRENT\<rparr>)"
    using L(6) by (simp_all add: eps is_open_def)
  from claim_means_exchange_confirmed [OF r ok claim e] r claim e L(7) show ?thesis by auto
qed

section \<open>Bounded history\<close>

lemma record_provable: "record_fill e f a b r p l c = Inr e' \<Longrightarrow> e_provable e' = e_provable e"
  by (auto simp: record_fill_def rbind_eq_Inr)

lemma record_current_provable:
  "record_current cur f a b r p l c = Inr cur' \<Longrightarrow> cur' = Some e' \<Longrightarrow> \<exists>e. cur = Some e \<and> e_provable e' = e_provable e"
  by (auto simp: record_current_def rbind_eq_Inr dest: record_provable split: option.splits)

lemma new_episode_provable: "new_episode l f a pv = Inr e \<Longrightarrow> e_provable e = pv"
  by (auto simp: new_episode_def rbind_eq_Inr)

lemma close_provable:
  "close_episode l e f = Inr l' \<Longrightarrow> \<exists>c. e_provable c = e_provable e
    \<and> l_closed_episodes l' = l_closed_episodes l @ [c] \<and> l_current_episode l' = None"
  by (auto simp: close_episode_def rbind_eq_Inr)

lemma mark_provable [simp]: "e_provable (mark_fee_ambiguous e) = e_provable e"
  by (simp add: mark_fee_ambiguous_def)

definition all_provable_as :: "bool \<Rightarrow> market_ledger \<Rightarrow> bool" where
  "all_provable_as pv l \<longleftrightarrow> (\<forall>e \<in> set (l_closed_episodes l). e_provable e = pv)
     \<and> (\<forall>e. l_current_episode l = Some e \<longrightarrow> e_provable e = pv)"

lemma all_provable_episodes: "all_provable_as pv l \<longleftrightarrow> (\<forall>e \<in> set (episodes l). e_provable e = pv)"
  by (auto simp: all_provable_as_def episodes_def split: option.splits)

lemma open_provable:
  "apply_open l f q price a pv = Inr l' \<Longrightarrow> all_provable_as pv l \<Longrightarrow> all_provable_as pv l'"
  by (auto simp: apply_open_def Let_def rbind_eq_Inr all_provable_as_def dest!: record_provable new_episode_provable)

lemma increase_provable:
  assumes "apply_increase l f d price b a = Inr l'" "all_provable_as pv l"
  shows "all_provable_as pv l'"
proof -
  obtain lx cur where "record_current (l_current_episode l) f (dabs d) 0 None a lx True = Inr cur"
    "l_current_episode l' = cur" "l_closed_episodes l' = l_closed_episodes l"
    using assms(1) by (auto simp: apply_increase_def Let_def rbind_eq_Inr split: option.splits)
  with assms(2) record_current_provable show ?thesis unfolding all_provable_as_def by metis
qed

lemma reduction_provable:
  assumes "apply_reduction l f q price b a cl = Inr (x, l')" "all_provable_as pv l"
  shows "all_provable_as pv l'"
proof -
  obtain r1 l1 where r: "realized_on_reduction l price q (dsign b) = (r1, l1)" by force
  note l1 = realized_ledger_eq [OF r]
  obtain cur where cur: "record_current (l_current_episode l) f 0 q r1 a (l1\<lparr>l_position := a\<rparr>) True = Inr cur"
    using assms(1) by (auto simp: apply_reduction_def r l1 Let_def rbind_eq_Inr)
  note p = record_current_provable [OF cur]
  show ?thesis
  proof (cases "cl \<and> cur \<noteq> None")
    case True
    then obtain e where e: "cur = Some e" "cl" by blast
    with assms(1) cur obtain ly l2 where "close_episode ly e f = Inr l2" "l_closed_episodes ly = l_closed_episodes l"
      "l_closed_episodes l' = l_closed_episodes l2" "l_current_episode l' = l_current_episode l2"
      by (fastforce simp: apply_reduction_def r l1 Let_def rbind_eq_Inr)
    with assms(2) p e show ?thesis by (auto simp: all_provable_as_def dest!: close_provable)
  next
    case False
    with assms cur p show ?thesis
      by (cases cur) (auto simp: apply_reduction_def r l1 Let_def rbind_eq_Inr all_provable_as_def)
  qed
qed

lemma reverse_provable:
  assumes "apply_reverse l f qo qc price b a pv = Inr (x, l')" "all_provable_as pv l"
  shows "all_provable_as pv l'"
proof -
  obtain r1 l1 where r: "realized_on_reduction l price qc (dsign b) = (r1, l1)" by force
  note l1 = realized_ledger_eq [OF r]
  obtain out lx ly l2 l3 e0 e1 where out: "record_current (l_current_episode l) f 0 qc r1 0 lx False = Inr out"
    and l2: "(case out of None \<Rightarrow> Inr ly | Some x \<Rightarrow> close_episode ly (mark_fee_ambiguous x) f) = Inr l2"
    and e0: "new_episode l3 f a pv = Inr e0" and e1: "record_fill e0 f qo 0 None a l3 False = Inr e1"
    and l': "l_current_episode l' = Some (mark_fee_ambiguous e1)"
      "l_closed_episodes l' = l_closed_episodes l2" and ly: "l_closed_episodes ly = l_closed_episodes l"
    using assms(1) by (auto simp: apply_reverse_def r l1 Let_def rbind_eq_Inr)
  have "\<forall>e \<in> set (l_closed_episodes l2). e_provable e = pv"
  proof (cases out)
    case None
    then show ?thesis using l2 ly assms(2) by (auto simp: all_provable_as_def)
  next
    case (Some o1)
    with record_current_provable [OF out Some] assms(2) have "e_provable o1 = pv" by (auto simp: all_provable_as_def)
    then show ?thesis using l2 ly assms(2) Some by (auto simp: all_provable_as_def dest!: close_provable)
  qed
  then show ?thesis
    using l' record_provable [OF e1] new_episode_provable [OF e0] by (simp add: all_provable_as_def)
qed

lemma apply_fill_provable:
  assumes "fill_ready f" "apply_fill l f pv = Inr (t, l')" "all_provable_as pv l"
  shows "all_provable_as pv l'"
proof -
  note arm = apply_fill_arm [OF assms(1,2) refl refl]
  show ?thesis
    using arm(1-5) assms(3) open_provable increase_provable reduction_provable reverse_provable
    by (cases "classify_transition (l_position l) (dadd (l_position l) (delta_of f))") (metis arm(6) classify_not_settle)+
qed

text \<open>The opening boundary as an invariant of the fill loop, then of the whole replay.\<close>

interpretation openings: keyed_replay position_key "\<lambda>(a, t). new_ledger t a" "\<lambda>l f. apply_fill l f pv"
  fill_ready "\<lambda>k hs l. well_formed k l \<and> all_provable_as pv l" for pv
proof
  show "well_formed k (case k of (a, t) \<Rightarrow> new_ledger t a) \<and> all_provable_as pv (case k of (a, t) \<Rightarrow> new_ledger t a)" for k
    by (cases k) (simp add: well_formed_def all_provable_as_def)
  show "\<exists>t l'. apply_fill l f pv = Inr (t, l') \<and> well_formed (position_key f) l' \<and> all_provable_as pv l'"
    if "well_formed (position_key f) l \<and> all_provable_as pv l" "fill_ready f" for f hs l
  proof -
    have l: "ledger_ok l" using that(1) by (simp add: well_formed_def)
    from apply_fill_ok [OF l that(2), of pv] obtain t l' where "apply_fill l f pv = Inr (t, l')" "ledger_ok l'"
      "l_ticker l' = l_ticker l" "l_subaccount_number l' = l_subaccount_number l" by blast
    with apply_fill_provable [OF that(2)] that(1) show ?thesis by (auto simp: well_formed_def)
  qed
qed

lemma replay_provable:
  assumes "replay fs c ss fl view = Inr r" "\<forall>f \<in> set fs. fill_ok f" "e \<in> set (r_episodes r)"
  shows "e_provable e = (c = COMPLETE)"
proof -
  have "boundary.all_ledgers (c = COMPLETE) r"
    using assms(1)
  proof (rule boundary.all_replay)
    fix ordered d ts
    assume o: "sort_fills (dedupe_by f_fill_id fs) = Inr ordered" "replay_ledgers (c = COMPLETE) ordered = Inr (d, ts)"
    note ready = replay_ready(1) [OF assms(2) o(1)]
    note run = openings.loop_result [OF ready o(2) [unfolded replay_ledgers_def]]
    have "provable_as (c = COMPLETE) k l" if "dget d k = Some l" for k l
      using run(4) [of k] that
      by (simp add: ledger_at_def provable_as_def all_provable_episodes del: map_of_eq_Some_iff)
    then show "distinct (dkeys d) \<and> (\<forall>k l. dget d k = Some l \<longrightarrow> provable_as (c = COMPLETE) k l)"
      using run(2) by blast
  qed
  moreover obtain k l where "dget (r_ledgers r) k = Some l" "e \<in> set (episodes l)"
    using in_r_episodes [OF assms(3) replay_well_formed(1) [OF assms(1,2)]] by blast
  ultimately show ?thesis unfolding boundary.all_ledgers_def provable_as_def by blast
qed

text \<open>C17: an identity a downstream importer can use exists exactly where both boundaries are proven: a bounded
  window yields none and supports no position claim, and in a complete history an episode has one exactly when its
  authority was earned; everything else is refused as not importable.\<close>
theorem importable_identity_is_earned:
  assumes "replay fs c ss fl view = Inr r" "\<forall>f \<in> set fs. fill_ok f" "e \<in> set (r_episodes r)"
  shows "(c = BOUNDED_WINDOW \<longrightarrow> \<not> claims_complete_position_state r)
    \<and> require_importable_identity (episode_identity e) =
       (if c = COMPLETE \<and> e_authority e \<in> {CLOSED_BY_FILLS, EXPLAINED_SETTLED, RECONCILED_CURRENT}
        then Inr (episode_source_key (e_subaccount_number e) (e_ticker e) (e_opening_fill_id e))
        else Inl IdentityNotImportable)"
proof -
  from assms(1) obtain r0 where "r_completeness r0 = c" "r = assign_authority view (mark_settlement_coverage fl
      (apply_settlements ss r0))\<lparr>r_duplicate_fills_ignored := length fs - length (dedupe_by f_fill_id fs)\<rparr>"
    by (rule replay_Inr)
  then have "r_completeness r = c" by (simp add: completeness_phases)
  then have "c = BOUNDED_WINDOW \<longrightarrow> \<not> claims_complete_position_state r"
    by (simp add: claims_complete_position_state_def fill_history_complete_def)
  moreover have "require_importable_identity (episode_identity e) =
       (if c = COMPLETE \<and> e_authority e \<in> {CLOSED_BY_FILLS, EXPLAINED_SETTLED, RECONCILED_CURRENT}
        then Inr (episode_source_key (e_subaccount_number e) (e_ticker e) (e_opening_fill_id e))
        else Inl IdentityNotImportable)"
    using replay_provable [OF assms] by (auto simp: episode_identity_def authority_is_earned_def EARNED_AUTHORITY_def)
  ultimately show ?thesis by blast
qed

theorem importable_identity_is_earned_witness:
  "\<exists>r. replay sample_history BOUNDED_WINDOW [] None None = Inr r
    \<and> (\<forall>e \<in> set (r_episodes r). require_importable_identity (episode_identity e) = Inl IdentityNotImportable)"
proof -
  obtain r where r: "replay sample_history BOUNDED_WINDOW [] None None = Inr r" using sample_replay by blast
  have ok: "\<forall>f \<in> set sample_history. fill_ok f" using sample_history_simps(2) by blast
  from importable_identity_is_earned [OF r ok] r show ?thesis by simp
qed

end
