(* ===== verification/AccountDiag.thy ===== *)
theory AccountDiag
  imports Engine
begin

text \<open>
  \<^verbatim>\<open>accounting/diagnostics.py\<close>: the counts and flags a replay is reduced to before anything is printed. A counting
  loop over transitions or episodes is the length of the filtered list.

  The lemmas: every count of a replay is a part of one whole, and the claim of a complete position state is exactly
  what the counts of its authorities say.
\<close>

record accounting_diagnostics =
  ad_fills_replayed :: nat
  ad_duplicate_fills_ignored :: nat
  ad_orders_observed :: nat
  ad_orders_with_partial_fills :: nat
  ad_fills_without_order_id :: nat
  ad_orders_without_a_price :: nat
  ad_markets_with_activity :: nat
  ad_subaccounts_observed :: nat
  ad_fills_without_a_subaccount_number :: nat
  ad_position_transitions :: nat
  ad_positions_opened :: nat
  ad_positions_increased :: nat
  ad_positions_reduced :: nat
  ad_positions_closed :: nat
  ad_positions_reversed :: nat
  ad_positions_settled :: nat
  ad_settlements_applied :: nat
  ad_settlements_without_a_position :: nat
  ad_settlements_refused_unreconciled :: nat
  ad_settlements_refused_ambiguous_subaccount :: nat
  ad_settlements_refused_replay_flat :: nat
  ad_settlements_refused_settlement_larger :: nat
  ad_settlements_refused_settlement_smaller :: nat
  ad_settlements_refused_opposite_direction :: nat
  ad_episodes_observed :: nat
  ad_episodes_open_at_end :: nat
  ad_episodes_closed :: nat
  ad_episodes_with_complete_cost_basis :: nat
  ad_episodes_with_complete_fees :: nat
  ad_episodes_with_ambiguous_fee_allocation :: nat
  ad_episodes_provable :: nat
  ad_episodes_closed_by_fills :: nat
  ad_episodes_explained_settled :: nat
  ad_episodes_reconciled_current :: nat
  ad_episodes_unexplained :: nat
  ad_episodes_conflicted :: nat
  ad_episodes_not_reconciled :: nat
  ad_episodes_open_within_settlement_evidence :: nat
  ad_episodes_with_an_unprovable_outcome :: nat
  ad_episodes_bounded_by_settlement_coverage :: nat
  ad_episodes_with_importable_identity :: nat
  ad_events_with_fee_field :: nat
  ad_events_missing_fee_field :: nat
  ad_orders_with_complete_fees :: nat
  ad_orders_missing_fees :: nat
  ad_accounting_schema_failures :: nat
  ad_settlement_floor_applied :: bool
  ad_account_fee_total_complete :: bool
  ad_fill_history_complete :: bool
  ad_claims_complete_position_state :: bool
  ad_exchange_view_supplied :: bool
  ad_position_state_contradicted_by_exchange :: bool
  ad_position_state_bounded_by_settlement_coverage :: bool

definition how_many :: "('a \<Rightarrow> bool) \<Rightarrow> 'a list \<Rightarrow> nat" where
  "how_many P xs = length (filter P xs)"

definition shape_count :: "accounting_result \<Rightarrow> settlement_refusal \<Rightarrow> nat" where
  "shape_count r shape = (case dget (r_settlements_refused_by_shape r) shape of None \<Rightarrow> 0 | Some n \<Rightarrow> n)"

definition has_authority :: "position_authority \<Rightarrow> position_episode \<Rightarrow> bool" where
  "has_authority a e \<longleftrightarrow> e_authority e = a"

definition lost_outcome :: "position_episode \<Rightarrow> bool" where
  "lost_outcome e \<longleftrightarrow> is_open e \<and> \<not> e_outcome_provable e"

definition build_diagnostics :: "accounting_result \<Rightarrow> accounting_diagnostics" where
  "build_diagnostics r =
     (let st = r_order_stats r; ts = r_transitions r; es = r_episodes r;
          kinds = (\<lambda>k. how_many (\<lambda>t. t_kind t = k) ts); authority = (\<lambda>a. how_many (has_authority a) es) in
      \<lparr>ad_fills_replayed = r_fills_replayed r,
       ad_duplicate_fills_ignored = r_duplicate_fills_ignored r,
       ad_orders_observed = os_orders st,
       ad_orders_with_partial_fills = os_partial_orders st,
       ad_fills_without_order_id = os_fills_without_order_id st,
       ad_orders_without_a_price = os_orders_without_price st,
       ad_markets_with_activity = length (r_ledgers r),
       ad_subaccounts_observed = length (r_subaccounts_observed r),
       ad_fills_without_a_subaccount_number = how_many (\<lambda>(_, l). l_subaccount_number l = None) (r_ledgers r),
       ad_position_transitions = length ts,
       ad_positions_opened = kinds OPEN,
       ad_positions_increased = kinds INCREASE,
       ad_positions_reduced = kinds REDUCE,
       ad_positions_closed = kinds CLOSE,
       ad_positions_reversed = kinds REVERSE,
       ad_positions_settled = kinds SETTLE,
       ad_settlements_applied = r_settlements_applied r,
       ad_settlements_without_a_position = r_settlements_without_a_position r,
       ad_settlements_refused_unreconciled = r_settlements_refused_unreconciled r,
       ad_settlements_refused_ambiguous_subaccount = r_settlements_refused_ambiguous_subaccount r,
       ad_settlements_refused_replay_flat = shape_count r REPLAY_FLAT,
       ad_settlements_refused_settlement_larger = shape_count r SETTLEMENT_LARGER,
       ad_settlements_refused_settlement_smaller = shape_count r SETTLEMENT_SMALLER,
       ad_settlements_refused_opposite_direction = shape_count r OPPOSITE_DIRECTION,
       ad_episodes_observed = length es,
       ad_episodes_open_at_end = how_many is_open es,
       ad_episodes_closed = how_many (\<lambda>e. \<not> is_open e) es,
       ad_episodes_with_complete_cost_basis = how_many e_cost_basis_complete es,
       ad_episodes_with_complete_fees = how_many e_fee_complete es,
       ad_episodes_with_ambiguous_fee_allocation = how_many e_fee_allocation_ambiguous es,
       ad_episodes_provable = how_many e_provable es,
       ad_episodes_closed_by_fills = authority CLOSED_BY_FILLS,
       ad_episodes_explained_settled = authority EXPLAINED_SETTLED,
       ad_episodes_reconciled_current = authority RECONCILED_CURRENT,
       ad_episodes_unexplained = authority UNEXPLAINED,
       ad_episodes_conflicted = authority CONFLICTED,
       ad_episodes_not_reconciled = authority NOT_RECONCILED,
       ad_episodes_open_within_settlement_evidence = if r_settlement_floor r = None then 0 else how_many (\<lambda>e. is_open e \<and> e_outcome_provable e) es,
       ad_episodes_with_an_unprovable_outcome = how_many lost_outcome es,
       ad_episodes_bounded_by_settlement_coverage = how_many (\<lambda>e. is_open e \<and> e_outcome_bounded_by_settlement_coverage e) es,
       ad_episodes_with_importable_identity = how_many e_is_importable es,
       ad_events_with_fee_field = how_many (\<lambda>t. t_fee_dollars t \<noteq> None) ts,
       ad_events_missing_fee_field = how_many (\<lambda>t. t_fee_dollars t = None) ts,
       ad_orders_with_complete_fees = os_orders_with_complete_fees st,
       ad_orders_missing_fees = os_orders_missing_fees st,
       ad_accounting_schema_failures = 0,
       ad_settlement_floor_applied = r_settlement_floor r \<noteq> None,
       ad_account_fee_total_complete = r_total_fees r \<noteq> None,
       ad_fill_history_complete = fill_history_complete r,
       ad_claims_complete_position_state = claims_complete_position_state r,
       ad_exchange_view_supplied = r_exchange_view_supplied r,
       ad_position_state_contradicted_by_exchange = list_ex (\<lambda>e. e_authority e = UNEXPLAINED \<or> e_authority e = CONFLICTED) es,
       ad_position_state_bounded_by_settlement_coverage = list_ex lost_outcome es\<rparr>)"

section \<open>What a replay counts\<close>

lemma how_many_simps [simp]:
  "how_many P [] = 0" "how_many P (x # xs) = (if P x then 1 else 0) + how_many P xs"
  "how_many P (xs @ ys) = how_many P xs + how_many P ys"
  by (simp_all add: how_many_def)

lemma how_many_0: "how_many P xs = 0 \<longleftrightarrow> (\<forall>x \<in> set xs. \<not> P x)"
  by (induction xs) auto

lemma how_many_split: "how_many P xs + how_many (\<lambda>x. \<not> P x) xs = length xs"
  by (induction xs) auto

lemma six_authorities:
  "how_many (has_authority CLOSED_BY_FILLS) es + how_many (has_authority EXPLAINED_SETTLED) es
    + how_many (has_authority RECONCILED_CURRENT) es + how_many (has_authority UNEXPLAINED) es
    + how_many (has_authority CONFLICTED) es + how_many (has_authority NOT_RECONCILED) es = length es"
proof (induction es)
  case (Cons e es)
  then show ?case by (cases "e_authority e") (simp_all add: has_authority_def)
qed simp

lemma six_kinds:
  "how_many (\<lambda>t. t_kind t = OPEN) ts + how_many (\<lambda>t. t_kind t = INCREASE) ts + how_many (\<lambda>t. t_kind t = REDUCE) ts
    + how_many (\<lambda>t. t_kind t = CLOSE) ts + how_many (\<lambda>t. t_kind t = REVERSE) ts + how_many (\<lambda>t. t_kind t = SETTLE) ts
    = length ts"
proof (induction ts)
  case (Cons t ts)
  then show ?case by (cases "t_kind t") simp_all
qed simp

lemma fill_kind: "apply_fill l f pv = Inr (t, l') \<Longrightarrow> t_kind t \<noteq> SETTLE"
  by (auto simp: apply_fill_def rbind_eq_Inr classify_transition_def Let_def split: if_splits)

lemma settlement_kind:
  "apply_settlement l s = Inr (t, l') \<Longrightarrow> t_kind t = SETTLE"
  "apply_settlement l s = Inl refusal \<Longrightarrow> refusal \<noteq> AMBIGUOUS_SUBACCOUNT"
  by (auto simp: apply_settlement_def refusal_shape_def rbind_eq_Inr rbind_eq_Inl Let_def split: if_splits option.splits)

lemma keyed_loop_transitions:
  "keyed_loop position_key fresh (\<lambda>l f. apply_fill l f pv) d ts fs = Inr (d', ts') \<Longrightarrow>
     length ts' = length ts + length fs
     \<and> how_many (\<lambda>t. t_kind t = SETTLE) ts' = how_many (\<lambda>t. t_kind t = SETTLE) ts"
proof (induction fs arbitrary: d ts)
  case (Cons f fs)
  then obtain t l where "apply_fill (ledger_at fresh d (position_key f)) f pv = Inr (t, l)"
    "keyed_loop position_key fresh (\<lambda>l f. apply_fill l f pv) (dput (position_key f) l d) (ts @ [t]) fs = Inr (d', ts')"
    by (auto simp: rbind_eq_Inr)
  with Cons.IH [of _ "ts @ [t]"] fill_kind show ?case by fastforce
qed simp

text \<open>What every settlement keeps: its own transitions and its refusals by shape are the ones counted.\<close>

definition settled_so_far :: "accounting_result \<Rightarrow> nat \<Rightarrow> bool" where
  "settled_so_far r n \<longleftrightarrow>
     length (r_transitions r) = n + r_settlements_applied r
     \<and> how_many (\<lambda>t. t_kind t = SETTLE) (r_transitions r) = r_settlements_applied r
     \<and> shape_count r REPLAY_FLAT + shape_count r SETTLEMENT_LARGER + shape_count r SETTLEMENT_SMALLER
         + shape_count r OPPOSITE_DIRECTION = r_settlements_refused_unreconciled r
     \<and> r_fills_replayed r = n"

lemma shape_count_refusal:
  "shape_count (count_refusal refusal r) shape = shape_count r shape + (if shape = refusal then 1 else 0)"
  by (simp add: shape_count_def count_refusal_def dbump_def split: option.split)

lemma settled_step: "settled_so_far r n \<Longrightarrow> settled_so_far (apply_one_settlement r s) n"
proof (cases "keys_of_ticker r (s_ticker s)")
  case Nil
  then show "settled_so_far r n \<Longrightarrow> ?thesis" by (simp add: apply_one_settlement_def settled_so_far_def shape_count_def)
next
  case (Cons k ks)
  assume ok: "settled_so_far r n"
  have mark: "settled_so_far (mark_outcome_unprovable t r) m = settled_so_far r m" for t r m
    by (simp add: mark_outcome_unprovable_def map_ledgers_def settled_so_far_def shape_count_def)
  have fields: "r_transitions (count_refusal x r) = r_transitions r" "r_settlements_applied (count_refusal x r) = r_settlements_applied r"
    "r_settlements_refused_unreconciled (count_refusal x r) = r_settlements_refused_unreconciled r"
    "r_fills_replayed (count_refusal x r) = r_fills_replayed r" for x r
    by (simp_all add: count_refusal_def)
  show ?thesis
  proof (cases "ks = []")
    case False
    with Cons ok show ?thesis
      by (simp add: apply_one_settlement_def mark) (simp add: settled_so_far_def shape_count_refusal fields, simp add: shape_count_def)
  next
    case True
    show ?thesis
    proof (cases "apply_settlement (the (dget (r_ledgers r) k)) s")
      case (Inl refusal)
      then have "refusal \<noteq> AMBIGUOUS_SUBACCOUNT" by (rule settlement_kind)
      moreover have "shape_count (r\<lparr>r_tickers_with_settlement_evidence := x, r_settlements_refused_unreconciled := y\<rparr>) z
          = shape_count r z" for x y z by (simp add: shape_count_def)
      ultimately show ?thesis using Cons True ok Inl
        by (cases refusal)
           (simp_all add: apply_one_settlement_def mark, simp_all add: settled_so_far_def shape_count_refusal fields)
    next
      case (Inr tl)
      then obtain t l where tl: "apply_settlement (the (dget (r_ledgers r) k)) s = Inr (t, l)" by (cases tl) auto
      then have "t_kind t = SETTLE" by (rule settlement_kind)
      with Cons True ok tl show ?thesis
        by (simp add: apply_one_settlement_def settled_so_far_def shape_count_def)
    qed
  qed
qed

lemma settled_settlements: "settled_so_far r n \<Longrightarrow> settled_so_far (apply_settlements ss r) n"
proof -
  have "settled_so_far r n \<Longrightarrow> settled_so_far (foldl apply_one_settlement r xs) n" for xs
    by (induction xs arbitrary: r) (simp_all add: settled_step)
  then show "settled_so_far r n \<Longrightarrow> settled_so_far (apply_settlements ss r) n" by (simp add: apply_settlements_def)
qed

lemma settled_phases:
  "settled_so_far (assign_authority view (mark_settlement_coverage fl r)\<lparr>r_duplicate_fills_ignored := m\<rparr>) n
     = settled_so_far r n"
  by (simp add: assign_authority_def mark_settlement_coverage_def map_ledgers_def settled_so_far_def shape_count_def Let_def
      split: option.split)

lemma aggregate_groups_fees:
  "aggregate_groups gs ex st = Inr (ex', st') \<Longrightarrow> os_orders_with_complete_fees st + os_orders_missing_fees st = os_orders st
    \<Longrightarrow> os_orders_with_complete_fees st' + os_orders_missing_fees st' = os_orders st'"
  by (induction gs ex st rule: aggregate_groups.induct) (auto simp: rbind_eq_Inr count_order_def)

lemma aggregate_orders_fees:
  "aggregate_orders fs no_order_stats = Inr (ex, st) \<Longrightarrow> os_orders_with_complete_fees st + os_orders_missing_fees st = os_orders st"
  unfolding aggregate_orders_def by (erule aggregate_groups_fees) (simp add: no_order_stats_def)

lemma replay_counts:
  assumes "replay fs c ss fl view = Inr r"
  shows "settled_so_far r (length (dedupe_by f_fill_id fs))"
    and "r_duplicate_fills_ignored r = length fs - length (dedupe_by f_fill_id fs)"
    and "os_orders_with_complete_fees (r_order_stats r) + os_orders_missing_fees (r_order_stats r) = os_orders (r_order_stats r)"
proof -
  obtain ordered d ts ex st where o: "sort_fills (dedupe_by f_fill_id fs) = Inr ordered"
    "replay_ledgers (c = COMPLETE) ordered = Inr (d, ts)" "aggregate_orders ordered no_order_stats = Inr (ex, st)"
    using assms by (auto simp: replay_def Let_def rbind_eq_Inr)
  have len: "length ordered = length (dedupe_by f_fill_id fs)" using mset_sort_fills [OF o(1)] by (rule mset_eq_length)
  have ts: "length ts = length ordered" "how_many (\<lambda>t. t_kind t = SETTLE) ts = 0"
    using keyed_loop_transitions [OF o(2) [unfolded replay_ledgers_def]] by simp_all
  let ?r0 = "\<lparr>r_completeness = c, r_ledgers = d, r_orders = ex,
               r_transitions = ts, r_order_stats = st, r_fills_replayed = length ordered,
               r_duplicate_fills_ignored = 0,
               r_settlements_applied = 0, r_settlements_without_a_position = 0,
               r_settlements_refused_unreconciled = 0, r_settlements_refused_ambiguous_subaccount = 0,
               r_settlements_refused_by_shape = [],
               r_total_fees = (if list_all has_fee ordered then Some (dsum (List.map_filter f_fee_dollars ordered)) else None),
               r_fills_with_fee = length (List.map_filter f_fee_dollars ordered),
               r_subaccounts_observed = remdups (map f_subaccount_number ordered),
               r_tickers_with_settlement_evidence = [], r_settlement_floor = fl,
               r_exchange_view_supplied = False\<rparr>"
  have r: "r = assign_authority view (mark_settlement_coverage fl (apply_settlements ss ?r0))
      \<lparr>r_duplicate_fills_ignored := length fs - length (dedupe_by f_fill_id fs)\<rparr>"
    using assms o by (simp add: replay_def Let_def)
  have "settled_so_far ?r0 (length ordered)" using ts by (simp add: settled_so_far_def shape_count_def)
  then show "settled_so_far r (length (dedupe_by f_fill_id fs))"
    unfolding r settled_phases using settled_settlements len by metis
  show "r_duplicate_fills_ignored r = length fs - length (dedupe_by f_fill_id fs)" by (simp add: r)
  have one: "r_order_stats (apply_one_settlement r' s) = r_order_stats r'" for r' s
    by (simp add: apply_one_settlement_def mark_outcome_unprovable_def map_ledgers_def count_refusal_def Let_def
        split: list.split sum.split)
  have "r_order_stats (foldl apply_one_settlement r' xs) = r_order_stats r'" for r' xs
    by (induction xs arbitrary: r') (simp_all add: one)
  then have "r_order_stats r = st"
    by (simp add: r assign_authority_def mark_settlement_coverage_def map_ledgers_def apply_settlements_def Let_def
        split: option.split)
  then show "os_orders_with_complete_fees (r_order_stats r) + os_orders_missing_fees (r_order_stats r) = os_orders (r_order_stats r)"
    using aggregate_orders_fees [OF o(3)] by simp
qed

lemma claim_counts:
  "claims_complete_position_state r \<longleftrightarrow> fill_history_complete r
    \<and> how_many (has_authority UNEXPLAINED) (r_episodes r) = 0 \<and> how_many (has_authority CONFLICTED) (r_episodes r) = 0
    \<and> how_many (has_authority NOT_RECONCILED) (r_episodes r) = 0"
proof -
  have "e_authority e \<in> set EARNED_AUTHORITY \<longleftrightarrow>
      \<not> has_authority UNEXPLAINED e \<and> \<not> has_authority CONFLICTED e \<and> \<not> has_authority NOT_RECONCILED e" for e
    by (cases "e_authority e") (simp_all add: has_authority_def EARNED_AUTHORITY_def)
  then show ?thesis by (auto simp: claims_complete_position_state_def how_many_0 list_all_iff)
qed

text \<open>C15: the published counts of a replay are parts of wholes. Every fill given is replayed or a duplicate; every
  transition is one of the five a fill can make or a settlement that was applied, and carries a fee or misses one;
  every settlement is applied, refused or without a position, and the shapes of the refusals are all of them; every
  episode is open or closed and has one authority; and the claim of a complete position state is made exactly when the
  history is complete and no episode is unexplained, conflicted or unreconciled.\<close>
theorem diagnostics_add_up:
  assumes "replay fs c ss fl view = Inr r"
  shows "let ad = build_diagnostics r in
      ad_fills_replayed ad + ad_duplicate_fills_ignored ad = length fs
    \<and> ad_positions_opened ad + ad_positions_increased ad + ad_positions_reduced ad + ad_positions_closed ad
        + ad_positions_reversed ad = ad_fills_replayed ad
    \<and> ad_positions_settled ad = ad_settlements_applied ad
    \<and> ad_events_with_fee_field ad + ad_events_missing_fee_field ad = ad_position_transitions ad
    \<and> ad_position_transitions ad = ad_fills_replayed ad + ad_settlements_applied ad
    \<and> ad_settlements_applied ad + ad_settlements_without_a_position ad + ad_settlements_refused_unreconciled ad
        + ad_settlements_refused_ambiguous_subaccount ad = length ss
    \<and> ad_settlements_refused_replay_flat ad + ad_settlements_refused_settlement_larger ad
        + ad_settlements_refused_settlement_smaller ad + ad_settlements_refused_opposite_direction ad
        = ad_settlements_refused_unreconciled ad
    \<and> ad_orders_with_complete_fees ad + ad_orders_missing_fees ad = ad_orders_observed ad
    \<and> ad_episodes_open_at_end ad + ad_episodes_closed ad = ad_episodes_observed ad
    \<and> ad_episodes_closed_by_fills ad + ad_episodes_explained_settled ad + ad_episodes_reconciled_current ad
        + ad_episodes_unexplained ad + ad_episodes_conflicted ad + ad_episodes_not_reconciled ad = ad_episodes_observed ad
    \<and> (ad_claims_complete_position_state ad = (ad_fill_history_complete ad
        \<and> ad_episodes_unexplained ad = 0 \<and> ad_episodes_conflicted ad = 0 \<and> ad_episodes_not_reconciled ad = 0))
    \<and> (ad_position_state_contradicted_by_exchange ad = (0 < ad_episodes_unexplained ad + ad_episodes_conflicted ad))
    \<and> (ad_position_state_bounded_by_settlement_coverage ad = (0 < ad_episodes_with_an_unprovable_outcome ad))"
proof -
  note counts = replay_counts [OF assms]
  have unique: "length (dedupe_by f_fill_id fs) \<le> length fs"
    using length_dedupe_acc [of f_fill_id "[]" fs] by (simp add: dedupe_by_def)
  have kinds: "how_many (\<lambda>t. t_kind t = OPEN) (r_transitions r) + how_many (\<lambda>t. t_kind t = INCREASE) (r_transitions r)
      + how_many (\<lambda>t. t_kind t = REDUCE) (r_transitions r) + how_many (\<lambda>t. t_kind t = CLOSE) (r_transitions r)
      + how_many (\<lambda>t. t_kind t = REVERSE) (r_transitions r) = r_fills_replayed r"
    using six_kinds [of "r_transitions r"] counts(1) by (simp add: settled_so_far_def)
  have fees: "how_many (\<lambda>t. t_fee_dollars t \<noteq> None) (r_transitions r) + how_many (\<lambda>t. t_fee_dollars t = None) (r_transitions r)
      = length (r_transitions r)"
    using how_many_split [of "\<lambda>t. t_fee_dollars t \<noteq> None" "r_transitions r"] by simp
  have opened: "how_many is_open (r_episodes r) + how_many (\<lambda>e. \<not> is_open e) (r_episodes r) = length (r_episodes r)"
    by (rule how_many_split)
  have contradicted: "list_ex (\<lambda>e. e_authority e = UNEXPLAINED \<or> e_authority e = CONFLICTED) (r_episodes r) \<longleftrightarrow>
      0 < how_many (has_authority UNEXPLAINED) (r_episodes r) + how_many (has_authority CONFLICTED) (r_episodes r)"
    by (auto simp: list_ex_iff has_authority_def how_many_0 simp flip: neq0_conv)
  have bounded: "list_ex lost_outcome (r_episodes r) \<longleftrightarrow> 0 < how_many lost_outcome (r_episodes r)"
    by (auto simp: list_ex_iff how_many_0 simp flip: neq0_conv)
  show ?thesis
    unfolding build_diagnostics_def Let_def accounting_diagnostics.simps
    using counts unique kinds fees opened contradicted bounded claim_counts [of r] six_authorities [of "r_episodes r"]
      settlements_are_accounted_for [OF assms]
    by (simp add: settled_so_far_def)
qed

theorem diagnostics_add_up_witness:
  "\<exists>r. replay sample_history COMPLETE [] None None = Inr r
    \<and> ad_fills_replayed (build_diagnostics r) + ad_duplicate_fills_ignored (build_diagnostics r)
        = length sample_history
    \<and> ad_positions_settled (build_diagnostics r) = ad_settlements_applied (build_diagnostics r)"
proof -
  obtain r where r: "replay sample_history COMPLETE [] None None = Inr r" using sample_replay by blast
  from diagnostics_add_up [OF r] r show ?thesis unfolding Let_def by blast
qed

end
