(* ===== verification/Sports.thy ===== *)
theory Sports
  imports Prelude
begin

text \<open>
  \<^verbatim>\<open>sports.py\<close>: the vocabulary a classification answers in. \<open>OTHER\<close> is a market positively
  identified as none of the routable sports; \<open>UNRESOLVED\<close> is one the system could not place.
\<close>

datatype sport = MLB | NFL | CFB | NHL | NBA | SOCCER | TENNIS | OTHER | UNRESOLVED

fun sport_value :: "sport \<Rightarrow> string" where
  "sport_value MLB = ''MLB''"
| "sport_value NFL = ''NFL''"
| "sport_value CFB = ''CFB''"
| "sport_value NHL = ''NHL''"
| "sport_value NBA = ''NBA''"
| "sport_value SOCCER = ''SOCCER''"
| "sport_value TENNIS = ''TENNIS''"
| "sport_value OTHER = ''OTHER''"
| "sport_value UNRESOLVED = ''UNRESOLVED''"

definition ROUTABLE_SPORTS :: "sport list" where
  "ROUTABLE_SPORTS = [MLB, NFL, CFB, NHL, NBA, SOCCER, TENNIS]"

definition REPORT_ORDER :: "sport list" where
  "REPORT_ORDER = [MLB, NFL, CFB, NHL, NBA, SOCCER, TENNIS, OTHER, UNRESOLVED]"

lemma routable_sport_iff [simp]: "s \<in> set ROUTABLE_SPORTS \<longleftrightarrow> s \<noteq> OTHER \<and> s \<noteq> UNRESOLVED"
  by (cases s) (simp_all add: ROUTABLE_SPORTS_def)

lemma sport_value_inject [simp]: "sport_value s = sport_value t \<longleftrightarrow> s = t"
  by (cases s; cases t) simp_all

lemma inj_sport_value [simp]: "inj_on sport_value A"
  by (simp add: inj_on_def)

end
