(* ===== verification/Production.thy ===== *)
theory Production
  imports Execution Sports
begin

text \<open>
  \<^verbatim>\<open>production.py\<close>: the identity of a submitted order, the gates
  it must pass to be delivered, the counts a run publishes and its health, and the row each destination
  receives. A diagnostics object is the function from its counter names to their values, because the code
  reads and writes its attributes by name.

  The lemmas: the source key's material determines the order; every gate in its place, with what an
  eligible wager carries; the counters add up; the health word means what it says.
\<close>

section \<open>Source identity\<close>

definition SOURCE_KEY_VERSION :: string where "SOURCE_KEY_VERSION = ''kalshi:v1''"
definition DIGEST_DOMAIN :: string where "DIGEST_DOMAIN = ''kalshi-bet-router/source-key/v1''"

text \<open>One field, prefixed by its own byte length.\<close>

definition prefixed_field :: "string \<Rightarrow> string" where
  "prefixed_field s = show_nat (length (utf8 s)) @ '':'' @ s"

definition key_material :: "int option \<Rightarrow> string \<Rightarrow> string \<Rightarrow> string" where
  "key_material subaccount ticker order_id =
     concat (map prefixed_field [DIGEST_DOMAIN, account_text subaccount, ticker, order_id])"

definition production_source_key :: "int option \<Rightarrow> string \<Rightarrow> string \<Rightarrow> string result" where
  "production_source_key subaccount ticker order_id =
     (if ticker = [] \<or> order_id = [] then Inl ValueError
      else Inr (SOURCE_KEY_VERSION @ '':'' @ sha256_hex (key_material subaccount ticker order_id)))"

section \<open>Cutover and finality\<close>

definition PRODUCTION_CUTOVER_ISO :: string where "PRODUCTION_CUTOVER_ISO = ''2026-09-15T00:00:00Z''"

definition production_cutover_seconds :: "decimal result" where
  "production_cutover_seconds =
     (case parse_rfc3339_seconds (Some PRODUCTION_CUTOVER_ISO) of None \<Rightarrow> Inl ValueError | Some t \<Rightarrow> Inr t)"

definition is_after_cutover :: "order_execution \<Rightarrow> bool result" where
  "is_after_cutover x = rbind production_cutover_seconds (\<lambda>t. Inr (t < o_first_execution_time x))"

datatype order_finality = FINAL_MARKET_CLOSED | FINAL_STABLE | PENDING_RECENT_FILL | UNKNOWN

definition CLOSED_MARKET_STATUSES :: "string list" where
  "CLOSED_MARKET_STATUSES = [''closed'', ''settled'', ''finalized'', ''determined'', ''expired'']"

definition STABILIZATION_SECONDS :: decimal where "STABILIZATION_SECONDS = 900"

definition status_is_closed :: "string option \<Rightarrow> bool" where
  "status_is_closed s = (case s of None \<Rightarrow> False | Some t \<Rightarrow> py_lower (py_strip t) \<in> set CLOSED_MARKET_STATUSES)"

definition assess_finality :: "order_execution \<Rightarrow> decimal \<Rightarrow> string option \<Rightarrow> bool \<Rightarrow> order_finality" where
  "assess_finality x now market_status allow_stabilization =
     (if status_is_closed market_status then FINAL_MARKET_CLOSED
      else if \<not> allow_stabilization then UNKNOWN
      else if STABILIZATION_SECONDS \<le> dsub now (o_last_execution_time x) then FINAL_STABLE
      else PENDING_RECENT_FILL)"

definition FINAL_VERDICTS :: "order_finality list" where
  "FINAL_VERDICTS = [FINAL_MARKET_CLOSED, FINAL_STABLE]"

section \<open>The wager and its refusals\<close>

datatype production_refusal =
    BEFORE_CUTOVER
  | ORDER_NOT_FINAL
  | NO_EXECUTION_PRICE
  | FEES_INCOMPLETE
  | MARKET_NOT_CLASSIFIED
  | SPORT_UNRESOLVED
  | NO_DESTINATION_IMPORTER
  | DESTINATION_NOT_ACTIVATED
  | GAME_DATE_NOT_ESTABLISHED
  | REDUCTION_NOT_REPRESENTABLE
  | COMBO_NOT_RECORDABLE

definition ALL_REFUSALS :: "production_refusal list" where
  "ALL_REFUSALS = [BEFORE_CUTOVER, ORDER_NOT_FINAL, NO_EXECUTION_PRICE, FEES_INCOMPLETE,
     MARKET_NOT_CLASSIFIED, SPORT_UNRESOLVED, NO_DESTINATION_IMPORTER, DESTINATION_NOT_ACTIVATED,
     GAME_DATE_NOT_ESTABLISHED, REDUCTION_NOT_REPRESENTABLE, COMBO_NOT_RECORDABLE]"

type_synonym combo_leg = "string \<times> string \<times> string"

record production_wager =
  w_source_key :: string
  w_market_ticker :: string
  w_sport :: string
  w_game_date :: string
  w_side :: string
  w_contracts :: decimal
  w_vwap_price :: decimal
  w_total_fees :: decimal
  w_stake :: decimal
  w_first_execution_time :: decimal
  w_last_execution_time :: decimal
  w_fill_count :: nat
  w_finality :: order_finality
  w_execution_action :: "string option"
  w_is_combo :: bool
  w_combo_legs :: "combo_leg list"

definition EXPOSURE_SIDE_DESTINATIONS :: "string list" where
  "EXPOSURE_SIDE_DESTINATIONS = []"

definition SHARED_LEDGER_SPORTS :: "string list" where
  "SHARED_LEDGER_SPORTS = [''NBA'', ''SOCCER'', ''TENNIS'']"

text \<open>The keys of \<open>ROW_BUILDERS\<close>, in order.\<close>

definition ROW_BUILDER_SPORTS :: "string list" where
  "ROW_BUILDER_SPORTS = [''MLB'', ''NFL'', ''CFB'', ''NHL'', ''NBA'', ''SOCCER'', ''TENNIS'']"

fun action_text :: "action \<Rightarrow> string" where
  "action_text Buy = ''BUY''"
| "action_text Sell = ''SELL''"

type_synonym verdict = "production_wager option \<times> production_refusal option \<times> order_finality option"

text \<open>The wager an order becomes once every gate has passed.\<close>

definition build_wager ::
  "order_execution \<Rightarrow> string \<Rightarrow> string \<Rightarrow> decimal \<Rightarrow> decimal \<Rightarrow> order_finality \<Rightarrow> bool \<Rightarrow> combo_leg list
    \<Rightarrow> production_wager result" where
  "build_wager x sport game_date vwap fee finality is_combo combo_legs =
     (let by_exposure = (sport \<in> set EXPOSURE_SIDE_DESTINATIONS \<and> o_exposure_side x \<noteq> None);
          held = (if by_exposure then the (o_exposure_side x) else o_outcome_side x);
          long_yes = (held = YesOutcome);
          contract_price = (if long_yes then vwap else dsub 1 vwap);
          contracts = o_total_quantity x;
          stake = dadd (dmul contract_price contracts) fee
      in rbind (production_source_key (o_subaccount_number x) (o_ticker x) (o_order_id x)) (\<lambda>key.
         Inr \<lparr>w_source_key = key, w_market_ticker = o_ticker x, w_sport = sport, w_game_date = game_date,
              w_side = (if long_yes then ''YES'' else ''NO''), w_contracts = contracts,
              w_vwap_price = contract_price, w_total_fees = fee, w_stake = stake,
              w_first_execution_time = o_first_execution_time x,
              w_last_execution_time = o_last_execution_time x, w_fill_count = o_fill_count x,
              w_finality = finality, w_execution_action = map_option action_text (o_legacy_action x),
              w_is_combo = is_combo, w_combo_legs = (if is_combo then combo_legs else [])\<rparr>))"

definition evaluate_order ::
  "order_execution \<Rightarrow> string option \<Rightarrow> string option \<Rightarrow> string option \<Rightarrow> decimal \<Rightarrow> string list \<Rightarrow> bool \<Rightarrow> bool
    \<Rightarrow> bool \<Rightarrow> string list \<Rightarrow> combo_leg list \<Rightarrow> verdict result" where
  "evaluate_order x classification_sport game_date market_status now destinations allow_stabilization
       include_pre_cutover is_combo combo_destinations combo_legs =
     rbind (if include_pre_cutover then Inr True else is_after_cutover x) (\<lambda>admitted.
     if \<not> admitted then Inr (None, Some BEFORE_CUTOVER, None)
     else
       let finality = assess_finality x now market_status allow_stabilization;
           refuse = (\<lambda>why. Inr (None, Some why, Some finality))
       in
       if finality \<notin> set FINAL_VERDICTS then refuse ORDER_NOT_FINAL
       else case o_vwap_price x of None \<Rightarrow> refuse NO_EXECUTION_PRICE | Some vwap \<Rightarrow>
       (case o_total_fee x of None \<Rightarrow> refuse FEES_INCOMPLETE | Some fee \<Rightarrow>
       (case classification_sport of None \<Rightarrow> refuse MARKET_NOT_CLASSIFIED | Some sp \<Rightarrow>
       if sp \<in> {''UNRESOLVED'', ''OTHER''} then refuse SPORT_UNRESOLVED
       else if sp \<notin> set destinations then
         (if sp \<in> set ROW_BUILDER_SPORTS then refuse DESTINATION_NOT_ACTIVATED
          else refuse NO_DESTINATION_IMPORTER)
       else if is_combo \<and> sp \<notin> set combo_destinations then refuse COMBO_NOT_RECORDABLE
       else case game_date of
         None \<Rightarrow> refuse GAME_DATE_NOT_ESTABLISHED
       | Some gd \<Rightarrow>
           if gd = [] then refuse GAME_DATE_NOT_ESTABLISHED
           else rbind (build_wager x sp gd vwap fee finality is_combo combo_legs) (\<lambda>w.
                Inr (Some w, None, Some finality)))))"

section \<open>The counts of a run\<close>

type_synonym diagnostics = "string \<Rightarrow> nat"

definition DIAGNOSTIC_FIELDS :: "string list" where
  "DIAGNOSTIC_FIELDS = [''orders_considered'', ''eligible'',
     ''refused_before_cutover'', ''refused_order_not_final'', ''refused_no_execution_price'',
     ''refused_fees_incomplete'', ''refused_market_not_classified'', ''refused_sport_unresolved'',
     ''refused_no_destination_importer'', ''refused_destination_not_activated'',
     ''refused_game_date_not_established'', ''refused_reduction_not_representable'',
     ''refused_combo_not_recordable'', ''eligible_combo_orders'', ''sell_orders_recorded_by_contract'',
     ''sell_orders_recorded_by_exposure'', ''orders_after_cutover'', ''pre_cutover_admitted'',
     ''unresolved_metadata_lookup_failed'', ''unresolved_no_metadata'',
     ''unresolved_malformed_event_metadata'', ''unresolved_competition_absent'',
     ''unresolved_competition_unknown'', ''unresolved_competition_ambiguous'',
     ''unresolved_milestone_conflict'', ''unresolved_evidence_conflict'', ''unresolved_ambiguous_family'',
     ''unresolved_insufficient'', ''unresolved_combo_legs_unavailable'', ''unresolved_combo_leg_unresolved'',
     ''unresolved_combo_legs_span_sports'', ''unresolved_reason_unavailable'',
     ''final_market_closed'', ''final_stable'', ''pending_recent_fill'', ''finality_unknown'']"

definition no_diagnostics :: diagnostics where "no_diagnostics = (\<lambda>_. 0)"

text \<open>\<open>setattr(d, name, getattr(d, name) + 1)\<close>.\<close>

definition bump :: "string \<Rightarrow> diagnostics \<Rightarrow> diagnostics" where
  "bump name d = d(name := d name + 1)"

fun REFUSAL_COUNTERS :: "production_refusal \<Rightarrow> string" where
  "REFUSAL_COUNTERS BEFORE_CUTOVER = ''refused_before_cutover''"
| "REFUSAL_COUNTERS ORDER_NOT_FINAL = ''refused_order_not_final''"
| "REFUSAL_COUNTERS NO_EXECUTION_PRICE = ''refused_no_execution_price''"
| "REFUSAL_COUNTERS FEES_INCOMPLETE = ''refused_fees_incomplete''"
| "REFUSAL_COUNTERS MARKET_NOT_CLASSIFIED = ''refused_market_not_classified''"
| "REFUSAL_COUNTERS SPORT_UNRESOLVED = ''refused_sport_unresolved''"
| "REFUSAL_COUNTERS NO_DESTINATION_IMPORTER = ''refused_no_destination_importer''"
| "REFUSAL_COUNTERS DESTINATION_NOT_ACTIVATED = ''refused_destination_not_activated''"
| "REFUSAL_COUNTERS GAME_DATE_NOT_ESTABLISHED = ''refused_game_date_not_established''"
| "REFUSAL_COUNTERS REDUCTION_NOT_REPRESENTABLE = ''refused_reduction_not_representable''"
| "REFUSAL_COUNTERS COMBO_NOT_RECORDABLE = ''refused_combo_not_recordable''"

fun FINALITY_COUNTERS :: "order_finality \<Rightarrow> string" where
  "FINALITY_COUNTERS FINAL_MARKET_CLOSED = ''final_market_closed''"
| "FINALITY_COUNTERS FINAL_STABLE = ''final_stable''"
| "FINALITY_COUNTERS PENDING_RECENT_FILL = ''pending_recent_fill''"
| "FINALITY_COUNTERS UNKNOWN = ''finality_unknown''"

definition SELF_RESOLVING_REFUSALS :: "production_refusal list" where
  "SELF_RESOLVING_REFUSALS = [ORDER_NOT_FINAL]"

definition BY_DESIGN_REFUSALS :: "production_refusal list" where
  "BY_DESIGN_REFUSALS = [BEFORE_CUTOVER, NO_DESTINATION_IMPORTER]"

definition NEEDS_ATTENTION_REFUSALS :: "production_refusal list" where
  "NEEDS_ATTENTION_REFUSALS =
     filter (\<lambda>x. x \<notin> set SELF_RESOLVING_REFUSALS \<and> x \<notin> set BY_DESIGN_REFUSALS) ALL_REFUSALS"

definition refusals_total :: "diagnostics \<Rightarrow> nat" where
  "refusals_total d = sum_list (map d (filter (\<lambda>k. starts_with k ''refused_'') DIAGNOSTIC_FIELDS))"

definition is_healthy_no_op :: "diagnostics \<Rightarrow> bool" where
  "is_healthy_no_op d \<longleftrightarrow> d ''orders_after_cutover'' = 0"

definition deferred_orders :: "diagnostics \<Rightarrow> nat" where
  "deferred_orders d = sum_list (map (\<lambda>x. d (REFUSAL_COUNTERS x)) SELF_RESOLVING_REFUSALS)"

definition blocked_orders :: "diagnostics \<Rightarrow> nat" where
  "blocked_orders d = sum_list (map (\<lambda>x. d (REFUSAL_COUNTERS x)) NEEDS_ATTENTION_REFUSALS)"

datatype health_state = HEALTHY_NO_OP | DELIVERED | DEFERRED | NOT_ROUTABLE | BLOCKED

definition health :: "diagnostics \<Rightarrow> health_state" where
  "health d =
     (if blocked_orders d > 0 then BLOCKED
      else if deferred_orders d > 0 then DEFERRED
      else if d ''eligible'' > 0 then DELIVERED
      else if d ''orders_after_cutover'' > 0 then NOT_ROUTABLE
      else HEALTHY_NO_OP)"

definition diagnostics_as_dict :: "diagnostics \<Rightarrow> (string, nat) dict" where
  "diagnostics_as_dict d = map (\<lambda>k. (k, d k)) DIAGNOSTIC_FIELDS
     @ [(''blocked_orders'', blocked_orders d), (''deferred_orders'', deferred_orders d)]"

section \<open>The filter over every order\<close>

record production_inputs =
  p_sports :: "(string, string) dict"
  p_game_dates :: "(string, string) dict"
  p_market_statuses :: "(string, string) dict"
  p_now :: decimal
  p_destinations :: "string list"
  p_allow_stabilization :: bool
  p_include_pre_cutover :: bool
  p_combo_tickers :: "string list"
  p_combo_destinations :: "string list"
  p_combo_legs :: "(string, combo_leg list) dict"

definition verdict_of :: "production_inputs \<Rightarrow> order_execution \<Rightarrow> verdict result" where
  "verdict_of p x =
     evaluate_order x (dget (p_sports p) (o_ticker x)) (dget (p_game_dates p) (o_ticker x))
       (dget (p_market_statuses p) (o_ticker x)) (p_now p) (p_destinations p) (p_allow_stabilization p)
       (p_include_pre_cutover p) (o_ticker x \<in> set (p_combo_tickers p)) (p_combo_destinations p)
       (case dget (p_combo_legs p) (o_ticker x) of None \<Rightarrow> [] | Some ls \<Rightarrow> ls)"

text \<open>The counters one verdict moves, in the order of the loop body; \<open>pre\<close> says the order is pre-cutover
  and was admitted by a recovery run.\<close>

definition count_verdict :: "production_inputs \<Rightarrow> order_execution \<Rightarrow> bool \<Rightarrow> verdict \<Rightarrow> diagnostics \<Rightarrow> diagnostics" where
  "count_verdict p x pre v d =
     (case v of (w, refusal, finality) \<Rightarrow>
      let d = bump ''orders_considered'' d;
          d = (if pre then bump ''pre_cutover_admitted'' d else d);
          d = (if refusal \<noteq> Some BEFORE_CUTOVER then bump ''orders_after_cutover'' d else d);
          d = (case finality of None \<Rightarrow> d | Some f \<Rightarrow> bump (FINALITY_COUNTERS f) d)
      in case refusal of
           Some why \<Rightarrow> bump (REFUSAL_COUNTERS why) d
         | None \<Rightarrow>
             let d = bump ''eligible'' d;
                 d = (if o_ticker x \<in> set (p_combo_tickers p) then bump ''eligible_combo_orders'' d else d)
             in if is_sell x then
                  (if map_option w_sport w \<in> Some ` set EXPOSURE_SIDE_DESTINATIONS
                   then bump ''sell_orders_recorded_by_exposure'' d
                   else bump ''sell_orders_recorded_by_contract'' d)
                else d)"

fun production_loop ::
  "production_inputs \<Rightarrow> order_execution list \<Rightarrow> production_wager list \<Rightarrow> diagnostics
    \<Rightarrow> (production_wager list \<times> diagnostics) result" where
  "production_loop p [] ws d = Inr (ws, d)"
| "production_loop p (x # xs) ws d =
     rbind (verdict_of p x) (\<lambda>v.
     rbind (if p_include_pre_cutover p then is_after_cutover x else Inr True) (\<lambda>after.
     production_loop p xs
       (case v of (Some w, None, _) \<Rightarrow> ws @ [w] | _ \<Rightarrow> ws)
       (count_verdict p x (\<not> after) v d)))"

definition evaluate_production ::
  "production_inputs \<Rightarrow> order_execution list \<Rightarrow> (production_wager list \<times> diagnostics) result" where
  "evaluate_production p xs = production_loop p xs [] no_diagnostics"

section \<open>Destination rows\<close>

text \<open>\<open>float(value)\<close>, as the JSON number it is written as.\<close>

definition json_float :: "decimal \<Rightarrow> json" where
  "json_float x = JFloat (frepr (fround x))"

definition executed_at :: "production_wager \<Rightarrow> json result" where
  "executed_at w =
     (case seconds_to_rfc3339 (Some (w_first_execution_time w)) of
        None \<Rightarrow> Inl OverflowError
      | Some None \<Rightarrow> Inr JNull
      | Some (Some s) \<Rightarrow> Inr (JStr s))"

definition execution_economics :: "production_wager \<Rightarrow> json" where
  "execution_economics w =
     (let contract_cost = dmul (w_vwap_price w) (w_contracts w) in
      JObj [(''contractCost'', json_float contract_cost),
        (''averageFillPrice'', json_float (w_vwap_price w)),
        (''totalFees'', json_float (w_total_fees w)),
        (''actualCashConsumed'', json_float (dadd contract_cost (w_total_fees w))),
        (''executionStatus'', JStr ''HELD_TO_SETTLEMENT''),
        (''feeStatus'', JStr ''ACTUAL_API_FILL''),
        (''feeSource'', JStr ''EXACT_ORDER_EXECUTION''),
        (''economicsSource'', JStr ''EXACT_API_EXECUTION''),
        (''economicsConfidence'', JStr ''HIGH'')])"

definition to_import_row :: "production_wager \<Rightarrow> jobj" where
  "to_import_row w =
     [(''sourceBetKey'', JStr (w_source_key w)), (''gameDate'', JStr (w_game_date w)),
      (''marketTicker'', JStr (w_market_ticker w)), (''side'', JStr (w_side w)),
      (''stake'', json_float (w_stake w)), (''entryPrice'', json_float (w_vwap_price w)),
      (''contracts'', json_float (w_contracts w)), (''executionEconomics'', execution_economics w),
      (''status'', JStr ''pending''), (''source'', JStr ''OTHER''),
      (''entryMethod'', JStr ''IMPORTED_RECEIPT''), (''trackingType'', JStr ''REAL'')]"

definition to_nfl_import_row :: "production_wager \<Rightarrow> string \<Rightarrow> jobj result" where
  "to_nfl_import_row w import_batch_id =
     rbind (executed_at w) (\<lambda>when. Inr (
       [(''source_bet_key'', JStr (w_source_key w)), (''import_batch_id'', JStr import_batch_id),
        (''entry_method'', JStr ''IMPORTED_RECEIPT''), (''game_date'', JStr (w_game_date w)),
        (''market_ticker'', JStr (w_market_ticker w)), (''side'', JStr (w_side w)), (''executed_at'', when),
        (''contracts'', json_float (w_contracts w)), (''actual_price'', json_float (w_vwap_price w)),
        (''stake'', json_float (w_stake w)), (''fees_paid'', json_float (w_total_fees w)),
        (''fees_are_estimated'', JBool False), (''fee_state'', JStr ''ACTUAL_API_FILL''), (''venue'', JStr ''kalshi'')]
       @ (case w_execution_action w of
            Some a \<Rightarrow> if a = [] then [] else [(''execution_action'', JStr a)]
          | None \<Rightarrow> [])))"

text \<open>The row vocabulary CFB, NHL and the shared ledger have in common.\<close>

definition accounted_row :: "production_wager \<Rightarrow> string \<Rightarrow> jobj result" where
  "accounted_row w import_batch_id =
     rbind (executed_at w) (\<lambda>when. Inr
       [(''source_bet_key'', JStr (w_source_key w)), (''import_batch_id'', JStr import_batch_id),
        (''entry_method'', JStr ''IMPORTED_RECEIPT''), (''game_date'', JStr (w_game_date w)),
        (''market_ticker'', JStr (w_market_ticker w)), (''side'', JStr (w_side w)), (''executed_at'', when),
        (''contracts'', json_float (w_contracts w)), (''execution_price'', json_float (w_vwap_price w)),
        (''stake'', json_float (w_stake w)), (''fees_paid'', json_float (w_total_fees w)),
        (''fees_are_estimated'', JBool False), (''venue'', JStr ''kalshi'')])"

definition to_cfb_import_row :: "production_wager \<Rightarrow> string \<Rightarrow> jobj result" where
  "to_cfb_import_row w import_batch_id = accounted_row w import_batch_id"

definition NHL_ROW_FIELDS :: "string list" where
  "NHL_ROW_FIELDS = [''source_bet_key'', ''import_batch_id'', ''entry_method'', ''game_date'', ''market_ticker'',
     ''side'', ''executed_at'', ''contracts'', ''execution_price'', ''stake'', ''fees_paid'',
     ''fees_are_estimated'', ''venue'']"

definition to_nhl_import_row :: "production_wager \<Rightarrow> string \<Rightarrow> jobj result" where
  "to_nhl_import_row w import_batch_id =
     (if blank import_batch_id then Inl ValueError else accounted_row w import_batch_id)"

definition to_mlb_import_row :: "production_wager \<Rightarrow> string \<Rightarrow> jobj result" where
  "to_mlb_import_row w import_batch_id =
     (if blank import_batch_id then Inl ValueError
      else if w_is_combo w then
        Inr (to_import_row w
          @ [(''wagerStructure'', JStr ''COMBO_CONTRACT''), (''marketFamily'', JStr ''multi_market_combo''),
             (''comboLegs'', if w_combo_legs w = [] then JNull
                else JList (map (\<lambda>(ticker, event, side).
                  JObj [(''marketTicker'', JStr ticker), (''eventTicker'', JStr event), (''side'', JStr side)])
                  (w_combo_legs w)))])
      else Inr (to_import_row w))"

definition to_shared_ledger_row :: "string \<Rightarrow> production_wager \<Rightarrow> string \<Rightarrow> jobj result" where
  "to_shared_ledger_row sport w import_batch_id =
     (if blank import_batch_id then Inl ValueError
      else if w_sport w \<noteq> sport then Inl ValueError
      else accounted_row w import_batch_id)"

definition ROW_BUILDERS :: "string \<Rightarrow> (production_wager \<Rightarrow> string \<Rightarrow> jobj result) option" where
  "ROW_BUILDERS = map_of [(''MLB'', to_mlb_import_row), (''NFL'', to_nfl_import_row), (''CFB'', to_cfb_import_row),
     (''NHL'', to_nhl_import_row), (''NBA'', to_shared_ledger_row ''NBA''),
     (''SOCCER'', to_shared_ledger_row ''SOCCER''), (''TENNIS'', to_shared_ledger_row ''TENNIS'')]"

lemma ROW_BUILDERS_dom: "dom ROW_BUILDERS = set ROW_BUILDER_SPORTS"
  by (auto simp: ROW_BUILDERS_def ROW_BUILDER_SPORTS_def dom_if)

section \<open>The source key determines the order\<close>

lemma show_nat_no_colon: "CHR '':'' \<notin> set (show_nat n)"
  using show_nat_digits(1) [of n] digit_not(1) by (auto simp: list_all_iff)

lemma prefixed_field_prefix_free:
  assumes "prefixed_field s @ u = prefixed_field t @ v"
  shows "s = t \<and> u = v"
proof -
  have "show_nat (length s) = show_nat (length t) \<and> s @ u = t @ v"
    using assms split_at_colon [OF show_nat_no_colon show_nat_no_colon, of "length s" "s @ u" "length t" "t @ v"]
    by (simp add: prefixed_field_def utf8_def)
  then show ?thesis by (auto dest: inj_show_nat)
qed

lemma prefixed_fields_inj:
  "length ss = length ts \<Longrightarrow> concat (map prefixed_field ss) = concat (map prefixed_field ts) \<Longrightarrow> ss = ts"
proof (induction ss ts rule: list_induct2)
  case (Cons s ss t ts)
  from Cons.prems have "s = t \<and> concat (map prefixed_field ss) = concat (map prefixed_field ts)"
    by (intro prefixed_field_prefix_free) simp
  then show ?case using Cons.IH by simp
qed simp

lemma key_material_inj:
  "key_material a t i = key_material a' t' i' \<longleftrightarrow> a = a' \<and> t = t' \<and> i = i'"
  using prefixed_fields_inj [of "[DIGEST_DOMAIN, account_text a, t, i]" "[DIGEST_DOMAIN, account_text a', t', i']"]
  by (auto simp: key_material_def dest: inj_account_text)

text \<open>C18: two orders share a production source key only if they are the same order, or SHA-256 collides on two
  distinct texts the code really hashes: no choice of subaccount, ticker or order id, whatever bytes they
  contain, makes the encoding itself ambiguous.\<close>
theorem source_key_collision_is_digest_collision:
  assumes "production_source_key a t i = Inr k" and "production_source_key a' t' i' = Inr k"
  shows "(a = a' \<and> t = t' \<and> i = i') \<or>
    (key_material a t i \<noteq> key_material a' t' i'
     \<and> sha256_hex (key_material a t i) = sha256_hex (key_material a' t' i'))"
  using assms key_material_inj [of a t i a' t' i'] by (auto simp: production_source_key_def split: if_splits)

theorem source_key_collision_is_digest_collision_witness:
  "\<exists>k. production_source_key None ''T'' ''O'' = Inr k
    \<and> ((None :: int option) = None \<and> ''T'' = ''T'' \<and> ''O'' = ''O''
       \<or> (key_material None ''T'' ''O'' \<noteq> key_material None ''T'' ''O''
         \<and> sha256_hex (key_material None ''T'' ''O'') = sha256_hex (key_material None ''T'' ''O'')))"
proof -
  obtain k where k: "production_source_key None ''T'' ''O'' = Inr k"
    by (simp add: production_source_key_def)
  show ?thesis
    by (rule exI [of _ k], rule conjI [OF k], rule source_key_collision_is_digest_collision [OF k k])
qed

section \<open>The gates\<close>

lemma cutover_value: "production_cutover_seconds = Inr 1789430400"
proof -
  have "iso_micros (zulu (py_strip PRODUCTION_CUTOVER_ISO)) = Some (1789430400 * 1000000)"
    by code_simp
  moreover have "py_strip PRODUCTION_CUTOVER_ISO \<noteq> []" by code_simp
  ultimately have "parse_rfc3339_seconds (Some PRODUCTION_CUTOVER_ISO) = Some (of_int 1789430400)"
    by (rule seconds_of_instant) simp_all
  then show ?thesis by (simp add: production_cutover_seconds_def)
qed

lemma after_cutover: "is_after_cutover x = Inr (1789430400 < o_first_execution_time x)"
  by (simp add: is_after_cutover_def cutover_value)

lemma build_wager_total:
  assumes "o_ticker x \<noteq> []" "o_order_id x \<noteq> []"
  shows "\<exists>w. build_wager x sp gd vwap fee fin combo legs = Inr w"
  using assms by (simp add: build_wager_def production_source_key_def Let_def)

text \<open>Every gate at once.\<close>

definition passes_gates ::
  "order_execution \<Rightarrow> string option \<Rightarrow> string option \<Rightarrow> string option \<Rightarrow> decimal \<Rightarrow> string list \<Rightarrow> bool \<Rightarrow> bool
    \<Rightarrow> bool \<Rightarrow> string list \<Rightarrow> bool" where
  "passes_gates x sport game_date status now destinations stabilize include_pre combo combo_destinations \<longleftrightarrow>
     (include_pre \<or> 1789430400 < o_first_execution_time x)
     \<and> (status_is_closed status \<or> (stabilize \<and> 900 \<le> dsub now (o_last_execution_time x)))
     \<and> o_vwap_price x \<noteq> None \<and> o_total_fee x \<noteq> None
     \<and> (case sport of None \<Rightarrow> False | Some sp \<Rightarrow>
          sp \<noteq> ''UNRESOLVED'' \<and> sp \<noteq> ''OTHER'' \<and> sp \<in> set destinations \<and> (combo \<longrightarrow> sp \<in> set combo_destinations))
     \<and> (case game_date of None \<Rightarrow> False | Some gd \<Rightarrow> gd \<noteq> [])"

lemma final_verdict_iff:
  "assess_finality x now status stabilize \<in> set FINAL_VERDICTS
    \<longleftrightarrow> status_is_closed status \<or> (stabilize \<and> 900 \<le> dsub now (o_last_execution_time x))"
  by (simp add: assess_finality_def FINAL_VERDICTS_def STABILIZATION_SECONDS_def)

lemma evaluate_order_gates:
  assumes "o_ticker x \<noteq> []" "o_order_id x \<noteq> []"
  shows "\<exists>w r fin. evaluate_order x sport gd status now dests stabilize incl combo cdests legs = Inr (w, r, fin)
    \<and> (r = None \<longleftrightarrow> passes_gates x sport gd status now dests stabilize incl combo cdests)
    \<and> (w = None \<longleftrightarrow> r \<noteq> None) \<and> (fin = None \<longleftrightarrow> r = Some BEFORE_CUTOVER)"
proof (cases "incl \<or> 1789430400 < o_first_execution_time x")
  case False
  then show ?thesis by (simp add: evaluate_order_def after_cutover passes_gates_def)
next
  case True
  then have adm: "(if incl then Inr True else is_after_cutover x) = Inr True" by (auto simp: after_cutover)
  let ?f = "assess_finality x now status stabilize"
  show ?thesis
  proof (cases "?f \<in> set FINAL_VERDICTS \<and> o_vwap_price x \<noteq> None \<and> o_total_fee x \<noteq> None \<and> sport \<noteq> None")
    case False
    then show ?thesis
      using True unfolding evaluate_order_def adm passes_gates_def final_verdict_iff [symmetric]
      by (cases "?f \<in> set FINAL_VERDICTS"; cases "o_vwap_price x"; cases "o_total_fee x"; cases sport) auto
  next
    case ok: True
    then obtain vwap fee sp where s: "o_vwap_price x = Some vwap" "o_total_fee x = Some fee" "sport = Some sp" by auto
    show ?thesis
    proof (cases gd)
      case None
      then show ?thesis
        using True ok s unfolding evaluate_order_def adm passes_gates_def final_verdict_iff [symmetric]
        by (auto simp: Let_def)
    next
      case (Some d)
      obtain w where "build_wager x sp d vwap fee ?f combo legs = Inr w" using build_wager_total [OF assms] by blast
      then show ?thesis
        using True ok s Some unfolding evaluate_order_def adm passes_gates_def final_verdict_iff [symmetric]
        by (auto simp: Let_def)
    qed
  qed
qed

text \<open>C19: an order is delivered exactly when every gate passes, and the outcome is never silent: there is a wager
  or a refusal and never both, no exception for an order with a market and an id, and only a pre-cutover order is
  refused without its finality being stated.\<close>
theorem eligible_iff_all_gates_pass:
  assumes "o_ticker x \<noteq> []" "o_order_id x \<noteq> []"
  shows "\<exists>w r fin. evaluate_order x sport gd status now dests stabilize incl combo cdests legs = Inr (w, r, fin)
    \<and> (r = None \<longleftrightarrow> passes_gates x sport gd status now dests stabilize incl combo cdests)
    \<and> (w = None \<longleftrightarrow> r \<noteq> None) \<and> (fin = None \<longleftrightarrow> r = Some BEFORE_CUTOVER)"
  using assms by (rule evaluate_order_gates)

text \<open>A NO order of ten contracts on a closed market, after the cutover.\<close>

definition sample_order :: "decimal \<Rightarrow> order_execution" where
  "sample_order t = \<lparr>o_order_id = ''O1'', o_ticker = ''T'', o_outcome_side = NoOutcome, o_book_side = None,
     o_subaccount_number = None, o_total_quantity = 10, o_fill_count = 1, o_fill_ids = [''F1''],
     o_first_execution_time = t, o_last_execution_time = t, o_vwap_price = Some (3 / 5), o_total_fee = Some (1 / 10),
     o_fills_with_fee = 1, o_all_taker = None, o_exposure_side = Some NoOutcome, o_legacy_action = Some Buy\<rparr>"

lemma closed_status [simp]: "status_is_closed (Some ''settled'')"
  by code_simp

theorem eligible_iff_all_gates_pass_witness:
  "\<exists>w fin. evaluate_order (sample_order 1789430401) (Some ''NFL'') (Some ''2026-09-20'') (Some ''settled'') 0 [''NFL'']
     False False False [] [] = Inr (Some w, None, Some fin)"
  using eligible_iff_all_gates_pass [of "sample_order 1789430401" "Some ''NFL''" "Some ''2026-09-20''" "Some ''settled''" 0
      "[''NFL'']" False False False "[]" "[]"]
  by (auto simp: sample_order_def passes_gates_def)

section \<open>The counters add up\<close>

lemma REFUSAL_COUNTERS_inj [simp]: "REFUSAL_COUNTERS x = REFUSAL_COUNTERS y \<longleftrightarrow> x = y"
  by (cases x; cases y) simp_all

lemma refusal_names [simp]:
  "REFUSAL_COUNTERS x \<noteq> ''eligible''" "REFUSAL_COUNTERS x \<noteq> ''orders_considered''"
  "REFUSAL_COUNTERS x \<noteq> ''orders_after_cutover''" "REFUSAL_COUNTERS x \<noteq> ''pre_cutover_admitted''"
  "REFUSAL_COUNTERS x \<noteq> ''eligible_combo_orders''" "REFUSAL_COUNTERS x \<noteq> ''sell_orders_recorded_by_exposure''"
  "REFUSAL_COUNTERS x \<noteq> ''sell_orders_recorded_by_contract''"
  by (cases x; simp)+

lemma finality_names [simp]:
  "FINALITY_COUNTERS f \<noteq> ''eligible''" "FINALITY_COUNTERS f \<noteq> ''orders_considered''"
  "FINALITY_COUNTERS f \<noteq> ''orders_after_cutover''"
  by (cases f; simp)+

lemma refusal_is_not_finality [simp]: "REFUSAL_COUNTERS x \<noteq> FINALITY_COUNTERS f"
  by (cases x; cases f) simp_all

lemmas counter_names_sym [simp] =
  refusal_names [THEN not_sym] finality_names [THEN not_sym] refusal_is_not_finality [THEN not_sym]

lemma refusals_total_eq: "refusals_total d = sum_list (map (\<lambda>x. d (REFUSAL_COUNTERS x)) ALL_REFUSALS)"
  by (simp add: refusals_total_def DIAGNOSTIC_FIELDS_def starts_with_def ALL_REFUSALS_def)

lemma in_ALL_REFUSALS [simp]: "x \<in> set ALL_REFUSALS"
  by (cases x) (simp_all add: ALL_REFUSALS_def)

lemma bump_apply: "bump n d m = (if n = m then Suc (d m) else d m)"
  by (simp add: bump_def)

lemma if_bump_apply: "(if c then bump n d else d) m = (if c \<and> n = m then Suc (d m) else d m)"
  by (simp add: bump_def)

lemma if_bumps_apply: "(if c then bump n d else bump k d) m = (if c then bump n d m else bump k d m)"
  by simp

lemma count_verdict_fields:
  "count_verdict p x pre (w, r, f) d ''orders_considered'' = Suc (d ''orders_considered'')"
  "count_verdict p x pre (w, r, f) d ''eligible'' = d ''eligible'' + (if r = None then 1 else 0)"
  "count_verdict p x pre (w, r, f) d ''orders_after_cutover''
    = d ''orders_after_cutover'' + (if r \<noteq> Some BEFORE_CUTOVER then 1 else 0)"
  "count_verdict p x pre (w, r, f) d (REFUSAL_COUNTERS y) = d (REFUSAL_COUNTERS y) + (if r = Some y then 1 else 0)"
  by (cases r; cases f; cases "is_sell x"; simp add: count_verdict_def Let_def bump_apply if_bump_apply if_bumps_apply)+

text \<open>What the loop computes: one verdict per order, the wagers of the eligible ones, and the tallies.\<close>

definition refused_as :: "production_refusal \<Rightarrow> verdict \<Rightarrow> bool" where
  "refused_as y v \<longleftrightarrow> fst (snd v) = Some y"

definition accepted :: "verdict \<Rightarrow> bool" where
  "accepted v \<longleftrightarrow> fst (snd v) = None"

definition tally :: "(verdict \<Rightarrow> bool) \<Rightarrow> verdict list \<Rightarrow> nat" where
  "tally P vs = length (filter P vs)"

primrec eligible_wagers :: "verdict list \<Rightarrow> production_wager list" where
  "eligible_wagers [] = []"
| "eligible_wagers (v # vs) = (case v of (Some w, None, _) \<Rightarrow> [w] | _ \<Rightarrow> []) @ eligible_wagers vs"

lemma verdict_class [simp]: "accepted (w, r, f) \<longleftrightarrow> r = None" "refused_as y (w, r, f) \<longleftrightarrow> r = Some y"
  by (simp_all add: accepted_def refused_as_def)

lemma tally_simps [simp]: "tally P [] = 0" "tally P (v # vs) = (if P v then 1 else 0) + tally P vs"
  by (simp_all add: tally_def)

lemma tally_pos: "0 < tally P vs \<longleftrightarrow> (\<exists>v \<in> set vs. P v)"
  by (induction vs) auto

lemma tally_complement: "tally (\<lambda>v. \<not> P v) vs + tally P vs = length vs"
  by (induction vs) auto

lemma production_loop_tally:
  assumes "production_loop p xs ws d = Inr (ws', d')"
  shows "\<exists>vs. list_all2 (\<lambda>x v. verdict_of p x = Inr v) xs vs
    \<and> d' ''orders_considered'' = d ''orders_considered'' + length xs
    \<and> d' ''eligible'' = d ''eligible'' + tally accepted vs
    \<and> d' ''orders_after_cutover'' = d ''orders_after_cutover'' + tally (\<lambda>v. \<not> refused_as BEFORE_CUTOVER v) vs
    \<and> (\<forall>y. d' (REFUSAL_COUNTERS y) = d (REFUSAL_COUNTERS y) + tally (refused_as y) vs)
    \<and> ws' = ws @ eligible_wagers vs"
  using assms
proof (induction p xs ws d rule: production_loop.induct)
  case (1 p ws d)
  then show ?case by (intro exI [of _ "[]"]) simp
next
  case (2 p x xs ws d)
  then obtain w r f pre where v: "verdict_of p x = Inr (w, r, f)"
    and rest: "production_loop p xs (case (w, r, f) of (Some w, None, _) \<Rightarrow> ws @ [w] | _ \<Rightarrow> ws)
        (count_verdict p x (\<not> pre) (w, r, f) d) = Inr (ws', d')"
    and pre: "(if p_include_pre_cutover p then is_after_cutover x else Inr True) = Inr pre"
    by (auto simp: rbind_eq_Inr)
  from "2.IH" [OF rest] obtain vs where vs: "list_all2 (\<lambda>x v. verdict_of p x = Inr v) xs vs"
    "d' ''orders_considered'' = count_verdict p x (\<not> pre) (w, r, f) d ''orders_considered'' + length xs"
    "d' ''eligible'' = count_verdict p x (\<not> pre) (w, r, f) d ''eligible'' + tally accepted vs"
    "d' ''orders_after_cutover'' = count_verdict p x (\<not> pre) (w, r, f) d ''orders_after_cutover''
       + tally (\<lambda>v. \<not> refused_as BEFORE_CUTOVER v) vs"
    "\<forall>y. d' (REFUSAL_COUNTERS y) = count_verdict p x (\<not> pre) (w, r, f) d (REFUSAL_COUNTERS y) + tally (refused_as y) vs"
    "ws' = (case (w, r, f) of (Some w, None, _) \<Rightarrow> ws @ [w] | _ \<Rightarrow> ws) @ eligible_wagers vs"
    by blast
  then show ?case
    by (intro exI [of _ "(w, r, f) # vs"])
       (cases w; cases r; simp add: v count_verdict_fields)
qed

lemma tally_partition:
  "tally accepted vs + sum_list (map (\<lambda>y. tally (refused_as y) vs) ALL_REFUSALS) = length vs"
proof (induction vs)
  case (Cons v vs)
  have "sum_list (map (\<lambda>y. if refused_as y v then 1 else 0) ALL_REFUSALS) = (if accepted v then 0 else (1 :: nat))"
  proof (cases "fst (snd v)")
    case None
    then show ?thesis by (simp add: refused_as_def accepted_def ALL_REFUSALS_def)
  next
    case (Some y)
    then show ?thesis by (cases y) (simp_all add: refused_as_def accepted_def ALL_REFUSALS_def)
  qed
  with Cons show ?case by (simp add: sum_list_addf)
qed (simp add: ALL_REFUSALS_def)

lemma verdict_total:
  assumes "o_ticker x \<noteq> []" "o_order_id x \<noteq> []"
  obtains w r f where "verdict_of p x = Inr (w, r, f)" "w = None \<longleftrightarrow> r \<noteq> None"
  using evaluate_order_gates [OF assms] unfolding verdict_of_def by metis

lemma production_loop_total:
  "\<forall>x \<in> set xs. o_ticker x \<noteq> [] \<and> o_order_id x \<noteq> [] \<Longrightarrow> \<exists>ws' d'. production_loop p xs ws d = Inr (ws', d')"
proof (induction xs arbitrary: ws d)
  case (Cons x xs)
  obtain v where "verdict_of p x = Inr v" using Cons.prems verdict_total [of x p] by (metis list.set_intros(1))
  then show ?case using Cons by (simp add: after_cutover)
qed simp

lemma eligible_wagers_length:
  "list_all2 (\<lambda>x v. verdict_of p x = Inr v) xs vs \<Longrightarrow> \<forall>x \<in> set xs. o_ticker x \<noteq> [] \<and> o_order_id x \<noteq> []
    \<Longrightarrow> length (eligible_wagers vs) = tally accepted vs"
proof (induction rule: list_all2_induct)
  case (Cons x xs v vs)
  then have "o_ticker x \<noteq> []" "o_order_id x \<noteq> []" by simp_all
  from verdict_total [OF this, of p] obtain w r f where "v = (w, r, f)" "w = None \<longleftrightarrow> r \<noteq> None"
    using Cons.hyps(1) by (metis sum.inject(2))
  then show ?case using Cons by (cases w; cases r) simp_all
qed simp

text \<open>A run accounts for every order it was given. It never raises on orders with a market and an id; it returns
  one wager per eligible order, in order; and the published counters are exact: each refusal counter is the
  number of orders refused for that reason, and the eligible plus the refused are all of the orders.\<close>
theorem production_counts_every_order:
  assumes "\<forall>x \<in> set xs. o_ticker x \<noteq> [] \<and> o_order_id x \<noteq> []"
  shows "\<exists>ws d vs. evaluate_production p xs = Inr (ws, d) \<and> list_all2 (\<lambda>x v. verdict_of p x = Inr v) xs vs
    \<and> ws = eligible_wagers vs \<and> length ws = d ''eligible'' \<and> d ''eligible'' = tally accepted vs
    \<and> (\<forall>y. d (REFUSAL_COUNTERS y) = tally (refused_as y) vs)
    \<and> d ''orders_considered'' = length xs \<and> d ''eligible'' + refusals_total d = length xs
    \<and> d ''orders_after_cutover'' + d ''refused_before_cutover'' = length xs"
proof -
  obtain ws d where run: "production_loop p xs [] no_diagnostics = Inr (ws, d)"
    using production_loop_total [OF assms] by blast
  from production_loop_tally [OF run] obtain vs where vs: "list_all2 (\<lambda>x v. verdict_of p x = Inr v) xs vs"
    and d: "d ''orders_considered'' = length xs" "d ''eligible'' = tally accepted vs"
      "d ''orders_after_cutover'' = tally (\<lambda>v. \<not> refused_as BEFORE_CUTOVER v) vs"
      "\<And>y. d (REFUSAL_COUNTERS y) = tally (refused_as y) vs"
    and ws: "ws = eligible_wagers vs"
    by (auto simp: no_diagnostics_def)
  have len: "length vs = length xs" using vs by (simp add: list_all2_lengthD)
  have "d ''eligible'' + refusals_total d = length xs"
    using tally_partition [of vs] by (simp add: refusals_total_eq d len)
  moreover have "d ''orders_after_cutover'' + d ''refused_before_cutover'' = length xs"
    using d(4) [of BEFORE_CUTOVER] tally_complement [of "refused_as BEFORE_CUTOVER" vs] by (simp add: d len)
  ultimately show ?thesis
    using run vs ws d eligible_wagers_length [OF vs assms] unfolding evaluate_production_def
    by (intro exI [of _ ws] exI [of _ d] exI [of _ vs]) simp
qed

definition sample_inputs :: production_inputs where
  "sample_inputs = \<lparr>p_sports = [(''T'', ''NFL'')], p_game_dates = [(''T'', ''2026-09-20'')],
     p_market_statuses = [(''T'', ''settled'')], p_now = 0, p_destinations = [''NFL''],
     p_allow_stabilization = False, p_include_pre_cutover = False, p_combo_tickers = [],
     p_combo_destinations = [], p_combo_legs = []\<rparr>"

theorem production_counts_every_order_witness:
  "\<exists>ws d. evaluate_production sample_inputs [sample_order 1789430401, sample_order 0] = Inr (ws, d)
    \<and> d ''eligible'' + refusals_total d = 2 \<and> d ''orders_considered'' = 2"
proof -
  have "\<forall>x \<in> set [sample_order 1789430401, sample_order 0]. o_ticker x \<noteq> [] \<and> o_order_id x \<noteq> []"
    by (simp add: sample_order_def)
  from production_counts_every_order [OF this, of sample_inputs] show ?thesis by fastforce
qed

section \<open>The health word\<close>

text \<open>What each refusal asks of the operator.\<close>

lemma refusal_triage:
  "r \<in> set SELF_RESOLVING_REFUSALS \<longleftrightarrow> r = ORDER_NOT_FINAL"
  "r \<in> set BY_DESIGN_REFUSALS \<longleftrightarrow> r = BEFORE_CUTOVER \<or> r = NO_DESTINATION_IMPORTER"
  "r \<in> set NEEDS_ATTENTION_REFUSALS \<longleftrightarrow> r \<notin> {ORDER_NOT_FINAL, BEFORE_CUTOVER, NO_DESTINATION_IMPORTER}"
  by (auto simp: SELF_RESOLVING_REFUSALS_def BY_DESIGN_REFUSALS_def NEEDS_ATTENTION_REFUSALS_def)

lemma sum_tally_pos:
  "0 < sum_list (map (\<lambda>y. tally (refused_as y) vs) ys) \<longleftrightarrow> (\<exists>v \<in> set vs. \<exists>y \<in> set ys. fst (snd v) = Some y)"
  by (induction ys) (auto simp: tally_pos refused_as_def)

text \<open>C21: the health word a run publishes means exactly what happened to its orders. A run is BLOCKED just when some
  order was refused for a reason that needs attention; DEFERRED when none was and some order is waiting to
  become final; DELIVERED when neither and something was delivered; NOT_ROUTABLE when all that is left are orders
  by design not delivered, at least one of them after the cutover; and a healthy no-op when every order was
  before the cutover.\<close>
theorem health_says_what_happened:
  assumes "evaluate_production p xs = Inr (ws, d)"
  shows "\<exists>vs. list_all2 (\<lambda>x v. verdict_of p x = Inr v) xs vs \<and>
    (let refused = \<lambda>rs. \<exists>v \<in> set vs. \<exists>r \<in> set rs. refused_as r v;
         attention = refused NEEDS_ATTENTION_REFUSALS;
         waiting = refused SELF_RESOLVING_REFUSALS;
         delivered = (\<exists>v \<in> set vs. accepted v);
         past = (\<exists>v \<in> set vs. \<not> refused_as BEFORE_CUTOVER v)
     in health d = (if attention then BLOCKED else if waiting then DEFERRED
          else if delivered then DELIVERED else if past then NOT_ROUTABLE else HEALTHY_NO_OP)
        \<and> (is_healthy_no_op d \<longleftrightarrow> (\<forall>v \<in> set vs. refused_as BEFORE_CUTOVER v)))"
proof -
  from production_loop_tally [OF assms [unfolded evaluate_production_def]]
  obtain vs where vs: "list_all2 (\<lambda>x v. verdict_of p x = Inr v) xs vs"
    and d: "d ''eligible'' = tally accepted vs"
      "d ''orders_after_cutover'' = tally (\<lambda>v. \<not> refused_as BEFORE_CUTOVER v) vs"
      "\<And>y. d (REFUSAL_COUNTERS y) = tally (refused_as y) vs"
    by (auto simp: no_diagnostics_def)
  have "0 < blocked_orders d \<longleftrightarrow> (\<exists>v \<in> set vs. \<exists>r \<in> set NEEDS_ATTENTION_REFUSALS. refused_as r v)"
    unfolding blocked_orders_def d(3) sum_tally_pos refused_as_def ..
  moreover have "0 < deferred_orders d \<longleftrightarrow> (\<exists>v \<in> set vs. \<exists>r \<in> set SELF_RESOLVING_REFUSALS. refused_as r v)"
    unfolding deferred_orders_def d(3) sum_tally_pos refused_as_def ..
  moreover have "0 < d ''eligible'' \<longleftrightarrow> (\<exists>v \<in> set vs. accepted v)" by (simp add: d tally_pos)
  moreover have "0 < d ''orders_after_cutover'' \<longleftrightarrow> (\<exists>v \<in> set vs. \<not> refused_as BEFORE_CUTOVER v)"
    by (simp add: d tally_pos)
  ultimately show ?thesis using vs unfolding Let_def health_def is_healthy_no_op_def
    by (intro exI [of _ vs] conjI) (simp_all, metis neq0_conv)
qed

theorem health_says_what_happened_witness:
  "\<exists>ws d. evaluate_production sample_inputs [sample_order 0] = Inr (ws, d) \<and> health d = HEALTHY_NO_OP"
proof -
  have v: "verdict_of sample_inputs (sample_order 0) = Inr (None, Some BEFORE_CUTOVER, None)"
    by (simp add: verdict_of_def evaluate_order_def sample_inputs_def sample_order_def after_cutover)
  obtain ws d where run: "evaluate_production sample_inputs [sample_order 0] = Inr (ws, d)"
    unfolding evaluate_production_def
    using production_loop_total [of "[sample_order 0]" sample_inputs "[]" no_diagnostics]
    by (auto simp: sample_order_def simp del: production_loop.simps)
  from health_says_what_happened [OF run] have "health d = HEALTHY_NO_OP"
    by (auto simp: Let_def list_all2_Cons1 v refusal_triage)
  with run show ?thesis by blast
qed

end
