(* ===== verification/PyText.thy ===== *)
theory PyText
  imports TimeAxis
begin

text \<open>
  Python's \<open>str\<close> and \<open>repr\<close> of decoded JSON values, the text the sources put into their
  reports and counters. Strings are ASCII; a float is written from its shortest decimal text.
\<close>

definition show_int :: "int \<Rightarrow> string" where
  "show_int i = (if i < 0 then ''-'' else []) @ show_nat (nat \<bar>i\<bar>)"

fun join :: "string \<Rightarrow> string list \<Rightarrow> string" where
  "join sep [] = []"
| "join sep [s] = s"
| "join sep (s # ss) = s @ sep @ join sep ss"

text \<open>The number of decimal places of a finite decimal; 400 covers every binary64 value.\<close>

definition decimal_places :: "decimal \<Rightarrow> nat" where
  "decimal_places x = (case find (\<lambda>n. of_int \<lfloor>x * 10 ^ n\<rfloor> = x * 10 ^ n) [0..<400] of None \<Rightarrow> 0 | Some n \<Rightarrow> n)"

definition strip_zeros :: "string \<Rightarrow> string" where
  "strip_zeros s = (let t = rev (dropWhile (\<lambda>c. c = CHR ''0'') (rev s)) in if t = [] then ''0'' else t)"

definition exponent_text :: "nat \<Rightarrow> string" where
  "exponent_text n = (if n < 10 then ''0'' else []) @ show_nat n"

text \<open>\<open>repr(float)\<close>: positional for exponents between -4 and 16, scientific outside.\<close>

definition show_float :: "decimal \<Rightarrow> string" where
  "show_float x =
     (let n = decimal_places x;
          raw = show_nat (nat \<lfloor>\<bar>x\<bar> * 10 ^ n\<rfloor>);
          digits = strip_zeros raw;
          point = (if x = 0 then 1 else int (length raw) - int n);
          body =
            (if - 4 < point \<and> point \<le> 16 then
               (if point \<le> 0 then ''0.'' @ replicate (nat (- point)) (CHR ''0'') @ digits
                else if int (length digits) \<le> point
                     then digits @ replicate (nat point - length digits) (CHR ''0'') @ ''.0''
                else take (nat point) digits @ ''.'' @ drop (nat point) digits)
             else
               take 1 digits @ (if length digits = 1 then [] else ''.'' @ drop 1 digits)
                 @ ''e'' @ (if point - 1 < 0 then ''-'' else ''+'') @ exponent_text (nat \<bar>point - 1\<bar>))
      in (if x < 0 then ''-'' else []) @ body)"

definition hex_char :: "nat \<Rightarrow> char" where
  "hex_char n = ''0123456789abcdef'' ! n"

text \<open>\<open>repr(str)\<close> on ASCII text.\<close>

definition repr_char :: "char \<Rightarrow> char \<Rightarrow> string" where
  "repr_char q c =
     (if c = CHR 0x5C then [CHR 0x5C, CHR 0x5C]
      else if c = q then [CHR 0x5C, q]
      else if c = CHR 0x0A then [CHR 0x5C, CHR ''n'']
      else if c = CHR 0x0D then [CHR 0x5C, CHR ''r'']
      else if c = CHR 0x09 then [CHR 0x5C, CHR ''t'']
      else if of_char c < (32 :: nat) \<or> (127 :: nat) \<le> of_char c
           then [CHR 0x5C, CHR ''x'', hex_char (of_char c div 16), hex_char (of_char c mod 16)]
      else [c])"

definition repr_str :: "string \<Rightarrow> string" where
  "repr_str s =
     (let q = (if CHR 0x27 \<in> set s \<and> CHR 0x22 \<notin> set s then CHR 0x22 else CHR 0x27) in
      [q] @ concat (map (repr_char q) s) @ [q])"

fun py_repr :: "json \<Rightarrow> string" where
  "py_repr JNull = ''None''"
| "py_repr (JBool b) = (if b then ''True'' else ''False'')"
| "py_repr (JInt i) = show_int i"
| "py_repr (JFloat x) = show_float x"
| "py_repr (JStr s) = repr_str s"
| "py_repr (JList xs) = ''['' @ join '', '' (map py_repr xs) @ '']''"
| "py_repr (JObj ob) = ''{'' @ join '', '' (map (\<lambda>(k, v). repr_str k @ '': '' @ py_repr v) ob) @ ''}''"

definition py_str :: "json \<Rightarrow> string" where
  "py_str v = (case v of JStr s \<Rightarrow> s | _ \<Rightarrow> py_repr v)"

lemma py_str_JStr [simp]: "py_str (JStr s) = s"
  by (simp add: py_str_def)

end
