(* ===== verification/SettleWager.thy ===== *)
theory SettleWager
  imports Production Settlements PyText
begin

text \<open>
  \<^verbatim>\<open>settlement.py\<close>: what the exchange paid, attributed to one order or refused. A settlement is
  per market and position, a wager is one order; the module reads the per-contract price the exchange
  published and never splits a lump sum. Two economics contracts coexist: v1 subtracts the settlement
  fee, v2 subtracts nothing once the fee is proved to be the entry fees already inside the stakes.

  The lemmas: a money figure is absent exactly where a refusal names why; when v2 states a net and which;
  v1 charges a fee only to the single order of its position; every wager of a batch has its row; the
  returns of a shared position add up to the exchange's payment.
\<close>

definition ONE_DOLLAR :: decimal where "ONE_DOLLAR = 1"
definition SETTLED :: string where "SETTLED = ''SETTLED''"
definition PENDING :: string where "PENDING = ''PENDING''"
definition ECONOMICS_V1 :: string where "ECONOMICS_V1 = ''router-settlement-economics.v1''"
definition ECONOMICS_V2 :: string where "ECONOMICS_V2 = ''router-settlement-economics.v2''"
definition FEE_TOLERANCE :: decimal where "FEE_TOLERANCE = 5 / 100000"
definition WON :: string where "WON = ''WON''"
definition LOST :: string where "LOST = ''LOST''"

datatype return_refusal = NO_SETTLEMENT_PRICE | SHARED_POSITION_FEE | NOT_SETTLED | FEE_NOT_RECONCILED

record wager_settlement =
  ws_source_bet_key :: string
  ws_market_ticker :: string
  ws_side :: string
  ws_settlement_status :: string
  ws_settled_at :: "string option"
  ws_result :: "string option"
  ws_gross_return :: "decimal option"
  ws_net_profit_loss :: "decimal option"
  ws_refusals :: "return_refusal list"
  ws_economics_version :: string

definition is_established :: "wager_settlement \<Rightarrow> bool" where
  "is_established s \<longleftrightarrow> ws_gross_return s \<noteq> None \<and> ws_net_profit_loss s \<noteq> None"

text \<open>What the module reads of a wager. The production wager states all of it; \<open>total_fees\<close> and \<open>sport\<close>
  are read with \<open>getattr\<close> and may be missing.\<close>

record settleable =
  v_source_key :: string
  v_market_ticker :: string
  v_side :: "string option"
  v_sport :: "string option"
  v_contracts :: decimal
  v_vwap_price :: decimal
  v_stake :: decimal
  v_total_fees :: "decimal option"

definition settleable_of :: "production_wager \<Rightarrow> settleable" where
  "settleable_of w = \<lparr>v_source_key = w_source_key w, v_market_ticker = w_market_ticker w, v_side = Some (w_side w),
     v_sport = Some (w_sport w), v_contracts = w_contracts w, v_vwap_price = w_vwap_price w,
     v_stake = w_stake w, v_total_fees = Some (w_total_fees w)\<rparr>"

definition or_empty :: "string option \<Rightarrow> string" where
  "or_empty s = (case s of None \<Rightarrow> [] | Some t \<Rightarrow> t)"

definition wager_side :: "settleable \<Rightarrow> string" where
  "wager_side w = py_upper (py_strip (or_empty (v_side w)))"

definition result_for_side :: "normalized_settlement \<Rightarrow> string \<Rightarrow> string option" where
  "result_for_side s side =
     (let outcome = py_lower (py_strip (s_market_result s)) in
      if outcome \<notin> {''yes'', ''no''} then None
      else if side \<notin> {''YES'', ''NO''} then None
      else Some (if outcome = py_lower side then WON else LOST))"

definition settle_v2 ::
  "settleable \<Rightarrow> normalized_settlement \<Rightarrow> string \<Rightarrow> string option \<Rightarrow> decimal \<Rightarrow> decimal option \<Rightarrow> wager_settlement" where
  "settle_v2 w s side res gross entry_fees =
     (let base = \<lparr>ws_source_bet_key = v_source_key w, ws_market_ticker = v_market_ticker w, ws_side = side,
            ws_settlement_status = SETTLED, ws_settled_at = Some (s_settled_time s), ws_result = res,
            ws_gross_return = Some gross, ws_net_profit_loss = None, ws_refusals = [],
            ws_economics_version = ECONOMICS_V2\<rparr>;
          reconciled = (case entry_fees of None \<Rightarrow> False | Some entry \<Rightarrow>
            (case s_fee_dollars s of None \<Rightarrow> entry = 0 | Some fee \<Rightarrow> dabs (dsub fee entry) \<le> FEE_TOLERANCE))
      in if \<not> reconciled then base\<lparr>ws_refusals := [FEE_NOT_RECONCILED]\<rparr>
         else base\<lparr>ws_net_profit_loss := Some (dsub gross (v_stake w))\<rparr>)"

definition settle_wager ::
  "settleable \<Rightarrow> normalized_settlement option \<Rightarrow> nat \<Rightarrow> string \<Rightarrow> decimal option \<Rightarrow> wager_settlement result" where
  "settle_wager w settlement orders_on_this_position economics_version entry_fees =
     (let side = wager_side w;
          row = \<lparr>ws_source_bet_key = v_source_key w, ws_market_ticker = v_market_ticker w, ws_side = side,
            ws_settlement_status = PENDING, ws_settled_at = None, ws_result = None, ws_gross_return = None,
            ws_net_profit_loss = None, ws_refusals = [], ws_economics_version = ECONOMICS_V1\<rparr>
      in case settlement of
        None \<Rightarrow> Inr (row\<lparr>ws_refusals := [NOT_SETTLED]\<rparr>)
      | Some s \<Rightarrow>
          let res = result_for_side s side;
              settled = row\<lparr>ws_settlement_status := SETTLED, ws_settled_at := Some (s_settled_time s), ws_result := res\<rparr>
          in case s_market_value_dollars s of
            None \<Rightarrow> Inr (settled\<lparr>ws_refusals := [NO_SETTLEMENT_PRICE]\<rparr>)
          | Some value \<Rightarrow>
              let per_contract = (if side = ''YES'' then value else dsub ONE_DOLLAR value);
                  gross = dmul per_contract (v_contracts w)
              in if economics_version = ECONOMICS_V2 then Inr (settle_v2 w s side res gross entry_fees)
              else if economics_version \<noteq> ECONOMICS_V1 then Inl ValueError
              else
                let fee = (case s_fee_dollars s of None \<Rightarrow> 0 | Some f \<Rightarrow> f) in
                if fee \<noteq> 0 \<and> 1 < orders_on_this_position
                then Inr (settled\<lparr>ws_gross_return := Some gross, ws_refusals := [SHARED_POSITION_FEE]\<rparr>)
                else Inr (settled\<lparr>ws_gross_return := Some gross,
                       ws_net_profit_loss := Some (dsub (dsub gross (v_stake w)) fee)\<rparr>))"

section \<open>A batch\<close>

definition add_entry_fee :: "settleable \<Rightarrow> (string, decimal option) dict \<Rightarrow> (string, decimal option) dict" where
  "add_entry_fee w out =
     (let t = v_market_ticker w in
      if dget out t = Some None then out
      else dput t (case v_total_fees w of
          None \<Rightarrow> None
        | Some fee \<Rightarrow> Some (dadd (case dget out t of Some (Some x) \<Rightarrow> x | _ \<Rightarrow> 0) fee)) out)"

definition market_entry_fees :: "settleable list \<Rightarrow> (string, decimal option) dict" where
  "market_entry_fees ws = foldl (\<lambda>out w. add_entry_fee w out) [] ws"

definition wager_position :: "settleable \<Rightarrow> string \<times> string" where
  "wager_position w = (v_market_ticker w, wager_side w)"

definition orders_by_position :: "settleable list \<Rightarrow> (string \<times> string, nat) dict" where
  "orders_by_position ws = foldl (\<lambda>counts w. dbump (wager_position w) counts) [] ws"

definition settle_batch ::
  "settleable list \<Rightarrow> (string, normalized_settlement) dict \<Rightarrow> (string, string) dict \<Rightarrow> wager_settlement list result" where
  "settle_batch ws settlements_by_ticker economics_by_sport =
     (let positions = orders_by_position ws; entry = market_entry_fees ws in
      traverse (\<lambda>w.
        settle_wager w (dget settlements_by_ticker (v_market_ticker w))
          (case dget positions (wager_position w) of None \<Rightarrow> 1 | Some n \<Rightarrow> n)
          (case v_sport w of None \<Rightarrow> ECONOMICS_V1
           | Some sp \<Rightarrow> (case dget economics_by_sport sp of None \<Rightarrow> ECONOMICS_V1 | Some e \<Rightarrow> e))
          (case dget entry (v_market_ticker w) of None \<Rightarrow> None | Some f \<Rightarrow> f)) ws)"

section \<open>What the settlement fee is\<close>

text \<open>Here the side is upper-cased but not stripped, as the code has it. A missing fee is the TypeError of
  adding \<open>None\<close>; the sport is read of the first wager of the market.\<close>

definition evidence_side :: "settleable \<Rightarrow> string" where
  "evidence_side w = py_upper (or_empty (v_side w))"

definition sport_text :: "string option \<Rightarrow> string" where
  "sport_text s = (case s of None \<Rightarrow> ''None'' | Some t \<Rightarrow> t)"

definition position_shape :: "settleable list \<Rightarrow> string" where
  "position_shape ws =
     (if 1 < length (remdups (map evidence_side ws)) then ''YES_NO_PAIR''
      else if length ws = 1 then ''ONE_ORDER'' else ''SAME_SIDE_ORDERS'')"

definition fee_verdict :: "decimal option \<Rightarrow> decimal \<Rightarrow> string" where
  "fee_verdict fee entry =
     (case fee of None \<Rightarrow> ''FEE_COST_ABSENT'' | Some f \<Rightarrow>
        if dabs (dsub f entry) \<le> FEE_TOLERANCE then ''FEE_COST_EQUALS_ENTRY_FEES''
        else if entry < f then ''FEE_COST_GREATER'' else ''FEE_COST_LESS'')"

definition cost_verdict :: "decimal \<Rightarrow> settleable list \<Rightarrow> string" where
  "cost_verdict cost legs =
     (let principal = dsum (map (\<lambda>w. dmul (v_vwap_price w) (v_contracts w)) legs);
          stake = dsum (map v_stake legs);
          tolerance = dmul FEE_TOLERANCE 10
      in if dabs (dsub cost principal) \<le> tolerance then ''EQUALS_PRINCIPAL_EXCL_FEES''
         else if dabs (dsub cost stake) \<le> tolerance then ''EQUALS_STAKE_INCL_FEES''
         else ''MATCHES_NEITHER'')"

definition evidence_keys :: "settleable list \<Rightarrow> normalized_settlement \<Rightarrow> string list result" where
  "evidence_keys ws s =
     rbind (traverse (\<lambda>w. case v_total_fees w of None \<Rightarrow> Inl TypeError | Some f \<Rightarrow> Inr f) ws) (\<lambda>fees.
       let sp = sport_text (v_sport (hd ws));
           key = (\<lambda>shape verdict. sp @ ''|'' @ shape @ ''|'' @ verdict)
       in Inr (key (position_shape ws) (fee_verdict (s_fee_dollars s) (dsum fees))
            # concat (map (\<lambda>(leg, cost).
                let legs = filter (\<lambda>w. evidence_side w = leg) ws in
                case cost of None \<Rightarrow> [] | Some c \<Rightarrow>
                  if legs = [] then [] else [key ''COST_BASIS'' (cost_verdict c legs)])
                [(''YES'', s_yes_cost_dollars s), (''NO'', s_no_cost_dollars s)])))"

fun fee_evidence_loop ::
  "(string, settleable list) dict \<Rightarrow> (string, normalized_settlement) dict \<Rightarrow> (string, nat) dict
    \<Rightarrow> (string, nat) dict result" where
  "fee_evidence_loop [] settlements out = Inr out"
| "fee_evidence_loop ((t, ws) # rest) settlements out =
     (case dget settlements t of
        None \<Rightarrow> fee_evidence_loop rest settlements out
      | Some s \<Rightarrow> rbind (evidence_keys ws s) (\<lambda>ks. fee_evidence_loop rest settlements (foldl (\<lambda>d k. dbump k d) out ks)))"

definition fee_evidence ::
  "settleable list \<Rightarrow> (string, normalized_settlement) dict \<Rightarrow> (string, nat) dict result" where
  "fee_evidence ws settlements =
     rbind (fee_evidence_loop (group_by v_market_ticker ws) settlements []) (\<lambda>out. Inr (sort_key fst out))"

section \<open>What a row says\<close>

lemmas settle_defs = settle_wager_def settle_v2_def is_established_def

lemma settle_wager_cases:
  assumes "settle_wager w settlement n v entry = Inr r"
  obtains (pending) "settlement = None" "ws_refusals r = [NOT_SETTLED]" "ws_gross_return r = None"
      "ws_net_profit_loss r = None" "ws_settlement_status r = PENDING"
  | (unpriced) s where "settlement = Some s" "s_market_value_dollars s = None" "ws_refusals r = [NO_SETTLEMENT_PRICE]"
      "ws_gross_return r = None" "ws_net_profit_loss r = None" "ws_settlement_status r = SETTLED"
  | (priced) s p where "settlement = Some s" "s_market_value_dollars s = Some p" "v = ECONOMICS_V1 \<or> v = ECONOMICS_V2"
      "ws_gross_return r = Some (dmul (if wager_side w = ''YES'' then p else dsub ONE_DOLLAR p) (v_contracts w))"
      "ws_settlement_status r = SETTLED"
      "ws_net_profit_loss r = None \<and> ws_refusals r \<in> {[SHARED_POSITION_FEE], [FEE_NOT_RECONCILED]}
        \<or> ws_net_profit_loss r \<noteq> None \<and> ws_refusals r = []"
proof (cases settlement)
  case None
  then show ?thesis using assms pending by (auto simp: settle_wager_def Let_def)
next
  case (Some s)
  show ?thesis
  proof (cases "s_market_value_dollars s")
    case None
    then show ?thesis using assms Some unpriced [of s] by (auto simp: settle_wager_def Let_def)
  next
    case p: (Some p)
    show ?thesis using assms Some p
      by (intro priced [of s p]) (auto simp: settle_wager_def settle_v2_def Let_def split: if_splits)
  qed
qed

text \<open>A settlement row never invents or hides money. A refusal is present exactly when a figure is absent, and
  there is at most one; a net is never stated without the gross; a wager is pending exactly when the exchange
  has not settled its market, and then it states no figure at all.\<close>
theorem settlement_row_is_honest:
  assumes "settle_wager w settlement n v entry = Inr r"
  shows "(is_established r \<longleftrightarrow> ws_refusals r = []) \<and> length (ws_refusals r) \<le> 1
    \<and> (ws_net_profit_loss r \<noteq> None \<longrightarrow> ws_gross_return r \<noteq> None)
    \<and> (ws_settlement_status r = PENDING \<longleftrightarrow> settlement = None)
    \<and> (settlement = None \<longrightarrow> ws_gross_return r = None \<and> ws_result r = None \<and> ws_settled_at r = None)
    \<and> ws_source_bet_key r = v_source_key w \<and> ws_market_ticker r = v_market_ticker w \<and> ws_side r = wager_side w"
proof -
  have ids: "ws_source_bet_key r = v_source_key w \<and> ws_market_ticker r = v_market_ticker w \<and> ws_side r = wager_side w"
    using assms by (auto simp: settle_defs Let_def split: option.splits if_splits)
  have quiet: "settlement = None \<longrightarrow> ws_gross_return r = None \<and> ws_result r = None \<and> ws_settled_at r = None"
    using assms by (auto simp: settle_wager_def Let_def)
  from assms show ?thesis
    by (cases rule: settle_wager_cases)
       (use ids quiet in \<open>auto simp: is_established_def PENDING_def SETTLED_def\<close>)
qed

definition sample_settled :: "decimal \<Rightarrow> decimal \<Rightarrow> normalized_settlement" where
  "sample_settled value fee = \<lparr>s_ticker = ''T'', s_settled_time = ''2026-09-21T00:00:00Z'', s_market_result = ''yes'',
     s_revenue_dollars = 20, s_market_value_dollars = Some value, s_fee_dollars = Some fee,
     s_yes_count = Some 20, s_no_count = Some 0, s_yes_cost_dollars = None, s_no_cost_dollars = None\<rparr>"

definition sample_wager :: "string \<Rightarrow> string \<Rightarrow> settleable" where
  "sample_wager key side = \<lparr>v_source_key = key, v_market_ticker = ''T'', v_side = Some side, v_sport = Some ''NFL'',
     v_contracts = 10, v_vwap_price = 1 / 2, v_stake = 51 / 10, v_total_fees = Some (1 / 10)\<rparr>"

lemma sample_side [simp]:
  "wager_side (sample_wager k ''YES'') = ''YES''" "wager_side (sample_wager k ''NO'') = ''NO''"
  by (simp_all add: wager_side_def sample_wager_def or_empty_def) code_simp+

lemma sample_fields [simp]:
  "v_source_key (sample_wager k side) = k" "v_market_ticker (sample_wager k side) = ''T''"
  "v_contracts (sample_wager k side) = 10" "v_stake (sample_wager k side) = 51 / 10"
  "v_total_fees (sample_wager k side) = Some (1 / 10)" "v_sport (sample_wager k side) = Some ''NFL''"
  "s_market_value_dollars (sample_settled value fee) = Some value" "s_fee_dollars (sample_settled value fee) = Some fee"
  by (simp_all add: sample_wager_def sample_settled_def)

theorem settlement_row_is_honest_witness:
  "\<exists>r. settle_wager (sample_wager ''K'' ''YES'') None 1 ECONOMICS_V1 None = Inr r
    \<and> \<not> is_established r \<and> length (ws_refusals r) \<le> 1"
proof -
  obtain r where r: "settle_wager (sample_wager ''K'' ''YES'') None 1 ECONOMICS_V1 None = Inr r"
    by (simp add: settle_wager_def Let_def)
  from settlement_row_is_honest [OF r] show ?thesis using r by (auto simp: is_established_def)
qed

section \<open>The second contract\<close>

text \<open>C23: under the v2 contract a net is stated exactly when the exchange stated a price and its cumulative fee is
  shown to be the entry fees of the orders on that market, to within the tolerance (an absent fee only
  with no entry fee at all); it is then the gross less the stake, with nothing charged twice.\<close>
theorem v2_net_iff_fee_reconciled:
  assumes "settle_wager w (Some s) n ECONOMICS_V2 entry = Inr r"
  shows "(ws_net_profit_loss r \<noteq> None \<longleftrightarrow>
      s_market_value_dollars s \<noteq> None
      \<and> (\<exists>total. entry = Some total \<and> (case s_fee_dollars s of None \<Rightarrow> total = 0
           | Some fee \<Rightarrow> \<bar>dsub fee total\<bar> \<le> FEE_TOLERANCE)))
    \<and> (\<forall>net. ws_net_profit_loss r = Some net \<longrightarrow>
         (\<exists>gross. ws_gross_return r = Some gross \<and> net = dsub gross (v_stake w)))"
proof -
  have d: "dabs (dsub x y) = \<bar>dsub x y\<bar>" for x y by (rule dabs_drep) simp
  show ?thesis
    using assms
    by (cases entry; cases "s_fee_dollars s"; cases "s_market_value_dollars s")
       (auto simp: settle_wager_def settle_v2_def Let_def d split: if_splits)
qed

theorem v2_net_iff_fee_reconciled_witness:
  "\<exists>r. settle_wager (sample_wager ''K'' ''YES'') (Some (sample_settled 1 (1 / 10))) 1 ECONOMICS_V2 (Some (1 / 10)) = Inr r
    \<and> ws_net_profit_loss r = Some (49 / 10)"
proof -
  let ?s = "sample_settled 1 (1 / 10)"
  obtain r where r: "settle_wager (sample_wager ''K'' ''YES'') (Some ?s) 1 ECONOMICS_V2 (Some (1 / 10)) = Inr r"
    by (simp add: settle_wager_def Let_def)
  have fee: "\<bar>dsub (1 / 10) (1 / 10)\<bar> \<le> FEE_TOLERANCE" by (simp add: FEE_TOLERANCE_def dsub_def dec.rnd_0)
  with v2_net_iff_fee_reconciled [OF r] obtain net gross where
    n: "ws_net_profit_loss r = Some net" "ws_gross_return r = Some gross" "net = dsub gross (51 / 10)"
    by auto
  from r have "gross = dmul 1 10"
    by (rule settle_wager_cases) (use n in auto)
  with r n show ?thesis by (simp add: dec_eval)
qed

section \<open>A batch\<close>

lemma dget_orders_by_position:
  "dget (orders_by_position ws) k =
     (if \<exists>w \<in> set ws. wager_position w = k then Some (length (filter (\<lambda>w. wager_position w = k) ws)) else None)"
  unfolding orders_by_position_def by (rule dget_count_by)

lemma add_entry_fee_other: "t \<noteq> v_market_ticker w \<Longrightarrow> dget (add_entry_fee w out) t = dget out t"
  by (simp add: add_entry_fee_def Let_def)

lemma dget_market_entry_fees:
  "dget (market_entry_fees ws) t =
     (let here = filter (\<lambda>w. v_market_ticker w = t) ws in
      if here = [] then None
      else if \<exists>w \<in> set here. v_total_fees w = None then Some None
      else Some (Some (dsum (map (the \<circ> v_total_fees) here))))"
proof (induction ws arbitrary: t rule: rev_induct)
  case Nil
  then show ?case by (simp add: market_entry_fees_def)
next
  case (snoc w ws)
  have step: "market_entry_fees (ws @ [w]) = add_entry_fee w (market_entry_fees ws)"
    by (simp add: market_entry_fees_def)
  show ?case
  proof (cases "v_market_ticker w = t")
    case False
    then show ?thesis by (simp add: step add_entry_fee_other snoc.IH)
  next
    case True
    show ?thesis
      by (cases "v_total_fees w")
         (auto simp: step add_entry_fee_def Let_def True snoc.IH dsum_snoc filter_empty_conv)
  qed
qed

text \<open>The rows of a batch are those of its wagers, each with the size of its own position.\<close>

lemma settle_batch_rows:
  assumes "settle_batch ws settlements economics = Inr rs"
  shows "list_all2 (\<lambda>w r. \<exists>e. settle_wager w (dget settlements (v_market_ticker w))
    (length (filter (\<lambda>x. wager_position x = wager_position w) ws)) e
    (case dget (market_entry_fees ws) (v_market_ticker w) of None \<Rightarrow> None | Some f \<Rightarrow> f) = Inr r
    \<and> (e = ECONOMICS_V1 \<or> (\<exists>sp. v_sport w = Some sp \<and> dget economics sp = Some e))) ws rs"
proof -
  from assms have "length rs = length ws"
    by (auto simp: settle_batch_def Let_def dest: traverse_length)
  moreover have "\<exists>e. settle_wager (ws ! i) (dget settlements (v_market_ticker (ws ! i)))
      (length (filter (\<lambda>x. wager_position x = wager_position (ws ! i)) ws)) e
      (case dget (market_entry_fees ws) (v_market_ticker (ws ! i)) of None \<Rightarrow> None | Some f \<Rightarrow> f) = Inr (rs ! i)
    \<and> (e = ECONOMICS_V1 \<or> (\<exists>sp. v_sport (ws ! i) = Some sp \<and> dget economics sp = Some e))"
    if i: "i < length ws" for i
  proof -
    have "\<exists>w \<in> set ws. wager_position w = wager_position (ws ! i)" using i by auto
    then have n: "dget (orders_by_position ws) (wager_position (ws ! i))
        = Some (length (filter (\<lambda>x. wager_position x = wager_position (ws ! i)) ws))"
      by (simp add: dget_orders_by_position)
    let ?e = "case v_sport (ws ! i) of None \<Rightarrow> ECONOMICS_V1
       | Some sp \<Rightarrow> (case dget economics sp of None \<Rightarrow> ECONOMICS_V1 | Some e \<Rightarrow> e)"
    have "settle_wager (ws ! i) (dget settlements (v_market_ticker (ws ! i)))
      (length (filter (\<lambda>x. wager_position x = wager_position (ws ! i)) ws)) ?e
      (case dget (market_entry_fees ws) (v_market_ticker (ws ! i)) of None \<Rightarrow> None | Some f \<Rightarrow> f) = Inr (rs ! i)"
      using assms i n unfolding settle_batch_def Let_def traverse_Inr_iff by (auto dest: list_all2_nthD)
    then show ?thesis by (intro exI [of _ ?e]) (auto split: option.splits)
  qed
  ultimately show ?thesis unfolding list_all2_conv_all_nth by simp
qed

lemma settle_wager_gross:
  "settle_wager w (Some s) n v entry = Inr r \<Longrightarrow> s_market_value_dollars s = Some p \<Longrightarrow>
    ws_gross_return r = Some (dmul (if wager_side w = ''YES'' then p else dsub ONE_DOLLAR p) (v_contracts w))"
  by (auto simp: settle_wager_def settle_v2_def Let_def split: if_splits)

text \<open>With known contracts only, a batch never raises.\<close>

lemma settle_wager_total: "v = ECONOMICS_V1 \<or> v = ECONOMICS_V2 \<Longrightarrow> \<exists>r. settle_wager w settlement n v entry = Inr r"
  by (auto simp: settle_wager_def Let_def split: option.split)

lemma traverse_total: "\<forall>x \<in> set xs. \<exists>y. f x = Inr y \<Longrightarrow> \<exists>ys. traverse f xs = Inr ys"
  by (induction xs) auto

lemma settle_batch_total:
  assumes "\<forall>sp e. dget economics sp = Some e \<longrightarrow> e = ECONOMICS_V1 \<or> e = ECONOMICS_V2"
  shows "\<exists>rs. settle_batch ws settlements economics = Inr rs"
  unfolding settle_batch_def Let_def
  by (intro traverse_total ballI settle_wager_total) (use assms in \<open>auto split: option.splits\<close>)

lemma settle_wager_v1: "settle_wager w settlement n ECONOMICS_V1 entry = Inr r \<Longrightarrow> ws_economics_version r = ECONOMICS_V1"
  by (auto simp: settle_wager_def settle_v2_def Let_def ECONOMICS_V1_def ECONOMICS_V2_def split: option.splits if_splits)

lemma settle_wager_key: "settle_wager w settlement n v entry = Inr r \<Longrightarrow> ws_source_bet_key r = v_source_key w"
  by (auto simp: settle_defs Let_def split: option.splits if_splits)

text \<open>What an established row with a fee rests on, by contract.\<close>

lemma established_with_fee:
  assumes "settle_wager w (Some s) n v entry = Inr r" and "s_fee_dollars s = Some fee" "fee \<noteq> 0"
    and "ws_net_profit_loss r \<noteq> None"
  shows "if ws_economics_version r = ECONOMICS_V1 then n \<le> 1
    else \<exists>total. entry = Some total \<and> \<bar>dsub fee total\<bar> \<le> FEE_TOLERANCE"
proof -
  have d: "dabs (dsub x y) = \<bar>dsub x y\<bar>" for x y by (rule dabs_drep) simp
  have ne: "ECONOMICS_V2 \<noteq> ECONOMICS_V1" by (simp add: ECONOMICS_V1_def ECONOMICS_V2_def)
  show ?thesis
    using assms by (auto simp: settle_wager_def settle_v2_def Let_def d ne split: option.splits if_splits)
qed

text \<open>C24: settling a batch gives every wager its row, in order, and never apportions a fee. Where the exchange
  charged one and a net is nevertheless stated, either the row is v1 and the wager is the only order of its
  market and side, or it is v2 and the fee is, to the tolerance, the sum of the entry fees of every order on
  that market, all of them known.\<close>
theorem batch_never_splits_a_fee:
  assumes "settle_batch ws settlements economics = Inr rs"
  shows "map ws_source_bet_key rs = map v_source_key ws
    \<and> (\<forall>i < length ws. \<forall>s fee. dget settlements (v_market_ticker (ws ! i)) = Some s \<and> s_fee_dollars s = Some fee
        \<and> fee \<noteq> 0 \<and> ws_net_profit_loss (rs ! i) \<noteq> None \<longrightarrow>
        (if ws_economics_version (rs ! i) = ECONOMICS_V1
         then length (filter (\<lambda>x. wager_position x = wager_position (ws ! i)) ws) = 1
         else let here = filter (\<lambda>w. v_market_ticker w = v_market_ticker (ws ! i)) ws in
           (\<forall>w \<in> set here. v_total_fees w \<noteq> None)
           \<and> \<bar>dsub fee (dsum (map (the \<circ> v_total_fees) here))\<bar> \<le> FEE_TOLERANCE))"
proof (intro conjI allI impI)
  note rows = settle_batch_rows [OF assms]
  have len: "length rs = length ws" using rows by (simp add: list_all2_lengthD)
  show "map ws_source_bet_key rs = map v_source_key ws"
    by (rule nth_equalityI) (use rows in \<open>auto simp: len dest!: list_all2_nthD settle_wager_key\<close>)
  fix i s fee
  assume i: "i < length ws" and h: "dget settlements (v_market_ticker (ws ! i)) = Some s \<and> s_fee_dollars s = Some fee
    \<and> fee \<noteq> 0 \<and> ws_net_profit_loss (rs ! i) \<noteq> None"
  let ?here = "filter (\<lambda>w. v_market_ticker w = v_market_ticker (ws ! i)) ws"
  let ?entry = "case dget (market_entry_fees ws) (v_market_ticker (ws ! i)) of None \<Rightarrow> None | Some f \<Rightarrow> f"
  let ?n = "length (filter (\<lambda>x. wager_position x = wager_position (ws ! i)) ws)"
  from list_all2_nthD [OF rows i] obtain e where
    "settle_wager (ws ! i) (Some s) ?n e ?entry = Inr (rs ! i)" using h by auto
  then have row: "if ws_economics_version (rs ! i) = ECONOMICS_V1 then ?n \<le> 1
      else \<exists>total. ?entry = Some total \<and> \<bar>dsub fee total\<bar> \<le> FEE_TOLERANCE"
    using h by (intro established_with_fee) auto
  have "ws ! i \<in> set (filter (\<lambda>x. wager_position x = wager_position (ws ! i)) ws)" using i by simp
  then have "1 \<le> ?n" by (metis One_nat_def Suc_leI length_pos_if_in_set)
  moreover have "?here \<noteq> []" using i by (auto simp: filter_empty_conv)
  ultimately show "if ws_economics_version (rs ! i) = ECONOMICS_V1 then ?n = 1
     else let here = ?here in (\<forall>w \<in> set here. v_total_fees w \<noteq> None)
       \<and> \<bar>dsub fee (dsum (map (the \<circ> v_total_fees) here))\<bar> \<le> FEE_TOLERANCE"
    using row unfolding dget_market_entry_fees Let_def by (auto split: if_splits)
qed

theorem batch_never_splits_a_fee_witness:
  "\<exists>rs. settle_batch [sample_wager ''A'' ''YES'', sample_wager ''B'' ''YES''] [(''T'', sample_settled 1 (1 / 10))] [] = Inr rs
    \<and> map ws_source_bet_key rs = [''A'', ''B''] \<and> ws_net_profit_loss (rs ! 0) = None"
proof -
  let ?ws = "[sample_wager ''A'' ''YES'', sample_wager ''B'' ''YES'']"
  obtain rs where rs: "settle_batch ?ws [(''T'', sample_settled 1 (1 / 10))] [] = Inr rs"
    using settle_batch_total [of "[]"] by auto
  from list_all2_nthD [OF settle_batch_rows [OF rs], of 0] have v: "ws_economics_version (rs ! 0) = ECONOMICS_V1"
    by (auto dest: settle_wager_v1)
  have pos: "wager_position (sample_wager k ''YES'') = (''T'', ''YES'')" for k by (simp add: wager_position_def)
  have keys: "map ws_source_bet_key rs = [''A'', ''B'']"
    using batch_never_splits_a_fee [OF rs] by simp
  have two: "length (filter (\<lambda>x. wager_position x = wager_position (?ws ! 0)) ?ws) = 2" by (simp add: pos)
  have "ws_net_profit_loss (rs ! 0) = None"
  proof (rule ccontr)
    assume "ws_net_profit_loss (rs ! 0) \<noteq> None"
    then have h: "dget [(''T'', sample_settled 1 (1 / 10))] (v_market_ticker (?ws ! 0)) = Some (sample_settled 1 (1 / 10))
      \<and> s_fee_dollars (sample_settled 1 (1 / 10)) = Some (1 / 10) \<and> (1 / 10 :: decimal) \<noteq> 0
      \<and> ws_net_profit_loss (rs ! 0) \<noteq> None" by simp
    have "0 < length ?ws" by simp
    note batch_never_splits_a_fee [OF rs, THEN conjunct2, rule_format, OF this h]
    then have "length (filter (\<lambda>x. wager_position x = wager_position (?ws ! 0)) ?ws) = 1"
      unfolding v if_P [OF refl] .
    then show False unfolding two by simp
  qed
  with rs keys show ?thesis by (intro exI [of _ rs] conjI)
qed

section \<open>The returns of a shared position add up\<close>

lemma gross_exact:
  assumes "grid 6 p" "0 \<le> p" "p \<le> 1" "grid 6 c" "0 \<le> c" "c \<le> 10 ^ 9"
  shows "dmul (if yes then p else dsub ONE_DOLLAR p) c = (if yes then p else 1 - p) * c"
proof -
  have "dsub ONE_DOLLAR p = 1 - p"
    unfolding ONE_DOLLAR_def by (rule dsub_exact, rule grid_drep [of 6 _ 1]) (use assms in simp_all)
  moreover have "drep (q * c)" if "grid 6 q" "0 \<le> q" "q \<le> 1" for q
  proof (rule grid_drep [of "6 + 6" _ 10])
    show "grid (6 + 6) (q * c)" using that assms by (intro grid_mult)
    have "\<bar>q * c\<bar> \<le> 1 * c" unfolding abs_mult using that assms by (intro mult_mono) auto
    then show "\<bar>q * c\<bar> < 10 ^ 10" using assms by simp
  qed simp
  ultimately show ?thesis using assms by (cases yes) (simp_all add: dmul_exact)
qed

text \<open>The returns of the orders that share a position add up exactly to the per-contract price the exchange
  published times the contracts of the position: no cent of it is lost or invented by attributing it order by
  order. (Prices and quantities have at most six decimals and a position at most a billion contracts.)\<close>
theorem position_returns_add_up:
  assumes "settle_batch ws settlements economics = Inr rs"
    and "dget settlements t = Some s" "s_market_value_dollars s = Some p" "grid 6 p" "0 \<le> p" "p \<le> 1"
    and "\<forall>w \<in> set ws. grid 6 (v_contracts w) \<and> 0 \<le> v_contracts w \<and> v_contracts w \<le> 10 ^ 9"
  shows "let shared = filter (\<lambda>(w, r). wager_position w = (t, side)) (zip ws rs) in
    (\<forall>(w, r) \<in> set shared. ws_gross_return r \<noteq> None)
    \<and> (\<Sum>(w, r)\<leftarrow>shared. the (ws_gross_return r))
       = (if side = ''YES'' then p else 1 - p) * (\<Sum>(w, r)\<leftarrow>shared. v_contracts w)"
proof -
  let ?per = "if side = ''YES'' then p else 1 - p"
  have each: "ws_gross_return r = Some (?per * v_contracts w)"
    if "(w, r) \<in> set (zip ws rs)" "wager_position w = (t, side)" for w r
  proof -
    from that(1) settle_batch_rows [OF assms(1)] obtain n e entry where
      "settle_wager w (dget settlements (v_market_ticker w)) n e entry = Inr r"
      unfolding list_all2_iff by fastforce
    moreover have "v_market_ticker w = t" "wager_side w = side" using that(2) by (simp_all add: wager_position_def)
    ultimately have row: "settle_wager w (Some s) n e entry = Inr r" using assms(2) by simp
    have w: "w \<in> set ws" using that(1) by (rule set_zip_leftD)
    from settle_wager_gross [OF row assms(3)]
    have "ws_gross_return r = Some (dmul (if side = ''YES'' then p else dsub ONE_DOLLAR p) (v_contracts w))"
      by (simp only: \<open>wager_side w = side\<close>)
    then show ?thesis using assms(7) w assms(4-6) by (simp only: gross_exact)
  qed
  have sum: "(\<Sum>(w, r)\<leftarrow>xs. the (ws_gross_return r)) = ?per * (\<Sum>(w, r)\<leftarrow>xs. v_contracts w)"
    if "\<forall>(w, r) \<in> set xs. ws_gross_return r = Some (?per * v_contracts w)" for xs
    using that by (induction xs) (auto simp: algebra_simps)
  show ?thesis unfolding Let_def by (intro conjI sum) (use each in auto)
qed

theorem position_returns_add_up_witness:
  "\<exists>rs. settle_batch [sample_wager ''A'' ''NO'', sample_wager ''B'' ''NO''] [(''T'', sample_settled (1 / 4) 0)] [] = Inr rs
    \<and> (\<Sum>(w, r)\<leftarrow>filter (\<lambda>(w, r). wager_position w = (''T'', ''NO''))
          (zip [sample_wager ''A'' ''NO'', sample_wager ''B'' ''NO''] rs). the (ws_gross_return r)) = 15"
proof -
  let ?ws = "[sample_wager ''A'' ''NO'', sample_wager ''B'' ''NO'']"
  obtain rs where rs: "settle_batch ?ws [(''T'', sample_settled (1 / 4) 0)] [] = Inr rs"
    using settle_batch_total [of "[]"] by auto
  have g: "grid 6 (1 / 4)" by (auto simp: grid_def)
  have pos: "wager_position (sample_wager k ''NO'') = (''T'', ''NO'')" for k by (simp add: wager_position_def)
  have len: "length rs = 2" using list_all2_lengthD [OF settle_batch_rows [OF rs]] by simp
  then obtain a b where ab: "rs = [a, b]" by (auto simp: numeral_2_eq_2 length_Suc_conv)
  have "\<forall>w \<in> set ?ws. grid 6 (v_contracts w) \<and> 0 \<le> v_contracts w \<and> v_contracts w \<le> 10 ^ 9" by simp
  from position_returns_add_up [OF rs _ _ g _ _ this, where t = "''T''" and side = "''NO''"] rs
  show ?thesis by (simp add: Let_def pos ab)
qed

end
