(* ===== verification/Client.thy ===== *)
theory Client
  imports PyText
begin

text \<open>
  \<^verbatim>\<open>http.py\<close>, \<^verbatim>\<open>client.py\<close> and the checks of \<^verbatim>\<open>config.py\<close> and
  \<^verbatim>\<open>safety.py\<close>: the bounded retry of one request, the allowlist of readable paths, and the cursor
  walks that turn pages into a history. The transport is a parameter whose n-th call may answer anything, so it
  stands for every stateful server; the JSON decoder and the random jitter are parameters too. The client keeps a log
  of its transport calls. Request headers (signing) are not modelled.

  The lemmas: a request ends after a bounded number of GET calls to an allowlisted path; a walk over a server with
  finitely many cursors ends; an exhausted walk yields the concatenation of the pages served.
\<close>

section \<open>Configuration and output guards\<close>

definition DEFAULT_BASE_URL :: string where
  "DEFAULT_BASE_URL = ''https://external-api.kalshi.com/trade-api/v2''"

definition MAX_FILLS_CEILING :: int where "MAX_FILLS_CEILING = 500"
definition PAGE_LIMIT_CEILING :: int where "PAGE_LIMIT_CEILING = 1000"

record audit_config =
  cfg_base_url :: string
  cfg_max_fills :: int
  cfg_page_limit :: int
  cfg_max_retries :: int

definition AuditConfig :: "audit_config \<Rightarrow> audit_config result" where
  "AuditConfig cfg =
     (if \<not> (1 \<le> cfg_max_fills cfg \<and> cfg_max_fills cfg \<le> MAX_FILLS_CEILING) then Inl ConfigurationError
      else if \<not> (1 \<le> cfg_page_limit cfg \<and> cfg_page_limit cfg \<le> PAGE_LIMIT_CEILING) then Inl ConfigurationError
      else if \<not> starts_with (cfg_base_url cfg) ''https://'' then Inl ConfigurationError
      else Inr cfg)"

definition text_or_empty :: "string option \<Rightarrow> string" where
  "text_or_empty s = (case s of None \<Rightarrow> [] | Some t \<Rightarrow> t)"

definition read_credentials :: "(string, string) dict \<Rightarrow> (string \<times> string) result" where
  "read_credentials source =
     (let key_id = py_strip (text_or_empty (dget source ''KALSHI_API_KEY_ID''));
          private_key = text_or_empty (dget source ''KALSHI_PRIVATE_KEY'')
      in if key_id = [] \<or> blank private_key then Inl ConfigurationError else Inr (key_id, private_key))"

definition base_url_from_env :: "(string, string) dict \<Rightarrow> string" where
  "base_url_from_env source =
     (let url = py_strip (text_or_empty (dget source ''KALSHI_API_BASE_URL'')) in
      if url = [] then DEFAULT_BASE_URL else url)"

definition CI_ENV_MARKERS :: "string list" where
  "CI_ENV_MARKERS = [''GITHUB_ACTIONS'', ''GITHUB_WORKFLOW'', ''GITHUB_RUN_ID'', ''CI'', ''BUILDKITE'', ''CIRCLECI'',
     ''GITLAB_CI'', ''JENKINS_URL'', ''TF_BUILD'']"

definition detected_ci_markers :: "(string, string) dict \<Rightarrow> string list" where
  "detected_ci_markers source = filter (\<lambda>name. \<not> blank (text_or_empty (dget source name))) CI_ENV_MARKERS"

definition assert_sensitive_output_allowed :: "(string, string) dict \<Rightarrow> unit result" where
  "assert_sensitive_output_allowed source =
     (if detected_ci_markers source \<noteq> [] then Inl SensitiveOutputRefused else Inr ())"

section \<open>One request\<close>

text \<open>\<open>Inl ()\<close> is a network failure; otherwise a status and a body.\<close>

type_synonym answer = "unit + (int \<times> string)"
type_synonym transport = "nat \<Rightarrow> string \<Rightarrow> string \<Rightarrow> answer"

definition RETRYABLE_STATUSES :: "int list" where
  "RETRYABLE_STATUSES = [429, 500, 502, 503, 504]"

definition raise_for_status :: "int \<Rightarrow> unit result" where
  "raise_for_status status =
     (if 200 \<le> status \<and> status < 300 then Inr ()
      else if status = 401 \<or> status = 403 then Inl (AuthenticationError status)
      else if status = 429 then Inl (RateLimitError status)
      else Inl (HttpStatusError status))"

definition unreserved :: "char \<Rightarrow> bool" where
  "unreserved c \<longleftrightarrow> is_digit c \<or> (CHR ''A'' \<le> c \<and> c \<le> CHR ''Z'') \<or> (CHR ''a'' \<le> c \<and> c \<le> CHR ''z'') \<or> c \<in> set ''_.-~''"

definition quote_char :: "char \<Rightarrow> string" where
  "quote_char c =
     (if unreserved c then [c]
      else if c = CHR '' '' then ''+''
      else [CHR ''%'', ''0123456789ABCDEF'' ! (of_char c div 16), ''0123456789ABCDEF'' ! (of_char c mod 16)])"

definition quote_plus :: "string \<Rightarrow> string" where
  "quote_plus s = concat (map quote_char s)"

definition urlencode :: "jobj \<Rightarrow> string" where
  "urlencode params = join ''&'' (map (\<lambda>(k, v). quote_plus k @ ''='' @ quote_plus (py_str v)) params)"

definition rstrip_slash :: "string \<Rightarrow> string" where
  "rstrip_slash s = rev (dropWhile (\<lambda>c. c = CHR ''/'') (rev s))"

definition build_url :: "string \<Rightarrow> string \<Rightarrow> jobj \<Rightarrow> string" where
  "build_url base_url path params =
     (let url = rstrip_slash base_url @ path; filtered = filter (\<lambda>(k, v). v \<noteq> JNull) params in
      if filtered = [] then url else url @ ''?'' @ urlencode filtered)"

text \<open>Full-jitter delays in binary64; \<open>jitter i\<close> is the i-th draw of \<open>random.random()\<close>.\<close>

definition backoff_delay :: "nat \<Rightarrow> rat \<Rightarrow> rat" where
  "backoff_delay attempt r = fround (min 8 (fround (1 / 2 * 2 ^ attempt)) * fround (1 / 2 + fround (r / 2)))"

definition backoff_delays :: "(nat \<Rightarrow> rat) \<Rightarrow> nat \<Rightarrow> int \<Rightarrow> rat list" where
  "backoff_delays jitter drawn max_retries =
     map (\<lambda>attempt. backoff_delay attempt (jitter (drawn + attempt))) [0..<nat max_retries]"

definition decode_json_object :: "(string \<Rightarrow> json option) \<Rightarrow> string \<Rightarrow> jobj result" where
  "decode_json_object decode body =
     (if body = [] then Inl SchemaError
      else case decode body of Some (JObj payload) \<Rightarrow> Inr payload | _ \<Rightarrow> Inl SchemaError)"

record telemetry =
  tm_requests :: nat
  tm_rate_limited :: nat
  tm_server_error :: nat
  tm_transport_error :: nat
  tm_backoff_seconds :: int
  tm_exhausted :: nat

definition no_telemetry :: telemetry where
  "no_telemetry = \<lparr>tm_requests = 0, tm_rate_limited = 0, tm_server_error = 0, tm_transport_error = 0,
     tm_backoff_seconds = 0, tm_exhausted = 0\<rparr>"

definition telemetry_retries :: "telemetry \<Rightarrow> nat" where
  "telemetry_retries t = tm_rate_limited t + tm_server_error t + tm_transport_error t"

record exchange =
  x_method :: string
  x_url :: string
  x_answer :: answer

record client =
  c_request_count :: nat
  c_telemetry :: telemetry
  c_log :: "exchange list"
  c_slept :: "rat list"

definition new_client :: client where
  "new_client = \<lparr>c_request_count = 0, c_telemetry = no_telemetry, c_log = [], c_slept = []\<rparr>"

text \<open>What one pass of the loop decides: return, raise, or try again after this error.\<close>

datatype attempt = Returned string | Raised py_error | Again py_error

definition success :: "int \<Rightarrow> bool" where
  "success status \<longleftrightarrow> 200 \<le> status \<and> status < 300"

definition attempt_outcome :: "answer \<Rightarrow> attempt" where
  "attempt_outcome ans = (case ans of
       Inl _ \<Rightarrow> Again TransportError
     | Inr (status, body) \<Rightarrow>
         if success status then Returned body
         else (case raise_for_status status of
             Inl e \<Rightarrow> if status \<in> set RETRYABLE_STATUSES then Again e else Raised e
           | Inr _ \<Rightarrow> Returned body))"

definition count_failure :: "answer \<Rightarrow> telemetry \<Rightarrow> telemetry" where
  "count_failure ans t = (case ans of
       Inl _ \<Rightarrow> t\<lparr>tm_transport_error := tm_transport_error t + 1\<rparr>
     | Inr (status, _) \<Rightarrow>
         if status = 429 then t\<lparr>tm_rate_limited := tm_rate_limited t + 1\<rparr>
         else t\<lparr>tm_server_error := tm_server_error t + 1\<rparr>)"

definition send :: "transport \<Rightarrow> string \<Rightarrow> client \<Rightarrow> answer \<times> client" where
  "send transport url c =
     (let ans = transport (length (c_log c)) ''GET'' url in
      (ans, c\<lparr>c_log := c_log c @ [\<lparr>x_method = ''GET'', x_url = url, x_answer = ans\<rparr>]\<rparr>))"

definition back_off :: "rat \<Rightarrow> client \<Rightarrow> client" where
  "back_off delay c =
     c\<lparr>c_telemetry := (c_telemetry c)\<lparr>tm_backoff_seconds := tm_backoff_seconds (c_telemetry c) + rhe delay\<rparr>,
       c_slept := c_slept c @ [delay]\<rparr>"

definition note_failure :: "answer \<Rightarrow> client \<Rightarrow> client" where
  "note_failure ans c = c\<lparr>c_telemetry := count_failure ans (c_telemetry c)\<rparr>"

definition exhaust :: "client \<Rightarrow> client" where
  "exhaust c = c\<lparr>c_telemetry := (c_telemetry c)\<lparr>tm_exhausted := tm_exhausted (c_telemetry c) + 1\<rparr>\<rparr>"

fun retry_loop :: "transport \<Rightarrow> string \<Rightarrow> rat list \<Rightarrow> client \<Rightarrow> string result \<times> client" where
  "retry_loop transport url delays c =
     (case send transport url c of (ans, c) \<Rightarrow>
      case attempt_outcome ans of
        Returned body \<Rightarrow> (Inr body, c)
      | Raised e \<Rightarrow> (Inl e, c)
      | Again e \<Rightarrow>
          (case delays of
             [] \<Rightarrow> (Inl e, exhaust (note_failure ans c))
           | delay # rest \<Rightarrow> retry_loop transport url rest (back_off delay (note_failure ans c))))"

declare retry_loop.simps [simp del]

definition request_with_retries ::
  "transport \<Rightarrow> (nat \<Rightarrow> rat) \<Rightarrow> string \<Rightarrow> int \<Rightarrow> client \<Rightarrow> string result \<times> client" where
  "request_with_retries transport jitter url max_retries c =
     (let delays = backoff_delays jitter (tm_requests (c_telemetry c) * nat max_retries) max_retries;
          c = c\<lparr>c_telemetry := (c_telemetry c)\<lparr>tm_requests := tm_requests (c_telemetry c) + 1\<rparr>\<rparr>
      in if max_retries < 0 then (Inl AssertionError, exhaust c)
         else retry_loop transport url delays c)"

section \<open>The read-only client\<close>

definition READ_ONLY_PATH_PREFIXES :: "string list" where
  "READ_ONLY_PATH_PREFIXES = [''/portfolio/fills'', ''/portfolio/positions'', ''/portfolio/settlements'',
     ''/historical/fills'', ''/historical/cutoff'', ''/historical/settlements'', ''/historical/markets/'',
     ''/markets/'', ''/events/'', ''/series/'', ''/search/filters_by_sport'', ''/milestones'']"

definition ACCOUNT_READ_ONLY_PATHS :: "string list" where
  "ACCOUNT_READ_ONLY_PATHS = [''/portfolio/balance'', ''/portfolio/orders'']"

definition PUBLIC_EXACT_PATHS :: "string list" where
  "PUBLIC_EXACT_PATHS = [''/markets'']"

definition ORDER_QUERY_PARAMS :: "string list" where
  "ORDER_QUERY_PARAMS = [''limit'', ''cursor'', ''status'', ''ticker'', ''min_ts'', ''max_ts'']"

definition ORDER_STATUSES :: "string list" where
  "ORDER_STATUSES = [''resting'', ''canceled'', ''executed'']"

definition MARKET_LIST_PARAMS :: "string list" where
  "MARKET_LIST_PARAMS = [''series_ticker'', ''event_ticker'', ''status'', ''limit'', ''cursor'']"

definition read_only :: "string \<Rightarrow> bool" where
  "read_only path \<longleftrightarrow> path \<in> set ACCOUNT_READ_ONLY_PATHS \<or> path \<in> set PUBLIC_EXACT_PATHS
     \<or> list_ex (starts_with path) READ_ONLY_PATH_PREFIXES"

text \<open>What a client is built on.\<close>

record environment =
  env_transport :: transport
  env_jitter :: "nat \<Rightarrow> rat"
  env_decode :: "string \<Rightarrow> json option"
  env_config :: audit_config

definition client_get :: "environment \<Rightarrow> string \<Rightarrow> jobj \<Rightarrow> client \<Rightarrow> jobj result \<times> client" where
  "client_get env path params c =
     (if \<not> read_only path then (Inl SchemaError, c)
      else case request_with_retries (env_transport env) (env_jitter env)
                 (build_url (cfg_base_url (env_config env)) path params) (cfg_max_retries (env_config env))
                 (c\<lparr>c_request_count := c_request_count c + 1\<rparr>) of (body, c) \<Rightarrow>
           (rbind body (decode_json_object (env_decode env)), c))"

definition require_list :: "jobj \<Rightarrow> string \<Rightarrow> json list result" where
  "require_list payload key = (case jget payload key of JList xs \<Rightarrow> Inr xs | _ \<Rightarrow> Inl SchemaError)"

definition require_object :: "jobj \<Rightarrow> string \<Rightarrow> jobj result" where
  "require_object payload key = (case jget payload key of JObj ob \<Rightarrow> Inr ob | _ \<Rightarrow> Inl SchemaError)"

definition next_cursor :: "jobj \<Rightarrow> string list \<Rightarrow> string option result" where
  "next_cursor payload seen =
     (let v = jget payload ''cursor'' in
      if \<not> truthy v then Inr None
      else case v of
          JStr cursor \<Rightarrow> if cursor \<in> set seen then Inl SchemaError else Inr (Some cursor)
        | _ \<Rightarrow> Inl SchemaError)"

record walk_stats =
  ws_pages :: nat
  ws_rows :: nat
  ws_exhausted :: bool
  ws_truncated :: bool

definition new_stats :: walk_stats where
  "new_stats = \<lparr>ws_pages = 0, ws_rows = 0, ws_exhausted = False, ws_truncated = False\<rparr>"

text \<open>A walk consumed to its end: the rows it yielded, its statistics, and the exception that ended it, if any.
  A budget of \<open>None\<close> is \<open>math.inf\<close>.\<close>

type_synonym walk = "jobj list \<times> walk_stats \<times> py_error option \<times> client"

datatype page_end = PageTaken | BudgetSpent | MalformedRow

definition spent :: "int option \<Rightarrow> bool" where
  "spent remaining = (case remaining of None \<Rightarrow> False | Some n \<Rightarrow> n \<le> 0)"

fun take_fills ::
  "json list \<Rightarrow> int option \<Rightarrow> jobj list \<Rightarrow> walk_stats \<Rightarrow> jobj list \<times> walk_stats \<times> int option \<times> page_end" where
  "take_fills [] remaining rows st = (rows, st, remaining, PageTaken)"
| "take_fills (v # vs) remaining rows st =
     (case v of
        JObj fill \<Rightarrow>
          let rows = rows @ [fill]; st = st\<lparr>ws_rows := ws_rows st + 1\<rparr>; remaining = map_option (\<lambda>n. n - 1) remaining
          in if spent remaining then (rows, st\<lparr>ws_truncated := True\<rparr>, remaining, BudgetSpent)
             else take_fills vs remaining rows st
      | _ \<Rightarrow> (rows, st, remaining, MalformedRow))"

definition page_params :: "jobj \<Rightarrow> int \<Rightarrow> string option \<Rightarrow> jobj" where
  "page_params base per_page cursor =
     base @ [(''limit'', JInt per_page)] @ (case cursor of None \<Rightarrow> [] | Some cur \<Rightarrow> [(''cursor'', JStr cur)])"

definition page_size :: "environment \<Rightarrow> int option \<Rightarrow> int" where
  "page_size env page_limit = (case page_limit of None \<Rightarrow> cfg_page_limit (env_config env) | Some n \<Rightarrow> n)"

definition fill_limit :: "int \<Rightarrow> int option \<Rightarrow> int" where
  "fill_limit per_page remaining = (case remaining of None \<Rightarrow> per_page | Some n \<Rightarrow> min per_page n)"

text \<open>The budgeted walk of the fills routes and of the order list; they differ in the key of their rows, their fixed
  parameters and the page size they ask for.\<close>

partial_function (option) budget_pages ::
  "environment \<Rightarrow> string \<Rightarrow> string \<Rightarrow> jobj \<Rightarrow> (int option \<Rightarrow> int) \<Rightarrow> int option \<Rightarrow> string option \<Rightarrow> string list \<Rightarrow> jobj list \<Rightarrow> walk_stats \<Rightarrow> client
    \<Rightarrow> walk option" where
  "budget_pages env path key base limit remaining cursor seen rows st c =
     (if spent remaining then Some (rows, st, None, c)
      else case client_get env path (page_params base (limit remaining) cursor) c of (answer, c) \<Rightarrow>
        case answer of
          Inl e \<Rightarrow> Some (rows, st, Some e, c)
        | Inr payload \<Rightarrow>
        (case require_list payload key of
          Inl e \<Rightarrow> Some (rows, st, Some e, c)
        | Inr fills \<Rightarrow>
        (case take_fills fills remaining rows (st\<lparr>ws_pages := ws_pages st + 1\<rparr>) of (rows, st, remaining, how) \<Rightarrow>
         case how of
          BudgetSpent \<Rightarrow> Some (rows, st, None, c)
        | MalformedRow \<Rightarrow> Some (rows, st, Some SchemaError, c)
        | PageTaken \<Rightarrow>
        (case next_cursor payload seen of
          Inl e \<Rightarrow> Some (rows, st, Some e, c)
        | Inr None \<Rightarrow> Some (rows, st\<lparr>ws_exhausted := True\<rparr>, None, c)
        | Inr (Some cur) \<Rightarrow>
            if fills = [] then Some (rows, st, Some SchemaError, c)
            else budget_pages env path key base limit remaining (Some cur) (cur # seen) rows st c))))"

definition iter_fill_pages ::
  "environment \<Rightarrow> string \<Rightarrow> int option \<Rightarrow> int option \<Rightarrow> walk_stats \<Rightarrow> bool \<Rightarrow> client \<Rightarrow> walk option" where
  "iter_fill_pages env path max_fills page_limit st unbounded c =
     budget_pages env path ''fills'' [] (fill_limit (page_size env page_limit))
       (if unbounded then None
        else Some (case max_fills of None \<Rightarrow> cfg_max_fills (env_config env) | Some n \<Rightarrow> n))
       None [] [] st c"

definition iter_fills ::
  "environment \<Rightarrow> int option \<Rightarrow> int option \<Rightarrow> walk_stats \<Rightarrow> bool \<Rightarrow> client \<Rightarrow> walk option" where
  "iter_fills env max_fills page_limit st unbounded c =
     iter_fill_pages env ''/portfolio/fills'' max_fills page_limit st unbounded c"

definition iter_historical_fills ::
  "environment \<Rightarrow> int option \<Rightarrow> int option \<Rightarrow> walk_stats \<Rightarrow> bool \<Rightarrow> client \<Rightarrow> walk option" where
  "iter_historical_fills env max_fills page_limit st unbounded c =
     iter_fill_pages env ''/historical/fills'' max_fills page_limit st unbounded c"

fun take_rows :: "json list \<Rightarrow> jobj list \<Rightarrow> jobj list \<times> bool" where
  "take_rows [] rows = (rows, True)"
| "take_rows (v # vs) rows = (case v of JObj row \<Rightarrow> take_rows vs (rows @ [row]) | _ \<Rightarrow> (rows, False))"

partial_function (option) cursor_pages ::
  "environment \<Rightarrow> string \<Rightarrow> string \<Rightarrow> int \<Rightarrow> string option \<Rightarrow> string list \<Rightarrow> jobj list \<Rightarrow> walk_stats \<Rightarrow> client \<Rightarrow> walk option" where
  "cursor_pages env path key per_page cursor seen rows st c =
     (case client_get env path (page_params [] per_page cursor) c of (answer, c) \<Rightarrow>
      case answer of
        Inl e \<Rightarrow> Some (rows, st, Some e, c)
      | Inr payload \<Rightarrow>
      (case require_list payload key of
        Inl e \<Rightarrow> Some (rows, st, Some e, c)
      | Inr vs \<Rightarrow>
      (case take_rows vs rows of (rows, ok) \<Rightarrow>
       let st = st\<lparr>ws_pages := ws_pages st + 1, ws_rows := ws_rows st + length vs\<rparr> in
       if \<not> ok then Some (rows, st, Some SchemaError, c)
       else case next_cursor payload seen of
        Inl e \<Rightarrow> Some (rows, st, Some e, c)
      | Inr None \<Rightarrow> Some (rows, st\<lparr>ws_exhausted := True\<rparr>, None, c)
      | Inr (Some cur) \<Rightarrow>
          if vs = [] then Some (rows, st, Some SchemaError, c)
          else cursor_pages env path key per_page (Some cur) (cur # seen) rows st c)))"

definition iter_positions :: "environment \<Rightarrow> int option \<Rightarrow> client \<Rightarrow> walk option" where
  "iter_positions env page_limit c =
     cursor_pages env ''/portfolio/positions'' ''market_positions''
       (page_size env page_limit) None [] [] new_stats c"

definition iter_settlements :: "environment \<Rightarrow> int option \<Rightarrow> walk_stats \<Rightarrow> client \<Rightarrow> walk option" where
  "iter_settlements env page_limit st c =
     cursor_pages env ''/portfolio/settlements'' ''settlements''
       (page_size env page_limit) None [] [] st c"

text \<open>\<open>iter_orders\<close>: the order list, newest first, at most \<open>max_orders\<close>.\<close>

definition time_params :: "string \<Rightarrow> int option \<Rightarrow> jobj result" where
  "time_params name value =
     (case value of None \<Rightarrow> Inr [] | Some t \<Rightarrow> if t < 0 then Inl SchemaError else Inr [(name, JInt t)])"

definition order_filters :: "string option \<Rightarrow> int option \<Rightarrow> int option \<Rightarrow> jobj result" where
  "order_filters status min_ts max_ts =
     rbind (time_params ''min_ts'' min_ts) (\<lambda>lo.
     rbind (time_params ''max_ts'' max_ts) (\<lambda>hi.
     Inr ((case status of None \<Rightarrow> [] | Some s \<Rightarrow> [(''status'', JStr s)]) @ lo @ hi)))"

definition iter_orders ::
  "environment \<Rightarrow> int \<Rightarrow> int option \<Rightarrow> walk_stats \<Rightarrow> string option \<Rightarrow> int option \<Rightarrow> int option \<Rightarrow> client \<Rightarrow> walk option" where
  "iter_orders env max_orders page_limit st status min_ts max_ts c =
     (if max_orders < 1 \<or> (\<exists>s. status = Some s \<and> s \<notin> set ORDER_STATUSES) then Some ([], st, Some SchemaError, c)
      else case order_filters status min_ts max_ts of
          Inl e \<Rightarrow> Some ([], st, Some e, c)
        | Inr base \<Rightarrow>
            budget_pages env ''/portfolio/orders'' ''orders'' base (\<lambda>_. min (page_size env page_limit) max_orders)
              (Some max_orders) None [] [] st c)"

text \<open>\<open>iter_markets\<close>: at most \<open>max_pages\<close> pages of one series' public markets.\<close>

definition is_alnum :: "string \<Rightarrow> bool" where
  "is_alnum s \<longleftrightarrow> s \<noteq> [] \<and> list_all (\<lambda>c. is_digit c \<or> (CHR ''A'' \<le> c \<and> c \<le> CHR ''Z'') \<or> (CHR ''a'' \<le> c \<and> c \<le> CHR ''z'')) s"

definition json_objects :: "json list \<Rightarrow> jobj list" where
  "json_objects vs = concat (map (\<lambda>v. case v of JObj ob \<Rightarrow> [ob] | _ \<Rightarrow> []) vs)"

fun market_pages ::
  "environment \<Rightarrow> jobj \<Rightarrow> int \<Rightarrow> nat \<Rightarrow> string option \<Rightarrow> string list \<Rightarrow> jobj list \<Rightarrow> client
    \<Rightarrow> jobj list \<times> py_error option \<times> client" where
  "market_pages env base limit 0 cursor seen rows c = (rows, None, c)"
| "market_pages env base limit (Suc pages) cursor seen rows c =
     (case client_get env ''/markets'' (page_params base limit cursor) c of (answer, c) \<Rightarrow>
      case answer of
        Inl e \<Rightarrow> (rows, Some e, c)
      | Inr payload \<Rightarrow>
      (case require_list payload ''markets'' of
        Inl e \<Rightarrow> (rows, Some e, c)
      | Inr vs \<Rightarrow>
      (case next_cursor payload seen of
        Inl e \<Rightarrow> (rows @ json_objects vs, Some e, c)
      | Inr None \<Rightarrow> (rows @ json_objects vs, None, c)
      | Inr (Some cur) \<Rightarrow> market_pages env base limit pages (Some cur) (cur # seen) (rows @ json_objects vs) c)))"

definition iter_markets ::
  "environment \<Rightarrow> string \<Rightarrow> string \<Rightarrow> int \<Rightarrow> int \<Rightarrow> client \<Rightarrow> jobj list \<times> py_error option \<times> client" where
  "iter_markets env series_ticker status limit max_pages c =
     (if \<not> is_alnum series_ticker \<or> status \<notin> set [''open'', ''unopened'', ''closed'', ''settled'']
         \<or> \<not> (1 \<le> max_pages \<and> max_pages \<le> 20) then ([], Some SchemaError, c)
      else market_pages env [(''series_ticker'', JStr series_ticker), (''status'', JStr status)] limit (nat max_pages)
             None [] [] c)"

section \<open>Single reads\<close>

definition get_historical_cutoff :: "environment \<Rightarrow> client \<Rightarrow> jobj result \<times> client" where
  "get_historical_cutoff env c = client_get env ''/historical/cutoff'' [] c"

definition get_balance :: "environment \<Rightarrow> client \<Rightarrow> jobj result \<times> client" where
  "get_balance env c = client_get env ''/portfolio/balance'' [] c"

definition probe_settlements_before :: "environment \<Rightarrow> int \<Rightarrow> int \<Rightarrow> client \<Rightarrow> jobj result \<times> client" where
  "probe_settlements_before env max_ts limit c =
     client_get env ''/portfolio/settlements'' [(''limit'', JInt limit), (''max_ts'', JInt max_ts)] c"

definition probe_historical_settlements :: "environment \<Rightarrow> int \<Rightarrow> client \<Rightarrow> jobj result \<times> client" where
  "probe_historical_settlements env limit c = client_get env ''/historical/settlements'' [(''limit'', JInt limit)] c"

definition get_object :: "environment \<Rightarrow> string \<Rightarrow> string \<Rightarrow> client \<Rightarrow> jobj result \<times> client" where
  "get_object env path key c =
     (case client_get env path [] c of (payload, c) \<Rightarrow> (rbind payload (\<lambda>p. require_object p key), c))"

definition get_market :: "environment \<Rightarrow> string \<Rightarrow> client \<Rightarrow> jobj result \<times> client" where
  "get_market env ticker c = get_object env (''/markets/'' @ ticker) ''market'' c"

definition get_event :: "environment \<Rightarrow> string \<Rightarrow> client \<Rightarrow> jobj result \<times> client" where
  "get_event env event_ticker c = get_object env (''/events/'' @ event_ticker) ''event'' c"

definition get_series :: "environment \<Rightarrow> string \<Rightarrow> client \<Rightarrow> jobj result \<times> client" where
  "get_series env series_ticker c = get_object env (''/series/'' @ series_ticker) ''series'' c"

definition unwrap_metadata :: "jobj \<Rightarrow> jobj" where
  "unwrap_metadata payload = (case jget payload ''metadata'' of
       JObj ob \<Rightarrow> ob
     | _ \<Rightarrow> (case jget payload ''event_metadata'' of JObj ob \<Rightarrow> ob | _ \<Rightarrow> payload))"

definition get_event_metadata :: "environment \<Rightarrow> string \<Rightarrow> client \<Rightarrow> jobj result \<times> client" where
  "get_event_metadata env event_ticker c =
     (case client_get env (''/events/'' @ event_ticker @ ''/metadata'') [] c of (payload, c) \<Rightarrow>
      (rbind payload (\<lambda>p. Inr (unwrap_metadata p)), c))"

definition get_filters_by_sport :: "environment \<Rightarrow> client \<Rightarrow> jobj result \<times> client" where
  "get_filters_by_sport env c = client_get env ''/search/filters_by_sport'' [] c"

definition get_milestones :: "environment \<Rightarrow> jobj \<Rightarrow> client \<Rightarrow> jobj result \<times> client" where
  "get_milestones env params c = client_get env ''/milestones'' params c"

section \<open>A request is bounded and read-only\<close>

text \<open>What a step adds to the log and to the waits.\<close>

definition logged_since :: "client \<Rightarrow> client \<Rightarrow> exchange list" where
  "logged_since c c' = drop (length (c_log c)) (c_log c')"

definition slept_since :: "client \<Rightarrow> client \<Rightarrow> rat list" where
  "slept_since c c' = drop (length (c_slept c)) (c_slept c')"

definition good_body :: "exchange \<Rightarrow> string option" where
  "good_body x = (case x_answer x of
       Inl _ \<Rightarrow> None
     | Inr (status, body) \<Rightarrow> if success status then Some body else None)"

text \<open>\<open>c'\<close> continues \<open>c\<close> with these GET calls to \<open>url\<close> and these waits.\<close>

definition continues :: "transport \<Rightarrow> string \<Rightarrow> client \<Rightarrow> exchange list \<Rightarrow> rat list \<Rightarrow> client \<Rightarrow> bool" where
  "continues transport url c xs waits c' \<longleftrightarrow>
     c_log c' = c_log c @ xs \<and> c_slept c' = c_slept c @ waits
     \<and> (\<forall>x \<in> set xs. x_method x = ''GET'' \<and> x_url x = url \<and> (\<exists>n. x_answer x = transport n ''GET'' url))"

lemma frac_of_two: "fround (1 / 4) = 1 / 4" "fround (1 / 2) = 1 / 2" "fround 1 = 1" "fround 8 = 8"
proof -
  have r: "fround x = x" if "x = of_int k * of_nat 2 powi e" "\<bar>k\<bar> < int 2 ^ 53" for x :: rat and k e
    unfolding fround_def by (rule rsig_exact [OF _ _ that]) simp_all
  show "fround (1 / 4) = 1 / 4" by (rule r [of _ 1 "-2"]) (simp_all add: power_int_minus)
  show "fround (1 / 2) = 1 / 2" by (rule r [of _ 1 "-1"]) (simp_all add: power_int_minus)
  show "fround 1 = 1" by (rule r [of _ 1 0]) simp_all
  show "fround 8 = 8" by (rule r [of _ 1 3]) (simp_all add: power_int_def)
qed

lemma backoff_delay_bounds:
  assumes "0 \<le> r" "r < 1"
  shows "1 / 4 \<le> backoff_delay attempt r" and "backoff_delay attempt r \<le> 8"
proof -
  have mono: "fround x \<le> fround y" if "x \<le> y" for x y
    using that by (simp add: fround_def rsig_mono)
  let ?m = "min 8 (fround (1 / 2 * 2 ^ attempt))"
  let ?j = "fround (1 / 2 + fround (r / 2))"
  have "fround (1 / 2) \<le> fround (1 / 2 * 2 ^ attempt)" by (rule mono) simp
  then have m: "1 / 2 \<le> ?m" "?m \<le> 8" by (simp_all add: frac_of_two)
  have zero: "fround 0 = 0" by (simp add: fround_def)
  have half: "0 \<le> fround (r / 2)" "fround (r / 2) \<le> 1 / 2"
    using mono [of 0 "r / 2"] mono [of "r / 2" "1 / 2"] assms
    by (simp_all add: frac_of_two zero)
  have j: "1 / 2 \<le> ?j" "?j \<le> 1"
    using mono [of "1 / 2" "1 / 2 + fround (r / 2)"] mono [of "1 / 2 + fround (r / 2)" 1] half
    by (simp_all add: frac_of_two)
  have "1 / 2 * (1 / 2) \<le> ?m * ?j" by (rule mult_mono) (use m j in simp_all)
  then show "1 / 4 \<le> backoff_delay attempt r" using mono [of "1 / 4" "?m * ?j"]
    by (simp add: frac_of_two backoff_delay_def)
  have "?m * ?j \<le> 8 * 1" by (rule mult_mono) (use m j in simp_all)
  then show "backoff_delay attempt r \<le> 8" using mono [of "?m * ?j" 8]
    by (simp add: frac_of_two backoff_delay_def)
qed

lemma attempt_outcome_good:
  "attempt_outcome (x_answer x) = Returned body \<Longrightarrow> good_body x = Some body"
  "attempt_outcome (x_answer x) = Raised e \<Longrightarrow> good_body x = None"
  "attempt_outcome (x_answer x) = Again e \<Longrightarrow> good_body x = None"
  by (auto simp: attempt_outcome_def good_body_def raise_for_status_def success_def
      split: sum.splits prod.splits if_splits)

lemma note_failure_retries:
  "telemetry_retries (c_telemetry (note_failure ans c)) = Suc (telemetry_retries (c_telemetry c))"
  "tm_exhausted (c_telemetry (note_failure ans c)) = tm_exhausted (c_telemetry c)"
  by (simp_all add: note_failure_def count_failure_def telemetry_retries_def split: sum.split prod.split)

lemma send_simps:
  "send transport url c = (ans, c1) \<Longrightarrow> ans = transport (length (c_log c)) ''GET'' url
    \<and> c_log c1 = c_log c @ [\<lparr>x_method = ''GET'', x_url = url, x_answer = ans\<rparr>]
    \<and> c_slept c1 = c_slept c \<and> c_telemetry c1 = c_telemetry c \<and> c_request_count c1 = c_request_count c"
  by (auto simp: send_def Let_def)

lemma client_updates [simp]:
  "c_log (note_failure ans c) = c_log c" "c_slept (note_failure ans c) = c_slept c"
  "c_log (exhaust c) = c_log c" "c_slept (exhaust c) = c_slept c"
  "c_log (back_off d c) = c_log c" "c_slept (back_off d c) = c_slept c @ [d]"
  "telemetry_retries (c_telemetry (exhaust c)) = telemetry_retries (c_telemetry c)"
  "telemetry_retries (c_telemetry (back_off d c)) = telemetry_retries (c_telemetry c)"
  "tm_exhausted (c_telemetry (exhaust c)) = Suc (tm_exhausted (c_telemetry c))"
  "tm_exhausted (c_telemetry (back_off d c)) = tm_exhausted (c_telemetry c)"
  by (simp_all add: note_failure_def exhaust_def back_off_def telemetry_retries_def)

definition retried :: "exchange list \<Rightarrow> rat list \<Rightarrow> rat list \<Rightarrow> string result \<Rightarrow> bool" where
  "retried xs waits delays r \<longleftrightarrow>
     length xs = Suc (length waits) \<and> length waits \<le> length delays \<and> waits = take (length waits) delays
     \<and> (\<forall>x \<in> set (butlast xs). good_body x = None)
     \<and> good_body (last xs) = (case r of Inr body \<Rightarrow> Some body | Inl _ \<Rightarrow> None)"

lemma retry_loop_spec:
  assumes "retry_loop transport url delays c = (r, c')"
  shows "\<exists>xs waits. continues transport url c xs waits c' \<and> retried xs waits delays r
    \<and> telemetry_retries (c_telemetry c') + tm_exhausted (c_telemetry c)
        = telemetry_retries (c_telemetry c) + length waits + tm_exhausted (c_telemetry c')"
  using assms
proof (induction delays arbitrary: c)
  case Nil
  obtain ans c1 where s: "send transport url c = (ans, c1)" by force
  note c1 = send_simps [OF s]
  let ?x = "\<lparr>x_method = ''GET'', x_url = url, x_answer = ans\<rparr>"
  have r: "(case attempt_outcome ans of Returned body \<Rightarrow> (Inr body, c1) | Raised e \<Rightarrow> (Inl e, c1)
      | Again e \<Rightarrow> (Inl e, exhaust (note_failure ans c1))) = (r, c')"
    using Nil s by (simp add: retry_loop.simps cong: attempt.case_cong)
  then have "continues transport url c [?x] [] c' \<and> retried [?x] [] [] r
    \<and> telemetry_retries (c_telemetry c') + tm_exhausted (c_telemetry c)
        = telemetry_retries (c_telemetry c) + length ([] :: rat list) + tm_exhausted (c_telemetry c')"
    using c1 attempt_outcome_good [of ?x]
    by (auto simp: continues_def retried_def note_failure_retries split: attempt.splits)
  then show ?case by blast
next
  case (Cons delay delays)
  obtain ans c1 where s: "send transport url c = (ans, c1)" by force
  note c1 = send_simps [OF s]
  let ?x = "\<lparr>x_method = ''GET'', x_url = url, x_answer = ans\<rparr>"
  have r: "(case attempt_outcome ans of Returned body \<Rightarrow> (Inr body, c1) | Raised e \<Rightarrow> (Inl e, c1)
      | Again e \<Rightarrow> retry_loop transport url delays (back_off delay (note_failure ans c1))) = (r, c')"
    using Cons.prems s by (simp add: retry_loop.simps cong: attempt.case_cong)
  show ?case
  proof (cases "attempt_outcome ans")
    case (Again e)
    then have "retry_loop transport url delays (back_off delay (note_failure ans c1)) = (r, c')" using r by simp
    then obtain xs waits where IH: "continues transport url (back_off delay (note_failure ans c1)) xs waits c'"
      "retried xs waits delays r"
      "telemetry_retries (c_telemetry c') + tm_exhausted (c_telemetry (back_off delay (note_failure ans c1)))
        = telemetry_retries (c_telemetry (back_off delay (note_failure ans c1))) + length waits + tm_exhausted (c_telemetry c')"
      using Cons.IH by blast
    have "continues transport url c (?x # xs) (delay # waits) c'" using IH(1) c1 by (auto simp: continues_def)
    moreover have "retried (?x # xs) (delay # waits) (delay # delays) r"
      using IH(2) attempt_outcome_good(3) [of ?x e] Again by (auto simp: retried_def)
    ultimately show ?thesis using IH(3) c1 by (intro exI conjI) (auto simp: note_failure_retries)
  next
    case (Returned body)
    then have "continues transport url c [?x] [] c'" "retried [?x] [] (delay # delays) r" "c' = c1"
      using r c1 attempt_outcome_good(1) [of ?x body] by (auto simp: continues_def retried_def)
    then show ?thesis using c1 by (intro exI conjI) auto
  next
    case (Raised e)
    then have "continues transport url c [?x] [] c'" "retried [?x] [] (delay # delays) r" "c' = c1"
      using r c1 attempt_outcome_good(2) [of ?x e] by (auto simp: continues_def retried_def)
    then show ?thesis using c1 by (intro exI conjI) auto
  qed
qed

text \<open>The pages a log holds: the objects its successful answers decode to.\<close>

definition page_of :: "environment \<Rightarrow> exchange \<Rightarrow> jobj list" where
  "page_of env x = (case good_body x of
       None \<Rightarrow> []
     | Some body \<Rightarrow> (case decode_json_object (env_decode env) body of Inl _ \<Rightarrow> [] | Inr ob \<Rightarrow> [ob]))"

definition pages_of :: "environment \<Rightarrow> exchange list \<Rightarrow> jobj list" where
  "pages_of env xs = concat (map (page_of env) xs)"

definition url_of :: "environment \<Rightarrow> string \<Rightarrow> jobj \<Rightarrow> string" where
  "url_of env path params = build_url (cfg_base_url (env_config env)) path params"

lemma length_backoff_delays [simp]: "length (backoff_delays jitter drawn n) = nat n"
  by (simp add: backoff_delays_def)

lemma client_get_spec:
  assumes "client_get env path params c = (answer, c')" and "read_only path" and "0 \<le> cfg_max_retries (env_config env)"
  obtains xs waits r
  where "continues (env_transport env) (url_of env path params) c xs waits c'"
    "retried xs waits (backoff_delays (env_jitter env)
        (tm_requests (c_telemetry c) * nat (cfg_max_retries (env_config env))) (cfg_max_retries (env_config env))) r"
    "answer = rbind r (decode_json_object (env_decode env))"
    "telemetry_retries (c_telemetry c') + tm_exhausted (c_telemetry c)
        = telemetry_retries (c_telemetry c) + length waits + tm_exhausted (c_telemetry c')"
proof -
  let ?c = "c\<lparr>c_request_count := c_request_count c + 1,
    c_telemetry := (c_telemetry c)\<lparr>tm_requests := tm_requests (c_telemetry c) + 1\<rparr>\<rparr>"
  let ?delays = "backoff_delays (env_jitter env)
        (tm_requests (c_telemetry c) * nat (cfg_max_retries (env_config env))) (cfg_max_retries (env_config env))"
  obtain r c2 where loop: "retry_loop (env_transport env) (url_of env path params) ?delays ?c = (r, c2)" by force
  then have eq: "answer = rbind r (decode_json_object (env_decode env))" "c' = c2"
    using assms by (simp_all add: client_get_def request_with_retries_def Let_def url_of_def)
  obtain xs waits where "continues (env_transport env) (url_of env path params) ?c xs waits c2" "retried xs waits ?delays r"
    "telemetry_retries (c_telemetry c2) + tm_exhausted (c_telemetry ?c)
        = telemetry_retries (c_telemetry ?c) + length waits + tm_exhausted (c_telemetry c2)"
    using retry_loop_spec [OF loop] by blast
  then show thesis using that eq by (simp add: continues_def telemetry_retries_def)
qed

text \<open>
  C36. One read of the exchange is bounded and read-only. A path outside the allowlist is refused before anything is
  sent. Otherwise the client makes between one and \<open>max_retries + 1\<close> calls, each a GET to the same URL; it waits
  once between consecutive calls, each time between a quarter of a second and eight seconds; every call but the last
  failed; and it returns a payload exactly when the last call succeeded with a body that decodes to that object.
\<close>

theorem request_is_bounded:
  assumes "client_get env path params c = (answer, c')"
    and "0 \<le> cfg_max_retries (env_config env)" and "\<forall>i. 0 \<le> env_jitter env i \<and> env_jitter env i < 1"
  shows "if read_only path
    then 1 \<le> length (logged_since c c') \<and> length (logged_since c c') \<le> nat (cfg_max_retries (env_config env)) + 1
      \<and> (\<forall>x \<in> set (logged_since c c'). x_method x = ''GET'' \<and> x_url x = url_of env path params)
      \<and> length (slept_since c c') + 1 = length (logged_since c c')
      \<and> (\<forall>w \<in> set (slept_since c c'). 1 / 4 \<le> w \<and> w \<le> 8)
      \<and> (\<forall>x \<in> set (butlast (logged_since c c')). good_body x = None)
      \<and> (\<forall>payload. answer = Inr payload \<longleftrightarrow>
           (\<exists>body. good_body (last (logged_since c c')) = Some body \<and> decode_json_object (env_decode env) body = Inr payload))
    else answer = Inl SchemaError \<and> c' = c"
proof (cases "read_only path")
  case True
  obtain xs waits r where x: "continues (env_transport env) (url_of env path params) c xs waits c'"
    and r: "retried xs waits (backoff_delays (env_jitter env)
        (tm_requests (c_telemetry c) * nat (cfg_max_retries (env_config env))) (cfg_max_retries (env_config env))) r"
    and answer: "answer = rbind r (decode_json_object (env_decode env))"
    using assms(1) True assms(2) by (rule client_get_spec)
  have since: "logged_since c c' = xs" "slept_since c c' = waits"
    using x by (simp_all add: continues_def logged_since_def slept_since_def)
  have waits: "1 / 4 \<le> w \<and> w \<le> 8" if "w \<in> set waits" for w
  proof -
    have "w \<in> set (backoff_delays (env_jitter env)
        (tm_requests (c_telemetry c) * nat (cfg_max_retries (env_config env))) (cfg_max_retries (env_config env)))"
      using that r by (metis in_set_takeD retried_def)
    then show ?thesis using assms(3) backoff_delay_bounds by (auto simp: backoff_delays_def)
  qed
  have "answer = Inr payload \<longleftrightarrow>
      (\<exists>body. good_body (last xs) = Some body \<and> decode_json_object (env_decode env) body = Inr payload)" for payload
    using r answer by (cases r) (auto simp: retried_def)
  then show ?thesis using True x r waits unfolding since by (auto simp: continues_def retried_def)
next
  case False
  then show ?thesis using assms(1) by (simp add: client_get_def)
qed

section \<open>A walk ends, and says how\<close>

definition page_rows :: "string \<Rightarrow> jobj \<Rightarrow> jobj list" where
  "page_rows key payload = (case jget payload key of JList vs \<Rightarrow> json_objects vs | _ \<Rightarrow> [])"

text \<open>A payload some answer of the server decodes to, and the cursors such payloads carry.\<close>

definition served :: "environment \<Rightarrow> jobj \<Rightarrow> bool" where
  "served env payload \<longleftrightarrow> (\<exists>n url status body. env_transport env n ''GET'' url = Inr (status, body)
     \<and> decode_json_object (env_decode env) body = Inr payload)"

definition served_cursors :: "environment \<Rightarrow> string set" where
  "served_cursors env = {cur. \<exists>payload. served env payload \<and> jget payload ''cursor'' = JStr cur}"

lemma json_objects_simps [simp]:
  "json_objects [] = []" "json_objects (JObj ob # vs) = ob # json_objects vs"
  by (simp_all add: json_objects_def)

lemma take_fills_spec:
  assumes "take_fills vs remaining rows st = (rows', st', remaining', how)"
  shows "\<exists>new rest. rows' = rows @ new \<and> json_objects vs = new @ rest
    \<and> remaining' = map_option (\<lambda>n. n - int (length new)) remaining
    \<and> st' = st\<lparr>ws_rows := ws_rows st + length new, ws_truncated := (ws_truncated st \<or> how = BudgetSpent)\<rparr>
    \<and> (how = PageTaken \<longrightarrow> rest = [] \<and> (spent remaining' \<longrightarrow> spent remaining))
    \<and> (how = BudgetSpent \<longrightarrow> spent remaining')
    \<and> (\<not> spent remaining \<longrightarrow> (\<forall>n. remaining = Some n \<longrightarrow> int (length new) \<le> n))"
  using assms
proof (induction vs remaining rows st rule: take_fills.induct)
  case (2 v vs remaining rows st)
  show ?case
  proof (cases "\<exists>fill. v = JObj fill")
    case False
    show ?thesis
      by (rule exI [of _ "[]"], rule exI [of _ "json_objects (v # vs)"])
        (use False 2(2) in \<open>auto split: json.splits simp: option.map_ident spent_def\<close>)
  next
    case True
    then obtain fill where v: "v = JObj fill" by blast
    let ?st = "st\<lparr>ws_rows := ws_rows st + 1\<rparr>"
    let ?remaining = "map_option (\<lambda>n. n - 1) remaining"
    show ?thesis
    proof (cases "spent ?remaining")
      case spent: True
      then have "rows' = rows @ [fill]" "st' = ?st\<lparr>ws_truncated := True\<rparr>" "remaining' = ?remaining" "how = BudgetSpent"
        using 2(2) v by simp_all
      then show ?thesis
        by (intro exI [where x = "[fill]"] exI [where x = "json_objects vs"])
          (use spent v in \<open>auto simp: spent_def split: option.splits\<close>)
    next
      case False
      then have rest: "take_fills vs ?remaining (rows @ [fill]) ?st = (rows', st', remaining', how)"
        using 2(2) v by simp
      obtain new rest where IH: "rows' = (rows @ [fill]) @ new" "json_objects vs = new @ rest"
        "remaining' = map_option (\<lambda>n. n - int (length new)) ?remaining"
        "st' = ?st\<lparr>ws_rows := ws_rows ?st + length new, ws_truncated := (ws_truncated ?st \<or> how = BudgetSpent)\<rparr>"
        "how = PageTaken \<longrightarrow> rest = [] \<and> (spent remaining' \<longrightarrow> spent ?remaining)"
        "how = BudgetSpent \<longrightarrow> spent remaining'"
        "\<not> spent ?remaining \<longrightarrow> (\<forall>n. ?remaining = Some n \<longrightarrow> int (length new) \<le> n)"
        using 2(1) [OF v refl refl refl False rest] by blast
      have "\<forall>n. remaining = Some n \<longrightarrow> int (length new) \<le> n - 1" using IH(7) False by auto
      then have "\<forall>n. remaining = Some n \<longrightarrow> int (length (fill # new)) \<le> n" by fastforce
      then show ?thesis
        by (intro exI [where x = "fill # new"] exI [where x = rest])
          (use IH(1-6) False v in \<open>auto simp: option.map_comp o_def algebra_simps\<close>)
    qed
  qed
qed (auto simp: option.map_ident spent_def split: option.splits)

text \<open>A call of the walk: its log gains at most \<open>max_retries + 1\<close> exchanges, and the page it returned.\<close>

lemma client_get_page:
  assumes get: "client_get env path params c = (answer, c')" and nonneg: "0 \<le> cfg_max_retries (env_config env)"
  obtains xs where "c_log c' = c_log c @ xs" "length xs \<le> nat (cfg_max_retries (env_config env)) + 1"
    "pages_of env xs = (case answer of Inr payload \<Rightarrow> [payload] | Inl _ \<Rightarrow> [])"
    "\<And>payload. answer = Inr payload \<Longrightarrow> served env payload"
proof (cases "read_only path")
  case False
  then have "answer = Inl SchemaError" "c' = c" using get by (simp_all add: client_get_def)
  then show thesis using that [of "[]"] by (simp add: pages_of_def)
next
  case True
  obtain xs waits r where x: "continues (env_transport env) (url_of env path params) c xs waits c'"
    and r: "retried xs waits (backoff_delays (env_jitter env)
        (tm_requests (c_telemetry c) * nat (cfg_max_retries (env_config env))) (cfg_max_retries (env_config env))) r"
    and answer: "answer = rbind r (decode_json_object (env_decode env))"
    using get True nonneg by (rule client_get_spec)
  have "xs \<noteq> []" using r by (auto simp: retried_def)
  then have xs: "xs = butlast xs @ [last xs]" by simp
  have "page_of env x = []" if "x \<in> set (butlast xs)" for x
    using that r by (simp add: retried_def page_of_def)
  then have "pages_of env (butlast xs) = []" by (simp add: pages_of_def)
  then have pages: "pages_of env xs = page_of env (last xs)" by (subst xs) (simp add: pages_of_def)
  show thesis
  proof (rule that [of xs])
    show "c_log c' = c_log c @ xs" using x by (simp add: continues_def)
    show "length xs \<le> nat (cfg_max_retries (env_config env)) + 1" using r by (simp add: retried_def)
    show "pages_of env xs = (case answer of Inr payload \<Rightarrow> [payload] | Inl _ \<Rightarrow> [])"
      using r unfolding pages page_of_def answer by (cases r) (simp_all add: retried_def split: sum.split)
    show "served env payload" if "answer = Inr payload" for payload
    proof -
      from that answer obtain body where body: "r = Inr body" "decode_json_object (env_decode env) body = Inr payload"
        by (auto simp: result_simps)
      then have "good_body (last xs) = Some body" using r by (simp add: retried_def)
      moreover obtain n where "x_answer (last xs) = env_transport env n ''GET'' (url_of env path params)"
        using x xs by (metis continues_def in_set_conv_decomp)
      ultimately show ?thesis using body(2)
        by (auto simp: served_def good_body_def split: sum.splits if_splits) metis
    qed
  qed
qed

text \<open>How a walk that started fresh ends.\<close>

definition walk_ends ::
  "environment \<Rightarrow> string \<Rightarrow> int option \<Rightarrow> jobj list \<Rightarrow> walk_stats \<Rightarrow> py_error option \<Rightarrow> jobj list \<Rightarrow> bool" where
  "walk_ends env key budget new st err pages \<longleftrightarrow>
     (\<exists>rest. concat (map (page_rows key) pages) = new @ rest
        \<and> (ws_exhausted st \<longrightarrow> err = None \<and> \<not> ws_truncated st \<and> rest = [] \<and> pages \<noteq> []
             \<and> \<not> truthy (jget (last pages) ''cursor'')))
     \<and> (\<forall>n. budget = Some n \<longrightarrow> int (length new) \<le> max 0 n)
     \<and> (ws_truncated st \<longrightarrow> err = None \<and> (\<exists>n. budget = Some n \<and> int (length new) = n))
     \<and> (\<not> ws_exhausted st \<and> \<not> ws_truncated st \<and> err = None \<longrightarrow> spent budget)"

definition fresh :: "walk_stats \<Rightarrow> bool" where
  "fresh st \<longleftrightarrow> \<not> ws_exhausted st \<and> \<not> ws_truncated st"

lemma next_cursor_spec:
  "next_cursor payload seen = Inr None \<Longrightarrow> \<not> truthy (jget payload ''cursor'')"
  "next_cursor payload seen = Inr (Some cur) \<Longrightarrow> jget payload ''cursor'' = JStr cur \<and> cur \<notin> set seen"
  by (auto simp: next_cursor_def Let_def split: if_splits json.splits)

lemma require_list_rows: "require_list payload key = Inr vs \<Longrightarrow> page_rows key payload = json_objects vs"
  by (auto simp: require_list_def page_rows_def split: json.splits)

text \<open>One more page in front of a walk that ended.\<close>

lemma walk_ends_step:
  assumes "walk_ends env key budget' new' st err pages" and "page_rows key payload = new"
    and "budget' = map_option (\<lambda>n. n - int (length new)) budget" and "\<not> spent budget'"
    and "spent budget' \<Longrightarrow> spent budget"
  shows "walk_ends env key budget (new @ new') st err (payload # pages)"
  using assms unfolding walk_ends_def by (cases budget) (auto simp: spent_def)

lemma walk_ends_one:
  assumes "page_rows key payload = new @ rest" and "\<forall>n. budget = Some n \<longrightarrow> int (length new) \<le> n"
    and "ws_exhausted st \<Longrightarrow> err = None \<and> \<not> ws_truncated st \<and> rest = [] \<and> \<not> truthy (jget payload ''cursor'')"
    and "ws_truncated st \<Longrightarrow> err = None \<and> (\<exists>n. budget = Some n \<and> int (length new) = n)"
    and "\<not> ws_exhausted st \<Longrightarrow> \<not> ws_truncated st \<Longrightarrow> err \<noteq> None"
  shows "walk_ends env key budget new st err [payload]"
  using assms unfolding walk_ends_def by auto

text \<open>A page either ends the walk or hands it to the next cursor.\<close>

definition hands_on :: "environment \<Rightarrow> string \<Rightarrow> int option \<Rightarrow> string list \<Rightarrow> jobj list \<Rightarrow> walk_stats \<Rightarrow> jobj
    \<Rightarrow> jobj list \<Rightarrow> int option \<Rightarrow> string \<Rightarrow> walk_stats \<Rightarrow> bool" where
  "hands_on env key remaining seen rows st payload rows1 remaining1 cur st1 \<longleftrightarrow>
     rows1 = rows @ page_rows key payload \<and> remaining1 = map_option (\<lambda>n. n - int (length (page_rows key payload))) remaining
     \<and> \<not> spent remaining1 \<and> jget payload ''cursor'' = JStr cur \<and> cur \<notin> set seen
     \<and> fresh st1 \<and> ws_pages st1 = Suc (ws_pages st)"

lemma budget_page:
  assumes "\<not> spent remaining" and "fresh st"
    and get: "client_get env path (page_params base (limit remaining) cursor) c = (Inr payload, c1)"
    and walk_def: "walk = budget_pages env path key base limit remaining cursor seen rows st c"
  shows "(\<exists>new st' err. walk = Some (rows @ new, st', err, c1) \<and> ws_pages st' \<le> Suc (ws_pages st)
      \<and> walk_ends env key remaining new st' err [payload])
    \<or> (\<exists>rows1 remaining1 cur st1. walk = budget_pages env path key base limit remaining1 (Some cur) (cur # seen) rows1 st1 c1
      \<and> hands_on env key remaining seen rows st payload rows1 remaining1 cur st1)"
    (is "?ends \<or> ?goes_on")
proof (cases "require_list payload key")
  case (Inl e)
  have "walk = Some (rows @ [], st, Some e, c1)"
    unfolding walk_def by (subst budget_pages.simps) (simp add: assms(1) get Inl)
  moreover have "walk_ends env key remaining [] st (Some e) [payload]"
    using assms by (intro walk_ends_one [where rest = "page_rows key payload"]) (auto simp: fresh_def spent_def split: option.splits)
  ultimately have ?ends by (metis le_SucI order_refl)
  then show ?thesis ..
next
  case fills: (Inr fills)
  note rows = require_list_rows [OF fills]
  obtain rows1 st1 remaining1 how
    where take: "take_fills fills remaining rows (st\<lparr>ws_pages := ws_pages st + 1\<rparr>) = (rows1, st1, remaining1, how)"
    by (metis prod_cases4)
  obtain new rest where t: "rows1 = rows @ new" "json_objects fills = new @ rest"
    "remaining1 = map_option (\<lambda>n. n - int (length new)) remaining"
    "st1 = st\<lparr>ws_pages := Suc (ws_pages st), ws_rows := ws_rows st + length new,
       ws_truncated := (ws_truncated st \<or> how = BudgetSpent)\<rparr>"
    "how = PageTaken \<Longrightarrow> rest = [] \<and> \<not> spent remaining1" "how = BudgetSpent \<Longrightarrow> spent remaining1"
    "\<forall>n. remaining = Some n \<longrightarrow> int (length new) \<le> n"
    using take_fills_spec [OF take] assms(1) by auto
  have walk: "walk = (case how of BudgetSpent \<Rightarrow> Some (rows1, st1, None, c1)
      | MalformedRow \<Rightarrow> Some (rows1, st1, Some SchemaError, c1)
      | PageTaken \<Rightarrow> (case next_cursor payload seen of
          Inl e \<Rightarrow> Some (rows1, st1, Some e, c1)
        | Inr None \<Rightarrow> Some (rows1, st1\<lparr>ws_exhausted := True\<rparr>, None, c1)
        | Inr (Some cur) \<Rightarrow> if fills = [] then Some (rows1, st1, Some SchemaError, c1)
            else budget_pages env path key base limit remaining1 (Some cur) (cur # seen) rows1 st1 c1))"
    unfolding walk_def by (subst budget_pages.simps)
      (simp add: assms(1) get fills take [simplified] cong: page_end.case_cong)
  have ends: ?ends if "walk = Some (rows1, st2, err, c1)" "ws_pages st2 = ws_pages st1"
      "walk_ends env key remaining new st2 err [payload]" for st2 err
    using that t by (intro disjI1 exI conjI) simp_all
  have shape: "page_rows key payload = new @ rest" "\<not> ws_exhausted st" "\<not> ws_truncated st"
    using rows t(2) assms(2) by (simp_all add: fresh_def)
  show ?thesis
  proof (cases how)
    case BudgetSpent
    have "walk_ends env key remaining new st1 None [payload]"
      using t(3,4,6,7) shape BudgetSpent by (intro walk_ends_one) (auto simp: spent_def split: option.splits)
    then have ?ends using BudgetSpent walk by (intro ends) simp_all
    then show ?thesis ..
  next
    case MalformedRow
    have "walk_ends env key remaining new st1 (Some SchemaError) [payload]"
      using t(4,7) shape MalformedRow by (intro walk_ends_one) auto
    then have ?ends using MalformedRow walk by (intro ends) simp_all
    then show ?thesis ..
  next
    case PageTaken
    consider (last) st2 err where "walk = Some (rows1, st2, err, c1)" "ws_pages st2 = ws_pages st1"
        "\<not> ws_truncated st2" "ws_exhausted st2 \<Longrightarrow> err = None \<and> \<not> truthy (jget payload ''cursor'')"
        "\<not> ws_exhausted st2 \<Longrightarrow> err \<noteq> None"
      | (cursor) cur where "next_cursor payload seen = Inr (Some cur)"
        "walk = budget_pages env path key base limit remaining1 (Some cur) (cur # seen) rows1 st1 c1"
      using PageTaken walk shape t(4) next_cursor_spec(1) [of payload seen]
      by (auto split: sum.splits option.splits if_splits)
    then show ?thesis
    proof cases
      case last
      have "walk_ends env key remaining new st2 err [payload]"
        using last t(5) [OF PageTaken] t(7) shape by (intro walk_ends_one) auto
      then have ?ends using last by (intro ends)
      then show ?thesis ..
    next
      case cursor
      then have "hands_on env key remaining seen rows st payload rows1 remaining1 cur st1"
        using t(1,3,4) t(5) [OF PageTaken] shape PageTaken next_cursor_spec(2) [OF cursor(1)] by (simp add: hands_on_def fresh_def)
      then show ?thesis using cursor(2) by blast
    qed
  qed
qed

text \<open>A cursor not seen before leaves fewer cursors to see.\<close>

lemma fewer_cursors:
  assumes "finite C" "cur \<in> C" "cur \<notin> set seen"
  shows "card (C - set seen) = Suc (card (C - set (cur # seen)))"
  using assms by (metis Diff_iff Diff_insert card_Suc_Diff1 finite_Diff list.simps(15))

lemma budget_walk:
  assumes nonneg: "0 \<le> cfg_max_retries (env_config env)" and fin: "finite (served_cursors env)" and "fresh st"
  shows "\<exists>new st' err c' xs.
    budget_pages env path key base limit remaining cursor seen rows st c = Some (rows @ new, st', err, c')
    \<and> c_log c' = c_log c @ xs
    \<and> length xs \<le> (card (served_cursors env - set seen) + 1) * (nat (cfg_max_retries (env_config env)) + 1)
    \<and> ws_pages st' \<le> ws_pages st + card (served_cursors env - set seen) + 1
    \<and> walk_ends env key remaining new st' err (pages_of env xs)"
  using assms(3)
proof (induction "card (served_cursors env - set seen)" arbitrary: remaining cursor seen rows st c rule: less_induct)
  case less
  let ?R = "nat (cfg_max_retries (env_config env)) + 1"
  let ?k = "card (served_cursors env - set seen)"
  let ?B = "budget_pages env path key base limit remaining cursor seen rows st c"
  note unfold = budget_pages.simps [of env path key base limit remaining cursor seen rows st c]
  show ?case
  proof (cases "spent remaining")
    case True
    then have "?B = Some (rows @ [], st, None, c)" using unfold by simp
    moreover have "walk_ends env key remaining [] st None (pages_of env [])"
      using True less.prems by (auto simp: walk_ends_def pages_of_def fresh_def)
    ultimately show ?thesis
      by (intro exI [where x = "[]"] exI [where x = st] exI [where x = None] exI [where x = c]) simp
  next
    case False
    obtain answer c1 where get: "client_get env path (page_params base (limit remaining) cursor) c = (answer, c1)" by force
    obtain xs where xs: "c_log c1 = c_log c @ xs" "length xs \<le> ?R"
      "pages_of env xs = (case answer of Inr payload \<Rightarrow> [payload] | Inl _ \<Rightarrow> [])"
      and served: "\<And>payload. answer = Inr payload \<Longrightarrow> served env payload"
      using get nonneg by (rule client_get_page) blast
    have stop: ?thesis if "?B = Some (rows @ new, st', err, c1)" "ws_pages st' \<le> ws_pages st + 1"
      "walk_ends env key remaining new st' err (pages_of env xs)" for new st' err
      by (rule exI [of _ new], rule exI [of _ st'], rule exI [of _ err], rule exI [of _ c1], rule exI [of _ xs])
        (use that xs in \<open>simp add: trans_le_add2\<close>)
    show ?thesis
    proof (cases answer)
      case (Inl e)
      then show ?thesis using False less.prems xs(3)
        by (intro stop [of "[]" st "Some e"]) (auto simp: unfold get walk_ends_def fresh_def)
    next
      case (Inr payload)
      then have pages: "pages_of env xs = [payload]" using xs(3) by simp
      from budget_page [where limit = limit, OF False less.prems get [unfolded Inr] refl, of key seen rows] show ?thesis
      proof (elim disjE exE conjE)
        fix new st' err
        assume "?B = Some (rows @ new, st', err, c1)" "ws_pages st' \<le> Suc (ws_pages st)"
          "walk_ends env key remaining new st' err [payload]"
        then show ?thesis by (intro stop) (simp_all add: pages)
      next
        fix rows1 remaining1 cur st1
        assume B: "?B = budget_pages env path key base limit remaining1 (Some cur) (cur # seen) rows1 st1 c1"
          and h: "hands_on env key remaining seen rows st payload rows1 remaining1 cur st1"
        have k: "?k = Suc (card (served_cursors env - set (cur # seen)))"
          using h served [OF Inr] by (intro fewer_cursors fin) (auto simp: hands_on_def served_cursors_def)
        obtain new st' err c' xs' where IH:
          "budget_pages env path key base limit remaining1 (Some cur) (cur # seen) rows1 st1 c1 = Some (rows1 @ new, st', err, c')"
          "c_log c' = c_log c1 @ xs'" "length xs' \<le> (card (served_cursors env - set (cur # seen)) + 1) * ?R"
          "ws_pages st' \<le> ws_pages st1 + card (served_cursors env - set (cur # seen)) + 1"
          "walk_ends env key remaining1 new st' err (pages_of env xs')"
          using less.hyps [of "cur # seen" st1 remaining1 "Some cur" rows1 c1] k h by (force simp: hands_on_def)
        have "walk_ends env key remaining (page_rows key payload @ new) st' err (payload # pages_of env xs')"
          by (rule walk_ends_step [OF IH(5) refl]) (use h False in \<open>auto simp: hands_on_def\<close>)
        then have "walk_ends env key remaining (page_rows key payload @ new) st' err (pages_of env (xs @ xs'))"
          using pages by (simp add: pages_of_def)
        then show ?thesis
          by (intro exI [where x = "page_rows key payload @ new"] exI [where x = st'] exI [where x = err]
              exI [where x = c'] exI [where x = "xs @ xs'"])
            (use B IH h k xs in \<open>simp_all add: algebra_simps hands_on_def\<close>)
      qed
    qed
  qed
qed

lemma budget_walk_fresh:
  assumes "0 \<le> cfg_max_retries (env_config env)" and "finite (served_cursors env)"
    and "budget_pages env path key base limit remaining None [] [] new_stats c = walk"
  obtains rows st err c'
  where "walk = Some (rows, st, err, c')" "ws_pages st \<le> card (served_cursors env) + 1"
    "length (logged_since c c') \<le> (card (served_cursors env) + 1) * (nat (cfg_max_retries (env_config env)) + 1)"
    "walk_ends env key remaining rows st err (pages_of env (logged_since c c'))"
  using budget_walk [OF assms(1,2), of new_stats path key base limit remaining None "[]" "[]" c] assms(3)
  by (auto simp: fresh_def new_stats_def logged_since_def)

text \<open>
  C37. A fills walk terminates, even one with no budget: if the cursors the server ever hands out are finitely many,
  the walk returns after at most one page more than there are cursors, and after at most \<open>max_retries + 1\<close> calls for
  each of those pages. The server is otherwise arbitrary: it may fail, answer garbage, repeat cursors or change its
  answers between calls.
\<close>

theorem fill_walk_terminates:
  assumes "finite (served_cursors env)" and "0 \<le> cfg_max_retries (env_config env)"
  shows "\<exists>rows st err c'. iter_fill_pages env path max_fills page_limit new_stats unbounded c = Some (rows, st, err, c')
    \<and> ws_pages st \<le> card (served_cursors env) + 1
    \<and> length (logged_since c c') \<le> (card (served_cursors env) + 1) * (nat (cfg_max_retries (env_config env)) + 1)"
  by (rule budget_walk_fresh [OF assms(2,1), OF iter_fill_pages_def [symmetric], where c = c]) blast

text \<open>The budget a fills walk is given.\<close>

definition fill_budget :: "environment \<Rightarrow> int option \<Rightarrow> bool \<Rightarrow> int option" where
  "fill_budget env max_fills unbounded =
     (if unbounded then None else Some (case max_fills of None \<Rightarrow> cfg_max_fills (env_config env) | Some n \<Rightarrow> n))"

text \<open>
  What a finished fills walk says of itself is true. Its rows are always an initial part of the fills on the pages
  the exchange served; a walk that reports \<open>exhausted\<close> met no error, was not cut short and yields exactly all of them,
  and the last page carried no further cursor; a walk that reports \<open>truncated\<close> yielded exactly its budget; a walk that
  reports neither either raised or was given nothing to spend; and the budget is never exceeded.
\<close>

theorem exhausted_walk_is_every_page:
  assumes "finite (served_cursors env)" and "0 \<le> cfg_max_retries (env_config env)"
    and "iter_fill_pages env path max_fills page_limit new_stats unbounded c = Some (rows, st, err, c')"
  shows "(\<exists>rest. concat (map (page_rows ''fills'') (pages_of env (logged_since c c'))) = rows @ rest)
    \<and> (ws_exhausted st \<longrightarrow> err = None \<and> \<not> ws_truncated st
        \<and> rows = concat (map (page_rows ''fills'') (pages_of env (logged_since c c')))
        \<and> \<not> truthy (jget (last (pages_of env (logged_since c c'))) ''cursor''))
    \<and> (ws_truncated st \<longrightarrow> err = None \<and> map_option nat (fill_budget env max_fills unbounded) = Some (length rows))
    \<and> (\<not> ws_exhausted st \<and> \<not> ws_truncated st \<longrightarrow> err \<noteq> None \<or> spent (fill_budget env max_fills unbounded))
    \<and> (\<forall>n. fill_budget env max_fills unbounded = Some n \<longrightarrow> int (length rows) \<le> max 0 n)"
proof -
  obtain rows' st' err' c''
    where eq: "Some (rows, st, err, c') = Some (rows', st', err', c'')"
    and ends: "walk_ends env ''fills'' (fill_budget env max_fills unbounded) rows' st' err' (pages_of env (logged_since c c''))"
    using assms(3) unfolding iter_fill_pages_def fill_budget_def [symmetric]
    by (rule budget_walk_fresh [OF assms(2,1)]) blast
  show ?thesis using ends eq by (auto simp: walk_ends_def)
qed

text \<open>A server with one page of one fill.\<close>

definition one_page :: environment where
  "one_page = \<lparr>env_transport = (\<lambda>_ _ _. Inr (200, ''page'')), env_jitter = (\<lambda>_. 0),
     env_decode = (\<lambda>_. Some (JObj [(''fills'', JList [JObj []])])),
     env_config = \<lparr>cfg_base_url = DEFAULT_BASE_URL, cfg_max_fills = 200, cfg_page_limit = 100, cfg_max_retries = 0\<rparr>\<rparr>"

lemma one_page_cursors: "served_cursors one_page = {}"
  by (auto simp: served_cursors_def served_def one_page_def decode_json_object_def jget_def split: if_splits)

text \<open>A transport like this one answers every allowed read at once, whatever its document is.\<close>

lemma one_page_get:
  assumes "env_transport env = env_transport one_page" "env_config env = env_config one_page"
    and "env_decode env ''page'' = Some (JObj payload)" and "read_only path"
  shows "\<exists>c'. client_get env path params c = (Inr payload, c')"
  using assms
  by (simp add: client_get_def request_with_retries_def retry_loop.simps send_def one_page_def Let_def
      attempt_outcome_def success_def decode_json_object_def backoff_delays_def)

lemma one_page_read: "read_only ''/portfolio/fills''"
  by code_simp

theorem request_is_bounded_witness:
  "\<exists>answer c'. client_get one_page ''/portfolio/fills'' [] new_client = (answer, c')
    \<and> length (logged_since new_client c') = 1 \<and> (\<forall>x \<in> set (logged_since new_client c'). x_method x = ''GET'')"
proof -
  obtain answer c' where get: "client_get one_page ''/portfolio/fills'' [] new_client = (answer, c')" by force
  have "0 \<le> cfg_max_retries (env_config one_page)" "\<forall>i. 0 \<le> env_jitter one_page i \<and> env_jitter one_page i < 1"
    "nat (cfg_max_retries (env_config one_page)) = 0"
    by (simp_all add: one_page_def)
  then show ?thesis using request_is_bounded [OF get] get one_page_read by (intro exI conjI) auto
qed

theorem fill_walk_terminates_witness:
  "\<exists>rows st err c'. iter_fills one_page None None new_stats True new_client = Some (rows, st, err, c') \<and> ws_pages st \<le> 1"
proof -
  have "0 \<le> cfg_max_retries (env_config one_page)" by (simp add: one_page_def)
  with fill_walk_terminates [of one_page "''/portfolio/fills''" None None True new_client] one_page_cursors
  show ?thesis unfolding iter_fills_def by auto
qed

theorem exhausted_walk_is_every_page_witness:
  "\<exists>rows st c'. iter_fill_pages one_page ''/portfolio/fills'' None None new_stats True new_client = Some (rows, st, None, c')
    \<and> ws_exhausted st \<and> rows = concat (map (page_rows ''fills'') (pages_of one_page (logged_since new_client c')))"
proof -
  have "\<exists>rows st c'. iter_fill_pages one_page ''/portfolio/fills'' None None new_stats True new_client = Some (rows, st, None, c')
    \<and> ws_exhausted st"
    unfolding iter_fill_pages_def
    by (subst budget_pages.simps)
      (simp add: client_get_def one_page_read request_with_retries_def retry_loop.simps send_def one_page_def Let_def spent_def
        attempt_outcome_def success_def decode_json_object_def backoff_delays_def require_list_def next_cursor_def jget_def)
  then obtain rows st c' where w: "iter_fill_pages one_page ''/portfolio/fills'' None None new_stats True new_client = Some (rows, st, None, c')"
    "ws_exhausted st" by blast
  have "0 \<le> cfg_max_retries (env_config one_page)" by (simp add: one_page_def)
  with exhausted_walk_is_every_page [OF _ _ w(1)] w one_page_cursors show ?thesis by auto
qed

end
