(* ===== verification/Competitions.thy ===== *)
theory Competitions
  imports Json Sports
begin

text \<open>
  \<^verbatim>\<open>competitions.py\<close>: the exchange's competition and sport names and the routable sports they stand
  for. Tables are association lists in the order of the source and a frozenset is the list of its elements.
  Strings are ASCII, so the three soccer tokens with an accented letter cannot occur in a text and are left out.

  The lemmas: normalization is idempotent, and the token search finds a token exactly where it stands as a word.
\<close>

section \<open>Normalization\<close>

text \<open>\<open>re.sub(r"\s+", " ", text)\<close>; the flag says that the previous character was white space.\<close>

fun collapse_spaces :: "bool \<Rightarrow> string \<Rightarrow> string" where
  "collapse_spaces spaced [] = []"
| "collapse_spaces spaced (c # s) =
     (if is_space c then (if spaced then [] else '' '') @ collapse_spaces True s
      else c # collapse_spaces False s)"

definition normalize_text :: "string \<Rightarrow> string" where
  "normalize_text s = py_lower (py_strip (collapse_spaces False s))"

definition normalize :: "json \<Rightarrow> string" where
  "normalize v = (case v of JStr s \<Rightarrow> normalize_text s | _ \<Rightarrow> [])"

lemma normalize_JStr [simp]: "normalize (JStr s) = normalize_text s"
  by (simp add: normalize_def)

section \<open>Tokens\<close>

text \<open>The characters of \<open>[a-z0-9]\<close>, and the search for \<open>(?<![a-z0-9])token(?![a-z0-9])\<close>; the flag says that the
  previous character is one of them.\<close>

definition word_char :: "char \<Rightarrow> bool" where
  "word_char c \<longleftrightarrow> is_digit c \<or> (CHR ''a'' \<le> c \<and> c \<le> CHR ''z'')"

definition at_word :: "string \<Rightarrow> bool" where
  "at_word s = (case s of [] \<Rightarrow> False | c # _ \<Rightarrow> word_char c)"

fun token_search :: "string \<Rightarrow> bool \<Rightarrow> string \<Rightarrow> bool" where
  "token_search token before [] = (\<not> before \<and> token = [])"
| "token_search token before (c # s) =
     (\<not> before \<and> starts_with (c # s) token \<and> \<not> at_word (drop (length token) (c # s))
      \<or> token_search token (word_char c) s)"

definition has_token :: "string \<Rightarrow> string \<Rightarrow> bool" where
  "has_token text token = token_search token False text"

section \<open>Tables\<close>

definition COMPETITION_TO_SPORT :: "(string, sport) dict" where
  "COMPETITION_TO_SPORT =
     [(''pro baseball'', MLB), (''mlb'', MLB), (''major league baseball'', MLB),
      (''pro football'', NFL), (''nfl'', NFL), (''national football league'', NFL),
      (''college football'', CFB), (''ncaa football'', CFB), (''ncaaf'', CFB),
      (''pro hockey'', NHL), (''nhl'', NHL), (''national hockey league'', NHL),
      (''pro basketball (m)'', NBA), (''nba'', NBA), (''national basketball association'', NBA)]"

definition CLOSED_VOCABULARY_LEAGUES :: "(sport, string list) dict" where
  "CLOSED_VOCABULARY_LEAGUES =
     [(NHL, [''pro hockey'', ''nhl'', ''national hockey league'']),
      (NBA, [''pro basketball (m)'', ''nba'', ''national basketball association''])]"

definition COMPETITION_OUT_OF_SCOPE :: "string list" where
  "COMPETITION_OUT_OF_SCOPE =
     [''pro basketball (w)'', ''wnba'', ''college basketball (m)'', ''college basketball (w)'', ''college basketball'', ''ncaab'',
      ''college hockey'', ''college hockey (m)'', ''college hockey (w)'', ''ncaa hockey'', ''khl'', ''shl'', ''ahl'', ''pwhl'',
      ''finland liiga'', ''liiga'', ''germany del'', ''czech extraliga'', ''switzerland national league'',
      ''iihf'', ''world juniors'', ''field hockey'',
      ''college baseball'', ''pro golf'', ''golf'', ''esports'',
      ''mma'', ''boxing'', ''cricket'', ''rugby'', ''motorsport'', ''auto racing'']"

definition SPORT_TO_SPORT :: "(string, sport) dict" where
  "SPORT_TO_SPORT =
     [(''tennis'', TENNIS), (''soccer'', SOCCER), (''football (soccer)'', SOCCER), (''association football'', SOCCER)]"

definition OUT_OF_SCOPE_SPORTS :: "string list" where
  "OUT_OF_SCOPE_SPORTS =
     [''golf'', ''esports'', ''mma'', ''boxing'',
      ''cricket'', ''rugby'', ''motorsport'', ''auto racing'', ''racing'', ''olympics'',
      ''chess'', ''darts'', ''cycling'', ''table tennis'', ''volleyball'', ''lacrosse'',
      ''softball'', ''track and field'', ''swimming'', ''wrestling'', ''sumo'', ''surfing'',
      ''skiing'', ''snowboarding'', ''badminton'', ''handball'', ''formula 1'', ''nascar'']"

definition AMBIGUOUS_SPORTS :: "string list" where
  "AMBIGUOUS_SPORTS = [''football'', ''baseball'', ''hockey'', ''basketball'']"

definition SPORT_FAMILY_MEMBERS :: "(string, sport list) dict" where
  "SPORT_FAMILY_MEMBERS =
     [(''baseball'', [MLB]),
      (''football'', [NFL, CFB]),
      (''american football'', [NFL, CFB]),
      (''college football'', [CFB]),
      (''hockey'', [NHL]),
      (''ice hockey'', [NHL]),
      (''basketball'', [NBA]),
      (''tennis'', [TENNIS]),
      (''soccer'', [SOCCER]),
      (''football (soccer)'', [SOCCER]),
      (''association football'', [SOCCER])]"

definition TENNIS_COMPETITION_TOKENS :: "string list" where
  "TENNIS_COMPETITION_TOKENS = [''atp'', ''wta'', ''itf'']"

definition SOCCER_COMPETITION_TOKENS :: "string list" where
  "SOCCER_COMPETITION_TOKENS =
     [''uefa'', ''la liga'', ''bundesliga'', ''ligue 1'', ''mls'', ''concacaf'', ''conmebol'', ''brasileirao'',
      ''eredivisie'', ''liga mx'', ''copa libertadores'', ''copa america'', ''fifa'', ''epl'',
      ''english premier league'', ''serie a'', ''primeira liga'', ''a-league'', ''nwsl'']"

section \<open>Readings of a name\<close>

text \<open>\<open>None\<close> is "we cannot say", the empty list "positively none of ours".\<close>

definition possible_sports :: "string \<Rightarrow> sport list option" where
  "possible_sports sport_name =
     (let key = normalize_text sport_name in
      if key = [] then None
      else case dget SPORT_FAMILY_MEMBERS key of
          Some members \<Rightarrow> Some members
        | None \<Rightarrow> if key \<in> set OUT_OF_SCOPE_SPORTS then Some [] else None)"

definition sport_from_competition :: "string \<Rightarrow> sport option" where
  "sport_from_competition competition =
     (let key = normalize_text competition in
      if key = [] then None
      else case dget COMPETITION_TO_SPORT key of
          Some s \<Rightarrow> Some s
        | None \<Rightarrow>
            if key \<in> set COMPETITION_OUT_OF_SCOPE then Some OTHER
            else if list_ex (has_token key) TENNIS_COMPETITION_TOKENS then Some TENNIS
            else if list_ex (has_token key) SOCCER_COMPETITION_TOKENS then Some SOCCER
            else None)"

definition sport_from_taxonomy_sport :: "string \<Rightarrow> sport option" where
  "sport_from_taxonomy_sport sport_name =
     (let key = normalize_text sport_name in
      if key = [] then None
      else case dget SPORT_TO_SPORT key of
          Some s \<Rightarrow> Some s
        | None \<Rightarrow> if key \<in> set OUT_OF_SCOPE_SPORTS then Some OTHER else None)"

definition closed_vocabulary_excludes :: "sport \<Rightarrow> string \<Rightarrow> bool" where
  "closed_vocabulary_excludes s competition =
     (case dget CLOSED_VOCABULARY_LEAGUES s of
        None \<Rightarrow> False
      | Some names \<Rightarrow> normalize_text competition \<notin> set names)"

definition is_ambiguous_sport :: "string \<Rightarrow> bool" where
  "is_ambiguous_sport sport_name \<longleftrightarrow> normalize_text sport_name \<in> set AMBIGUOUS_SPORTS"

section \<open>Normalization is idempotent\<close>

lemma is_space_code: "is_space c \<longleftrightarrow> (let n = of_char c :: nat in n = 32 \<or> 9 \<le> n \<and> n \<le> 13 \<or> 28 \<le> n \<and> n \<le> 31)"
proof -
  have "c = CHR '' '' \<longleftrightarrow> of_char c = (32 :: nat)"
    by (subst of_char_eq_iff [symmetric, where ?'a = nat]) simp
  then show ?thesis by (auto simp: is_space_def less_eq_char_def Let_def)
qed

lemma lower_char_code: "(of_char (lower_char c) :: nat) =
    (let n = of_char c in if 65 \<le> n \<and> n \<le> 90 then n + 32 else n)"
  by (auto simp: lower_char_def less_eq_char_def Let_def)

lemma is_space_lower [simp]: "is_space (lower_char c) = is_space c"
  by (auto simp: is_space_code lower_char_code Let_def)

lemma lower_char_idem [simp]: "lower_char (lower_char c) = lower_char c"
  by (subst of_char_eq_iff [symmetric, where ?'a = nat]) (simp add: lower_char_code Let_def)

lemma lower_blank [simp]: "lower_char CHR '' '' = CHR '' ''"
  by (simp add: lower_char_def less_eq_char_def)

text \<open>White space as normalization leaves it: single blanks.\<close>

definition single_spaced :: "string \<Rightarrow> bool" where
  "single_spaced s \<longleftrightarrow>
     successively (\<lambda>c d. \<not> (is_space c \<and> is_space d)) s \<and> (\<forall>c \<in> set s. is_space c \<longrightarrow> c = CHR '' '')"

lemma single_spaced_Nil [simp]: "single_spaced []"
  by (simp add: single_spaced_def)

lemma single_spaced_Cons: "single_spaced (c # s) \<longleftrightarrow>
    single_spaced s \<and> (is_space c \<longrightarrow> c = CHR '' '' \<and> (s = [] \<or> \<not> is_space (hd s)))"
  by (cases s) (auto simp: single_spaced_def)

lemma is_space_blank [simp]: "is_space CHR '' ''"
  by (simp add: is_space_def)

lemma collapse_single_spaced:
  "single_spaced (collapse_spaces b s) \<and> (b \<longrightarrow> collapse_spaces b s = [] \<or> \<not> is_space (hd (collapse_spaces b s)))"
  by (induction b s rule: collapse_spaces.induct) (auto simp: single_spaced_Cons)

lemma collapse_id: "single_spaced s \<Longrightarrow> (b \<Longrightarrow> s = [] \<or> \<not> is_space (hd s)) \<Longrightarrow> collapse_spaces b s = s"
  by (induction b s rule: collapse_spaces.induct) (auto simp: single_spaced_Cons)

lemma single_spaced_rev [simp]: "single_spaced (rev s) = single_spaced s"
proof -
  have "successively (\<lambda>x y. \<not> (is_space y \<and> is_space x)) s = successively (\<lambda>x y. \<not> (is_space x \<and> is_space y)) s"
    by (rule successively_cong) auto
  then show ?thesis by (simp only: single_spaced_def successively_rev set_rev)
qed

lemma single_spaced_dropWhile: "single_spaced s \<Longrightarrow> single_spaced (dropWhile P s)"
  by (induction s) (auto simp: single_spaced_Cons)

lemma single_spaced_strip: "single_spaced s \<Longrightarrow> single_spaced (py_strip s)"
  by (simp add: py_strip_def single_spaced_dropWhile)

lemma single_spaced_lower: "single_spaced s \<Longrightarrow> single_spaced (py_lower s)"
proof (induction s)
  case (Cons c s)
  then show ?case by (cases s) (auto simp: single_spaced_Cons py_lower_def)
qed (simp add: py_lower_def)

lemma dropWhile_lower: "dropWhile is_space (py_lower s) = py_lower (dropWhile is_space s)"
  by (simp add: py_lower_def dropWhile_map comp_def)

lemma py_strip_lower: "py_strip (py_lower s) = py_lower (py_strip s)"
  unfolding py_strip_def dropWhile_lower
  by (simp add: py_lower_def rev_map dropWhile_map comp_def)

lemma dropWhile_strip: "dropWhile P (rev (dropWhile P (rev (dropWhile P s)))) = rev (dropWhile P (rev (dropWhile P s)))"
proof (cases "dropWhile P s")
  case (Cons c t)
  then have "\<not> P c" by (metis hd_dropWhile list.distinct(1) list.sel(1))
  then show ?thesis using Cons by (simp add: dropWhile_append3 dropWhile_append)
next
  case Nil
  then show ?thesis by (simp only: Nil rev.simps dropWhile.simps)
qed

lemma py_strip_idem [simp]: "py_strip (py_strip s) = py_strip s"
  unfolding py_strip_def by (simp add: dropWhile_strip)

lemma normalize_text_idem [simp]: "normalize_text (normalize_text s) = normalize_text s"
proof -
  let ?t = "py_strip (collapse_spaces False s)"
  have "single_spaced (py_lower ?t)"
    using collapse_single_spaced [of False s] by (intro single_spaced_lower single_spaced_strip) simp
  then have "collapse_spaces False (py_lower ?t) = py_lower ?t" by (rule collapse_id) simp
  then show ?thesis
    by (simp add: normalize_text_def py_strip_lower) (simp add: py_lower_def)
qed

lemma collapse_blank: "list_all is_space s \<Longrightarrow> list_all is_space (collapse_spaces b s)"
  by (induction b s rule: collapse_spaces.induct) (auto simp: is_space_def)

lemma collapse_nonblank: "\<not> list_all is_space s \<Longrightarrow> \<not> list_all is_space (collapse_spaces b s)"
  by (induction b s rule: collapse_spaces.induct) auto

lemma normalize_text_Nil_iff: "normalize_text s = [] \<longleftrightarrow> blank s"
proof -
  have "normalize_text s = [] \<longleftrightarrow> blank (collapse_spaces False s)"
    by (simp add: normalize_text_def py_lower_def blank_def)
  then show ?thesis
    using collapse_blank [of s False] collapse_nonblank [of s False] by (auto simp: blank_iff list_all_iff)
qed

text \<open>A reading of a name depends on its normal form only.\<close>

lemma readings_of_normal_form [simp]:
  "possible_sports (normalize_text s) = possible_sports s"
  "sport_from_competition (normalize_text s) = sport_from_competition s"
  "sport_from_taxonomy_sport (normalize_text s) = sport_from_taxonomy_sport s"
  "closed_vocabulary_excludes sp (normalize_text s) = closed_vocabulary_excludes sp s"
  by (simp_all add: possible_sports_def sport_from_competition_def sport_from_taxonomy_sport_def
      closed_vocabulary_excludes_def split: option.splits)

section \<open>The token search finds whole words\<close>

definition ends_word :: "string \<Rightarrow> bool" where
  "ends_word s \<longleftrightarrow> s \<noteq> [] \<and> word_char (last s)"

lemma token_search_iff:
  assumes "token \<noteq> []"
  shows "token_search token before name \<longleftrightarrow>
    (\<exists>pre post. name = pre @ token @ post \<and> \<not> (if pre = [] then before else ends_word pre) \<and> \<not> at_word post)"
proof (induction name arbitrary: before)
  case Nil
  with assms show ?case by simp
next
  case (Cons c s)
  let ?here = "\<exists>post. c # s = token @ post \<and> \<not> before \<and> \<not> at_word post"
  have here: "\<not> before \<and> starts_with (c # s) token \<and> \<not> at_word (drop (length token) (c # s)) \<longleftrightarrow> ?here"
    by (auto simp: starts_with_iff)
  have later: "token_search token (word_char c) s \<longleftrightarrow>
    (\<exists>pre post. c # s = (c # pre) @ token @ post \<and> \<not> ends_word (c # pre) \<and> \<not> at_word post)"
    by (subst Cons.IH) (auto simp: ends_word_def)
  have split: "(\<exists>pre post. c # s = pre @ token @ post \<and> \<not> (if pre = [] then before else ends_word pre) \<and> \<not> at_word post)
    \<longleftrightarrow> ?here \<or> (\<exists>pre post. c # s = (c # pre) @ token @ post \<and> \<not> ends_word (c # pre) \<and> \<not> at_word post)"
    (is "(\<exists>pre. ?P pre) \<longleftrightarrow> _")
  proof -
    have cases: "(\<exists>pre. P pre) \<longleftrightarrow> P [] \<or> (\<exists>d pre. P (d # pre))" for P :: "string \<Rightarrow> bool"
      using list.exhaust by (metis (full_types))
    have "(\<exists>pre. ?P pre) \<longleftrightarrow> ?P [] \<or> (\<exists>d pre. ?P (d # pre))" by (rule cases)
    moreover have "?P [] \<longleftrightarrow> ?here" by auto
    moreover have "(\<exists>d pre. ?P (d # pre)) \<longleftrightarrow>
        (\<exists>pre post. c # s = (c # pre) @ token @ post \<and> \<not> ends_word (c # pre) \<and> \<not> at_word post)"
      by auto
    ultimately show ?thesis by blast
  qed
  show ?case unfolding token_search.simps here later split by simp
qed

lemma has_token_iff:
  "token \<noteq> [] \<Longrightarrow> has_token name token \<longleftrightarrow>
     (\<exists>pre post. name = pre @ token @ post \<and> \<not> ends_word pre \<and> \<not> at_word post)"
  unfolding has_token_def token_search_iff by (auto simp: ends_word_def) 

end
