(* ===== verification/Taxonomy.thy ===== *)
theory Taxonomy
  imports Competitions PyText
begin

text \<open>
  \<^verbatim>\<open>taxonomy.py\<close>: the index from competitions to sports read out of the exchange's
  \<^verbatim>\<open>filters_by_sport\<close> answer. Python sets are lists without repetition.

  The lemmas: whatever the order and the shape of the answer, a competition has an owner exactly when one sport
  claims it, and it is ambiguous exactly when several do.
\<close>

definition COMPETITION_KEYS :: "string list" where
  "COMPETITION_KEYS = [''competitions'', ''competition'', ''leagues'']"

definition SCOPE_KEYS :: "string list" where
  "SCOPE_KEYS = [''scopes'', ''scope'']"

definition NAME_KEYS :: "string list" where
  "NAME_KEYS = [''name'', ''title'', ''label'', ''value'', ''competition'', ''display_name'']"

section \<open>Names in an entry\<close>

definition nonblank_names :: "json \<Rightarrow> string list" where
  "nonblank_names v = (case v of JStr s \<Rightarrow> if blank s then [] else [s] | _ \<Rightarrow> [])"

text \<open>The first usable name field of an object: the loop that breaks.\<close>

definition first_name :: "jobj \<Rightarrow> string list" where
  "first_name ob = take 1 (concat (map (\<lambda>key. nonblank_names (jget ob key)) NAME_KEYS))"

definition entry_names :: "json \<Rightarrow> string list" where
  "entry_names v = (case v of
       JList items \<Rightarrow> concat (map (\<lambda>item. case item of JObj ob \<Rightarrow> first_name ob | _ \<Rightarrow> nonblank_names item) items)
     | _ \<Rightarrow> [])"

definition competition_names :: "json \<Rightarrow> string list" where
  "competition_names v = (case v of
       JObj ob \<Rightarrow>
         concat (map (\<lambda>(key, nested). (if blank key then [] else [key])
            @ (case nested of JObj inner \<Rightarrow> first_name inner | _ \<Rightarrow> entry_names nested)) ob)
     | _ \<Rightarrow> entry_names v)"

section \<open>The index\<close>

record sport_taxonomy =
  competition_to_sport :: "(string, string) dict"
  ambiguous_claimants :: "(string, string list) dict"
  ambiguous_competitions :: "string list"
  sports :: "(string, string) dict"
  scopes :: "string list"
  skipped_sports :: nat
  observed_keys :: "(string, nat) dict"
  observed_key_kinds :: "(string, string) dict"
  observed_entry_keys :: "(string, nat) dict"

definition empty_taxonomy :: sport_taxonomy where
  "empty_taxonomy = \<lparr>competition_to_sport = [], ambiguous_claimants = [], ambiguous_competitions = [], sports = [],
     scopes = [], skipped_sports = 0, observed_keys = [], observed_key_kinds = [], observed_entry_keys = []\<rparr>"

definition sport_count :: "sport_taxonomy \<Rightarrow> nat" where
  "sport_count t = length (sports t)"

definition competition_count :: "sport_taxonomy \<Rightarrow> nat" where
  "competition_count t = length (competition_to_sport t)"

definition collision_count :: "sport_taxonomy \<Rightarrow> nat" where
  "collision_count t = length (ambiguous_competitions t)"

definition is_ambiguous_competition :: "sport_taxonomy \<Rightarrow> string \<Rightarrow> bool" where
  "is_ambiguous_competition t competition \<longleftrightarrow> normalize_text competition \<in> set (ambiguous_competitions t)"

definition sport_for_competition :: "sport_taxonomy \<Rightarrow> string \<Rightarrow> string option" where
  "sport_for_competition t competition =
     (let key = normalize_text competition in
      if key \<in> set (ambiguous_competitions t) then None else dget (competition_to_sport t) key)"

section \<open>The observed shape\<close>

definition MAX_OBSERVED_KEYS :: nat where "MAX_OBSERVED_KEYS = 40"

fun type_name :: "json \<Rightarrow> string" where
  "type_name JNull = ''NoneType''"
| "type_name (JBool b) = ''bool''"
| "type_name (JInt i) = ''int''"
| "type_name (JFloat x) = ''float''"
| "type_name (JStr s) = ''str''"
| "type_name (JList xs) = ''list''"
| "type_name (JObj ob) = ''dict''"

definition kind_of :: "json \<Rightarrow> string" where
  "kind_of v = (case v of
       JObj _ \<Rightarrow> ''object''
     | JList items \<Rightarrow>
         if items = [] then ''list[empty]''
         else ''list['' @ join ''|'' (sorted_set (map (\<lambda>i. case i of JObj _ \<Rightarrow> ''object'' | _ \<Rightarrow> type_name i) items)) @ '']''
     | _ \<Rightarrow> type_name v)"

definition capped_bump :: "string \<Rightarrow> (string, nat) dict \<Rightarrow> (string, nat) dict" where
  "capped_bump key counter =
     (if key \<in> set (dkeys counter) \<or> length counter < MAX_OBSERVED_KEYS then dbump key counter else counter)"

text \<open>The names one value adds to \<open>observed_entry_keys\<close>, in the order of the loops.\<close>

definition entry_keys_of :: "string \<Rightarrow> json \<Rightarrow> string list" where
  "entry_keys_of key v = (case v of
       JList items \<Rightarrow> concat (map (\<lambda>item. case item of JObj ob \<Rightarrow> dkeys ob | _ \<Rightarrow> []) items)
     | JObj ob \<Rightarrow> map (\<lambda>(_, nested). key @ ''_value_'' @ kind_of nested) ob
     | _ \<Rightarrow> [])"

definition observe_key :: "string \<times> json \<Rightarrow> sport_taxonomy \<Rightarrow> sport_taxonomy" where
  "observe_key kv t = (case kv of (key, v) \<Rightarrow>
     t\<lparr>observed_keys := capped_bump key (observed_keys t),
       observed_key_kinds :=
         (if dget (observed_key_kinds t) key = None then dput key (kind_of v) (observed_key_kinds t)
          else observed_key_kinds t),
       observed_entry_keys := fold capped_bump (entry_keys_of key v) (observed_entry_keys t)\<rparr>)"

definition observe_shape :: "jobj \<Rightarrow> sport_taxonomy \<Rightarrow> sport_taxonomy" where
  "observe_shape details t = fold observe_key details t"

section \<open>Parsing\<close>

definition add_claim :: "string \<Rightarrow> string \<Rightarrow> (string, string list) dict \<Rightarrow> (string, string list) dict" where
  "add_claim owner competition d =
     (let key = normalize_text competition in
      dput key (List.insert owner (case dget d key of None \<Rightarrow> [] | Some owners \<Rightarrow> owners)) d)"

definition names_under :: "string list \<Rightarrow> (json \<Rightarrow> string list) \<Rightarrow> jobj \<Rightarrow> string list" where
  "names_under keys reader details = concat (map (\<lambda>key. reader (jget details key)) keys)"

definition add_scopes :: "string list \<Rightarrow> sport_taxonomy \<Rightarrow> sport_taxonomy" where
  "add_scopes names t = t\<lparr>scopes := fold (\<lambda>s. List.insert (normalize_text s)) names (scopes t)\<rparr>"

definition read_sport ::
  "string \<times> json \<Rightarrow> sport_taxonomy \<times> (string, string list) dict \<Rightarrow> sport_taxonomy \<times> (string, string list) dict" where
  "read_sport item acc = (case item of (sport_name, details) \<Rightarrow> case acc of (t, claimants) \<Rightarrow>
     if blank sport_name then (t\<lparr>skipped_sports := skipped_sports t + 1\<rparr>, claimants)
     else
       let owner = normalize_text sport_name; t = t\<lparr>sports := dput owner sport_name (sports t)\<rparr> in
       case details of
         JObj ob \<Rightarrow>
           (add_scopes (names_under SCOPE_KEYS entry_names ob) (observe_shape ob t),
            fold (add_claim owner) (names_under COMPETITION_KEYS competition_names ob) claimants)
       | _ \<Rightarrow> (t\<lparr>skipped_sports := skipped_sports t + 1\<rparr>, claimants))"

definition settle_claim :: "string \<times> string list \<Rightarrow> sport_taxonomy \<Rightarrow> sport_taxonomy" where
  "settle_claim claim t = (case claim of (competition, owners) \<Rightarrow>
     if length owners = 1
     then t\<lparr>competition_to_sport := dput competition (hd owners) (competition_to_sport t)\<rparr>
     else t\<lparr>ambiguous_competitions := List.insert competition (ambiguous_competitions t),
            ambiguous_claimants := dput competition owners (ambiguous_claimants t)\<rparr>)"

definition read_filters :: "jobj \<Rightarrow> sport_taxonomy" where
  "read_filters filters =
     (case fold read_sport filters (empty_taxonomy, []) of (t, claimants) \<Rightarrow> fold settle_claim claimants t)"

definition parse_filters_by_sport :: "jobj \<Rightarrow> sport_taxonomy result" where
  "parse_filters_by_sport payload =
     (case jget payload ''filters_by_sports'' of JObj filters \<Rightarrow> Inr (read_filters filters) | _ \<Rightarrow> Inl SchemaError)"

section \<open>Who claims a competition\<close>

text \<open>The specification: the sports under which the answer lists a name, with no order and no counting.\<close>

definition lists_competition :: "string \<Rightarrow> string \<times> json \<Rightarrow> bool" where
  "lists_competition key item = (case item of (sport_name, details) \<Rightarrow>
     \<not> blank sport_name
     \<and> (case details of
          JObj ob \<Rightarrow> key \<in> normalize_text ` set (names_under COMPETITION_KEYS competition_names ob)
        | _ \<Rightarrow> False))"

definition claimed_by :: "jobj \<Rightarrow> string \<Rightarrow> string set" where
  "claimed_by filters key = {normalize_text sport_name | sport_name details.
     (sport_name, details) \<in> set filters \<and> lists_competition key (sport_name, details)}"

definition owners_in :: "(string, string list) dict \<Rightarrow> string \<Rightarrow> string set" where
  "owners_in d key = (case dget d key of None \<Rightarrow> {} | Some owners \<Rightarrow> set owners)"

definition claims_ok :: "(string, string list) dict \<Rightarrow> bool" where
  "claims_ok d \<longleftrightarrow> distinct (dkeys d)
     \<and> (\<forall>(key, owners) \<in> set d. owners \<noteq> [] \<and> distinct owners \<and> normalize_text key = key)"

lemma claims_ok_Nil [simp]: "claims_ok []"
  by (simp add: claims_ok_def)

lemma claims_ok_dput:
  "claims_ok d \<Longrightarrow> owners \<noteq> [] \<Longrightarrow> distinct owners \<Longrightarrow> normalize_text key = key \<Longrightarrow> claims_ok (dput key owners d)"
  by (fastforce simp: claims_ok_def in_dput split: if_splits)

lemma claims_ok_get: "claims_ok d \<Longrightarrow> dget d key = Some owners \<Longrightarrow> owners \<noteq> [] \<and> distinct owners"
  by (auto simp: claims_ok_def dest!: map_of_SomeD)

lemma add_claim_ok: "claims_ok d \<Longrightarrow> claims_ok (add_claim owner name d)"
  unfolding add_claim_def Let_def
  by (rule claims_ok_dput) (auto simp: List.insert_def split: option.splits dest: claims_ok_get)

lemma owners_in_add_claim:
  "owners_in (add_claim owner name d) key =
     owners_in d key \<union> (if key = normalize_text name then {owner} else {})"
  by (auto simp: owners_in_def add_claim_def Let_def split: option.splits)

lemma fold_add_claim:
  "claims_ok d \<Longrightarrow> claims_ok (fold (add_claim owner) names d)
    \<and> owners_in (fold (add_claim owner) names d) key =
        owners_in d key \<union> (if key \<in> normalize_text ` set names then {owner} else {})"
  by (induction names arbitrary: d) (auto simp: add_claim_ok owners_in_add_claim)

lemma read_sport_claims:
  assumes "claims_ok (snd acc)"
  shows "claims_ok (snd (read_sport item acc))"
    and "owners_in (snd (read_sport item acc)) key =
      owners_in (snd acc) key \<union> (if lists_competition key item then {normalize_text (fst item)} else {})"
  using assms fold_add_claim
  by (auto simp: read_sport_def lists_competition_def Let_def split: prod.splits json.splits if_splits)

lemma claimed_by_Nil [simp]: "claimed_by [] key = {}"
  by (simp add: claimed_by_def)

lemma claimed_by_Cons: "claimed_by (item # filters) key =
    (if lists_competition key item then {normalize_text (fst item)} else {}) \<union> claimed_by filters key"
  by (cases item) (auto simp: claimed_by_def)

lemma fold_read_sport:
  "claims_ok (snd acc) \<Longrightarrow> claims_ok (snd (fold read_sport filters acc))
    \<and> owners_in (snd (fold read_sport filters acc)) key = owners_in (snd acc) key \<union> claimed_by filters key"
proof (induction filters arbitrary: acc)
  case (Cons item filters)
  then show ?case
    using read_sport_claims [OF Cons.prems, of item] by (simp add: claimed_by_Cons Un_assoc)
qed simp

text \<open>Before the claims are settled no competition has an owner.\<close>

definition unsettled :: "sport_taxonomy \<Rightarrow> bool" where
  "unsettled t \<longleftrightarrow> competition_to_sport t = [] \<and> ambiguous_claimants t = [] \<and> ambiguous_competitions t = []"

lemma unsettled_fold:
  assumes "\<And>x t. unsettled (f x t) = unsettled t"
  shows "unsettled (fold f xs t) = unsettled t"
  by (induction xs arbitrary: t) (simp_all add: assms)

lemma unsettled_observe [simp]: "unsettled (observe_shape ob t) = unsettled t"
  unfolding observe_shape_def
  by (rule unsettled_fold) (simp add: observe_key_def unsettled_def split: prod.splits)

lemma unsettled_read_sport: "unsettled (fst (read_sport item acc)) = unsettled (fst acc)"
  using unsettled_observe
  by (auto simp: read_sport_def add_scopes_def Let_def unsettled_def split: prod.splits json.splits)

lemma unsettled_fold_read: "unsettled (fst (fold read_sport filters acc)) = unsettled (fst acc)"
  by (induction filters arbitrary: acc) (simp_all add: unsettled_read_sport)

lemma settle_claim_fields:
  "dget (competition_to_sport (settle_claim (k, owners) t)) key =
     (if key = k \<and> length owners = 1 then Some (hd owners) else dget (competition_to_sport t) key)"
  "dget (ambiguous_claimants (settle_claim (k, owners) t)) key =
     (if key = k \<and> length owners \<noteq> 1 then Some owners else dget (ambiguous_claimants t) key)"
  "set (ambiguous_competitions (settle_claim (k, owners) t)) =
     (if length owners = 1 then {} else {k}) \<union> set (ambiguous_competitions t)"
  "distinct (dkeys (ambiguous_claimants t)) \<Longrightarrow> distinct (dkeys (ambiguous_claimants (settle_claim (k, owners) t)))"
  by (simp_all add: settle_claim_def)

lemma fold_settle_owner:
  "distinct (dkeys d) \<Longrightarrow> dget (competition_to_sport (fold settle_claim d t)) key =
      (case dget d key of
         Some owners \<Rightarrow> if length owners = 1 then Some (hd owners) else dget (competition_to_sport t) key
       | None \<Rightarrow> dget (competition_to_sport t) key)"
proof (induction d arbitrary: t)
  case (Cons item d)
  obtain k owners where "item = (k, owners)" by fastforce
  with Cons.prems have "key = k \<Longrightarrow> dget d key = None" by (simp add: map_of_eq_None_iff)
  with Cons \<open>item = (k, owners)\<close> show ?case
    by (cases "key = k") (simp_all add: settle_claim_fields split: option.split)
qed simp

lemma fold_settle_claimants:
  "distinct (dkeys d) \<Longrightarrow> dget (ambiguous_claimants (fold settle_claim d t)) key =
      (case dget d key of
         Some owners \<Rightarrow> if length owners = 1 then dget (ambiguous_claimants t) key else Some owners
       | None \<Rightarrow> dget (ambiguous_claimants t) key)"
proof (induction d arbitrary: t)
  case (Cons item d)
  obtain k owners where "item = (k, owners)" by fastforce
  with Cons.prems have "key = k \<Longrightarrow> dget d key = None" by (simp add: map_of_eq_None_iff)
  with Cons \<open>item = (k, owners)\<close> show ?case
    by (cases "key = k") (simp_all add: settle_claim_fields split: option.split)
qed simp

lemma fold_settle_ambiguous:
  "distinct (dkeys d) \<Longrightarrow> set (ambiguous_competitions (fold settle_claim d t)) =
      set (ambiguous_competitions t) \<union> {key. \<exists>owners. dget d key = Some owners \<and> length owners \<noteq> 1}"
proof (induction d arbitrary: t)
  case (Cons item d)
  obtain k owners where "item = (k, owners)" by fastforce
  with Cons.prems have "dget d k = None" by (simp add: map_of_eq_None_iff)
  with Cons \<open>item = (k, owners)\<close> show ?case
    by (auto simp: settle_claim_fields split: if_splits)
qed simp

lemma fold_settle_distinct:
  "distinct (dkeys (ambiguous_claimants t)) \<Longrightarrow> distinct (dkeys (ambiguous_claimants (fold settle_claim d t)))"
  by (induction d arbitrary: t) (auto simp: settle_claim_fields)

lemmas fold_settle_claim = fold_settle_owner fold_settle_claimants fold_settle_ambiguous

lemma set_singleton_list: "distinct xs \<Longrightarrow> set xs = {s} \<longleftrightarrow> xs = [s]"
proof (cases xs)
  case (Cons x ys)
  then show "distinct xs \<Longrightarrow> ?thesis" by (cases ys) auto
qed simp

text \<open>What parsing an answer establishes.\<close>

lemma parsed_claims:
  assumes "parse_filters_by_sport payload = Inr t"
  obtains filters d where "jget payload ''filters_by_sports'' = JObj filters"
    and "claims_ok d" and "\<And>key. owners_in d key = claimed_by filters key"
    and "\<And>key. dget (competition_to_sport t) key = (case dget d key of
           Some owners \<Rightarrow> if length owners = 1 then Some (hd owners) else None | None \<Rightarrow> None)"
    and "\<And>key. dget (ambiguous_claimants t) key = (case dget d key of
           Some owners \<Rightarrow> if length owners = 1 then None else Some owners | None \<Rightarrow> None)"
    and "set (ambiguous_competitions t) = {key. \<exists>owners. dget d key = Some owners \<and> length owners \<noteq> 1}"
    and "distinct (dkeys (ambiguous_claimants t))"
proof -
  from assms obtain filters where f: "jget payload ''filters_by_sports'' = JObj filters" and t: "t = read_filters filters"
    by (auto simp: parse_filters_by_sport_def split: json.splits)
  obtain u d where ud: "fold read_sport filters (empty_taxonomy, []) = (u, d)" by fastforce
  have d: "claims_ok d" "\<And>key. owners_in d key = claimed_by filters key"
    using fold_read_sport [of "(empty_taxonomy, [])" filters] by (simp_all add: ud owners_in_def)
  have "unsettled (fst (u, d))"
    unfolding ud [symmetric] unsettled_fold_read by (simp add: unsettled_def empty_taxonomy_def)
  then have u: "competition_to_sport u = []" "ambiguous_claimants u = []" "ambiguous_competitions u = []"
    by (simp_all add: unsettled_def)
  have dist: "distinct (dkeys d)" using d by (simp add: claims_ok_def)
  have t': "t = fold settle_claim d u" by (simp add: t read_filters_def ud)
  show ?thesis
    by (rule that [OF f d]) (simp_all add: t' fold_settle_claim [OF dist] fold_settle_distinct u split: option.split)
qed

lemma single_owner: "(if length xs = 1 then Some (hd xs) else None) = Some s \<longleftrightarrow> xs = [s]"
proof (cases xs)
  case (Cons x ys)
  then show ?thesis by (cases ys) simp_all
qed simp

lemma owner_iff:
  assumes "claims_ok d"
  shows "(case dget d key of Some owners \<Rightarrow> if length owners = 1 then Some (hd owners) else None | None \<Rightarrow> None) = Some s
    \<longleftrightarrow> owners_in d key = {s}"
proof (cases "dget d key")
  case (Some owners)
  then have "set owners = {s} \<longleftrightarrow> owners = [s]"
    by (intro set_singleton_list conjunct2 [OF claims_ok_get [OF assms]])
  then show ?thesis by (simp only: Some owners_in_def option.case single_owner)
qed (simp add: owners_in_def)

lemma no_singleton:
  assumes "A \<noteq> {}"
  shows "\<not> (\<exists>s. A = {s}) \<longleftrightarrow> (\<exists>s \<in> A. \<exists>s' \<in> A. s \<noteq> s')"
proof -
  have "is_singleton A \<longleftrightarrow> (\<forall>s \<in> A. \<forall>s' \<in> A. s = s')"
    using assms by (auto intro: is_singletonI' elim: is_singletonE)
  then show ?thesis by (simp add: is_singleton_def)
qed

lemma several_owners_iff:
  assumes "claims_ok d"
  shows "(\<exists>owners. dget d key = Some owners \<and> length owners \<noteq> 1)
    \<longleftrightarrow> (\<exists>s \<in> owners_in d key. \<exists>s' \<in> owners_in d key. s \<noteq> s')"
proof (cases "dget d key")
  case (Some owners)
  then have ne: "set owners \<noteq> {}" and one: "set owners = {s} \<longleftrightarrow> owners = [s]" for s
    using claims_ok_get [OF assms Some] set_singleton_list [of owners s] by (simp, blast)
  have "length owners = 1 \<longleftrightarrow> (\<exists>s. owners = [s])"
    by (simp add: length_Suc_conv)
  then have "length owners \<noteq> 1 \<longleftrightarrow> \<not> (\<exists>s. set owners = {s})" by (simp only: one)
  also have "\<dots> \<longleftrightarrow> (\<exists>s \<in> set owners. \<exists>s' \<in> set owners. s \<noteq> s')" using ne by (rule no_singleton)
  finally show ?thesis by (simp only: Some owners_in_def option.case option.inject) simp
qed (simp add: owners_in_def)

lemma taxonomy_is_the_claims:
  assumes "parse_filters_by_sport payload = Inr t" and "jget payload ''filters_by_sports'' = JObj filters"
  shows "sport_for_competition t competition = Some s \<longleftrightarrow> claimed_by filters (normalize_text competition) = {s}"
    and "is_ambiguous_competition t competition \<longleftrightarrow>
      (\<exists>s \<in> claimed_by filters (normalize_text competition). \<exists>s' \<in> claimed_by filters (normalize_text competition). s \<noteq> s')"
    and "dget (ambiguous_claimants t) (normalize_text competition) = Some owners \<Longrightarrow>
      set owners = claimed_by filters (normalize_text competition)"
proof -
  obtain filters' d where f: "jget payload ''filters_by_sports'' = JObj filters'"
    and d: "claims_ok d"
    and own': "\<And>key. owners_in d key = claimed_by filters' key"
    and c: "\<And>key. dget (competition_to_sport t) key = (case dget d key of
           Some owners \<Rightarrow> if length owners = 1 then Some (hd owners) else None | None \<Rightarrow> None)"
    and a: "\<And>key. dget (ambiguous_claimants t) key = (case dget d key of
           Some owners \<Rightarrow> if length owners = 1 then None else Some owners | None \<Rightarrow> None)"
    and m: "set (ambiguous_competitions t) = {key. \<exists>owners. dget d key = Some owners \<and> length owners \<noteq> 1}"
    by (rule parsed_claims [OF assms(1)]) (rule that)
  have "filters' = filters" using f assms(2) by simp
  then have own: "\<And>key. owners_in d key = claimed_by filters key" using own' by simp
  let ?k = "normalize_text competition"
  show amb: "is_ambiguous_competition t competition \<longleftrightarrow>
      (\<exists>s \<in> claimed_by filters ?k. \<exists>s' \<in> claimed_by filters ?k. s \<noteq> s')"
    unfolding is_ambiguous_competition_def m using several_owners_iff [OF d, of ?k] by (simp add: own)
  show "sport_for_competition t competition = Some s \<longleftrightarrow> claimed_by filters ?k = {s}"
  proof (cases "is_ambiguous_competition t competition")
    case True
    then obtain x y where "x \<in> claimed_by filters ?k" "y \<in> claimed_by filters ?k" "x \<noteq> y"
      unfolding amb by (elim bexE)
    then have "claimed_by filters ?k \<noteq> {s}" by (metis singletonD)
    with True show ?thesis by (simp add: sport_for_competition_def is_ambiguous_competition_def Let_def)
  next
    case False
    then show ?thesis
      using owner_iff [OF d, of ?k s] own [of ?k]
      by (simp add: sport_for_competition_def is_ambiguous_competition_def Let_def c)
  qed
  show "dget (ambiguous_claimants t) ?k = Some owners \<Longrightarrow> set owners = claimed_by filters ?k"
    using own [of ?k] by (auto simp: a owners_in_def split: option.splits if_splits)
qed

text \<open>C26: the taxonomy answers a sport for a competition exactly when that sport alone lists the competition, under
  any spelling that normalizes to the same words; it calls the competition ambiguous exactly when two sports list it,
  and then keeps precisely those sports as its claimants. The order of the document never decides.\<close>
theorem taxonomy_answers_the_only_claimant:
  assumes "parse_filters_by_sport payload = Inr t" and "jget payload ''filters_by_sports'' = JObj filters"
  shows "(sport_for_competition t competition = Some s \<longleftrightarrow> claimed_by filters (normalize_text competition) = {s})
    \<and> (is_ambiguous_competition t competition \<longleftrightarrow>
        (\<exists>s \<in> claimed_by filters (normalize_text competition). \<exists>s' \<in> claimed_by filters (normalize_text competition). s \<noteq> s'))
    \<and> (case dget (ambiguous_claimants t) (normalize_text competition) of
         None \<Rightarrow> True | Some owners \<Rightarrow> set owners = claimed_by filters (normalize_text competition))"
  using taxonomy_is_the_claims [OF assms] by (simp split: option.split)

text \<open>The document of the witness: one competition listed by two sports, one by a single sport.\<close>

definition sample_filters :: jobj where
  "sample_filters =
     [(''Hockey'', JObj [(''competitions'', JList [JStr ''Cup'', JStr ''League''])]),
      (''Soccer'', JObj [(''competitions'', JList [JStr ''  cup ''])])]"

theorem taxonomy_answers_the_only_claimant_witness:
  "\<exists>t. parse_filters_by_sport [(''filters_by_sports'', JObj sample_filters)] = Inr t
    \<and> is_ambiguous_competition t ''CUP'' \<and> sport_for_competition t ''League'' = Some ''hockey''"
proof -
  let ?payload = "[(''filters_by_sports'', JObj sample_filters)]"
  have f: "jget ?payload ''filters_by_sports'' = JObj sample_filters" by (simp add: jget_def)
  then obtain t where t: "parse_filters_by_sport ?payload = Inr t" by (simp add: parse_filters_by_sport_def)
  have h: "lists_competition (normalize_text n) (''Hockey'', snd (sample_filters ! 0))" if "n \<in> {''CUP'', ''League''}" for n
    using that by (elim insertE emptyE; simp only:) code_simp+
  have s: "lists_competition (normalize_text ''CUP'') (''Soccer'', snd (sample_filters ! 1))"
    "\<not> lists_competition (normalize_text ''League'') (''Soccer'', snd (sample_filters ! 1))" by code_simp+
  have n: "normalize_text ''Hockey'' = ''hockey''" "normalize_text ''Soccer'' = ''soccer''" by code_simp+
  have "claimed_by sample_filters (normalize_text ''CUP'') = {''hockey'', ''soccer''}"
    "claimed_by sample_filters (normalize_text ''League'') = {''hockey''}"
    using h [of "''CUP''"] h [of "''League''"] s n by (auto simp: sample_filters_def claimed_by_Cons)
  then show ?thesis
    using t taxonomy_answers_the_only_claimant [OF t f, of "''CUP''"] taxonomy_answers_the_only_claimant [OF t f, of "''League''" "''hockey''"]
    by auto
qed

end
