(* ===== verification/SchemaNames.thy ===== *)
theory SchemaNames
  imports Json
begin

text \<open>
  The schema-name filter of \<^verbatim>\<open>safety.py\<close>: which JSON key, with which description of its value's shape, may
  be printed into a public report.
\<close>

definition is_lower_char :: "char \<Rightarrow> bool" where
  "is_lower_char c \<longleftrightarrow> CHR ''a'' \<le> c \<and> c \<le> CHR ''z''"

definition is_word_char :: "char \<Rightarrow> bool" where
  "is_word_char c \<longleftrightarrow> is_lower_char c \<or> is_digit c \<or> c = CHR ''_''"

text \<open>\<open>$\<close> also matches before a newline that ends the text.\<close>

definition drop_newline :: "string \<Rightarrow> string" where
  "drop_newline s = (if s \<noteq> [] \<and> last s = CHR 0x0A then butlast s else s)"

definition schema_name :: "string \<Rightarrow> bool" where
  "schema_name key =
     (case drop_newline key of [] \<Rightarrow> False | c # r \<Rightarrow> is_lower_char c \<and> list_all is_word_char r \<and> length r \<le> 39)"

definition schema_kind :: "string \<Rightarrow> bool" where
  "schema_kind kind =
     (case drop_newline kind of
        [] \<Rightarrow> False
      | c # r \<Rightarrow>
          let w = takeWhile is_word_char r; tail = dropWhile is_word_char r in
          is_lower_char c \<and> length w \<le> 15
          \<and> (tail = [] \<or>
              (hd tail = CHR ''['' \<and> 2 \<le> length tail \<and> last tail = CHR '']''
               \<and> list_all (\<lambda>x. is_word_char x \<or> x = CHR ''|'') (butlast (tl tail)) \<and> length (butlast (tl tail)) \<le> 31)))"

definition safe_schema_name :: "string \<Rightarrow> json \<Rightarrow> string option" where
  "safe_schema_name key kind =
     (if \<not> schema_name key then None
      else case kind of
          JNull \<Rightarrow> Some key
        | JStr k \<Rightarrow> if schema_kind k then Some (key @ '':'' @ k) else Some (key @ '':?'')
        | _ \<Rightarrow> Some (key @ '':?''))"

text \<open>What the filter lets through: a lower-case identifier, and a description that is one or a question mark.\<close>

lemma safe_schema_name_cases:
  "safe_schema_name key kind = Some out \<Longrightarrow>
     schema_name key \<and> (out = key \<or> out = key @ '':?'' \<or> (\<exists>k. out = key @ '':'' @ k \<and> schema_kind k))"
  by (auto simp: safe_schema_name_def split: json.splits if_splits)

lemma set_drop_newline: "set key \<subseteq> insert (CHR 0x0A) (set (drop_newline key))"
  by (cases key rule: rev_cases) (auto simp: drop_newline_def)

lemma schema_name_chars:
  assumes "schema_name key" and "c \<in> set key"
  shows "is_word_char c \<or> c = CHR 0x0A"
proof -
  have "is_word_char d" if "d \<in> set (drop_newline key)" for d
    using that assms(1) by (auto simp: schema_name_def is_word_char_def list_all_iff split: list.splits)
  then show ?thesis using set_drop_newline [of key] assms(2) by auto
qed

end
