(* ===== verification/Milestones.thy ===== *)
theory Milestones
  imports Client Taxonomy SchemaNames
begin

text \<open>
  \<^verbatim>\<open>milestones.py\<close>: two indexes built from public milestone listings, the competition an event belongs to and
  the start of its game. Both are filled by one paged sweep with a request budget, and both fail closed: an event
  that two claims disagree on has no entry.

  The lemmas: the locale \<open>agreement\<close> states what recording promises per event and shows that an entry is the
  common value of all claims, in whatever order they were recorded; a sweep absorbs exactly the rows the server
  served, within its budget of requests.
\<close>

section \<open>Recording claims that must agree\<close>

text \<open>The specification: the entry of one event after one more claim, \<open>None\<close> being a claim that cannot be trusted;
  the flag says that the event has been given up.\<close>

fun claim_step :: "'v option \<times> bool \<Rightarrow> 'v option \<Rightarrow> 'v option \<times> bool" where
  "claim_step (entry, True) claim = (entry, True)"
| "claim_step (entry, False) None = (None, True)"
| "claim_step (None, False) (Some v) = (Some v, False)"
| "claim_step (Some w, False) (Some v) = (if w = v then (Some w, False) else (None, True))"

definition unanimous :: "'v option list \<Rightarrow> 'v \<Rightarrow> bool" where
  "unanimous claims v \<longleftrightarrow> claims \<noteq> [] \<and> (\<forall>claim \<in> set claims. claim = Some v)"

lemma claim_steps_dead: "foldl claim_step (None, True) claims = (None, True)"
  by (induction claims) simp_all

lemma claim_steps_after:
  "foldl claim_step (Some w, False) claims =
     (if \<forall>claim \<in> set claims. claim = Some w then (Some w, False) else (None, True))"
proof (induction claims)
  case (Cons claim claims)
  then show ?case by (cases claim) (auto simp: claim_steps_dead)
qed simp

lemma claim_steps:
  "foldl claim_step (None, False) claims =
     (case claims of
        [] \<Rightarrow> (None, False)
      | claim # _ \<Rightarrow> if \<exists>v. unanimous claims v then (claim, False) else (None, True))"
proof (cases claims)
  case (Cons claim rest)
  then show ?thesis
    by (cases claim) (auto simp: claim_steps_dead claim_steps_after unanimous_def)
qed simp

lemma entry_iff_unanimous: "fst (foldl claim_step (None, False) claims) = Some v \<longleftrightarrow> unanimous claims v"
  by (cases claims) (auto simp: claim_steps unanimous_def simp del: foldl.simps)

lemma given_up_iff: "snd (foldl claim_step (None, False) claims) \<longleftrightarrow> claims \<noteq> [] \<and> \<not> (\<exists>v. unanimous claims v)"
  by (cases claims) (auto simp: claim_steps simp del: foldl.simps)

lemma option_eq_by_value: "(\<And>v. x = Some v \<longleftrightarrow> y = Some v) \<Longrightarrow> x = y"
  by (cases x; cases y) auto

locale agreement =
  fixes record_claim :: "string \<Rightarrow> 'c \<Rightarrow> 'i \<Rightarrow> 'i"
    and trusted :: "'c \<Rightarrow> 'v option"
    and event_key :: "string \<Rightarrow> string"
    and entry :: "'i \<Rightarrow> string \<Rightarrow> 'v option \<times> bool"
  assumes here: "event_key t \<noteq> [] \<Longrightarrow> entry (record_claim t c i) (event_key t) = claim_step (entry i (event_key t)) (trusted c)"
    and elsewhere: "k \<noteq> event_key t \<Longrightarrow> entry (record_claim t c i) k = entry i k"
    and nowhere: "event_key t = [] \<Longrightarrow> record_claim t c i = i"
begin

definition recorded :: "(string \<times> 'c) list \<Rightarrow> 'i \<Rightarrow> 'i" where
  "recorded links i = fold (\<lambda>(t, c). record_claim t c) links i"

definition claims_on :: "string \<Rightarrow> (string \<times> 'c) list \<Rightarrow> 'v option list" where
  "claims_on k links = map (trusted \<circ> snd) (filter (\<lambda>(t, c). event_key t = k \<and> k \<noteq> []) links)"

lemma entry_recorded:
  "entry (recorded links i) k = foldl claim_step (entry i k) (claims_on k links)"
proof (induction links arbitrary: i)
  case (Cons link links)
  obtain t c where "link = (t, c)" by fastforce
  moreover have "entry (record_claim t c i) k =
      (if event_key t = k \<and> k \<noteq> [] then claim_step (entry i k) (trusted c) else entry i k)"
    using here [of t c i] elsewhere [of k t c i] nowhere [of t c i] by (cases "event_key t = k") auto
  ultimately show ?case using Cons by (simp add: recorded_def claims_on_def)
qed (simp add: recorded_def claims_on_def)

lemma recorded_unanimous:
  assumes "entry i k = (None, False)"
  shows "fst (entry (recorded links i) k) = Some v \<longleftrightarrow> unanimous (claims_on k links) v"
    and "snd (entry (recorded links i) k) \<longleftrightarrow> claims_on k links \<noteq> [] \<and> \<not> (\<exists>v. unanimous (claims_on k links) v)"
  using assms by (simp_all add: entry_recorded entry_iff_unanimous given_up_iff)

lemma recorded_order:
  assumes "entry i k = (None, False)" and "set links = set links'"
  shows "entry (recorded links i) k = entry (recorded links' i) k"
proof -
  have same: "set (claims_on k links) = set (claims_on k links')" using assms(2) by (auto simp: claims_on_def)
  then have e: "claims_on k links = [] \<longleftrightarrow> claims_on k links' = []" by (simp only: set_empty [symmetric])
  have u: "unanimous (claims_on k links) v = unanimous (claims_on k links') v" for v
    by (simp add: unanimous_def same e)
  show ?thesis
  proof (rule prod_eqI)
    show "fst (entry (recorded links i) k) = fst (entry (recorded links' i) k)"
      by (rule option_eq_by_value) (simp add: recorded_unanimous [OF assms(1)] u)
    show "snd (entry (recorded links i) k) = snd (entry (recorded links' i) k)"
      by (simp add: recorded_unanimous [OF assms(1)] u e)
  qed
qed

end

section \<open>Event tickers\<close>

definition ticker_key :: "string \<Rightarrow> string" where
  "ticker_key t = py_upper (py_strip t)"

definition ticker_texts :: "json \<Rightarrow> string list" where
  "ticker_texts v = (case v of JStr s \<Rightarrow> if blank s then [] else [ticker_key s] | _ \<Rightarrow> [])"

definition event_tickers :: "jobj \<Rightarrow> string list" where
  "event_tickers milestone =
     concat (map (\<lambda>key. case jget milestone key of
         JList items \<Rightarrow> concat (map ticker_texts items)
       | v \<Rightarrow> ticker_texts v) [''primary_event_tickers'', ''related_event_tickers''])"

definition ddel :: "'k \<Rightarrow> ('k, 'v) dict \<Rightarrow> ('k, 'v) dict" where
  "ddel k d = filter (\<lambda>(k', _). k' \<noteq> k) d"

lemma dget_ddel [simp, dict_simps]: "dget (ddel k d) k' = (if k' = k then None else dget d k')"
  unfolding ddel_def by (induction d) auto

section \<open>The sweep\<close>

text \<open>The errors that derive from \<open>KalshiRouterError\<close>.\<close>

definition router_error :: "py_error \<Rightarrow> bool" where
  "router_error e = (case e of
       SchemaError \<Rightarrow> True | ConfigurationError \<Rightarrow> True | TransportError \<Rightarrow> True | HttpStatusError _ \<Rightarrow> True
     | RateLimitError _ \<Rightarrow> True | AuthenticationError _ \<Rightarrow> True | SensitiveOutputRefused \<Rightarrow> True | _ \<Rightarrow> False)"

text \<open>What both indexes count of their sweep.\<close>

record sweep =
  sw_requests :: nat
  sw_budget_exhausted :: bool
  sw_fetch_failed :: bool
  sw_rows :: nat

text \<open>The \<open>while True\<close> loop both builders share, with the requests its budget has left.\<close>

fun sweep_pages ::
  "environment \<Rightarrow> jobj \<Rightarrow> int \<Rightarrow> (jobj \<Rightarrow> 'a sweep_scheme \<Rightarrow> 'a sweep_scheme) \<Rightarrow> nat \<Rightarrow> string option \<Rightarrow> string list
    \<Rightarrow> 'a sweep_scheme \<Rightarrow> client \<Rightarrow> 'a sweep_scheme result \<times> client" where
  "sweep_pages env base limit absorb 0 cursor seen ix c = (Inr (ix\<lparr>sw_budget_exhausted := True\<rparr>), c)"
| "sweep_pages env base limit absorb (Suc left) cursor seen ix c =
     (case get_milestones env (page_params base limit cursor) c of (answer, c) \<Rightarrow>
      case answer of
        Inl e \<Rightarrow> if router_error e then (Inr (ix\<lparr>sw_fetch_failed := True\<rparr>), c) else (Inl e, c)
      | Inr payload \<Rightarrow>
          let ix = ix\<lparr>sw_requests := sw_requests ix + 1\<rparr> in
          (case jget payload ''milestones'' of
             JList milestones \<Rightarrow>
               let ix = fold absorb (json_objects milestones) ix in
               (case jget payload ''cursor'' of
                  JStr next \<Rightarrow>
                    if next = [] \<or> next \<in> set seen \<or> milestones = [] then (Inr ix, c)
                    else sweep_pages env base limit absorb left (Some next) (next # seen) ix c
                | _ \<Rightarrow> (Inr ix, c))
           | _ \<Rightarrow> (Inr (ix\<lparr>sw_fetch_failed := True\<rparr>), c)))"

section \<open>The competition of an event\<close>

definition TARGET_COMPETITIONS :: "string list" where
  "TARGET_COMPETITIONS = [''Pro Baseball'', ''Pro Football'', ''College Football'']"

definition DEFAULT_REQUEST_BUDGET :: int where "DEFAULT_REQUEST_BUDGET = 24"
definition DEFAULT_PAGE_LIMIT :: int where "DEFAULT_PAGE_LIMIT = 200"

record milestone_index = sweep +
  event_to_competition :: "(string, string) dict"
  mi_conflicted :: "string list"
  competitions_swept :: nat
  mi_observed_keys :: "(string, nat) dict"

definition empty_milestone_index :: milestone_index where
  "empty_milestone_index = \<lparr>sw_requests = 0, sw_budget_exhausted = False, sw_fetch_failed = False, sw_rows = 0,
     event_to_competition = [], mi_conflicted = [], competitions_swept = 0, mi_observed_keys = []\<rparr>"

definition indexed_events :: "milestone_index \<Rightarrow> nat" where
  "indexed_events ix = length (event_to_competition ix)"

definition conflict_count :: "milestone_index \<Rightarrow> nat" where
  "conflict_count ix = length (mi_conflicted ix)"

definition record_competition :: "string \<Rightarrow> string \<Rightarrow> milestone_index \<Rightarrow> milestone_index" where
  "record_competition event_ticker competition ix =
     (let key = ticker_key event_ticker in
      if key = [] then ix
      else if key \<in> set (mi_conflicted ix) then ix
      else case dget (event_to_competition ix) key of
          None \<Rightarrow> ix\<lparr>event_to_competition := dput key competition (event_to_competition ix)\<rparr>
        | Some existing \<Rightarrow>
            if existing \<noteq> competition
            then ix\<lparr>event_to_competition := ddel key (event_to_competition ix),
                    mi_conflicted := List.insert key (mi_conflicted ix)\<rparr>
            else ix)"

definition is_conflicted :: "milestone_index \<Rightarrow> string option \<Rightarrow> bool" where
  "is_conflicted ix event_ticker =
     (case event_ticker of None \<Rightarrow> False | Some t \<Rightarrow> t \<noteq> [] \<and> ticker_key t \<in> set (mi_conflicted ix))"

definition competition_for_event :: "milestone_index \<Rightarrow> string option \<Rightarrow> string option" where
  "competition_for_event ix event_ticker =
     (case event_ticker of
        None \<Rightarrow> None
      | Some t \<Rightarrow> if t = [] then None else dget (event_to_competition ix) (ticker_key t))"

definition observe_entry_keys :: "jobj \<Rightarrow> milestone_index \<Rightarrow> milestone_index" where
  "observe_entry_keys milestone ix =
     ix\<lparr>mi_observed_keys := fold capped_bump (List.map_filter (\<lambda>key. safe_schema_name key JNull) (dkeys milestone))
          (mi_observed_keys ix)\<rparr>"

definition absorb_milestone :: "string \<Rightarrow> jobj \<Rightarrow> milestone_index \<Rightarrow> milestone_index" where
  "absorb_milestone competition milestone ix =
     fold (\<lambda>t. record_competition t competition) (event_tickers milestone)
       (observe_entry_keys milestone (ix\<lparr>sw_rows := sw_rows ix + 1\<rparr>))"

fun sweep_competitions ::
  "environment \<Rightarrow> int \<Rightarrow> int \<Rightarrow> string list \<Rightarrow> milestone_index \<Rightarrow> client \<Rightarrow> milestone_index result \<times> client" where
  "sweep_competitions env budget limit [] ix c = (Inr ix, c)"
| "sweep_competitions env budget limit (competition # competitions) ix c =
     (if budget \<le> int (sw_requests ix) then (Inr (ix\<lparr>sw_budget_exhausted := True\<rparr>), c)
      else case sweep_pages env [(''category'', JStr ''Sports''), (''competition'', JStr competition)] limit
                  (absorb_milestone competition) (nat (budget - int (sw_requests ix))) None []
                  (ix\<lparr>competitions_swept := competitions_swept ix + 1\<rparr>) c of
          (Inl e, c) \<Rightarrow> (Inl e, c)
        | (Inr ix, c) \<Rightarrow> sweep_competitions env budget limit competitions ix c)"

definition build_milestone_index ::
  "environment \<Rightarrow> string list \<Rightarrow> int \<Rightarrow> int \<Rightarrow> client \<Rightarrow> milestone_index result \<times> client" where
  "build_milestone_index env competitions request_budget page_limit c =
     sweep_competitions env request_budget page_limit competitions empty_milestone_index c"

definition parse_milestones_payload :: "jobj \<Rightarrow> jobj list result" where
  "parse_milestones_payload payload =
     (case jget payload ''milestones'' of JList vs \<Rightarrow> Inr (json_objects vs) | _ \<Rightarrow> Inl SchemaError)"

section \<open>The start of a game\<close>

definition MILESTONE_TYPE_FOOTBALL_GAME :: string where "MILESTONE_TYPE_FOOTBALL_GAME = ''football_game''"

definition START_TRUSTED_STATUSES :: "string list" where
  "START_TRUSTED_STATUSES = [''scheduled'', ''inprogress'', ''closed'', ''complete'']"

definition MIN_PLAUSIBLE_START_EPOCH :: int where "MIN_PLAUSIBLE_START_EPOCH = 1577836800"
definition START_INDEX_REQUEST_BUDGET :: int where "START_INDEX_REQUEST_BUDGET = 40"

text \<open>\<open>parsed.tzinfo is not None\<close> for a text \<open>fromisoformat\<close> accepts.\<close>

definition has_zone :: "string \<Rightarrow> bool" where
  "has_zone s = (case iso_separator s of
       None \<Rightarrow> False
     | Some k \<Rightarrow> (case iso_time (drop (Suc k) s) of Some (_, Some _) \<Rightarrow> True | _ \<Rightarrow> False))"

definition start_epoch :: "json \<Rightarrow> int option" where
  "start_epoch v = (case v of
       JStr s \<Rightarrow>
         if CHR ''T'' \<notin> set s then None
         else (case iso_micros s of
             None \<Rightarrow> None
           | Some us \<Rightarrow>
               if \<not> has_zone s then None
               else let epoch = dtrunc (total_seconds us) in
                 if MIN_PLAUSIBLE_START_EPOCH \<le> epoch then Some epoch else None)
     | _ \<Rightarrow> None)"

record milestone_start_index = sweep +
  starts :: "(string, int) dict"
  untrusted_events :: "string list"
  si_conflicted :: "string list"

definition empty_start_index :: milestone_start_index where
  "empty_start_index = \<lparr>sw_requests = 0, sw_budget_exhausted = False, sw_fetch_failed = False, sw_rows = 0,
     starts = [], untrusted_events = [], si_conflicted = []\<rparr>"

definition record_start :: "string \<Rightarrow> int option \<Rightarrow> milestone_start_index \<Rightarrow> milestone_start_index" where
  "record_start event_ticker start ix =
     (let key = ticker_key event_ticker in
      if key = [] \<or> key \<in> set (untrusted_events ix) \<or> key \<in> set (si_conflicted ix) then ix
      else case start of
          None \<Rightarrow> ix\<lparr>starts := ddel key (starts ix), untrusted_events := List.insert key (untrusted_events ix)\<rparr>
        | Some epoch \<Rightarrow>
            (case dget (starts ix) key of
               None \<Rightarrow> ix\<lparr>starts := dput key epoch (starts ix)\<rparr>
             | Some existing \<Rightarrow>
                 if existing \<noteq> epoch
                 then ix\<lparr>starts := ddel key (starts ix), si_conflicted := List.insert key (si_conflicted ix)\<rparr>
                 else ix))"

definition start_for_event :: "milestone_start_index \<Rightarrow> string option \<Rightarrow> int option" where
  "start_for_event ix event_ticker =
     (case event_ticker of
        None \<Rightarrow> None
      | Some t \<Rightarrow> if t = [] \<or> sw_budget_exhausted ix \<or> sw_fetch_failed ix then None else dget (starts ix) (ticker_key t))"

definition milestone_start_epoch :: "jobj \<Rightarrow> int option" where
  "milestone_start_epoch milestone =
     (case (case jget milestone ''details'' of JObj details \<Rightarrow> jget details ''status'' | _ \<Rightarrow> JNull) of
        JStr status \<Rightarrow>
          if py_lower (py_strip status) \<notin> set START_TRUSTED_STATUSES then None
          else start_epoch (jget milestone ''start_date'')
      | _ \<Rightarrow> None)"

definition absorb_start :: "jobj \<Rightarrow> milestone_start_index \<Rightarrow> milestone_start_index" where
  "absorb_start milestone ix =
     (let start = milestone_start_epoch milestone in
      fold (\<lambda>t. record_start t start) (event_tickers milestone) (ix\<lparr>sw_rows := sw_rows ix + 1\<rparr>))"

definition build_milestone_start_index ::
  "environment \<Rightarrow> int \<Rightarrow> int \<Rightarrow> client \<Rightarrow> milestone_start_index result \<times> client" where
  "build_milestone_start_index env request_budget page_limit c =
     sweep_pages env [(''type'', JStr MILESTONE_TYPE_FOOTBALL_GAME)] page_limit absorb_start (nat request_budget)
       None [] empty_start_index c"

section \<open>Both indexes record by agreement\<close>

definition competition_entry :: "milestone_index \<Rightarrow> string \<Rightarrow> string option \<times> bool" where
  "competition_entry ix key =
     (dget (event_to_competition ix) key, key \<in> set (mi_conflicted ix))"

definition start_entry :: "milestone_start_index \<Rightarrow> string \<Rightarrow> int option \<times> bool" where
  "start_entry ix key =
     (dget (starts ix) key, key \<in> set (untrusted_events ix) \<or> key \<in> set (si_conflicted ix))"

lemma competition_entry_record:
  "ticker_key t = [] \<Longrightarrow> record_competition t c ix = ix"
  "ticker_key t \<noteq> [] \<Longrightarrow> competition_entry (record_competition t c ix) k =
     (if k = ticker_key t then claim_step (competition_entry ix k) (Some c) else competition_entry ix k)"
  by (simp_all add: record_competition_def competition_entry_def Let_def split: option.split)

lemma start_entry_record:
  "ticker_key t = [] \<Longrightarrow> record_start t c ix = ix"
  "ticker_key t \<noteq> [] \<Longrightarrow> start_entry (record_start t c ix) k =
     (if k = ticker_key t then claim_step (start_entry ix k) c else start_entry ix k)"
  by (simp_all add: record_start_def start_entry_def Let_def split: option.split)

interpretation competitions: agreement record_competition Some ticker_key competition_entry
proof
  fix t c ix k
  show "k \<noteq> ticker_key t \<Longrightarrow> competition_entry (record_competition t c ix) k = competition_entry ix k"
    by (cases "ticker_key t = []") (simp_all add: competition_entry_record)
qed (simp_all add: competition_entry_record)

interpretation starts: agreement record_start "\<lambda>start. start" ticker_key start_entry
proof
  fix t c ix k
  show "k \<noteq> ticker_key t \<Longrightarrow> start_entry (record_start t c ix) k = start_entry ix k"
    by (cases "ticker_key t = []") (simp_all add: start_entry_record)
qed (simp_all add: start_entry_record)

section \<open>A sweep absorbs what the server served\<close>

lemma is_space_upper [simp]: "is_space (upper_char c) = is_space c"
  by (auto simp: is_space_code upper_char_def less_eq_char_def Let_def)

lemma upper_char_idem [simp]: "upper_char (upper_char c) = upper_char c"
  by (subst of_char_eq_iff [symmetric, where ?'a = nat]) (auto simp: upper_char_def less_eq_char_def)

lemma ticker_key_idem [simp]: "ticker_key (ticker_key t) = ticker_key t"
proof -
  have "py_strip (py_upper s) = py_upper (py_strip s)" for s
    unfolding py_strip_def py_upper_def by (simp add: rev_map dropWhile_map comp_def)
  then show ?thesis by (simp add: ticker_key_def) (simp add: py_upper_def)
qed

lemma ticker_key_Nil_iff: "ticker_key t = [] \<longleftrightarrow> blank t"
  by (simp add: ticker_key_def py_upper_def blank_def)

lemma event_tickers_keyed:
  "t \<in> set (event_tickers milestone) \<Longrightarrow> ticker_key t = t \<and> t \<noteq> []"
  by (auto simp: event_tickers_def ticker_texts_def ticker_key_Nil_iff [symmetric] split: json.splits if_splits)

text \<open>Whatever \<open>view\<close> of the index the rows are absorbed into, a sweep folds in the rows of the pages it read.\<close>

lemma sweep_pages_absorbs:
  fixes view :: "'a sweep_scheme \<Rightarrow> 'b"
  assumes "sweep_pages env base limit absorb left cursor seen ix c = (Inr ix', c')"
    and nonneg: "0 \<le> cfg_max_retries (env_config env)"
    and view: "\<And>n ix. view (ix\<lparr>sw_requests := n\<rparr>) = view ix" "\<And>b ix. view (ix\<lparr>sw_budget_exhausted := b\<rparr>) = view ix"
      "\<And>b ix. view (ix\<lparr>sw_fetch_failed := b\<rparr>) = view ix"
    and absorb: "\<And>row ix. view (absorb row ix) = f row (view ix)" "\<And>row ix. sw_requests (absorb row ix) = sw_requests ix"
  shows "\<exists>xs. c_log c' = c_log c @ xs
    \<and> view ix' = fold f (concat (map (page_rows ''milestones'') (pages_of env xs))) (view ix)
    \<and> sw_requests ix' \<le> sw_requests ix + left
    \<and> length xs \<le> left * (nat (cfg_max_retries (env_config env)) + 1)"
  using assms(1)
proof (induction left arbitrary: cursor seen ix c)
  case 0
  then show ?case using view by (intro exI [where x = "[]"]) (auto simp: pages_of_def)
next
  case (Suc left)
  let ?R = "nat (cfg_max_retries (env_config env)) + 1"
  obtain answer c1 where get: "get_milestones env (page_params base limit cursor) c = (answer, c1)" by fastforce
  obtain xs where xs: "c_log c1 = c_log c @ xs" "length xs \<le> ?R"
    "pages_of env xs = (case answer of Inr payload \<Rightarrow> [payload] | Inl _ \<Rightarrow> [])"
    using get [unfolded get_milestones_def] nonneg by (rule client_get_page)
  have absorbed: "view (fold absorb rows ix) = fold f rows (view ix) \<and> sw_requests (fold absorb rows ix) = sw_requests ix" for rows ix
    by (induction rows arbitrary: ix) (simp_all add: absorb)
  have stop: ?case if "c' = c1" "view ix' = fold f (concat (map (page_rows ''milestones'') (pages_of env xs))) (view ix)"
      "sw_requests ix' \<le> Suc (sw_requests ix)"
    using that xs by (intro exI [where x = xs]) simp
  show ?case
  proof (cases answer)
    case (Inl e)
    then have "c' = c1" "ix' = ix\<lparr>sw_fetch_failed := True\<rparr>" using Suc.prems get by (simp_all split: if_splits)
    then show ?thesis using xs(3) Inl view by (intro stop) simp_all
  next
    case (Inr payload)
    let ?ix = "ix\<lparr>sw_requests := Suc (sw_requests ix)\<rparr>"
    have pages: "pages_of env xs = [payload]" using xs(3) Inr by simp
    show ?thesis
    proof (cases "\<exists>milestones. jget payload ''milestones'' = JList milestones")
      case False
      then have "c' = c1" "ix' = ?ix\<lparr>sw_fetch_failed := True\<rparr>"
        using Suc.prems get Inr by (auto simp: Let_def split: json.splits)
      moreover have "page_rows ''milestones'' payload = []" using False by (auto simp: page_rows_def split: json.splits)
      ultimately show ?thesis using view pages by (intro stop) simp_all
    next
      case True
      then obtain milestones where m: "jget payload ''milestones'' = JList milestones" by blast
      let ?ix1 = "fold absorb (json_objects milestones) ?ix"
      have rows: "page_rows ''milestones'' payload = json_objects milestones" using m by (simp add: page_rows_def)
      have ix1: "view ?ix1 = fold f (json_objects milestones) (view ix)" "sw_requests ?ix1 = Suc (sw_requests ix)"
        using absorbed [of _ ?ix] view by simp_all
      consider (ends) "ix' = ?ix1" "c' = c1"
        | (next_page) cur where "sweep_pages env base limit absorb left (Some cur) (cur # seen) ?ix1 c1 = (Inr ix', c')"
      proof -
        have run: "(case jget payload ''cursor'' of
              JStr cur \<Rightarrow> if cur = [] \<or> cur \<in> set seen \<or> milestones = [] then (Inr ?ix1, c1)
                else sweep_pages env base limit absorb left (Some cur) (cur # seen) ?ix1 c1
            | _ \<Rightarrow> (Inr ?ix1, c1)) = (Inr ix', c')"
          using Suc.prems by (simp add: get Inr m Let_def)
        then have "(ix' = ?ix1 \<and> c' = c1)
            \<or> (\<exists>cur. sweep_pages env base limit absorb left (Some cur) (cur # seen) ?ix1 c1 = (Inr ix', c'))"
          by (simp split: json.splits if_splits) (rule disjI2, rule exI)
        then show thesis using that by blast
      qed
      then show ?thesis
      proof cases
        case ends
        then show ?thesis using ix1 pages rows by (intro stop) simp_all
      next
        case next_page
        from Suc.IH [OF next_page] obtain ys where ys: "c_log c' = c_log c1 @ ys"
          "view ix' = fold f (concat (map (page_rows ''milestones'') (pages_of env ys))) (view ?ix1)"
          "sw_requests ix' \<le> sw_requests ?ix1 + left" "length ys \<le> left * ?R"
          by blast
        have "pages_of env (xs @ ys) = payload # pages_of env ys" using pages by (simp add: pages_of_def)
        then show ?thesis using ys xs ix1 rows by (intro exI [where x = "xs @ ys"]) simp
      qed
    qed
  qed
qed

text \<open>The claims one row makes on an event.\<close>

definition row_claims :: "string \<Rightarrow> jobj \<Rightarrow> int option list" where
  "row_claims key row = map (\<lambda>_. milestone_start_epoch row) (filter (\<lambda>t. t = key) (event_tickers row))"

lemma start_entry_absorb:
  "start_entry (absorb_start row ix) = (\<lambda>key. foldl claim_step (start_entry ix key) (row_claims key row))"
proof
  fix key
  let ?start = "milestone_start_epoch row" and ?ix = "ix\<lparr>sw_rows := sw_rows ix + 1\<rparr>"
  let ?links = "map (\<lambda>t. (t, ?start)) (event_tickers row)"
  have ix: "start_entry ?ix key = start_entry ix key" by (simp add: start_entry_def)
  have "absorb_start row ix = starts.recorded ?links ?ix"
    by (simp add: absorb_start_def starts.recorded_def fold_map comp_def)
  moreover have "row_claims key row = starts.claims_on key ?links"
    unfolding row_claims_def starts.claims_on_def filter_map
    using event_tickers_keyed [of _ row] by (auto simp: comp_def intro!: arg_cong [where f = "map _"] filter_cong)
  ultimately show "start_entry (absorb_start row ix) key = foldl claim_step (start_entry ix key) (row_claims key row)"
    using starts.entry_recorded [of ?links ?ix key] ix by simp
qed

lemma fold_pointwise:
  "fold (\<lambda>row e. \<lambda>key. foldl claim_step (e key) (claims key row)) rows e =
     (\<lambda>key. foldl claim_step (e key) (concat (map (claims key) rows)))"
  by (induction rows arbitrary: e) simp_all

text \<open>The milestones a sweep that took the client from \<open>c\<close> to \<open>c'\<close> was served.\<close>

definition milestones_served :: "environment \<Rightarrow> client \<Rightarrow> client \<Rightarrow> jobj list" where
  "milestones_served env c c' = concat (map (page_rows ''milestones'') (pages_of env (logged_since c c')))"

text \<open>The row speaks of the event.\<close>

definition row_names :: "string \<Rightarrow> jobj \<Rightarrow> bool" where
  "row_names t row \<longleftrightarrow> ticker_key t \<in> set (event_tickers row)"

lemma unanimous_rows:
  "unanimous (concat (map (row_claims (ticker_key t)) rows)) v \<longleftrightarrow>
     (\<exists>row \<in> set rows. row_names t row) \<and> (\<forall>row \<in> set rows. row_names t row \<longrightarrow> milestone_start_epoch row = Some v)"
  by (auto simp: unanimous_def row_claims_def row_names_def filter_empty_conv)

lemma start_index_is_unanimous:
  assumes run: "build_milestone_start_index env request_budget page_limit c = (Inr ix, c')"
    and nonneg: "0 \<le> cfg_max_retries (env_config env)"
  shows "start_for_event ix (Some t) = Some epoch \<longleftrightarrow>
      t \<noteq> [] \<and> \<not> sw_budget_exhausted ix \<and> \<not> sw_fetch_failed ix
      \<and> (\<exists>row \<in> set (milestones_served env c c'). row_names t row)
      \<and> (\<forall>row \<in> set (milestones_served env c c'). row_names t row \<longrightarrow> milestone_start_epoch row = Some epoch)"
    and "sw_requests ix \<le> nat request_budget"
    and "length (logged_since c c') \<le> nat request_budget * (nat (cfg_max_retries (env_config env)) + 1)"
proof -
  have kept: "sw_requests (fold (\<lambda>t. record_start t start) ts i) = sw_requests i" for start ts i
    by (induction ts arbitrary: i) (simp_all add: record_start_def Let_def split: option.split)
  have view: "start_entry (ix\<lparr>sw_requests := n\<rparr>) = start_entry ix" "start_entry (ix\<lparr>sw_budget_exhausted := b\<rparr>) = start_entry ix"
    "start_entry (ix\<lparr>sw_fetch_failed := b\<rparr>) = start_entry ix" for ix n b
    by (simp_all add: start_entry_def fun_eq_iff)
  have "sw_requests (absorb_start row ix) = sw_requests ix" for row ix
    by (simp add: absorb_start_def Let_def kept)
  from sweep_pages_absorbs [OF run [unfolded build_milestone_start_index_def] nonneg, where view = start_entry
      and f = "\<lambda>row e. \<lambda>key. foldl claim_step (e key) (row_claims key row)", OF view start_entry_absorb this]
  obtain xs where xs: "c_log c' = c_log c @ xs"
    and e: "start_entry ix = fold (\<lambda>row e key. foldl claim_step (e key) (row_claims key row))
      (concat (map (page_rows ''milestones'') (pages_of env xs))) (start_entry empty_start_index)"
    and bound: "sw_requests ix \<le> sw_requests empty_start_index + nat request_budget"
      "length xs \<le> nat request_budget * (nat (cfg_max_retries (env_config env)) + 1)"
    by blast
  have since: "logged_since c c' = xs" using xs by (simp add: logged_since_def)
  have "start_entry ix (ticker_key t) =
      foldl claim_step (None, False) (concat (map (row_claims (ticker_key t)) (milestones_served env c c')))"
    unfolding e fold_pointwise by (simp add: milestones_served_def since start_entry_def empty_start_index_def)
  then have "fst (start_entry ix (ticker_key t)) = Some epoch \<longleftrightarrow>
      (\<exists>row \<in> set (milestones_served env c c'). row_names t row)
      \<and> (\<forall>row \<in> set (milestones_served env c c'). row_names t row \<longrightarrow> milestone_start_epoch row = Some epoch)"
    by (simp only: entry_iff_unanimous unanimous_rows)
  then show "start_for_event ix (Some t) = Some epoch \<longleftrightarrow>
      t \<noteq> [] \<and> \<not> sw_budget_exhausted ix \<and> \<not> sw_fetch_failed ix
      \<and> (\<exists>row \<in> set (milestones_served env c c'). row_names t row)
      \<and> (\<forall>row \<in> set (milestones_served env c c'). row_names t row \<longrightarrow> milestone_start_epoch row = Some epoch)"
    by (simp add: start_for_event_def start_entry_def)
  show "sw_requests ix \<le> nat request_budget" using bound by (simp add: empty_start_index_def)
  show "length (logged_since c c') \<le> nat request_budget * (nat (cfg_max_retries (env_config env)) + 1)"
    using bound since by simp
qed

text \<open>C35: a game's start is what every served milestone of it says. After a sweep that neither ran out of its budget
  nor failed, an event has a start exactly when some row names it and all rows that name it give that same trusted
  instant; one disagreeing or untrusted row leaves it without. The sweep stays within its budget of requests.\<close>
theorem start_is_what_every_milestone_says:
  assumes "build_milestone_start_index env request_budget page_limit c = (Inr ix, c')"
    and "0 \<le> cfg_max_retries (env_config env)"
  shows "(start_for_event ix (Some t) = Some epoch \<longleftrightarrow>
      t \<noteq> [] \<and> \<not> sw_budget_exhausted ix \<and> \<not> sw_fetch_failed ix
      \<and> (\<exists>row \<in> set (milestones_served env c c'). row_names t row)
      \<and> (\<forall>row \<in> set (milestones_served env c c'). row_names t row \<longrightarrow> milestone_start_epoch row = Some epoch))
    \<and> sw_requests ix \<le> nat request_budget
    \<and> length (logged_since c c') \<le> nat request_budget * (nat (cfg_max_retries (env_config env)) + 1)"
  using start_index_is_unanimous [OF assms] by blast

text \<open>The witness: one page with two milestones of one game, at the same instant in two zones.\<close>

definition game_row :: "string \<Rightarrow> jobj" where
  "game_row start =
     [(''related_event_tickers'', JList [JStr ''KXNFLGAME'']), (''start_date'', JStr start),
      (''details'', JObj [(''status'', JStr ''closed'')])]"

definition milestone_page :: environment where
  "milestone_page = one_page\<lparr>env_decode := \<lambda>_. Some (JObj [(''milestones'',
     JList [JObj (game_row ''2026-09-13T17:00:00+00:00''), JObj (game_row ''2026-09-13T13:00:00-04:00'')])])\<rparr>"

lemma game_row_start:
  "milestone_start_epoch (game_row ''2026-09-13T17:00:00+00:00'') = Some 1789318800"
  "milestone_start_epoch (game_row ''2026-09-13T13:00:00-04:00'') = Some 1789318800"
proof -
  have us: "iso_micros ''2026-09-13T17:00:00+00:00'' = Some (1789318800 * 1000000)" "has_zone ''2026-09-13T17:00:00+00:00''"
    "iso_micros ''2026-09-13T13:00:00-04:00'' = Some (1789318800 * 1000000)" "has_zone ''2026-09-13T13:00:00-04:00''"
    by code_simp+
  have status: "py_lower (py_strip ''closed'') \<in> set START_TRUSTED_STATUSES" by code_simp
  have "total_seconds (1789318800 * 1000000) = 1789318800"
    using fround_int [of 1789318800] by (simp add: total_seconds_def)
  then have "dtrunc (total_seconds (1789318800 * 1000000)) = 1789318800" by (simp add: dtrunc_def)
  with us status show
    "milestone_start_epoch (game_row ''2026-09-13T17:00:00+00:00'') = Some 1789318800"
    "milestone_start_epoch (game_row ''2026-09-13T13:00:00-04:00'') = Some 1789318800"
    by (simp_all add: milestone_start_epoch_def game_row_def jget_def start_epoch_def MIN_PLAUSIBLE_START_EPOCH_def Let_def)
qed

theorem start_is_what_every_milestone_says_witness:
  "\<exists>ix c'. build_milestone_start_index milestone_page 40 200 new_client = (Inr ix, c')
    \<and> start_for_event ix (Some ''kxnflgame'') = Some 1789318800 \<and> sw_requests ix \<le> 40"
proof -
  let ?rows = "[game_row ''2026-09-13T17:00:00+00:00'', game_row ''2026-09-13T13:00:00-04:00'']"
  let ?payload = "[(''milestones'', JList (map JObj ?rows))]"
  have read: "read_only ''/milestones''" by code_simp
  have "\<exists>c'. get_milestones milestone_page (page_params [(''type'', JStr MILESTONE_TYPE_FOOTBALL_GAME)] 200 None) new_client
      = (Inr ?payload, c')"
    unfolding get_milestones_def by (rule one_page_get) (simp_all add: milestone_page_def read)
  then obtain c' where get: "get_milestones milestone_page
      (page_params [(''type'', JStr MILESTONE_TYPE_FOOTBALL_GAME)] 200 None) new_client = (Inr ?payload, c')" by blast
  have key: "ticker_key ''KXNFLGAME'' = ''KXNFLGAME''" "ticker_key ''kxnflgame'' = ''KXNFLGAME''"
    "\<not> blank ''KXNFLGAME''" by code_simp+
  then have names: "event_tickers (game_row s) = [''KXNFLGAME'']" for s
    by (simp add: event_tickers_def game_row_def jget_def ticker_texts_def)
  have budget: "nat 40 = Suc 39" by simp
  have "\<exists>ix. build_milestone_start_index milestone_page 40 200 new_client = (Inr ix, c')
      \<and> \<not> sw_budget_exhausted ix \<and> \<not> sw_fetch_failed ix"
    unfolding build_milestone_start_index_def budget sweep_pages.simps get prod.case
    by (simp add: jget_def json_objects_def absorb_start_def names game_row_start
        record_start_def key empty_start_index_def)
  then obtain ix where ix: "build_milestone_start_index milestone_page 40 200 new_client = (Inr ix, c')"
    "\<not> sw_budget_exhausted ix" "\<not> sw_fetch_failed ix" by blast
  have nonneg: "0 \<le> cfg_max_retries (env_config milestone_page)" by (simp add: milestone_page_def one_page_def)
  obtain xs where "c_log c' = c_log new_client @ xs" "pages_of milestone_page xs = [?payload]"
    using client_get_page [OF get [unfolded get_milestones_def] nonneg] by auto
  then have "milestones_served milestone_page new_client c' = ?rows"
    by (simp add: milestones_served_def logged_since_def page_rows_def jget_def json_objects_def)
  then show ?thesis
    using start_is_what_every_milestone_says [OF ix(1) nonneg, of "''kxnflgame''" 1789318800] ix
    by (auto simp: row_names_def names key game_row_start)
qed

end
