(* ===== verification/SeriesRegistry.thy ===== *)
theory SeriesRegistry
  imports Competitions
begin

text \<open>
  \<^verbatim>\<open>series_registry.py\<close>: the router's own table of exact series tickers, its weakest evidence. The
  table is one dictionary in the source; here it is the concatenation of one list of tickers per sport.
\<close>

record series_entry =
  se_sport :: sport
  se_verified :: bool

definition entries :: "sport \<Rightarrow> bool \<Rightarrow> string list \<Rightarrow> (string, series_entry) dict" where
  "entries s verified tickers = map (\<lambda>t. (t, \<lparr>se_sport = s, se_verified = verified\<rparr>)) tickers"

definition MLB_SERIES :: "string list" where
  "MLB_SERIES =
     [''KXMLBGAME'', ''KXMLBSERIES'', ''KXWORLDSERIES'', ''KXMLBWS'']"

definition NFL_SERIES :: "string list" where
  "NFL_SERIES =
     [''KXNFLGAME'', ''KXNFLSPREAD'', ''KXNFLTOTAL'', ''KXSUPERBOWL'']"

definition CFB_SERIES :: "string list" where
  "CFB_SERIES =
     [''KXNCAAFGAME'', ''KXNCAAFSPREAD'', ''KXNCAAFCHAMP'']"

definition NHL_SERIES :: "string list" where
  "NHL_SERIES =
     [''KXNHLGAME'', ''KXNHLSPREAD'', ''KXNHLTOTAL'', ''KXNHLTEAMTOTAL'', ''KXNHLOT'', ''KXNHLOVERTIME'', ''KXNHL1P'',
     ''KXNHL2P'', ''KXNHL3P'', ''KXNHL1PTOTAL'', ''KXNHL2PTOTAL'', ''KXNHL3PTOTAL'', ''KXNHL1PSPREAD'',
     ''KXNHL2PSPREAD'', ''KXNHL3PSPREAD'', ''KXNHLFIRSTGOAL'', ''KXNHLGOAL'', ''KXNHLPTS'', ''KXNHLAST'',
     ''KXNHLSAVES'']"

definition NBA_SERIES :: "string list" where
  "NBA_SERIES =
     [''KXNBA1H'', ''KXNBA1HSPREAD'', ''KXNBA1HTEAMTOTAL'', ''KXNBA1HTOTAL'', ''KXNBA1HWINNER'', ''KXNBA1Q'',
     ''KXNBA1QSPREAD'', ''KXNBA1QTEAMTOTAL'', ''KXNBA1QTOTAL'', ''KXNBA1QWINNER'', ''KXNBA2D'', ''KXNBA2H'',
     ''KXNBA2HSPREAD'', ''KXNBA2HTEAMTOTAL'', ''KXNBA2HTOTAL'', ''KXNBA2HWINNER'', ''KXNBA2Q'', ''KXNBA2QSPREAD'',
     ''KXNBA2QTEAMTOTAL'', ''KXNBA2QTOTAL'', ''KXNBA2QWINNER'', ''KXNBA3D'', ''KXNBA3PT'', ''KXNBA3Q'',
     ''KXNBA3QSPREAD'', ''KXNBA3QTEAMTOTAL'', ''KXNBA3QTOTAL'', ''KXNBA3QWINNER'', ''KXNBA4Q'', ''KXNBA4QSPREAD'',
     ''KXNBA4QTEAMTOTAL'', ''KXNBA4QTOTAL'', ''KXNBA4QWINNER'', ''KXNBAAST'', ''KXNBABENCHPTS'', ''KXNBABLK'',
     ''KXNBAFTM'', ''KXNBAGAME'', ''KXNBAH2H3PT'', ''KXNBAH2HBENCHPTS'', ''KXNBAH2HPRA'', ''KXNBAH2HPTS'',
     ''KXNBAH2HTEAM3PT'', ''KXNBAOT'', ''KXNBAOVERTIME'', ''KXNBAPA'', ''KXNBAPR'', ''KXNBAPRA'', ''KXNBAPREPACK2ML'',
     ''KXNBAPREPACK3ML'', ''KXNBAPTS'', ''KXNBARA'', ''KXNBAREB'', ''KXNBASPREAD'', ''KXNBASTL'', ''KXNBASTOCK'',
     ''KXNBASTOCKS'', ''KXNBATEAMTOTAL'', ''KXNBATOTAL'', ''KXNBAWINMARGIN'']"

definition SOCCER_SERIES_1 :: "string list" where
  "SOCCER_SERIES_1 =
     [''KXAPFDDH'', ''KXAPFDDHBTTS'', ''KXAPFDDHGAME'', ''KXAPFDDHSPREAD'', ''KXAPFDDHTOTAL'', ''KXARGNACBBTTS'',
     ''KXARGNACBGAME'', ''KXARGNACBSPREAD'', ''KXARGNACBTOTAL'', ''KXARGPREMDIV'', ''KXBALLONDOR'',
     ''KXBALLONDORAWARD'', ''KXBALLONDORRANK'', ''KXBELGIANPL'', ''KXBRASILEIRO'', ''KXBRASILEIROB1H'',
     ''KXBRASILEIROB1HBTTS'', ''KXBRASILEIROB1HSPREAD'', ''KXBRASILEIROB1HTOTAL'', ''KXBRASILEIROBBTTS'',
     ''KXBRASILEIROBGAME'', ''KXBRASILEIROBSPREAD'', ''KXBRASILEIROBTOTAL'', ''KXBRASILEIROBTTS'',
     ''KXBRASILEIROCBTTS'', ''KXBRASILEIROCGAME'', ''KXBRASILEIROCSPREAD'', ''KXBRASILEIROCTOTAL'',
     ''KXBRASILEIROGAME'', ''KXBRASILEIROSPREAD'', ''KXBRASILEIROTOPX'', ''KXBRASILEIROTOTAL'', ''KXBUNDESLIGA'',
     ''KXBUNDESLIGAGAME'', ''KXBUNDESLIGALAST'', ''KXBUNDESLIGALEADER'', ''KXBUNDESLIGAPOINTMARGIN'',
     ''KXBUNDESLIGARELEGATION'', ''KXBUNDESLIGATEAMPOINTS'', ''KXBUNDESLIGATOP'', ''KXCANPLGAME'', ''KXCHLLDP'',
     ''KXCHNL1GAME'', ''KXCHNSL'', ''KXCLUBCHANGEMBAPPE'', ''KXCLUBWCHOST'', ''KXCONCACAFGC'', ''KXCONCACAFNL'',
     ''KXCONCACAFNL1H'', ''KXCONCACAFNL1HBTTS'', ''KXCONCACAFNL1HSPREAD'', ''KXCONCACAFNL1HTOTAL'',
     ''KXCONCACAFNLBTTS'', ''KXCONCACAFNLGAME'', ''KXCONCACAFNLSPREAD'', ''KXCONCACAFNLTOTAL'', ''KXCONMEBOLLIB'',
     ''KXCONMEBOLSUD'', ''KXCOPAAMERICA'', ''KXCOPAAMERICAHOST'', ''KXCOPADELREY'', ''KXCOPADELREYADVANCE'',
     ''KXCOPADELREYGAME'', ''KXCOPADOBRASIL'', ''KXDENSUPERLIGA'', ''KXDFBPOKAL'', ''KXDIMAYORBTTS'',
     ''KXDIMAYORGAME'', ''KXDIMAYORSPREAD'', ''KXDIMAYORTOTAL'', ''KXECULP'', ''KXEFLCHAMPIONSHIP'', ''KXEFLCUP'',
     ''KXEFLL1BTTS'', ''KXEFLL1GAME'', ''KXEFLL1SPREAD'', ''KXEFLL1TOTAL'', ''KXEFLPROMO'', ''KXEKSTRAKLASA'',
     ''KXENGNLGAME'', ''KXEPLGAME'', ''KXEPLH2H'', ''KXEPLH2HFINISH'', ''KXEPLLAST'', ''KXEPLLEADER'',
     ''KXEPLPOINTMARGIN'', ''KXEPLRELEGATION'', ''KXEPLSEASONSTAT'', ''KXEPLTEAMPOINTS'', ''KXEPLTOP'',
     ''KXEREDIVISIE'', ''KXFACUP'', ''KXFIFALEAVE'', ''KXFIFAWGAME'', ''KXHKANEKNIGHT'', ''KXINTLFRIENDLY1H'',
     ''KXINTLFRIENDLY1HBTTS'', ''KXINTLFRIENDLY1HSPREAD'', ''KXINTLFRIENDLY1HTOTAL'', ''KXINTLFRIENDLYBTTS'',
     ''KXINTLFRIENDLYGAME'', ''KXINTLFRIENDLYSPREAD'', ''KXINTLFRIENDLYTOTAL'', ''KXISRNLBTTS'', ''KXISRNLGAME'',
     ''KXISRNLSPREAD'', ''KXISRNLTOTAL'', ''KXJOINCLUB'', ''KXJOINLEAGUE'', ''KXJOINRONALDO'', ''KXKLEAGUE'',
     ''KXKNVBCUP'', ''KXLALIGA'', ''KXLALIGA2BTTS'', ''KXLALIGA2GAME'', ''KXLALIGA2SPREAD'', ''KXLALIGA2TOTAL'',
     ''KXLALIGAGAME'', ''KXLALIGALAST'', ''KXLALIGALEADER'', ''KXLALIGAPOINTMARGIN'', ''KXLALIGARELEGATION'',
     ''KXLALIGATEAMPOINTS'', ''KXLALIGATOP'', ''KXLAMINEYAMAL'', ''KXLIGAEXPGAME'', ''KXLIGAMX'', ''KXLIGAMX1H'',
     ''KXLIGAMX1HBTTS'', ''KXLIGAMX1HSCORE'']"

definition SOCCER_SERIES_2 :: "string list" where
  "SOCCER_SERIES_2 =
     [''KXLIGAMX1HSPREAD'', ''KXLIGAMX1HTOTAL'', ''KXLIGAMX2H'', ''KXLIGAMX2HBTTS'', ''KXLIGAMX2HSPREAD'',
     ''KXLIGAMX2HTOTAL'', ''KXLIGAMXBTTS'', ''KXLIGAMXFTTS'', ''KXLIGAMXGAME'', ''KXLIGAMXLEADER'', ''KXLIGAMXSCORE'',
     ''KXLIGAMXSPREAD'', ''KXLIGAMXTEAMTOTAL'', ''KXLIGAMXTOP'', ''KXLIGAMXTOTAL'', ''KXLIGAPORTUGAL'', ''KXLIGUE1'',
     ''KXLIGUE1GAME'', ''KXLIGUE1LAST'', ''KXLIGUE1LEADER'', ''KXLIGUE1POINTMARGIN'', ''KXLIGUE1RELEGATION'',
     ''KXLIGUE1TEAMPOINTS'', ''KXLIGUE1TOP'', ''KXMANAGEROUTDATE'', ''KXMANAGERSOUT'', ''KXMLS1H'', ''KXMLS1HBTTS'',
     ''KXMLS1HSCORE'', ''KXMLS1HSPREAD'', ''KXMLS1HTOTAL'', ''KXMLS2H'', ''KXMLS2HBTTS'', ''KXMLS2HSPREAD'',
     ''KXMLS2HTOTAL'', ''KXMLSBTTS'', ''KXMLSCUP'', ''KXMLSEAST'', ''KXMLSFTTS'', ''KXMLSGAME'', ''KXMLSLEADER'',
     ''KXMLSSCORE'', ''KXMLSSPREAD'', ''KXMLSTEAMTOTAL'', ''KXMLSTOTAL'', ''KXMLSWEST'', ''KXNWSL'', ''KXNWSLBTTS'',
     ''KXNWSLGAME'', ''KXNWSLSPREAD'', ''KXNWSLTOTAL'', ''KXPERLIGA1'', ''KXPERLIGA1GAME'', ''KXPOCHETTINOOUT'',
     ''KXPREMIERLEAGUE'', ''KXSERIEA'', ''KXSERIEAGAME'', ''KXSERIEALAST'', ''KXSERIEALEADER'',
     ''KXSERIEAPOINTMARGIN'', ''KXSERIEARELEGATION'', ''KXSERIEATEAMPOINTS'', ''KXSERIEATOP'', ''KXSOCCERRETIRE'',
     ''KXSOCCERTREBLE'', ''KXSOCCERTROPHIES'', ''KXSUPERBALLONDOR'', ''KXSUPERLIG'', ''KXSVK2LBTTS'', ''KXSVK2LGAME'',
     ''KXSVK2LSPREAD'', ''KXSVK2LTOTAL'', ''KXSVKCUPADVANCE'', ''KXSVKCUPGAME'', ''KXTACAPORT'', ''KXTHAIL1'',
     ''KXUCL'', ''KXUCLBOTTOM'', ''KXUCLLEADER'', ''KXUCLLEAGUE'', ''KXUCLROUND'', ''KXUCLTOP'', ''KXUCLTOP8'',
     ''KXUCLWGAME'', ''KXUECL'', ''KXUEFAEURO'', ''KXUEFAEUROQUAL'', ''KXUEFANL'', ''KXUEFANL1H'', ''KXUEFANL1HBTTS'',
     ''KXUEFANL1HSPREAD'', ''KXUEFANL1HTOTAL'', ''KXUEFANLBTTS'', ''KXUEFANLFTTS'', ''KXUEFANLGAME'',
     ''KXUEFANLGROUPQUAL'', ''KXUEFANLGROUPWIN'', ''KXUEFANLROUND'', ''KXUEFANLSCORE'', ''KXUEFANLSPREAD'',
     ''KXUEFANLTEAMTOTAL'', ''KXUEFANLTOTAL'', ''KXUEL'', ''KXURYPD'', ''KXURYPDBTTS'', ''KXURYPDGAME'',
     ''KXURYPDSPREAD'', ''KXURYPDTOTAL'', ''KXUSL'', ''KXUSLBTTS'', ''KXUSLCUPADVANCE'', ''KXUSLCUPGAME'',
     ''KXUSLGAME'', ''KXUSLSPREAD'', ''KXUSLTOTAL'', ''KXVENFUTVE'', ''KXWC'', ''KXWCCAREERGOALS'', ''KXWCHOST'',
     ''KXWCQUAL'', ''KXWCTEAMS'', ''KXWCW'', ''KXWINSTREAKMANU'']"

definition TENNIS_SERIES :: "string list" where
  "TENNIS_SERIES =
     [''KXATPMATCH'', ''KXWTAMATCH'', ''KXUSOPEN'', ''KXWIMBLEDON'']"

definition SERIES_TICKER_REGISTRY :: "(string, series_entry) dict" where
  "SERIES_TICKER_REGISTRY =
     entries MLB False MLB_SERIES
     @ entries NFL False NFL_SERIES
     @ entries CFB False CFB_SERIES
     @ entries NHL True NHL_SERIES
     @ entries NBA True NBA_SERIES
     @ entries SOCCER True SOCCER_SERIES_1
     @ entries SOCCER True SOCCER_SERIES_2
     @ entries TENNIS False TENNIS_SERIES"

definition lookup_series_ticker :: "string option \<Rightarrow> series_entry option" where
  "lookup_series_ticker series_ticker =
     (case series_ticker of
        None \<Rightarrow> None
      | Some t \<Rightarrow> if t = [] then None else dget SERIES_TICKER_REGISTRY (py_upper (py_strip t)))"

text \<open>Every entry names a routable sport.\<close>

lemma registry_is_routable: "lookup_series_ticker t = Some e \<Longrightarrow> se_sport e \<in> set ROUTABLE_SPORTS"
  by (auto simp: lookup_series_ticker_def SERIES_TICKER_REGISTRY_def entries_def dest!: map_of_SomeD
      split: option.splits if_splits)

end
