(* ===== verification/Evidence.thy ===== *)
theory Evidence
  imports Milestones SeriesRegistry
begin

text \<open>
  The evidence half of \<^verbatim>\<open>classify.py\<close>: the vocabulary of levels and reasons, what the exchange's documents say
  of one market, and the verdict of each level. A function that appends to the caller's evidence list returns what
  it appends beside its result. The readers of a combo's legs are those of \<^verbatim>\<open>refusals.py\<close>.
\<close>

section \<open>Vocabulary\<close>

datatype evidence_level =
    L1_EVENT_COMPETITION
  | L2_SPORT_TAXONOMY
  | L3_MILESTONE
  | L4_SERIES_METADATA
  | L5_SERIES_REGISTRY
  | COMBO_LEGS

fun level_value :: "evidence_level \<Rightarrow> string" where
  "level_value L1_EVENT_COMPETITION = ''L1_event_competition''"
| "level_value L2_SPORT_TAXONOMY = ''L2_sport_taxonomy''"
| "level_value L3_MILESTONE = ''L3_milestone''"
| "level_value L4_SERIES_METADATA = ''L4_series_metadata''"
| "level_value L5_SERIES_REGISTRY = ''L5_series_registry''"
| "level_value COMBO_LEGS = ''combo_legs''"

definition LEVEL_ORDER :: "evidence_level list" where
  "LEVEL_ORDER = [L1_EVENT_COMPETITION, L2_SPORT_TAXONOMY, L3_MILESTONE, L4_SERIES_METADATA, L5_SERIES_REGISTRY]"

definition COMPETITION_LEVELS :: "evidence_level list" where
  "COMPETITION_LEVELS = [L1_EVENT_COMPETITION, L2_SPORT_TAXONOMY, L3_MILESTONE]"

datatype unresolved_reason =
    METADATA_LOOKUP_FAILED
  | NO_METADATA
  | MALFORMED_EVENT_METADATA
  | COMPETITION_ABSENT
  | COMPETITION_UNKNOWN
  | COMPETITION_AMBIGUOUS
  | MILESTONE_CONFLICT
  | EVIDENCE_CONFLICT
  | AMBIGUOUS_FAMILY
  | INSUFFICIENT
  | COMBO_LEGS_UNAVAILABLE
  | COMBO_LEG_UNRESOLVED
  | COMBO_LEGS_SPAN_SPORTS

fun reason_value :: "unresolved_reason \<Rightarrow> string" where
  "reason_value METADATA_LOOKUP_FAILED = ''metadata_lookup_failed''"
| "reason_value NO_METADATA = ''no_metadata_resolved''"
| "reason_value MALFORMED_EVENT_METADATA = ''malformed_event_metadata''"
| "reason_value COMPETITION_ABSENT = ''competition_absent''"
| "reason_value COMPETITION_UNKNOWN = ''competition_unknown''"
| "reason_value COMPETITION_AMBIGUOUS = ''competition_ambiguous_in_taxonomy''"
| "reason_value MILESTONE_CONFLICT = ''milestone_competition_conflict''"
| "reason_value EVIDENCE_CONFLICT = ''evidence_conflict''"
| "reason_value AMBIGUOUS_FAMILY = ''ambiguous_sport_family_without_league''"
| "reason_value INSUFFICIENT = ''insufficient_authoritative_metadata''"
| "reason_value COMBO_LEGS_UNAVAILABLE = ''combo_legs_unavailable''"
| "reason_value COMBO_LEG_UNRESOLVED = ''combo_leg_unresolved''"
| "reason_value COMBO_LEGS_SPAN_SPORTS = ''combo_legs_span_sports''"

datatype evidence_strength = AUTHORITATIVE | SUPPORTING

record evidence =
  ev_source :: string
  ev_strength :: evidence_strength
  ev_token :: string
  ev_sport :: "sport option"
  ev_family :: "string option"
  ev_kind :: "string option"
  ev_level :: "evidence_level option"

record verdict =
  vd_level :: evidence_level
  vd_sport :: "sport option"
  vd_detail :: string
  vd_reason :: "unresolved_reason option"

definition decides :: "evidence_level \<Rightarrow> sport \<Rightarrow> string \<Rightarrow> verdict" where
  "decides level s detail = \<lparr>vd_level = level, vd_sport = Some s, vd_detail = detail, vd_reason = None\<rparr>"

definition refuses :: "evidence_level \<Rightarrow> string \<Rightarrow> unresolved_reason \<Rightarrow> verdict" where
  "refuses level detail reason = \<lparr>vd_level = level, vd_sport = None, vd_detail = detail, vd_reason = Some reason\<rparr>"

lemma verdict_simps [simp]:
  "vd_level (decides l s d) = l" "vd_sport (decides l s d) = Some s" "vd_reason (decides l s d) = None"
  "vd_level (refuses l d r) = l" "vd_sport (refuses l d r) = None" "vd_reason (refuses l d r) = Some r"
  by (simp_all add: decides_def refuses_def)

section \<open>Event metadata\<close>

definition EVENT_METADATA_STRING_FIELDS :: "string list" where
  "EVENT_METADATA_STRING_FIELDS = [''competition'', ''competition_scope'']"

text \<open>\<open>(value, error)\<close>.\<close>

definition validate_metadata_string_field :: "jobj option \<Rightarrow> string \<Rightarrow> string option \<times> string option" where
  "validate_metadata_string_field metadata key =
     (case metadata of
        None \<Rightarrow> (None, None)
      | Some ob \<Rightarrow>
          (case jget ob key of
             JNull \<Rightarrow> (None, None)
           | JStr s \<Rightarrow>
               if blank s then (None, Some (key @ '' was present but empty, expected a non-empty string or null''))
               else (Some (py_strip s), None)
           | v \<Rightarrow> (None, Some (key @ '' was '' @ type_name v @ '', expected string or null''))))"

record market_context =
  mc_ticker :: string
  mc_market :: "jobj option"
  mc_event :: "jobj option"
  mc_series :: "jobj option"
  mc_event_metadata :: "jobj option"
  mc_lookup_error :: "string option"
  mc_event_metadata_error :: "string option"

definition metadata_schema_error :: "market_context \<Rightarrow> string option" where
  "metadata_schema_error ctx =
     (case List.map_filter (\<lambda>key. snd (validate_metadata_string_field (mc_event_metadata ctx) key))
             EVENT_METADATA_STRING_FIELDS of
        [] \<Rightarrow> None
      | err # _ \<Rightarrow> Some err)"

definition context_competition :: "market_context \<Rightarrow> string option" where
  "context_competition ctx =
     (case validate_metadata_string_field (mc_event_metadata ctx) ''competition'' of
        (v, err) \<Rightarrow> if err = None then v else None)"

definition context_competition_scope :: "market_context \<Rightarrow> string option" where
  "context_competition_scope ctx =
     (case validate_metadata_string_field (mc_event_metadata ctx) ''competition_scope'' of
        (v, err) \<Rightarrow> if err = None then v else None)"

section \<open>Combos\<close>

definition combo_legs :: "jobj option \<Rightarrow> jobj list" where
  "combo_legs market =
     (case market of
        None \<Rightarrow> []
      | Some ob \<Rightarrow> (case jget ob ''mve_selected_legs'' of JList legs \<Rightarrow> json_objects legs | _ \<Rightarrow> []))"

definition is_combo :: "jobj option \<Rightarrow> bool" where
  "is_combo market =
     (case market of
        None \<Rightarrow> False
      | Some ob \<Rightarrow>
          if combo_legs market \<noteq> [] then True
          else (case jget ob ''mve_collection_ticker'' of JStr s \<Rightarrow> \<not> blank s | _ \<Rightarrow> False))"

definition leg_market_ticker :: "jobj \<Rightarrow> string option" where
  "leg_market_ticker leg =
     (case (if truthy (jget leg ''market_ticker'') then jget leg ''market_ticker'' else jget leg ''ticker'') of
        JStr s \<Rightarrow> if blank s then None else Some s
      | _ \<Rightarrow> None)"

section \<open>Series text\<close>

definition LEAGUE_TOKENS :: "(sport, string list) dict" where
  "LEAGUE_TOKENS =
     [(MLB, [''mlb'', ''major league baseball'', ''world series'']),
      (NFL, [''nfl'', ''national football league'', ''super bowl'']),
      (CFB, [''cfb'', ''ncaaf'', ''ncaa football'', ''college football'', ''college football playoff'']),
      (NHL, [''nhl'', ''national hockey league'', ''pro hockey'']),
      (NBA, [''nba'', ''national basketball association'', ''pro basketball (m)'']),
      (SOCCER, [''soccer'', ''mls'', ''uefa'', ''la liga'', ''bundesliga'', ''ligue 1'', ''epl'', ''english premier league'',
                ''fifa'', ''concacaf'', ''conmebol'', ''liga mx'', ''brasileirao'', ''eredivisie'', ''nwsl'']),
      (TENNIS, [''tennis'', ''atp'', ''wta''])]"

definition AMBIGUOUS_FAMILY_TOKENS :: "string list" where
  "AMBIGUOUS_FAMILY_TOKENS =
     [''football'', ''american football'', ''baseball'', ''college sports'', ''ncaa'', ''hockey'', ''ice hockey'', ''basketball'']"

definition NON_TARGET_SPORT_TOKENS :: "string list" where
  "NON_TARGET_SPORT_TOKENS =
     [''wnba'', ''ncaab'', ''college basketball'',
      ''college hockey'', ''ncaa hockey'', ''khl'', ''shl'', ''ahl'', ''pwhl'', ''field hockey'',
      ''golf'', ''pga'', ''liv golf'', ''masters tournament'',
      ''mma'', ''ufc'', ''boxing'',
      ''cricket'', ''rugby'', ''esports'', ''league of legends'', ''counter-strike'', ''dota'',
      ''motorsport'', ''formula 1'', ''nascar'', ''f1'',
      ''olympics'', ''chess'', ''darts'', ''cycling'', ''auto racing'']"

definition NON_SPORTS_CATEGORY_TOKENS :: "string list" where
  "NON_SPORTS_CATEGORY_TOKENS =
     [''politics'', ''elections'', ''economics'', ''financials'', ''financial markets'',
      ''climate'', ''weather'', ''entertainment'', ''science and technology'', ''technology'',
      ''health'', ''world'', ''companies'', ''crypto'', ''cryptocurrency'', ''transportation'',
      ''culture'', ''media'', ''awards'', ''inflation'', ''fed'', ''commodities'']"

definition contains_token :: "string \<Rightarrow> string \<Rightarrow> bool" where
  "contains_token name token \<longleftrightarrow> name \<noteq> [] \<and> token \<noteq> [] \<and> has_token name token"

definition nonempty_text :: "json \<Rightarrow> string list" where
  "nonempty_text v = (if normalize v = [] then [] else [normalize v])"

definition iter_texts :: "json \<Rightarrow> string list" where
  "iter_texts v = (case v of
       JStr _ \<Rightarrow> nonempty_text v
     | JList items \<Rightarrow>
         concat (map (\<lambda>item. case item of
             JStr _ \<Rightarrow> nonempty_text item
           | JObj ob \<Rightarrow> take 1 (concat (map (\<lambda>key. nonempty_text (jget ob key)) [''name'', ''title'', ''label'']))
           | _ \<Rightarrow> []) items)
     | _ \<Rightarrow> [])"

definition matched :: "string \<Rightarrow> evidence_strength \<Rightarrow> string \<Rightarrow> evidence" where
  "matched source strength token =
     \<lparr>ev_source = source, ev_strength = strength, ev_token = token, ev_sport = None, ev_family = None, ev_kind = None,
      ev_level = (if strength = AUTHORITATIVE then Some L4_SERIES_METADATA else None)\<rparr>"

text \<open>The loop over one list of tokens, which breaks at the first match.\<close>

definition scan_tokens :: "string \<Rightarrow> string list \<Rightarrow> (string \<Rightarrow> evidence) \<Rightarrow> evidence list" where
  "scan_tokens name tokens found =
     (case find (contains_token name) tokens of None \<Rightarrow> [] | Some token \<Rightarrow> [found token])"

definition scan_text :: "string \<Rightarrow> string \<Rightarrow> evidence_strength \<Rightarrow> evidence list" where
  "scan_text name source strength =
     concat (map (\<lambda>(s, tokens). scan_tokens name tokens (\<lambda>t. (matched source strength t)\<lparr>ev_sport := Some s\<rparr>)) LEAGUE_TOKENS)
     @ scan_tokens name NON_TARGET_SPORT_TOKENS
         (\<lambda>t. (matched source strength t)\<lparr>ev_sport := Some OTHER, ev_kind := Some ''sport''\<rparr>)
     @ scan_tokens name NON_SPORTS_CATEGORY_TOKENS
         (\<lambda>t. (matched source strength t)\<lparr>ev_sport := Some OTHER, ev_kind := Some ''category''\<rparr>)
     @ scan_tokens name AMBIGUOUS_FAMILY_TOKENS (\<lambda>t. (matched source strength t)\<lparr>ev_family := Some t\<rparr>)"

definition get_field :: "jobj option \<Rightarrow> string \<Rightarrow> json" where
  "get_field mapping key = (case mapping of None \<Rightarrow> JNull | Some ob \<Rightarrow> jget ob key)"

definition derive_series_ticker :: "market_context \<Rightarrow> string option \<times> string" where
  "derive_series_ticker ctx =
     (case filter (\<lambda>(v, _). case v of JStr s \<Rightarrow> \<not> blank s | _ \<Rightarrow> False)
             [(get_field (mc_series ctx) ''ticker'', ''series.ticker''),
              (get_field (mc_event ctx) ''series_ticker'', ''event.series_ticker''),
              (get_field (mc_market ctx) ''series_ticker'', ''market.series_ticker'')] of
        (JStr s, source) # _ \<Rightarrow> (Some (py_strip s), source)
      | _ \<Rightarrow>
          if CHR ''-'' \<in> set (mc_ticker ctx)
          then (Some (py_strip (takeWhile (\<lambda>c. c \<noteq> CHR ''-'') (mc_ticker ctx))), ''market_ticker.series_prefix'')
          else (None, ''none''))"

section \<open>The verdict of each level\<close>

text \<open>The loop of \<open>_taxonomy_affirms_the_direct_answer\<close> over the claimants: the affirming ones, unless it returns
  early.\<close>

fun count_affirming :: "string \<Rightarrow> sport \<Rightarrow> string list \<Rightarrow> nat \<Rightarrow> nat option" where
  "count_affirming competition direct [] affirming = Some affirming"
| "count_affirming competition direct (name # names) affirming =
     (case possible_sports name of
        None \<Rightarrow> None
      | Some members \<Rightarrow>
          if members = [] then count_affirming competition direct names affirming
          else if direct \<notin> set members \<and> list_all (\<lambda>m. closed_vocabulary_excludes m competition) members
               then count_affirming competition direct names affirming
          else if direct \<notin> set members then None
          else count_affirming competition direct names (affirming + 1))"

definition taxonomy_affirms_the_direct_answer :: "sport_taxonomy \<Rightarrow> string \<Rightarrow> sport option \<Rightarrow> bool" where
  "taxonomy_affirms_the_direct_answer taxonomy competition direct =
     (case direct of
        None \<Rightarrow> False
      | Some s \<Rightarrow>
          (case dget (ambiguous_claimants taxonomy) (normalize_text competition) of
             None \<Rightarrow> False
           | Some claimants \<Rightarrow> claimants \<noteq> [] \<and> count_affirming competition s claimants 0 = Some 1))"

definition level_evidence :: "string \<Rightarrow> evidence_strength \<Rightarrow> string \<Rightarrow> evidence_level \<Rightarrow> evidence" where
  "level_evidence source strength token level =
     \<lparr>ev_source = source, ev_strength = strength, ev_token = token, ev_sport = None, ev_family = None, ev_kind = None,
      ev_level = Some level\<rparr>"

text \<open>The part of \<open>_competition_verdict\<close> after the ambiguity gate: the direct rule, then the taxonomy.\<close>

definition verdict_of_competition :: "sport_taxonomy option \<Rightarrow> string \<Rightarrow> verdict \<times> evidence list" where
  "verdict_of_competition taxonomy competition =
     (case sport_from_competition competition of
        Some s \<Rightarrow> (decides L1_EVENT_COMPETITION s (''competition='' @ repr_str competition), [])
      | None \<Rightarrow>
          (case (case taxonomy of None \<Rightarrow> None | Some t \<Rightarrow> sport_for_competition t competition) of
             Some name \<Rightarrow>
               if name = [] then (refuses L1_EVENT_COMPETITION (''unrecognized competition '' @ repr_str competition) COMPETITION_UNKNOWN, [])
               else
                 (case sport_from_taxonomy_sport name of
                    Some s \<Rightarrow> decides L2_SPORT_TAXONOMY s (''taxonomy sport='' @ repr_str name)
                  | None \<Rightarrow>
                      if is_ambiguous_sport name
                      then refuses L2_SPORT_TAXONOMY (''unrecognized competition within ambiguous sport '' @ repr_str name) COMPETITION_UNKNOWN
                      else refuses L2_SPORT_TAXONOMY (''unrecognized sport '' @ repr_str name) COMPETITION_UNKNOWN,
                  [level_evidence ''taxonomy.sport'' AUTHORITATIVE name L2_SPORT_TAXONOMY])
           | None \<Rightarrow> (refuses L1_EVENT_COMPETITION (''unrecognized competition '' @ repr_str competition) COMPETITION_UNKNOWN, [])))"

definition competition_verdict :: "market_context \<Rightarrow> sport_taxonomy option \<Rightarrow> verdict option \<times> evidence list" where
  "competition_verdict ctx taxonomy =
     (case context_competition ctx of
        None \<Rightarrow> (None, [])
      | Some competition \<Rightarrow>
          let stated = level_evidence ''event_metadata.competition'' AUTHORITATIVE competition L1_EVENT_COMPETITION
                # (case context_competition_scope ctx of
                     None \<Rightarrow> []
                   | Some scope \<Rightarrow>
                       if scope = [] then []
                       else [level_evidence ''event_metadata.competition_scope'' SUPPORTING scope L1_EVENT_COMPETITION])
          in
          if (case taxonomy of
                None \<Rightarrow> False
              | Some t \<Rightarrow> is_ambiguous_competition t competition
                  \<and> \<not> taxonomy_affirms_the_direct_answer t competition (sport_from_competition competition))
          then (Some (refuses L2_SPORT_TAXONOMY ''competition is claimed by more than one sport'' COMPETITION_AMBIGUOUS), stated)
          else (case verdict_of_competition taxonomy competition of (v, added) \<Rightarrow> (Some v, stated @ added)))"

definition milestone_verdict ::
  "milestone_index option \<Rightarrow> string option \<Rightarrow> verdict option \<times> evidence list" where
  "milestone_verdict index event_ticker =
     (case index of
        None \<Rightarrow> (None, [])
      | Some ix \<Rightarrow>
          if event_ticker = None \<or> event_ticker = Some [] then (None, [])
          else if is_conflicted ix event_ticker
          then (Some (refuses L3_MILESTONE ''event appears under more than one competition'' MILESTONE_CONFLICT), [])
          else
            (case competition_for_event ix event_ticker of
               None \<Rightarrow> (None, [])
             | Some competition \<Rightarrow>
                 if competition = [] then (None, [])
                 else (map_option (\<lambda>s. decides L3_MILESTONE s (''milestone competition='' @ repr_str competition))
                         (sport_from_competition competition),
                       [level_evidence ''milestone.competition'' AUTHORITATIVE competition L3_MILESTONE])))"

definition comma_set :: "string list \<Rightarrow> string" where
  "comma_set names = join '', '' (sorted_set names)"

definition authoritative_evidence :: "market_context \<Rightarrow> evidence list" where
  "authoritative_evidence ctx =
     concat (map (\<lambda>(mapping, key, source). concat (map (\<lambda>t. scan_text t source AUTHORITATIVE) (iter_texts (get_field mapping key))))
       [(mc_series ctx, ''tags'', ''series.tags''),
        (mc_series ctx, ''categories'', ''series.categories''),
        (mc_series ctx, ''category'', ''series.category''),
        (mc_series ctx, ''title'', ''series.title''),
        (mc_event ctx, ''category'', ''event.category''),
        (mc_market ctx, ''category'', ''market.category'')])"

definition supporting_evidence :: "market_context \<Rightarrow> evidence list" where
  "supporting_evidence ctx =
     concat (map (\<lambda>(mapping, key, source). concat (map (\<lambda>t. scan_text t source SUPPORTING) (iter_texts (get_field mapping key))))
       [(mc_event ctx, ''title'', ''event.title''),
        (mc_event ctx, ''sub_title'', ''event.sub_title''),
        (mc_market ctx, ''title'', ''market.title''),
        (mc_market ctx, ''subtitle'', ''market.subtitle''),
        (mc_market ctx, ''yes_sub_title'', ''market.yes_sub_title'')])"

text \<open>The routable sports the evidence names.\<close>

definition named_leagues :: "evidence list \<Rightarrow> sport list" where
  "named_leagues found =
     remdups (concat (map (\<lambda>e. case ev_sport e of Some s \<Rightarrow> if s \<in> set ROUTABLE_SPORTS then [s] else [] | None \<Rightarrow> []) found))"

definition out_of_scope :: "string \<Rightarrow> evidence list \<Rightarrow> evidence list" where
  "out_of_scope kind found = filter (\<lambda>e. ev_sport e = Some OTHER \<and> ev_kind e = Some kind) found"

definition series_verdict_of :: "evidence list \<Rightarrow> verdict option" where
  "series_verdict_of found =
     (case named_leagues found of
        _ # _ # _ \<Rightarrow>
          Some (refuses L4_SERIES_METADATA (''series metadata named '' @ comma_set (map sport_value (named_leagues found)))
                  EVIDENCE_CONFLICT)
      | [s] \<Rightarrow>
          Some (decides L4_SERIES_METADATA s (comma_set (map ev_source (filter (\<lambda>e. ev_sport e = Some s) found))))
      | [] \<Rightarrow>
          if out_of_scope ''sport'' found \<noteq> []
          then Some (decides L4_SERIES_METADATA OTHER (comma_set (map ev_source (out_of_scope ''sport'' found))))
          else if List.map_filter ev_family found \<noteq> []
          then Some (refuses L4_SERIES_METADATA (comma_set (List.map_filter ev_family found)) AMBIGUOUS_FAMILY)
          else if out_of_scope ''category'' found \<noteq> []
          then Some (decides L4_SERIES_METADATA OTHER (comma_set (map ev_source (out_of_scope ''category'' found))))
          else None)"

definition series_metadata_verdict :: "market_context \<Rightarrow> verdict option \<times> evidence list" where
  "series_metadata_verdict ctx =
     (let found = authoritative_evidence ctx in (series_verdict_of found, supporting_evidence ctx @ found))"

definition registry_verdict :: "string option \<Rightarrow> string \<Rightarrow> (verdict option \<times> bool) \<times> evidence list" where
  "registry_verdict series_ticker ticker_source =
     (case lookup_series_ticker series_ticker of
        None \<Rightarrow> ((None, False), [])
      | Some entry \<Rightarrow>
          ((Some (decides L5_SERIES_REGISTRY (se_sport entry) (''registry['' @ text_or_empty series_ticker @ '']'')),
            \<not> se_verified entry),
           [(level_evidence (''series_registry['' @ ticker_source @ '']'') AUTHORITATIVE
               (py_upper (text_or_empty series_ticker)) L5_SERIES_REGISTRY)\<lparr>ev_sport := Some (se_sport entry)\<rparr>]))"

end
