(* ===== verification/Classify.thy ===== *)
theory Classify
  imports Evidence
begin

text \<open>
  The decisions of \<^verbatim>\<open>classify.py\<close> over the verdicts of \<open>Evidence\<close>: one market, a combo by its legs, and the
  measurement of the taxonomy's collisions; and \<^verbatim>\<open>combo_decode.py\<close>. A leg's resolver is a parameter with a state
  of its own, which may raise.

  The lemmas: which sport a market is answered, by which level and with which warning; a combo whose legs are all stated
  is placed by all of them, and what is answered when some are not; the collision counts add up.
\<close>

section \<open>One market\<close>

record classification =
  cl_sport :: sport
  cl_reason :: string
  cl_market_ticker :: string
  cl_evidence :: "evidence list"
  cl_event_ticker :: "string option"
  cl_series_ticker :: "string option"
  cl_competition :: "string option"
  cl_competition_scope :: "string option"
  cl_resolved_by :: "evidence_level option"
  cl_unresolved_reason :: "unresolved_reason option"
  cl_unverified_series :: bool
  cl_rescuable_by :: "evidence_level option"
  cl_lower_conflict :: bool

definition is_routable :: "classification \<Rightarrow> bool" where
  "is_routable cl \<longleftrightarrow> cl_sport cl \<in> set ROUTABLE_SPORTS"

definition context_event_ticker :: "market_context \<Rightarrow> string option" where
  "context_event_ticker ctx =
     (let v = get_field (mc_event ctx) ''event_ticker'' in
      jstr (if truthy v then v else get_field (mc_market ctx) ''event_ticker''))"

text \<open>\<open>build\<close> of an unresolved classification; the other fields are set by its callers.\<close>

definition unresolved :: "market_context \<Rightarrow> unresolved_reason \<Rightarrow> string \<Rightarrow> evidence list \<Rightarrow> classification" where
  "unresolved ctx reason detail evidence =
     \<lparr>cl_sport = UNRESOLVED, cl_reason = reason_value reason @ detail, cl_market_ticker = mc_ticker ctx,
      cl_evidence = evidence, cl_event_ticker = context_event_ticker ctx, cl_series_ticker = None,
      cl_competition = context_competition ctx, cl_competition_scope = context_competition_scope ctx,
      cl_resolved_by = None, cl_unresolved_reason = Some reason, cl_unverified_series = False,
      cl_rescuable_by = None, cl_lower_conflict = False\<rparr>"

text \<open>The levels of one context: what each says, and the evidence in the order it was appended.\<close>

record findings =
  fd_competition :: "verdict option"
  fd_milestone :: "verdict option"
  fd_series :: "verdict option"
  fd_registry :: "verdict option"
  fd_unverified :: bool
  fd_evidence :: "evidence list"
  fd_series_ticker :: "string option"

definition gather :: "market_context \<Rightarrow> sport_taxonomy option \<Rightarrow> milestone_index option \<Rightarrow> findings" where
  "gather ctx taxonomy index =
     (case derive_series_ticker ctx of (series_ticker, source) \<Rightarrow>
      case competition_verdict ctx taxonomy of (competition, ev1) \<Rightarrow>
      case (if competition = None then milestone_verdict index (context_event_ticker ctx) else (None, [])) of (milestone, ev2) \<Rightarrow>
      case series_metadata_verdict ctx of (series, ev3) \<Rightarrow>
      case registry_verdict series_ticker source of ((registry, unverified), ev4) \<Rightarrow>
      \<lparr>fd_competition = competition, fd_milestone = milestone, fd_series = series, fd_registry = registry,
       fd_unverified = unverified, fd_evidence = ev1 @ ev2 @ ev3 @ ev4, fd_series_ticker = series_ticker\<rparr>)"

definition somes :: "verdict option list \<Rightarrow> verdict list" where
  "somes vs = concat (map (\<lambda>v. case v of None \<Rightarrow> [] | Some v \<Rightarrow> [v]) vs)"

definition decisive :: "verdict list \<Rightarrow> verdict list" where
  "decisive vs = filter (\<lambda>v. vd_sport v \<noteq> None) vs"

definition blocking :: "verdict list \<Rightarrow> verdict list" where
  "blocking vs = filter (\<lambda>v. vd_reason v \<noteq> None) vs"

definition level_index :: "evidence_level \<Rightarrow> nat" where
  "level_index l = length (takeWhile (\<lambda>l'. l' \<noteq> l) LEVEL_ORDER)"

definition verdicts_of :: "findings \<Rightarrow> verdict list" where
  "verdicts_of fd = somes [fd_competition fd, fd_milestone fd, fd_series fd, fd_registry fd]"

definition terminal_refusals :: "findings \<Rightarrow> verdict list" where
  "terminal_refusals fd = blocking (somes [fd_competition fd, fd_milestone fd])"

text \<open>The loop over the weaker verdicts: \<open>None\<close> for its early return, otherwise the conflict flag.\<close>

fun compare_with_winner :: "verdict \<Rightarrow> verdict list \<Rightarrow> bool \<Rightarrow> verdict + bool" where
  "compare_with_winner winner [] conflict = Inr conflict"
| "compare_with_winner winner (other # others) conflict =
     (if vd_sport other = vd_sport winner then compare_with_winner winner others conflict
      else if vd_level other = L5_SERIES_REGISTRY then compare_with_winner winner others True
      else if vd_level winner \<in> set COMPETITION_LEVELS \<or> vd_level other \<in> set COMPETITION_LEVELS then Inl other
      else compare_with_winner winner others True)"

definition verdict_text :: "verdict \<Rightarrow> string" where
  "verdict_text v = level_value (vd_level v) @ ''='' @ (case vd_sport v of None \<Rightarrow> [] | Some s \<Rightarrow> sport_value s)"

definition placed :: "market_context \<Rightarrow> findings \<Rightarrow> verdict \<Rightarrow> sport \<Rightarrow> bool \<Rightarrow> classification" where
  "placed ctx fd winner s conflict =
     \<lparr>cl_sport = s, cl_reason = level_value (vd_level winner) @ '': '' @ vd_detail winner, cl_market_ticker = mc_ticker ctx,
      cl_evidence = fd_evidence fd, cl_event_ticker = context_event_ticker ctx, cl_series_ticker = fd_series_ticker fd,
      cl_competition = context_competition ctx, cl_competition_scope = context_competition_scope ctx,
      cl_resolved_by = Some (vd_level winner), cl_unresolved_reason = None, cl_unverified_series = fd_unverified fd,
      cl_rescuable_by = None, cl_lower_conflict = conflict\<rparr>"

definition refused_with :: "market_context \<Rightarrow> findings \<Rightarrow> unresolved_reason \<Rightarrow> string \<Rightarrow> classification" where
  "refused_with ctx fd reason detail =
     (unresolved ctx reason detail (fd_evidence fd))
       \<lparr>cl_series_ticker := fd_series_ticker fd, cl_unverified_series := fd_unverified fd\<rparr>"

definition decide :: "market_context \<Rightarrow> findings \<Rightarrow> classification" where
  "decide ctx fd =
     (case terminal_refusals fd of
        v # _ \<Rightarrow>
          (refused_with ctx fd (the (vd_reason v)) ('': '' @ vd_detail v))
            \<lparr>cl_rescuable_by :=
               (case decisive (somes [fd_series fd, fd_registry fd]) of [] \<Rightarrow> None | w # _ \<Rightarrow> Some (vd_level w))\<rparr>
      | [] \<Rightarrow>
          (case sort_key (\<lambda>v. level_index (vd_level v)) (decisive (verdicts_of fd)) of
             [] \<Rightarrow>
               (case blocking (verdicts_of fd) of
                  v # _ \<Rightarrow> refused_with ctx fd (the (vd_reason v)) ('': '' @ vd_detail v)
                | [] \<Rightarrow>
                    refused_with ctx fd
                      (if mc_event_metadata ctx \<noteq> None \<and> context_competition ctx = None then COMPETITION_ABSENT else INSUFFICIENT)
                      [])
           | winner # others \<Rightarrow>
               (case compare_with_winner winner others False of
                  Inl other \<Rightarrow> refused_with ctx fd EVIDENCE_CONFLICT ('': '' @ verdict_text winner @ '' vs '' @ verdict_text other)
                | Inr conflict \<Rightarrow> placed ctx fd winner (the (vd_sport winner)) conflict)))"

definition has_metadata :: "market_context \<Rightarrow> bool" where
  "has_metadata ctx \<longleftrightarrow> mc_market ctx \<noteq> None \<or> mc_event ctx \<noteq> None \<or> mc_series ctx \<noteq> None \<or> mc_event_metadata ctx \<noteq> None"

definition classify_market :: "market_context \<Rightarrow> sport_taxonomy option \<Rightarrow> milestone_index option \<Rightarrow> classification" where
  "classify_market ctx taxonomy index =
     (if text_or_empty (mc_lookup_error ctx) \<noteq> []
      then unresolved ctx METADATA_LOOKUP_FAILED ('': '' @ text_or_empty (mc_lookup_error ctx)) []
      else case metadata_schema_error ctx of
          Some err \<Rightarrow> unresolved ctx MALFORMED_EVENT_METADATA ('': '' @ err) []
        | None \<Rightarrow>
            if \<not> has_metadata ctx then unresolved ctx NO_METADATA [] []
            else decide ctx (gather ctx taxonomy index))"

section \<open>A combo by its legs\<close>

definition COMBO_COMPLETABLE :: "unresolved_reason list" where
  "COMBO_COMPLETABLE = [COMPETITION_ABSENT, INSUFFICIENT]"

type_synonym 's resolver = "string \<Rightarrow> 's \<Rightarrow> market_context result \<times> 's"

definition refuse_combo :: "classification \<Rightarrow> unresolved_reason \<Rightarrow> string \<Rightarrow> classification" where
  "refuse_combo base reason detail =
     base\<lparr>cl_sport := UNRESOLVED, cl_reason := reason_value reason @ '': '' @ detail, cl_resolved_by := None,
          cl_unresolved_reason := Some reason\<rparr>"

text \<open>The loop over the legs: a refusal, or the set of sports they were placed in.\<close>

fun classify_legs ::
  "'s resolver \<Rightarrow> sport_taxonomy option \<Rightarrow> milestone_index option \<Rightarrow> string list \<Rightarrow> sport list \<Rightarrow> 's
    \<Rightarrow> (string + sport list) result \<times> 's" where
  "classify_legs resolve_leg taxonomy index [] leg_sports s = (Inr (Inr leg_sports), s)"
| "classify_legs resolve_leg taxonomy index (ticker # tickers) leg_sports s =
     (case resolve_leg ticker s of (answer, s) \<Rightarrow>
      case answer of
        Inl e \<Rightarrow> (Inl e, s)
      | Inr leg_context \<Rightarrow>
          if is_combo (mc_market leg_context) then (Inr (Inl ''a leg is itself a combo''), s)
          else
            let leg_sport = cl_sport (classify_market leg_context taxonomy index) in
            if leg_sport \<notin> set ROUTABLE_SPORTS then (Inr (Inl (''a leg classified '' @ sport_value leg_sport)), s)
            else classify_legs resolve_leg taxonomy index tickers (List.insert leg_sport leg_sports) s)"

definition legs_evidence :: "nat \<Rightarrow> sport \<Rightarrow> evidence" where
  "legs_evidence n s =
     (level_evidence ''combo.legs'' AUTHORITATIVE (show_nat n @ '' legs'') COMBO_LEGS)\<lparr>ev_sport := Some s\<rparr>"

definition complete_by_legs :: "classification \<Rightarrow> nat \<Rightarrow> sport list \<Rightarrow> classification" where
  "complete_by_legs base n leg_sports =
     (if length leg_sports \<noteq> 1
      then refuse_combo base COMBO_LEGS_SPAN_SPORTS (''legs classified '' @ comma_set (map sport_value leg_sports))
      else
        let s = hd leg_sports in
        if cl_sport base \<noteq> UNRESOLVED
        then (if cl_sport base = s then base
              else refuse_combo base EVIDENCE_CONFLICT
                     (''combo evidence='' @ sport_value (cl_sport base) @ '' vs legs='' @ sport_value s))
        else base\<lparr>cl_sport := s,
                  cl_reason := ''combo_legs: '' @ show_nat n @ '' legs, all '' @ sport_value s,
                  cl_evidence := cl_evidence base @ [legs_evidence n s],
                  cl_resolved_by := Some COMBO_LEGS, cl_unresolved_reason := None\<rparr>)"

definition classify_with_legs ::
  "'s resolver \<Rightarrow> market_context \<Rightarrow> sport_taxonomy option \<Rightarrow> milestone_index option \<Rightarrow> 's \<Rightarrow> classification result \<times> 's" where
  "classify_with_legs resolve_leg ctx taxonomy index s =
     (let base = classify_market ctx taxonomy index in
      if \<not> is_combo (mc_market ctx) then (Inr base, s)
      else if cl_sport base = UNRESOLVED \<and> cl_unresolved_reason base \<notin> Some ` set COMBO_COMPLETABLE then (Inr base, s)
      else
        let legs = combo_legs (mc_market ctx); tickers = map leg_market_ticker legs in
        if legs = [] \<or> None \<in> set tickers
        then (Inr (if cl_sport base \<noteq> UNRESOLVED then base
                   else refuse_combo base COMBO_LEGS_UNAVAILABLE ''the combo's legs are not all stated with a market ticker''), s)
        else
          (case classify_legs resolve_leg taxonomy index (map the tickers) [] s of
             (Inl e, s) \<Rightarrow> (Inl e, s)
           | (Inr (Inl detail), s) \<Rightarrow> (Inr (refuse_combo base COMBO_LEG_UNRESOLVED detail), s)
           | (Inr (Inr leg_sports), s) \<Rightarrow> (Inr (complete_by_legs base (length tickers) leg_sports), s)))"

section \<open>Decoding a combo\<close>

datatype combo_status = NOT_A_COMBO | DECODED_SINGLE_SPORT | DECODED_CROSS_CATEGORY | UNDECODED_COMBO

record decoded_leg =
  dl_market_ticker :: "string option"
  dl_required_side :: "string option"
  dl_sport :: sport
  dl_event_ticker :: "string option"
  dl_note :: "string option"

record combo_decoding =
  cd_status :: combo_status
  cd_legs :: "decoded_leg list"
  cd_sport :: "sport option"
  cd_sports :: "string list"
  cd_reason :: "string option"
  cd_flags :: "string list"

definition decoded :: "combo_decoding \<Rightarrow> bool" where
  "decoded d \<longleftrightarrow> cd_status d = DECODED_SINGLE_SPORT \<or> cd_status d = DECODED_CROSS_CATEGORY"

definition leg_side :: "jobj \<Rightarrow> string option" where
  "leg_side leg = (case jget leg ''side'' of
       JStr s \<Rightarrow> if py_lower (py_strip s) \<in> set [''yes'', ''no''] then Some (py_lower (py_strip s)) else None
     | _ \<Rightarrow> None)"

text \<open>\<open>type(exc).__name__\<close>.\<close>

fun error_name :: "py_error \<Rightarrow> string" where
  "error_name SchemaError = ''SchemaError''"
| "error_name ValueError = ''ValueError''"
| "error_name KeyError = ''KeyError''"
| "error_name ConfigurationError = ''ConfigurationError''"
| "error_name UnknownDestination = ''UnknownDestinationError''"
| "error_name UnreadableLedger = ''UnreadableLedger''"
| "error_name IdentityNotImportable = ''IdentityNotImportable''"
| "error_name OverflowError = ''OverflowError''"
| "error_name TypeError = ''TypeError''"
| "error_name AttributeError = ''AttributeError''"
| "error_name AssertionError = ''AssertionError''"
| "error_name IndexError = ''IndexError''"
| "error_name InvalidOperation = ''InvalidOperation''"
| "error_name TransportError = ''TransportError''"
| "error_name (HttpStatusError _) = ''HttpStatusError''"
| "error_name (RateLimitError _) = ''RateLimitError''"
| "error_name (AuthenticationError _) = ''AuthenticationError''"
| "error_name SensitiveOutputRefused = ''SensitiveOutputRefused''"

text \<open>The sport of one leg, or why it has none and under which flag.\<close>

definition leg_outcome :: "'s resolver \<Rightarrow> string option \<Rightarrow> 's \<Rightarrow> (string \<times> string + sport) \<times> 's" where
  "leg_outcome resolve_leg ticker s =
     (case ticker of
        None \<Rightarrow> (Inl (''leg_has_no_market_ticker'', ''LEG_WITHOUT_TICKER''), s)
      | Some t \<Rightarrow>
          (case resolve_leg t s of (answer, s) \<Rightarrow>
           case answer of
             Inl e \<Rightarrow> (Inl (''leg_lookup_failed:'' @ error_name e, ''LEG_LOOKUP_FAILED''), s)
           | Inr leg_context \<Rightarrow>
               if is_combo (mc_market leg_context) then (Inl (''leg_is_itself_a_combo'', ''NESTED_COMBO''), s)
               else
                 let cl = classify_market leg_context None None in
                 if cl_sport cl = UNRESOLVED
                 then (Inl (''leg_unresolved:'' @ (case cl_unresolved_reason cl of None \<Rightarrow> ''unknown'' | Some r \<Rightarrow> reason_value r),
                            ''LEG_UNRESOLVED''), s)
                 else (Inr (cl_sport cl), s)))"

definition decode_leg :: "'s resolver \<Rightarrow> jobj \<Rightarrow> 's \<Rightarrow> (decoded_leg \<times> string list) \<times> 's" where
  "decode_leg resolve_leg leg s =
     (let ticker = leg_market_ticker leg; side = leg_side leg;
          side_flags = (if side = None then [''MISSING_LEG_SIDE''] else []) in
      case leg_outcome resolve_leg ticker s of (outcome, s) \<Rightarrow>
        ((\<lparr>dl_market_ticker = ticker, dl_required_side = side,
           dl_sport = (case outcome of Inl _ \<Rightarrow> UNRESOLVED | Inr sp \<Rightarrow> sp),
           dl_event_ticker = jstr (jget leg ''event_ticker''),
           dl_note = (case outcome of Inl (note_text, _) \<Rightarrow> Some note_text | Inr _ \<Rightarrow> None)\<rparr>,
          side_flags @ (case outcome of Inl (_, flag) \<Rightarrow> [flag] | Inr _ \<Rightarrow> [])), s))"

fun decode_legs :: "'s resolver \<Rightarrow> jobj list \<Rightarrow> 's \<Rightarrow> (decoded_leg \<times> string list) list \<times> 's" where
  "decode_legs resolve_leg [] s = ([], s)"
| "decode_legs resolve_leg (leg # legs) s =
     (case decode_leg resolve_leg leg s of (row, s) \<Rightarrow>
      case decode_legs resolve_leg legs s of (rows, s) \<Rightarrow> (row # rows, s))"

definition decode_combo :: "'s resolver \<Rightarrow> market_context \<Rightarrow> 's \<Rightarrow> combo_decoding \<times> 's" where
  "decode_combo resolve_leg ctx s =
     (let none = \<lparr>cd_status = NOT_A_COMBO, cd_legs = [], cd_sport = None, cd_sports = [], cd_reason = None, cd_flags = []\<rparr> in
      if \<not> is_combo (mc_market ctx) then (none, s)
      else if combo_legs (mc_market ctx) = []
      then (none\<lparr>cd_status := UNDECODED_COMBO, cd_reason := Some ''legs_not_stated'', cd_flags := [''MISSING_COMBO_LEGS'']\<rparr>, s)
      else
        (case decode_legs resolve_leg (combo_legs (mc_market ctx)) s of (rows, s) \<Rightarrow>
         let legs = map fst rows; flags = sorted_set (concat (map snd rows));
             sports = sorted_set (map (\<lambda>leg. sport_value (dl_sport leg)) legs);
             d = none\<lparr>cd_legs := legs, cd_flags := flags\<rparr>
         in
         (if UNRESOLVED \<in> dl_sport ` set legs
          then d\<lparr>cd_status := UNDECODED_COMBO, cd_reason := Some ''a_leg_could_not_be_classified''\<rparr>
          else if length sports = 1
          then d\<lparr>cd_status := DECODED_SINGLE_SPORT, cd_sport := Some (dl_sport (hd legs)), cd_sports := sports\<rparr>
          else d\<lparr>cd_status := DECODED_CROSS_CATEGORY, cd_sports := sports,
                 cd_reason := Some ''legs_span_sports_report_separately''\<rparr>, s)))"

section \<open>How a sport is answered\<close>

lemma somes_simps [simp]: "somes [] = []" "somes (None # vs) = somes vs" "somes (Some v # vs) = v # somes vs"
  by (simp_all add: somes_def)

lemma no_unresolved_tables [simp]:
  "sport_from_competition name \<noteq> Some UNRESOLVED" "sport_from_taxonomy_sport name \<noteq> Some UNRESOLVED"
  by (auto simp: sport_from_competition_def sport_from_taxonomy_sport_def COMPETITION_TO_SPORT_def SPORT_TO_SPORT_def
      Let_def dest!: map_of_SomeD split: if_splits option.splits)

text \<open>Each level answers under its own name, with a sport or with a reason, and never with UNRESOLVED.\<close>

definition well_formed :: "evidence_level list \<Rightarrow> verdict option \<Rightarrow> bool" where
  "well_formed levels v = (case v of
       None \<Rightarrow> True
     | Some v \<Rightarrow> vd_level v \<in> set levels \<and> (vd_sport v = None \<longleftrightarrow> vd_reason v \<noteq> None) \<and> vd_sport v \<noteq> Some UNRESOLVED)"

lemma well_formed_simps [simp]:
  "well_formed ls None"
  "well_formed ls (Some (refuses l d r)) \<longleftrightarrow> l \<in> set ls"
  "well_formed ls (Some (decides l s d)) \<longleftrightarrow> l \<in> set ls \<and> s \<noteq> UNRESOLVED"
  by (simp_all add: well_formed_def)

lemma verdict_of_competition_wf:
  "well_formed [L1_EVENT_COMPETITION, L2_SPORT_TAXONOMY] (Some (fst (verdict_of_competition taxonomy competition)))"
proof -
  have "well_formed [L2_SPORT_TAXONOMY, L1_EVENT_COMPETITION] (Some (case sport_from_taxonomy_sport name of
      Some s \<Rightarrow> decides L2_SPORT_TAXONOMY s d | None \<Rightarrow> if b then refuses L2_SPORT_TAXONOMY e COMPETITION_UNKNOWN
        else refuses L2_SPORT_TAXONOMY e' COMPETITION_UNKNOWN))" for name b d e e'
    using no_unresolved_tables(2) [of name] by (cases "sport_from_taxonomy_sport name") (simp_all split: if_splits)
  then show ?thesis
    using no_unresolved_tables(1) [of competition]
    by (auto simp: verdict_of_competition_def well_formed_def split: option.splits if_splits)
qed

lemma competition_verdict_wf: "well_formed [L1_EVENT_COMPETITION, L2_SPORT_TAXONOMY] (fst (competition_verdict ctx taxonomy))"
  using verdict_of_competition_wf
  by (auto simp: competition_verdict_def Let_def split: option.splits prod.splits) (metis fst_conv)+

lemma milestone_verdict_wf: "well_formed [L3_MILESTONE] (fst (milestone_verdict index event_ticker))"
proof -
  have "well_formed [L3_MILESTONE] (map_option (\<lambda>s. decides L3_MILESTONE s d) (sport_from_competition c))" for c d
    using no_unresolved_tables(1) [of c] by (cases "sport_from_competition c") auto
  then show ?thesis by (simp add: milestone_verdict_def split: option.split)
qed

lemma named_leagues_routable: "s \<in> set (named_leagues found) \<Longrightarrow> s \<in> set ROUTABLE_SPORTS"
  by (auto simp: named_leagues_def split: option.splits if_splits simp del: routable_sport_iff)

lemma series_verdict_wf: "well_formed [L4_SERIES_METADATA] (series_verdict_of found)"
  using named_leagues_routable [of _ found]
  by (auto simp: series_verdict_of_def split: list.splits)

lemma registry_verdict_wf: "well_formed [L5_SERIES_REGISTRY] (fst (fst (registry_verdict t source)))"
  using registry_is_routable [of t] by (auto simp: registry_verdict_def split: option.splits)

definition findings_ok :: "findings \<Rightarrow> bool" where
  "findings_ok fd \<longleftrightarrow>
     well_formed [L1_EVENT_COMPETITION, L2_SPORT_TAXONOMY] (fd_competition fd)
     \<and> well_formed [L3_MILESTONE] (fd_milestone fd) \<and> well_formed [L4_SERIES_METADATA] (fd_series fd)
     \<and> well_formed [L5_SERIES_REGISTRY] (fd_registry fd) \<and> (fd_competition fd = None \<or> fd_milestone fd = None)"

lemma gather_ok: "findings_ok (gather ctx taxonomy index)"
proof -
  obtain series_ticker source where t: "derive_series_ticker ctx = (series_ticker, source)" by fastforce
  obtain cv ev1 where c: "competition_verdict ctx taxonomy = (cv, ev1)" by fastforce
  obtain mv ev2 where m: "(if cv = None then milestone_verdict index (context_event_ticker ctx) else (None, [])) = (mv, ev2)"
    by fastforce
  obtain rv unverified ev4 where r: "registry_verdict series_ticker source = ((rv, unverified), ev4)" by (metis prod.collapse)
  have "well_formed [L3_MILESTONE] mv" "cv = None \<or> mv = None"
    using m milestone_verdict_wf [of index "context_event_ticker ctx"] by (auto split: if_splits)
  moreover have "well_formed [L5_SERIES_REGISTRY] rv" using registry_verdict_wf [of series_ticker source] r by simp
  ultimately show ?thesis
    using competition_verdict_wf [of ctx taxonomy] c series_verdict_wf
    by (simp add: gather_def t c m r findings_ok_def series_metadata_verdict_def Let_def)
qed

text \<open>What the exchange's own evidence names.\<close>

definition exchange_sports :: "findings \<Rightarrow> sport list" where
  "exchange_sports fd = List.map_filter vd_sport (somes [fd_competition fd, fd_milestone fd, fd_series fd])"

definition registry_sport :: "findings \<Rightarrow> sport option" where
  "registry_sport fd = (case fd_registry fd of None \<Rightarrow> None | Some v \<Rightarrow> vd_sport v)"

text \<open>At most one of the competition and the milestone speaks.\<close>

definition lead :: "findings \<Rightarrow> verdict option" where
  "lead fd = (if fd_competition fd = None then fd_milestone fd else fd_competition fd)"

lemma lead_rewrites:
  assumes "findings_ok fd"
  shows "terminal_refusals fd = blocking (somes [lead fd])"
    and "verdicts_of fd = somes [lead fd, fd_series fd, fd_registry fd]"
    and "exchange_sports fd = List.map_filter vd_sport (somes [lead fd, fd_series fd])"
    and "well_formed COMPETITION_LEVELS (lead fd)"
  using assms
  by (auto simp: findings_ok_def lead_def terminal_refusals_def verdicts_of_def exchange_sports_def well_formed_def
      COMPETITION_LEVELS_def split: option.splits)

lemma well_formedE:
  assumes "well_formed ls v"
  obtains (silent) "v = None"
  | (refuses) w r where "v = Some w" "vd_level w \<in> set ls" "vd_sport w = None" "vd_reason w = Some r"
  | (decides) w s where "v = Some w" "vd_level w \<in> set ls" "vd_sport w = Some s" "vd_reason w = None" "s \<noteq> UNRESOLVED"
  using assms unfolding well_formed_def by (cases v; cases "vd_sport (the v)") auto

lemma level_index_simps [simp]:
  "l \<in> set COMPETITION_LEVELS \<Longrightarrow> level_index l \<le> 3" "l \<in> set COMPETITION_LEVELS \<Longrightarrow> level_index l \<le> 4"
  "level_index L4_SERIES_METADATA = 3" "level_index L5_SERIES_REGISTRY = 4"
  "L4_SERIES_METADATA \<notin> set COMPETITION_LEVELS" "L5_SERIES_REGISTRY \<notin> set COMPETITION_LEVELS"
  by (auto simp: level_index_def LEVEL_ORDER_def COMPETITION_LEVELS_def)

lemma decide_sorted:
  assumes "well_formed COMPETITION_LEVELS a" "well_formed [L4_SERIES_METADATA] b" "well_formed [L5_SERIES_REGISTRY] c"
  shows "sort_key (\<lambda>v. level_index (vd_level v)) (decisive (somes [a, b, c])) = decisive (somes [a, b, c])"
  by (rule well_formedE [OF assms(1)]; rule well_formedE [OF assms(2)]; rule well_formedE [OF assms(3)];
      simp add: decisive_def)

lemma placed_fields [simp]:
  "cl_sport (placed ctx fd w s b) = s" "cl_resolved_by (placed ctx fd w s b) = Some (vd_level w)"
  "cl_unresolved_reason (placed ctx fd w s b) = None"
  "cl_sport (refused_with ctx fd r d) = UNRESOLVED" "cl_sport (unresolved ctx r d ev) = UNRESOLVED"
  "cl_resolved_by (refused_with ctx fd r d) = None" "cl_resolved_by (unresolved ctx r d ev) = None"
  "cl_unresolved_reason (refused_with ctx fd r d) = Some r" "cl_unresolved_reason (unresolved ctx r d ev) = Some r"
  by (simp_all add: placed_def refused_with_def unresolved_def)

text \<open>What keeps a market from being looked at at all.\<close>

definition readable :: "market_context \<Rightarrow> bool" where
  "readable ctx \<longleftrightarrow> text_or_empty (mc_lookup_error ctx) = [] \<and> metadata_schema_error ctx = None \<and> has_metadata ctx"

lemma classify_unreadable: "\<not> readable ctx \<Longrightarrow> cl_sport (classify_market ctx taxonomy index) = UNRESOLVED"
  by (auto simp: readable_def classify_market_def split: option.splits)

lemma classify_readable: "readable ctx \<Longrightarrow> classify_market ctx taxonomy index = decide ctx (gather ctx taxonomy index)"
  by (simp add: readable_def classify_market_def)

text \<open>How the ladder answers. \<open>promised\<close> is the module's rule: the competition or the milestone names the sport
  and the series metadata names no other; or these are silent and the series metadata names it; or the exchange
  says nothing at all and the curated registry names it. \<open>rescued\<close> is what the code answers beside it: the series
  metadata refused, because it names two leagues or a family without a league, and the registry alone decides.\<close>

definition series_sport :: "findings \<Rightarrow> sport option" where
  "series_sport fd = (case fd_series fd of None \<Rightarrow> None | Some v \<Rightarrow> vd_sport v)"

definition promised :: "findings \<Rightarrow> sport \<Rightarrow> evidence_level \<Rightarrow> bool" where
  "promised fd s l \<longleftrightarrow>
     (case lead fd of
        Some v \<Rightarrow> vd_sport v = Some s \<and> l = vd_level v \<and> series_sport fd \<in> {None, Some s}
      | None \<Rightarrow>
          (case fd_series fd of
             Some v \<Rightarrow> vd_sport v = Some s \<and> l = L4_SERIES_METADATA
           | None \<Rightarrow> registry_sport fd = Some s \<and> l = L5_SERIES_REGISTRY))"

definition rescued :: "findings \<Rightarrow> sport \<Rightarrow> evidence_level \<Rightarrow> bool" where
  "rescued fd s l \<longleftrightarrow>
     lead fd = None \<and> (case fd_series fd of None \<Rightarrow> False | Some v \<Rightarrow> vd_reason v \<noteq> None)
     \<and> registry_sport fd = Some s \<and> l = L5_SERIES_REGISTRY"

lemma decide_ladder:
  assumes ok: "findings_ok fd" and s: "s \<noteq> UNRESOLVED"
  shows "(cl_sport (decide ctx fd) = s \<and> cl_resolved_by (decide ctx fd) = Some l \<and> cl_lower_conflict (decide ctx fd) = b) \<longleftrightarrow>
    (promised fd s l \<or> rescued fd s l) \<and> b = (registry_sport fd \<notin> {None, Some s})"
proof -
  note lead = lead_rewrites [OF ok]
  have wf: "well_formed [L4_SERIES_METADATA] (fd_series fd)" "well_formed [L5_SERIES_REGISTRY] (fd_registry fd)"
    using ok by (simp_all add: findings_ok_def)
  note sorted = decide_sorted [OF lead(4) wf]
  show ?thesis
    by (rule well_formedE [OF lead(4)]; rule well_formedE [OF wf(1)]; rule well_formedE [OF wf(2)];
        use s in \<open>auto simp: decide_def lead(1-3) sorted blocking_def decisive_def registry_sport_def
          series_sport_def promised_def rescued_def placed_def split: if_splits\<close>)
qed

text \<open>C2: which sport a market is answered, by which level, and with which warning. A sport is answered exactly when
  the market's documents were read and are well formed and the ladder names it: by the competition or the milestone,
  at their own level, when the series metadata names no other sport; by the series metadata when those two are
  silent; by the curated registry when the exchange says nothing. A refusal of the competition or of the milestone is
  final. A refusal of the series metadata is not: beside a competition it does not count, and without one the
  registry alone answers (\<open>rescued\<close>), although the module says such a market stays unresolved. The warning is raised
  exactly when the registry names another sport; that never changes the answer.\<close>
theorem classification_follows_the_ladder:
  "(cl_sport (classify_market ctx taxonomy index) = s \<and> s \<noteq> UNRESOLVED
      \<and> cl_resolved_by (classify_market ctx taxonomy index) = Some l
      \<and> cl_lower_conflict (classify_market ctx taxonomy index) = b) \<longleftrightarrow>
    s \<noteq> UNRESOLVED \<and> readable ctx
    \<and> (promised (gather ctx taxonomy index) s l \<or> rescued (gather ctx taxonomy index) s l)
    \<and> b = (registry_sport (gather ctx taxonomy index) \<notin> {None, Some s})"
  using decide_ladder [OF gather_ok, of s ctx ctx taxonomy index l b]
    classify_unreadable [of ctx taxonomy index] classify_readable [of ctx taxonomy index]
  by (cases "readable ctx") auto

text \<open>A market the module says stays unresolved: its series is tagged with a family and no league, and the registry
  knows its ticker.\<close>

definition football_market :: market_context where
  "football_market = \<lparr>mc_ticker = ''KXNFLGAME-1'', mc_market = Some [], mc_event = None,
     mc_series = Some [(''tags'', JList [JStr ''Football''])], mc_event_metadata = None, mc_lookup_error = None,
     mc_event_metadata_error = None\<rparr>"

lemma family_without_league_is_rescued:
  "rescued (gather football_market None None) NFL L5_SERIES_REGISTRY"
  "cl_sport (classify_market football_market None None) = NFL"
  by code_simp+

lemma decide_resolved_by:
  assumes ok: "findings_ok fd" and l: "cl_resolved_by (decide ctx fd) = Some l"
  shows "cl_sport (decide ctx fd) \<noteq> UNRESOLVED \<and> l \<noteq> COMBO_LEGS \<and> cl_unresolved_reason (decide ctx fd) = None"
proof -
  note lead = lead_rewrites [OF ok]
  have wf: "well_formed [L4_SERIES_METADATA] (fd_series fd)" "well_formed [L5_SERIES_REGISTRY] (fd_registry fd)"
    using ok by (simp_all add: findings_ok_def)
  note sorted = decide_sorted [OF lead(4) wf]
  have legs: "COMBO_LEGS \<notin> set COMPETITION_LEVELS" by (simp add: COMPETITION_LEVELS_def)
  show ?thesis
    by (rule well_formedE [OF lead(4)]; rule well_formedE [OF wf(1)]; rule well_formedE [OF wf(2)];
        use l legs in \<open>auto simp: decide_def lead(1-3) sorted blocking_def decisive_def split: if_splits sum.splits\<close>)
qed

lemma classify_resolved_by:
  "cl_resolved_by (classify_market ctx taxonomy index) = Some l \<Longrightarrow>
     cl_sport (classify_market ctx taxonomy index) \<noteq> UNRESOLVED \<and> l \<noteq> COMBO_LEGS
     \<and> cl_unresolved_reason (classify_market ctx taxonomy index) = None"
  using decide_resolved_by [OF gather_ok, of ctx ctx taxonomy index]
  by (cases "readable ctx") (auto simp: classify_readable, auto simp: readable_def classify_market_def split: option.splits if_splits)

section \<open>A combo is placed by its legs\<close>

text \<open>The contexts a resolver gives for the tickers, one after the other.\<close>

fun visited :: "'s resolver \<Rightarrow> string list \<Rightarrow> 's \<Rightarrow> market_context list \<Rightarrow> 's \<Rightarrow> bool" where
  "visited resolve_leg [] s [] s' \<longleftrightarrow> s = s'"
| "visited resolve_leg (t # ts) s (c # cs) s' \<longleftrightarrow>
     (case resolve_leg t s of (answer, s1) \<Rightarrow> answer = Inr c \<and> visited resolve_leg ts s1 cs s')"
| "visited resolve_leg _ s _ s' \<longleftrightarrow> False"

definition places :: "sport_taxonomy option \<Rightarrow> milestone_index option \<Rightarrow> market_context \<Rightarrow> sport \<Rightarrow> bool" where
  "places taxonomy index leg s \<longleftrightarrow>
     \<not> is_combo (mc_market leg) \<and> cl_sport (classify_market leg taxonomy index) = s \<and> s \<in> set ROUTABLE_SPORTS"

lemma classify_legs_spec:
  "classify_legs resolve_leg taxonomy index tickers acc s = (Inr (Inr leg_sports), s') \<longleftrightarrow>
     (\<exists>ctxs sps. visited resolve_leg tickers s ctxs s' \<and> list_all2 (places taxonomy index) ctxs sps
        \<and> leg_sports = fold List.insert sps acc)"
proof (induction tickers arbitrary: acc s)
  case Nil
  show ?case
    by (auto simp: elim: visited.elims intro!: exI [where x = "[]"])
next
  case (Cons t ts)
  obtain answer s1 where r: "resolve_leg t s = (answer, s1)" by fastforce
  have cons: "(\<exists>ctxs sps. visited resolve_leg (t # ts) s ctxs s' \<and> list_all2 (places taxonomy index) ctxs sps
        \<and> leg_sports = fold List.insert sps acc) \<longleftrightarrow>
     (\<exists>c sp ctxs sps. answer = Inr c \<and> places taxonomy index c sp \<and> visited resolve_leg ts s1 ctxs s'
        \<and> list_all2 (places taxonomy index) ctxs sps \<and> leg_sports = fold List.insert sps (List.insert sp acc))"
    (is "?L \<longleftrightarrow> ?R")
  proof
    assume ?L
    then obtain ctxs sps where l: "visited resolve_leg (t # ts) s ctxs s'" "list_all2 (places taxonomy index) ctxs sps"
      "leg_sports = fold List.insert sps acc" by blast
    from l(1) obtain c cs where "ctxs = c # cs" by (cases ctxs) auto
    moreover from this l(2) obtain sp sps1 where "sps = sp # sps1" by (cases sps) auto
    ultimately show ?R using l r by auto
  next
    assume ?R
    then obtain c sp ctxs sps where "answer = Inr c" "places taxonomy index c sp" "visited resolve_leg ts s1 ctxs s'"
        "list_all2 (places taxonomy index) ctxs sps" "leg_sports = fold List.insert sps (List.insert sp acc)"
      by blast
    then show ?L using r by (intro exI [where x = "c # ctxs"] exI [where x = "sp # sps"]) simp
  qed
  show ?case
  proof (cases answer)
    case (Inr c)
    let ?sp = "cl_sport (classify_market c taxonomy index)"
    have p: "places taxonomy index c sp \<longleftrightarrow> \<not> is_combo (mc_market c) \<and> ?sp \<in> set ROUTABLE_SPORTS \<and> sp = ?sp" for sp
      by (auto simp: places_def)
    show ?thesis
      unfolding cons using Cons.IH [of "List.insert ?sp acc" s1] r Inr by (simp add: p Let_def conj_assoc)
  next
    case (Inl e)
    show ?thesis unfolding cons using r Inl by simp
  qed
qed

lemma set_fold_insert: "set (fold List.insert xs acc) = set xs \<union> set acc"
  by (induction xs arbitrary: acc) auto

lemma distinct_fold_insert: "distinct acc \<Longrightarrow> distinct (fold List.insert xs acc)"
  by (induction xs arbitrary: acc) auto

lemma places_all:
  "list_all2 (places taxonomy index) ctxs sps \<and> set sps = {sp} \<longleftrightarrow>
     sps = replicate (length ctxs) sp \<and> ctxs \<noteq> [] \<and> (\<forall>leg \<in> set ctxs. places taxonomy index leg sp)"
proof
  assume l: "list_all2 (places taxonomy index) ctxs sps \<and> set sps = {sp}"
  then have "sps = replicate (length sps) sp" "length sps = length ctxs" "sps \<noteq> []"
    by (auto simp: list_all2_lengthD intro: replicate_eqI)
  with l show "sps = replicate (length ctxs) sp \<and> ctxs \<noteq> [] \<and> (\<forall>leg \<in> set ctxs. places taxonomy index leg sp)"
    by (auto simp: list_all2_conv_all_nth all_set_conv_all_nth)
qed (auto simp: list_all2_conv_all_nth)

text \<open>The legs of a combo, when every one of them states a ticker.\<close>

definition stated_legs :: "market_context \<Rightarrow> string list option" where
  "stated_legs ctx =
     (let tickers = map leg_market_ticker (combo_legs (mc_market ctx)) in
      if tickers = [] \<or> None \<in> set tickers then None else Some (map the tickers))"

definition completable :: "classification \<Rightarrow> bool" where
  "completable cl \<longleftrightarrow> cl_sport cl = UNRESOLVED \<and> cl_unresolved_reason cl \<in> Some ` set COMBO_COMPLETABLE"

lemma refuse_combo_sport [simp]: "cl_sport (refuse_combo base r d) = UNRESOLVED"
  by (simp add: refuse_combo_def)

lemma complete_by_legs_sport:
  assumes "sp \<noteq> UNRESOLVED" and "distinct leg_sports"
  shows "cl_sport (complete_by_legs base n leg_sports) = sp \<longleftrightarrow>
    set leg_sports = {sp} \<and> (cl_sport base = sp \<or> cl_sport base = UNRESOLVED)"
proof (cases "length leg_sports = 1")
  case True
  then obtain x where "leg_sports = [x]" by (auto simp: length_Suc_conv)
  then show ?thesis using assms by (auto simp: complete_by_legs_def Let_def)
next
  case False
  then have "set leg_sports \<noteq> {sp}" using assms(2) distinct_card [of leg_sports] by force
  then show ?thesis using False assms by (simp add: complete_by_legs_def)
qed

lemma classify_with_legs_sport:
  fixes taxonomy :: "sport_taxonomy option" and index :: "milestone_index option" and ctx :: market_context
  assumes combo: "is_combo (mc_market ctx)" and sp: "sp \<noteq> UNRESOLVED"
  defines "base \<equiv> classify_market ctx taxonomy index"
  shows "(\<exists>cl. classify_with_legs resolve_leg ctx taxonomy index s = (Inr cl, s') \<and> cl_sport cl = sp) \<longleftrightarrow>
    (case stated_legs ctx of
       None \<Rightarrow> cl_sport base = sp \<and> s' = s
     | Some tickers \<Rightarrow>
         (cl_sport base = sp \<or> completable base)
         \<and> (\<exists>legs. visited resolve_leg tickers s legs s' \<and> (\<forall>leg \<in> set legs. places taxonomy index leg sp)))"
proof (cases "cl_sport base = UNRESOLVED \<and> cl_unresolved_reason base \<notin> Some ` set COMBO_COMPLETABLE")
  case True
  then show ?thesis using combo sp
    by (auto simp: classify_with_legs_def base_def [symmetric] completable_def Let_def split: option.splits)
next
  case goes_on: False
  show ?thesis
  proof (cases "stated_legs ctx")
    case None
    then show ?thesis using combo sp goes_on
      by (auto simp: classify_with_legs_def base_def [symmetric] stated_legs_def Let_def split: if_splits)
  next
    case (Some tickers)
    then have t: "tickers = map (the \<circ> leg_market_ticker) (combo_legs (mc_market ctx))" "tickers \<noteq> []"
      and run: "classify_with_legs resolve_leg ctx taxonomy index s =
        (case classify_legs resolve_leg taxonomy index tickers [] s of
             (Inl e, s) \<Rightarrow> (Inl e, s)
           | (Inr (Inl detail), s) \<Rightarrow> (Inr (refuse_combo base COMBO_LEG_UNRESOLVED detail), s)
           | (Inr (Inr leg_sports), s) \<Rightarrow> (Inr (complete_by_legs base (length (map leg_market_ticker (combo_legs (mc_market ctx)))) leg_sports), s))"
      using combo goes_on by (auto simp: classify_with_legs_def base_def [symmetric] stated_legs_def Let_def split: if_splits)
    have "(\<exists>cl. classify_with_legs resolve_leg ctx taxonomy index s = (Inr cl, s') \<and> cl_sport cl = sp) \<longleftrightarrow>
      (\<exists>leg_sports. classify_legs resolve_leg taxonomy index tickers [] s = (Inr (Inr leg_sports), s')
         \<and> cl_sport (complete_by_legs base (length (map leg_market_ticker (combo_legs (mc_market ctx)))) leg_sports) = sp)"
      unfolding run using sp by (auto split: prod.splits sum.splits)
    also have "\<dots> \<longleftrightarrow> (\<exists>legs sps. visited resolve_leg tickers s legs s' \<and> list_all2 (places taxonomy index) legs sps
         \<and> set sps = {sp} \<and> (cl_sport base = sp \<or> cl_sport base = UNRESOLVED))"
    proof -
      have c: "cl_sport (complete_by_legs base n (fold List.insert sps [])) = sp \<longleftrightarrow>
          set sps = {sp} \<and> (cl_sport base = sp \<or> cl_sport base = UNRESOLVED)" for n sps
        using complete_by_legs_sport [OF sp distinct_fold_insert [of "[]" sps]] by (simp add: set_fold_insert)
      show ?thesis unfolding classify_legs_spec using c by (metis (no_types, lifting))
    qed
    also have "\<dots> \<longleftrightarrow> (cl_sport base = sp \<or> completable base)
         \<and> (\<exists>legs. visited resolve_leg tickers s legs s' \<and> (\<forall>leg \<in> set legs. places taxonomy index leg sp))"
    proof -
      have "legs \<noteq> []" if "visited resolve_leg tickers s legs s'" for legs using that t(2) by (cases tickers; cases legs) auto
      moreover have "cl_sport base = sp \<or> cl_sport base = UNRESOLVED \<longleftrightarrow> cl_sport base = sp \<or> completable base"
        using goes_on by (auto simp: completable_def)
      moreover have "(\<exists>sps. list_all2 (places taxonomy index) legs sps \<and> set sps = {sp})
          \<longleftrightarrow> legs \<noteq> [] \<and> (\<forall>leg \<in> set legs. places taxonomy index leg sp)" for legs
        by (simp add: places_all)
      ultimately show ?thesis by metis
    qed
    finally show ?thesis by (simp add: Some)
  qed
qed

text \<open>The entries of the exchange's list of legs as the document holds them, objects or not, and the ticker of one.\<close>

definition leg_entries :: "market_context \<Rightarrow> json list" where
  "leg_entries ctx = (case mc_market ctx of
       None \<Rightarrow> []
     | Some ob \<Rightarrow> (case jget ob ''mve_selected_legs'' of JList es \<Rightarrow> es | _ \<Rightarrow> []))"

definition is_object :: "json \<Rightarrow> bool" where
  "is_object e = (case e of JObj _ \<Rightarrow> True | _ \<Rightarrow> False)"

definition entry_ticker :: "json \<Rightarrow> string option" where
  "entry_ticker e = (case e of JObj leg \<Rightarrow> leg_market_ticker leg | _ \<Rightarrow> None)"

definition all_stated :: "json list \<Rightarrow> bool" where
  "all_stated es \<longleftrightarrow> es \<noteq> [] \<and> None \<notin> set (map entry_ticker es)"

text \<open>Answered by the legs with these tickers: the combo's own evidence says the sport or is silent in a way legs may
  complete, every one of them is read, and each on its own is a plain market placed in that routable sport.\<close>

definition placed_by_legs ::
  "'s resolver \<Rightarrow> sport_taxonomy option \<Rightarrow> milestone_index option \<Rightarrow> market_context \<Rightarrow> sport \<Rightarrow> 's \<Rightarrow> 's
    \<Rightarrow> json list \<Rightarrow> bool" where
  "placed_by_legs resolve_leg taxonomy index ctx sp s s' es \<longleftrightarrow>
     (cl_sport (classify_market ctx taxonomy index) = sp \<or> completable (classify_market ctx taxonomy index))
     \<and> (\<exists>legs. visited resolve_leg (map (the \<circ> entry_ticker) es) s legs s'
          \<and> (\<forall>leg \<in> set legs. places taxonomy index leg sp))"

lemma combo_legs_entries: "map JObj (combo_legs (mc_market ctx)) = filter is_object (leg_entries ctx)"
proof -
  have "map JObj (json_objects es) = filter is_object es" for es
    by (induction es) (auto simp: json_objects_def is_object_def split: json.split)
  then show ?thesis by (simp add: combo_legs_def leg_entries_def json_objects_def split: option.split json.split)
qed

lemma stated_legs_entries:
  "stated_legs ctx =
     (if all_stated (filter is_object (leg_entries ctx))
      then Some (map (the \<circ> entry_ticker) (filter is_object (leg_entries ctx))) else None)"
proof -
  have "map leg_market_ticker (combo_legs (mc_market ctx)) = map entry_ticker (filter is_object (leg_entries ctx))"
    unfolding combo_legs_entries [symmetric] by (simp add: entry_ticker_def)
  then show ?thesis
    unfolding stated_legs_def Let_def all_stated_def map_map [symmetric] by simp
qed

lemma all_stated_objects: "all_stated es \<Longrightarrow> filter is_object es = es"
  by (auto simp: all_stated_def filter_id_conv is_object_def entry_ticker_def image_iff split: json.splits)

text \<open>C6: which combos are placed, over the list of legs as the exchange states it. When every entry of the list
  states a ticker, the combo is answered a sport exactly when all of its legs place it there. Otherwise the code
  differs from its rule that such a combo stays unresolved, in two ways the theorem states: entries that are not
  objects are dropped and the remaining legs alone place the combo, if all of these state a ticker; and where an
  object states none, or no object is left, the combo's own evidence alone answers, whatever the other legs are.\<close>
theorem combo_placed_by_its_legs:
  assumes "is_combo (mc_market ctx)" and "sp \<noteq> UNRESOLVED"
  shows "(\<exists>cl. classify_with_legs resolve_leg ctx taxonomy index s = (Inr cl, s') \<and> cl_sport cl = sp) \<longleftrightarrow>
    (if all_stated (leg_entries ctx) then placed_by_legs resolve_leg taxonomy index ctx sp s s' (leg_entries ctx)
     else if all_stated (filter is_object (leg_entries ctx))
     then placed_by_legs resolve_leg taxonomy index ctx sp s s' (filter is_object (leg_entries ctx))
     else cl_sport (classify_market ctx taxonomy index) = sp \<and> s' = s)"
  unfolding classify_with_legs_sport [OF assms] stated_legs_entries placed_by_legs_def
  using all_stated_objects [of "leg_entries ctx"] by auto

text \<open>The combo of the witness: two legs of one league, and no evidence of its own.\<close>

definition sample_leg_context :: "string \<Rightarrow> market_context" where
  "sample_leg_context t = \<lparr>mc_ticker = t, mc_market = Some [], mc_event = None, mc_series = None,
     mc_event_metadata = Some [(''competition'', JStr ''NFL'')], mc_lookup_error = None, mc_event_metadata_error = None\<rparr>"

definition sample_combo :: market_context where
  "sample_combo = \<lparr>mc_ticker = ''KXMVE'',
     mc_market = Some [(''mve_selected_legs'', JList [JObj [(''market_ticker'', JStr ''KXA'')], JObj [(''market_ticker'', JStr ''KXB'')]])],
     mc_event = None, mc_series = None, mc_event_metadata = None, mc_lookup_error = None, mc_event_metadata_error = None\<rparr>"

lemma sample_leg_placed:
  "places None None (sample_leg_context ''KXA'') NFL" "places None None (sample_leg_context ''KXB'') NFL"
  by code_simp+

lemma sample_combo_completable: "completable (classify_market sample_combo None None)"
  by code_simp

theorem combo_placed_by_its_legs_witness:
  "\<exists>cl. classify_with_legs (\<lambda>t n. (Inr (sample_leg_context t), n + 1)) sample_combo None None (0::nat) = (Inr cl, 2) \<and> cl_sport cl = NFL"
proof -
  have combo: "is_combo (mc_market sample_combo)" "all_stated (leg_entries sample_combo)"
    and tickers: "map (the \<circ> entry_ticker) (leg_entries sample_combo) = [''KXA'', ''KXB'']" by code_simp+
  let ?legs = "[sample_leg_context ''KXA'', sample_leg_context ''KXB'']"
  have "\<exists>legs. visited (\<lambda>t n. (Inr (sample_leg_context t), n + 1)) [''KXA'', ''KXB''] 0 legs (2::nat)
      \<and> (\<forall>leg \<in> set legs. places None None leg NFL)"
    by (rule exI [where x = ?legs]) (simp add: sample_leg_placed)
  then show ?thesis
    using combo_placed_by_its_legs [OF combo(1), of NFL "\<lambda>t n. (Inr (sample_leg_context t), n + 1)" None None "0::nat" "2::nat"]
      combo(2) sample_combo_completable by (simp add: placed_by_legs_def tickers)
qed

section \<open>Decoding agrees with classification\<close>

lemma length_sorted_set: "length (sorted_set xs) = card (set xs)"
  by (metis distinct_card sorted_set_simps(1,2))

text \<open>The sport decoding gives the leg with this context.\<close>

definition leg_sport :: "market_context \<Rightarrow> sport" where
  "leg_sport leg = (if is_combo (mc_market leg) then UNRESOLVED else cl_sport (classify_market leg None None))"

lemma decode_leg_pure:
  assumes "\<And>t s. resolve_leg t s = (Inr (contexts t), s)" and "leg_market_ticker leg = Some t"
  shows "\<exists>d flags. decode_leg resolve_leg leg s = ((d, flags), s) \<and> dl_sport d = leg_sport (contexts t)"
  by (simp add: decode_leg_def leg_outcome_def assms leg_sport_def Let_def)

lemma decode_legs_pure:
  assumes pure: "\<And>t s. resolve_leg t s = (Inr (contexts t), s)" and "None \<notin> leg_market_ticker ` set legs"
  shows "\<exists>rows. decode_legs resolve_leg legs s = (rows, s)
    \<and> map (\<lambda>row. dl_sport (fst row)) rows = map (leg_sport \<circ> contexts \<circ> the \<circ> leg_market_ticker) legs"
  using assms(2)
proof (induction legs)
  case (Cons leg legs)
  then obtain t where t: "leg_market_ticker leg = Some t" by (cases "leg_market_ticker leg") auto
  obtain d flags where "decode_leg resolve_leg leg s = ((d, flags), s)" "dl_sport d = leg_sport (contexts t)"
    using decode_leg_pure [of resolve_leg contexts, OF pure t] by blast
  with Cons t show ?case by fastforce
qed simp

lemma visited_pure:
  assumes "\<And>t s. resolve_leg t s = (Inr (contexts t), s)"
  shows "visited resolve_leg tickers s legs s' \<longleftrightarrow> legs = map contexts tickers \<and> s' = s"
proof (induction tickers arbitrary: legs)
  case (Cons t ts)
  then show ?case by (cases legs) (auto simp: assms)
next
  case Nil
  show ?case by (cases legs) auto
qed

lemma places_leg_sport:
  "places None None leg sp \<longleftrightarrow> leg_sport leg = sp \<and> sp \<in> set ROUTABLE_SPORTS"
  by (auto simp: places_def leg_sport_def)

lemma set_singleton_iff: "xs \<noteq> [] \<Longrightarrow> set xs = {x} \<longleftrightarrow> (\<forall>y \<in> set xs. y = x)"
  by (cases xs) auto

lemma decode_sport:
  assumes pure: "\<And>t s. resolve_leg t s = (Inr (contexts t), s)" and combo: "is_combo (mc_market ctx)"
    and stated: "stated_legs ctx = Some tickers"
  shows "cd_status (fst (decode_combo resolve_leg ctx s)) = DECODED_SINGLE_SPORT
      \<and> cd_sport (fst (decode_combo resolve_leg ctx s)) = Some sp
    \<longleftrightarrow> sp \<noteq> UNRESOLVED \<and> (\<forall>t \<in> set tickers. leg_sport (contexts t) = sp)"
proof -
  let ?legs = "combo_legs (mc_market ctx)"
  have legs: "?legs \<noteq> []" "None \<notin> leg_market_ticker ` set ?legs" "tickers = map (the \<circ> leg_market_ticker) ?legs"
    using stated by (auto simp: stated_legs_def Let_def split: if_splits)
  obtain rows where rows: "decode_legs resolve_leg ?legs s = (rows, s)"
    "map (\<lambda>row. dl_sport (fst row)) rows = map (leg_sport \<circ> contexts \<circ> the \<circ> leg_market_ticker) ?legs"
    using decode_legs_pure [of resolve_leg contexts, OF pure legs(2)] by blast
  define lg where "lg = map fst rows"
  define got where "got = map (leg_sport \<circ> contexts) tickers"
  have lg: "map dl_sport lg = got" using rows(2) legs(3) by (simp add: lg_def got_def comp_def)
  then have ne: "lg \<noteq> []" "got \<noteq> []" using legs(1,3) by (auto simp: got_def)
  have u: "dl_sport ` set lg = set got" by (simp flip: lg)
  have h: "dl_sport (hd lg) = hd got" using ne(1) by (simp add: hd_map flip: lg)
  have n: "length (sorted_set (map (\<lambda>leg. sport_value (dl_sport leg)) lg)) = card (set got)"
    using card_image [OF inj_sport_value, of "set got"] by (simp add: length_sorted_set image_image flip: u)
  have "cd_status (fst (decode_combo resolve_leg ctx s)) = DECODED_SINGLE_SPORT
      \<and> cd_sport (fst (decode_combo resolve_leg ctx s)) = Some sp
    \<longleftrightarrow> UNRESOLVED \<notin> set got \<and> card (set got) = 1 \<and> hd got = sp"
    unfolding decode_combo_def Let_def rows(1) prod.case lg_def [symmetric] u n h
    using combo legs(1) by simp
  also have "\<dots> \<longleftrightarrow> sp \<noteq> UNRESOLVED \<and> set got = {sp}"
  proof
    assume l: "UNRESOLVED \<notin> set got \<and> card (set got) = 1 \<and> hd got = sp"
    then obtain x where x: "set got = {x}" by (metis card_1_singletonE)
    have "sp \<in> set got" using hd_in_set [OF ne(2)] l by simp
    then have "sp = x" by (simp only: x singleton_iff)
    moreover have "sp \<noteq> UNRESOLVED" using \<open>sp \<in> set got\<close> l by metis
    ultimately show "sp \<noteq> UNRESOLVED \<and> set got = {sp}" using x by simp
  next
    assume "sp \<noteq> UNRESOLVED \<and> set got = {sp}"
    with hd_in_set [OF ne(2)] show "UNRESOLVED \<notin> set got \<and> card (set got) = 1 \<and> hd got = sp"
      by (simp add: not_sym)
  qed
  also have "\<dots> \<longleftrightarrow> sp \<noteq> UNRESOLVED \<and> (\<forall>t \<in> set tickers. leg_sport (contexts t) = sp)"
    using set_singleton_iff [OF ne(2)] by (simp add: got_def)
  finally show ?thesis .
qed

text \<open>Over a resolver that always answers, decoding says a combo is of one routable sport exactly when classification
  without the indexes places it there, for a combo whose own evidence is silent.\<close>
theorem decoding_agrees_with_classification:
  assumes pure: "\<And>t s. resolve_leg t s = (Inr (contexts t), s)" and combo: "is_combo (mc_market ctx)"
    and stated: "stated_legs ctx = Some tickers" and silent: "completable (classify_market ctx None None)"
    and sp: "sp \<in> set ROUTABLE_SPORTS"
  shows "cd_status (fst (decode_combo resolve_leg ctx s)) = DECODED_SINGLE_SPORT
      \<and> cd_sport (fst (decode_combo resolve_leg ctx s)) = Some sp
    \<longleftrightarrow> (\<exists>cl. classify_with_legs resolve_leg ctx None None s = (Inr cl, s) \<and> cl_sport cl = sp)"
proof -
  have "sp \<noteq> UNRESOLVED" using sp by auto
  then show ?thesis
    using classify_with_legs_sport [OF combo, of sp resolve_leg None None s s] decode_sport [OF pure combo stated, where sp = sp]
      visited_pure [of resolve_leg contexts, OF pure] silent sp stated
    by (simp add: places_leg_sport)
qed

section \<open>The shape of the taxonomy's collisions\<close>

record collision_structure =
  cs_collisions :: nat
  cs_conflicting :: nat
  cs_one_claimant :: nat
  cs_no_claimant :: nat
  cs_unknown_claimant :: nat
  cs_direct_decides :: nat
  cs_direct_agrees :: nat
  cs_direct_contradicts :: nat

definition no_collisions :: collision_structure where
  "no_collisions = \<lparr>cs_collisions = 0, cs_conflicting = 0, cs_one_claimant = 0, cs_no_claimant = 0,
     cs_unknown_claimant = 0, cs_direct_decides = 0, cs_direct_agrees = 0, cs_direct_contradicts = 0\<rparr>"

text \<open>What the claimants could contain; \<open>None\<close> when one of them is unknown.\<close>

definition claimants_contain :: "string list \<Rightarrow> sport list option" where
  "claimants_contain claimants =
     (let narrowed = map possible_sports claimants in
      if None \<in> set narrowed then None else Some (remdups (concat (map the narrowed))))"

definition count_collision :: "string \<times> string list \<Rightarrow> collision_structure \<Rightarrow> collision_structure" where
  "count_collision item cs = (case item of (competition, claimants) \<Rightarrow>
     let cs = cs\<lparr>cs_collisions := cs_collisions cs + 1\<rparr>;
         cs = (case claimants_contain claimants of
                 None \<Rightarrow> cs\<lparr>cs_unknown_claimant := cs_unknown_claimant cs + 1\<rparr>
               | Some possible \<Rightarrow>
                   if 1 < length possible then cs\<lparr>cs_conflicting := cs_conflicting cs + 1\<rparr>
                   else if length possible = 1 then cs\<lparr>cs_one_claimant := cs_one_claimant cs + 1\<rparr>
                   else cs\<lparr>cs_no_claimant := cs_no_claimant cs + 1\<rparr>)
     in
     case sport_from_competition competition of
       None \<Rightarrow> cs
     | Some direct \<Rightarrow>
         if direct \<notin> set ROUTABLE_SPORTS then cs
         else
           let cs = cs\<lparr>cs_direct_decides := cs_direct_decides cs + 1\<rparr> in
           (case claimants_contain claimants of
              None \<Rightarrow> cs
            | Some possible \<Rightarrow>
                if direct \<in> set possible then cs\<lparr>cs_direct_agrees := cs_direct_agrees cs + 1\<rparr>
                else cs\<lparr>cs_direct_contradicts := cs_direct_contradicts cs + 1\<rparr>))"

definition measure_competition_collisions :: "sport_taxonomy option \<Rightarrow> collision_structure" where
  "measure_competition_collisions taxonomy =
     (case taxonomy of
        None \<Rightarrow> no_collisions
      | Some t \<Rightarrow> fold count_collision (sort_key fst (ambiguous_claimants t)) no_collisions)"

record collision_detail =
  cdt_competition :: string
  cdt_claimants :: "string list"
  cdt_narrows_to :: "string list"
  cdt_direct :: "string option"
  cdt_could_contain :: "bool option"

definition describe_collision :: "string \<times> string list \<Rightarrow> collision_detail" where
  "describe_collision item = (case item of (competition, claimants) \<Rightarrow>
     let names = sort claimants; direct = sport_from_competition competition;
         routable = (case direct of None \<Rightarrow> False | Some s \<Rightarrow> s \<in> set ROUTABLE_SPORTS)
     in
     \<lparr>cdt_competition = competition, cdt_claimants = names,
      cdt_narrows_to = map (\<lambda>name. case possible_sports name of
          None \<Rightarrow> ''unknown''
        | Some members \<Rightarrow> if members = [] then ''none of ours'' else join ''/'' (sort (map sport_value members))) names,
      cdt_direct = (if routable then map_option sport_value direct else None),
      cdt_could_contain =
        (if routable then map_option (\<lambda>possible. the direct \<in> set possible) (claimants_contain names) else None)\<rparr>)"

definition describe_competition_collisions :: "sport_taxonomy option \<Rightarrow> collision_detail list" where
  "describe_competition_collisions taxonomy =
     (case taxonomy of
        None \<Rightarrow> []
      | Some t \<Rightarrow> map describe_collision (sort_key fst (ambiguous_claimants t)))"

definition file_under :: "string \<times> string \<Rightarrow> (string, string list) dict \<Rightarrow> (string, string list) dict" where
  "file_under entry d = (case entry of (sport_name, name) \<Rightarrow>
     (case possible_sports sport_name of Some (_ # _) \<Rightarrow> gadd sport_name name d | _ \<Rightarrow> d))"

definition competitions_under_our_sports :: "sport_taxonomy option \<Rightarrow> (string, string list) dict" where
  "competitions_under_our_sports taxonomy =
     (case taxonomy of
        None \<Rightarrow> []
      | Some t \<Rightarrow>
          map (\<lambda>(sport_name, names). (sport_name, sort names))
            (sort_key fst
              (fold file_under
                 (map (\<lambda>(competition, sport_name). (sport_name, competition)) (competition_to_sport t)
                  @ concat (map (\<lambda>(competition, claimants). map (\<lambda>sport_name. (sport_name, competition @ '' (contested)'')) claimants)
                      (ambiguous_claimants t))) [])))"

text \<open>Every collision falls into one bucket, and where the direct rule speaks it agrees, contradicts or cannot be judged.\<close>

definition direct_decides :: "string \<Rightarrow> bool" where
  "direct_decides competition \<longleftrightarrow> (\<exists>s \<in> set ROUTABLE_SPORTS. sport_from_competition competition = Some s)"

definition collisions_ok :: "collision_structure \<Rightarrow> nat \<Rightarrow> nat \<Rightarrow> bool" where
  "collisions_ok cs n blind \<longleftrightarrow> cs_collisions cs = n
     \<and> cs_conflicting cs + cs_one_claimant cs + cs_no_claimant cs + cs_unknown_claimant cs = n
     \<and> cs_direct_agrees cs + cs_direct_contradicts cs + blind = cs_direct_decides cs"

lemma count_collision_ok:
  "collisions_ok cs n blind \<Longrightarrow>
     collisions_ok (count_collision (competition, claimants) cs) (Suc n)
       (blind + (if direct_decides competition \<and> claimants_contain claimants = None then 1 else 0))"
  by (auto simp: collisions_ok_def count_collision_def direct_decides_def Let_def simp del: routable_sport_iff
      split: option.splits)

lemma fold_count_collision_ok:
  "collisions_ok cs n blind \<Longrightarrow>
     collisions_ok (fold count_collision items cs) (n + length items)
       (blind + length (filter (\<lambda>(competition, claimants). direct_decides competition \<and> claimants_contain claimants = None) items))"
proof (induction items arbitrary: cs n blind)
  case (Cons item items)
  obtain competition claimants where "item = (competition, claimants)" by fastforce
  with Cons.IH [OF count_collision_ok [OF Cons.prems, of competition claimants]] show ?case by (auto split: if_splits)
qed simp

text \<open>Whatever the ambiguity gate stands aside for, the claimants could contain.\<close>

lemma affirmed_is_contained:
  assumes "taxonomy_affirms_the_direct_answer taxonomy competition (Some direct)"
    and "dget (ambiguous_claimants taxonomy) (normalize_text competition) = Some claimants"
  shows "\<exists>possible. claimants_contain claimants = Some possible \<and> direct \<in> set possible"
proof -
  have "count_affirming competition direct names n = Some m \<Longrightarrow>
      None \<notin> possible_sports ` set names \<and> (m \<noteq> n \<longrightarrow> (\<exists>name \<in> set names. \<exists>ms. possible_sports name = Some ms \<and> direct \<in> set ms))" for names n m
    by (induction names arbitrary: n) (auto split: option.splits if_splits)
  from this [of claimants 0 1] show ?thesis
    using assms by (force simp: taxonomy_affirms_the_direct_answer_def claimants_contain_def Let_def)
qed

end
