(* ===== verification/Destinations.thy ===== *)
theory Destinations
  imports Production PyText
begin

text \<open>
  \<^verbatim>\<open>destinations.py\<close>: the table of downstream ledgers, one profile per sport, and what is read
  from it: the importer commands, what a router commit may touch, what may be merged unread. The file
  shapes of a per-record ledger are regular expressions of fixed-width parts; a pattern here is the list of
  those parts and \<open>pattern_text\<close> is the expression as the profile writes it.

  The lemmas: the command templates render exactly when every value they need is supplied, and no
  placeholder survives; what may merge unread lies inside what a commit may touch.
\<close>

section \<open>Profiles\<close>

datatype pattern_part = Literal string | Digits nat | HexDigits nat

type_synonym path_pattern = "pattern_part list"

record destination_profile =
  pr_sport :: sport
  pr_repo :: string
  pr_ledger_branch :: string
  pr_code_branch :: "string option"
  pr_wager_importer :: "string list"
  pr_settlement_importer :: "string list option"
  pr_committable_prefixes :: "string list"
  pr_mergeable_paths :: "string list"
  pr_ledger_branch_runs_ci :: bool
  pr_ledger_validator :: "string list option"
  pr_row_identity_field :: string
  pr_requires_season :: bool
  pr_auto_merge :: bool
  pr_notes :: "string list"
  pr_record_layout :: string
  pr_settlement_economics :: string
  pr_mergeable_patterns :: "path_pattern list"
  pr_records_combo_wagers :: bool
  pr_evidence_importer :: "string list option"
  pr_evidence_ledger_path :: "string option"

definition mlb_profile :: destination_profile where
  "mlb_profile = \<lparr>
     pr_sport = MLB,
     pr_repo = ''chmoses98/edge-finder-api'',
     pr_ledger_branch = ''main'',
     pr_code_branch = Some ''main'',
     pr_wager_importer = [''python'', ''{code}/scripts/edgelab/import_bet_batch.py'',
       ''--file'', ''{payload}'', ''--receipts-out'', ''{receipts}''],
     pr_settlement_importer = None,
     pr_committable_prefixes = [''data/''],
     pr_mergeable_paths = [''data/edgelab/bets/bets.jsonl''],
     pr_ledger_branch_runs_ci = True,
     pr_ledger_validator = None,
     pr_row_identity_field = ''sourceBetKey'',
     pr_requires_season = False,
     pr_auto_merge = True,
     pr_notes = [''settles its own bets from the MLB Stats API; the router must not push settlements here''],
     pr_record_layout = ''jsonl'',
     pr_settlement_economics = ''router-settlement-economics.v1'',
     pr_mergeable_patterns = [],
     pr_records_combo_wagers = True,
     pr_evidence_importer = None,
     pr_evidence_ledger_path = None\<rparr>"

text \<open>\<open>range(2024, 2036)\<close>, the seasons of the CFB ledger's files.\<close>

definition season_files :: "string \<Rightarrow> string list" where
  "season_files directory = map (\<lambda>y. directory @ ''/'' @ show_nat y @ ''.jsonl'') [2024..<2036]"

definition cfb_profile :: destination_profile where
  "cfb_profile = \<lparr>
     pr_sport = CFB,
     pr_repo = ''chmoses98/cfb-edge-finder'',
     pr_ledger_branch = ''accounting-data'',
     pr_code_branch = Some ''main'',
     pr_wager_importer = [''python'', ''{code}/scripts/import_routed_wagers.py'', ''--payload'', ''{payload}'',
       ''--base-dir'', ''{work}'', ''--season'', ''{season}'', ''--receipts-out'', ''{receipts}''],
     pr_settlement_importer = Some [''python'', ''{code}/scripts/import_routed_settlements.py'', ''--payload'',
       ''{payload}'', ''--base-dir'', ''{work}'', ''--season'', ''{season}'', ''--receipts-out'', ''{receipts}''],
     pr_committable_prefixes = [''wagers/'', ''settlements/'', ''settlement_amendments/''],
     pr_mergeable_paths =
       season_files ''wagers'' @ season_files ''settlements'' @ season_files ''settlement_amendments'',
     pr_ledger_branch_runs_ci = False,
     pr_ledger_validator = Some [''python'', ''{code}/scripts/validate_accounting_ledger.py'',
       ''--base-dir'', ''{work}'', ''--result-out'', ''{receipts}''],
     pr_row_identity_field = ''source_bet_key'',
     pr_requires_season = True,
     pr_auto_merge = True,
     pr_notes = [''ledger on accounting-data, importer on main: two checkouts'',
       ''one file per season, and the season is named rather than inferred'',
       ''accounting-data is an orphan branch with no .github/, so a pull request into it gets no check runs; the destination's own validator supplies the verdict''],
     pr_record_layout = ''jsonl'',
     pr_settlement_economics = ''router-settlement-economics.v2'',
     pr_mergeable_patterns = [],
     pr_records_combo_wagers = True,
     pr_evidence_importer = None,
     pr_evidence_ledger_path = None\<rparr>"

text \<open>One JSON file per record: \<open>directory/20\d{2}/week_\d{2}/prefix-[0-9a-f]{24}\.json\<close>.\<close>

definition record_file :: "string \<Rightarrow> string \<Rightarrow> path_pattern" where
  "record_file directory prefix =
     [Literal (directory @ ''/20''), Digits 2, Literal ''/week_'', Digits 2, Literal (''/'' @ prefix @ ''-''),
      HexDigits 24, Literal ''.json'']"

definition nfl_profile :: destination_profile where
  "nfl_profile = \<lparr>
     pr_sport = NFL,
     pr_repo = ''chmoses98/nfl-edge-finder'',
     pr_ledger_branch = ''handicap-data'',
     pr_code_branch = Some ''main'',
     pr_wager_importer = [''python'', ''{code}/scripts/handicap/import_routed_wagers.py'', ''--payload'', ''{payload}'',
       ''--handicap-root'', ''{work}'', ''--allow-schedule-download'', ''--receipts-out'', ''{receipts}''],
     pr_settlement_importer = Some [''python'', ''{code}/scripts/handicap/import_routed_settlements.py'', ''--payload'',
       ''{payload}'', ''--handicap-root'', ''{work}'', ''--receipts-out'', ''{receipts}''],
     pr_committable_prefixes =
       [''data/imported_wagers/'', ''data/wager_settlements/'', ''data/wager_settlement_amendments/''],
     pr_mergeable_paths = [],
     pr_ledger_branch_runs_ci = False,
     pr_ledger_validator = Some [''python'', ''{code}/scripts/handicap/validate_routed_ledger.py'',
       ''--handicap-root'', ''{work}'', ''--result-out'', ''{receipts}''],
     pr_row_identity_field = ''source_bet_key'',
     pr_requires_season = False,
     pr_auto_merge = True,
     pr_notes = [''ledger on handicap-data, importer on main: two checkouts'',
       ''one JSON file per record; the week is resolved by the destination from the real schedule'',
       ''handicap-data has no .github/, so the destination's own validator supplies the verdict''],
     pr_record_layout = ''json_per_file'',
     pr_settlement_economics = ''router-settlement-economics.v2'',
     pr_mergeable_patterns = [record_file ''data/imported_wagers'' ''routed'',
       record_file ''data/wager_settlements'' ''stl'', record_file ''data/wager_settlement_amendments'' ''amd''],
     pr_records_combo_wagers = True,
     pr_evidence_importer = None,
     pr_evidence_ledger_path = None\<rparr>"

text \<open>NHL and the destinations of the shared routed ledger have one shape; only the notes, the repository
  and the automatic merge differ.\<close>

definition accounting_data_profile :: "sport \<Rightarrow> string \<Rightarrow> string list \<Rightarrow> bool \<Rightarrow> destination_profile" where
  "accounting_data_profile sp repo notes auto_merge = \<lparr>
     pr_sport = sp,
     pr_repo = repo,
     pr_ledger_branch = ''accounting-data'',
     pr_code_branch = Some ''main'',
     pr_wager_importer = [''python'', ''{code}/scripts/accounting/import_routed_wagers.py'',
       ''--payload'', ''{payload}'', ''--base-dir'', ''{work}'', ''--receipts-out'', ''{receipts}''],
     pr_settlement_importer = Some [''python'', ''{code}/scripts/accounting/import_routed_settlements.py'',
       ''--payload'', ''{payload}'', ''--base-dir'', ''{work}'', ''--receipts-out'', ''{receipts}''],
     pr_committable_prefixes = [''data/accounting/''],
     pr_mergeable_paths = [''data/accounting/wagers.jsonl'', ''data/accounting/settlements.jsonl''],
     pr_ledger_branch_runs_ci = False,
     pr_ledger_validator = Some [''python'', ''{code}/scripts/accounting/validate_routed_ledger.py'',
       ''--base-dir'', ''{work}'', ''--result-out'', ''{receipts}''],
     pr_row_identity_field = ''source_bet_key'',
     pr_requires_season = False,
     pr_auto_merge = auto_merge,
     pr_notes = notes,
     pr_record_layout = ''jsonl'',
     pr_settlement_economics = ''router-settlement-economics.v2'',
     pr_mergeable_patterns = [],
     pr_records_combo_wagers = True,
     pr_evidence_importer = None,
     pr_evidence_ledger_path = None\<rparr>"

definition nhl_profile :: destination_profile where
  "nhl_profile = accounting_data_profile NHL ''chmoses98/NHL-edge-finder''
     [''ACCOUNTING ONLY: manually placed Kalshi NHL wagers; no NHL model is involved and none has authority'',
      ''ledger on accounting-data (orphan: README + data/accounting/ only), importer and validator on main'',
      ''not season-partitioned: data/accounting/wagers.jsonl and data/accounting/settlements.jsonl'',
      ''accounting-data has no .github/, so the destination's own validator supplies the verdict''] True"

definition shared_ledger_profile :: "sport \<Rightarrow> string \<Rightarrow> string list \<Rightarrow> bool \<Rightarrow> destination_profile" where
  "shared_ledger_profile sp repo notes auto_merge = accounting_data_profile sp repo
     ([''ACCOUNTING ONLY: manually placed Kalshi wagers; no model is involved and none has authority'',
       ''ledger on accounting-data (orphan: README + data/accounting/ only), importer and validator on main'',
       ''imports through the shared edge_finder_contract.routed_ledger (vendored from kalshi-bet-router/contract)'',
       ''accounting-data has no .github/, so the destination's own validator supplies the verdict''] @ notes) auto_merge"

definition PROFILES :: "(sport, destination_profile) dict" where
  "PROFILES = [(MLB, mlb_profile), (CFB, cfb_profile), (NFL, nfl_profile), (NHL, nhl_profile),
     (NBA, shared_ledger_profile NBA ''chmoses98/nba-edge-finder''
        [''identity minted by the destination: nbaw-/nbas- + sha256(source_bet_key)[:24]''] False),
     (SOCCER, shared_ledger_profile SOCCER ''chmoses98/soccer-edge-finder''
        [''identity minted by the destination: socw-/socs- + sha256(source_bet_key)[:24]'',
         ''soccer_edge.router (PositionV1) remains the repository's own translation layer; delivery uses the shared ledger''] True),
     (TENNIS, shared_ledger_profile TENNIS ''chmoses98/Tennis-Edge-Finder''
        [''identity minted by the destination: tenw-/tens- + sha256(source_bet_key)[:24]'',
         ''tennis settlements can be SCALAR on the exchange (walkovers); a scalar result arrives with result absent and the money fields as the exchange states them''] False)]"

section \<open>Reading the table\<close>

definition profile_for :: "string \<Rightarrow> destination_profile result" where
  "profile_for sport_name =
     (case find (\<lambda>(sp, _). sport_value sp = sport_name) PROFILES of
        None \<Rightarrow> Inl UnknownDestination | Some (_, profile) \<Rightarrow> Inr profile)"

definition has_profile :: "string \<Rightarrow> bool" where
  "has_profile sport_name = list_ex (\<lambda>sp. sport_value sp = sport_name) (dkeys PROFILES)"

definition routable_sport_names :: "string list" where
  "routable_sport_names = map sport_value (dkeys PROFILES)"

definition combo_destination_names :: "string list" where
  "combo_destination_names = map (\<lambda>(sp, _). sport_value sp) (filter (\<lambda>(_, p). pr_records_combo_wagers p) PROFILES)"

definition DESTINATION_REPOS :: "(sport, string) dict" where
  "DESTINATION_REPOS = map (\<lambda>(sp, p). (sp, pr_repo p)) PROFILES"

definition ROUTER_IMPORT_BATCH_ID :: string where
  "ROUTER_IMPORT_BATCH_ID = ''kalshi-router-v1''"

definition destination_repo_for :: "string \<Rightarrow> string option" where
  "destination_repo_for sport_name =
     map_option snd (find (\<lambda>(sp, _). sport_value sp = sport_name) DESTINATION_REPOS)"

section \<open>Command templates\<close>

lemma dropWhile_rest_shorter: "dropWhile P cs = d # rest \<Longrightarrow> length rest < Suc (length cs)"
  using length_dropWhile_le [of P cs] by simp

text \<open>\<open>str.format\<close> with named fields: doubled braces are literal, a field is a plain name (the templates use
  no attribute, index, conversion or format specification).\<close>

function format_fields :: "(string, string) dict \<Rightarrow> string \<Rightarrow> string result" where
  "format_fields vs [] = Inr []"
| "format_fields vs (c # cs) =
     (if c = CHR ''{'' then
        (if take 1 cs = ''{'' then rbind (format_fields vs (drop 1 cs)) (\<lambda>s. Inr (CHR ''{'' # s))
         else case dropWhile (\<lambda>d. d \<noteq> CHR ''}'') cs of
             [] \<Rightarrow> Inl ValueError
           | _ # rest \<Rightarrow>
               (let name = takeWhile (\<lambda>d. d \<noteq> CHR ''}'') cs in
                if name = [] then Inl IndexError
                else case dget vs name of
                    None \<Rightarrow> Inl KeyError
                  | Some v \<Rightarrow> rbind (format_fields vs rest) (\<lambda>s. Inr (v @ s))))
      else if c = CHR ''}'' then
        (if take 1 cs = ''}'' then rbind (format_fields vs (drop 1 cs)) (\<lambda>s. Inr (CHR ''}'' # s))
         else Inl ValueError)
      else rbind (format_fields vs cs) (\<lambda>s. Inr (c # s)))"
  by pat_completeness auto

termination
  by (relation "measure (\<lambda>(_, s). length s)") (auto dest: dropWhile_rest_shorter)

definition template_values :: "string \<Rightarrow> string \<Rightarrow> string \<Rightarrow> string \<Rightarrow> string option \<Rightarrow> (string, string) dict" where
  "template_values payload work code receipts season =
     [(''payload'', payload), (''work'', work), (''code'', code), (''receipts'', receipts),
      (''season'', case season of None \<Rightarrow> [] | Some s \<Rightarrow> s)]"

definition render_part :: "(string, string) dict \<Rightarrow> string \<Rightarrow> string result" where
  "render_part vs part =
     (case format_fields vs part of
        Inl KeyError \<Rightarrow> Inl UnknownDestination
      | Inl e \<Rightarrow> Inl e
      | Inr rendered \<Rightarrow> if rendered = [] \<and> part \<noteq> [] then Inl UnknownDestination else Inr rendered)"

definition render_command ::
  "string list \<Rightarrow> string \<Rightarrow> string \<Rightarrow> string \<Rightarrow> string \<Rightarrow> string option \<Rightarrow> string list result" where
  "render_command template payload work code receipts season =
     traverse (render_part (template_values payload work code receipts season)) template"

section \<open>Path shapes\<close>

definition is_hex :: "char \<Rightarrow> bool" where
  "is_hex c \<longleftrightarrow> is_digit c \<or> c \<in> set ''abcdef''"

text \<open>\<open>re.fullmatch\<close>: every part has one width, so there is nothing to backtrack over.\<close>

fun fullmatch :: "path_pattern \<Rightarrow> string \<Rightarrow> bool" where
  "fullmatch [] s \<longleftrightarrow> s = []"
| "fullmatch (Literal t # ps) s \<longleftrightarrow> starts_with s t \<and> fullmatch ps (drop (length t) s)"
| "fullmatch (Digits n # ps) s \<longleftrightarrow> n \<le> length s \<and> list_all is_digit (take n s) \<and> fullmatch ps (drop n s)"
| "fullmatch (HexDigits n # ps) s \<longleftrightarrow> n \<le> length s \<and> list_all is_hex (take n s) \<and> fullmatch ps (drop n s)"

fun part_text :: "pattern_part \<Rightarrow> string" where
  "part_text (Literal t) = concat (map (\<lambda>c. if c = CHR ''.'' then [CHR 0x5C, c] else [c]) t)"
| "part_text (Digits n) = [CHR 0x5C] @ ''d{'' @ show_nat n @ ''}''"
| "part_text (HexDigits n) = ''[0-9a-f]{'' @ show_nat n @ ''}''"

definition pattern_text :: "path_pattern \<Rightarrow> string" where
  "pattern_text ps = concat (map part_text ps)"

section \<open>The profile as JSON\<close>

definition jstrings :: "string list \<Rightarrow> json" where
  "jstrings ss = JList (map JStr ss)"

definition jcommand :: "string list option \<Rightarrow> json" where
  "jcommand c = (case c of None \<Rightarrow> JNull | Some ss \<Rightarrow> if ss = [] then JNull else jstrings ss)"

definition describe :: "string \<Rightarrow> jobj result" where
  "describe sport_name = rbind (profile_for sport_name) (\<lambda>p. Inr
     [(''sport'', JStr (sport_value (pr_sport p))),
      (''repo'', JStr (pr_repo p)),
      (''ledger_branch'', JStr (pr_ledger_branch p)),
      (''code_branch'', JStr (case pr_code_branch p of None \<Rightarrow> pr_ledger_branch p
         | Some b \<Rightarrow> if b = [] then pr_ledger_branch p else b)),
      (''needs_separate_code_checkout'', JBool (pr_code_branch p \<noteq> None)),
      (''wager_importer'', jstrings (pr_wager_importer p)),
      (''settlement_importer'', jcommand (pr_settlement_importer p)),
      (''settles_its_own'', JBool (pr_settlement_importer p = None)),
      (''ledger_branch_runs_ci'', JBool (pr_ledger_branch_runs_ci p)),
      (''ledger_validator'', jcommand (pr_ledger_validator p)),
      (''has_ledger_validator'', JBool (pr_ledger_validator p \<noteq> None)),
      (''committable_prefixes'', jstrings (pr_committable_prefixes p)),
      (''mergeable_paths'', jstrings (sorted_set (pr_mergeable_paths p))),
      (''row_identity_field'', JStr (pr_row_identity_field p)),
      (''requires_season'', JBool (pr_requires_season p)),
      (''record_layout'', JStr (pr_record_layout p)),
      (''settlement_economics'', JStr (pr_settlement_economics p)),
      (''mergeable_patterns'', jstrings (map pattern_text (pr_mergeable_patterns p))),
      (''records_combo_wagers'', JBool (pr_records_combo_wagers p)),
      (''notes'', jstrings (pr_notes p))])"

section \<open>The table is consistent\<close>

text \<open>Four shapes.\<close>

lemma profile_shapes:
  assumes "(sp, p) \<in> set PROFILES"
  obtains (mlb) "sp = MLB" "p = mlb_profile" | (cfb) "sp = CFB" "p = cfb_profile" | (nfl) "sp = NFL" "p = nfl_profile"
  | (accounting) repo remarks m where "p = accounting_data_profile sp repo remarks m"
  using assms unfolding PROFILES_def shared_ledger_profile_def nhl_profile_def by auto

lemma find_in_list: "find P xs = Some x \<Longrightarrow> x \<in> set xs \<and> P x"
  by (induction xs) (auto split: if_splits)

lemma profiles_keyed: "(sp, p) \<in> set PROFILES \<Longrightarrow> pr_sport p = sp"
  by (elim profile_shapes) (simp_all add: mlb_profile_def cfb_profile_def nfl_profile_def accounting_data_profile_def)

lemma profile_for_cases:
  "profile_for name = Inr p \<Longrightarrow> \<exists>sp. (sp, p) \<in> set PROFILES \<and> sport_value sp = name"
  by (auto simp: profile_for_def split: option.splits dest!: find_in_list)

lemma profile_for_error: "profile_for name = Inl e \<Longrightarrow> e = UnknownDestination"
  by (auto simp: profile_for_def split: option.splits)

lemma season_files_prefix: "path \<in> set (season_files d) \<Longrightarrow> starts_with path (d @ ''/'')"
proof -
  assume "path \<in> set (season_files d)"
  then obtain r where "path = d @ ''/'' @ r" unfolding season_files_def set_map by blast
  then have "path = (d @ ''/'') @ r" by simp
  then show ?thesis by (simp only: starts_with_append)
qed

text \<open>What may be merged unread lies where a router commit may write.\<close>

lemma mergeable_paths_committable:
  assumes "(sp, p) \<in> set PROFILES" "path \<in> set (pr_mergeable_paths p)"
  shows "\<exists>prefix \<in> set (pr_committable_prefixes p). starts_with path prefix"
  using assms
proof (cases rule: profile_shapes)
  case cfb
  then consider "path \<in> set (season_files ''wagers'')" | "path \<in> set (season_files ''settlements'')"
    | "path \<in> set (season_files ''settlement_amendments'')" using assms(2) by (auto simp: cfb_profile_def)
  then show ?thesis using cfb by cases (auto dest!: season_files_prefix simp: cfb_profile_def)
qed (use assms(2) in \<open>auto simp: mlb_profile_def nfl_profile_def accounting_data_profile_def starts_with_def\<close>)

lemma mergeable_patterns_committable:
  assumes "(sp, p) \<in> set PROFILES" "pat \<in> set (pr_mergeable_patterns p)"
  shows "\<exists>t rest. pat = Literal t # rest \<and> (\<exists>prefix \<in> set (pr_committable_prefixes p). starts_with t prefix)"
  using assms
  by (cases rule: profile_shapes)
     (auto simp: mlb_profile_def cfb_profile_def nfl_profile_def accounting_data_profile_def record_file_def starts_with_def)

lemma validator_where_no_ci:
  "(sp, p) \<in> set PROFILES \<Longrightarrow> pr_ledger_branch_runs_ci p \<longleftrightarrow> pr_ledger_validator p = None"
  by (elim profile_shapes) (simp_all add: mlb_profile_def cfb_profile_def nfl_profile_def accounting_data_profile_def)

lemma committable_prefixes_nonempty:
  "(sp, p) \<in> set PROFILES \<Longrightarrow> pr_committable_prefixes p \<noteq> [] \<and> [] \<notin> set (pr_committable_prefixes p)"
  by (elim profile_shapes) (simp_all add: mlb_profile_def cfb_profile_def nfl_profile_def accounting_data_profile_def)

section \<open>The commands render\<close>

declare format_fields.simps(2) [simp del]

lemma format_plain: "CHR ''{'' \<notin> set s \<Longrightarrow> CHR ''}'' \<notin> set s \<Longrightarrow> format_fields vs s = Inr s"
  by (induction s) (auto simp: format_fields.simps(2))

lemma dropWhile_to_brace: "CHR ''}'' \<notin> set name \<Longrightarrow> dropWhile (\<lambda>d. d \<noteq> CHR ''}'') (name @ CHR ''}'' # s) = CHR ''}'' # s"
  "CHR ''}'' \<notin> set name \<Longrightarrow> takeWhile (\<lambda>d. d \<noteq> CHR ''}'') (name @ CHR ''}'' # s) = name"
  by (induction name) auto

lemma format_field:
  assumes "name \<noteq> []" "CHR ''{'' \<notin> set name" "CHR ''}'' \<notin> set name" "dget vs name = Some v"
  shows "format_fields vs (CHR ''{'' # name @ CHR ''}'' # s) = rbind (format_fields vs s) (\<lambda>r. Inr (v @ r))"
proof -
  have "take 1 (name @ CHR ''}'' # s) \<noteq> ''{''" using assms by (cases name) auto
  then show ?thesis using assms by (simp add: format_fields.simps(2) dropWhile_to_brace Let_def)
qed

text \<open>The five fields, alone or in front of a path.\<close>

lemma render_fields [simp]:
  assumes "vs = template_values payload work code receipts season"
  shows "format_fields vs ''{payload}'' = Inr payload" "format_fields vs ''{work}'' = Inr work"
    "format_fields vs ''{receipts}'' = Inr receipts"
    "format_fields vs ''{season}'' = Inr (case season of None \<Rightarrow> [] | Some s \<Rightarrow> s)"
  using format_field [of "''payload''" vs payload "[]"] format_field [of "''work''" vs work "[]"]
    format_field [of "''receipts''" vs receipts "[]"]
    format_field [of "''season''" vs "case season of None \<Rightarrow> [] | Some s \<Rightarrow> s" "[]"]
  by (simp_all add: assms template_values_def)

lemma render_code [simp]:
  "CHR ''{'' \<notin> set s \<Longrightarrow> CHR ''}'' \<notin> set s \<Longrightarrow> vs = template_values payload work code receipts season \<Longrightarrow>
    format_fields vs (''{code}'' @ s) = Inr (code @ s)"
  using format_field [of "''code''" vs code s] by (simp add: template_values_def format_plain)

definition safe_part :: "bool \<Rightarrow> string \<Rightarrow> bool" where
  "safe_part season part \<longleftrightarrow> part \<in> {''{payload}'', ''{work}'', ''{receipts}''} \<or> season \<and> part = ''{season}''
     \<or> (take 6 part = ''{code}'' \<and> CHR ''{'' \<notin> set (drop 6 part) \<and> CHR ''}'' \<notin> set (drop 6 part))
     \<or> part \<noteq> [] \<and> CHR ''{'' \<notin> set part \<and> CHR ''}'' \<notin> set part"

definition commands_of :: "destination_profile \<Rightarrow> string list list" where
  "commands_of p = [pr_wager_importer p] @ (case pr_settlement_importer p of None \<Rightarrow> [] | Some c \<Rightarrow> [c])"

lemma code_part: "CHR ''{'' \<notin> set s \<Longrightarrow> CHR ''}'' \<notin> set s \<Longrightarrow> safe_part b (''{code}'' @ s)"
  by (simp add: safe_part_def)

text \<open>Whether a command is made of such parts, and names the season if it must.\<close>

definition safe_command :: "bool \<Rightarrow> string list \<Rightarrow> bool" where
  "safe_command season c \<longleftrightarrow> list_all (safe_part season) c \<and> (season \<longrightarrow> ''{season}'' \<in> set c)"

lemma safe_commands:
  "list_all (safe_command (pr_requires_season mlb_profile)) (commands_of mlb_profile)"
  "list_all (safe_command (pr_requires_season cfb_profile)) (commands_of cfb_profile)"
  "list_all (safe_command (pr_requires_season nfl_profile)) (commands_of nfl_profile)"
  by (simp_all add: mlb_profile_def cfb_profile_def nfl_profile_def commands_of_def safe_command_def safe_part_def)

lemma safe_accounting_commands:
  "list_all (safe_command (pr_requires_season (accounting_data_profile sp repo remarks m)))
     (commands_of (accounting_data_profile sp repo remarks m))"
  by (simp add: accounting_data_profile_def commands_of_def safe_command_def safe_part_def)

lemma command_parts:
  assumes "(sp, p) \<in> set PROFILES" "c \<in> set (commands_of p)"
  shows "(\<forall>part \<in> set c. safe_part (pr_requires_season p) part) \<and> (pr_requires_season p \<longrightarrow> ''{season}'' \<in> set c)"
proof -
  from assms(1) have "list_all (safe_command (pr_requires_season p)) (commands_of p)"
    by (cases rule: profile_shapes) (simp_all only: safe_commands safe_accounting_commands)
  with assms(2) have "safe_command (pr_requires_season p) c" unfolding list_all_iff by blast
  then show ?thesis unfolding safe_command_def list_all_iff .
qed

lemma render_part_ok:
  assumes "safe_part with_season part" "payload \<noteq> []" "work \<noteq> []" "code \<noteq> []" "receipts \<noteq> []"
  shows "(\<exists>r. render_part (template_values payload work code receipts season) part = Inr r \<and> r \<noteq> [])
    \<or> part = ''{season}'' \<and> with_season \<and> (season = None \<or> season = Some [])
       \<and> render_part (template_values payload work code receipts season) part = Inl UnknownDestination"
proof -
  let ?vs = "template_values payload work code receipts season"
  from assms(1) consider (field) "part \<in> {''{payload}'', ''{work}'', ''{receipts}''}"
    | (season) "with_season" "part = ''{season}''"
    | (code) s where "part = ''{code}'' @ s" "CHR ''{'' \<notin> set s" "CHR ''}'' \<notin> set s"
    | (plain) "part \<noteq> []" "CHR ''{'' \<notin> set part" "CHR ''}'' \<notin> set part"
    unfolding safe_part_def by (metis append_take_drop_id)
  then show ?thesis
  proof cases
    case field
    then show ?thesis using assms(2-5) by (auto simp: render_part_def)
  next
    case season
    then show ?thesis by (cases season) (auto simp: render_part_def)
  next
    case (code s)
    then show ?thesis using assms(4) render_code [of s ?vs payload work code receipts season]
      by (simp add: render_part_def)
  next
    case plain
    then show ?thesis by (simp add: render_part_def format_plain)
  qed
qed

lemma render_command_season:
  assumes "\<forall>part \<in> set c. safe_part with_season part" "with_season \<longrightarrow> ''{season}'' \<in> set c"
    and "payload \<noteq> []" "work \<noteq> []" "code \<noteq> []" "receipts \<noteq> []"
  shows "if with_season \<and> (season = None \<or> season = Some [])
    then render_command c payload work code receipts season = Inl UnknownDestination
    else \<exists>argv. render_command c payload work code receipts season = Inr argv \<and> length argv = length c \<and> [] \<notin> set argv"
proof -
  let ?f = "render_part (template_values payload work code receipts season)"
  let ?missing = "with_season \<and> (season = None \<or> season = Some [])"
  note part = render_part_ok [OF _ assms(3-6), of with_season]
  have ok: "(\<forall>part \<in> set xs. \<exists>r. ?f part = Inr r \<and> r \<noteq> []) \<Longrightarrow>
      \<exists>ys. traverse ?f xs = Inr ys \<and> length ys = length xs \<and> [] \<notin> set ys" for xs
    by (induction xs) auto
  have bad: "(\<forall>part \<in> set xs. (\<exists>r. ?f part = Inr r) \<or> ?f part = Inl UnknownDestination) \<Longrightarrow>
      x \<in> set xs \<Longrightarrow> ?f x = Inl UnknownDestination \<Longrightarrow> traverse ?f xs = Inl UnknownDestination" for xs x
    by (induction xs) (auto simp: result_simps)
  show ?thesis
  proof (cases ?missing)
    case True
    then have "?f ''{season}'' = Inl UnknownDestination"
      by (auto simp: render_part_def simp del: format_fields.simps)
    moreover have "(\<exists>r. ?f part = Inr r) \<or> ?f part = Inl UnknownDestination" if "part \<in> set c" for part
      using part [of part season] assms(1) that by blast
    ultimately have "traverse ?f c = Inl UnknownDestination"
      using bad [of c "''{season}''"] assms(2) True by blast
    with True show ?thesis unfolding render_command_def by simp
  next
    case False
    have "\<exists>r. ?f x = Inr r \<and> r \<noteq> []" if "x \<in> set c" for x
      using part [of x season] assms(1) that False by blast
    with False ok [of c] show ?thesis unfolding render_command_def by auto
  qed
qed

text \<open>Every importer command of every destination is rendered exactly when it can be. With the payload, the two
  checkouts and the receipts path named, the command of a destination that needs no season always renders, to one
  non-empty argument per template part; the command of one that does renders just when a season is given, and
  without it is refused before anything runs.\<close>
theorem importer_commands_render:
  assumes "(sp, p) \<in> set PROFILES" "command \<in> set (commands_of p)"
    and "payload \<noteq> []" "work \<noteq> []" "code \<noteq> []" "receipts \<noteq> []"
  shows "if pr_requires_season p \<and> (season = None \<or> season = Some [])
    then render_command command payload work code receipts season = Inl UnknownDestination
    else \<exists>argv. render_command command payload work code receipts season = Inr argv
      \<and> length argv = length command \<and> [] \<notin> set argv"
  using command_parts [OF assms(1,2)] assms(3-6) by (intro render_command_season) auto

theorem importer_commands_render_witness:
  "render_command (pr_wager_importer cfb_profile) ''p'' ''w'' ''c'' ''r'' None = Inl UnknownDestination"
  using importer_commands_render [of CFB cfb_profile "pr_wager_importer cfb_profile" "''p''" "''w''" "''c''" "''r''" None]
  by (simp add: PROFILES_def commands_of_def) (simp add: cfb_profile_def)

end
