(* ===== verification/ShadowWager.thy ===== *)
theory ShadowWager
  imports Classify Position Destinations
begin

text \<open>
  \<^verbatim>\<open>wager.py\<close>: the date of a contest, the wager an episode would become, the reason it does not, and the
  counters of a run. As in \<open>Production\<close>, a diagnostics object is the function from its counter names to their values.

  The lemmas: a combo has a date exactly when all its legs establish that one date; a wager is built exactly when every
  gate passes; its row always satisfies the destination's required fields; and the counters add up.
\<close>

section \<open>The date of a contest\<close>

datatype game_date_source = EVENT_FIELD | EVENT_TICKER | COMBO_LEGS | NONE

definition MONTHS :: "(string, nat) dict" where
  "MONTHS = [(''JAN'', 1), (''FEB'', 2), (''MAR'', 3), (''APR'', 4), (''MAY'', 5), (''JUN'', 6),
     (''JUL'', 7), (''AUG'', 8), (''SEP'', 9), (''OCT'', 10), (''NOV'', 11), (''DEC'', 12)]"

definition EVENT_DATE_FIELDS :: "string list" where
  "EVENT_DATE_FIELDS = [''game_date'', ''scheduled_start_time'', ''strike_date'']"

text \<open>\<open>_ISO_DATE.match\<close>: the ten characters the pattern matches at the start.\<close>

definition iso_date_prefix :: "string \<Rightarrow> string option" where
  "iso_date_prefix s =
     (case s of
        y1 # y2 # y3 # y4 # h1 # m1 # m2 # h2 # d1 # d2 # _ \<Rightarrow>
          if list_all is_digit [y1, y2, y3, y4, m1, m2, d1, d2] \<and> h1 = CHR ''-'' \<and> h2 = CHR ''-''
          then Some [y1, y2, y3, y4, h1, m1, m2, h2, d1, d2] else None
      | _ \<Rightarrow> None)"

definition is_upper_letter :: "char \<Rightarrow> bool" where
  "is_upper_letter c \<longleftrightarrow> CHR ''A'' \<le> c \<and> c \<le> CHR ''Z''"

text \<open>\<open>_EVENT_TICKER_DATE\<close> at the start of a text, and its first match in it: year, month name and day.\<close>

definition date_segment :: "string \<Rightarrow> (string \<times> string \<times> string) option" where
  "date_segment s =
     (case s of
        h # y1 # y2 # m1 # m2 # m3 # d1 # d2 # _ \<Rightarrow>
          if h = CHR ''-'' \<and> list_all is_digit [y1, y2, d1, d2] \<and> list_all is_upper_letter [m1, m2, m3]
          then Some ([y1, y2], [m1, m2, m3], [d1, d2]) else None
      | _ \<Rightarrow> None)"

fun search_date_segment :: "string \<Rightarrow> (string \<times> string \<times> string) option" where
  "search_date_segment [] = None"
| "search_date_segment (c # cs) =
     (case date_segment (c # cs) of Some found \<Rightarrow> Some found | None \<Rightarrow> search_date_segment cs)"

definition two_digits :: "nat \<Rightarrow> string" where
  "two_digits n = (if n < 10 then ''0'' else []) @ show_nat n"

definition wager_event_ticker :: "market_context \<Rightarrow> string option" where
  "wager_event_ticker ctx =
     (case List.map_filter
             (\<lambda>source. case get_field source ''event_ticker'' of
                JStr s \<Rightarrow> if blank s then None else Some (py_strip s) | _ \<Rightarrow> None)
             [mc_event ctx, mc_market ctx] of
        t # _ \<Rightarrow> Some t | [] \<Rightarrow> None)"

definition date_from_fields :: "market_context \<Rightarrow> string option" where
  "date_from_fields ctx =
     (case List.map_filter
             (\<lambda>(source, key). case get_field source key of JStr s \<Rightarrow> iso_date_prefix (py_strip s) | _ \<Rightarrow> None)
             (concat (map (\<lambda>source. map (\<lambda>key. (source, key)) EVENT_DATE_FIELDS) [mc_event ctx, mc_market ctx])) of
        d # _ \<Rightarrow> Some d | [] \<Rightarrow> None)"

definition date_from_ticker :: "string \<Rightarrow> string option" where
  "date_from_ticker ticker =
     (case search_date_segment ticker of
        None \<Rightarrow> None
      | Some (year, month_name, day) \<Rightarrow>
          map_option (\<lambda>month. ''20'' @ year @ ''-'' @ two_digits month @ ''-'' @ two_digits (digits_val day))
            (dget MONTHS month_name))"

definition resolve_game_date :: "market_context option \<Rightarrow> string option \<times> game_date_source" where
  "resolve_game_date context =
     (case context of
        None \<Rightarrow> (None, NONE)
      | Some ctx \<Rightarrow>
          (case date_from_fields ctx of
             Some d \<Rightarrow> (Some d, EVENT_FIELD)
           | None \<Rightarrow>
               (case (case wager_event_ticker ctx of None \<Rightarrow> None | Some t \<Rightarrow> date_from_ticker t) of
                  Some d \<Rightarrow> (Some d, EVENT_TICKER)
                | None \<Rightarrow> (None, NONE))))"

text \<open>The loop over the legs: \<open>None\<close> for its early return, otherwise the set of dates.\<close>

fun leg_dates :: "'s resolver \<Rightarrow> string list \<Rightarrow> string list \<Rightarrow> 's \<Rightarrow> string list option result \<times> 's" where
  "leg_dates resolve_leg [] dates s = (Inr (Some dates), s)"
| "leg_dates resolve_leg (t # ts) dates s =
     (case resolve_leg t s of (answer, s) \<Rightarrow>
      case answer of
        Inl e \<Rightarrow> (Inl e, s)
      | Inr ctx \<Rightarrow>
          (case fst (resolve_game_date (Some ctx)) of
             None \<Rightarrow> (Inr None, s)
           | Some d \<Rightarrow> leg_dates resolve_leg ts (List.insert d dates) s))"

definition resolve_combo_game_date ::
  "market_context option \<Rightarrow> 's resolver \<Rightarrow> 's \<Rightarrow> (string option \<times> game_date_source) result \<times> 's" where
  "resolve_combo_game_date context resolve_leg s =
     (let legs = (case context of None \<Rightarrow> [] | Some ctx \<Rightarrow> combo_legs (mc_market ctx)); tickers = map leg_market_ticker legs in
      if tickers = [] \<or> None \<in> set tickers then (Inr (None, NONE), s)
      else
        (case leg_dates resolve_leg (map the tickers) [] s of
           (Inl e, s) \<Rightarrow> (Inl e, s)
         | (Inr None, s) \<Rightarrow> (Inr (None, NONE), s)
         | (Inr (Some dates), s) \<Rightarrow>
             (Inr (if length dates \<noteq> 1 then (None, NONE) else (Some (hd dates), COMBO_LEGS)), s)))"

section \<open>The wager an episode would become\<close>

definition SPORTS_WITH_AN_IMPORTER :: "sport list" where
  "SPORTS_WITH_AN_IMPORTER = dkeys PROFILES"

definition BINARY_RESULTS :: "string list" where "BINARY_RESULTS = [''yes'', ''no'']"

datatype wager_refusal =
    IDENTITY_NOT_IMPORTABLE
  | NOT_CLOSED
  | MARKET_NOT_CLASSIFIED
  | SPORT_UNRESOLVED
  | NO_DESTINATION_IMPORTER
  | GAME_DATE_NOT_ESTABLISHED
  | COST_BASIS_INCOMPLETE
  | FEES_INCOMPLETE
  | FEE_ALLOCATION_AMBIGUOUS
  | NO_SETTLEMENT_ECONOMICS
  | NON_BINARY_SETTLEMENT

record shadow_wager =
  sw_source_bet_key :: string
  sw_market_ticker :: string
  sw_event_ticker :: "string option"
  sw_sport :: sport
  sw_game_date :: string
  sw_game_date_source :: game_date_source
  sw_side :: string
  sw_contracts :: decimal
  sw_entry_price :: decimal
  sw_contract_cost :: decimal
  sw_total_fees :: decimal
  sw_stake :: decimal
  sw_gross_settlement_payout :: decimal
  sw_net_profit_loss :: decimal
  sw_result :: string
  sw_entry_timestamp :: decimal

definition shadow_import_row :: "shadow_wager \<Rightarrow> jobj" where
  "shadow_import_row w =
     [(''sourceBetKey'', JStr (sw_source_bet_key w)), (''gameDate'', JStr (sw_game_date w)),
      (''marketTicker'', JStr (sw_market_ticker w)), (''side'', JStr (sw_side w)),
      (''stake'', json_float (sw_stake w)), (''entryPrice'', json_float (sw_entry_price w)),
      (''contracts'', json_float (sw_contracts w)), (''contractCost'', json_float (sw_contract_cost w)),
      (''totalFees'', json_float (sw_total_fees w)), (''actualCashConsumed'', json_float (sw_stake w)),
      (''grossSettlementPayout'', json_float (sw_gross_settlement_payout w)),
      (''netProfitLoss'', json_float (sw_net_profit_loss w)), (''result'', JStr (sw_result w)),
      (''status'', JStr ''settled''), (''executionStatus'', JStr ''HELD_TO_SETTLEMENT''),
      (''feeStatus'', JStr ''ACTUAL_API_FILL''), (''economicsSource'', JStr ''EXACT_API_EXECUTION''),
      (''source'', JStr ''OTHER''), (''trackingType'', JStr ''REAL'')]"

text \<open>The wager once every gate has passed.\<close>

definition shadow_wager_of ::
  "position_episode \<Rightarrow> string \<Rightarrow> sport \<Rightarrow> market_context option \<Rightarrow> string \<Rightarrow> game_date_source \<Rightarrow> decimal \<Rightarrow> decimal
    \<Rightarrow> shadow_wager" where
  "shadow_wager_of e key sp context game_date date_source average revenue =
     (let long_yes = (e_direction e = LONG_YES);
          entry_price = (if long_yes then average else dsub 1 average);
          contracts = e_total_opened_quantity e;
          contract_cost = dmul entry_price contracts;
          stake = dadd contract_cost (e_fees_paid e)
      in
      \<lparr>sw_source_bet_key = key, sw_market_ticker = e_ticker e,
       sw_event_ticker = (case context of None \<Rightarrow> None | Some ctx \<Rightarrow> wager_event_ticker ctx),
       sw_sport = sp, sw_game_date = game_date, sw_game_date_source = date_source,
       sw_side = (if long_yes then ''YES'' else ''NO''), sw_contracts = contracts, sw_entry_price = entry_price,
       sw_contract_cost = contract_cost, sw_total_fees = e_fees_paid e, sw_stake = stake,
       sw_gross_settlement_payout = revenue, sw_net_profit_loss = dsub revenue stake,
       sw_result = (if 0 < revenue then ''WIN'' else ''LOSS''), sw_entry_timestamp = e_opened_at e\<rparr>)"

text \<open>\<open>(wager, None)\<close> is \<open>Inr wager\<close>, \<open>(None, refusal)\<close> is \<open>Inl refusal\<close>.\<close>

definition build_shadow_wager ::
  "position_episode \<Rightarrow> classification option \<Rightarrow> market_context option \<Rightarrow> wager_refusal + shadow_wager" where
  "build_shadow_wager e cl context =
     (if \<not> e_is_importable e then Inl IDENTITY_NOT_IMPORTABLE
      else case e_source_key e of
        None \<Rightarrow> Inl IDENTITY_NOT_IMPORTABLE
      | Some key \<Rightarrow>
      if is_open e then Inl NOT_CLOSED
      else case cl of
        None \<Rightarrow> Inl MARKET_NOT_CLASSIFIED
      | Some cl \<Rightarrow>
      if cl_sport cl = UNRESOLVED then Inl SPORT_UNRESOLVED
      else if cl_sport cl \<notin> set SPORTS_WITH_AN_IMPORTER then Inl NO_DESTINATION_IMPORTER
      else if e_fee_allocation_ambiguous e then Inl FEE_ALLOCATION_AMBIGUOUS
      else if \<not> e_cost_basis_complete e then Inl COST_BASIS_INCOMPLETE
      else case e_average_entry_price e of
        None \<Rightarrow> Inl COST_BASIS_INCOMPLETE
      | Some average \<Rightarrow>
      if \<not> e_fee_complete e then Inl FEES_INCOMPLETE
      else (case (e_settlement_revenue_dollars e, e_settlement_result e) of
        (Some revenue, Some got) \<Rightarrow>
          if py_lower (py_strip got) \<notin> set BINARY_RESULTS then Inl NON_BINARY_SETTLEMENT
          else (case resolve_game_date context of
            (None, _) \<Rightarrow> Inl GAME_DATE_NOT_ESTABLISHED
          | (Some game_date, date_source) \<Rightarrow>
              Inr (shadow_wager_of e key (cl_sport cl) context game_date date_source average revenue))
      | _ \<Rightarrow> Inl NO_SETTLEMENT_ECONOMICS))"

definition REQUIRED_ROW_FIELDS :: "string list" where
  "REQUIRED_ROW_FIELDS = [''gameDate'', ''stake'', ''sourceBetKey'']"

definition row_is_valid :: "jobj \<Rightarrow> bool" where
  "row_is_valid row \<longleftrightarrow>
     list_all (\<lambda>name. case jget row name of JNull \<Rightarrow> False | JStr s \<Rightarrow> \<not> blank s | _ \<Rightarrow> True) REQUIRED_ROW_FIELDS
     \<and> (jget row ''entryPrice'' \<noteq> JNull) \<noteq> (jget row ''entryOdds'' \<noteq> JNull)"

section \<open>The counters of a run\<close>

definition WAGER_FIELDS :: "string list" where
  "WAGER_FIELDS = [''episodes_considered'', ''wagers_built'',
     ''refused_identity_not_importable'', ''refused_not_closed'', ''refused_market_not_classified'',
     ''refused_sport_unresolved'', ''refused_no_destination_importer'', ''refused_game_date_not_established'',
     ''refused_cost_basis_incomplete'', ''refused_fees_incomplete'', ''refused_fee_allocation_ambiguous'',
     ''refused_no_settlement_economics'', ''refused_non_binary_settlement'',
     ''routable_classified_mlb'', ''routable_classified_nfl'', ''routable_classified_cfb'', ''routable_classified_nhl'',
     ''routable_classified_nba'', ''routable_classified_soccer'', ''routable_classified_tennis'',
     ''routable_classified_other'', ''routable_classified_unresolved'', ''routable_not_classified'',
     ''unresolved_metadata_lookup_failed'', ''unresolved_no_metadata'', ''unresolved_malformed_event_metadata'',
     ''unresolved_competition_absent'', ''unresolved_competition_unknown'', ''unresolved_competition_ambiguous'',
     ''unresolved_milestone_conflict'', ''unresolved_evidence_conflict'', ''unresolved_ambiguous_family'',
     ''unresolved_insufficient'', ''unresolved_reason_not_recorded'',
     ''rescue_by_kalshi_series'', ''rescue_by_local_registry'', ''rescue_by_nothing'',
     ''game_date_from_event_field'', ''game_date_from_event_ticker'',
     ''rows_valid_against_destination'', ''rows_invalid_against_destination'']"

definition wager_refusals_total :: "diagnostics \<Rightarrow> nat" where
  "wager_refusals_total d = sum_list (map d (filter (\<lambda>k. starts_with k ''refused_'') WAGER_FIELDS))"

definition wager_diagnostics_as_dict :: "diagnostics \<Rightarrow> (string, nat) dict" where
  "wager_diagnostics_as_dict d = map (\<lambda>k. (k, d k)) WAGER_FIELDS"

fun WAGER_REFUSAL_COUNTERS :: "wager_refusal \<Rightarrow> string" where
  "WAGER_REFUSAL_COUNTERS IDENTITY_NOT_IMPORTABLE = ''refused_identity_not_importable''"
| "WAGER_REFUSAL_COUNTERS NOT_CLOSED = ''refused_not_closed''"
| "WAGER_REFUSAL_COUNTERS MARKET_NOT_CLASSIFIED = ''refused_market_not_classified''"
| "WAGER_REFUSAL_COUNTERS SPORT_UNRESOLVED = ''refused_sport_unresolved''"
| "WAGER_REFUSAL_COUNTERS NO_DESTINATION_IMPORTER = ''refused_no_destination_importer''"
| "WAGER_REFUSAL_COUNTERS GAME_DATE_NOT_ESTABLISHED = ''refused_game_date_not_established''"
| "WAGER_REFUSAL_COUNTERS COST_BASIS_INCOMPLETE = ''refused_cost_basis_incomplete''"
| "WAGER_REFUSAL_COUNTERS FEES_INCOMPLETE = ''refused_fees_incomplete''"
| "WAGER_REFUSAL_COUNTERS FEE_ALLOCATION_AMBIGUOUS = ''refused_fee_allocation_ambiguous''"
| "WAGER_REFUSAL_COUNTERS NO_SETTLEMENT_ECONOMICS = ''refused_no_settlement_economics''"
| "WAGER_REFUSAL_COUNTERS NON_BINARY_SETTLEMENT = ''refused_non_binary_settlement''"

fun unresolved_counters :: "unresolved_reason \<Rightarrow> string option" where
  "unresolved_counters METADATA_LOOKUP_FAILED = Some ''unresolved_metadata_lookup_failed''"
| "unresolved_counters NO_METADATA = Some ''unresolved_no_metadata''"
| "unresolved_counters MALFORMED_EVENT_METADATA = Some ''unresolved_malformed_event_metadata''"
| "unresolved_counters COMPETITION_ABSENT = Some ''unresolved_competition_absent''"
| "unresolved_counters COMPETITION_UNKNOWN = Some ''unresolved_competition_unknown''"
| "unresolved_counters COMPETITION_AMBIGUOUS = Some ''unresolved_competition_ambiguous''"
| "unresolved_counters MILESTONE_CONFLICT = Some ''unresolved_milestone_conflict''"
| "unresolved_counters EVIDENCE_CONFLICT = Some ''unresolved_evidence_conflict''"
| "unresolved_counters AMBIGUOUS_FAMILY = Some ''unresolved_ambiguous_family''"
| "unresolved_counters INSUFFICIENT = Some ''unresolved_insufficient''"
| "unresolved_counters _ = None"

fun routable_counters :: "sport \<Rightarrow> string" where
  "routable_counters MLB = ''routable_classified_mlb''"
| "routable_counters NFL = ''routable_classified_nfl''"
| "routable_counters CFB = ''routable_classified_cfb''"
| "routable_counters NHL = ''routable_classified_nhl''"
| "routable_counters NBA = ''routable_classified_nba''"
| "routable_counters SOCCER = ''routable_classified_soccer''"
| "routable_counters TENNIS = ''routable_classified_tennis''"
| "routable_counters OTHER = ''routable_classified_other''"
| "routable_counters UNRESOLVED = ''routable_classified_unresolved''"

text \<open>The two counters of an unresolved market: why, and what a fall-through would have decided.\<close>

definition reason_counter :: "classification \<Rightarrow> string" where
  "reason_counter cl =
     (case (case cl_unresolved_reason cl of None \<Rightarrow> None | Some r \<Rightarrow> unresolved_counters r) of
        None \<Rightarrow> ''unresolved_reason_not_recorded'' | Some counter \<Rightarrow> counter)"

definition rescue_counter :: "classification \<Rightarrow> string" where
  "rescue_counter cl =
     (if cl_rescuable_by cl = Some L4_SERIES_METADATA then ''rescue_by_kalshi_series''
      else if cl_rescuable_by cl = Some L5_SERIES_REGISTRY then ''rescue_by_local_registry''
      else ''rescue_by_nothing'')"

text \<open>The counters one episode moves before its wager is built, and those its outcome moves.\<close>

definition count_routable :: "position_episode \<Rightarrow> classification option \<Rightarrow> diagnostics \<Rightarrow> diagnostics" where
  "count_routable e cl d =
     (if \<not> e_is_importable e then d
      else case cl of
          None \<Rightarrow> bump ''routable_not_classified'' d
        | Some cl \<Rightarrow>
            let d = bump (routable_counters (cl_sport cl)) d in
            if cl_sport cl = UNRESOLVED then bump (rescue_counter cl) (bump (reason_counter cl) d) else d)"

definition count_outcome :: "wager_refusal + shadow_wager \<Rightarrow> diagnostics \<Rightarrow> diagnostics" where
  "count_outcome got d =
     (case got of
        Inl refusal \<Rightarrow> bump (WAGER_REFUSAL_COUNTERS refusal) d
      | Inr w \<Rightarrow>
          let d = bump ''wagers_built'' d;
              d = (if sw_game_date_source w = EVENT_FIELD then bump ''game_date_from_event_field'' d
                   else bump ''game_date_from_event_ticker'' d)
          in if row_is_valid (shadow_import_row w) then bump ''rows_valid_against_destination'' d
             else bump ''rows_invalid_against_destination'' d)"

fun shadow_loop ::
  "(string, classification) dict \<Rightarrow> (string, market_context) dict \<Rightarrow> position_episode list \<Rightarrow> shadow_wager list
    \<Rightarrow> diagnostics \<Rightarrow> shadow_wager list \<times> diagnostics" where
  "shadow_loop classifications contexts [] wagers d = (wagers, d)"
| "shadow_loop classifications contexts (e # es) wagers d =
     (let cl = dget classifications (e_ticker e);
          d = count_routable e cl (bump ''episodes_considered'' d);
          got = build_shadow_wager e cl (dget contexts (e_ticker e))
      in shadow_loop classifications contexts es
           (case got of Inl _ \<Rightarrow> wagers | Inr w \<Rightarrow> wagers @ [w]) (count_outcome got d))"

definition build_shadow_wagers ::
  "position_episode list \<Rightarrow> (string, classification) dict \<Rightarrow> (string, market_context) dict
    \<Rightarrow> shadow_wager list \<times> diagnostics" where
  "build_shadow_wagers es classifications contexts = shadow_loop classifications contexts es [] no_diagnostics"

section \<open>A row the destination accepts\<close>

lemma iso_date_prefix_not_blank: "iso_date_prefix s = Some d \<Longrightarrow> \<not> blank d"
  by (auto simp: iso_date_prefix_def blank_iff is_space_code split: list.splits if_splits)

lemma date_from_ticker_not_blank: "date_from_ticker t = Some d \<Longrightarrow> \<not> blank d"
  by (auto simp: date_from_ticker_def is_space_code blank_iff split: option.splits prod.splits)

lemma map_filter_ConsD: "List.map_filter f xs = y # ys \<Longrightarrow> \<exists>x \<in> set xs. f x = Some y"
  by (induction xs) (auto simp: map_filter_simps split: option.splits)

lemma date_from_fields_not_blank: "date_from_fields ctx = Some d \<Longrightarrow> \<not> blank d"
  by (auto simp: date_from_fields_def dest!: map_filter_ConsD iso_date_prefix_not_blank split: list.splits json.splits)

lemma game_date_not_blank: "resolve_game_date context = (Some d, source) \<Longrightarrow> \<not> blank d"
  by (auto simp: resolve_game_date_def dest: date_from_fields_not_blank date_from_ticker_not_blank
      split: option.splits)

lemma source_key_not_blank: "e_source_key e = Some key \<Longrightarrow> \<not> blank key"
  by (auto simp: e_source_key_def episode_identity_def episode_source_key_def is_space_code blank_iff
      split: if_splits)

lemma built_row_is_valid: "build_shadow_wager e cl context = Inr w \<Longrightarrow> row_is_valid (shadow_import_row w)"
  by (auto simp: build_shadow_wager_def row_is_valid_def shadow_import_row_def REQUIRED_ROW_FIELDS_def jget_def
      shadow_wager_of_def json_float_def Let_def
      dest: game_date_not_blank source_key_not_blank split: if_splits option.splits prod.splits)

section \<open>The counters one episode moves\<close>

definition routable_moves :: "position_episode \<Rightarrow> classification option \<Rightarrow> string list" where
  "routable_moves e cl =
     (if \<not> e_is_importable e then []
      else case cl of
          None \<Rightarrow> [''routable_not_classified'']
        | Some cl \<Rightarrow> routable_counters (cl_sport cl)
            # (if cl_sport cl = UNRESOLVED then [reason_counter cl, rescue_counter cl] else []))"

definition outcome_moves :: "wager_refusal + shadow_wager \<Rightarrow> string list" where
  "outcome_moves got =
     (case got of
        Inl refusal \<Rightarrow> [WAGER_REFUSAL_COUNTERS refusal]
      | Inr w \<Rightarrow>
          [''wagers_built'',
           if sw_game_date_source w = EVENT_FIELD then ''game_date_from_event_field'' else ''game_date_from_event_ticker'',
           if row_is_valid (shadow_import_row w) then ''rows_valid_against_destination''
           else ''rows_invalid_against_destination''])"

lemma count_routable_moves: "count_routable e cl d = fold bump (routable_moves e cl) d"
  by (simp add: count_routable_def routable_moves_def Let_def split: option.split)

lemma count_outcome_moves: "count_outcome got d = fold bump (outcome_moves got) d"
  by (simp add: count_outcome_def outcome_moves_def Let_def split: sum.split)

text \<open>What becomes of an episode of the run, and the counters it moves.\<close>

definition result_of ::
  "(string, classification) dict \<Rightarrow> (string, market_context) dict \<Rightarrow> position_episode \<Rightarrow> wager_refusal + shadow_wager" where
  "result_of classifications contexts e =
     build_shadow_wager e (dget classifications (e_ticker e)) (dget contexts (e_ticker e))"

definition moves ::
  "(string, classification) dict \<Rightarrow> (string, market_context) dict \<Rightarrow> position_episode \<Rightarrow> string list" where
  "moves classifications contexts e =
     ''episodes_considered'' # routable_moves e (dget classifications (e_ticker e))
       @ outcome_moves (result_of classifications contexts e)"

definition built :: "wager_refusal + shadow_wager \<Rightarrow> shadow_wager list" where
  "built got = (case got of Inl _ \<Rightarrow> [] | Inr w \<Rightarrow> [w])"

lemma shadow_loop_moves:
  "shadow_loop cls ctxs es ws d =
     (ws @ concat (map (\<lambda>e. built (result_of cls ctxs e)) es), fold bump (concat (map (moves cls ctxs) es)) d)"
  by (induction es arbitrary: ws d)
     (simp_all add: moves_def result_of_def built_def count_routable_moves count_outcome_moves Let_def split: sum.split)

lemma fold_bump: "fold bump ks d k = d k + count_list ks k"
  by (induction ks arbitrary: d) (simp_all add: bump_def)

lemma sum_bump:
  "distinct names \<Longrightarrow> sum_list (map (fold bump ks d) names) = sum_list (map d names) + length (filter (\<lambda>k. k \<in> set names) ks)"
proof (induction ks arbitrary: d)
  case (Cons k ks)
  have "sum_list (map (bump k d) names) = sum_list (map d names) + (if k \<in> set names then 1 else 0)"
    using Cons.prems by (induction names) (auto simp: bump_def)
  with Cons show ?case by simp
qed simp

text \<open>The counters whose names begin with a prefix.\<close>

definition counters :: "string \<Rightarrow> string list" where
  "counters prefix = filter (\<lambda>k. starts_with k prefix) WAGER_FIELDS"

definition counted :: "string \<Rightarrow> diagnostics \<Rightarrow> nat" where
  "counted prefix d = sum_list (map d (counters prefix))"

lemma distinct_counters: "distinct (counters prefix)"
proof -
  have "distinct WAGER_FIELDS" by code_simp
  then show ?thesis by (simp add: counters_def)
qed

lemma counted_moves:
  "counted prefix (fold bump (concat (map ms es)) no_diagnostics)
     = sum_list (map (\<lambda>e. length (filter (\<lambda>k. k \<in> set (counters prefix)) (ms e))) es)"
  unfolding counted_def sum_bump [OF distinct_counters]
  by (induction es) (simp_all add: no_diagnostics_def)

text \<open>Which group each counter belongs to.\<close>

lemma counters_refused: "counters ''refused_'' = [''refused_identity_not_importable'', ''refused_not_closed'',
     ''refused_market_not_classified'', ''refused_sport_unresolved'', ''refused_no_destination_importer'',
     ''refused_game_date_not_established'', ''refused_cost_basis_incomplete'', ''refused_fees_incomplete'',
     ''refused_fee_allocation_ambiguous'', ''refused_no_settlement_economics'', ''refused_non_binary_settlement'']"
  by code_simp

lemma counters_routable: "counters ''routable_'' = [''routable_classified_mlb'', ''routable_classified_nfl'',
     ''routable_classified_cfb'', ''routable_classified_nhl'', ''routable_classified_nba'', ''routable_classified_soccer'',
     ''routable_classified_tennis'', ''routable_classified_other'', ''routable_classified_unresolved'', ''routable_not_classified'']"
  by code_simp

lemma counters_unresolved: "counters ''unresolved_'' = [''unresolved_metadata_lookup_failed'', ''unresolved_no_metadata'',
     ''unresolved_malformed_event_metadata'', ''unresolved_competition_absent'', ''unresolved_competition_unknown'',
     ''unresolved_competition_ambiguous'', ''unresolved_milestone_conflict'', ''unresolved_evidence_conflict'',
     ''unresolved_ambiguous_family'', ''unresolved_insufficient'', ''unresolved_reason_not_recorded'']"
  by code_simp

lemma counters_rescue: "counters ''rescue_'' = [''rescue_by_kalshi_series'', ''rescue_by_local_registry'', ''rescue_by_nothing'']"
  by code_simp

lemmas counters_lists = counters_refused counters_routable counters_unresolved counters_rescue

text \<open>The kind of a counter's name: enough of it to tell the groups apart.\<close>

definition kind :: "string \<Rightarrow> string" where "kind k = take 3 k"

lemma refused_counter: "WAGER_REFUSAL_COUNTERS r \<in> set (counters ''refused_'')"
  by (cases r) (simp_all add: counters_refused)

lemma routable_counter: "routable_counters s \<in> set (counters ''routable_'')"
  by (cases s) (simp_all add: counters_routable)

lemma unresolved_counter: "reason_counter cl \<in> set (counters ''unresolved_'')"
proof -
  have "unresolved_counters x = Some k \<Longrightarrow> k \<in> set (counters ''unresolved_'')" for x k
    by (cases x) (auto simp: counters_unresolved)
  then show ?thesis by (auto simp: reason_counter_def counters_unresolved split: option.split)
qed

lemma rescue_counter_group: "rescue_counter cl \<in> set (counters ''rescue_'')"
  by (simp add: rescue_counter_def counters_rescue)

lemma kinds:
  "k \<in> set (counters ''refused_'') \<Longrightarrow> kind k = ''ref''" "k \<in> set (counters ''routable_'') \<Longrightarrow> kind k = ''rou''"
  "k \<in> set (counters ''unresolved_'') \<Longrightarrow> kind k = ''unr''" "k \<in> set (counters ''rescue_'') \<Longrightarrow> kind k = ''res''"
  by (auto simp: counters_lists kind_def)

lemma counter_kinds [simp]:
  "kind (WAGER_REFUSAL_COUNTERS r) = ''ref''" "kind (routable_counters s) = ''rou''"
  "kind (reason_counter cl) = ''unr''" "kind (rescue_counter cl) = ''res''"
  using refused_counter routable_counter unresolved_counter rescue_counter_group by (blast intro: kinds)+

lemma fixed_kinds [simp]:
  "kind ''episodes_considered'' = ''epi''" "kind ''wagers_built'' = ''wag''" "kind ''game_date_from_event_field'' = ''gam''"
  "kind ''game_date_from_event_ticker'' = ''gam''" "kind ''rows_valid_against_destination'' = ''row''"
  "kind ''rows_invalid_against_destination'' = ''row''" "kind ''routable_not_classified'' = ''rou''"
  "kind ''routable_classified_unresolved'' = ''rou''"
  by (simp_all add: kind_def)

lemma in_fields:
  "\<forall>k \<in> set WAGER_FIELDS. (k \<in> set (counters ''refused_'')) = (kind k = ''ref'')"
  "\<forall>k \<in> set WAGER_FIELDS. (k \<in> set (counters ''routable_'')) = (kind k = ''rou'')"
  "\<forall>k \<in> set WAGER_FIELDS. (k \<in> set (counters ''unresolved_'')) = (kind k = ''unr'')"
  "\<forall>k \<in> set WAGER_FIELDS. (k \<in> set (counters ''rescue_'')) = (kind k = ''res'')"
  by code_simp+

lemma fields_moved: "set (moves cls ctxs e) \<subseteq> set WAGER_FIELDS"
proof -
  have fixed: "set [''episodes_considered'', ''wagers_built'', ''game_date_from_event_field'', ''game_date_from_event_ticker'',
      ''rows_valid_against_destination'', ''rows_invalid_against_destination'', ''routable_not_classified''] \<subseteq> set WAGER_FIELDS"
    by code_simp
  have "set (counters p) \<subseteq> set WAGER_FIELDS" for p by (auto simp: counters_def)
  then have "WAGER_REFUSAL_COUNTERS r \<in> set WAGER_FIELDS" "routable_counters s \<in> set WAGER_FIELDS"
    "reason_counter cl \<in> set WAGER_FIELDS" "rescue_counter cl \<in> set WAGER_FIELDS" for r s cl
    using refused_counter routable_counter unresolved_counter rescue_counter_group by blast+
  then show ?thesis
    using fixed by (auto simp: moves_def routable_moves_def outcome_moves_def split: option.splits sum.splits)
qed

lemma filter_kind:
  assumes "\<forall>k \<in> set WAGER_FIELDS. (k \<in> set (counters p)) = (kind k = q)"
  shows "filter (\<lambda>k. k \<in> set (counters p)) (moves cls ctxs e) = filter (\<lambda>k. kind k = q) (moves cls ctxs e)"
  using assms fields_moved [of cls ctxs e] by (intro filter_cong) auto

lemma moves_in_groups:
  "length (filter (\<lambda>k. k \<in> set (counters ''refused_'')) (moves cls ctxs e)) = (if built (result_of cls ctxs e) = [] then 1 else 0)"
  "length (filter (\<lambda>k. k \<in> set (counters ''routable_'')) (moves cls ctxs e)) = (if e_is_importable e then 1 else 0)"
  unfolding filter_kind [OF in_fields(1)] filter_kind [OF in_fields(2)]
  by (simp_all add: moves_def routable_moves_def outcome_moves_def built_def split: option.split sum.split)

lemma counters_differ:
  "WAGER_REFUSAL_COUNTERS r = k \<longleftrightarrow> False" "reason_counter cl = k \<longleftrightarrow> False" "rescue_counter cl = k \<longleftrightarrow> False"
  if "kind k = ''rou'' \<or> kind k = ''epi'' \<or> kind k = ''wag'' \<or> kind k = ''row''"
  using that by auto

lemma moves_unresolved:
  "length (filter (\<lambda>k. k \<in> set (counters ''unresolved_'')) (moves cls ctxs e)) = count_list (moves cls ctxs e) ''routable_classified_unresolved''"
  "length (filter (\<lambda>k. k \<in> set (counters ''rescue_'')) (moves cls ctxs e)) = count_list (moves cls ctxs e) ''routable_classified_unresolved''"
proof -
  have unr: "routable_counters s = ''routable_classified_unresolved'' \<longleftrightarrow> s = UNRESOLVED" for s by (cases s) simp_all
  show "length (filter (\<lambda>k. k \<in> set (counters ''unresolved_'')) (moves cls ctxs e)) = count_list (moves cls ctxs e) ''routable_classified_unresolved''"
    unfolding filter_kind [OF in_fields(3)]
    by (simp add: moves_def routable_moves_def outcome_moves_def counters_differ unr split: option.split sum.split)
  show "length (filter (\<lambda>k. k \<in> set (counters ''rescue_'')) (moves cls ctxs e)) = count_list (moves cls ctxs e) ''routable_classified_unresolved''"
    unfolding filter_kind [OF in_fields(4)]
    by (simp add: moves_def routable_moves_def outcome_moves_def counters_differ unr split: option.split sum.split)
qed

lemma moves_fixed:
  "count_list (moves cls ctxs e) ''episodes_considered'' = 1"
  "count_list (moves cls ctxs e) ''wagers_built'' = length (built (result_of cls ctxs e))"
  "count_list (moves cls ctxs e) ''rows_valid_against_destination'' = length (built (result_of cls ctxs e))"
  "count_list (moves cls ctxs e) ''rows_invalid_against_destination'' = 0"
  "count_list (moves cls ctxs e) (WAGER_REFUSAL_COUNTERS r) = (if result_of cls ctxs e = Inl r then 1 else 0)"
proof -
  have valid: "result_of cls ctxs e = Inr w \<Longrightarrow> row_is_valid (shadow_import_row w)" for w
    unfolding result_of_def by (rule built_row_is_valid)
  have neq: "routable_counters s = k \<longleftrightarrow> False" if "kind k \<noteq> ''rou''" for s k using that by auto
  have neq': "k = WAGER_REFUSAL_COUNTERS r \<longleftrightarrow> False" if "kind k \<noteq> ''ref''" for k using that by auto
  have inj: "WAGER_REFUSAL_COUNTERS x = WAGER_REFUSAL_COUNTERS y \<longleftrightarrow> x = y" for x y by (cases x; cases y) simp_all
  show "count_list (moves cls ctxs e) ''episodes_considered'' = 1"
    "count_list (moves cls ctxs e) ''wagers_built'' = length (built (result_of cls ctxs e))"
    "count_list (moves cls ctxs e) ''rows_valid_against_destination'' = length (built (result_of cls ctxs e))"
    "count_list (moves cls ctxs e) ''rows_invalid_against_destination'' = 0"
    using valid
    by (simp_all add: moves_def routable_moves_def outcome_moves_def built_def counters_differ neq split: option.split sum.split)
  show "count_list (moves cls ctxs e) (WAGER_REFUSAL_COUNTERS r) = (if result_of cls ctxs e = Inl r then 1 else 0)"
    by (simp add: moves_def routable_moves_def outcome_moves_def neq' inj split: option.split sum.split)
qed

lemma sum_indicator: "sum_list (map (\<lambda>e. if P e then 1 else 0) es) = length (filter P es)"
  by (induction es) simp_all

lemma built_or_refused:
  "sum_list (map (\<lambda>e. length (built (f e))) es) + sum_list (map (\<lambda>e. if built (f e) = [] then 1 else 0) es) = length es"
  by (induction es) (auto simp: built_def split: sum.split)

text \<open>C22: a shadow run accounts for every episode it was given. It returns one wager per episode that passes every
  gate, in order, and each of their rows satisfies the destination's required fields; every other episode is counted
  under the one reason it was refused for; the episodes with an importable identity are classified into one counter
  each, and every unresolved one has exactly one reason and one verdict on what would have rescued it.\<close>
theorem shadow_wagers_add_up:
  assumes "build_shadow_wagers es classifications contexts = (ws, d)"
  shows "ws = concat (map (\<lambda>e. built (result_of classifications contexts e)) es)
    \<and> (\<forall>w \<in> set ws. row_is_valid (shadow_import_row w))
    \<and> d ''episodes_considered'' = length es \<and> d ''wagers_built'' = length ws
    \<and> d ''wagers_built'' + wager_refusals_total d = length es
    \<and> (\<forall>r. d (WAGER_REFUSAL_COUNTERS r) = length (filter (\<lambda>e. result_of classifications contexts e = Inl r) es))
    \<and> d ''rows_valid_against_destination'' = length ws \<and> d ''rows_invalid_against_destination'' = 0
    \<and> counted ''routable_'' d = length (filter e_is_importable es)
    \<and> counted ''unresolved_'' d = d ''routable_classified_unresolved''
    \<and> counted ''rescue_'' d = d ''routable_classified_unresolved''"
proof -
  let ?res = "result_of classifications contexts" and ?mv = "moves classifications contexts"
  have ws: "ws = concat (map (\<lambda>e. built (?res e)) es)" and d: "d = fold bump (concat (map ?mv es)) no_diagnostics"
    using assms by (simp_all add: build_shadow_wagers_def shadow_loop_moves)
  have single: "d k = sum_list (map (\<lambda>e. count_list (?mv e) k) es)" for k
    unfolding d fold_bump by (induction es) (simp_all add: no_diagnostics_def)
  have group: "counted p d = sum_list (map (\<lambda>e. length (filter (\<lambda>k. k \<in> set (counters p)) (?mv e))) es)" for p
    unfolding d by (rule counted_moves)
  have len: "length ws = sum_list (map (\<lambda>e. length (built (?res e))) es)"
    unfolding ws by (simp add: length_concat comp_def)
  have "wager_refusals_total d = counted ''refused_'' d" by (simp add: wager_refusals_total_def counted_def counters_def)
  then have total: "d ''wagers_built'' + wager_refusals_total d = length es"
    using built_or_refused [of ?res es] by (simp add: single group moves_fixed moves_in_groups)
  have valid: "\<forall>w \<in> set ws. row_is_valid (shadow_import_row w)"
    unfolding ws by (auto simp: built_def result_of_def dest!: built_row_is_valid [OF sym] split: sum.splits)
  show ?thesis
    using total valid
    by (intro conjI ws)
       (simp_all add: single group len moves_fixed moves_in_groups moves_unresolved sum_indicator sum_list_triv)
qed

text \<open>The witness: an open episode with an importable identity, in a market nothing classified.\<close>

definition sample_open_episode :: position_episode where
  "sample_open_episode =
     \<lparr>e_ticker = ''KXNFL'', e_direction = LONG_YES, e_opening_fill_id = ''F1'', e_opened_at = 0, e_subaccount_number = None,
      e_closing_fill_id = None, e_closed_at = None, e_last_activity_at = None, e_remaining_quantity = 1, e_peak_quantity = 1,
      e_total_opened_quantity = 1, e_total_closed_quantity = 0, e_average_entry_price = Some (1 / 2), e_realized_pnl = 0,
      e_fees_paid = 0, e_cost_basis_complete = True, e_fee_complete = True, e_fee_allocation_ambiguous = False,
      e_provable = True, e_outcome_provable = True, e_outcome_bounded_by_settlement_coverage = False,
      e_settlement_revenue_dollars = None, e_settlement_result = None, e_authority = RECONCILED_CURRENT,
      e_transitions = [], e_order_ids = []\<rparr>"

definition sample_settled_episode :: position_episode where
  "sample_settled_episode = sample_open_episode\<lparr>e_closing_fill_id := Some ''settlement:KXNFL'', e_authority := EXPLAINED_SETTLED,
     e_settlement_revenue_dollars := Some 1, e_settlement_result := Some ''yes''\<rparr>"

definition sample_classification :: classification where
  "sample_classification = (unresolved (sample_leg_context ''KXNFL'') INSUFFICIENT [] [])\<lparr>cl_sport := NFL\<rparr>"

definition dated_context :: market_context where
  "dated_context = (sample_leg_context ''KXNFL'')\<lparr>mc_event := Some [(''event_ticker'', JStr ''KXNFLGAME-26SEP13DALNYG'')]\<rparr>"

lemma sample_results:
  "result_of [(''KXNFL'', sample_classification)] [(''KXNFL'', dated_context)] sample_open_episode = Inl NOT_CLOSED"
  "\<exists>w. result_of [(''KXNFL'', sample_classification)] [(''KXNFL'', dated_context)] sample_settled_episode = Inr w
    \<and> sw_game_date w = ''2026-09-13'' \<and> sw_result w = ''WIN''"
proof -
  have date: "resolve_game_date (Some dated_context) = (Some ''2026-09-13'', EVENT_TICKER)" by code_simp
  have importer: "NFL \<in> set SPORTS_WITH_AN_IMPORTER" by (simp add: SPORTS_WITH_AN_IMPORTER_def PROFILES_def)
  have yes: "py_lower (py_strip ''yes'') \<in> set BINARY_RESULTS" by code_simp
  show "result_of [(''KXNFL'', sample_classification)] [(''KXNFL'', dated_context)] sample_open_episode = Inl NOT_CLOSED"
    "\<exists>w. result_of [(''KXNFL'', sample_classification)] [(''KXNFL'', dated_context)] sample_settled_episode = Inr w
      \<and> sw_game_date w = ''2026-09-13'' \<and> sw_result w = ''WIN''"
    by (simp_all add: result_of_def build_shadow_wager_def sample_settled_episode_def sample_open_episode_def
        sample_classification_def e_is_importable_def e_source_key_def episode_identity_def authority_is_earned_def
        EARNED_AUTHORITY_def is_open_def date importer yes shadow_wager_of_def Let_def)
qed

theorem shadow_wagers_add_up_witness:
  "\<exists>w d. build_shadow_wagers [sample_open_episode, sample_settled_episode] [(''KXNFL'', sample_classification)]
      [(''KXNFL'', dated_context)] = ([w], d)
    \<and> sw_game_date w = ''2026-09-13'' \<and> d ''wagers_built'' = 1 \<and> d ''refused_not_closed'' = 1"
proof -
  let ?cls = "[(''KXNFL'', sample_classification)]" and ?ctxs = "[(''KXNFL'', dated_context)]"
    and ?es = "[sample_open_episode, sample_settled_episode]"
  obtain ws d where run: "build_shadow_wagers ?es ?cls ?ctxs = (ws, d)" by fastforce
  note spec = shadow_wagers_add_up [OF run]
  obtain w where w: "result_of ?cls ?ctxs sample_settled_episode = Inr w" "sw_game_date w = ''2026-09-13''"
    using sample_results(2) by blast
  have ws: "ws = [w]" using spec sample_results(1) w(1) by (simp add: built_def)
  have "d (WAGER_REFUSAL_COUNTERS NOT_CLOSED) = length (filter (\<lambda>e. result_of ?cls ?ctxs e = Inl NOT_CLOSED) ?es)"
    using spec by blast
  then have "d ''refused_not_closed'' = 1" using sample_results(1) w(1) by simp
  then show ?thesis using run ws w(2) spec by auto
qed

section \<open>The date of a combo\<close>

lemma leg_dates_spec:
  "leg_dates resolve_leg tickers acc s = (Inr (Some dates), s') \<longleftrightarrow>
     (\<exists>legs ds. visited resolve_leg tickers s legs s' \<and> map (\<lambda>leg. fst (resolve_game_date (Some leg))) legs = map Some ds
        \<and> dates = fold List.insert ds acc)"
proof (induction tickers arbitrary: acc s)
  case Nil
  show ?case by (auto elim: visited.elims intro!: exI [where x = "[]"])
next
  case (Cons t ts)
  obtain answer s1 where r: "resolve_leg t s = (answer, s1)" by fastforce
  have step: "visited resolve_leg (t # ts) s legs s' \<longleftrightarrow>
      (\<exists>c cs. legs = c # cs \<and> answer = Inr c \<and> visited resolve_leg ts s1 cs s')" for legs
    using r by (cases legs) auto
  show ?case
  proof (cases "\<exists>c d. answer = Inr c \<and> fst (resolve_game_date (Some c)) = Some d")
    case True
    then obtain c d where c: "answer = Inr c" "fst (resolve_game_date (Some c)) = Some d" by blast
    have "leg_dates resolve_leg (t # ts) acc s = (Inr (Some dates), s') \<longleftrightarrow>
        (\<exists>cs ds. visited resolve_leg ts s1 cs s' \<and> map (\<lambda>leg. fst (resolve_game_date (Some leg))) cs = map Some ds
          \<and> dates = fold List.insert ds (List.insert d acc))"
      using Cons.IH [of "List.insert d acc" s1] r c by simp
    also have "\<dots> \<longleftrightarrow> (\<exists>cs ds. visited resolve_leg ts s1 cs s'
        \<and> map (\<lambda>leg. fst (resolve_game_date (Some leg))) (c # cs) = map Some (d # ds)
        \<and> dates = fold List.insert (d # ds) acc)"
      using c(2) by simp
    also have "\<dots> \<longleftrightarrow> (\<exists>legs ds. visited resolve_leg (t # ts) s legs s'
        \<and> map (\<lambda>leg. fst (resolve_game_date (Some leg))) legs = map Some ds \<and> dates = fold List.insert ds acc)"
      unfolding step using c by (auto simp: Cons_eq_map_conv) blast
    finally show ?thesis .
  next
    case False
    then show ?thesis unfolding step using r by (auto simp: Cons_eq_map_conv split: sum.split option.split)
  qed
qed

text \<open>A combo has a contest date exactly when every leg it states is read and establishes that same date.\<close>

theorem combo_date_by_all_its_legs:
  "resolve_combo_game_date (Some ctx) resolve_leg s = (Inr (Some d, source), s') \<longleftrightarrow>
    source = COMBO_LEGS
    \<and> (\<exists>tickers legs. stated_legs ctx = Some tickers \<and> visited resolve_leg tickers s legs s'
        \<and> (\<forall>leg \<in> set legs. fst (resolve_game_date (Some leg)) = Some d))"
proof (cases "stated_legs ctx")
  case None
  then show ?thesis by (auto simp: resolve_combo_game_date_def stated_legs_def Let_def split: if_splits)
next
  case (Some tickers)
  then have ne: "tickers \<noteq> []" and run: "resolve_combo_game_date (Some ctx) resolve_leg s =
      (case leg_dates resolve_leg tickers [] s of
           (Inl e, s) \<Rightarrow> (Inl e, s)
         | (Inr None, s) \<Rightarrow> (Inr (None, NONE), s)
         | (Inr (Some dates), s) \<Rightarrow>
             (Inr (if length dates \<noteq> 1 then (None, NONE) else (Some (hd dates), COMBO_LEGS)), s))"
    by (auto simp: resolve_combo_game_date_def stated_legs_def Let_def split: if_splits)
  have one: "length (fold List.insert ds []) = 1 \<and> hd (fold List.insert ds []) = d \<longleftrightarrow> set ds = {d}" for ds :: "string list"
  proof -
    have "distinct (fold List.insert ds [])" "set (fold List.insert ds []) = set ds"
      by (simp_all add: distinct_fold_insert set_fold_insert)
    then show ?thesis using set_singleton_list [of "fold List.insert ds []" d]
      by (cases "fold List.insert ds []") (auto simp: length_Suc_conv)
  qed
  have "resolve_combo_game_date (Some ctx) resolve_leg s = (Inr (Some d, source), s') \<longleftrightarrow>
      source = COMBO_LEGS \<and> (\<exists>dates. leg_dates resolve_leg tickers [] s = (Inr (Some dates), s') \<and> length dates = 1 \<and> hd dates = d)"
    unfolding run by (auto split: prod.splits sum.splits option.splits)
  also have "\<dots> \<longleftrightarrow> source = COMBO_LEGS \<and> (\<exists>legs ds. visited resolve_leg tickers s legs s'
      \<and> map (\<lambda>leg. fst (resolve_game_date (Some leg))) legs = map Some ds \<and> set ds = {d})"
    unfolding leg_dates_spec using one by metis
  also have "\<dots> \<longleftrightarrow> source = COMBO_LEGS \<and> (\<exists>legs. visited resolve_leg tickers s legs s'
      \<and> (\<forall>leg \<in> set legs. fst (resolve_game_date (Some leg)) = Some d))"
  proof -
    have ne': "visited resolve_leg tickers s legs s' \<Longrightarrow> legs \<noteq> []" for legs using ne by (cases tickers; cases legs) auto
    have "(\<exists>ds. map (\<lambda>leg. fst (resolve_game_date (Some leg))) legs = map Some ds \<and> set ds = {d}) \<longleftrightarrow>
        (\<forall>leg \<in> set legs. fst (resolve_game_date (Some leg)) = Some d)" (is "?A \<longleftrightarrow> ?B") if "legs \<noteq> []" for legs
    proof
      assume ?A
      then obtain ds where ds: "map (\<lambda>leg. fst (resolve_game_date (Some leg))) legs = map Some ds" "set ds = {d}" by blast
      then have "(\<lambda>leg. fst (resolve_game_date (Some leg))) ` set legs = Some ` {d}" by (metis list.set_map)
      then show ?B by auto
    next
      assume ?B
      then have "map (\<lambda>leg. fst (resolve_game_date (Some leg))) legs = map (\<lambda>_. Some d) legs" by simp
      then show ?A using that by (intro exI [where x = "replicate (length legs) d"]) (simp add: map_replicate_const)
    qed
    with ne' show ?thesis by metis
  qed
  finally show ?thesis using Some by simp
qed

end
