(* ===== verification/Receipts.thy ===== *)
theory Receipts
  imports PyText
begin

text \<open>
  \<^verbatim>\<open>receipts.py\<close>: what a destination's importer says it did, in one vocabulary. The three
  shapes it reads (a list of rows, an object with rows, an object of counts) come from JSON, so every field
  is a decoded value and every coercion is Python's.
\<close>

section \<open>Python on decoded values\<close>

text \<open>\<open>a or b\<close>.\<close>

definition por :: "json \<Rightarrow> json \<Rightarrow> json" where
  "por a b = (if truthy a then a else b)"

text \<open>Iterating a value: a string yields its characters, an object its keys.\<close>

definition py_iter :: "json \<Rightarrow> json list result" where
  "py_iter v = (case v of
       JList xs \<Rightarrow> Inr xs
     | JStr s \<Rightarrow> Inr (map (\<lambda>c. JStr [c]) s)
     | JObj ob \<Rightarrow> Inr (map (\<lambda>(k, _). JStr k) ob)
     | _ \<Rightarrow> Inl TypeError)"

text \<open>The text \<open>int(str)\<close> accepts: an optional sign, then digits with single underscores between them.\<close>

fun int_digits :: "bool \<Rightarrow> string \<Rightarrow> string option" where
  "int_digits after_digit [] = (if after_digit then Some [] else None)"
| "int_digits after_digit (c # cs) =
     (if is_digit c then map_option (\<lambda>ds. c # ds) (int_digits True cs)
      else if c = CHR ''_'' \<and> after_digit then int_digits False cs
      else None)"

definition int_of_text :: "string \<Rightarrow> int option" where
  "int_of_text t =
     (let s = py_strip t in
      case s of
        [] \<Rightarrow> None
      | c # cs \<Rightarrow>
          if c = CHR ''-'' then map_option (\<lambda>ds. - int (digits_val ds)) (int_digits False cs)
          else map_option (\<lambda>ds. int (digits_val ds)) (int_digits False (if c = CHR ''+'' then cs else s)))"

definition py_int :: "json \<Rightarrow> int result" where
  "py_int v = (case v of
       JBool b \<Rightarrow> Inr (if b then 1 else 0)
     | JInt i \<Rightarrow> Inr i
     | JFloat x \<Rightarrow> Inr (dtrunc x)
     | JStr s \<Rightarrow> (case int_of_text s of None \<Rightarrow> Inl ValueError | Some i \<Rightarrow> Inr i)
     | _ \<Rightarrow> Inl TypeError)"

section \<open>Receipts\<close>

definition NO_JUDGEMENT_VERDICTS :: "string list" where
  "NO_JUDGEMENT_VERDICTS = [''NEW'', ''DUPLICATE_NOOP'', ''CORRECTED'']"

definition IDEMPOTENT_RERUN_VERDICTS :: "string list" where
  "IDEMPOTENT_RERUN_VERDICTS = [''DUPLICATE_NOOP'']"

record receipt =
  rc_source_key :: json
  rc_identity :: json
  rc_verdict :: "string option"
  rc_success :: bool
  rc_conflicting_fields :: "string list"
  rc_reason :: json

definition needs_judgement :: "receipt \<Rightarrow> bool" where
  "needs_judgement r \<longleftrightarrow> rc_verdict r \<notin> Some ` set NO_JUDGEMENT_VERDICTS"

definition joption :: "string option \<Rightarrow> json" where
  "joption s = (case s of None \<Rightarrow> JNull | Some t \<Rightarrow> JStr t)"

definition receipt_as_dict :: "receipt \<Rightarrow> jobj" where
  "receipt_as_dict r =
     [(''sourceBetKey'', rc_source_key r), (''betId'', rc_identity r), (''duplicateStatus'', joption (rc_verdict r)),
      (''success'', JBool (rc_success r)),
      (''conflictingFields'', JList (map (\<lambda>f. JObj [(''field'', JStr f)]) (rc_conflicting_fields r))),
      (''reason'', rc_reason r)]"

text \<open>The first of several keys with a value that is not null.\<close>

definition first_not_none :: "jobj \<Rightarrow> string list \<Rightarrow> json" where
  "first_not_none row keys = (case filter (\<lambda>v. v \<noteq> JNull) (map (jget row) keys) of [] \<Rightarrow> JNull | v # _ \<Rightarrow> v)"

definition conflict_name :: "json \<Rightarrow> string list" where
  "conflict_name entry =
     (case entry of
        JObj ob \<Rightarrow> (let name = por (jget ob ''field'') (jget ob ''name'') in if truthy name then [py_str name] else [])
      | _ \<Rightarrow> if truthy entry then [py_str entry] else [])"

definition from_row :: "jobj \<Rightarrow> receipt result" where
  "from_row row =
     rbind (py_iter (por (por (jget row ''conflictingFields'') (jget row ''conflicting_fields'')) (JList [])))
       (\<lambda>conflicting.
     let verdict = first_not_none row [''duplicateStatus'', ''duplicate_status'', ''status''] in
     Inr \<lparr>rc_source_key = first_not_none row [''sourceBetKey'', ''source_bet_key''],
          rc_identity = first_not_none row [''betId'', ''bet_id'', ''wager_id'', ''wagerId'', ''imported_wager_id'', ''settlement_id''],
          rc_verdict = (if verdict = JNull then None else Some (py_str verdict)),
          rc_success = (case dget row ''success'' of None \<Rightarrow> verdict \<noteq> JNull | Some v \<Rightarrow> truthy v),
          rc_conflicting_fields = sorted_set (concat (map conflict_name conflicting)),
          rc_reason = first_not_none row [''reason'', ''refusal'', ''error'']\<rparr>)"

definition from_rows :: "json list \<Rightarrow> receipt list result" where
  "from_rows rows = traverse from_row (concat (map (\<lambda>v. case v of JObj ob \<Rightarrow> [ob] | _ \<Rightarrow> []) rows))"

definition refusal_receipt :: "json \<Rightarrow> receipt" where
  "refusal_receipt entry =
     (let reason = (case entry of JObj ob \<Rightarrow> jget ob ''reason'' | _ \<Rightarrow> JStr (py_str entry)) in
      \<lparr>rc_source_key = JNull, rc_identity = JNull, rc_verdict = Some ''REFUSED'', rc_success = False,
       rc_conflicting_fields = [], rc_reason = (if truthy reason then JStr (py_str reason) else JNull)\<rparr>)"

definition counted_receipts :: "jobj \<Rightarrow> json list \<Rightarrow> receipt list result" where
  "counted_receipts payload written =
     rbind (py_int (por (jget payload ''alreadyPresent'') (JInt 0))) (\<lambda>already.
     rbind (py_iter (por (jget payload ''refusals'') (JList []))) (\<lambda>refusals.
     Inr (map (\<lambda>key. \<lparr>rc_source_key = JStr (py_str key), rc_identity = JNull, rc_verdict = Some ''NEW'',
                rc_success = True, rc_conflicting_fields = [], rc_reason = JNull\<rparr>) written
        @ replicate (nat already) \<lparr>rc_source_key = JNull, rc_identity = JNull, rc_verdict = Some ''DUPLICATE_NOOP'',
            rc_success = True, rc_conflicting_fields = [], rc_reason = JNull\<rparr>
        @ map refusal_receipt refusals)))"

definition normalise :: "json \<Rightarrow> receipt list result" where
  "normalise payload = (case payload of
       JList rows \<Rightarrow> from_rows rows
     | JObj ob \<Rightarrow> (case jget ob ''rows'' of
           JList rows \<Rightarrow> from_rows rows
         | _ \<Rightarrow> (case jget ob ''keysWritten'' of
               JList written \<Rightarrow> counted_receipts ob written
             | _ \<Rightarrow> Inr []))
     | _ \<Rightarrow> Inr [])"

definition option_text :: "string option \<Rightarrow> string" where
  "option_text s = (case s of None \<Rightarrow> ''None'' | Some t \<Rightarrow> t)"

definition verdict_counts :: "receipt list \<Rightarrow> (string, nat) dict" where
  "verdict_counts rs = sort_key fst (foldl (\<lambda>d r. dbump (option_text (rc_verdict r)) d) [] rs)"

definition conflicting_field_names :: "receipt list \<Rightarrow> string list" where
  "conflicting_field_names rs = sorted_set (concat (map rc_conflicting_fields rs))"

section \<open>Normalizing is not interpreting\<close>

text \<open>The receipts of an already normalized batch: writing them out and reading them back changes nothing.\<close>

definition receipt_wf :: "receipt \<Rightarrow> bool" where
  "receipt_wf r \<longleftrightarrow> sorted (rc_conflicting_fields r) \<and> distinct (rc_conflicting_fields r)
     \<and> [] \<notin> set (rc_conflicting_fields r)"

lemma jget_simps [simp]: "jget ((k, v) # ob) k' = (if k = k' then v else jget ob k')" "jget [] k' = JNull"
  by (simp_all add: jget_def)

lemma conflict_name_field [simp]: "f \<noteq> [] \<Longrightarrow> conflict_name (JObj [(''field'', JStr f)]) = [f]"
  by (simp add: conflict_name_def por_def)

lemma conflict_names: "[] \<notin> set fs \<Longrightarrow> concat (map conflict_name (map (\<lambda>f. JObj [(''field'', JStr f)]) fs)) = fs"
  by (induction fs) auto

lemma sorted_set_id: "sorted xs \<Longrightarrow> distinct xs \<Longrightarrow> sorted_set xs = xs"
  by (simp add: sorted_set_def distinct_remdups_id sorted_sort_id)

lemma first_not_none_hit [simp]:
  "first_not_none ((k, v) # ob) (k # ks) = (if v = JNull then first_not_none ((k, v) # ob) ks else v)"
  by (simp add: first_not_none_def)

lemma from_row_as_dict:
  assumes "receipt_wf r"
  shows "from_row (receipt_as_dict r) = Inr r"
proof -
  let ?fs = "map (\<lambda>f. JObj [(''field'', JStr f)]) (rc_conflicting_fields r)"
  have "por (por (JList ?fs) JNull) (JList []) = JList ?fs"
    by (simp add: por_def)
  then have iter: "py_iter (por (por (JList ?fs) JNull) (JList [])) = Inr ?fs"
    by (simp only:) (simp add: py_iter_def)
  have names: "sorted_set (concat (map conflict_name ?fs)) = rc_conflicting_fields r"
    using assms by (simp only: receipt_wf_def conflict_names sorted_set_id not_False_eq_True)
  have get: "jget (receipt_as_dict r) ''conflictingFields'' = JList ?fs" "jget (receipt_as_dict r) ''conflicting_fields'' = JNull"
    "dget (receipt_as_dict r) ''success'' = Some (JBool (rc_success r))"
    by (simp_all add: receipt_as_dict_def)
  have first: "first_not_none (receipt_as_dict r) [''duplicateStatus'', ''duplicate_status'', ''status''] = joption (rc_verdict r)"
    "first_not_none (receipt_as_dict r) [''sourceBetKey'', ''source_bet_key''] = rc_source_key r"
    "first_not_none (receipt_as_dict r) [''betId'', ''bet_id'', ''wager_id'', ''wagerId'', ''imported_wager_id'', ''settlement_id'']
      = rc_identity r"
    "first_not_none (receipt_as_dict r) [''reason'', ''refusal'', ''error''] = rc_reason r"
    by (simp_all add: receipt_as_dict_def first_not_none_def)
  show ?thesis
    unfolding from_row_def get iter first rbind_simps names Let_def
    by (cases "rc_verdict r") (simp_all add: joption_def)
qed

text \<open>A true value is never written as the empty text, so a named field keeps a name.\<close>

lemma show_nat_nonempty [simp]: "show_nat n \<noteq> []"
  by (subst show_nat.simps) simp

lemma show_float_nonempty: "show_float x \<noteq> []"
  by (simp add: show_float_def Let_def)

lemma py_repr_nonempty: "py_repr v \<noteq> []"
  by (cases v) (simp_all add: show_int_def show_float_nonempty repr_str_def Let_def)

lemma py_str_nonempty: "truthy v \<Longrightarrow> py_str v \<noteq> []"
  by (cases v) (simp_all add: py_str_def py_repr_nonempty del: py_repr.simps)

lemma conflict_name_nonempty: "[] \<notin> set (conflict_name entry)"
  using py_str_nonempty [THEN not_sym] by (fastforce simp: conflict_name_def Let_def split: json.splits)

lemma from_row_wf: "from_row row = Inr r \<Longrightarrow> receipt_wf r"
  by (auto simp: from_row_def receipt_wf_def Let_def result_simps conflict_name_nonempty)

lemma from_rows_wf: "from_rows rows = Inr rs \<Longrightarrow> \<forall>r \<in> set rs. receipt_wf r"
  unfolding from_rows_def traverse_Inr_iff
  by (auto simp: list_all2_conv_all_nth in_set_conv_nth dest!: from_row_wf)

lemma normalise_wf:
  assumes "normalise payload = Inr rs"
  shows "\<forall>r \<in> set rs. receipt_wf r"
proof -
  have counted: "\<forall>r \<in> set rs. receipt_wf r" if "counted_receipts ob written = Inr rs" for ob written
    using that by (auto simp: counted_receipts_def result_simps receipt_wf_def refusal_receipt_def Let_def)
  then show ?thesis
    using assms from_rows_wf by (auto simp: normalise_def split: json.splits)
qed

lemma normalise_as_dicts:
  assumes "\<forall>r \<in> set rs. receipt_wf r"
  shows "normalise (JList (map (\<lambda>r. JObj (receipt_as_dict r)) rs)) = Inr rs"
proof -
  have "concat (map (\<lambda>v. case v of JObj ob \<Rightarrow> [ob] | _ \<Rightarrow> []) (map (\<lambda>r. JObj (receipt_as_dict r)) rs)) = map receipt_as_dict rs"
    by (induction rs) simp_all
  moreover have "traverse from_row (map receipt_as_dict rs) = Inr rs"
    using assms unfolding traverse_Inr_iff by (auto simp: list_all2_conv_all_nth from_row_as_dict)
  ultimately show ?thesis by (simp add: normalise_def from_rows_def)
qed

text \<open>C27: what the gate reads is what the importer said. The merge script normalizes the importer's report, writes the
  receipts out as dictionaries and hands them to the gate, which normalizes them again; whatever shape the report
  has, the second pass returns the receipts of the first, unchanged and in order.\<close>
theorem receipts_survive_the_gate:
  assumes "normalise payload = Inr rs"
  shows "normalise (JList (map (\<lambda>r. JObj (receipt_as_dict r)) rs)) = Inr rs"
  using normalise_wf [OF assms] by (rule normalise_as_dicts)

theorem receipts_survive_the_gate_witness:
  "\<exists>rs. normalise (JObj [(''keysWritten'', JList [JStr ''K'']), (''alreadyPresent'', JInt 1)]) = Inr rs
    \<and> length rs = 2 \<and> normalise (JList (map (\<lambda>r. JObj (receipt_as_dict r)) rs)) = Inr rs"
proof -
  obtain rs where rs: "normalise (JObj [(''keysWritten'', JList [JStr ''K'']), (''alreadyPresent'', JInt 1)]) = Inr rs"
    and "length rs = 2"
    by (simp add: normalise_def counted_receipts_def por_def py_int_def py_iter_def)
  with receipts_survive_the_gate [OF rs] show ?thesis by blast
qed

end
