(* ===== verification/Automerge.thy ===== *)
theory Automerge
  imports Destinations Receipts
begin

text \<open>
  \<^verbatim>\<open>automerge.py\<close>: the gate that decides whether a delivered proposal may land without a human.
  Every one of the twelve conditions is evaluated and put into exactly one of three buckets; MERGE only when
  nothing failed and nothing is pending. The reasons the gate prints beside its verdict are texts and are not
  modelled; the buckets are.

  The lemmas: each condition in its three outcomes; the assertion on the buckets never fires; what a
  MERGE verdict guarantees about the pull request, the import, the files and the rows.
\<close>

section \<open>Branches and paths\<close>

definition BRANCH_PREFIX :: string where "BRANCH_PREFIX = ''kalshi-router/''"
definition WAGERS :: string where "WAGERS = ''wagers''"
definition SETTLEMENTS :: string where "SETTLEMENTS = ''settlements''"

definition router_branch_for :: "string \<Rightarrow> string \<Rightarrow> string result" where
  "router_branch_for sp kind =
     (if kind \<notin> {WAGERS, SETTLEMENTS} then Inl ValueError
      else Inr ((if kind = WAGERS then BRANCH_PREFIX else BRANCH_PREFIX @ ''settle-'') @ sp))"

definition router_branches :: "string list result" where
  "router_branches =
     rbind (traverse (\<lambda>sp. router_branch_for (sport_value sp) WAGERS) (dkeys DESTINATION_REPOS)) (\<lambda>ws.
     rbind (traverse (\<lambda>sp. router_branch_for (sport_value sp) SETTLEMENTS)
       (dkeys (filter (\<lambda>(_, p). pr_settlement_importer p \<noteq> None) PROFILES))) (\<lambda>ss.
     Inr (sorted_set (ws @ ss))))"

text \<open>\<open>except UnknownDestinationError\<close> around a reading of the profile.\<close>

definition profile_or :: "'a \<Rightarrow> (destination_profile \<Rightarrow> 'a) \<Rightarrow> string \<Rightarrow> 'a" where
  "profile_or d f sp = (case profile_for sp of Inl _ \<Rightarrow> d | Inr p \<Rightarrow> f p)"

definition mergeable_paths_for :: "string \<Rightarrow> string list" where
  "mergeable_paths_for = profile_or [] pr_mergeable_paths"

definition is_mergeable_path :: "string \<Rightarrow> string \<Rightarrow> bool" where
  "is_mergeable_path sp path =
     profile_or False (\<lambda>p. path \<in> set (pr_mergeable_paths p) \<or> list_ex (\<lambda>pat. fullmatch pat path) (pr_mergeable_patterns p)) sp"

definition record_layout_for :: "string \<Rightarrow> string" where
  "record_layout_for = profile_or ''jsonl'' pr_record_layout"

definition ledger_pathspecs_for :: "string \<Rightarrow> string list" where
  "ledger_pathspecs_for =
     profile_or [] (\<lambda>p. if pr_record_layout p = ''json_per_file'' then pr_committable_prefixes p
       else sorted_set (pr_mergeable_paths p))"

definition ledger_branch_runs_ci :: "string \<Rightarrow> bool" where
  "ledger_branch_runs_ci = profile_or True pr_ledger_branch_runs_ci"

definition ledger_branch_for :: "string \<Rightarrow> string" where
  "ledger_branch_for = profile_or ''main'' pr_ledger_branch"

definition TRANSIENT_MERGE_STATES :: "string list" where
  "TRANSIENT_MERGE_STATES = [''unknown'', ''behind'', ''dirty'']"

definition CHECK_DERIVED_MERGE_STATES :: "string list" where
  "CHECK_DERIVED_MERGE_STATES = [''unstable'']"

definition PASSING_CONCLUSIONS :: "string list" where
  "PASSING_CONCLUSIONS = [''success'', ''skipped'', ''neutral'']"

section \<open>Facts and verdict\<close>

datatype gate_verdict = MERGE | WAIT | REFUSE

datatype merge_condition =
    PULL_REQUEST_EXISTS
  | PULL_REQUEST_IS_OPEN_AND_NOT_A_DRAFT
  | BRANCH_ORIGINATED_FROM_THE_ROUTER_WORKFLOW
  | HEAD_IS_THE_COMMIT_THIS_RUN_VERIFIED
  | IMPORTER_REFUSED_NOTHING
  | EVERY_ROW_NEEDED_NO_HUMAN_JUDGEMENT
  | THE_IMPORT_IS_IDEMPOTENT
  | ONLY_CANONICAL_WAGER_FILES_CHANGED
  | THE_LEDGER_DIFF_IS_APPEND_ONLY
  | EVERY_ADDED_ROW_CARRIES_THE_ROUTER_IDENTITY
  | CONTINUOUS_INTEGRATION_IS_GREEN
  | THE_DESTINATION_BRANCH_IS_CLEANLY_MERGEABLE

definition CONDITIONS :: "merge_condition list" where
  "CONDITIONS = [PULL_REQUEST_EXISTS, PULL_REQUEST_IS_OPEN_AND_NOT_A_DRAFT,
     BRANCH_ORIGINATED_FROM_THE_ROUTER_WORKFLOW, HEAD_IS_THE_COMMIT_THIS_RUN_VERIFIED, IMPORTER_REFUSED_NOTHING,
     EVERY_ROW_NEEDED_NO_HUMAN_JUDGEMENT, THE_IMPORT_IS_IDEMPOTENT, ONLY_CANONICAL_WAGER_FILES_CHANGED,
     THE_LEDGER_DIFF_IS_APPEND_ONLY, EVERY_ADDED_ROW_CARRIES_THE_ROUTER_IDENTITY,
     CONTINUOUS_INTEGRATION_IS_GREEN, THE_DESTINATION_BRANCH_IS_CLEANLY_MERGEABLE]"

type_synonym check_run = "string \<times> string option \<times> string option"

record merge_facts =
  mf_sport :: string
  mf_destination_repo :: string
  mf_pull_number :: "int option"
  mf_state :: "string option"
  mf_draft :: "bool option"
  mf_head_ref :: "string option"
  mf_head_sha :: "string option"
  mf_head_repo :: "string option"
  mf_base_ref :: "string option"
  mf_mergeable :: "bool option"
  mf_mergeable_state :: "string option"
  mf_verified_sha :: "string option"
  mf_changed_files :: "string list"
  mf_added_ledger_rows :: "jobj list"
  mf_removed_ledger_rows :: "string list"
  mf_receipts :: "jobj list"
  mf_rerun_receipts :: "jobj list"
  mf_rerun_changed_the_tree :: "bool option"
  mf_check_runs :: "check_run list"
  mf_partial_delivery :: bool
  mf_destination_validator_passed :: "bool option"
  mf_branch_kind :: string

record merge_verdict =
  mv_verdict :: gate_verdict
  mv_passed :: "merge_condition list"
  mv_failed :: "merge_condition list"
  mv_waiting_on :: "merge_condition list"

definition may_merge :: "merge_verdict \<Rightarrow> bool" where
  "may_merge v \<longleftrightarrow> mv_verdict v = MERGE"

definition nonempty_text :: "string option \<Rightarrow> bool" where
  "nonempty_text s \<longleftrightarrow> s \<noteq> None \<and> s \<noteq> Some []"

definition check_state :: "check_run list \<Rightarrow> string list \<times> string list" where
  "check_state runs =
     (map (\<lambda>(name, _, _). name) (filter (\<lambda>(_, status, _). status \<noteq> Some ''completed'') runs),
      map (\<lambda>(name, _, conclusion). name @ ''='' @ option_text conclusion)
        (filter (\<lambda>(_, status, conclusion). status = Some ''completed''
            \<and> conclusion \<notin> Some ` set PASSING_CONCLUSIONS) runs))"

section \<open>The conditions\<close>

text \<open>The three buckets, filled in the order of the code.\<close>

record buckets =
  b_passed :: "merge_condition list"
  b_failed :: "merge_condition list"
  b_waiting :: "merge_condition list"

definition pass_it :: "merge_condition \<Rightarrow> buckets \<Rightarrow> buckets" where
  "pass_it c b = b\<lparr>b_passed := b_passed b @ [c]\<rparr>"

definition refuse_it :: "merge_condition \<Rightarrow> buckets \<Rightarrow> buckets" where
  "refuse_it c b = b\<lparr>b_failed := b_failed b @ [c]\<rparr>"

definition wait_for :: "merge_condition \<Rightarrow> buckets \<Rightarrow> buckets" where
  "wait_for c b = b\<lparr>b_waiting := b_waiting b @ [c]\<rparr>"

definition check_pull_request :: "merge_facts \<Rightarrow> buckets \<Rightarrow> buckets" where
  "check_pull_request f b =
     (if mf_pull_number f = None then wait_for PULL_REQUEST_EXISTS b else pass_it PULL_REQUEST_EXISTS b)"

definition check_open :: "merge_facts \<Rightarrow> buckets \<Rightarrow> buckets" where
  "check_open f b =
     (if mf_state f \<noteq> Some ''open'' then wait_for PULL_REQUEST_IS_OPEN_AND_NOT_A_DRAFT b
      else if mf_draft f = Some True then refuse_it PULL_REQUEST_IS_OPEN_AND_NOT_A_DRAFT b
      else pass_it PULL_REQUEST_IS_OPEN_AND_NOT_A_DRAFT b)"

definition check_provenance :: "merge_facts \<Rightarrow> buckets \<Rightarrow> buckets result" where
  "check_provenance f b =
     rbind (router_branch_for (mf_sport f) (mf_branch_kind f)) (\<lambda>expected_branch.
     Inr (if mf_head_ref f \<noteq> Some expected_branch
            \<or> nonempty_text (mf_head_repo f) \<and> mf_head_repo f \<noteq> Some (mf_destination_repo f)
            \<or> mf_base_ref f \<noteq> Some (ledger_branch_for (mf_sport f))
          then refuse_it BRANCH_ORIGINATED_FROM_THE_ROUTER_WORKFLOW b
          else pass_it BRANCH_ORIGINATED_FROM_THE_ROUTER_WORKFLOW b))"

definition check_head :: "merge_facts \<Rightarrow> buckets \<Rightarrow> buckets" where
  "check_head f b =
     (if \<not> nonempty_text (mf_head_sha f) \<or> \<not> nonempty_text (mf_verified_sha f)
      then wait_for HEAD_IS_THE_COMMIT_THIS_RUN_VERIFIED b
      else if mf_head_sha f \<noteq> mf_verified_sha f then wait_for HEAD_IS_THE_COMMIT_THIS_RUN_VERIFIED b
      else pass_it HEAD_IS_THE_COMMIT_THIS_RUN_VERIFIED b)"

definition check_importer :: "merge_facts \<Rightarrow> receipt list \<Rightarrow> buckets \<Rightarrow> buckets" where
  "check_importer f receipts b =
     (if receipts = [] then
        wait_for EVERY_ROW_NEEDED_NO_HUMAN_JUDGEMENT (wait_for IMPORTER_REFUSED_NOTHING b)
      else
        let b = (if list_ex (\<lambda>r. \<not> rc_success r) receipts \<or> mf_partial_delivery f
                 then refuse_it IMPORTER_REFUSED_NOTHING b else pass_it IMPORTER_REFUSED_NOTHING b);
            judged = list_ex needs_judgement receipts;
            conflicting = list_ex (\<lambda>r. rc_conflicting_fields r \<noteq> []) receipts;
            missing_identity = list_ex (\<lambda>r. \<not> truthy (rc_identity r)) receipts;
            names = conflicting_field_names receipts
        in if judged \<or> conflicting \<or> missing_identity \<or> names \<noteq> []
           then refuse_it EVERY_ROW_NEEDED_NO_HUMAN_JUDGEMENT b
           else pass_it EVERY_ROW_NEEDED_NO_HUMAN_JUDGEMENT b)"

text \<open>\<open>{r.source_key: r.identity for r in receipts}\<close> and its \<open>get\<close>: the last receipt of a key wins.\<close>

definition identity_of_key :: "receipt list \<Rightarrow> json \<Rightarrow> json" where
  "identity_of_key receipts key =
     (case find (\<lambda>r. py_eq (rc_source_key r) key) (rev receipts) of None \<Rightarrow> JNull | Some r \<Rightarrow> rc_identity r)"

definition check_idempotent :: "merge_facts \<Rightarrow> receipt list \<Rightarrow> receipt list \<Rightarrow> buckets \<Rightarrow> buckets result" where
  "check_idempotent f receipts rerun b =
     (case mf_rerun_changed_the_tree f of
        None \<Rightarrow> Inr (wait_for THE_IMPORT_IS_IDEMPOTENT b)
      | Some changed \<Rightarrow>
          if rerun = [] then Inr (wait_for THE_IMPORT_IS_IDEMPOTENT b)
          else if list_ex (\<lambda>r. \<not> hashable (rc_source_key r)) (receipts @ rerun) then Inl TypeError
          else
            let offenders = list_ex (\<lambda>r. rc_verdict r \<notin> Some ` set IDEMPOTENT_RERUN_VERDICTS) rerun;
                drifted = list_ex (\<lambda>r. \<not> py_eq (identity_of_key receipts (rc_source_key r)) (rc_identity r)) rerun
            in Inr (if changed \<or> offenders \<or> length rerun \<noteq> length receipts \<or> drifted
                    then refuse_it THE_IMPORT_IS_IDEMPOTENT b else pass_it THE_IMPORT_IS_IDEMPOTENT b))"

definition check_files :: "merge_facts \<Rightarrow> buckets \<Rightarrow> buckets" where
  "check_files f b =
     (if mf_changed_files f = [] then wait_for ONLY_CANONICAL_WAGER_FILES_CHANGED b
      else if list_ex (\<lambda>p. \<not> is_mergeable_path (mf_sport f) p) (mf_changed_files f)
      then refuse_it ONLY_CANONICAL_WAGER_FILES_CHANGED b
      else pass_it ONLY_CANONICAL_WAGER_FILES_CHANGED b)"

definition check_append_only :: "merge_facts \<Rightarrow> buckets \<Rightarrow> buckets" where
  "check_append_only f b =
     (if mf_removed_ledger_rows f \<noteq> [] then refuse_it THE_LEDGER_DIFF_IS_APPEND_ONLY b
      else pass_it THE_LEDGER_DIFF_IS_APPEND_ONLY b)"

definition batch_of :: "jobj \<Rightarrow> json" where
  "batch_of row = por (jget row ''importBatchId'') (jget row ''import_batch_id'')"

definition identity_of :: "jobj \<Rightarrow> json" where
  "identity_of row =
     por (por (por (por (jget row ''betId'') (jget row ''wager_id'')) (jget row ''imported_wager_id''))
       (jget row ''settlement_id'')) (jget row ''amendment_id'')"

definition key_of :: "jobj \<Rightarrow> json" where
  "key_of row = por (jget row ''sourceBetKey'') (jget row ''source_bet_key'')"

definition router_batch :: "jobj \<Rightarrow> bool" where
  "router_batch row \<longleftrightarrow> py_eq (batch_of row) (JStr ROUTER_IMPORT_BATCH_ID)"

definition check_added_rows :: "merge_facts \<Rightarrow> receipt list \<Rightarrow> buckets \<Rightarrow> buckets result" where
  "check_added_rows f receipts b =
     (if mf_added_ledger_rows f = [] then Inr (wait_for EVERY_ADDED_ROW_CARRIES_THE_ROUTER_IDENTITY b)
      else
        let rows = mf_added_ledger_rows f;
            settlements = (mf_branch_kind f = SETTLEMENTS);
            foreign = list_ex (\<lambda>row. (settlements \<longrightarrow> batch_of row \<noteq> JNull) \<and> \<not> router_batch row) rows;
            unidentified = list_ex (\<lambda>row. \<not> truthy (identity_of row) \<or> \<not> truthy (key_of row)) rows;
            receipt_keys = filter truthy (map rc_source_key receipts)
        in if list_ex (\<lambda>k. \<not> hashable k) receipt_keys
             \<or> receipt_keys \<noteq> [] \<and> list_ex (\<lambda>row. \<not> hashable (key_of row)) rows then Inl TypeError
           else
             let unreceipted = (if receipt_keys \<noteq> []
                   then list_ex (\<lambda>row. \<not> list_ex (\<lambda>k. py_eq (key_of row) k) receipt_keys) rows
                   else settlements)
             in Inr (if foreign \<or> unidentified \<or> unreceipted
                     then refuse_it EVERY_ADDED_ROW_CARRIES_THE_ROUTER_IDENTITY b
                     else pass_it EVERY_ADDED_ROW_CARRIES_THE_ROUTER_IDENTITY b))"

definition check_ci :: "merge_facts \<Rightarrow> buckets \<Rightarrow> buckets" where
  "check_ci f b =
     (if \<not> ledger_branch_runs_ci (mf_sport f) then
        (case mf_destination_validator_passed f of
           None \<Rightarrow> wait_for CONTINUOUS_INTEGRATION_IS_GREEN b
         | Some ok \<Rightarrow> if ok then pass_it CONTINUOUS_INTEGRATION_IS_GREEN b
                      else refuse_it CONTINUOUS_INTEGRATION_IS_GREEN b)
      else if mf_check_runs f = [] then wait_for CONTINUOUS_INTEGRATION_IS_GREEN b
      else (case check_state (mf_check_runs f) of (pending, broken) \<Rightarrow>
        if broken \<noteq> [] then refuse_it CONTINUOUS_INTEGRATION_IS_GREEN b
        else if pending \<noteq> [] then wait_for CONTINUOUS_INTEGRATION_IS_GREEN b
        else pass_it CONTINUOUS_INTEGRATION_IS_GREEN b))"

definition check_mergeable :: "merge_facts \<Rightarrow> buckets \<Rightarrow> buckets" where
  "check_mergeable f b =
     (let c = THE_DESTINATION_BRANCH_IS_CLEANLY_MERGEABLE in
      case (mf_mergeable f, mf_mergeable_state f) of
        (Some mergeable, Some state) \<Rightarrow>
          if state = ''unknown'' then wait_for c b
          else if \<not> mergeable \<or> state \<in> set TRANSIENT_MERGE_STATES then wait_for c b
          else if state \<in> set CHECK_DERIVED_MERGE_STATES then
            (case check_state (mf_check_runs f) of (pending, broken) \<Rightarrow>
              if broken \<noteq> [] then refuse_it c b
              else if pending \<noteq> [] \<or> mf_check_runs f = [] then wait_for c b
              else refuse_it c b)
          else if state \<noteq> ''clean'' then refuse_it c b
          else pass_it c b
      | _ \<Rightarrow> wait_for c b)"

definition evaluate :: "merge_facts \<Rightarrow> merge_verdict result" where
  "evaluate f =
     (let b = \<lparr>b_passed = [], b_failed = [], b_waiting = []\<rparr>;
          b = check_pull_request f b;
          b = check_open f b
      in rbind (check_provenance f b) (\<lambda>b.
      let b = check_head f b in
      rbind (normalise (JList (map JObj (mf_receipts f)))) (\<lambda>receipts.
      let b = check_importer f receipts b in
      rbind (normalise (JList (map JObj (mf_rerun_receipts f)))) (\<lambda>rerun.
      rbind (check_idempotent f receipts rerun b) (\<lambda>b.
      let b = check_files f b;
          b = check_append_only f b
      in rbind (check_added_rows f receipts b) (\<lambda>b.
      let b = check_ci f b;
          b = check_mergeable f b
      in if length (b_passed b) + length (b_failed b) + length (b_waiting b) \<noteq> length CONDITIONS then Inl AssertionError
         else Inr \<lparr>mv_verdict = (if b_failed b \<noteq> [] then REFUSE else if b_waiting b \<noteq> [] then WAIT else MERGE),
                mv_passed = b_passed b, mv_failed = b_failed b, mv_waiting_on = b_waiting b\<rparr>))))))"

section \<open>Every condition reaches one bucket\<close>

definition b_all :: "buckets \<Rightarrow> merge_condition multiset" where
  "b_all b = mset (b_passed b) + mset (b_failed b) + mset (b_waiting b)"

lemma b_all_moves [simp]:
  "b_all (pass_it c b) = add_mset c (b_all b)" "b_all (refuse_it c b) = add_mset c (b_all b)"
  "b_all (wait_for c b) = add_mset c (b_all b)"
  by (simp_all add: b_all_def pass_it_def refuse_it_def wait_for_def)

lemma b_all_steps:
  "b_all (check_pull_request f b) = add_mset PULL_REQUEST_EXISTS (b_all b)"
  "b_all (check_open f b) = add_mset PULL_REQUEST_IS_OPEN_AND_NOT_A_DRAFT (b_all b)"
  "b_all (check_head f b) = add_mset HEAD_IS_THE_COMMIT_THIS_RUN_VERIFIED (b_all b)"
  "b_all (check_importer f rs b) =
     add_mset IMPORTER_REFUSED_NOTHING (add_mset EVERY_ROW_NEEDED_NO_HUMAN_JUDGEMENT (b_all b))"
  "b_all (check_files f b) = add_mset ONLY_CANONICAL_WAGER_FILES_CHANGED (b_all b)"
  "b_all (check_append_only f b) = add_mset THE_LEDGER_DIFF_IS_APPEND_ONLY (b_all b)"
  "b_all (check_ci f b) = add_mset CONTINUOUS_INTEGRATION_IS_GREEN (b_all b)"
  "b_all (check_mergeable f b) = add_mset THE_DESTINATION_BRANCH_IS_CLEANLY_MERGEABLE (b_all b)"
  by (simp_all add: check_pull_request_def check_open_def check_head_def check_importer_def check_files_def
      check_append_only_def check_ci_def check_mergeable_def Let_def add_mset_commute split: option.split prod.split)

lemma b_all_results:
  "check_provenance f b = Inr b' \<Longrightarrow> b_all b' = add_mset BRANCH_ORIGINATED_FROM_THE_ROUTER_WORKFLOW (b_all b)"
  "check_idempotent f rs rr b = Inr b' \<Longrightarrow> b_all b' = add_mset THE_IMPORT_IS_IDEMPOTENT (b_all b)"
  "check_added_rows f rs b = Inr b' \<Longrightarrow> b_all b' = add_mset EVERY_ADDED_ROW_CARRIES_THE_ROUTER_IDENTITY (b_all b)"
  by (auto simp: check_provenance_def check_idempotent_def check_added_rows_def result_simps Let_def
      split: option.splits if_splits)

lemma b_all_length: "length (b_passed b) + length (b_failed b) + length (b_waiting b) = size (b_all b)"
  by (simp add: b_all_def)

lemma normalise_errors: "normalise v = Inl e \<Longrightarrow> e = TypeError \<or> e = ValueError"
proof -
  have iter: "py_iter v = Inl e \<Longrightarrow> e = TypeError" for v and e :: py_error
    by (auto simp: py_iter_def split: json.splits)
  have int: "py_int v = Inl e \<Longrightarrow> e = TypeError \<or> e = ValueError" for v and e :: py_error
    by (auto simp: py_int_def split: json.splits option.splits)
  have rows: "from_rows vs = Inl e \<Longrightarrow> e = TypeError" for vs and e :: py_error
    by (auto simp: from_rows_def from_row_def Let_def result_simps dest!: traverse_Inl iter)
  show "normalise v = Inl e \<Longrightarrow> e = TypeError \<or> e = ValueError"
    by (auto simp: normalise_def counted_receipts_def result_simps dest!: rows int iter split: json.splits)
qed

text \<open>The run of the gate, with the buckets between its conditions.\<close>

definition gate_start :: "merge_facts \<Rightarrow> buckets" where
  "gate_start f = check_open f (check_pull_request f \<lparr>b_passed = [], b_failed = [], b_waiting = []\<rparr>)"

definition gate_verdict_of :: "buckets \<Rightarrow> merge_verdict" where
  "gate_verdict_of b = \<lparr>mv_verdict = (if b_failed b \<noteq> [] then REFUSE else if b_waiting b \<noteq> [] then WAIT else MERGE),
     mv_passed = b_passed b, mv_failed = b_failed b, mv_waiting_on = b_waiting b\<rparr>"

definition gate_end :: "merge_facts \<Rightarrow> buckets \<Rightarrow> buckets" where
  "gate_end f b = check_mergeable f (check_ci f b)"

lemma evaluate_eq:
  "evaluate f =
     rbind (check_provenance f (gate_start f)) (\<lambda>b1.
     rbind (normalise (JList (map JObj (mf_receipts f)))) (\<lambda>receipts.
     rbind (normalise (JList (map JObj (mf_rerun_receipts f)))) (\<lambda>rerun.
     rbind (check_idempotent f receipts rerun (check_importer f receipts (check_head f b1))) (\<lambda>b2.
     rbind (check_added_rows f receipts (check_append_only f (check_files f b2))) (\<lambda>b3.
     if size (b_all (gate_end f b3)) \<noteq> length CONDITIONS then Inl AssertionError
     else Inr (gate_verdict_of (gate_end f b3)))))))"
  unfolding evaluate_def Let_def gate_start_def gate_end_def gate_verdict_of_def b_all_length ..

lemma gate_buckets:
  assumes "check_provenance f (gate_start f) = Inr b1"
    and "check_idempotent f receipts rerun (check_importer f receipts (check_head f b1)) = Inr b2"
    and "check_added_rows f receipts (check_append_only f (check_files f b2)) = Inr b3"
  shows "b_all (gate_end f b3) = mset CONDITIONS"
  by (simp add: gate_end_def gate_start_def b_all_steps b_all_results(1) [OF assms(1)] b_all_results(2) [OF assms(2)]
      b_all_results(3) [OF assms(3)] CONDITIONS_def) (simp add: b_all_def)

lemma evaluate_steps:
  assumes "evaluate f = Inr v"
  obtains b1 receipts rerun b2 b3 where "check_provenance f (gate_start f) = Inr b1"
    "normalise (JList (map JObj (mf_receipts f))) = Inr receipts"
    "normalise (JList (map JObj (mf_rerun_receipts f))) = Inr rerun"
    "check_idempotent f receipts rerun (check_importer f receipts (check_head f b1)) = Inr b2"
    "check_added_rows f receipts (check_append_only f (check_files f b2)) = Inr b3"
    "v = gate_verdict_of (gate_end f b3)"
  using assms that unfolding evaluate_eq rbind_eq_Inr by (elim exE conjE) (simp split: if_splits)

lemma evaluate_run:
  assumes "evaluate f = Inr v"
  obtains b where "b_all b = mset CONDITIONS" "v = gate_verdict_of b"
  using assms that by (elim evaluate_steps) (metis gate_buckets)

lemma evaluate_no_assertion: "evaluate f \<noteq> Inl AssertionError"
proof
  assume "evaluate f = Inl AssertionError"
  then show False
    unfolding evaluate_eq rbind_eq_Inl
  proof (elim disjE exE conjE)
    assume "check_provenance f (gate_start f) = Inl AssertionError"
    then show False by (auto simp: check_provenance_def router_branch_for_def result_simps split: if_splits)
  next
    fix b receipts rerun and b2
    assume "check_idempotent f receipts rerun b2 = Inl AssertionError"
    then show False by (auto simp: check_idempotent_def Let_def split: option.splits if_splits)
  next
    fix receipts b
    assume "check_added_rows f receipts b = Inl AssertionError"
    then show False by (auto simp: check_added_rows_def Let_def split: if_splits)
  next
    fix b1 receipts rerun b2 b3
    assume "check_provenance f (gate_start f) = Inr b1"
      "check_idempotent f receipts rerun (check_importer f receipts (check_head f b1)) = Inr b2"
      "check_added_rows f receipts (check_append_only f (check_files f b2)) = Inr b3"
      "(if size (b_all (gate_end f b3)) \<noteq> length CONDITIONS then Inl AssertionError
        else Inr (gate_verdict_of (gate_end f b3))) = Inl AssertionError"
    then show False by (simp add: gate_buckets)
  qed (auto dest!: normalise_errors)
qed

text \<open>Every condition is decided, once. The gate never trips over its own bookkeeping, and every verdict it
  returns puts each of the twelve conditions into exactly one of passed, failed and waiting; it is REFUSE just when
  one failed, WAIT when none failed and one is pending, MERGE when all twelve passed.\<close>
theorem every_condition_in_one_bucket:
  "evaluate f \<noteq> Inl AssertionError
    \<and> (\<forall>v. evaluate f = Inr v \<longrightarrow>
         mset (mv_passed v) + mset (mv_failed v) + mset (mv_waiting_on v) = mset CONDITIONS
         \<and> (mv_verdict v = REFUSE \<longleftrightarrow> mv_failed v \<noteq> [])
         \<and> (mv_verdict v = WAIT \<longleftrightarrow> mv_failed v = [] \<and> mv_waiting_on v \<noteq> [])
         \<and> (mv_verdict v = MERGE \<longleftrightarrow> mset (mv_passed v) = mset CONDITIONS))"
proof (intro conjI allI impI evaluate_no_assertion)
  fix v
  assume "evaluate f = Inr v"
  then obtain b where b: "b_all b = mset CONDITIONS" "v = gate_verdict_of b"
    by (rule evaluate_run)
  show "mset (mv_passed v) + mset (mv_failed v) + mset (mv_waiting_on v) = mset CONDITIONS"
    using b by (simp add: gate_verdict_of_def b_all_def)
  then show "mv_verdict v = MERGE \<longleftrightarrow> mset (mv_passed v) = mset CONDITIONS"
    using b(2) by (auto simp: gate_verdict_of_def)
  show "mv_verdict v = REFUSE \<longleftrightarrow> mv_failed v \<noteq> []"
    "mv_verdict v = WAIT \<longleftrightarrow> mv_failed v = [] \<and> mv_waiting_on v \<noteq> []"
    using b(2) by (auto simp: gate_verdict_of_def)
qed

definition no_facts :: "string \<Rightarrow> merge_facts" where
  "no_facts sp = \<lparr>mf_sport = sp, mf_destination_repo = ''R'', mf_pull_number = None, mf_state = None, mf_draft = None,
     mf_head_ref = None, mf_head_sha = None, mf_head_repo = None, mf_base_ref = None, mf_mergeable = None,
     mf_mergeable_state = None, mf_verified_sha = None, mf_changed_files = [], mf_added_ledger_rows = [],
     mf_removed_ledger_rows = [], mf_receipts = [], mf_rerun_receipts = [], mf_rerun_changed_the_tree = None,
     mf_check_runs = [], mf_partial_delivery = False, mf_destination_validator_passed = None, mf_branch_kind = WAGERS\<rparr>"

lemma normalise_Nil [simp]: "normalise (JList []) = Inr []"
  by (simp add: normalise_def from_rows_def)

lemma no_facts_steps:
  "check_provenance (no_facts sp) b = Inr (refuse_it BRANCH_ORIGINATED_FROM_THE_ROUTER_WORKFLOW b)"
  "check_idempotent (no_facts sp) rs rr b = Inr (wait_for THE_IMPORT_IS_IDEMPOTENT b)"
  "check_added_rows (no_facts sp) rs b = Inr (wait_for EVERY_ADDED_ROW_CARRIES_THE_ROUTER_IDENTITY b)"
  "mf_receipts (no_facts sp) = []" "mf_rerun_receipts (no_facts sp) = []"
  by (simp_all add: no_facts_def check_provenance_def check_idempotent_def check_added_rows_def router_branch_for_def)

lemma evaluate_no_facts: "\<exists>v. evaluate (no_facts sp) = Inr v"
  using evaluate_no_assertion [of "no_facts sp"]
  unfolding evaluate_eq no_facts_steps rbind_simps normalise_Nil list.map(1) by (auto split: if_splits)

theorem every_condition_in_one_bucket_witness:
  "\<exists>v. evaluate (no_facts ''NFL'') = Inr v
    \<and> mset (mv_passed v) + mset (mv_failed v) + mset (mv_waiting_on v) = mset CONDITIONS"
proof -
  obtain v where "evaluate (no_facts ''NFL'') = Inr v" using evaluate_no_facts by blast
  with every_condition_in_one_bucket [of "no_facts ''NFL''"] show ?thesis by (intro exI [of _ v]) blast
qed

section \<open>What a merge guarantees\<close>

definition b_clean :: "buckets \<Rightarrow> bool" where
  "b_clean b \<longleftrightarrow> b_failed b = [] \<and> b_waiting b = []"

lemma b_clean_moves [simp]:
  "b_clean (pass_it c b) \<longleftrightarrow> b_clean b" "\<not> b_clean (refuse_it c b)" "\<not> b_clean (wait_for c b)"
  by (simp_all add: b_clean_def pass_it_def refuse_it_def wait_for_def)

text \<open>All checks green: at least one reported, each completed with a passing conclusion.\<close>

definition checks_green :: "check_run list \<Rightarrow> bool" where
  "checks_green runs \<longleftrightarrow> runs \<noteq> []
     \<and> (\<forall>(_, status, conclusion) \<in> set runs. status = Some ''completed'' \<and> conclusion \<in> Some ` set PASSING_CONCLUSIONS)"

definition receipt_clean :: "receipt \<Rightarrow> bool" where
  "receipt_clean r \<longleftrightarrow> rc_success r \<and> \<not> needs_judgement r \<and> rc_conflicting_fields r = [] \<and> truthy (rc_identity r)"

lemma conflicting_names_empty: "conflicting_field_names rs = [] \<longleftrightarrow> (\<forall>r \<in> set rs. rc_conflicting_fields r = [])"
  by (auto simp: conflicting_field_names_def)

lemma b_clean_steps:
  "b_clean (check_pull_request f b) \<longleftrightarrow> b_clean b \<and> mf_pull_number f \<noteq> None"
  "b_clean (check_open f b) \<longleftrightarrow> b_clean b \<and> mf_state f = Some ''open'' \<and> mf_draft f \<noteq> Some True"
  "b_clean (check_head f b) \<longleftrightarrow> b_clean b \<and> nonempty_text (mf_head_sha f) \<and> mf_head_sha f = mf_verified_sha f"
  "b_clean (check_importer f rs b) \<longleftrightarrow> b_clean b \<and> rs \<noteq> [] \<and> \<not> mf_partial_delivery f \<and> (\<forall>r \<in> set rs. receipt_clean r)"
  "b_clean (check_files f b) \<longleftrightarrow> b_clean b \<and> mf_changed_files f \<noteq> []
     \<and> (\<forall>p \<in> set (mf_changed_files f). is_mergeable_path (mf_sport f) p)"
  "b_clean (check_append_only f b) \<longleftrightarrow> b_clean b \<and> mf_removed_ledger_rows f = []"
  "b_clean (check_ci f b) \<longleftrightarrow> b_clean b
     \<and> (if ledger_branch_runs_ci (mf_sport f) then checks_green (mf_check_runs f)
        else mf_destination_validator_passed f = Some True)"
  "b_clean (check_mergeable f b) \<longleftrightarrow> b_clean b \<and> mf_mergeable f = Some True \<and> mf_mergeable_state f = Some ''clean''"
  by (auto simp: check_pull_request_def check_open_def check_head_def check_importer_def check_files_def check_append_only_def
      check_ci_def check_mergeable_def check_state_def checks_green_def receipt_clean_def conflicting_names_empty
      TRANSIENT_MERGE_STATES_def CHECK_DERIVED_MERGE_STATES_def list_ex_iff filter_empty_conv Let_def
      split: option.splits prod.splits if_splits)

text \<open>
  What the gate promises, stated on the facts alone: the pull request is open, is the router's own branch onto the
  destination's ledger branch in the destination's own repository, at the commit this run inspected; the importer
  accepted every row unaided and named it; a second identical import changed nothing and returned the same
  identities; only ledger files changed, rows were only added, and each added row is ours; the
  destination's own checks passed and nothing withholds the merge.
\<close>

definition own_proposal :: "merge_facts \<Rightarrow> bool" where
  "own_proposal f \<longleftrightarrow> mf_pull_number f \<noteq> None \<and> mf_state f = Some ''open'' \<and> mf_draft f \<noteq> Some True
     \<and> (\<exists>br. router_branch_for (mf_sport f) (mf_branch_kind f) = Inr br \<and> mf_head_ref f = Some br)
     \<and> (nonempty_text (mf_head_repo f) \<longrightarrow> mf_head_repo f = Some (mf_destination_repo f))
     \<and> mf_base_ref f = Some (ledger_branch_for (mf_sport f))
     \<and> nonempty_text (mf_head_sha f) \<and> mf_head_sha f = mf_verified_sha f"

definition idempotent_import :: "merge_facts \<Rightarrow> receipt list \<Rightarrow> receipt list \<Rightarrow> bool" where
  "idempotent_import f receipts rerun \<longleftrightarrow> mf_rerun_changed_the_tree f = Some False \<and> rerun \<noteq> []
     \<and> length rerun = length receipts
     \<and> (\<forall>r \<in> set rerun. rc_verdict r = Some ''DUPLICATE_NOOP''
          \<and> py_eq (identity_of_key receipts (rc_source_key r)) (rc_identity r))"

definition our_row :: "merge_facts \<Rightarrow> receipt list \<Rightarrow> jobj \<Rightarrow> bool" where
  "our_row f receipts row \<longleftrightarrow> truthy (identity_of row)
     \<and> (router_batch row \<or> mf_branch_kind f = SETTLEMENTS \<and> batch_of row = JNull)
     \<and> truthy (key_of row)
     \<and> ((\<exists>r \<in> set receipts. truthy (rc_source_key r) \<and> py_eq (key_of row) (rc_source_key r))
        \<or> mf_branch_kind f \<noteq> SETTLEMENTS \<and> (\<forall>r \<in> set receipts. \<not> truthy (rc_source_key r)))"

definition ready_to_merge :: "merge_facts \<Rightarrow> receipt list \<Rightarrow> receipt list \<Rightarrow> bool" where
  "ready_to_merge f receipts rerun \<longleftrightarrow> own_proposal f
     \<and> receipts \<noteq> [] \<and> \<not> mf_partial_delivery f \<and> (\<forall>r \<in> set receipts. receipt_clean r)
     \<and> idempotent_import f receipts rerun
     \<and> mf_changed_files f \<noteq> [] \<and> (\<forall>path \<in> set (mf_changed_files f). is_mergeable_path (mf_sport f) path)
     \<and> mf_removed_ledger_rows f = []
     \<and> mf_added_ledger_rows f \<noteq> [] \<and> (\<forall>row \<in> set (mf_added_ledger_rows f). our_row f receipts row)
     \<and> (if ledger_branch_runs_ci (mf_sport f) then checks_green (mf_check_runs f)
        else mf_destination_validator_passed f = Some True)
     \<and> mf_mergeable f = Some True \<and> mf_mergeable_state f = Some ''clean''"

lemma b_clean_provenance:
  assumes "check_provenance f b = Inr b'"
  shows "b_clean b' \<longleftrightarrow> b_clean b
     \<and> (\<exists>br. router_branch_for (mf_sport f) (mf_branch_kind f) = Inr br \<and> mf_head_ref f = Some br)
     \<and> (nonempty_text (mf_head_repo f) \<longrightarrow> mf_head_repo f = Some (mf_destination_repo f))
     \<and> mf_base_ref f = Some (ledger_branch_for (mf_sport f))"
proof (cases "router_branch_for (mf_sport f) (mf_branch_kind f)")
  case (Inr br)
  define odd where "odd \<longleftrightarrow> mf_head_ref f \<noteq> Some br
     \<or> nonempty_text (mf_head_repo f) \<and> mf_head_repo f \<noteq> Some (mf_destination_repo f)
     \<or> mf_base_ref f \<noteq> Some (ledger_branch_for (mf_sport f))"
  have "b' = (if odd then refuse_it BRANCH_ORIGINATED_FROM_THE_ROUTER_WORKFLOW b
      else pass_it BRANCH_ORIGINATED_FROM_THE_ROUTER_WORKFLOW b)"
    using assms unfolding check_provenance_def Inr rbind_simps odd_def by simp
  then have "b_clean b' \<longleftrightarrow> b_clean b \<and> \<not> odd" by simp
  then show ?thesis unfolding odd_def by (auto simp: Inr)
qed (use assms in \<open>simp add: check_provenance_def\<close>)

lemma b_clean_idempotent:
  assumes "check_idempotent f receipts rerun b = Inr b'"
  shows "b_clean b' \<longleftrightarrow> b_clean b \<and> idempotent_import f receipts rerun"
  using assms
  by (auto simp: check_idempotent_def idempotent_import_def IDEMPOTENT_RERUN_VERDICTS_def list_ex_iff Let_def
      split: option.splits if_splits)

lemma b_clean_added_rows:
  assumes "check_added_rows f receipts b = Inr b'"
  shows "b_clean b' \<longleftrightarrow> b_clean b \<and> mf_added_ledger_rows f \<noteq> []
     \<and> (\<forall>row \<in> set (mf_added_ledger_rows f). our_row f receipts row)"
proof -
  let ?keys = "filter truthy (map rc_source_key receipts)"
  have receipted: "(\<exists>r \<in> set receipts. truthy (rc_source_key r) \<and> py_eq k (rc_source_key r)) \<longleftrightarrow> list_ex (py_eq k) ?keys" for k
    by (auto simp: list_ex_iff)
  have silent: "(\<forall>r \<in> set receipts. \<not> truthy (rc_source_key r)) \<longleftrightarrow> ?keys = []"
    by (auto simp: filter_empty_conv)
  show ?thesis
  proof (cases "?keys = []")
    case True
    with assms show ?thesis unfolding check_added_rows_def our_row_def receipted silent
      by (auto simp: list_ex_iff Let_def split: if_splits)
  next
    case False
    with assms show ?thesis unfolding check_added_rows_def our_row_def receipted silent
      by (auto simp: list_ex_iff Let_def split: if_splits)
  qed
qed

lemma merge_ready:
  assumes "evaluate f = Inr v"
  shows "\<exists>receipts rerun. normalise (JList (map JObj (mf_receipts f))) = Inr receipts
    \<and> normalise (JList (map JObj (mf_rerun_receipts f))) = Inr rerun
    \<and> (may_merge v \<longleftrightarrow> ready_to_merge f receipts rerun)"
  using assms
proof (rule evaluate_steps)
  fix b1 receipts rerun b2 b3
  assume p: "check_provenance f (gate_start f) = Inr b1"
    and r: "normalise (JList (map JObj (mf_receipts f))) = Inr receipts"
      "normalise (JList (map JObj (mf_rerun_receipts f))) = Inr rerun"
    and i: "check_idempotent f receipts rerun (check_importer f receipts (check_head f b1)) = Inr b2"
    and a: "check_added_rows f receipts (check_append_only f (check_files f b2)) = Inr b3"
    and v: "v = gate_verdict_of (gate_end f b3)"
  have start: "b_clean \<lparr>b_passed = [], b_failed = [], b_waiting = []\<rparr>" by (simp add: b_clean_def)
  have "may_merge v \<longleftrightarrow> b_clean (gate_end f b3)"
    by (simp add: v may_merge_def gate_verdict_of_def b_clean_def)
  also have "\<dots> \<longleftrightarrow> ready_to_merge f receipts rerun"
    unfolding gate_end_def b_clean_steps b_clean_added_rows [OF a] b_clean_idempotent [OF i] b_clean_provenance [OF p]
      gate_start_def ready_to_merge_def own_proposal_def
    using start by blast
  finally show ?thesis using r by blast
qed

text \<open>C29: the gate implements exactly that promise. Whenever it returns a verdict, the importer's receipts of both runs
  are readable and the verdict is MERGE if and only if the facts satisfy every part of the specification.\<close>
theorem merge_iff_ready:
  assumes "evaluate f = Inr v"
  shows "\<exists>receipts rerun. normalise (JList (map JObj (mf_receipts f))) = Inr receipts
    \<and> normalise (JList (map JObj (mf_rerun_receipts f))) = Inr rerun
    \<and> (may_merge v \<longleftrightarrow> ready_to_merge f receipts rerun)"
  using assms by (rule merge_ready)

text \<open>A one-row MLB delivery on which everything is in order.\<close>

definition sample_merge :: merge_facts where
  "sample_merge = \<lparr>mf_sport = ''MLB'', mf_destination_repo = ''R'', mf_pull_number = Some 7, mf_state = Some ''open'',
     mf_draft = Some False, mf_head_ref = Some ''kalshi-router/MLB'', mf_head_sha = Some ''c'', mf_head_repo = None,
     mf_base_ref = Some ''main'', mf_mergeable = Some True, mf_mergeable_state = Some ''clean'',
     mf_verified_sha = Some ''c'', mf_changed_files = [''data/edgelab/bets/bets.jsonl''],
     mf_added_ledger_rows = [[(''betId'', JStr ''B''), (''sourceBetKey'', JStr ''K''), (''importBatchId'', JStr ''kalshi-router-v1'')]],
     mf_removed_ledger_rows = [],
     mf_receipts = [[(''sourceBetKey'', JStr ''K''), (''betId'', JStr ''B''), (''duplicateStatus'', JStr ''NEW'')]],
     mf_rerun_receipts = [[(''sourceBetKey'', JStr ''K''), (''betId'', JStr ''B''), (''duplicateStatus'', JStr ''DUPLICATE_NOOP'')]],
     mf_rerun_changed_the_tree = Some False, mf_check_runs = [(''ci'', Some ''completed'', Some ''success'')],
     mf_partial_delivery = False, mf_destination_validator_passed = None, mf_branch_kind = WAGERS\<rparr>"

lemma mlb_reads [simp]:
  "ledger_branch_for ''MLB'' = ''main''" "ledger_branch_runs_ci ''MLB''"
  "is_mergeable_path ''MLB'' path \<longleftrightarrow> path = ''data/edgelab/bets/bets.jsonl''"
  by (simp_all add: ledger_branch_for_def ledger_branch_runs_ci_def is_mergeable_path_def profile_or_def profile_for_def
      PROFILES_def mlb_profile_def)

lemma sample_receipts:
  "normalise (JList (map JObj (mf_receipts sample_merge))) =
     Inr [\<lparr>rc_source_key = JStr ''K'', rc_identity = JStr ''B'', rc_verdict = Some ''NEW'', rc_success = True,
           rc_conflicting_fields = [], rc_reason = JNull\<rparr>]"
  "normalise (JList (map JObj (mf_rerun_receipts sample_merge))) =
     Inr [\<lparr>rc_source_key = JStr ''K'', rc_identity = JStr ''B'', rc_verdict = Some ''DUPLICATE_NOOP'', rc_success = True,
           rc_conflicting_fields = [], rc_reason = JNull\<rparr>]"
  by (simp_all add: sample_merge_def normalise_def from_rows_def from_row_def first_not_none_def por_def py_iter_def Let_def)

lemma evaluate_sample: "\<exists>v. evaluate sample_merge = Inr v"
proof -
  let ?first = "[\<lparr>rc_source_key = JStr ''K'', rc_identity = JStr ''B'', rc_verdict = Some ''NEW'', rc_success = True,
           rc_conflicting_fields = [], rc_reason = JNull\<rparr>]"
  let ?rerun = "[\<lparr>rc_source_key = JStr ''K'', rc_identity = JStr ''B'', rc_verdict = Some ''DUPLICATE_NOOP'', rc_success = True,
           rc_conflicting_fields = [], rc_reason = JNull\<rparr>]"
  have hash: "\<forall>r \<in> set (?first @ ?rerun). hashable (rc_source_key r)" "\<forall>r \<in> set ?first. hashable (rc_source_key r)"
    by (simp_all add: hashable_def)
  have "\<exists>b'. check_provenance sample_merge b = Inr b'" for b
    by (simp add: check_provenance_def sample_merge_def router_branch_for_def)
  moreover have "\<exists>b'. check_idempotent sample_merge rs rr b = Inr b'"
    if "\<forall>r \<in> set (rs @ rr). hashable (rc_source_key r)" for rs rr b
    using that by (auto simp: check_idempotent_def sample_merge_def list_ex_iff Let_def)
  moreover have "\<exists>b'. check_added_rows sample_merge rs b = Inr b'"
    if "\<forall>r \<in> set rs. hashable (rc_source_key r)" for rs b
    using that by (auto simp: check_added_rows_def sample_merge_def list_ex_iff key_of_def por_def hashable_def Let_def)
  ultimately obtain b1 b2 b3 where steps: "check_provenance sample_merge (gate_start sample_merge) = Inr b1"
    "check_idempotent sample_merge ?first ?rerun (check_importer sample_merge ?first (check_head sample_merge b1)) = Inr b2"
    "check_added_rows sample_merge ?first (check_append_only sample_merge (check_files sample_merge b2)) = Inr b3"
    by (metis hash(1) hash(2))
  have "size (b_all (gate_end sample_merge b3)) = length CONDITIONS"
    using gate_buckets [OF steps] by simp
  then have "evaluate sample_merge = Inr (gate_verdict_of (gate_end sample_merge b3))"
    unfolding evaluate_eq sample_receipts by (simp only: rbind_simps steps) simp
  then show ?thesis ..
qed

lemma sample_merge_ready:
  "ready_to_merge sample_merge
      [\<lparr>rc_source_key = JStr ''K'', rc_identity = JStr ''B'', rc_verdict = Some ''NEW'', rc_success = True,
           rc_conflicting_fields = [], rc_reason = JNull\<rparr>]
      [\<lparr>rc_source_key = JStr ''K'', rc_identity = JStr ''B'', rc_verdict = Some ''DUPLICATE_NOOP'', rc_success = True,
           rc_conflicting_fields = [], rc_reason = JNull\<rparr>]"
  by (simp add: ready_to_merge_def own_proposal_def idempotent_import_def our_row_def receipt_clean_def checks_green_def
      sample_merge_def router_branch_for_def BRANCH_PREFIX_def WAGERS_def SETTLEMENTS_def nonempty_text_def
      needs_judgement_def NO_JUDGEMENT_VERDICTS_def identity_of_key_def identity_of_def key_of_def batch_of_def
      router_batch_def ROUTER_IMPORT_BATCH_ID_def por_def PASSING_CONCLUSIONS_def)

theorem merge_iff_ready_witness:
  "\<exists>v. evaluate sample_merge = Inr v \<and> may_merge v"
proof -
  obtain v where v: "evaluate sample_merge = Inr v" using evaluate_sample by blast
  with merge_iff_ready [OF v] sample_merge_ready show ?thesis unfolding sample_receipts by (intro exI [of _ v]) auto
qed

end

