(* ===== verification/Delivery.thy ===== *)
theory Delivery
  imports Automerge
begin

text \<open>
  \<^verbatim>\<open>delivery_branch.py\<close> with the run that drives it (\<^verbatim>\<open>scripts/deliver_branch.py\<close>), and
  \<^verbatim>\<open>settlement_parents.py\<close>. Git itself is outside the repository: the trees of commits, the
  commits it makes, the paths a commit changes and whether a push is accepted are parameters, and so is the
  destination's importer, a function from the tree it runs on to the tree it leaves.

  The lemmas: what may merge may be committed; a proposal on an unmoved ledger is adopted unchanged by every
  later run; every settled row reaches exactly one state, and waits only on a proven proposal.
\<close>

section \<open>The delivery branch\<close>

definition COMMITTABLE_PREFIX :: string where "COMMITTABLE_PREFIX = ''data/''"

datatype seed_choice = SEED_MAIN | SEED_BRANCH

datatype branch_action = NOTHING_TO_DELIVER | ADOPT | PUSH

record remote_branch =
  rb_head :: "string option"
  rb_base :: "string option"
  rb_tree :: "string option"

definition branch_exists :: "remote_branch \<Rightarrow> bool" where
  "branch_exists b \<longleftrightarrow> nonempty_text (rb_head b)"

definition is_built_on :: "remote_branch \<Rightarrow> string \<Rightarrow> bool" where
  "is_built_on b base_sha \<longleftrightarrow> nonempty_text (rb_head b) \<and> base_sha \<noteq> [] \<and> rb_base b = Some base_sha"

definition choose_seed :: "string \<Rightarrow> remote_branch \<Rightarrow> bool \<Rightarrow> string \<times> seed_choice" where
  "choose_seed base_sha remote ledger_moved =
     (if branch_exists remote \<and> \<not> ledger_moved then (the (rb_head remote), SEED_BRANCH) else (base_sha, SEED_MAIN))"

text \<open>The reason is the text printed beside the action; slicing an absent head is the TypeError of \<open>None[:12]\<close>.\<close>

definition decide :: "string \<Rightarrow> string \<Rightarrow> remote_branch \<Rightarrow> bool \<Rightarrow> (branch_action \<times> string) result" where
  "decide proposal_base_tree resulting_tree remote seeded_from_branch =
     (if resulting_tree = proposal_base_tree then Inr (NOTHING_TO_DELIVER,
        ''the importer's output is identical to the commit this proposal sits on; every row is already recorded'')
      else if seeded_from_branch \<and> rb_tree remote = Some resulting_tree then
        (case rb_head remote of None \<Rightarrow> Inl TypeError
         | Some head \<Rightarrow> Inr (ADOPT, take 12 head
             @ '' already carries this exact tree on the ledger it was built from; keeping it so its checks can finish''))
      else if branch_exists remote \<and> \<not> seeded_from_branch then Inr (PUSH,
        ''the destination's canonical ledger moved; rebuilding the proposal against what is on main now'')
      else if branch_exists remote then Inr (PUSH, ''the proposal changed; a new commit is required'')
      else Inr (PUSH, ''no delivery branch exists yet''))"

definition uncommittable :: "string list \<Rightarrow> string list \<Rightarrow> string list result" where
  "uncommittable paths prefixes =
     (let allowed = filter (\<lambda>p. p \<noteq> []) prefixes in
      if allowed = [] then Inl ValueError
      else Inr (sort (filter (\<lambda>path. py_strip path \<noteq> [] \<and> \<not> list_ex (starts_with path) allowed) paths)))"

section \<open>One delivery run\<close>

text \<open>What git answers, and what it does.\<close>

record git =
  g_tree_of :: "string \<Rightarrow> string"
  g_commit :: "string \<Rightarrow> string \<Rightarrow> string"
  g_changed :: "string \<Rightarrow> string \<Rightarrow> string list"
  g_ledger_diff :: "string \<Rightarrow> string \<Rightarrow> string list \<Rightarrow> string option"
  g_known :: "string \<Rightarrow> bool"
  g_push_accepted :: "string \<Rightarrow> bool"

text \<open>Unknown means moved.\<close>

definition ledger_moved :: "git \<Rightarrow> string option \<Rightarrow> string \<Rightarrow> string \<Rightarrow> bool" where
  "ledger_moved g old new sp =
     (case old of None \<Rightarrow> True | Some base \<Rightarrow>
        if base = [] then True
        else let paths = ledger_pathspecs_for sp in
          if paths = [] then True
          else case g_ledger_diff g base new paths of None \<Rightarrow> True | Some out \<Rightarrow> py_strip out \<noteq> [])"

definition proposal_base :: "git \<Rightarrow> string \<Rightarrow> string \<Rightarrow> remote_branch \<Rightarrow> string option \<times> bool" where
  "proposal_base g sp base_sha remote =
     (case choose_seed base_sha remote (ledger_moved g (rb_base remote) base_sha sp) of (seed, why) \<Rightarrow>
        if why = SEED_BRANCH then (rb_base remote, True) else (Some base_sha, False))"

definition run_seed :: "git \<Rightarrow> string \<Rightarrow> string \<Rightarrow> remote_branch \<Rightarrow> string" where
  "run_seed g sp base_sha remote = fst (choose_seed base_sha remote (ledger_moved g (rb_base remote) base_sha sp))"

datatype settle_exit = EXIT_CONFIG | EXIT_REFUSED | EXIT_GIT | Acted branch_action

text \<open>\<open>cmd_settle\<close> on the tree the importer left: the exit and the remote branch afterwards. A base without
  an id is the failing git command of \<open>reset --soft None\<close>.\<close>

definition run_settle ::
  "git \<Rightarrow> string \<Rightarrow> string \<Rightarrow> bool \<Rightarrow> remote_branch \<Rightarrow> string \<Rightarrow> (settle_exit \<times> remote_branch) result" where
  "run_settle g sp base_sha dry_run remote resulting_tree =
     (if \<not> g_known g base_sha then Inr (EXIT_CONFIG, remote)
      else case proposal_base g sp base_sha remote of
        (None, _) \<Rightarrow> Inr (EXIT_GIT, remote)
      | (Some base, seeded_from_branch) \<Rightarrow>
          (case profile_for sp of Inl _ \<Rightarrow> Inr (EXIT_CONFIG, remote) | Inr p \<Rightarrow>
           rbind (uncommittable (g_changed g base resulting_tree) (pr_committable_prefixes p)) (\<lambda>unexpected.
           if unexpected \<noteq> [] then Inr (EXIT_REFUSED, remote)
           else rbind (decide (g_tree_of g base) resulting_tree remote seeded_from_branch) (\<lambda>(action, _).
             if action = NOTHING_TO_DELIVER \<or> action = ADOPT \<or> dry_run then Inr (Acted action, remote)
             else let head = g_commit g base resulting_tree in
               if \<not> g_push_accepted g head then Inr (EXIT_GIT, remote)
               else Inr (Acted PUSH, \<lparr>rb_head = Some head, rb_base = Some base, rb_tree = Some resulting_tree\<rparr>)))))"

text \<open>A whole run: seed, import, settle.\<close>

definition delivery_run ::
  "git \<Rightarrow> (string \<Rightarrow> string) \<Rightarrow> string \<Rightarrow> string \<Rightarrow> remote_branch \<Rightarrow> (settle_exit \<times> remote_branch) result" where
  "delivery_run g importer sp base_sha remote =
     run_settle g sp base_sha False remote (importer (g_tree_of g (run_seed g sp base_sha remote)))"

section \<open>Whether a settled row's wager is canonical\<close>

datatype parent_state = CANONICAL_PARENT | WAITING_FOR_PARENT_WAGER | NO_VALID_PARENT

definition KEY_FIELDS :: "string list" where "KEY_FIELDS = [''source_bet_key'', ''sourceBetKey'']"
definition TICKER_FIELDS :: "string list" where "TICKER_FIELDS = [''market_ticker'', ''marketTicker'']"

record proposal =
  pp_branch :: string
  pp_fetched_sha :: "string option"
  pp_pull :: json
  pp_records :: "jobj list"
  pp_unverifiable :: "string option"

text \<open>\<open>v.get(key)\<close> and \<open>v.lower()\<close> of a decoded value.\<close>

definition attr_get :: "json \<Rightarrow> string \<Rightarrow> json result" where
  "attr_get v k = (case v of JObj ob \<Rightarrow> Inr (jget ob k) | _ \<Rightarrow> Inl AttributeError)"

definition attr_lower :: "json \<Rightarrow> string result" where
  "attr_lower v = (case v of JStr s \<Rightarrow> Inr (py_lower s) | _ \<Rightarrow> Inl AttributeError)"

definition proposal_problem :: "proposal option \<Rightarrow> string \<Rightarrow> string \<Rightarrow> string option result" where
  "proposal_problem prop repo ledger_branch =
     (case prop of None \<Rightarrow> Inr (Some ''no_proposal_branch'') | Some p \<Rightarrow>
      if \<not> nonempty_text (pp_fetched_sha p) then Inr (Some ''no_proposal_branch'')
      else if nonempty_text (pp_unverifiable p) then Inr (Some ''pull_request_unverifiable'')
      else if \<not> truthy (pp_pull p) then Inr (Some ''no_open_pull_request'')
      else rbind (attr_get (pp_pull p) ''state'') (\<lambda>state.
      if \<not> py_eq state (JStr ''open'') then Inr (Some ''pull_request_not_open'')
      else rbind (attr_get (pp_pull p) ''draft'') (\<lambda>draft.
      if truthy draft then Inr (Some ''pull_request_is_draft'')
      else rbind (attr_get (pp_pull p) ''head'') (\<lambda>head_value.
      let head = por head_value (JObj []) in
      rbind (attr_get head ''ref'') (\<lambda>ref.
      if \<not> py_eq ref (JStr (pp_branch p)) then Inr (Some ''pull_request_head_is_not_the_router_branch'')
      else rbind (attr_get head ''repo'') (\<lambda>head_repo.
      rbind (attr_get (por head_repo (JObj [])) ''full_name'') (\<lambda>full_name.
      rbind (attr_lower (por full_name (JStr []))) (\<lambda>full.
      if full \<noteq> py_lower repo then Inr (Some ''pull_request_from_another_repository'')
      else rbind (attr_get (pp_pull p) ''base'') (\<lambda>base.
      rbind (attr_get (por base (JObj [])) ''ref'') (\<lambda>base_ref.
      if \<not> py_eq base_ref (JStr ledger_branch) then Inr (Some ''pull_request_targets_another_branch'')
      else rbind (attr_get head ''sha'') (\<lambda>sha.
      if \<not> py_eq sha (joption (pp_fetched_sha p)) then Inr (Some ''proposal_moved_since_it_was_read'')
      else Inr None)))))))))))"

record partition =
  pt_ready :: "jobj list"
  pt_waiting :: "jobj list"
  pt_counts :: "parent_state \<Rightarrow> nat"
  pt_reasons :: "(string, nat) dict"
  pt_proposal_problem :: "string option"

definition waiting_keys :: "partition \<Rightarrow> json list" where
  "waiting_keys pt = map (\<lambda>row. first_present row KEY_FIELDS) (pt_waiting pt)"

definition partition_summary :: "partition \<Rightarrow> jobj" where
  "partition_summary pt =
     [(''canonical_parent'', JInt (int (pt_counts pt CANONICAL_PARENT))),
      (''waiting_for_parent_wager'', JInt (int (pt_counts pt WAITING_FOR_PARENT_WAGER))),
      (''no_valid_parent'', JInt (int (pt_counts pt NO_VALID_PARENT))),
      (''no_valid_parent_reasons'', JObj (map (\<lambda>(k, n). (k, JInt (int n))) (sort_key fst (pt_reasons pt)))),
      (''proposal_problem'', joption (pt_proposal_problem pt))]"

text \<open>The records of a valid proposal by their source key, equal keys being Python-equal.\<close>

definition records_by_key :: "jobj list \<Rightarrow> (json, jobj list) dict result" where
  "records_by_key records =
     (let keyed = filter (\<lambda>r. truthy (first_present r KEY_FIELDS)) records in
      if list_ex (\<lambda>r. \<not> hashable (first_present r KEY_FIELDS)) keyed then Inl TypeError
      else Inr (group_by (\<lambda>r. canon (first_present r KEY_FIELDS)) keyed))"

text \<open>The state of one row, with the reason of having no valid parent.\<close>

definition row_state ::
  "string list \<Rightarrow> string option \<Rightarrow> (json, jobj list) dict \<Rightarrow> jobj \<Rightarrow> (parent_state \<times> string) result" where
  "row_state canonical_parent_keys problem by_key row =
     (let key = first_present row KEY_FIELDS in
      if \<not> truthy key then Inr (NO_VALID_PARENT, ''no_source_key'')
      else if \<not> hashable key then Inl TypeError
      else if list_ex (\<lambda>k. py_eq key (JStr k)) canonical_parent_keys then Inr (CANONICAL_PARENT, [])
      else case problem of Some why \<Rightarrow> Inr (NO_VALID_PARENT, why)
      | None \<Rightarrow>
          (case dget by_key (canon key) of
             None \<Rightarrow> Inr (NO_VALID_PARENT, ''parent_not_on_proposal'')
           | Some [] \<Rightarrow> Inr (NO_VALID_PARENT, ''parent_not_on_proposal'')
           | Some [parent] \<Rightarrow>
               if \<not> py_eq (first_present parent TICKER_FIELDS) (first_present row TICKER_FIELDS)
                  \<or> \<not> py_eq (jget parent ''side'') (jget row ''side'')
               then Inr (NO_VALID_PARENT, ''parent_identity_mismatch'')
               else Inr (WAITING_FOR_PARENT_WAGER, [])
           | Some _ \<Rightarrow> Inr (NO_VALID_PARENT, ''parent_ambiguous_on_proposal'')))"

fun partition_loop ::
  "string list \<Rightarrow> string option \<Rightarrow> (json, jobj list) dict \<Rightarrow> jobj list \<Rightarrow> partition \<Rightarrow> partition result" where
  "partition_loop canonical problem by_key [] out = Inr out"
| "partition_loop canonical problem by_key (row # rows) out =
     rbind (row_state canonical problem by_key row) (\<lambda>(state, why).
     partition_loop canonical problem by_key rows
       (let out = out\<lparr>pt_counts := (pt_counts out)(state := Suc (pt_counts out state))\<rparr> in
        case state of
          WAITING_FOR_PARENT_WAGER \<Rightarrow> out\<lparr>pt_waiting := pt_waiting out @ [row]\<rparr>
        | CANONICAL_PARENT \<Rightarrow> out\<lparr>pt_ready := pt_ready out @ [row]\<rparr>
        | NO_VALID_PARENT \<Rightarrow> out\<lparr>pt_ready := pt_ready out @ [row], pt_reasons := dbump why (pt_reasons out)\<rparr>))"

definition partition_rows ::
  "jobj list \<Rightarrow> string list \<Rightarrow> proposal option \<Rightarrow> string \<Rightarrow> string \<Rightarrow> partition result" where
  "partition_rows rows canonical_parent_keys prop repo ledger_branch =
     rbind (proposal_problem prop repo ledger_branch) (\<lambda>problem.
     rbind (case (problem, prop) of (None, Some p) \<Rightarrow> records_by_key (pp_records p) | _ \<Rightarrow> Inr []) (\<lambda>by_key.
     partition_loop canonical_parent_keys problem by_key rows
       \<lparr>pt_ready = [], pt_waiting = [], pt_counts = (\<lambda>_. 0), pt_reasons = [], pt_proposal_problem = problem\<rparr>))"

section \<open>What may merge may be committed\<close>

lemma fullmatch_literal: "fullmatch (Literal t # ps) s \<Longrightarrow> starts_with s t"
  by simp

lemma starts_with_trans: "starts_with s t \<Longrightarrow> starts_with t p \<Longrightarrow> starts_with s p"
  by (auto simp: starts_with_iff)

lemma mergeable_is_committable:
  assumes "is_mergeable_path sp path"
  obtains p prefix where "profile_for sp = Inr p" "prefix \<in> set (pr_committable_prefixes p)" "prefix \<noteq> []" "starts_with path prefix"
proof -
  from assms obtain p where p: "profile_for sp = Inr p"
    and m: "path \<in> set (pr_mergeable_paths p) \<or> (\<exists>pat \<in> set (pr_mergeable_patterns p). fullmatch pat path)"
    by (auto simp: is_mergeable_path_def profile_or_def list_ex_iff split: sum.splits)
  from profile_for_cases [OF p] obtain k where k: "(k, p) \<in> set PROFILES" by blast
  from m have "\<exists>prefix \<in> set (pr_committable_prefixes p). starts_with path prefix"
  proof
    assume "path \<in> set (pr_mergeable_paths p)"
    with k show ?thesis by (rule mergeable_paths_committable)
  next
    assume "\<exists>pat \<in> set (pr_mergeable_patterns p). fullmatch pat path"
    then obtain pat where "pat \<in> set (pr_mergeable_patterns p)" "fullmatch pat path" by blast
    with mergeable_patterns_committable [OF k] obtain t rest prefix where
      "fullmatch (Literal t # rest) path" "prefix \<in> set (pr_committable_prefixes p)" "starts_with t prefix" by blast
    then show ?thesis using starts_with_trans fullmatch_literal by blast
  qed
  then show ?thesis using that p committable_prefixes_nonempty [OF k] by metis
qed

text \<open>C30: landing unread is never a wider permission than writing. Whatever pull request the gate merges, its sport has
  a destination profile, and the containment check of the delivery (the prefixes a router commit may touch) finds
  nothing to object to in any of the files it changes.\<close>
theorem merge_within_containment:
  assumes "evaluate f = Inr v" and "may_merge v"
  shows "\<exists>p. profile_for (mf_sport f) = Inr p
    \<and> uncommittable (mf_changed_files f) (pr_committable_prefixes p) = Inr []"
proof -
  from merge_ready [OF assms(1)] assms(2) have files: "mf_changed_files f \<noteq> []"
    "\<forall>path \<in> set (mf_changed_files f). is_mergeable_path (mf_sport f) path"
    by (auto simp: ready_to_merge_def)
  then obtain p where p: "profile_for (mf_sport f) = Inr p"
    by (meson list.set_sel(1) mergeable_is_committable)
  let ?allowed = "filter (\<lambda>p. p \<noteq> []) (pr_committable_prefixes p)"
  have inside: "list_ex (starts_with path) ?allowed" if "path \<in> set (mf_changed_files f)" for path
  proof -
    from files(2) that obtain q prefix where "profile_for (mf_sport f) = Inr q" "prefix \<in> set (pr_committable_prefixes q)"
      "prefix \<noteq> []" "starts_with path prefix" by (blast elim: mergeable_is_committable)
    with p show ?thesis by (auto simp: list_ex_iff)
  qed
  from inside [OF hd_in_set [OF files(1)]] have "?allowed \<noteq> []" by (auto simp: list_ex_iff filter_empty_conv)
  moreover have "filter (\<lambda>path. py_strip path \<noteq> [] \<and> \<not> list_ex (starts_with path) ?allowed) (mf_changed_files f) = []"
    using inside by (simp add: filter_empty_conv)
  ultimately have "uncommittable (mf_changed_files f) (pr_committable_prefixes p) = Inr []"
    unfolding uncommittable_def Let_def by simp
  with p show ?thesis by blast
qed

lemma sample_merges: "\<exists>v. evaluate sample_merge = Inr v \<and> may_merge v"
proof -
  obtain v where v: "evaluate sample_merge = Inr v" using evaluate_sample by blast
  with merge_ready [OF v] sample_merge_ready show ?thesis unfolding sample_receipts by (intro exI [of _ v]) auto
qed

theorem merge_within_containment_witness:
  "\<exists>p. profile_for ''MLB'' = Inr p
    \<and> uncommittable [''data/edgelab/bets/bets.jsonl''] (pr_committable_prefixes p) = Inr []"
proof -
  obtain v where "evaluate sample_merge = Inr v" "may_merge v" using sample_merges by blast
  then have "\<exists>p. profile_for (mf_sport sample_merge) = Inr p
    \<and> uncommittable (mf_changed_files sample_merge) (pr_committable_prefixes p) = Inr []"
    by (rule merge_within_containment)
  then show ?thesis by (simp add: sample_merge_def)
qed

section \<open>A proposal settles\<close>

fun delivery_runs ::
  "git \<Rightarrow> (string \<Rightarrow> string) \<Rightarrow> string \<Rightarrow> string list \<Rightarrow> remote_branch \<Rightarrow> (settle_exit list \<times> remote_branch) result" where
  "delivery_runs g importer sp [] remote = Inr ([], remote)"
| "delivery_runs g importer sp (base_sha # later) remote =
     rbind (delivery_run g importer sp base_sha remote) (\<lambda>(ended, remote').
     rbind (delivery_runs g importer sp later remote') (\<lambda>(rest, last). Inr (ended # rest, last)))"

text \<open>What a pushing run leaves behind.\<close>

lemma pushed_run:
  assumes "delivery_run g importer sp base_sha remote = Inr (Acted PUSH, after)"
  obtains base seed p where "after = \<lparr>rb_head = Some (g_commit g base (importer seed)), rb_base = Some base,
      rb_tree = Some (importer seed)\<rparr>"
    "importer seed \<noteq> g_tree_of g base" "profile_for sp = Inr p"
    "uncommittable (g_changed g base (importer seed)) (pr_committable_prefixes p) = Inr []"
  using assms that unfolding delivery_run_def run_settle_def
  by (auto simp: decide_def result_simps Let_def split: if_splits option.splits prod.splits sum.splits)

text \<open>C31: a proposal settles. Once a run has pushed one, every later run on a ledger that has not moved since adopts
  it: the commit on the branch is never replaced, so its check suite can finish. These are runs that bring no new rows:
  the importer writes nothing for rows it finds already recorded, and a git commit has the tree it was given.\<close>
theorem proposal_settles:
  assumes "delivery_run g importer sp base_sha remote = Inr (Acted PUSH, after)"
    and "\<forall>t. importer (importer t) = importer t"
    and "\<forall>b t. g_tree_of g (g_commit g b t) = t \<and> g_commit g b t \<noteq> []"
    and "\<forall>later \<in> set bases. g_known g later \<and> \<not> ledger_moved g (rb_base after) later sp"
  shows "delivery_runs g importer sp bases after = Inr (replicate (length bases) (Acted ADOPT), after)"
proof -
  obtain base seed p where after: "after = \<lparr>rb_head = Some (g_commit g base (importer seed)), rb_base = Some base,
      rb_tree = Some (importer seed)\<rparr>"
    and new: "importer seed \<noteq> g_tree_of g base" and p: "profile_for sp = Inr p"
    and inside: "uncommittable (g_changed g base (importer seed)) (pr_committable_prefixes p) = Inr []"
    using pushed_run [OF assms(1)] .
  have ex: "branch_exists after" using assms(3) by (simp add: after branch_exists_def nonempty_text_def)
  have adopt: "delivery_run g importer sp later after = Inr (Acted ADOPT, after)"
    if "g_known g later" "\<not> ledger_moved g (rb_base after) later sp" for later
  proof -
    have "choose_seed later after (ledger_moved g (rb_base after) later sp) = (the (rb_head after), SEED_BRANCH)"
      using ex that(2) by (simp add: choose_seed_def)
    then have "run_seed g sp later after = g_commit g base (importer seed)"
      "proposal_base g sp later after = (Some base, True)"
      by (simp_all add: run_seed_def proposal_base_def after)
    then show ?thesis
      using that(1) assms(2,3) new
      by (simp add: delivery_run_def run_settle_def p inside decide_def after)
  qed
  show ?thesis using assms(4) by (induction bases) (simp_all add: adopt)
qed

definition sample_git :: git where
  "sample_git = \<lparr>g_tree_of = (\<lambda>s. if take 1 s = ''c'' then drop 1 s else ''empty''),
     g_commit = (\<lambda>_ t. ''c'' @ t), g_changed = (\<lambda>_ _. [''data/edgelab/bets/bets.jsonl'']),
     g_ledger_diff = (\<lambda>_ _ _. Some []), g_known = (\<lambda>_. True), g_push_accepted = (\<lambda>_. True)\<rparr>"

lemma mlb_profile_read [simp]: "profile_for ''MLB'' = Inr mlb_profile"
  by (simp add: profile_for_def PROFILES_def)

theorem proposal_settles_witness:
  "\<exists>after. delivery_run sample_git (\<lambda>_. ''rows'') ''MLB'' ''main1'' \<lparr>rb_head = None, rb_base = None, rb_tree = None\<rparr>
      = Inr (Acted PUSH, after)
    \<and> delivery_runs sample_git (\<lambda>_. ''rows'') ''MLB'' [''main1'', ''main2''] after = Inr ([Acted ADOPT, Acted ADOPT], after)"
proof -
  let ?after = "\<lparr>rb_head = Some ''crows'', rb_base = Some ''main1'', rb_tree = Some ''rows''\<rparr>"
  have first: "delivery_run sample_git (\<lambda>_. ''rows'') ''MLB'' ''main1'' \<lparr>rb_head = None, rb_base = None, rb_tree = None\<rparr>
      = Inr (Acted PUSH, ?after)"
    by (simp add: delivery_run_def run_settle_def sample_git_def proposal_base_def choose_seed_def branch_exists_def
        nonempty_text_def uncommittable_def decide_def mlb_profile_def starts_with_def)
  have specs: "ledger_pathspecs_for ''MLB'' \<noteq> []"
    by (simp add: ledger_pathspecs_for_def profile_or_def mlb_profile_def)
  have "delivery_runs sample_git (\<lambda>_. ''rows'') ''MLB'' [''main1'', ''main2''] ?after
      = Inr (replicate (length [''main1'', ''main2'']) (Acted ADOPT), ?after)"
    by (rule proposal_settles [OF first])
       (simp_all add: sample_git_def ledger_moved_def specs Let_def py_strip_def)
  with first show ?thesis by (intro exI [of _ ?after]) simp
qed

section \<open>Every settled row reaches one state\<close>

lemma partition_loop_states:
  assumes "partition_loop canonical problem by_key rows out = Inr done"
  shows "\<exists>vs. list_all2 (\<lambda>row v. row_state canonical problem by_key row = Inr v) rows vs
    \<and> pt_ready done = pt_ready out @ map fst (filter (\<lambda>(_, v). fst v \<noteq> WAITING_FOR_PARENT_WAGER) (zip rows vs))
    \<and> pt_waiting done = pt_waiting out @ map fst (filter (\<lambda>(_, v). fst v = WAITING_FOR_PARENT_WAGER) (zip rows vs))
    \<and> (\<forall>st. pt_counts done st = pt_counts out st + length (filter (\<lambda>v. fst v = st) vs))
    \<and> pt_proposal_problem done = pt_proposal_problem out"
  using assms
proof (induction canonical problem by_key rows out rule: partition_loop.induct)
  case (1 canonical problem by_key out)
  then show ?case by (intro exI [of _ "[]"]) simp
next
  case (2 canonical problem by_key row rows out)
  then obtain st why where v: "row_state canonical problem by_key row = Inr (st, why)"
    and rest: "partition_loop canonical problem by_key rows
       (let out = out\<lparr>pt_counts := (pt_counts out)(st := Suc (pt_counts out st))\<rparr> in
        case st of
          WAITING_FOR_PARENT_WAGER \<Rightarrow> out\<lparr>pt_waiting := pt_waiting out @ [row]\<rparr>
        | CANONICAL_PARENT \<Rightarrow> out\<lparr>pt_ready := pt_ready out @ [row]\<rparr>
        | NO_VALID_PARENT \<Rightarrow> out\<lparr>pt_ready := pt_ready out @ [row], pt_reasons := dbump why (pt_reasons out)\<rparr>) = Inr done"
    by (auto simp: rbind_eq_Inr)
  from "2.IH" [OF rest] obtain vs where vs:
    "list_all2 (\<lambda>row v. row_state canonical problem by_key row = Inr v) rows vs"
    and eqs: "pt_ready done = pt_ready out @ (if st = WAITING_FOR_PARENT_WAGER then [] else [row])
        @ map fst (filter (\<lambda>(_, v). fst v \<noteq> WAITING_FOR_PARENT_WAGER) (zip rows vs))"
      "pt_waiting done = pt_waiting out @ (if st = WAITING_FOR_PARENT_WAGER then [row] else [])
        @ map fst (filter (\<lambda>(_, v). fst v = WAITING_FOR_PARENT_WAGER) (zip rows vs))"
      "\<forall>s. pt_counts done s = pt_counts out s + (if s = st then 1 else 0) + length (filter (\<lambda>v. fst v = s) vs)"
      "pt_proposal_problem done = pt_proposal_problem out"
    by (cases st) (auto simp: Let_def)
  show ?case
    by (rule exI [of _ "(st, why) # vs"]) (use v vs eqs in auto)
qed

lemma filter_split_lengths: "length (filter (\<lambda>v. fst v = CANONICAL_PARENT) vs)
    + length (filter (\<lambda>v. fst v = WAITING_FOR_PARENT_WAGER) vs) + length (filter (\<lambda>v. fst v = NO_VALID_PARENT) vs) = length vs"
proof (induction vs)
  case (Cons v vs)
  then show ?case by (cases "fst v") simp_all
qed simp

text \<open>When a row waits.\<close>

lemma row_state_waits:
  assumes "row_state canonical problem by_key row = Inr (WAITING_FOR_PARENT_WAGER, why)"
  obtains parent where "problem = None" "dget by_key (canon (first_present row KEY_FIELDS)) = Some [parent]"
    "truthy (first_present row KEY_FIELDS)" "\<not> (\<exists>k \<in> set canonical. first_present row KEY_FIELDS = JStr k)"
    "py_eq (first_present parent TICKER_FIELDS) (first_present row TICKER_FIELDS)"
    "py_eq (jget parent ''side'') (jget row ''side'')"
  using assms that
  by (auto simp: row_state_def Let_def list_ex_iff split: if_splits option.splits list.splits)

lemma proposal_problem_None: "proposal_problem prop repo branch = Inr None \<Longrightarrow> prop \<noteq> None"
  by (cases "prop") (simp_all add: proposal_problem_def)

lemma records_by_key_single:
  assumes "records_by_key records = Inr d" and "dget d (canon k) = Some [parent]"
  shows "filter (\<lambda>r. truthy (first_present r KEY_FIELDS) \<and> py_eq (first_present r KEY_FIELDS) k) records = [parent]"
  using assms
  by (auto simp: records_by_key_def Let_def dget_group_by py_eq_def conj_commute split: if_splits)

text \<open>What a waiting row rests on.\<close>

definition proven_parent :: "string list \<Rightarrow> proposal option \<Rightarrow> jobj \<Rightarrow> bool" where
  "proven_parent canonical prop row \<longleftrightarrow> \<not> (\<exists>k \<in> set canonical. first_present row KEY_FIELDS = JStr k)
     \<and> (\<exists>p parent. prop = Some p
         \<and> filter (\<lambda>r. truthy (first_present r KEY_FIELDS)
              \<and> py_eq (first_present r KEY_FIELDS) (first_present row KEY_FIELDS)) (pp_records p) = [parent]
         \<and> py_eq (first_present parent TICKER_FIELDS) (first_present row TICKER_FIELDS)
         \<and> py_eq (jget parent ''side'') (jget row ''side''))"

lemma waiting_row_proven:
  assumes "row_state canonical problem by_key row = Inr (WAITING_FOR_PARENT_WAGER, why)"
    and "proposal_problem prop repo branch = Inr problem"
    and "(case (problem, prop) of (None, Some p) \<Rightarrow> records_by_key (pp_records p) | _ \<Rightarrow> Inr []) = Inr by_key"
  shows "problem = None \<and> proven_parent canonical prop row"
  using assms(1)
proof (cases rule: row_state_waits)
  case (1 parent)
  then obtain p where p: "prop = Some p" using assms(2) proposal_problem_None by blast
  with assms(3) 1 have "records_by_key (pp_records p) = Inr by_key" by simp
  from records_by_key_single [OF this 1(2)] p 1 show ?thesis unfolding proven_parent_def by blast
qed

text \<open>C32: a settled row is never lost and never delayed on trust. The partition puts every row in exactly one state and
  keeps all of them; with any problem of the proposal no row waits; and a row that waits is not on the canonical
  ledger, while exactly one record of the proposal carries its source key, with the same market and side.\<close>
theorem settled_rows_partition:
  assumes "partition_rows rows canonical prop repo ledger_branch = Inr pt"
  shows "pt_counts pt CANONICAL_PARENT + pt_counts pt WAITING_FOR_PARENT_WAGER + pt_counts pt NO_VALID_PARENT = length rows
    \<and> mset (pt_ready pt) + mset (pt_waiting pt) = mset rows
    \<and> (pt_proposal_problem pt \<noteq> None \<longrightarrow> pt_waiting pt = [])
    \<and> (\<forall>row \<in> set (pt_waiting pt). proven_parent canonical prop row)"
proof -
  from assms obtain problem by_key where prob: "proposal_problem prop repo ledger_branch = Inr problem"
    and keys: "(case (problem, prop) of (None, Some p) \<Rightarrow> records_by_key (pp_records p) | _ \<Rightarrow> Inr []) = Inr by_key"
    and loop: "partition_loop canonical problem by_key rows
       \<lparr>pt_ready = [], pt_waiting = [], pt_counts = (\<lambda>_. 0), pt_reasons = [], pt_proposal_problem = problem\<rparr> = Inr pt"
    by (auto simp: partition_rows_def rbind_eq_Inr)
  from partition_loop_states [OF loop] obtain vs where
    vs: "list_all2 (\<lambda>row v. row_state canonical problem by_key row = Inr v) rows vs"
    and ready: "pt_ready pt = map fst (filter (\<lambda>(_, v). fst v \<noteq> WAITING_FOR_PARENT_WAGER) (zip rows vs))"
    and waiting: "pt_waiting pt = map fst (filter (\<lambda>(_, v). fst v = WAITING_FOR_PARENT_WAGER) (zip rows vs))"
    and counts: "\<And>st. pt_counts pt st = length (filter (\<lambda>v. fst v = st) vs)"
    and problem: "pt_proposal_problem pt = problem" by auto
  have len: "length rows = length vs" using vs by (rule list_all2_lengthD)
  have waits: "\<exists>why. row_state canonical problem by_key row = Inr (WAITING_FOR_PARENT_WAGER, why)"
    if "row \<in> set (pt_waiting pt)" for row
  proof -
    from that obtain v where "(row, v) \<in> set (zip rows vs)" "fst v = WAITING_FOR_PARENT_WAGER"
      unfolding waiting by auto
    with vs have "row_state canonical problem by_key row = Inr (WAITING_FOR_PARENT_WAGER, snd v)"
      unfolding list_all2_iff by (cases v) fastforce
    then show ?thesis ..
  qed
  have "mset (map fst (filter (\<lambda>(_, v). fst v \<noteq> WAITING_FOR_PARENT_WAGER) zs))
      + mset (map fst (filter (\<lambda>(_, v). fst v = WAITING_FOR_PARENT_WAGER) zs)) = mset (map fst zs)"
    for zs :: "(jobj \<times> parent_state \<times> string) list"
    by (induction zs) auto
  then have "mset (pt_ready pt) + mset (pt_waiting pt) = mset rows"
    unfolding ready waiting by (simp only: map_fst_zip [OF len])
  moreover have "pt_counts pt CANONICAL_PARENT + pt_counts pt WAITING_FOR_PARENT_WAGER + pt_counts pt NO_VALID_PARENT = length rows"
    unfolding counts filter_split_lengths len ..
  moreover have "problem = None \<and> proven_parent canonical prop row" if "row \<in> set (pt_waiting pt)" for row
    using waits [OF that] waiting_row_proven [OF _ prob keys] by blast
  then have "problem \<noteq> None \<longrightarrow> pt_waiting pt = []" "\<forall>row \<in> set (pt_waiting pt). proven_parent canonical prop row"
    using hd_in_set by blast+
  ultimately show ?thesis unfolding problem by (intro conjI)
qed

theorem settled_rows_partition_witness:
  "\<exists>pt. partition_rows [[(''source_bet_key'', JStr ''K'')], []] [''K''] None ''r'' ''main'' = Inr pt
    \<and> mset (pt_ready pt) + mset (pt_waiting pt) = mset [[(''source_bet_key'', JStr ''K'')], []] \<and> pt_waiting pt = []"
proof -
  obtain pt where pt: "partition_rows [[(''source_bet_key'', JStr ''K'')], []] [''K''] None ''r'' ''main'' = Inr pt"
    "pt_proposal_problem pt = Some ''no_proposal_branch''"
    by (simp add: partition_rows_def proposal_problem_def row_state_def first_present_def KEY_FIELDS_def present_def hashable_def)
  from settled_rows_partition [OF pt(1)] pt show ?thesis by (intro exI [of _ pt]) auto
qed

end
