(* ===== verification/Counters.thy ===== *)
theory Counters
  imports Production
begin

text \<open>
  Counter maps filled from lists of names, shared by the reports of \<^verbatim>\<open>reconcile.py\<close> and
  \<^verbatim>\<open>ledger_compare.py\<close>: what a loop adds to each counter when every element moves the counters of its own list
  of names, and when such a sum is the number of elements with a property.
\<close>

definition bumps :: "string list \<Rightarrow> diagnostics \<Rightarrow> diagnostics" where
  "bumps names d = foldl (\<lambda>d n. bump n d) d names"

lemma bumps_apply: "bumps ns d n = d n + count_list ns n"
  by (induction ns arbitrary: d) (simp_all add: bumps_def bump_apply)

lemma bumps_simps [simp]: "bumps [] d = d" "bumps (n # ns) d = bumps ns (bump n d)"
  by (simp_all add: bumps_def)

definition total :: "('a \<Rightarrow> string list) \<Rightarrow> 'a list \<Rightarrow> string \<Rightarrow> nat" where
  "total names xs n = (\<Sum>x\<leftarrow>xs. count_list (names x) n)"

lemma total_simps [simp]:
  "total names [] n = 0" "total names (x # xs) n = count_list (names x) n + total names xs n"
  by (simp_all add: total_def)

lemma foldl_bumps: "foldl (\<lambda>d x. bumps (names x) d) d xs n = d n + total names xs n"
  by (induction xs arbitrary: d) (simp_all add: bumps_apply del: bumps_simps)

lemma total_zero: "(\<And>x. n \<notin> set (names x)) \<Longrightarrow> total names xs n = 0"
  by (induction xs) (simp_all add: count_list_0_iff)

lemma total_filter_in:
  "(\<And>x. x \<in> set xs \<Longrightarrow> count_list (names x) n = (if P x then 1 else 0)) \<Longrightarrow> total names xs n = length (filter P xs)"
  by (induction xs) simp_all

lemma total_filter:
  "(\<And>x. count_list (names x) n = (if P x then 1 else 0)) \<Longrightarrow> total names xs n = length (filter P xs)"
  by (rule total_filter_in)

text \<open>Over the sorted distinct keys, a sum is a cardinality.\<close>

lemma length_filter_sorted_set: "length (filter P (sorted_set xs)) = card {x \<in> set xs. P x}"
proof -
  have "length (filter P (sorted_set xs)) = card (set (filter P (sorted_set xs)))"
    by (rule distinct_card [symmetric]) simp
  then show ?thesis by simp
qed

lemma total_card:
  assumes "\<And>x. x \<in> set xs \<Longrightarrow> count_list (names x) n = (if P x then 1 else 0)" and "\<And>x. P x \<Longrightarrow> x \<in> set xs"
  shows "total names (sorted_set xs) n = card {x. P x}"
proof -
  have "total names (sorted_set xs) n = card {x \<in> set xs. P x}"
    using total_filter_in [of "sorted_set xs" names n P] assms(1) by (simp add: length_filter_sorted_set)
  also have "{x \<in> set xs. P x} = {x. P x}" using assms(2) by blast
  finally show ?thesis .
qed

end
