(* ===== verification/LedgerCompare.thy ===== *)
theory LedgerCompare
  imports Counters PyText
begin

text \<open>
  \<^verbatim>\<open>ledger_compare.py\<close>: the router's view of the past against the ledger that exists, in counts.
  A money field of a ledger row is whatever JSON holds; \<open>Decimal(str(value))\<close> reads it, and the
  infinities and NaN that text can denote are values of their own, because comparing with them behaves
  differently. The opening and decoding of the file is not modelled; \<open>read_ledger\<close> starts at its
  lines, with the JSON decoder a parameter.

  The lemmas: each stage moves the counters of a list of names, so that every counter of the report is a count over
  the rows, the wagers or the keys of the input.
\<close>

section \<open>Money in a ledger row\<close>

datatype money = Finite decimal | Infinite | NotANumber

text \<open>The text \<open>Decimal\<close> accepts: surrounding space and underscores dropped, then a sign and either digits with
  an optional point and exponent, or an infinity, or a NaN with an optional payload. (The limits of the
  exponent range are not modelled.)\<close>

definition exponent_of :: "string \<Rightarrow> int option" where
  "exponent_of s = (case s of
       [] \<Rightarrow> Some 0
     | c # r \<Rightarrow>
         if py_lower [c] \<noteq> ''e'' then None
         else (case r of
             [] \<Rightarrow> None
           | d # ds \<Rightarrow>
               let digits = (if d = CHR ''+'' \<or> d = CHR ''-'' then ds else r) in
               if digits = [] \<or> \<not> list_all is_digit digits then None
               else Some ((if d = CHR ''-'' then -1 else 1) * int (digits_val digits))))"

definition unsigned_number :: "string \<Rightarrow> decimal option" where
  "unsigned_number s =
     (let ip = takeWhile is_digit s; rest = dropWhile is_digit s;
          dotted = (take 1 rest = ''.'');
          fp = (if dotted then takeWhile is_digit (drop 1 rest) else []);
          tail = (if dotted then dropWhile is_digit (drop 1 rest) else rest)
      in if ip = [] \<and> fp = [] then None
         else map_option (\<lambda>e. (of_nat (digits_val (ip @ fp)) / 10 ^ length fp) * (10 :: rat) powi e) (exponent_of tail))"

definition unsigned_money :: "string \<Rightarrow> money option" where
  "unsigned_money s =
     (let t = py_lower s in
      if t = ''inf'' \<or> t = ''infinity'' then Some Infinite
      else if starts_with t ''nan'' \<and> list_all is_digit (drop 3 t) then Some NotANumber
      else if starts_with t ''snan'' \<and> list_all is_digit (drop 4 t) then Some NotANumber
      else map_option Finite (unsigned_number s))"

definition decimal_text :: "string \<Rightarrow> money option" where
  "decimal_text raw =
     (let s = filter (\<lambda>c. c \<noteq> CHR ''_'') (py_strip raw) in
      case s of
        [] \<Rightarrow> None
      | c # r \<Rightarrow>
          if c = CHR ''-'' then map_option (\<lambda>m. case m of Finite x \<Rightarrow> Finite (- x) | other \<Rightarrow> other) (unsigned_money r)
          else unsigned_money (if c = CHR ''+'' then r else s))"

definition money_of :: "json \<Rightarrow> money option" where
  "money_of v = (case v of
       JInt i \<Rightarrow> Some (Finite (of_int i))
     | JFloat x \<Rightarrow> Some (Finite x)
     | JStr s \<Rightarrow> decimal_text s
     | _ \<Rightarrow> None)"

text \<open>\<open>abs(a - b) > tolerance\<close>: an infinity is beyond every tolerance, and comparing a NaN raises.\<close>

definition beyond :: "decimal \<Rightarrow> money \<Rightarrow> decimal \<Rightarrow> bool result" where
  "beyond a b tolerance = (case b of
       Finite x \<Rightarrow> Inr (tolerance < dabs (dsub a x))
     | Infinite \<Rightarrow> Inr True
     | NotANumber \<Rightarrow> Inl InvalidOperation)"

definition STAKE_TOLERANCE :: decimal where "STAKE_TOLERANCE = 1 / 100"
definition PRICE_TOLERANCE :: decimal where "PRICE_TOLERANCE = 5 / 1000"

definition text_of_field :: "json \<Rightarrow> string option" where
  "text_of_field v = (case v of JStr s \<Rightarrow> if blank s then None else Some (py_upper (py_strip s)) | _ \<Rightarrow> None)"

definition ledger_key :: "json \<Rightarrow> json \<Rightarrow> (string \<times> string) option" where
  "ledger_key ticker side =
     (case (text_of_field ticker, text_of_field side) of (Some t, Some s) \<Rightarrow> Some (t, s) | _ \<Rightarrow> None)"

section \<open>Reading\<close>

text \<open>The lines of the file; \<open>decode\<close> is the JSON decoder, \<open>None\<close> its error.\<close>

fun read_ledger :: "(string \<Rightarrow> json option) \<Rightarrow> string list \<Rightarrow> jobj list result" where
  "read_ledger decode [] = Inr []"
| "read_ledger decode (line # lines) =
     (let text = py_strip line in
      if text = [] then read_ledger decode lines
      else case decode text of
          Some (JObj ob) \<Rightarrow> rbind (read_ledger decode lines) (\<lambda>rows. Inr (ob # rows))
        | _ \<Rightarrow> Inl ValueError)"

section \<open>Comparing\<close>

text \<open>What is read of a wager, with \<open>getattr\<close>.\<close>

record compared_wager =
  cw_market_ticker :: json
  cw_side :: json
  cw_stake :: "decimal option"
  cw_entry_price :: "decimal option"
  cw_result :: "string option"

definition COMPARISON_FIELDS :: "string list" where
  "COMPARISON_FIELDS = [''ledger_rows_read'', ''ledger_rows_not_active'', ''ledger_rows_other_platform'',
     ''ledger_rows_other_sport'', ''ledger_rows_without_ticker'', ''ledger_rows_compared'',
     ''router_wagers_built'', ''router_wagers_without_ticker'',
     ''matched_keys'', ''router_only_keys'', ''ledger_only_keys'', ''ambiguous_multiplicity_keys'',
     ''stake_agrees'', ''stake_disagrees'', ''stake_not_comparable'', ''price_agrees'', ''price_disagrees'',
     ''price_not_comparable'', ''result_agrees'', ''result_disagrees'', ''result_not_comparable'']"

definition comparison_as_dict :: "diagnostics \<Rightarrow> (string, nat) dict" where
  "comparison_as_dict d = map (\<lambda>k. (k, d k)) COMPARISON_FIELDS"

definition keys_accounted :: "diagnostics \<Rightarrow> nat" where
  "keys_accounted d = d ''matched_keys'' + d ''router_only_keys'' + d ''ledger_only_keys'' + d ''ambiguous_multiplicity_keys''"

text \<open>Present and different from the wanted word, as \<open>str(value).upper()\<close>.\<close>

definition stated_otherwise :: "json \<Rightarrow> string \<Rightarrow> bool" where
  "stated_otherwise v wanted \<longleftrightarrow> v \<noteq> JNull \<and> py_upper (py_str v) \<noteq> wanted"

type_synonym 'a keyed = "((string \<times> string), 'a list) dict"

text \<open>Where one ledger row goes: the counter of its skip, or the group of its key.\<close>

definition read_row :: "string \<Rightarrow> string \<Rightarrow> jobj \<Rightarrow> string + (string \<times> string)" where
  "read_row sp platform row =
     (if stated_otherwise (jget row ''recordStatus'') ''ACTIVE'' then Inl ''ledger_rows_not_active''
      else if stated_otherwise (jget row ''platform'') (py_upper platform) then Inl ''ledger_rows_other_platform''
      else if stated_otherwise (jget row ''sport'') (py_upper sp) then Inl ''ledger_rows_other_sport''
      else case ledger_key (jget row ''marketTicker'') (jget row ''side'') of
          None \<Rightarrow> Inl ''ledger_rows_without_ticker''
        | Some key \<Rightarrow> Inr key)"

fun group_ledger :: "string \<Rightarrow> string \<Rightarrow> jobj list \<Rightarrow> jobj keyed \<Rightarrow> diagnostics \<Rightarrow> jobj keyed \<times> diagnostics" where
  "group_ledger sp platform [] g d = (g, d)"
| "group_ledger sp platform (row # rows) g d =
     (let d = bump ''ledger_rows_read'' d in
      case read_row sp platform row of
        Inl why \<Rightarrow> group_ledger sp platform rows g (bump why d)
      | Inr key \<Rightarrow> group_ledger sp platform rows (gadd key row g) (bump ''ledger_rows_compared'' d))"

fun group_wagers :: "compared_wager list \<Rightarrow> compared_wager keyed \<Rightarrow> diagnostics \<Rightarrow> compared_wager keyed \<times> diagnostics" where
  "group_wagers [] g d = (g, d)"
| "group_wagers (w # ws) g d =
     (let d = bump ''router_wagers_built'' d in
      case ledger_key (cw_market_ticker w) (cw_side w) of
        None \<Rightarrow> group_wagers ws g (bump ''router_wagers_without_ticker'' d)
      | Some key \<Rightarrow> group_wagers ws (gadd key w g) d)"

definition score_money ::
  "decimal option \<Rightarrow> money option \<Rightarrow> decimal \<Rightarrow> string \<Rightarrow> diagnostics \<Rightarrow> diagnostics result" where
  "score_money router_value ledger_value tolerance field d =
     (case (router_value, ledger_value) of
        (Some a, Some b) \<Rightarrow> rbind (beyond a b tolerance) (\<lambda>far.
          Inr (bump (field @ (if far then ''_disagrees'' else ''_agrees'')) d))
      | _ \<Rightarrow> Inr (bump (field @ ''_not_comparable'') d))"

definition score_result :: "string option \<Rightarrow> json \<Rightarrow> diagnostics \<Rightarrow> diagnostics" where
  "score_result router_result ledger_result d =
     (case (router_result, ledger_result) of
        (Some a, JStr b) \<Rightarrow>
          bump (if py_upper (py_strip a) = py_upper (py_strip b) then ''result_agrees'' else ''result_disagrees'') d
      | _ \<Rightarrow> bump ''result_not_comparable'' d)"

definition score :: "compared_wager \<Rightarrow> jobj \<Rightarrow> diagnostics \<Rightarrow> diagnostics result" where
  "score w row d =
     rbind (score_money (cw_stake w) (money_of (jget row ''stake'')) STAKE_TOLERANCE ''stake'' d) (\<lambda>d.
     rbind (score_money (cw_entry_price w) (money_of (jget row ''entryPrice'')) PRICE_TOLERANCE ''price'' d) (\<lambda>d.
     Inr (score_result (cw_result w) (jget row ''result'') d)))"

definition hits :: "'a keyed \<Rightarrow> string \<times> string \<Rightarrow> 'a list" where
  "hits g key = (case dget g key of None \<Rightarrow> [] | Some xs \<Rightarrow> xs)"

definition compare_key ::
  "jobj keyed \<Rightarrow> compared_wager keyed \<Rightarrow> string \<times> string \<Rightarrow> diagnostics \<Rightarrow> diagnostics result" where
  "compare_key ledger router key d =
     (case (hits ledger key, hits router key) of
        ([], []) \<Rightarrow> Inr (bump ''router_only_keys'' d)
      | ([], [_]) \<Rightarrow> Inr (bump ''router_only_keys'' d)
      | ([_], []) \<Rightarrow> Inr (bump ''ledger_only_keys'' d)
      | ([row], [w]) \<Rightarrow> score w row (bump ''matched_keys'' d)
      | _ \<Rightarrow> Inr (bump ''ambiguous_multiplicity_keys'' d))"

fun compare_keys ::
  "jobj keyed \<Rightarrow> compared_wager keyed \<Rightarrow> (string \<times> string) list \<Rightarrow> diagnostics \<Rightarrow> diagnostics result" where
  "compare_keys ledger router [] d = Inr d"
| "compare_keys ledger router (key # ks) d =
     rbind (compare_key ledger router key d) (\<lambda>d. compare_keys ledger router ks d)"

definition compare_to_ledger ::
  "compared_wager list \<Rightarrow> jobj list \<Rightarrow> string \<Rightarrow> string \<Rightarrow> diagnostics result" where
  "compare_to_ledger ws rows sp platform =
     (case group_ledger sp platform rows [] no_diagnostics of (ledger, d) \<Rightarrow>
      case group_wagers ws [] d of (router, d) \<Rightarrow>
      compare_keys ledger router (sorted_set (dkeys ledger @ dkeys router)) d)"

section \<open>What each row, wager and key adds\<close>

text \<open>The counters one ledger row moves, and one wager.\<close>

definition row_names :: "string \<Rightarrow> string \<Rightarrow> jobj \<Rightarrow> string list" where
  "row_names sp platform row =
     [''ledger_rows_read'', case read_row sp platform row of Inl why \<Rightarrow> why | Inr _ \<Rightarrow> ''ledger_rows_compared'']"

definition wager_names :: "compared_wager \<Rightarrow> string list" where
  "wager_names w = ''router_wagers_built''
     # (if ledger_key (cw_market_ticker w) (cw_side w) = None then [''router_wagers_without_ticker''] else [])"

lemma hits_gadd: "hits (gadd k x g) k' = hits g k' @ (if k = k' then [x] else [])"
  by (simp add: hits_def gadd_def)

lemma dkeys_gadd: "set (dkeys (gadd k x g)) = insert k (set (dkeys g))"
  by (simp add: gadd_def)

lemma group_ledger_eq:
  assumes "group_ledger sp platform rows g d = (g', d')"
  shows "d' n = d n + total (row_names sp platform) rows n
    \<and> hits g' k = hits g k @ filter (\<lambda>row. read_row sp platform row = Inr k) rows
    \<and> set (dkeys g') = set (dkeys g) \<union> {k. \<exists>row \<in> set rows. read_row sp platform row = Inr k}"
  using assms
proof (induction rows arbitrary: g d)
  case (Cons row rows)
  show ?case
  proof (cases "read_row sp platform row")
    case (Inl why)
    have "group_ledger sp platform rows g (bump why (bump ''ledger_rows_read'' d)) = (g', d')"
      using Cons.prems Inl by (simp add: Let_def)
    from Cons.IH [OF this] show ?thesis by (simp add: Inl row_names_def bump_apply)
  next
    case (Inr key)
    have "group_ledger sp platform rows (gadd key row g) (bump ''ledger_rows_compared'' (bump ''ledger_rows_read'' d)) = (g', d')"
      using Cons.prems Inr by (simp add: Let_def)
    from Cons.IH [OF this] show ?thesis
      unfolding hits_gadd dkeys_gadd by (auto simp: Inr row_names_def bump_apply)
  qed
qed simp

lemma group_wagers_eq:
  assumes "group_wagers ws g d = (g', d')"
  shows "d' n = d n + total wager_names ws n
    \<and> hits g' k = hits g k @ filter (\<lambda>w. ledger_key (cw_market_ticker w) (cw_side w) = Some k) ws
    \<and> set (dkeys g') = set (dkeys g) \<union> {k. \<exists>w \<in> set ws. ledger_key (cw_market_ticker w) (cw_side w) = Some k}"
  using assms
proof (induction ws arbitrary: g d)
  case (Cons w ws)
  show ?case
  proof (cases "ledger_key (cw_market_ticker w) (cw_side w)")
    case None
    have "group_wagers ws g (bump ''router_wagers_without_ticker'' (bump ''router_wagers_built'' d)) = (g', d')"
      using Cons.prems None by (simp add: Let_def)
    from Cons.IH [OF this] show ?thesis by (simp add: None wager_names_def bump_apply)
  next
    case (Some key)
    have "group_wagers ws (gadd key w g) (bump ''router_wagers_built'' d) = (g', d')"
      using Cons.prems Some by (simp add: Let_def)
    from Cons.IH [OF this] show ?thesis
      unfolding hits_gadd dkeys_gadd by (auto simp: Some wager_names_def bump_apply)
  qed
qed simp

section \<open>The reference\<close>

text \<open>The scope of a ledger row: a field that is not given says nothing, and one that is given must say the word.\<close>

definition says_or_silent :: "json \<Rightarrow> string \<Rightarrow> bool" where
  "says_or_silent v wanted \<longleftrightarrow> v = JNull \<or> py_upper (py_str v) = wanted"

definition is_active :: "jobj \<Rightarrow> bool" where
  "is_active row \<longleftrightarrow> says_or_silent (jget row ''recordStatus'') ''ACTIVE''"

definition on_platform :: "string \<Rightarrow> jobj \<Rightarrow> bool" where
  "on_platform platform row \<longleftrightarrow> says_or_silent (jget row ''platform'') (py_upper platform)"

definition of_sport :: "string \<Rightarrow> jobj \<Rightarrow> bool" where
  "of_sport sp row \<longleftrightarrow> says_or_silent (jget row ''sport'') (py_upper sp)"

definition in_scope :: "string \<Rightarrow> string \<Rightarrow> jobj \<Rightarrow> bool" where
  "in_scope sp platform row \<longleftrightarrow> is_active row \<and> on_platform platform row \<and> of_sport sp row"

text \<open>A ticker and a side are a key when both are texts and neither is blank, whatever their case and outer space.\<close>

fun spelled_key :: "json \<Rightarrow> json \<Rightarrow> (string \<times> string) option" where
  "spelled_key (JStr t) (JStr s) =
     (if blank t \<or> blank s then None else Some (py_upper (py_strip t), py_upper (py_strip s)))"
| "spelled_key _ _ = None"

definition row_key :: "jobj \<Rightarrow> (string \<times> string) option" where
  "row_key row = spelled_key (jget row ''marketTicker'') (jget row ''side'')"

definition wager_key :: "compared_wager \<Rightarrow> (string \<times> string) option" where
  "wager_key w = spelled_key (cw_market_ticker w) (cw_side w)"

definition rows_for :: "string \<Rightarrow> string \<Rightarrow> jobj list \<Rightarrow> string \<times> string \<Rightarrow> jobj list" where
  "rows_for sp platform rows k = filter (\<lambda>row. in_scope sp platform row \<and> row_key row = Some k) rows"

definition wagers_for :: "compared_wager list \<Rightarrow> string \<times> string \<Rightarrow> compared_wager list" where
  "wagers_for ws k = filter (\<lambda>w. wager_key w = Some k) ws"

text \<open>Two amounts: close within the tolerance, apart by more, not comparable, or not to be compared at all.\<close>

definition close_to :: "decimal \<Rightarrow> decimal option \<Rightarrow> money option \<Rightarrow> bool" where
  "close_to tolerance a b =
     (case (a, b) of (Some x, Some (Finite y)) \<Rightarrow> dabs (dsub x y) \<le> tolerance | _ \<Rightarrow> False)"

definition apart_from :: "decimal \<Rightarrow> decimal option \<Rightarrow> money option \<Rightarrow> bool" where
  "apart_from tolerance a b =
     (case (a, b) of
        (Some x, Some (Finite y)) \<Rightarrow> tolerance < dabs (dsub x y)
      | (Some x, Some Infinite) \<Rightarrow> True
      | _ \<Rightarrow> False)"

definition not_a_number :: "decimal option \<Rightarrow> money option \<Rightarrow> bool" where
  "not_a_number a b \<longleftrightarrow> a \<noteq> None \<and> b = Some NotANumber"

definition row_stake :: "jobj \<Rightarrow> money option" where "row_stake row = money_of (jget row ''stake'')"
definition row_price :: "jobj \<Rightarrow> money option" where "row_price row = money_of (jget row ''entryPrice'')"

text \<open>Two results, as upper-case texts without outer space.\<close>

definition stated_results :: "compared_wager \<Rightarrow> jobj \<Rightarrow> (string \<times> string) option" where
  "stated_results w row =
     (case (cw_result w, jget row ''result'') of
        (Some a, JStr b) \<Rightarrow> Some (py_upper (py_strip a), py_upper (py_strip b))
      | _ \<Rightarrow> None)"

text \<open>How many keys have exactly one row and one wager, and these are related so.\<close>

definition matched_with ::
  "(string \<times> string \<Rightarrow> jobj list) \<Rightarrow> (string \<times> string \<Rightarrow> compared_wager list) \<Rightarrow> (compared_wager \<Rightarrow> jobj \<Rightarrow> bool) \<Rightarrow> nat" where
  "matched_with R W P = card {k. \<exists>row w. R k = [row] \<and> W k = [w] \<and> P w row}"

section \<open>Each key moves the counters of its own list\<close>

definition money_name :: "string \<Rightarrow> decimal \<Rightarrow> decimal option \<Rightarrow> money option \<Rightarrow> string" where
  "money_name field tolerance a b = field @
     (if a = None \<or> b = None then ''_not_comparable'' else if close_to tolerance a b then ''_agrees'' else ''_disagrees'')"

definition result_name :: "compared_wager \<Rightarrow> jobj \<Rightarrow> string" where
  "result_name w row = (case stated_results w row of
       None \<Rightarrow> ''result_not_comparable''
     | Some (a, b) \<Rightarrow> if a = b then ''result_agrees'' else ''result_disagrees'')"

definition raises :: "compared_wager \<Rightarrow> jobj \<Rightarrow> bool" where
  "raises w row \<longleftrightarrow> not_a_number (cw_stake w) (row_stake row) \<or> not_a_number (cw_entry_price w) (row_price row)"

definition score_names :: "compared_wager \<Rightarrow> jobj \<Rightarrow> string list" where
  "score_names w row = [money_name ''stake'' (1 / 100) (cw_stake w) (row_stake row),
     money_name ''price'' (5 / 1000) (cw_entry_price w) (row_price row), result_name w row]"

definition key_names :: "jobj list \<Rightarrow> compared_wager list \<Rightarrow> string list" where
  "key_names rs ws =
     (if 1 < length rs \<or> 1 < length ws then [''ambiguous_multiplicity_keys'']
      else if rs = [] then [''router_only_keys'']
      else if ws = [] then [''ledger_only_keys'']
      else ''matched_keys'' # score_names (hd ws) (hd rs))"

definition key_raises :: "jobj list \<Rightarrow> compared_wager list \<Rightarrow> bool" where
  "key_raises rs ws \<longleftrightarrow> (\<exists>row w. rs = [row] \<and> ws = [w] \<and> raises w row)"

lemma score_money_eq:
  "score_money a b tolerance f d =
     (if not_a_number a b then Inl InvalidOperation else Inr (bump (money_name f tolerance a b) d))"
  by (auto simp: score_money_def money_name_def not_a_number_def close_to_def beyond_def not_less split: option.split money.split)

lemma score_result_eq: "score_result (cw_result w) (jget row ''result'') d = bump (result_name w row) d"
  by (auto simp: score_result_def result_name_def stated_results_def split: option.split json.split)

lemma score_eq: "score w row d = (if raises w row then Inl InvalidOperation else Inr (bumps (score_names w row) d))"
  by (simp add: score_def score_money_eq score_result_eq raises_def score_names_def row_stake_def row_price_def
      STAKE_TOLERANCE_def PRICE_TOLERANCE_def)

lemma compare_key_eq:
  "compare_key ledger router k d =
     (if key_raises (hits ledger k) (hits router k) then Inl InvalidOperation
      else Inr (bumps (key_names (hits ledger k) (hits router k)) d))"
proof -
  consider (many) "1 < length (hits ledger k) \<or> 1 < length (hits router k)"
    | (none) "hits ledger k = []" "length (hits router k) \<le> 1"
    | (ledger) x where "hits ledger k = [x]" "hits router k = []"
    | (both) x y where "hits ledger k = [x]" "hits router k = [y]"
    by (cases "hits ledger k" rule: remdups_adj.cases; cases "hits router k" rule: remdups_adj.cases) auto
  then show ?thesis
  proof cases
    case many
    then show ?thesis by (auto simp: compare_key_def key_names_def key_raises_def split: list.split)
  next
    case none
    then show ?thesis by (auto simp: compare_key_def key_names_def key_raises_def split: list.split)
  qed (simp_all add: compare_key_def key_names_def key_raises_def score_eq)
qed

lemma compare_keys_eq:
  "compare_keys ledger router ks d =
     (if \<exists>k \<in> set ks. key_raises (hits ledger k) (hits router k) then Inl InvalidOperation
      else Inr (foldl (\<lambda>d k. bumps (key_names (hits ledger k) (hits router k)) d) d ks))"
  by (induction ks arbitrary: d) (simp_all add: compare_key_eq)

section \<open>Every counter, against the reference\<close>

lemma ledger_key_spelled: "ledger_key ticker side = spelled_key ticker side"
  by (cases "(ticker, side)" rule: spelled_key.cases) (auto simp: ledger_key_def text_of_field_def split: json.split)

lemma stated_otherwise_says: "stated_otherwise v wanted \<longleftrightarrow> \<not> says_or_silent v wanted"
  by (simp add: stated_otherwise_def says_or_silent_def)

lemma read_row_eq:
  "read_row sp platform row =
     (if \<not> is_active row then Inl ''ledger_rows_not_active''
      else if \<not> on_platform platform row then Inl ''ledger_rows_other_platform''
      else if \<not> of_sport sp row then Inl ''ledger_rows_other_sport''
      else case row_key row of None \<Rightarrow> Inl ''ledger_rows_without_ticker'' | Some key \<Rightarrow> Inr key)"
  by (simp add: read_row_def stated_otherwise_says is_active_def on_platform_def of_sport_def row_key_def ledger_key_spelled)

lemma read_row_key: "read_row sp platform row = Inr k \<longleftrightarrow> in_scope sp platform row \<and> row_key row = Some k"
  by (auto simp: read_row_eq in_scope_def split: option.split)

lemma row_totals:
  "total (row_names sp platform) rows ''ledger_rows_read'' = length rows"
  "total (row_names sp platform) rows ''ledger_rows_not_active'' = length (filter (\<lambda>row. \<not> is_active row) rows)"
  "total (row_names sp platform) rows ''ledger_rows_other_platform''
     = length (filter (\<lambda>row. is_active row \<and> \<not> on_platform platform row) rows)"
  "total (row_names sp platform) rows ''ledger_rows_other_sport''
     = length (filter (\<lambda>row. is_active row \<and> on_platform platform row \<and> \<not> of_sport sp row) rows)"
  "total (row_names sp platform) rows ''ledger_rows_without_ticker''
     = length (filter (\<lambda>row. in_scope sp platform row \<and> row_key row = None) rows)"
  "total (row_names sp platform) rows ''ledger_rows_compared''
     = length (filter (\<lambda>row. in_scope sp platform row \<and> row_key row \<noteq> None) rows)"
proof -
  show "total (row_names sp platform) rows ''ledger_rows_read'' = length rows"
    using total_filter [of "row_names sp platform" "''ledger_rows_read''" "\<lambda>_. True" rows]
    by (simp add: row_names_def read_row_eq split: option.split)
qed (rule total_filter, simp add: row_names_def read_row_eq in_scope_def split: option.split)+

lemma wager_totals:
  "total wager_names ws ''router_wagers_built'' = length ws"
  "total wager_names ws ''router_wagers_without_ticker'' = length (filter (\<lambda>w. wager_key w = None) ws)"
proof -
  show "total wager_names ws ''router_wagers_built'' = length ws"
    using total_filter [of wager_names "''router_wagers_built''" "\<lambda>_. True" ws] by (simp add: wager_names_def)
qed (rule total_filter, simp add: wager_names_def wager_key_def ledger_key_spelled)

text \<open>The stages of a comparison, with the grouped sides read off the inputs.\<close>

lemma comparison_stages:
  fixes sp platform rows ws
  defines "R \<equiv> rows_for sp platform rows" and "W \<equiv> wagers_for ws"
  obtains keys where "set keys = {k. R k \<noteq> [] \<or> W k \<noteq> []}"
    "\<exists>k. key_raises (R k) (W k) \<Longrightarrow> compare_to_ledger ws rows sp platform = Inl InvalidOperation"
    "\<nexists>k. key_raises (R k) (W k) \<Longrightarrow> \<exists>d. compare_to_ledger ws rows sp platform = Inr d
       \<and> (\<forall>n. d n = total (row_names sp platform) rows n + total wager_names ws n
              + total (\<lambda>k. key_names (R k) (W k)) (sorted_set keys) n)"
proof -
  obtain ledger d1 where l: "group_ledger sp platform rows [] no_diagnostics = (ledger, d1)" by force
  obtain router d2 where r: "group_wagers ws [] d1 = (router, d2)" by force
  have hits: "hits ledger = R" "hits router = W"
    using group_ledger_eq [OF l] group_wagers_eq [OF r]
    by (simp_all add: fun_eq_iff hits_def R_def W_def rows_for_def wagers_for_def wager_key_def read_row_key ledger_key_spelled)
  let ?keys = "dkeys ledger @ dkeys router"
  have keys: "set ?keys = {k. R k \<noteq> [] \<or> W k \<noteq> []}"
    using group_ledger_eq [OF l] group_wagers_eq [OF r]
    by (auto simp: R_def W_def rows_for_def wagers_for_def wager_key_def read_row_key ledger_key_spelled filter_empty_conv)
  have d2: "d2 n = total (row_names sp platform) rows n + total wager_names ws n" for n
    using group_ledger_eq [OF l, of n] group_wagers_eq [OF r, of n] by (simp add: no_diagnostics_def)
  have raising: "(\<exists>k \<in> set (sorted_set ?keys). key_raises (R k) (W k)) \<longleftrightarrow> (\<exists>k. key_raises (R k) (W k))"
  proof -
    have "k \<in> set ?keys" if "key_raises (R k) (W k)" for k
      unfolding keys using that by (auto simp: key_raises_def)
    then show ?thesis by (metis sorted_set_simps(1))
  qed
  have run: "compare_to_ledger ws rows sp platform =
      (if \<exists>k. key_raises (R k) (W k) then Inl InvalidOperation
       else Inr (foldl (\<lambda>d k. bumps (key_names (R k) (W k)) d) d2 (sorted_set ?keys)))"
    unfolding compare_to_ledger_def l prod.case r compare_keys_eq hits raising by simp
  show thesis by (rule that [OF keys]) (simp_all add: run foldl_bumps d2)
qed

text \<open>The names a key moves, once each.\<close>

lemma key_shape:
  assumes "rs \<noteq> [] \<or> ws \<noteq> []"
  obtains (many) "1 < length rs \<or> 1 < length ws" "key_names rs ws = [''ambiguous_multiplicity_keys'']"
  | (router) w where "rs = []" "ws = [w]" "key_names rs ws = [''router_only_keys'']"
  | (ledger) row where "rs = [row]" "ws = []" "key_names rs ws = [''ledger_only_keys'']"
  | (both) row w where "rs = [row]" "ws = [w]" "key_names rs ws = ''matched_keys'' # score_names w row"
  using assms
  by (cases rs rule: remdups_adj.cases; cases ws rule: remdups_adj.cases) (auto simp: key_names_def)

definition BUCKETS :: "string list" where
  "BUCKETS = [''ambiguous_multiplicity_keys'', ''router_only_keys'', ''ledger_only_keys'', ''matched_keys'']"

lemma score_names_apart: "n \<in> set BUCKETS \<Longrightarrow> n \<notin> set (score_names w row)" "distinct (score_names w row)"
  by (auto simp: BUCKETS_def score_names_def money_name_def result_name_def split: option.split)

lemma bucket_counts:
  assumes "rs \<noteq> [] \<or> ws \<noteq> []"
  shows "count_list (key_names rs ws) ''ambiguous_multiplicity_keys'' = (if 1 < length rs \<or> 1 < length ws then 1 else 0)"
    "count_list (key_names rs ws) ''router_only_keys'' = (if rs = [] \<and> length ws = 1 then 1 else 0)"
    "count_list (key_names rs ws) ''ledger_only_keys'' = (if length rs = 1 \<and> ws = [] then 1 else 0)"
    "count_list (key_names rs ws) ''matched_keys'' = (if \<exists>row w. rs = [row] \<and> ws = [w] then 1 else 0)"
proof -
  have none: "n \<in> set BUCKETS \<Longrightarrow> count_list (score_names w row) n = 0" for n w row
    by (simp add: count_list_0_iff score_names_apart(1))
  show "count_list (key_names rs ws) ''ambiguous_multiplicity_keys'' = (if 1 < length rs \<or> 1 < length ws then 1 else 0)"
    "count_list (key_names rs ws) ''router_only_keys'' = (if rs = [] \<and> length ws = 1 then 1 else 0)"
    "count_list (key_names rs ws) ''ledger_only_keys'' = (if length rs = 1 \<and> ws = [] then 1 else 0)"
    "count_list (key_names rs ws) ''matched_keys'' = (if \<exists>row w. rs = [row] \<and> ws = [w] then 1 else 0)"
    using assms by (cases rule: key_shape; auto simp: none BUCKETS_def)+
qed

lemma count_distinct: "distinct xs \<Longrightarrow> count_list xs n = (if n \<in> set xs then 1 else 0)"
  by (induction xs) (auto simp: count_list_0_iff)

lemma score_count:
  assumes "rs \<noteq> [] \<or> ws \<noteq> []" and "n \<notin> set BUCKETS"
  shows "count_list (key_names rs ws) n = (if \<exists>row w. rs = [row] \<and> ws = [w] \<and> n \<in> set (score_names w row) then 1 else 0)"
  using assms(1)
proof (cases rule: key_shape)
  case (both row w)
  have "count_list (score_names w row) n = (if n \<in> set (score_names w row) then 1 else 0)"
    using score_names_apart(2) by (rule count_distinct)
  then show ?thesis using both assms(2) by (auto simp: BUCKETS_def)
qed (use assms(2) in \<open>auto simp: BUCKETS_def\<close>)

lemma apart_iff:
  "\<not> not_a_number a b \<Longrightarrow> apart_from tolerance a b \<longleftrightarrow> a \<noteq> None \<and> b \<noteq> None \<and> \<not> close_to tolerance a b"
  by (auto simp: not_a_number_def apart_from_def close_to_def split: option.split money.split)

lemma score_names_mem:
  assumes "\<not> raises w row"
  shows "''stake_agrees'' \<in> set (score_names w row) \<longleftrightarrow> close_to (1 / 100) (cw_stake w) (row_stake row)"
    "''stake_disagrees'' \<in> set (score_names w row) \<longleftrightarrow> apart_from (1 / 100) (cw_stake w) (row_stake row)"
    "''stake_not_comparable'' \<in> set (score_names w row) \<longleftrightarrow> cw_stake w = None \<or> row_stake row = None"
    "''price_agrees'' \<in> set (score_names w row) \<longleftrightarrow> close_to (5 / 1000) (cw_entry_price w) (row_price row)"
    "''price_disagrees'' \<in> set (score_names w row) \<longleftrightarrow> apart_from (5 / 1000) (cw_entry_price w) (row_price row)"
    "''price_not_comparable'' \<in> set (score_names w row) \<longleftrightarrow> cw_entry_price w = None \<or> row_price row = None"
    "''result_agrees'' \<in> set (score_names w row) \<longleftrightarrow> (case stated_results w row of None \<Rightarrow> False | Some (a, b) \<Rightarrow> a = b)"
    "''result_disagrees'' \<in> set (score_names w row) \<longleftrightarrow> (case stated_results w row of None \<Rightarrow> False | Some (a, b) \<Rightarrow> a \<noteq> b)"
    "''result_not_comparable'' \<in> set (score_names w row) \<longleftrightarrow> stated_results w row = None"
proof -
  have parts: "\<not> not_a_number (cw_stake w) (row_stake row)" "\<not> not_a_number (cw_entry_price w) (row_price row)"
    using assms by (simp_all add: raises_def)
  have close: "close_to t a b \<Longrightarrow> a \<noteq> None \<and> b \<noteq> None" for t a b by (auto simp: close_to_def split: option.splits)
  show "''stake_agrees'' \<in> set (score_names w row) \<longleftrightarrow> close_to (1 / 100) (cw_stake w) (row_stake row)"
    "''stake_disagrees'' \<in> set (score_names w row) \<longleftrightarrow> apart_from (1 / 100) (cw_stake w) (row_stake row)"
    "''stake_not_comparable'' \<in> set (score_names w row) \<longleftrightarrow> cw_stake w = None \<or> row_stake row = None"
    "''price_agrees'' \<in> set (score_names w row) \<longleftrightarrow> close_to (5 / 1000) (cw_entry_price w) (row_price row)"
    "''price_disagrees'' \<in> set (score_names w row) \<longleftrightarrow> apart_from (5 / 1000) (cw_entry_price w) (row_price row)"
    "''price_not_comparable'' \<in> set (score_names w row) \<longleftrightarrow> cw_entry_price w = None \<or> row_price row = None"
    by (auto simp: score_names_def money_name_def result_name_def apart_iff parts split: option.split dest: close)
  show "''result_agrees'' \<in> set (score_names w row) \<longleftrightarrow> (case stated_results w row of None \<Rightarrow> False | Some (a, b) \<Rightarrow> a = b)"
    "''result_disagrees'' \<in> set (score_names w row) \<longleftrightarrow> (case stated_results w row of None \<Rightarrow> False | Some (a, b) \<Rightarrow> a \<noteq> b)"
    "''result_not_comparable'' \<in> set (score_names w row) \<longleftrightarrow> stated_results w row = None"
    by (auto simp: score_names_def money_name_def result_name_def split: option.split)
qed

lemma row_prefix: "n \<in> set (row_names sp platform row) \<Longrightarrow> take 11 n = ''ledger_rows''"
  by (auto simp: row_names_def read_row_eq split: option.splits if_splits)

lemma wager_prefix: "n \<in> set (wager_names w) \<Longrightarrow> take 13 n = ''router_wagers''"
  by (auto simp: wager_names_def split: if_splits)

lemma score_prefix: "n \<in> set (score_names w row) \<Longrightarrow> take 2 n \<in> {''st'', ''pr'', ''re''}"
  by (auto simp: score_names_def money_name_def result_name_def split: option.splits if_splits)

lemma key_prefix:
  assumes "n \<in> set (key_names rs ws)"
  shows "take 11 n \<noteq> ''ledger_rows''" "take 13 n \<noteq> ''router_wagers''"
proof -
  from assms consider "n \<in> set BUCKETS" | w row where "n \<in> set (score_names w row)"
    by (auto simp: key_names_def BUCKETS_def split: if_splits)
  then have "take 11 n \<noteq> ''ledger_rows'' \<and> take 13 n \<noteq> ''router_wagers''"
  proof cases
    case 1
    then show ?thesis by (auto simp: BUCKETS_def)
  next
    case 2
    have "take 2 (take 11 n) = take 2 n" "take 2 (take 13 n) = take 2 n" by simp_all
    then show ?thesis using score_prefix [OF 2] by fastforce
  qed
  then show "take 11 n \<noteq> ''ledger_rows''" "take 13 n \<noteq> ''router_wagers''" by simp_all
qed

lemma other_totals:
  "take 11 n \<noteq> ''ledger_rows'' \<Longrightarrow> total (row_names sp platform) rows n = 0"
  "take 13 n \<noteq> ''router_wagers'' \<Longrightarrow> total wager_names ws n = 0"
  "take 11 n = ''ledger_rows'' \<or> take 13 n = ''router_wagers'' \<Longrightarrow> total (\<lambda>k. key_names (R k) (W k)) ks n = 0"
  using row_prefix wager_prefix key_prefix by (blast intro: total_zero)+

text \<open>A bucket of keys, and a score of the matched ones, over the keys that occur.\<close>

lemma bucket_totals:
  assumes keys: "set keys = {k. R k \<noteq> [] \<or> W k \<noteq> []}"
  shows "total (\<lambda>k. key_names (R k) (W k)) (sorted_set keys) ''ambiguous_multiplicity_keys''
      = card {k. 1 < length (R k) \<or> 1 < length (W k)}"
    "total (\<lambda>k. key_names (R k) (W k)) (sorted_set keys) ''router_only_keys'' = card {k. R k = [] \<and> length (W k) = 1}"
    "total (\<lambda>k. key_names (R k) (W k)) (sorted_set keys) ''ledger_only_keys'' = card {k. length (R k) = 1 \<and> W k = []}"
    "total (\<lambda>k. key_names (R k) (W k)) (sorted_set keys) ''matched_keys'' = matched_with R W (\<lambda>_ _. True)"
  unfolding matched_with_def by (rule total_card; use keys bucket_counts in auto)+

lemma accounted_total:
  fixes R :: "string \<times> string \<Rightarrow> jobj list"
  assumes "set keys = {k. R k \<noteq> [] \<or> W k \<noteq> []}"
  defines "t \<equiv> total (\<lambda>k. key_names (R k) (W k)) (sorted_set keys)"
  shows "t ''matched_keys'' + t ''router_only_keys'' + t ''ledger_only_keys'' + t ''ambiguous_multiplicity_keys''
    = card {k. R k \<noteq> [] \<or> W k \<noteq> []}"
proof -
  have sum: "total f ks a + total f ks b + total f ks c + total f ks e = length ks"
    if "\<And>k. k \<in> set ks \<Longrightarrow> count_list (f k) a + count_list (f k) b + count_list (f k) c + count_list (f k) e = 1"
    for f :: "string \<times> string \<Rightarrow> string list" and ks a b c e
    using that
  proof (induction ks)
    case (Cons k ks)
    have "count_list (f k) a + count_list (f k) b + count_list (f k) c + count_list (f k) e = 1"
      by (rule Cons.prems) simp
    moreover have "total f ks a + total f ks b + total f ks c + total f ks e = length ks"
      using Cons.prems by (intro Cons.IH) simp
    ultimately show ?case by simp
  qed simp
  have "t ''matched_keys'' + t ''router_only_keys'' + t ''ledger_only_keys'' + t ''ambiguous_multiplicity_keys''
      = length (sorted_set keys)"
    unfolding t_def
  proof (rule sum)
    fix k
    assume "k \<in> set (sorted_set keys)"
    then have k: "R k \<noteq> [] \<or> W k \<noteq> []" using assms(1) by simp
    show "count_list (key_names (R k) (W k)) ''matched_keys'' + count_list (key_names (R k) (W k)) ''router_only_keys''
      + count_list (key_names (R k) (W k)) ''ledger_only_keys'' + count_list (key_names (R k) (W k)) ''ambiguous_multiplicity_keys'' = 1"
      unfolding bucket_counts [OF k] using k by (cases rule: key_shape) auto
  qed
  then show ?thesis using distinct_card [of "sorted_set keys"] assms(1) by simp
qed

lemma score_total:
  assumes keys: "set keys = {k. R k \<noteq> [] \<or> W k \<noteq> []}" and quiet: "\<nexists>k. key_raises (R k) (W k)"
    and n: "n \<notin> set BUCKETS" "\<And>w row. \<not> raises w row \<Longrightarrow> n \<in> set (score_names w row) \<longleftrightarrow> P w row"
  shows "total (\<lambda>k. key_names (R k) (W k)) (sorted_set keys) n = matched_with R W P"
  unfolding matched_with_def
proof (rule total_card)
  fix k
  assume "k \<in> set keys"
  then have "R k \<noteq> [] \<or> W k \<noteq> []" using keys by simp
  moreover have "(\<exists>row w. R k = [row] \<and> W k = [w] \<and> n \<in> set (score_names w row)) \<longleftrightarrow> (\<exists>row w. R k = [row] \<and> W k = [w] \<and> P w row)"
    using quiet n(2) unfolding key_raises_def by blast
  ultimately show "count_list (key_names (R k) (W k)) n = (if \<exists>row w. R k = [row] \<and> W k = [w] \<and> P w row then 1 else 0)"
    using score_count [OF _ n(1)] by simp
next
  fix k
  assume "\<exists>row w. R k = [row] \<and> W k = [w] \<and> P w row"
  then have "R k \<noteq> []" by auto
  then show "k \<in> set keys" by (simp add: keys)
qed

text \<open>
  C33. The comparison reports what a direct count of its inputs gives, in each of its counters. Rows: read, not
  active, of another platform, of another sport, without a key, compared; each reason excludes the ones before it.
  Wagers: built, without a key. Keys: with one row and one wager (matched), with a single wager or a single row only,
  and with more than one on a side (ambiguous); these four account for every key. Of the matched keys: how many stakes are within a cent and how many
  further apart, how many entry prices within half a cent and how many further apart, how many results are the same
  word and how many are not, and how many of each cannot be compared. It fails exactly when a matched key is to be
  compared with a ledger amount that is not a number.
\<close>

theorem comparison_matches_reference:
  "let R = rows_for sp platform rows; W = wagers_for ws; M = matched_with R W;
       stuck = (\<exists>k row w. R k = [row] \<and> W k = [w]
         \<and> (not_a_number (cw_stake w) (row_stake row) \<or> not_a_number (cw_entry_price w) (row_price row))) in
   case compare_to_ledger ws rows sp platform of
     Inl e \<Rightarrow> e = InvalidOperation \<and> stuck
   | Inr d \<Rightarrow> \<not> stuck
     \<and> d ''ledger_rows_read'' = length rows
     \<and> d ''ledger_rows_not_active'' = length (filter (\<lambda>row. \<not> is_active row) rows)
     \<and> d ''ledger_rows_other_platform'' = length (filter (\<lambda>row. is_active row \<and> \<not> on_platform platform row) rows)
     \<and> d ''ledger_rows_other_sport''
         = length (filter (\<lambda>row. is_active row \<and> on_platform platform row \<and> \<not> of_sport sp row) rows)
     \<and> d ''ledger_rows_without_ticker'' = length (filter (\<lambda>row. in_scope sp platform row \<and> row_key row = None) rows)
     \<and> d ''ledger_rows_compared'' = length (filter (\<lambda>row. in_scope sp platform row \<and> row_key row \<noteq> None) rows)
     \<and> d ''router_wagers_built'' = length ws
     \<and> d ''router_wagers_without_ticker'' = length (filter (\<lambda>w. wager_key w = None) ws)
     \<and> d ''ambiguous_multiplicity_keys'' = card {k. 1 < length (R k) \<or> 1 < length (W k)}
     \<and> d ''router_only_keys'' = card {k. R k = [] \<and> length (W k) = 1}
     \<and> d ''ledger_only_keys'' = card {k. length (R k) = 1 \<and> W k = []}
     \<and> d ''matched_keys'' = M (\<lambda>_ _. True) \<and> keys_accounted d = card {k. R k \<noteq> [] \<or> W k \<noteq> []}
     \<and> d ''stake_agrees'' = M (\<lambda>w row. close_to (1 / 100) (cw_stake w) (row_stake row))
     \<and> d ''stake_disagrees'' = M (\<lambda>w row. apart_from (1 / 100) (cw_stake w) (row_stake row))
     \<and> d ''stake_not_comparable'' = M (\<lambda>w row. cw_stake w = None \<or> row_stake row = None)
     \<and> d ''price_agrees'' = M (\<lambda>w row. close_to (5 / 1000) (cw_entry_price w) (row_price row))
     \<and> d ''price_disagrees'' = M (\<lambda>w row. apart_from (5 / 1000) (cw_entry_price w) (row_price row))
     \<and> d ''price_not_comparable'' = M (\<lambda>w row. cw_entry_price w = None \<or> row_price row = None)
     \<and> d ''result_agrees'' = M (\<lambda>w row. case stated_results w row of None \<Rightarrow> False | Some (a, b) \<Rightarrow> a = b)
     \<and> d ''result_disagrees'' = M (\<lambda>w row. case stated_results w row of None \<Rightarrow> False | Some (a, b) \<Rightarrow> a \<noteq> b)
     \<and> d ''result_not_comparable'' = M (\<lambda>w row. stated_results w row = None)"
proof -
  let ?R = "rows_for sp platform rows" and ?W = "wagers_for ws"
  obtain keys where keys: "set keys = {k. ?R k \<noteq> [] \<or> ?W k \<noteq> []}"
    and raised: "\<exists>k. key_raises (?R k) (?W k) \<Longrightarrow> compare_to_ledger ws rows sp platform = Inl InvalidOperation"
    and quiet: "\<nexists>k. key_raises (?R k) (?W k) \<Longrightarrow> \<exists>d. compare_to_ledger ws rows sp platform = Inr d
       \<and> (\<forall>n. d n = total (row_names sp platform) rows n + total wager_names ws n
              + total (\<lambda>k. key_names (?R k) (?W k)) (sorted_set keys) n)"
    by (rule comparison_stages [of sp platform rows ws]) blast
  show ?thesis
  proof (cases "\<exists>k. key_raises (?R k) (?W k)")
    case True
    then show ?thesis using raised unfolding Let_def key_raises_def raises_def by simp
  next
    case False
    obtain d where run: "compare_to_ledger ws rows sp platform = Inr d"
      and d: "\<And>n. d n = total (row_names sp platform) rows n + total wager_names ws n
              + total (\<lambda>k. key_names (?R k) (?W k)) (sorted_set keys) n" using quiet [OF False] by blast
    have accounted: "keys_accounted d = card {k. ?R k \<noteq> [] \<or> ?W k \<noteq> []}"
      using accounted_total [OF keys] by (simp add: keys_accounted_def d other_totals del: total_simps)
    note scores = score_names_mem [THEN score_total [OF keys False, rotated]]
    have "\<nexists>k row w. ?R k = [row] \<and> ?W k = [w]
        \<and> (not_a_number (cw_stake w) (row_stake row) \<or> not_a_number (cw_entry_price w) (row_price row))"
      using False unfolding key_raises_def raises_def by blast
    then show ?thesis unfolding Let_def run sum.case accounted
      by (simp add: d row_totals wager_totals other_totals bucket_totals [OF keys] scores BUCKETS_def)
  qed
qed

theorem comparison_matches_reference_witness:
  "let row = [(''recordStatus'', JStr ''ACTIVE''), (''marketTicker'', JStr ''kx-1''), (''side'', JStr ''yes''), (''stake'', JStr ''4.80'')];
       w = \<lparr>cw_market_ticker = JStr ''KX-1'', cw_side = JStr ''YES'', cw_stake = Some (24 / 5), cw_entry_price = None, cw_result = None\<rparr>
   in matched_with (rows_for ''MLB'' ''KALSHI'' [row]) (wagers_for [w]) (\<lambda>w row. close_to (1 / 100) (cw_stake w) (row_stake row)) = 1"
proof -
  let ?row = "[(''recordStatus'', JStr ''ACTIVE''), (''marketTicker'', JStr ''kx-1''), (''side'', JStr ''yes''), (''stake'', JStr ''4.80'')]"
  let ?w = "\<lparr>cw_market_ticker = JStr ''KX-1'', cw_side = JStr ''YES'', cw_stake = Some (24 / 5), cw_entry_price = None, cw_result = None\<rparr>"
  have "case compare_to_ledger [?w] [?row] ''MLB'' ''KALSHI'' of Inr d \<Rightarrow> d ''stake_agrees'' = 1 | Inl _ \<Rightarrow> False"
    by code_simp
  then obtain d where d: "compare_to_ledger [?w] [?row] ''MLB'' ''KALSHI'' = Inr d" "d ''stake_agrees'' = 1"
    by (auto split: sum.splits)
  show ?thesis
    using comparison_matches_reference [of "''MLB''" "''KALSHI''" "[?row]" "[?w]"] d(2) unfolding Let_def d(1) sum.case by metis
qed

end
