(* ===== verification/Backfill.thy ===== *)
theory Backfill
  imports LedgerCompare
begin

text \<open>
  \<^verbatim>\<open>backfill.py\<close>: the one-time catch-up between a start the caller names and the production cutover.
  A reconstructed wager is matched against the rows its destination already holds, in the destination's own
  vocabulary, and only a wager with no row is importable.

  The lemmas: a wager whose row was written is recognised by its source key; a wager that is not importable keeps
  its verdict; so a second run over the written ledger imports nothing.
\<close>

definition BACKFILL_IMPORT_BATCH_ID :: string where
  "BACKFILL_IMPORT_BATCH_ID = ''kalshi-gap-backfill-2026-09-12-through-production-cutover-v1''"

section \<open>The destination's words\<close>

definition accounted_vocabulary :: "string \<Rightarrow> (string, string) dict" where
  "accounted_vocabulary price =
     [(''source_bet_key'', ''source_bet_key''), (''market_ticker'', ''market_ticker''), (''side'', ''side''),
      (''stake'', ''stake''), (''entry_price'', price)]"

definition LEDGER_VOCABULARIES :: "(string, (string, string) dict) dict" where
  "LEDGER_VOCABULARIES =
     [(''MLB'', [(''source_bet_key'', ''sourceBetKey''), (''market_ticker'', ''marketTicker''), (''side'', ''side''),
        (''stake'', ''stake''), (''entry_price'', ''entryPrice'')]),
      (''NFL'', accounted_vocabulary ''actual_price''),
      (''CFB'', accounted_vocabulary ''execution_price''),
      (''NHL'', accounted_vocabulary ''execution_price''),
      (''NBA'', accounted_vocabulary ''execution_price''),
      (''SOCCER'', accounted_vocabulary ''execution_price''),
      (''TENNIS'', accounted_vocabulary ''execution_price'')]"

definition CANONICAL_LEDGER_FIELDS :: "string list" where
  "CANONICAL_LEDGER_FIELDS = [''source_bet_key'', ''market_ticker'', ''side'', ''stake'', ''entry_price'']"

definition normalize_ledger_row :: "string \<Rightarrow> jobj \<Rightarrow> jobj result" where
  "normalize_ledger_row sp row =
     (case dget LEDGER_VOCABULARIES sp of
        None \<Rightarrow> Inl UnreadableLedger
      | Some vocabulary \<Rightarrow>
          traverse (\<lambda>canonical. case dget vocabulary canonical of
              None \<Rightarrow> Inl KeyError
            | Some word \<Rightarrow> Inr (canonical, jget row word)) CANONICAL_LEDGER_FIELDS)"

section \<open>Verdicts\<close>

datatype backfill_verdict =
    EXACT_EXISTING
  | DUPLICATE_NOOP
  | MISSING_IMPORTABLE
  | AMBIGUOUS
  | CONFLICT
  | UNSUPPORTED_DESTINATION

definition window_start_seconds :: "string \<Rightarrow> decimal result" where
  "window_start_seconds start_iso =
     (case parse_rfc3339_seconds (Some start_iso) of None \<Rightarrow> Inl ValueError | Some t \<Rightarrow> Inr t)"

text \<open>\<open>__post_init__\<close>: the start must be readable and precede the cutover.\<close>

definition BackfillWindow :: "string \<Rightarrow> string result" where
  "BackfillWindow start_iso =
     rbind (window_start_seconds start_iso) (\<lambda>start.
     rbind production_cutover_seconds (\<lambda>end_seconds.
     if end_seconds \<le> start then Inl ValueError else Inr start_iso))"

definition contains :: "string \<Rightarrow> order_execution \<Rightarrow> bool result" where
  "contains start_iso x =
     rbind (window_start_seconds start_iso) (\<lambda>start.
     if \<not> start \<le> o_first_execution_time x then Inr False
     else rbind production_cutover_seconds (\<lambda>end_seconds. Inr (o_first_execution_time x < end_seconds)))"

fun verdict_counter :: "backfill_verdict \<Rightarrow> string" where
  "verdict_counter EXACT_EXISTING = ''exact_existing''"
| "verdict_counter DUPLICATE_NOOP = ''duplicate_noop''"
| "verdict_counter MISSING_IMPORTABLE = ''missing_importable''"
| "verdict_counter AMBIGUOUS = ''ambiguous''"
| "verdict_counter CONFLICT = ''conflict''"
| "verdict_counter UNSUPPORTED_DESTINATION = ''unsupported_destination''"

definition ALL_VERDICTS :: "backfill_verdict list" where
  "ALL_VERDICTS = [EXACT_EXISTING, DUPLICATE_NOOP, MISSING_IMPORTABLE, AMBIGUOUS, CONFLICT, UNSUPPORTED_DESTINATION]"

definition reconciled :: "diagnostics \<Rightarrow> nat" where
  "reconciled d = d ''exact_existing'' + d ''duplicate_noop'' + d ''missing_importable'' + d ''ambiguous''
     + d ''conflict'' + d ''unsupported_destination''"

definition contradicts_itself :: "diagnostics \<Rightarrow> bool" where
  "contradicts_itself d \<longleftrightarrow> d ''orders_in_window'' < reconciled d"

text \<open>One comparison of the loop: absent or unreadable is no disagreement.\<close>

definition differs :: "decimal \<Rightarrow> json \<Rightarrow> decimal \<Rightarrow> bool result" where
  "differs wager_value row_value tolerance =
     (case money_of row_value of None \<Rightarrow> Inr False | Some m \<Rightarrow> beyond wager_value m tolerance)"

definition materially_disagrees :: "production_wager \<Rightarrow> jobj \<Rightarrow> bool result" where
  "materially_disagrees w row =
     rbind (differs (w_stake w) (jget row ''stake'') STAKE_TOLERANCE) (\<lambda>far.
     if far then Inr True
     else differs (w_vwap_price w) (jget row ''entry_price'') PRICE_TOLERANCE)"

definition row_key :: "jobj \<Rightarrow> (string \<times> string) option" where
  "row_key row = ledger_key (jget row ''market_ticker'') (jget row ''side'')"

definition wager_key :: "production_wager \<Rightarrow> (string \<times> string) option" where
  "wager_key w = ledger_key (JStr (w_market_ticker w)) (JStr (w_side w))"

definition reconcile_one ::
  "production_wager \<Rightarrow> jobj list \<Rightarrow> string list \<Rightarrow> backfill_verdict result" where
  "reconcile_one w ledger_rows supported_sports =
     (if w_sport w \<notin> set supported_sports then Inr UNSUPPORTED_DESTINATION
      else case wager_key w of
        None \<Rightarrow> Inr AMBIGUOUS
      | Some key \<Rightarrow>
          rbind (traverse (normalize_ledger_row (w_sport w)) ledger_rows) (\<lambda>rows.
          if \<exists>row \<in> set rows. jget row ''source_bet_key'' = JStr (w_source_key w) then Inr DUPLICATE_NOOP
          else case filter (\<lambda>row. row_key row = Some key) rows of
              [] \<Rightarrow> Inr MISSING_IMPORTABLE
            | [existing] \<Rightarrow>
                rbind (materially_disagrees w existing) (\<lambda>far. Inr (if far then CONFLICT else EXACT_EXISTING))
            | _ \<Rightarrow> Inr AMBIGUOUS))"

definition rows_of :: "(string, jobj list) dict \<Rightarrow> string \<Rightarrow> jobj list" where
  "rows_of by_sport sp = (case dget by_sport sp of None \<Rightarrow> [] | Some rows \<Rightarrow> rows)"

fun reconcile_loop ::
  "production_wager list \<Rightarrow> (string, jobj list) dict \<Rightarrow> string list \<Rightarrow> production_wager list \<Rightarrow> diagnostics
    \<Rightarrow> (production_wager list \<times> diagnostics) result" where
  "reconcile_loop [] by_sport supported importable d = Inr (importable, d)"
| "reconcile_loop (w # ws) by_sport supported importable d =
     rbind (reconcile_one w (rows_of by_sport (w_sport w)) supported) (\<lambda>verdict.
     reconcile_loop ws by_sport supported
       (if verdict = MISSING_IMPORTABLE then importable @ [w] else importable)
       (bump (verdict_counter verdict) d))"

definition reconcile ::
  "production_wager list \<Rightarrow> (string, jobj list) dict \<Rightarrow> string list \<Rightarrow> nat
    \<Rightarrow> (production_wager list \<times> diagnostics) result" where
  "reconcile ws by_sport supported orders_in_window =
     reconcile_loop ws by_sport supported [] (no_diagnostics(''orders_in_window'' := orders_in_window))"

section \<open>What the loop returns\<close>

definition verdict_in :: "(string, jobj list) dict \<Rightarrow> string list \<Rightarrow> production_wager \<Rightarrow> backfill_verdict result" where
  "verdict_in by_sport supported w = reconcile_one w (rows_of by_sport (w_sport w)) supported"

definition tallied :: "(production_wager \<Rightarrow> backfill_verdict) \<Rightarrow> production_wager list \<Rightarrow> diagnostics \<Rightarrow> diagnostics" where
  "tallied v ws d = foldl (\<lambda>d w. bump (verdict_counter (v w)) d) d ws"

lemma verdict_counter_inj [simp]: "verdict_counter x = verdict_counter y \<longleftrightarrow> x = y"
  by (cases x; cases y; simp)

lemma verdict_counter_other [simp]: "verdict_counter x \<noteq> ''orders_in_window''"
  by (cases x) simp_all

lemma tallied_apply:
  "tallied v ws d (verdict_counter x) = d (verdict_counter x) + length (filter (\<lambda>w. v w = x) ws)"
  "tallied v ws d ''orders_in_window'' = d ''orders_in_window''"
  by (induction ws arbitrary: d) (simp_all add: tallied_def bump_apply)

lemma reconcile_loop_eq:
  assumes "\<And>w. w \<in> set ws \<Longrightarrow> verdict_in by_sport supported w = Inr (v w)"
  shows "reconcile_loop ws by_sport supported importable d =
    Inr (importable @ filter (\<lambda>w. v w = MISSING_IMPORTABLE) ws, tallied v ws d)"
  using assms
proof (induction ws arbitrary: importable d)
  case (Cons w ws)
  have "reconcile_one w (rows_of by_sport (w_sport w)) supported = Inr (v w)"
    using Cons.prems by (simp add: verdict_in_def)
  with Cons show ?case by (simp add: tallied_def)
qed (simp add: tallied_def)

lemma reconcile_loop_verdicts:
  "reconcile_loop ws by_sport supported importable d = Inr z \<Longrightarrow> w \<in> set ws
    \<Longrightarrow> verdict_in by_sport supported w = Inr (projr (verdict_in by_sport supported w))"
proof (induction ws arbitrary: importable d)
  case (Cons w' ws)
  from Cons.prems(1) obtain x where x: "reconcile_one w' (rows_of by_sport (w_sport w')) supported = Inr x"
    and rest: "reconcile_loop ws by_sport supported (if x = MISSING_IMPORTABLE then importable @ [w'] else importable)
      (bump (verdict_counter x) d) = Inr z" by (auto simp: result_simps)
  show ?case
  proof (cases "w = w'")
    case True
    then show ?thesis using x by (simp add: verdict_in_def)
  next
    case False
    then show ?thesis using Cons.IH [OF rest] Cons.prems(2) by simp
  qed
qed simp

lemma reconcile_eq_Inr:
  assumes "reconcile ws by_sport supported n = Inr (importable, d)"
  obtains v where "\<And>w. w \<in> set ws \<Longrightarrow> verdict_in by_sport supported w = Inr (v w)"
    and "importable = filter (\<lambda>w. v w = MISSING_IMPORTABLE) ws"
    and "d = tallied v ws (no_diagnostics(''orders_in_window'' := n))"
proof -
  note vs = reconcile_loop_verdicts [OF assms [unfolded reconcile_def]]
  show thesis
    by (rule that [OF vs])
      (use assms reconcile_loop_eq [of ws by_sport supported "\<lambda>w. projr (verdict_in by_sport supported w)" "[]", OF vs]
        in \<open>simp_all add: reconcile_def\<close>)
qed

section \<open>Reading back what was written\<close>

lemma vocabulary_cases:
  assumes "dget LEDGER_VOCABULARIES sp = Some vocabulary"
  obtains "sp = ''MLB''" "vocabulary = [(''source_bet_key'', ''sourceBetKey''), (''market_ticker'', ''marketTicker''),
      (''side'', ''side''), (''stake'', ''stake''), (''entry_price'', ''entryPrice'')]"
  | price where "sp \<in> {''NFL'', ''CFB'', ''NHL'', ''NBA'', ''SOCCER'', ''TENNIS''}" "vocabulary = accounted_vocabulary price"
  using assms by (auto simp: LEDGER_VOCABULARIES_def split: if_splits)

lemma normalize_total:
  assumes "dget LEDGER_VOCABULARIES sp = Some vocabulary"
  obtains n where "normalize_ledger_row sp row = Inr n"
proof -
  have "\<exists>n. normalize_ledger_row sp row = Inr n"
    unfolding normalize_ledger_row_def assms option.case
    using assms by (cases rule: vocabulary_cases) (simp_all add: CANONICAL_LEDGER_FIELDS_def accounted_vocabulary_def)
  then show thesis using that by blast
qed

lemma traverse_append:
  "traverse f (xs @ ys) = rbind (traverse f xs) (\<lambda>us. rbind (traverse f ys) (\<lambda>vs. Inr (us @ vs)))"
  by (induction xs) (simp_all add: rbind_assoc, cases "traverse f ys", simp_all)

lemma list_all2_partner:
  assumes "list_all2 P xs ys"
  shows "x \<in> set xs \<Longrightarrow> \<exists>y \<in> set ys. P x y" and "y \<in> set ys \<Longrightarrow> \<exists>x \<in> set xs. P x y"
  using assms by (induction rule: list_all2_induct) auto

text \<open>A row any builder wrote for a wager carries that wager's source key, ticker and side.\<close>

definition carries :: "production_wager \<Rightarrow> jobj \<Rightarrow> bool" where
  "carries w n \<longleftrightarrow> jget n ''source_bet_key'' = JStr (w_source_key w) \<and> row_key n = wager_key w"

lemma mlb_row_carries:
  assumes "to_mlb_import_row w batch = Inr row" and "normalize_ledger_row ''MLB'' row = Inr n"
  shows "carries w n"
  using assms
  by (auto simp: to_mlb_import_row_def to_import_row_def normalize_ledger_row_def LEDGER_VOCABULARIES_def
      CANONICAL_LEDGER_FIELDS_def carries_def row_key_def wager_key_def jget_def split: if_splits)

lemma accounted_row_carries:
  assumes "accounted_row w batch = Inr row" and "normalize_ledger_row sp row = Inr n"
    and "dget LEDGER_VOCABULARIES sp = Some (accounted_vocabulary price)"
  shows "carries w n"
  using assms
  by (auto simp: accounted_row_def normalize_ledger_row_def accounted_vocabulary_def result_simps
      CANONICAL_LEDGER_FIELDS_def carries_def row_key_def wager_key_def jget_def)

lemma nfl_row_carries:
  assumes "to_nfl_import_row w batch = Inr row" and "normalize_ledger_row sp row = Inr n"
    and "dget LEDGER_VOCABULARIES sp = Some (accounted_vocabulary price)"
  shows "carries w n"
  using assms
  by (auto simp: to_nfl_import_row_def normalize_ledger_row_def accounted_vocabulary_def result_simps
      CANONICAL_LEDGER_FIELDS_def carries_def row_key_def wager_key_def jget_def)

lemma built_row_carries:
  assumes "ROW_BUILDERS sp = Some build" and "build w batch = Inr row"
  obtains n where "normalize_ledger_row sp row = Inr n" "carries w n"
proof -
  obtain vocabulary where v: "dget LEDGER_VOCABULARIES sp = Some vocabulary"
    using assms(1) by (auto simp: ROW_BUILDERS_def LEDGER_VOCABULARIES_def split: if_splits)
  obtain n where n: "normalize_ledger_row sp row = Inr n" by (rule normalize_total [OF v])
  have "carries w n"
    using assms n v
    by (auto simp: ROW_BUILDERS_def LEDGER_VOCABULARIES_def to_cfb_import_row_def to_nhl_import_row_def to_shared_ledger_row_def
        split: if_splits intro: mlb_row_carries nfl_row_carries accounted_row_carries)
  with n show thesis by (rule that)
qed

section \<open>A second run over the written ledger\<close>

text \<open>What an import of the importable wagers leaves behind: the row its builder writes, after the rows already there.\<close>

fun deliver_rows ::
  "string \<Rightarrow> production_wager list \<Rightarrow> (string, jobj list) dict \<Rightarrow> (string, jobj list) dict result" where
  "deliver_rows batch [] by_sport = Inr by_sport"
| "deliver_rows batch (w # ws) by_sport =
     (case ROW_BUILDERS (w_sport w) of
        None \<Rightarrow> Inl KeyError
      | Some build \<Rightarrow> rbind (build w batch) (\<lambda>row. deliver_rows batch ws (gadd (w_sport w) row by_sport)))"

lemma rows_of_gadd: "rows_of (gadd k x g) k' = rows_of g k' @ (if k = k' then [x] else [])"
  by (simp add: rows_of_def gadd_def)

lemma deliver_rows_extra:
  assumes "deliver_rows batch ws by_sport = Inr written"
  shows "\<exists>extra ns. rows_of written sp = rows_of by_sport sp @ extra
    \<and> traverse (normalize_ledger_row sp) extra = Inr ns
    \<and> list_all2 carries (filter (\<lambda>w. w_sport w = sp) ws) ns"
  using assms
proof (induction batch ws by_sport rule: deliver_rows.induct)
  case (1 batch by_sport)
  then show ?case by (intro exI [of _ "[]"]) simp
next
  case (2 batch w ws by_sport)
  from 2(2) obtain build row where build: "ROW_BUILDERS (w_sport w) = Some build" and row: "build w batch = Inr row"
    and rest: "deliver_rows batch ws (gadd (w_sport w) row by_sport) = Inr written"
    by (auto simp: result_simps split: option.splits)
  obtain n where n: "normalize_ledger_row (w_sport w) row = Inr n" "carries w n"
    by (rule built_row_carries [OF build row])
  obtain extra ns where e: "rows_of written sp = rows_of (gadd (w_sport w) row by_sport) sp @ extra"
    "traverse (normalize_ledger_row sp) extra = Inr ns" "list_all2 carries (filter (\<lambda>w. w_sport w = sp) ws) ns"
    using 2(1) [OF build rest] by blast
  show ?case
  proof (cases "w_sport w = sp")
    case True
    then show ?thesis using e n by (intro exI [of _ "row # extra"] exI [of _ "n # ns"]) (simp add: rows_of_gadd)
  next
    case False
    then show ?thesis using e by (intro exI [of _ extra] exI [of _ ns]) (simp add: rows_of_gadd)
  qed
qed

text \<open>The three verdicts that found a row for the wager's market and side.\<close>

lemma verdict_missing:
  assumes "verdict_in by_sport supported w = Inr MISSING_IMPORTABLE"
  obtains key ns where "wager_key w = Some key"
    "traverse (normalize_ledger_row (w_sport w)) (rows_of by_sport (w_sport w)) = Inr ns"
    "filter (\<lambda>row. row_key row = Some key) ns = []"
  using assms
  by (auto simp: verdict_in_def reconcile_one_def result_simps split: if_splits option.splits list.splits)

lemma verdict_present:
  assumes "verdict_in by_sport supported w = Inr x"
    and "x \<noteq> MISSING_IMPORTABLE" "x \<noteq> DUPLICATE_NOOP" "wager_key w = Some key" "w_sport w \<in> set supported"
    and "traverse (normalize_ledger_row (w_sport w)) (rows_of by_sport (w_sport w)) = Inr ns"
  shows "filter (\<lambda>row. row_key row = Some key) ns \<noteq> []"
  using assms by (auto simp: verdict_in_def reconcile_one_def split: if_splits list.splits)

lemma verdict_after_write:
  assumes first: "verdict_in by_sport supported w = Inr x"
    and rows: "rows_of written (w_sport w) = rows_of by_sport (w_sport w) @ extra"
    and extra: "traverse (normalize_ledger_row (w_sport w)) extra = Inr ns"
    and own: "x = MISSING_IMPORTABLE \<Longrightarrow> \<exists>n \<in> set ns. jget n ''source_bet_key'' = JStr (w_source_key w)"
    and others: "x \<noteq> MISSING_IMPORTABLE \<Longrightarrow> \<forall>n \<in> set ns. jget n ''source_bet_key'' \<noteq> JStr (w_source_key w)"
    and apart: "\<And>key old. x \<noteq> MISSING_IMPORTABLE \<Longrightarrow> wager_key w = Some key
      \<Longrightarrow> traverse (normalize_ledger_row (w_sport w)) (rows_of by_sport (w_sport w)) = Inr old
      \<Longrightarrow> filter (\<lambda>row. row_key row = Some key) old \<noteq> [] \<Longrightarrow> filter (\<lambda>row. row_key row = Some key) ns = []"
  shows "verdict_in written supported w = Inr (if x = MISSING_IMPORTABLE then DUPLICATE_NOOP else x)"
proof (cases "w_sport w \<in> set supported")
  case False
  then show ?thesis using first by (auto simp: verdict_in_def reconcile_one_def)
next
  case sp: True
  show ?thesis
  proof (cases "wager_key w")
    case None
    then show ?thesis using first sp by (auto simp: verdict_in_def reconcile_one_def)
  next
    case (Some key)
    obtain old where old: "traverse (normalize_ledger_row (w_sport w)) (rows_of by_sport (w_sport w)) = Inr old"
      using first sp Some by (auto simp: verdict_in_def reconcile_one_def result_simps)
    have all: "traverse (normalize_ledger_row (w_sport w)) (rows_of written (w_sport w)) = Inr (old @ ns)"
      by (simp add: rows traverse_append old extra)
    have second: "verdict_in written supported w =
      (if \<exists>row \<in> set (old @ ns). jget row ''source_bet_key'' = JStr (w_source_key w) then Inr DUPLICATE_NOOP
       else case filter (\<lambda>row. row_key row = Some key) (old @ ns) of
           [] \<Rightarrow> Inr MISSING_IMPORTABLE
         | [existing] \<Rightarrow> rbind (materially_disagrees w existing) (\<lambda>far. Inr (if far then CONFLICT else EXACT_EXISTING))
         | _ \<Rightarrow> Inr AMBIGUOUS)"
      unfolding verdict_in_def reconcile_one_def Some option.case all rbind_simps using sp by simp
    have before: "Inr x =
      (if \<exists>row \<in> set old. jget row ''source_bet_key'' = JStr (w_source_key w) then Inr DUPLICATE_NOOP
       else case filter (\<lambda>row. row_key row = Some key) old of
           [] \<Rightarrow> Inr MISSING_IMPORTABLE
         | [existing] \<Rightarrow> rbind (materially_disagrees w existing) (\<lambda>far. Inr (if far then CONFLICT else EXACT_EXISTING))
         | _ \<Rightarrow> Inr AMBIGUOUS)"
      unfolding first [symmetric] unfolding verdict_in_def reconcile_one_def Some option.case old rbind_simps using sp by simp
    show ?thesis
    proof (cases "x = MISSING_IMPORTABLE")
      case True
      then show ?thesis using own unfolding second by auto
    next
      case False
      show ?thesis
      proof (cases "x = DUPLICATE_NOOP")
        case True
        have "\<exists>row \<in> set old. jget row ''source_bet_key'' = JStr (w_source_key w)"
        proof (rule ccontr)
          assume "\<not> ?thesis"
          then show False using before True
            by (auto simp: result_simps split: list.splits if_splits dest!: sym [of "Inr _"])
        qed
        then show ?thesis using True unfolding second by auto
      next
        case dup: False
        have "filter (\<lambda>row. row_key row = Some key) old \<noteq> []"
          by (rule verdict_present [OF first False dup Some sp old])
        then have ns: "filter (\<lambda>row. row_key row = Some key) ns = []" by (rule apart [OF False Some old])
        have none: "\<not> (\<exists>row \<in> set old. jget row ''source_bet_key'' = JStr (w_source_key w))"
          using before dup by (auto split: if_splits)
        then have "\<not> (\<exists>row \<in> set (old @ ns). jget row ''source_bet_key'' = JStr (w_source_key w))"
          using others [OF False] by auto
        then show ?thesis using before none False unfolding second filter_append ns by simp
      qed
    qed
  qed
qed

lemma second_run_verdicts:
  assumes v: "\<And>w. w \<in> set ws \<Longrightarrow> verdict_in by_sport supported w = Inr (v w)"
    and written: "deliver_rows batch (filter (\<lambda>w. v w = MISSING_IMPORTABLE) ws) by_sport = Inr written"
    and inj: "inj_on w_source_key (set ws)" and w: "w \<in> set ws"
  shows "verdict_in written supported w = Inr (if v w = MISSING_IMPORTABLE then DUPLICATE_NOOP else v w)"
proof -
  obtain extra ns where rows: "rows_of written (w_sport w) = rows_of by_sport (w_sport w) @ extra"
    and extra: "traverse (normalize_ledger_row (w_sport w)) extra = Inr ns"
    and all2: "list_all2 carries (filter (\<lambda>u. w_sport u = w_sport w) (filter (\<lambda>w. v w = MISSING_IMPORTABLE) ws)) ns"
    using deliver_rows_extra [OF written] by blast
  have from_wager: "\<exists>u \<in> set ws. v u = MISSING_IMPORTABLE \<and> w_sport u = w_sport w \<and> carries u m" if "m \<in> set ns" for m
    using list_all2_partner(2) [OF all2 that] by auto
  have to_row: "\<exists>m \<in> set ns. carries w m" if "v w = MISSING_IMPORTABLE"
    using list_all2_partner(1) [OF all2, of w] that w by simp
  show ?thesis
  proof (rule verdict_after_write [OF v [OF w] rows extra])
    assume "v w = MISSING_IMPORTABLE"
    then show "\<exists>m \<in> set ns. jget m ''source_bet_key'' = JStr (w_source_key w)"
      using to_row by (auto simp: carries_def)
  next
    assume not: "v w \<noteq> MISSING_IMPORTABLE"
    then show "\<forall>m \<in> set ns. jget m ''source_bet_key'' \<noteq> JStr (w_source_key w)"
      using from_wager inj w by (fastforce simp: carries_def dest: inj_onD)
  next
    fix key old
    assume not: "v w \<noteq> MISSING_IMPORTABLE" and key: "wager_key w = Some key"
      and old: "traverse (normalize_ledger_row (w_sport w)) (rows_of by_sport (w_sport w)) = Inr old"
      and found: "filter (\<lambda>row. row_key row = Some key) old \<noteq> []"
    have "row_key m \<noteq> Some key" if m: "m \<in> set ns" for m
    proof
      assume same: "row_key m = Some key"
      obtain u where u: "u \<in> set ws" "v u = MISSING_IMPORTABLE" "w_sport u = w_sport w" "carries u m"
        using from_wager [OF m] by blast
      show False
      proof (rule verdict_missing [OF v [OF u(1), unfolded u(2)]])
        fix key' old'
        assume "wager_key u = Some key'"
          "traverse (normalize_ledger_row (w_sport u)) (rows_of by_sport (w_sport u)) = Inr old'"
          "filter (\<lambda>row. row_key row = Some key') old' = []"
        then show False using u same found old by (simp add: carries_def)
      qed
    qed
    then show "filter (\<lambda>row. row_key row = Some key) ns = []" by (simp add: filter_empty_conv)
  qed
qed

text \<open>
  C34. Catching up is idempotent. Take any batch of reconstructed wagers whose source keys tell them apart, any
  existing ledgers and a run that reconciled them; write the importable ones with their destinations' own row builders.
  A second run over the written ledgers imports nothing: exactly the wagers the first run imported come back as
  already written, and every other verdict is counted as it was.
\<close>

theorem second_run_imports_nothing:
  assumes "reconcile ws by_sport supported n = Inr (importable, d)"
    and "deliver_rows batch importable by_sport = Inr written"
    and "inj_on w_source_key (set ws)"
  shows "\<exists>d'. reconcile ws written supported n = Inr ([], d')
    \<and> d' ''missing_importable'' = 0
    \<and> d' ''duplicate_noop'' = d ''duplicate_noop'' + length importable
    \<and> (\<forall>x \<in> {EXACT_EXISTING, AMBIGUOUS, CONFLICT, UNSUPPORTED_DESTINATION}. d' (verdict_counter x) = d (verdict_counter x))
    \<and> reconciled d' = reconciled d"
proof -
  obtain v where v: "\<And>w. w \<in> set ws \<Longrightarrow> verdict_in by_sport supported w = Inr (v w)"
    and imp: "importable = filter (\<lambda>w. v w = MISSING_IMPORTABLE) ws"
    and d: "d = tallied v ws (no_diagnostics(''orders_in_window'' := n))"
    using assms(1) by (rule reconcile_eq_Inr) blast
  define v' where "v' w = (if v w = MISSING_IMPORTABLE then DUPLICATE_NOOP else v w)" for w
  have v': "verdict_in written supported w = Inr (v' w)" if "w \<in> set ws" for w
    unfolding v'_def by (rule second_run_verdicts [OF v assms(2) [unfolded imp] assms(3) that])
  let ?d = "tallied v' ws (no_diagnostics(''orders_in_window'' := n))"
  have none: "filter (\<lambda>w. v' w = MISSING_IMPORTABLE) ws = []" by (auto simp: filter_empty_conv v'_def)
  have second: "reconcile ws written supported n = Inr ([], ?d)"
    unfolding reconcile_def using reconcile_loop_eq [of ws written supported v', OF v'] none by simp
  have count: "?d (verdict_counter x) = length (filter (\<lambda>w. v' w = x) ws)"
    "d (verdict_counter x) = length (filter (\<lambda>w. v w = x) ws)" for x
    by (simp_all add: d tallied_apply no_diagnostics_def)
  have same: "filter (\<lambda>w. v' w = x) ws = filter (\<lambda>w. v w = x) ws"
    if "x \<noteq> MISSING_IMPORTABLE" "x \<noteq> DUPLICATE_NOOP" for x
    using that by (intro filter_cong) (auto simp: v'_def)
  have dup: "length (filter (\<lambda>w. v' w = DUPLICATE_NOOP) ws) = length (filter (\<lambda>w. v w = DUPLICATE_NOOP) ws) + length importable"
    unfolding imp by (induction ws) (auto simp: v'_def)
  have missing: "?d ''missing_importable'' = 0" using count(1) [of MISSING_IMPORTABLE] none by simp
  have kept: "\<forall>x \<in> {EXACT_EXISTING, AMBIGUOUS, CONFLICT, UNSUPPORTED_DESTINATION}. ?d (verdict_counter x) = d (verdict_counter x)"
    unfolding count by (simp add: same)
  have noop: "?d ''duplicate_noop'' = d ''duplicate_noop'' + length importable"
    using count [of DUPLICATE_NOOP] dup by simp
  have "d ''missing_importable'' = length importable" using count(2) [of MISSING_IMPORTABLE] by (simp add: imp)
  then have total: "reconciled ?d = reconciled d" using kept noop missing by (simp add: reconciled_def)
  show ?thesis using second missing noop kept total by blast
qed

definition sample_wager :: production_wager where
  "sample_wager = \<lparr>w_source_key = ''kalshi:v1:00'', w_market_ticker = ''KX-1'', w_sport = ''MLB'',
     w_game_date = ''2026-09-13'', w_side = ''yes'', w_contracts = 10, w_vwap_price = 12 / 25, w_total_fees = 0,
     w_stake = 24 / 5, w_first_execution_time = 1789257600, w_last_execution_time = 1789257600, w_fill_count = 1,
     w_finality = FINAL_STABLE, w_execution_action = None, w_is_combo = False, w_combo_legs = []\<rparr>"

theorem second_run_imports_nothing_witness:
  "\<exists>written d d'. reconcile [sample_wager] [] [''MLB''] 1 = Inr ([sample_wager], d)
    \<and> deliver_rows BACKFILL_IMPORT_BATCH_ID [sample_wager] [] = Inr written
    \<and> reconcile [sample_wager] written [''MLB''] 1 = Inr ([], d')
    \<and> d' ''duplicate_noop'' = d ''duplicate_noop'' + 1"
proof -
  have key: "wager_key sample_wager = Some (''KX-1'', ''YES'')"
    unfolding wager_key_def sample_wager_def by code_simp
  have "verdict_in [] [''MLB''] sample_wager = Inr MISSING_IMPORTABLE"
    unfolding verdict_in_def reconcile_one_def key option.case by (simp add: rows_of_def sample_wager_def)
  then obtain d where d: "reconcile [sample_wager] [] [''MLB''] 1 = Inr ([sample_wager], d)"
    using reconcile_loop_eq [of "[sample_wager]" "[]" "[''MLB'']" "\<lambda>_. MISSING_IMPORTABLE"]
    by (simp add: reconcile_def)
  have batch: "\<not> blank BACKFILL_IMPORT_BATCH_ID" by code_simp
  obtain written where w: "deliver_rows BACKFILL_IMPORT_BATCH_ID [sample_wager] [] = Inr written"
    using batch by (simp add: ROW_BUILDERS_def to_mlb_import_row_def sample_wager_def)
  show ?thesis using second_run_imports_nothing [OF d w] d w by auto
qed

section \<open>The window and production\<close>

text \<open>
  The catch-up never reaches production's range: with any window that can be built, no order is both inside it
  and after the cutover. The two ranges leave exactly one instant between them: an order at or after the start is
  in neither exactly when its first execution is the cutover itself.
\<close>

theorem window_meets_cutover:
  assumes "BackfillWindow start_iso = Inr s"
  shows "\<exists>start inside after. window_start_seconds start_iso = Inr start \<and> start < 1789430400
    \<and> contains start_iso x = Inr inside \<and> is_after_cutover x = Inr after
    \<and> \<not> (inside \<and> after)
    \<and> (start \<le> o_first_execution_time x \<longrightarrow> (\<not> inside \<and> \<not> after \<longleftrightarrow> o_first_execution_time x = 1789430400))"
proof -
  from assms obtain start where start: "window_start_seconds start_iso = Inr start" "start < 1789430400"
    by (auto simp: BackfillWindow_def cutover_value result_simps split: if_splits)
  have inside: "contains start_iso x = Inr (start \<le> o_first_execution_time x \<and> o_first_execution_time x < 1789430400)"
    by (simp add: contains_def start cutover_value)
  show ?thesis using start by (simp add: inside after_cutover) auto
qed

theorem window_meets_cutover_witness:
  "\<exists>start inside after. window_start_seconds ''2026-09-12T00:00:00Z'' = Inr start \<and> start < 1789430400
    \<and> contains ''2026-09-12T00:00:00Z'' (sample_order 1789430400) = Inr inside
    \<and> is_after_cutover (sample_order 1789430400) = Inr after \<and> \<not> (inside \<and> after)
    \<and> (start \<le> o_first_execution_time (sample_order 1789430400) \<longrightarrow>
        (\<not> inside \<and> \<not> after \<longleftrightarrow> o_first_execution_time (sample_order 1789430400) = 1789430400))"
proof -
  have "iso_micros (zulu (py_strip ''2026-09-12T00:00:00Z'')) = Some (1789171200 * 1000000)"
    "py_strip ''2026-09-12T00:00:00Z'' \<noteq> []" by code_simp+
  then have "parse_rfc3339_seconds (Some ''2026-09-12T00:00:00Z'') = Some (of_int 1789171200)"
    by (rule seconds_of_instant) simp_all
  then have "BackfillWindow ''2026-09-12T00:00:00Z'' = Inr ''2026-09-12T00:00:00Z''"
    by (simp add: BackfillWindow_def window_start_seconds_def cutover_value)
  then show ?thesis by (rule window_meets_cutover)
qed

end
