(* ===== verification/History.thy ===== *)
theory History
  imports Engine Client
begin

text \<open>
  \<^verbatim>\<open>history.py\<close>, \<^verbatim>\<open>coverage.py\<close> and \<^verbatim>\<open>finality.py\<close>: the evidence a replay stands on. A history is
  assembled from two walks of \<open>Client\<close> and normalized by \<open>Fills\<close>; the floor of the settlements route is the
  earliest settlement of an exhausted walk; the spans of orders are bucketed. The rendered texts are not modelled.

  The lemmas: a complete history has read both routes through and is every fill on their pages; a floor is the minimum of a walk that read all
  its times; a whole-second window is supported exactly when every order finished inside it.
\<close>

section \<open>Assembling a history\<close>

record history_evidence =
  he_live_rows :: nat
  he_live_pages :: nat
  he_live_exhausted :: bool
  he_live_truncated :: bool
  he_historical_rows :: nat
  he_historical_pages :: nat
  he_historical_exhausted :: bool
  he_historical_truncated :: bool
  he_historical_skipped :: bool
  he_historical_failed :: bool
  he_fills_rejected :: nat
  he_cutoff_retrieved :: bool

definition no_evidence :: history_evidence where
  "no_evidence = \<lparr>he_live_rows = 0, he_live_pages = 0, he_live_exhausted = False, he_live_truncated = False,
     he_historical_rows = 0, he_historical_pages = 0, he_historical_exhausted = False, he_historical_truncated = False,
     he_historical_skipped = False, he_historical_failed = False, he_fills_rejected = 0, he_cutoff_retrieved = False\<rparr>"

definition evidence_complete :: "history_evidence \<Rightarrow> bool" where
  "evidence_complete ev \<longleftrightarrow> he_live_exhausted ev \<and> \<not> he_live_truncated ev \<and> he_historical_exhausted ev
     \<and> \<not> he_historical_truncated ev \<and> \<not> he_historical_skipped ev \<and> \<not> he_historical_failed ev"

definition evidence_completeness :: "history_evidence \<Rightarrow> completeness" where
  "evidence_completeness ev = (if evidence_complete ev then COMPLETE else BOUNDED_WINDOW)"

record assembled_history =
  ah_fills :: "normalized_fill list"
  ah_evidence :: history_evidence

text \<open>\<open>_collect\<close>: a payload that does not normalize is counted; any other exception leaves what was collected.\<close>

fun collect :: "jobj list \<Rightarrow> assembled_history \<Rightarrow> assembled_history \<times> py_error option" where
  "collect [] h = (h, None)"
| "collect (raw # raws) h =
     (case normalize_fill (JObj raw) of
        Inr f \<Rightarrow> collect raws (h\<lparr>ah_fills := ah_fills h @ [f]\<rparr>)
      | Inl e \<Rightarrow>
          if e = SchemaError
          then collect raws (h\<lparr>ah_evidence := (ah_evidence h)\<lparr>he_fills_rejected := he_fills_rejected (ah_evidence h) + 1\<rparr>\<rparr>)
          else (h, Some e))"

definition record_live :: "walk_stats \<Rightarrow> assembled_history \<Rightarrow> assembled_history" where
  "record_live st h = h\<lparr>ah_evidence := (ah_evidence h)\<lparr>he_live_rows := ws_rows st, he_live_pages := ws_pages st,
     he_live_exhausted := ws_exhausted st, he_live_truncated := ws_truncated st\<rparr>\<rparr>"

definition record_archive :: "walk_stats \<Rightarrow> bool \<Rightarrow> assembled_history \<Rightarrow> assembled_history" where
  "record_archive st failed h = h\<lparr>ah_evidence := (ah_evidence h)\<lparr>he_historical_failed := failed,
     he_historical_rows := ws_rows st, he_historical_pages := ws_pages st,
     he_historical_exhausted := ws_exhausted st, he_historical_truncated := ws_truncated st\<rparr>\<rparr>"

definition walk_archive ::
  "environment \<Rightarrow> int option \<Rightarrow> assembled_history \<Rightarrow> client \<Rightarrow> (assembled_history result \<times> client) option" where
  "walk_archive env max_fills h c =
     (case get_historical_cutoff env c of (answer, c) \<Rightarrow>
      let h = h\<lparr>ah_evidence := (ah_evidence h)\<lparr>he_cutoff_retrieved := (case answer of Inr _ \<Rightarrow> True | Inl _ \<Rightarrow> False)\<rparr>\<rparr>
      in map_option (\<lambda>(rows, st, err, c).
           case collect rows h of (h, stopped) \<Rightarrow>
           (Inr (record_archive st (stopped \<noteq> None \<or> err \<noteq> None) h), c))
         (iter_historical_fills env max_fills None new_stats False c))"

text \<open>\<open>None\<close> is a walk that never returns. The rows are normalized as they are yielded; here the walk is consumed first,
  which is the same as long as normalization raises nothing but \<open>SchemaError\<close>.\<close>

definition assemble_history ::
  "environment \<Rightarrow> int option \<Rightarrow> bool \<Rightarrow> client \<Rightarrow> (assembled_history result \<times> client) option" where
  "assemble_history env max_fills include_archive c =
     (case iter_fills env max_fills None new_stats False c of
        None \<Rightarrow> None
      | Some (rows, st, err, c) \<Rightarrow>
          (case collect rows \<lparr>ah_fills = [], ah_evidence = no_evidence\<rparr> of (h, stopped) \<Rightarrow>
           case (stopped, err) of
             (Some e, _) \<Rightarrow> Some (Inl e, c)
           | (None, Some e) \<Rightarrow> Some (Inl e, c)
           | (None, None) \<Rightarrow>
               let h = record_live st h in
               if \<not> include_archive
               then Some (Inr (h\<lparr>ah_evidence := (ah_evidence h)\<lparr>he_historical_skipped := True\<rparr>\<rparr>), c)
               else walk_archive env max_fills h c))"

section \<open>How far back settlement evidence reaches\<close>

record settlement_coverage =
  sc_rows :: nat
  sc_rows_with_a_readable_time :: nat
  sc_rows_with_an_unreadable_time :: nat
  sc_exhausted :: bool
  sc_truncated :: bool
  sc_earliest_settled_at :: "decimal option"
  sc_latest_settled_at :: "decimal option"
  sc_below_floor_probed :: bool
  sc_below_floor_probe_status :: "int option"
  sc_below_floor_rows_returned :: nat
  sc_below_floor_rows_older_than_the_floor :: nat
  sc_archive_route_probed :: bool
  sc_archive_route_available :: bool
  sc_archive_route_status :: "int option"
  sc_archive_first_page_rows :: nat

definition new_coverage :: "bool \<Rightarrow> bool \<Rightarrow> settlement_coverage" where
  "new_coverage exhausted truncated =
     \<lparr>sc_rows = 0, sc_rows_with_a_readable_time = 0, sc_rows_with_an_unreadable_time = 0,
      sc_exhausted = exhausted, sc_truncated = truncated, sc_earliest_settled_at = None, sc_latest_settled_at = None,
      sc_below_floor_probed = False, sc_below_floor_probe_status = None, sc_below_floor_rows_returned = 0,
      sc_below_floor_rows_older_than_the_floor = 0, sc_archive_route_probed = False, sc_archive_route_available = False,
      sc_archive_route_status = None, sc_archive_first_page_rows = 0\<rparr>"

definition observed_floor :: "settlement_coverage \<Rightarrow> decimal option" where
  "observed_floor cv =
     (if \<not> sc_exhausted cv \<or> sc_truncated cv then None
      else if sc_rows_with_an_unreadable_time cv \<noteq> 0 then None
      else sc_earliest_settled_at cv)"

definition default_walk_appears_windowed :: "settlement_coverage \<Rightarrow> bool" where
  "default_walk_appears_windowed cv \<longleftrightarrow> 0 < sc_below_floor_rows_older_than_the_floor cv"

definition settlement_floor :: "settlement_coverage \<Rightarrow> decimal option" where
  "settlement_floor cv = (if default_walk_appears_windowed cv then None else observed_floor cv)"

definition floor_is_usable :: "settlement_coverage \<Rightarrow> bool" where
  "floor_is_usable cv \<longleftrightarrow> settlement_floor cv \<noteq> None"

definition span_days :: "settlement_coverage \<Rightarrow> int option" where
  "span_days cv = (case (sc_earliest_settled_at cv, sc_latest_settled_at cv) of
       (Some a, Some b) \<Rightarrow> Some (seconds_to_days (dsub b a))
     | _ \<Rightarrow> None)"

definition reaches_back_days :: "settlement_coverage \<Rightarrow> decimal \<Rightarrow> int option" where
  "reaches_back_days cv now = map_option (\<lambda>a. seconds_to_days (dsub now a)) (sc_earliest_settled_at cv)"

definition int_or_zero :: "int option \<Rightarrow> json" where
  "int_or_zero x = JInt (case x of None \<Rightarrow> 0 | Some i \<Rightarrow> i)"

definition coverage_as_dict :: "settlement_coverage \<Rightarrow> jobj" where
  "coverage_as_dict cv =
     [(''rows'', JInt (int (sc_rows cv))),
      (''rows_with_a_readable_time'', JInt (int (sc_rows_with_a_readable_time cv))),
      (''rows_with_an_unreadable_time'', JInt (int (sc_rows_with_an_unreadable_time cv))),
      (''exhausted'', JBool (sc_exhausted cv)), (''truncated'', JBool (sc_truncated cv)),
      (''floor_is_usable'', JBool (floor_is_usable cv)),
      (''below_floor_probed'', JBool (sc_below_floor_probed cv)),
      (''below_floor_probe_status'', int_or_zero (sc_below_floor_probe_status cv)),
      (''below_floor_rows_returned'', JInt (int (sc_below_floor_rows_returned cv))),
      (''below_floor_rows_older_than_the_floor'', JInt (int (sc_below_floor_rows_older_than_the_floor cv))),
      (''default_walk_appears_windowed'', JBool (default_walk_appears_windowed cv)),
      (''span_days_known'', JBool (span_days cv \<noteq> None)), (''span_days'', int_or_zero (span_days cv)),
      (''archive_route_probed'', JBool (sc_archive_route_probed cv)),
      (''archive_route_available'', JBool (sc_archive_route_available cv)),
      (''archive_route_status'', int_or_zero (sc_archive_route_status cv)),
      (''archive_first_page_rows'', JInt (int (sc_archive_first_page_rows cv)))]"

definition observe_settlement :: "settlement_coverage \<Rightarrow> normalized_settlement \<Rightarrow> settlement_coverage" where
  "observe_settlement cv s =
     (let cv = cv\<lparr>sc_rows := sc_rows cv + 1\<rparr> in
      case settled_at s of
        None \<Rightarrow> cv\<lparr>sc_rows_with_an_unreadable_time := sc_rows_with_an_unreadable_time cv + 1\<rparr>
      | Some t \<Rightarrow>
          cv\<lparr>sc_rows_with_a_readable_time := sc_rows_with_a_readable_time cv + 1,
             sc_earliest_settled_at := (case sc_earliest_settled_at cv of
                 None \<Rightarrow> Some t | Some a \<Rightarrow> Some (if t < a then t else a)),
             sc_latest_settled_at := (case sc_latest_settled_at cv of
                 None \<Rightarrow> Some t | Some b \<Rightarrow> Some (if b < t then t else b))\<rparr>)"

definition build_settlement_coverage :: "normalized_settlement list \<Rightarrow> bool \<Rightarrow> bool \<Rightarrow> settlement_coverage" where
  "build_settlement_coverage settlements exhausted truncated =
     foldl observe_settlement (new_coverage exhausted truncated) settlements"

section \<open>How long orders take to fill\<close>

definition BUCKET_EDGES :: "decimal list" where
  "BUCKET_EDGES = [0, 1, 10, 60, 300, 900, 3600, 86400]"

definition bucket_label :: "decimal \<Rightarrow> string" where
  "bucket_label edge = PyText.show_int \<lfloor>edge\<rfloor> @ ''s''"

record finality_evidence =
  fe_orders :: nat
  fe_single_fill_orders :: nat
  fe_multi_fill_orders :: nat
  fe_spans :: "(string, nat) dict"
  fe_spans_beyond_largest_bucket :: nat
  fe_max_span_seconds :: int

definition no_finality_evidence :: finality_evidence where
  "no_finality_evidence = \<lparr>fe_orders = 0, fe_single_fill_orders = 0, fe_multi_fill_orders = 0, fe_spans = [],
     fe_spans_beyond_largest_bucket = 0, fe_max_span_seconds = 0\<rparr>"

definition bucket_counts :: "finality_evidence \<Rightarrow> (string \<times> nat) list" where
  "bucket_counts ev =
     map (\<lambda>edge. (bucket_label edge, case dget (fe_spans ev) (bucket_label edge) of None \<Rightarrow> 0 | Some n \<Rightarrow> n)) BUCKET_EDGES
     @ [(''beyond'', fe_spans_beyond_largest_bucket ev)]"

definition order_span :: "order_execution \<Rightarrow> decimal" where
  "order_span x = (let s = dsub (o_last_execution_time x) (o_first_execution_time x) in if s < 0 then 0 else s)"

definition measure_order :: "finality_evidence \<Rightarrow> order_execution \<Rightarrow> finality_evidence" where
  "measure_order ev x =
     (let ev = ev\<lparr>fe_orders := fe_orders ev + 1\<rparr>;
          ev = (if 1 < o_fill_count x then ev\<lparr>fe_multi_fill_orders := fe_multi_fill_orders ev + 1\<rparr>
                else ev\<lparr>fe_single_fill_orders := fe_single_fill_orders ev + 1\<rparr>);
          s = order_span x;
          ev = ev\<lparr>fe_max_span_seconds := max (fe_max_span_seconds ev) \<lfloor>s\<rfloor>\<rparr>
      in case find (\<lambda>edge. s \<le> edge) BUCKET_EDGES of
           Some edge \<Rightarrow> ev\<lparr>fe_spans := dbump (bucket_label edge) (fe_spans ev)\<rparr>
         | None \<Rightarrow> ev\<lparr>fe_spans_beyond_largest_bucket := fe_spans_beyond_largest_bucket ev + 1\<rparr>)"

definition measure_finality :: "order_execution list \<Rightarrow> finality_evidence" where
  "measure_finality xs = foldl measure_order no_finality_evidence xs"

definition window_is_supported :: "finality_evidence \<Rightarrow> decimal \<Rightarrow> bool" where
  "window_is_supported ev window_seconds \<longleftrightarrow> 0 < fe_orders ev \<and> of_int (fe_max_span_seconds ev) < window_seconds"

section \<open>A complete history is every fill on both routes\<close>

definition normalized :: "jobj list \<Rightarrow> normalized_fill list" where
  "normalized raws = concat (map (\<lambda>raw. case normalize_fill (JObj raw) of Inr f \<Rightarrow> [f] | Inl _ \<Rightarrow> []) raws)"

definition rejected :: "jobj list \<Rightarrow> nat" where
  "rejected raws = length (filter (\<lambda>raw. \<exists>e. normalize_fill (JObj raw) = Inl e) raws)"

text \<open>Normalization raises nothing but \<open>SchemaError\<close>, so collecting never stops.\<close>

lemma normalize_error: "normalize_fill v = Inl e \<Longrightarrow> e = SchemaError"
  using outcome_normalize_fill [of v] by (simp add: outcome_def)

lemma collect_all:
  "collect raws h = (h\<lparr>ah_fills := ah_fills h @ normalized raws,
     ah_evidence := (ah_evidence h)\<lparr>he_fills_rejected := he_fills_rejected (ah_evidence h) + rejected raws\<rparr>\<rparr>, None)"
proof (induction raws arbitrary: h)
  case (Cons raw raws)
  then show ?case
    by (cases "normalize_fill (JObj raw)") (auto simp: normalized_def rejected_def dest: normalize_error)
qed (simp add: normalized_def rejected_def)

lemma normalized_rejected: "length (normalized raws) + rejected raws = length raws"
  by (induction raws) (auto simp: normalized_def rejected_def split: sum.split)

lemma normalized_append [simp]: "normalized (a @ b) = normalized a @ normalized b" "rejected (a @ b) = rejected a + rejected b"
  by (simp_all add: normalized_def rejected_def)

text \<open>A route read to its end, on the log. The calls for one page all GET that page's address, and one of them is
  answered with the page; the first page is asked for without a cursor, each next one with the cursor of the page
  before it, and the last page carries none.\<close>

definition calls_for :: "environment \<Rightarrow> string \<Rightarrow> string option \<Rightarrow> exchange list \<Rightarrow> jobj \<Rightarrow> bool" where
  "calls_for env path cursor xs page \<longleftrightarrow>
     (\<exists>limit. \<forall>x \<in> set xs. x_method x = ''GET'' \<and> x_url x = url_of env path (page_params [] limit cursor))
     \<and> pages_of env xs = [page]"

inductive read_through :: "environment \<Rightarrow> string \<Rightarrow> string option \<Rightarrow> exchange list \<Rightarrow> jobj list \<Rightarrow> bool" for env path where
  last_page: "calls_for env path cursor xs page \<Longrightarrow> \<not> truthy (jget page ''cursor'') \<Longrightarrow>
    read_through env path cursor xs [page]"
| next_page: "calls_for env path cursor xs page \<Longrightarrow> jget page ''cursor'' = JStr cur \<Longrightarrow>
    read_through env path (Some cur) xs' pages \<Longrightarrow> read_through env path cursor (xs @ xs') (page # pages)"

inductive_cases read_through_pageE: "read_through env path cursor xs pages"

text \<open>The fills on these pages.\<close>

definition fills_on :: "jobj list \<Rightarrow> jobj list" where
  "fills_on pages = concat (map (page_rows ''fills'') pages)"

lemma fills_on_simps [simp]: "fills_on [] = []" "fills_on (page # pages) = page_rows ''fills'' page @ fills_on pages"
  "fills_on (ps @ qs) = fills_on ps @ fills_on qs"
  by (simp_all add: fills_on_def)

lemma client_get_calls:
  assumes get: "client_get env path params c = (answer, c')" and "read_only path"
    and nonneg: "0 \<le> cfg_max_retries (env_config env)"
  obtains xs where "c_log c' = c_log c @ xs" "xs \<noteq> []"
    "\<And>x. x \<in> set xs \<Longrightarrow> x_method x = ''GET'' \<and> x_url x = url_of env path params"
    "pages_of env xs = (case answer of Inr payload \<Rightarrow> [payload] | Inl _ \<Rightarrow> [])"
proof -
  obtain xs waits r where "continues (env_transport env) (url_of env path params) c xs waits c'"
    "retried xs waits (backoff_delays (env_jitter env)
        (tm_requests (c_telemetry c) * nat (cfg_max_retries (env_config env))) (cfg_max_retries (env_config env))) r"
    using assms by (rule client_get_spec)
  then have xs: "c_log c' = c_log c @ xs" "xs \<noteq> []"
    "\<And>x. x \<in> set xs \<Longrightarrow> x_method x = ''GET'' \<and> x_url x = url_of env path params"
    by (auto simp: continues_def retried_def)
  obtain ys where "c_log c' = c_log c @ ys" "pages_of env ys = (case answer of Inr payload \<Rightarrow> [payload] | Inl _ \<Rightarrow> [])"
    using get nonneg by (rule client_get_page)
  then show thesis using xs by (intro that) simp_all
qed

lemma client_get_answered:
  assumes "client_get env path params c = (Inr payload, c')"
  shows "read_only path"
  using assms by (auto simp: client_get_def split: if_splits)

text \<open>An exhausted fills walk has read its own route through, and yields the fills of its pages.\<close>

lemma take_fills_page:
  assumes "take_fills fills remaining rows st = (rows1, st1, remaining1, how)"
  shows "ws_exhausted st1 = ws_exhausted st" and "how = PageTaken \<Longrightarrow> rows1 = rows @ json_objects fills"
  using take_fills_spec [OF assms] by auto

definition tells_route ::
  "environment \<Rightarrow> string \<Rightarrow> string option \<Rightarrow> jobj list \<Rightarrow> walk_stats \<Rightarrow> client \<Rightarrow> walk \<Rightarrow> bool" where
  "tells_route env path cursor rows st c walk \<longleftrightarrow> (case walk of (rows', st', err, c') \<Rightarrow>
    0 \<le> cfg_max_retries (env_config env) \<longrightarrow> \<not> ws_exhausted st \<longrightarrow> ws_exhausted st' \<longrightarrow>
    (\<exists>xs pages. c_log c' = c_log c @ xs \<and> read_through env path cursor xs pages \<and> rows' = rows @ fills_on pages \<and> err = None))"

lemma exhausted_pages:
  "budget_pages env path key base limit remaining cursor seen rows st c = Some walk \<Longrightarrow>
    key = ''fills'' \<longrightarrow> base = [] \<longrightarrow> tells_route env path cursor rows st c walk"
proof (rule budget_pages.raw_induct
    [where P = "\<lambda>env path key base limit remaining cursor seen rows st c walk.
       key = ''fills'' \<longrightarrow> base = [] \<longrightarrow> tells_route env path cursor rows st c walk"], goal_cases)
  case (1 walk_on env path key base limit remaining cursor seen rows st c walk)
  obtain rows' st' err c' where w: "walk = (rows', st', err, c')" by (cases walk)
  show ?case unfolding tells_route_def w prod.case
  proof (intro impI)
    assume start: "key = ''fills''" "base = []" "0 \<le> cfg_max_retries (env_config env)" "\<not> ws_exhausted st" "ws_exhausted st'"
    obtain answer c1 where get: "client_get env path (page_params base (limit remaining) cursor) c = (answer, c1)" by force
    note run = 1(3) [unfolded w get prod.case]
    from run start obtain payload where payload: "answer = Inr payload" by (auto split: if_splits sum.splits)
    note get = get [unfolded payload start(2)]
    note run = run [unfolded payload sum.case]
    from run start obtain fills where fills: "require_list payload key = Inr fills" by (auto split: if_splits sum.splits)
    obtain rows1 st1 remaining1 how
      where take: "take_fills fills remaining rows (st\<lparr>ws_pages := ws_pages st + 1\<rparr>) = (rows1, st1, remaining1, how)"
      by (metis prod_cases4)
    note page = take_fills_page [OF take]
    note run = run [unfolded fills sum.case take prod.case]
    have st1: "\<not> ws_exhausted st1" using page(1) start(4) by simp
    with run start have how: "how = PageTaken" by (cases how) (auto split: if_splits)
    note run = run [unfolded how page_end.case]
    obtain xs where xs: "c_log c1 = c_log c @ xs" "pages_of env xs = [payload]"
      "\<And>x. x \<in> set xs \<Longrightarrow> x_method x = ''GET'' \<and> x_url x = url_of env path (page_params [] (limit remaining) cursor)"
      by (rule client_get_calls [OF get client_get_answered [OF get] start(3)]) (auto simp only: sum.case)
    then have calls: "calls_for env path cursor xs payload" by (auto simp: calls_for_def)
    have rows1: "rows1 = rows @ page_rows ''fills'' payload"
      using page(2) [OF how] require_list_rows [OF fills] start(1) by simp
    consider (ended) "next_cursor payload seen = Inr None" "rows' = rows1" "err = None" "c' = c1"
      | (goes) cur where "next_cursor payload seen = Inr (Some cur)"
        "walk_on env path key base limit remaining1 (Some cur) (cur # seen) rows1 st1 c1 = Some (rows', st', err, c')"
      using run start(4,5) st1 by (auto split: if_splits sum.splits option.splits)
    then show "\<exists>xs pages. c_log c' = c_log c @ xs \<and> read_through env path cursor xs pages \<and> rows' = rows @ fills_on pages \<and> err = None"
    proof cases
      case ended
      have "read_through env path cursor xs [payload]"
        by (rule last_page [OF calls next_cursor_spec(1) [OF ended(1)]])
      then show ?thesis using ended xs(1) rows1 by (intro exI [of _ xs] exI [of _ "[payload]"]) simp
    next
      case goes
      from 1(2) [OF goes(2)] start st1 obtain xs' pages where IH: "c_log c' = c_log c1 @ xs'"
        "read_through env path (Some cur) xs' pages" "rows' = rows1 @ fills_on pages" "err = None" by (auto simp: tells_route_def)
      have "read_through env path cursor (xs @ xs') (payload # pages)"
        using next_page [OF calls _ IH(2)] next_cursor_spec(2) [OF goes(1)] by simp
      then show ?thesis using IH xs(1) rows1
        by (intro exI [of _ "xs @ xs'"] exI [of _ "payload # pages"]) simp
    qed
  qed
qed

lemma exhausted_walk:
  assumes "iter_fill_pages env path max_fills page_limit new_stats unbounded c = Some (rows, st, err, c')" "ws_exhausted st"
    and "0 \<le> cfg_max_retries (env_config env)"
  obtains xs pages where "c_log c' = c_log c @ xs" "read_through env path None xs pages" "rows = fills_on pages"
  using exhausted_pages [OF assms(1) [unfolded iter_fill_pages_def]] assms(2,3) that by (auto simp: new_stats_def tells_route_def)

lemma assemble_history_stages:
  assumes "assemble_history env max_fills include_archive c = Some (Inr h, c')" and "evidence_complete (ah_evidence h)"
  obtains rows st c1 answer c2 rows' st' err'
  where "iter_fills env max_fills None new_stats False c = Some (rows, st, None, c1)" "ws_exhausted st"
    "get_historical_cutoff env c1 = (answer, c2)"
    "iter_historical_fills env max_fills None new_stats False c2 = Some (rows', st', err', c')" "ws_exhausted st'"
    "ah_fills h = normalized rows @ normalized rows'" "he_fills_rejected (ah_evidence h) = rejected rows + rejected rows'"
proof -
  obtain rows st err c1 where live: "iter_fills env max_fills None new_stats False c = Some (rows, st, err, c1)"
    using assms(1) by (auto simp: assemble_history_def split: option.splits)
  obtain answer c2 where cutoff: "get_historical_cutoff env c1 = (answer, c2)" by force
  note run = assms(1) [unfolded assemble_history_def live option.case prod.case collect_all]
  have err: "err = None" using run by (cases err) simp_all
  note run = run [unfolded err option.case prod.case Let_def]
  have archive: "include_archive"
    using run assms(2) by (auto simp: evidence_complete_def split: if_splits)
  obtain rows' st' err' where walk: "iter_historical_fills env max_fills None new_stats False c2 = Some (rows', st', err', c')"
    and h: "h = record_archive st' (err' \<noteq> None) (fst (collect rows'
      ((record_live st (fst (collect rows \<lparr>ah_fills = [], ah_evidence = no_evidence\<rparr>)))\<lparr>ah_evidence :=
        (ah_evidence (record_live st (fst (collect rows \<lparr>ah_fills = [], ah_evidence = no_evidence\<rparr>))))
          \<lparr>he_cutoff_retrieved := (case answer of Inr _ \<Rightarrow> True | Inl _ \<Rightarrow> False)\<rparr>\<rparr>)))"
    using run archive cutoff by (auto simp: walk_archive_def Let_def collect_all)
  show thesis
    by (rule that [OF live [unfolded err] _ cutoff walk])
      (use h assms(2) in \<open>auto simp: collect_all record_archive_def record_live_def evidence_complete_def no_evidence_def\<close>)
qed

text \<open>
  C39. A history that calls itself complete is every fill on both routes. When the assembled evidence is complete, the
  calls of the run are, in this order: the live fills route read through from its first page, following the cursor of
  each page to a page that carries none; the reads of the historical cutoff; and the archived fills route read through
  in the same way. The fills of the history are the normalizations of exactly the fills on these pages, in that order.
  A fill that does not normalize does not make the history incomplete: it is counted as rejected, so that fills and
  rejections together are the rows served.
\<close>

theorem complete_history_is_every_fill:
  assumes "assemble_history env max_fills include_archive c = Some (Inr h, c')" and "evidence_complete (ah_evidence h)"
    and "0 \<le> cfg_max_retries (env_config env)"
  shows "\<exists>live cutoff archive live_pages archive_pages.
      logged_since c c' = live @ cutoff @ archive
    \<and> read_through env ''/portfolio/fills'' None live live_pages
    \<and> cutoff \<noteq> [] \<and> (\<forall>x \<in> set cutoff. x_method x = ''GET'' \<and> x_url x = url_of env ''/historical/cutoff'' [])
    \<and> read_through env ''/historical/fills'' None archive archive_pages
    \<and> ah_fills h = normalized (fills_on (live_pages @ archive_pages))
    \<and> he_fills_rejected (ah_evidence h) = rejected (fills_on (live_pages @ archive_pages))
    \<and> length (ah_fills h) + he_fills_rejected (ah_evidence h) = length (fills_on (live_pages @ archive_pages))
    \<and> evidence_completeness (ah_evidence h) = COMPLETE"
proof -
  obtain rows st c1 answer c2 rows' st' err'
    where live: "iter_fills env max_fills None new_stats False c = Some (rows, st, None, c1)" "ws_exhausted st"
    and cutoff: "get_historical_cutoff env c1 = (answer, c2)"
    and archive: "iter_historical_fills env max_fills None new_stats False c2 = Some (rows', st', err', c')" "ws_exhausted st'"
    and fills: "ah_fills h = normalized rows @ normalized rows'"
      "he_fills_rejected (ah_evidence h) = rejected rows + rejected rows'"
    using assms(1,2) by (rule assemble_history_stages)
  obtain xs ps where xs: "c_log c1 = c_log c @ xs" "read_through env ''/portfolio/fills'' None xs ps" "rows = fills_on ps"
    using live [unfolded iter_fills_def] assms(3) by (rule exhausted_walk)
  have "read_only ''/historical/cutoff''" by code_simp
  then obtain ys where ys: "c_log c2 = c_log c1 @ ys" "ys \<noteq> []"
    "\<And>x. x \<in> set ys \<Longrightarrow> x_method x = ''GET'' \<and> x_url x = url_of env ''/historical/cutoff'' []"
    using client_get_calls [OF cutoff [unfolded get_historical_cutoff_def] _ assms(3)] by metis
  obtain zs qs where zs: "c_log c' = c_log c2 @ zs" "read_through env ''/historical/fills'' None zs qs" "rows' = fills_on qs"
    using archive [unfolded iter_historical_fills_def] assms(3) by (rule exhausted_walk)
  have "logged_since c c' = xs @ ys @ zs" by (simp add: logged_since_def xs ys zs)
  then show ?thesis
    using xs ys zs fills assms(2) normalized_rejected [of rows] normalized_rejected [of rows']
    by (intro exI [of _ xs] exI [of _ ys] exI [of _ zs] exI [of _ ps] exI [of _ qs])
      (simp add: evidence_completeness_def)
qed

text \<open>Two routes that each serve the one page of \<open>one_page\<close>.\<close>

lemma one_page_walk:
  assumes "read_only path"
  obtains st c' where "iter_fill_pages one_page path None None new_stats False c = Some ([[]], st, None, c')"
    "ws_exhausted st" "\<not> ws_truncated st"
proof -
  have "\<exists>st c'. iter_fill_pages one_page path None None new_stats False c = Some ([[]], st, None, c')
    \<and> ws_exhausted st \<and> \<not> ws_truncated st"
    unfolding iter_fill_pages_def using assms
    by (subst budget_pages.simps)
      (simp add: client_get_def request_with_retries_def retry_loop.simps send_def one_page_def Let_def spent_def
        attempt_outcome_def success_def decode_json_object_def backoff_delays_def require_list_def next_cursor_def jget_def
        new_stats_def)
  then show thesis using that by blast
qed

theorem complete_history_is_every_fill_witness:
  "\<exists>h c' live archive ps qs. assemble_history one_page None True new_client = Some (Inr h, c')
    \<and> read_through one_page ''/portfolio/fills'' None live ps \<and> read_through one_page ''/historical/fills'' None archive qs
    \<and> length (ah_fills h) + he_fills_rejected (ah_evidence h) = length (fills_on (ps @ qs))"
proof -
  have read: "read_only ''/portfolio/fills''" "read_only ''/historical/fills''" by code_simp+
  obtain st c1 where live: "iter_fill_pages one_page ''/portfolio/fills'' None None new_stats False new_client = Some ([[]], st, None, c1)"
    "ws_exhausted st" "\<not> ws_truncated st" using read(1) by (rule one_page_walk)
  obtain answer c2 where cutoff: "get_historical_cutoff one_page c1 = (answer, c2)" by force
  obtain st' c' where archive: "iter_fill_pages one_page ''/historical/fills'' None None new_stats False c2 = Some ([[]], st', None, c')"
    "ws_exhausted st'" "\<not> ws_truncated st'" using read(2) by (rule one_page_walk)
  obtain h where h: "assemble_history one_page None True new_client = Some (Inr h, c')" "evidence_complete (ah_evidence h)"
    using live archive cutoff
    by (simp add: assemble_history_def walk_archive_def iter_fills_def iter_historical_fills_def collect_all Let_def
        record_live_def record_archive_def evidence_complete_def no_evidence_def)
  have "0 \<le> cfg_max_retries (env_config one_page)" by (simp add: one_page_def)
  then show ?thesis using complete_history_is_every_fill [OF h] h(1) by blast
qed

section \<open>The settlement floor\<close>

lemma build_settlement_coverage_snoc:
  "build_settlement_coverage (ss @ [s]) ex tr = observe_settlement (build_settlement_coverage ss ex tr) s"
  by (simp add: build_settlement_coverage_def)

lemma coverage_counts:
  "sc_exhausted (build_settlement_coverage ss ex tr) = ex"
  "sc_truncated (build_settlement_coverage ss ex tr) = tr"
  "sc_rows (build_settlement_coverage ss ex tr) = length ss"
  "sc_rows_with_an_unreadable_time (build_settlement_coverage ss ex tr) = length (filter (\<lambda>s. settled_at s = None) ss)"
  "sc_below_floor_rows_older_than_the_floor (build_settlement_coverage ss ex tr) = 0"
proof (induction ss rule: rev_induct)
  case Nil
  { case 1 show ?case by (simp add: build_settlement_coverage_def new_coverage_def) }
  { case 2 show ?case by (simp add: build_settlement_coverage_def new_coverage_def) }
  { case 3 show ?case by (simp add: build_settlement_coverage_def new_coverage_def) }
  { case 4 show ?case by (simp add: build_settlement_coverage_def new_coverage_def) }
  { case 5 show ?case by (simp add: build_settlement_coverage_def new_coverage_def) }
next
  case (snoc s ss)
  { case 1 show ?case using snoc by (simp add: build_settlement_coverage_snoc observe_settlement_def Let_def split: option.split) }
  { case 2 show ?case using snoc by (simp add: build_settlement_coverage_snoc observe_settlement_def Let_def split: option.split) }
  { case 3 show ?case using snoc by (simp add: build_settlement_coverage_snoc observe_settlement_def Let_def split: option.split) }
  { case 4 show ?case using snoc by (simp add: build_settlement_coverage_snoc observe_settlement_def Let_def split: option.split) }
  { case 5 show ?case using snoc by (simp add: build_settlement_coverage_snoc observe_settlement_def Let_def split: option.split) }
qed

definition settled_times :: "normalized_settlement list \<Rightarrow> decimal set" where
  "settled_times ss = {t. \<exists>s \<in> set ss. settled_at s = Some t}"

lemma finite_settled_times: "finite (settled_times ss)"
proof -
  have "settled_times ss \<subseteq> (\<lambda>s. the (settled_at s)) ` set ss" by (force simp: settled_times_def)
  then show ?thesis by (rule finite_subset) simp
qed

lemma settled_times_snoc:
  "settled_times (ss @ [s]) = (case settled_at s of None \<Rightarrow> settled_times ss | Some t \<Rightarrow> insert t (settled_times ss))"
  by (auto simp: settled_times_def split: option.split)

lemma earliest_is_minimum:
  "sc_earliest_settled_at (build_settlement_coverage ss ex tr)
     = (if settled_times ss = {} then None else Some (Min (settled_times ss)))"
proof (induction ss rule: rev_induct)
  case Nil
  then show ?case by (simp add: build_settlement_coverage_def new_coverage_def settled_times_def)
next
  case (snoc s ss)
  have m: "Min (insert t (settled_times ss)) = (if t < Min (settled_times ss) then t else Min (settled_times ss))"
    if "settled_times ss \<noteq> {}" for t
    unfolding Min_insert [OF finite_settled_times that] by (auto simp: min_def)
  show ?case
    by (cases "settled_at s"; cases "settled_times ss = {}")
      (simp_all add: snoc build_settlement_coverage_snoc observe_settlement_def Let_def settled_times_snoc m del: Min_less_iff)
qed

text \<open>The floor of one walk: withheld exactly when the walk did not end, a time was unreadable or there is no row, and
  otherwise the earliest settlement of the route.\<close>

lemma floor_of_a_walk:
  "settlement_floor (build_settlement_coverage ss ex tr) =
     (if ex \<and> \<not> tr \<and> ss \<noteq> [] \<and> (\<forall>s \<in> set ss. settled_at s \<noteq> None)
      then Some (Min (settled_times ss)) else None)"
proof -
  have "settled_times ss = {} \<longleftrightarrow> (\<forall>s \<in> set ss. settled_at s = None)"
    by (auto simp: settled_times_def) (metis option.exhaust)
  then show ?thesis
    by (cases ss) (auto simp: settlement_floor_def observed_floor_def default_walk_appears_windowed_def coverage_counts
        earliest_is_minimum filter_empty_conv)
qed

section \<open>A supported window\<close>

lemma measure_finality_snoc: "measure_finality (xs @ [x]) = measure_order (measure_finality xs) x"
  by (simp add: measure_finality_def)

lemma order_span_nonneg: "0 \<le> order_span x"
  by (simp add: order_span_def Let_def)

lemma measured:
  "fe_orders (measure_finality xs) = length xs \<and> 0 \<le> fe_max_span_seconds (measure_finality xs)
    \<and> (of_int (fe_max_span_seconds (measure_finality xs)) < (of_int w :: decimal) \<longleftrightarrow> 0 < w \<and> (\<forall>x \<in> set xs. order_span x < of_int w))"
proof (induction xs rule: rev_induct)
  case Nil
  then show ?case by (simp add: measure_finality_def no_finality_evidence_def)
next
  case (snoc x xs)
  have "fe_max_span_seconds (measure_order ev x) = max (fe_max_span_seconds ev) \<lfloor>order_span x\<rfloor>"
    "fe_orders (measure_order ev x) = Suc (fe_orders ev)" for ev
    by (simp_all add: measure_order_def Let_def split: option.split)
  moreover have "\<lfloor>order_span x\<rfloor> < w \<longleftrightarrow> order_span x < of_int w" by (simp add: floor_less_iff)
  ultimately show ?case using snoc by (auto simp: measure_finality_snoc)
qed

text \<open>The counter keeps whole seconds only; for a window of whole seconds nothing is lost by it.\<close>

lemma window_means_every_order:
  "window_is_supported (measure_finality xs) (of_int w) \<longleftrightarrow> xs \<noteq> [] \<and> 0 < w \<and> (\<forall>x \<in> set xs. order_span x < of_int w)"
  using measured [of xs w] by (auto simp: window_is_supported_def)

end
