(* ===== verification/Reconcile.thy ===== *)
theory Reconcile
  imports Counters Client SchemaNames
begin

text \<open>
  \<^verbatim>\<open>reconcile.py\<close>: what the exchange says the account holds,
  against what was replayed, in counts. Every counter of the report is a name of one counter map, as in
  \<open>Production\<close>; the observed schema names and the field coverage are kept beside it. The rendered text is not
  modelled.

  The lemmas: what each phase adds to each counter, and that each counter is the number of rows or of replayed markets
  with one property of the inputs.
\<close>

section \<open>Reading a row\<close>

definition KNOWN_RESULTS :: "string list" where
  "KNOWN_RESULTS = [''yes'', ''no'', ''scalar'', ''void'', ''all_no'', ''all_yes'', []]"

definition SETTLEMENT_ECONOMICS :: "string list" where
  "SETTLEMENT_ECONOMICS = [''value'', ''revenue'', ''yes_count_fp'', ''no_count_fp'', ''yes_total_cost_dollars'',
     ''no_total_cost_dollars'', ''fee_cost'', ''settled_time'']"

definition nonblank_text :: "json \<Rightarrow> string option" where
  "nonblank_text v = (case v of JStr s \<Rightarrow> if blank s then None else Some (py_strip s) | _ \<Rightarrow> None)"

definition first_text :: "jobj \<Rightarrow> string list \<Rightarrow> string option" where
  "first_text row keys = (case List.map_filter (\<lambda>k. nonblank_text (jget row k)) keys of [] \<Rightarrow> None | s # _ \<Rightarrow> Some s)"

definition row_ticker :: "jobj \<Rightarrow> string option" where
  "row_ticker row = first_text row [''ticker'', ''market_ticker'']"

definition row_result :: "jobj \<Rightarrow> string option" where
  "row_result row = map_option py_lower (first_text row [''market_result'', ''result''])"

text \<open>\<open>(quantity, was_present)\<close>.\<close>

fun quantity_from :: "jobj \<Rightarrow> string list \<Rightarrow> decimal option \<times> bool" where
  "quantity_from row [] = (None, False)"
| "quantity_from row (key # keys) =
     (if jget row key = JNull then quantity_from row keys
      else case parse_fixed_point (jget row key) of
          Inl _ \<Rightarrow> (None, True)
        | Inr (Some (q, _)) \<Rightarrow> (Some q, True)
        | Inr None \<Rightarrow> quantity_from row keys)"

definition row_quantity :: "jobj \<Rightarrow> decimal option \<times> bool" where
  "row_quantity row = quantity_from row [''position_fp'', ''position'']"

definition quiet_decimal :: "json \<Rightarrow> decimal option" where
  "quiet_decimal raw = (case parse_fixed_point raw of Inr (Some (x, _)) \<Rightarrow> Some x | _ \<Rightarrow> None)"

definition objects_of :: "json list \<Rightarrow> jobj list" where
  "objects_of vs = concat (map (\<lambda>v. case v of JObj ob \<Rightarrow> [ob] | _ \<Rightarrow> []) vs)"

definition collect_keys :: "jobj list \<Rightarrow> string list" where
  "collect_keys rows =
     sort (take 40 (dedupe_by id (filter schema_name (concat (map (map fst) rows)))))"

section \<open>Positions\<close>

definition bump_if :: "bool \<Rightarrow> string \<Rightarrow> diagnostics \<Rightarrow> diagnostics" where
  "bump_if c name d = (if c then bump name d else d)"

definition observe_position ::
  "jobj \<Rightarrow> (string, decimal) dict \<times> diagnostics \<Rightarrow> (string, decimal) dict \<times> diagnostics" where
  "observe_position row st =
     (case st of (exchange, d) \<Rightarrow>
      case row_quantity row of (quantity, here) \<Rightarrow>
      let d = bump ''position_rows'' d;
          d = (if quantity \<noteq> None then bump ''position_rows_with_quantity'' d
               else bump_if here ''position_rows_unparseable_quantity'' d);
          d = bump_if (jget row ''realized_pnl_dollars'' \<noteq> JNull) ''position_rows_with_realized_pnl'' d;
          d = bump_if (jget row ''fees_paid_dollars'' \<noteq> JNull) ''position_rows_with_fees_paid'' d;
          d = (case quantity of None \<Rightarrow> d
               | Some q \<Rightarrow> bump (if q = 0 then ''position_rows_zero'' else ''position_rows_nonzero'') d)
      in case (row_ticker row, quantity) of
           (Some t, Some q) \<Rightarrow> (dput t q exchange, d)
         | _ \<Rightarrow> (exchange, d))"

section \<open>Settlements\<close>

definition revenue_counter :: "jobj \<Rightarrow> string option \<Rightarrow> string option" where
  "revenue_counter row res =
     (case quiet_decimal (jget row ''revenue'') of
        None \<Rightarrow> if jget row ''revenue'' \<noteq> JNull then Some ''settlements_revenue_unparseable'' else None
      | Some revenue \<Rightarrow>
          if revenue = 0 then Some ''settlements_revenue_zero''
          else if res \<noteq> Some ''yes'' \<and> res \<noteq> Some ''no'' then Some ''settlements_revenue_non_binary_result''
          else (case quiet_decimal (jget row (if res = Some ''yes'' then ''yes_count_fp'' else ''no_count_fp'')) of
              None \<Rightarrow> Some ''settlements_revenue_off_binary_par''
            | Some winning \<Rightarrow>
                if revenue = winning then Some ''settlements_revenue_at_binary_par''
                else if revenue = dmul winning 100 then Some ''settlements_revenue_at_cents_par''
                else Some ''settlements_revenue_off_binary_par''))"

definition value_counters :: "decimal \<Rightarrow> string list" where
  "value_counters v =
     (if v = 1 then [''settlements_value_at_one'']
      else if v = 0 then [''settlements_value_at_zero'']
      else if 0 < v \<and> v < 1 then [''settlements_value_strictly_between'']
      else if v < 0 then [''settlements_value_negative'']
      else if v = 100 then [''settlements_value_above_one'', ''settlements_value_at_one_hundred'']
      else [''settlements_value_above_one''])"

definition both_counter :: "decimal option \<Rightarrow> decimal option \<Rightarrow> string option" where
  "both_counter revenue v =
     (case (revenue, v) of
        (Some r, Some x) \<Rightarrow>
          if r = 0 \<and> x \<noteq> 0 then Some ''settlements_market_yes_member_unpaid''
          else if x = 0 \<and> r \<noteq> 0 then Some ''settlements_market_no_member_paid'' else None
      | _ \<Rightarrow> None)"

definition economics_counters :: "jobj \<Rightarrow> string option \<Rightarrow> string list" where
  "economics_counters row res =
     (let v = quiet_decimal (jget row ''value'') in
      (case revenue_counter row res of None \<Rightarrow> [] | Some n \<Rightarrow> [n])
      @ (case v of None \<Rightarrow> [] | Some x \<Rightarrow> value_counters x)
      @ (case both_counter (quiet_decimal (jget row ''revenue'')) v of None \<Rightarrow> [] | Some n \<Rightarrow> [n])
      @ (if (jget row ''yes_total_cost_dollars'' \<noteq> JNull \<or> jget row ''no_total_cost_dollars'' \<noteq> JNull)
            \<and> (quiet_decimal (jget row ''yes_count_fp'') \<noteq> None \<or> quiet_decimal (jget row ''no_count_fp'') \<noteq> None)
         then [''settlements_cost_and_counts_both_present''] else []))"

record settlement_scan =
  sn_results :: "string list"
  sn_tickers :: "string list"
  sn_fields :: "(string, nat) dict"
  sn_counts :: diagnostics

definition observe_settlement_row :: "jobj \<Rightarrow> settlement_scan \<Rightarrow> settlement_scan" where
  "observe_settlement_row row sn =
     (let res = row_result row in
      \<lparr>sn_results = (case res of None \<Rightarrow> sn_results sn
          | Some x \<Rightarrow> sn_results sn @ [if x \<in> set KNOWN_RESULTS then x else ''other'']),
       sn_tickers = (case row_ticker row of None \<Rightarrow> sn_tickers sn | Some t \<Rightarrow> sn_tickers sn @ [t]),
       sn_fields = foldl (\<lambda>d k. dbump k d) (sn_fields sn) (filter (\<lambda>k. jget row k \<noteq> JNull) SETTLEMENT_ECONOMICS),
       sn_counts = bumps (''settlement_rows''
           # (if res = None then ''settlement_rows_without_result'' else ''settlement_rows_with_result'')
           # economics_counters row res) (sn_counts sn)\<rparr>)"

section \<open>The comparison\<close>

text \<open>The class of one replayed market, as the counters it moves.\<close>

definition market_counters ::
  "(string, decimal) dict \<Rightarrow> string list \<Rightarrow> string list \<Rightarrow> string \<times> decimal \<Rightarrow> string list" where
  "market_counters exchange settled outside market =
     (case market of (ticker, net) \<Rightarrow>
      case dget exchange ticker of
        None \<Rightarrow>
          [''markets_only_in_replay'',
           if net = 0 then ''markets_absent_and_flat_in_replay''
           else if ticker \<in> set settled then ''markets_absent_but_settled''
           else if ticker \<in> set outside then ''markets_absent_but_outside_settlement_evidence''
           else ''markets_absent_and_unexplained'']
      | Some held \<Rightarrow>
          ''markets_in_both'' #
          (if held = net then [''markets_agreeing_on_quantity'']
           else ''markets_disagreeing_on_quantity''
             # (if net \<noteq> 0 \<and> held = 0 then [''markets_replay_open_exchange_flat''] else [])))"

record reconciliation_report =
  rr_counts :: diagnostics
  rr_position_keys :: "string list"
  rr_settlement_keys :: "string list"
  rr_settlement_results :: "string list"
  rr_settlement_field_coverage :: "(string, nat) dict"

definition probe_reconciliation ::
  "json list \<Rightarrow> json list \<Rightarrow> (string, decimal) dict \<Rightarrow> string list \<Rightarrow> reconciliation_report" where
  "probe_reconciliation position_rows settlement_rows replayed outside =
     (let positions = objects_of position_rows; settlements = objects_of settlement_rows in
      case foldl (\<lambda>st row. observe_position row st) ([], no_diagnostics) positions of (exchange, d) \<Rightarrow>
      let sn = foldl (\<lambda>sn row. observe_settlement_row row sn)
                 \<lparr>sn_results = [], sn_tickers = [], sn_fields = [], sn_counts = d\<rparr> settlements;
          d = (sn_counts sn)(''settlement_markets'' := card (set (sn_tickers sn)), ''replayed_markets'' := length replayed);
          d = foldl (\<lambda>d m. bumps (market_counters exchange (sn_tickers sn) outside m) d) d replayed;
          d = d(''markets_only_in_positions'' := length (filter (\<lambda>t. t \<notin> set (dkeys replayed)) (dkeys exchange)))
      in \<lparr>rr_counts = d, rr_position_keys = collect_keys positions, rr_settlement_keys = collect_keys settlements,
          rr_settlement_results = sorted_set (sn_results sn), rr_settlement_field_coverage = sn_fields sn\<rparr>)"

definition exchange_position_view :: "json list \<Rightarrow> (string, decimal option) dict" where
  "exchange_position_view position_rows =
     foldl (\<lambda>view row. case row_ticker row of None \<Rightarrow> view | Some t \<Rightarrow> dput t (fst (row_quantity row)) view)
       [] (objects_of position_rows)"

section \<open>The counters of each phase\<close>

definition position_counters :: "jobj \<Rightarrow> string list" where
  "position_counters row =
     (case row_quantity row of (quantity, here) \<Rightarrow>
      ''position_rows''
      # (if quantity \<noteq> None then [''position_rows_with_quantity'']
         else if here then [''position_rows_unparseable_quantity''] else [])
      @ (if jget row ''realized_pnl_dollars'' \<noteq> JNull then [''position_rows_with_realized_pnl''] else [])
      @ (if jget row ''fees_paid_dollars'' \<noteq> JNull then [''position_rows_with_fees_paid''] else [])
      @ (case quantity of None \<Rightarrow> [] | Some q \<Rightarrow> [if q = 0 then ''position_rows_zero'' else ''position_rows_nonzero'']))"

definition enter_position :: "(string, decimal) dict \<Rightarrow> jobj \<Rightarrow> (string, decimal) dict" where
  "enter_position exchange row =
     (case (row_ticker row, fst (row_quantity row)) of (Some t, Some q) \<Rightarrow> dput t q exchange | _ \<Rightarrow> exchange)"

lemma observe_position_eq:
  "observe_position row (exchange, d) = (enter_position exchange row, bumps (position_counters row) d)"
  by (cases "row_quantity row")
    (auto simp: observe_position_def position_counters_def enter_position_def bumps_def bump_if_def Let_def split: option.split)

lemma observe_positions_eq:
  "foldl (\<lambda>st row. observe_position row st) (exchange, d) rows =
     (foldl enter_position exchange rows, foldl (\<lambda>d row. bumps (position_counters row) d) d rows)"
  by (induction rows arbitrary: exchange d) (simp_all add: observe_position_eq)

definition settlement_counters :: "jobj \<Rightarrow> string list" where
  "settlement_counters row =
     ''settlement_rows''
     # (if row_result row = None then ''settlement_rows_without_result'' else ''settlement_rows_with_result'')
     # economics_counters row (row_result row)"

lemma observe_settlements_eq:
  "sn_counts (foldl (\<lambda>sn row. observe_settlement_row row sn) sn rows) = foldl (\<lambda>d row. bumps (settlement_counters row) d) (sn_counts sn) rows
   \<and> set (sn_tickers (foldl (\<lambda>sn row. observe_settlement_row row sn) sn rows)) = set (sn_tickers sn) \<union> {t. \<exists>row \<in> set rows. row_ticker row = Some t}"
  by (induction rows arbitrary: sn)
    (auto simp: observe_settlement_row_def settlement_counters_def Let_def split: option.splits)

text \<open>Each phase moves counters of its own prefix.\<close>

lemma position_prefix: "n \<in> set (position_counters row) \<Longrightarrow> take 9 n = ''position_''"
  by (auto simp: position_counters_def split: prod.splits option.splits if_splits)

lemma economics_prefix: "n \<in> set (economics_counters row res) \<Longrightarrow> take 12 n = ''settlements_''"
proof -
  have "revenue_counter row res = Some m \<Longrightarrow> take 12 m = ''settlements_''" for m
    by (auto simp: revenue_counter_def split: option.splits if_splits)
  moreover have "m \<in> set (value_counters v) \<Longrightarrow> take 12 m = ''settlements_''" for m v
    by (auto simp: value_counters_def split: if_splits)
  moreover have "both_counter r v = Some m \<Longrightarrow> take 12 m = ''settlements_''" for r v m
    by (auto simp: both_counter_def split: option.splits if_splits)
  ultimately show "n \<in> set (economics_counters row res) \<Longrightarrow> take 12 n = ''settlements_''"
    by (auto simp: economics_counters_def Let_def split: option.splits if_splits)
qed

lemma settlement_prefix: "n \<in> set (settlement_counters row) \<Longrightarrow> take 10 n = ''settlement''"
proof -
  assume "n \<in> set (settlement_counters row)"
  then consider "n = ''settlement_rows''" | "n = ''settlement_rows_without_result''" | "n = ''settlement_rows_with_result''"
    | "n \<in> set (economics_counters row (row_result row))"
    by (auto simp: settlement_counters_def split: if_splits)
  then show ?thesis
  proof cases
    case 4
    then have "take 10 (take 12 n) = take 10 ''settlements_''" by (simp only: economics_prefix)
    then show ?thesis by simp
  qed simp_all
qed

lemma market_prefix: "n \<in> set (market_counters ex se out m) \<Longrightarrow> take 8 n = ''markets_''"
  by (auto simp: market_counters_def split: prod.splits option.splits if_splits)

section \<open>What the report counts\<close>

lemma readable_positions:
  "t \<in> set (dkeys (foldl enter_position exchange rows)) \<longleftrightarrow>
     t \<in> set (dkeys exchange) \<or> (\<exists>row \<in> set rows. row_ticker row = Some t \<and> fst (row_quantity row) \<noteq> None)"
  by (induction rows arbitrary: exchange) (auto simp: enter_position_def split: option.splits)

lemma distinct_enter: "distinct (dkeys exchange) \<Longrightarrow> distinct (dkeys (foldl enter_position exchange rows))"
  by (induction rows arbitrary: exchange) (auto simp: enter_position_def split: option.split)

lemma probe_counts:
  fixes positions settlements
  defines "rp \<equiv> objects_of positions" and "rs \<equiv> objects_of settlements"
  defines "exchange \<equiv> foldl enter_position [] rp"
  obtains settled where "set settled = {t. \<exists>row \<in> set rs. row_ticker row = Some t}"
    "\<And>n. n \<notin> {''settlement_markets'', ''replayed_markets'', ''markets_only_in_positions''} \<Longrightarrow>
      rr_counts (probe_reconciliation positions settlements replayed outside) n
        = total position_counters rp n + total settlement_counters rs n
          + total (market_counters exchange settled outside) replayed n"
    "rr_counts (probe_reconciliation positions settlements replayed outside) ''replayed_markets'' = length replayed"
    "rr_counts (probe_reconciliation positions settlements replayed outside) ''settlement_markets'' = card (set settled)"
    "rr_counts (probe_reconciliation positions settlements replayed outside) ''markets_only_in_positions''
        = card {t \<in> set (dkeys exchange). t \<notin> set (dkeys replayed)}"
proof -
  let ?sn = "foldl (\<lambda>sn row. observe_settlement_row row sn)
    \<lparr>sn_results = [], sn_tickers = [], sn_fields = [],
     sn_counts = foldl (\<lambda>d row. bumps (position_counters row) d) no_diagnostics rp\<rparr> rs"
  have sn: "sn_counts ?sn = foldl (\<lambda>d row. bumps (settlement_counters row) d)
      (foldl (\<lambda>d row. bumps (position_counters row) d) no_diagnostics rp) rs"
    "set (sn_tickers ?sn) = {t. \<exists>row \<in> set rs. row_ticker row = Some t}"
    using observe_settlements_eq [of "\<lparr>sn_results = [], sn_tickers = [], sn_fields = [],
      sn_counts = foldl (\<lambda>d row. bumps (position_counters row) d) no_diagnostics rp\<rparr>" rs] by simp_all
  have report: "rr_counts (probe_reconciliation positions settlements replayed outside) =
    (foldl (\<lambda>d m. bumps (market_counters exchange (sn_tickers ?sn) outside m) d)
       ((sn_counts ?sn)(''settlement_markets'' := card (set (sn_tickers ?sn)), ''replayed_markets'' := length replayed)) replayed)
      (''markets_only_in_positions'' := length (filter (\<lambda>t. t \<notin> set (dkeys replayed)) (dkeys exchange)))"
    by (simp add: probe_reconciliation_def Let_def observe_positions_eq rp_def rs_def exchange_def)
  have zero: "no_diagnostics n = 0" for n by (simp add: no_diagnostics_def)
  have market: "total (market_counters exchange (sn_tickers ?sn) outside) replayed ''replayed_markets'' = 0"
      "total (market_counters exchange (sn_tickers ?sn) outside) replayed ''settlement_markets'' = 0"
    by (rule total_zero, auto dest: market_prefix)+
  have "distinct (dkeys exchange)" unfolding exchange_def by (rule distinct_enter) simp
  then have only: "length (filter (\<lambda>t. t \<notin> set (dkeys replayed)) (dkeys exchange))
      = card {t \<in> set (dkeys exchange). t \<notin> set (dkeys replayed)}"
    using distinct_card [of "filter (\<lambda>t. t \<notin> set (dkeys replayed)) (dkeys exchange)"]
    by (metis (no_types) distinct_filter set_filter)
  show thesis
  proof (rule that [OF sn(2)])
    show "rr_counts (probe_reconciliation positions settlements replayed outside) ''markets_only_in_positions''
        = card {t \<in> set (dkeys exchange). t \<notin> set (dkeys replayed)}"
      unfolding report only by (rule fun_upd_same)
  qed (simp_all add: report foldl_bumps sn(1) market zero)
qed

text \<open>The report of a count that only one phase moves.\<close>

lemma phase_totals:
  "take 9 n = ''position_'' \<Longrightarrow> total settlement_counters rs n = 0"
  "take 9 n = ''position_'' \<Longrightarrow> total (market_counters ex se out) ms n = 0"
  "take 10 n = ''settlement'' \<Longrightarrow> total position_counters rp n = 0"
  "take 10 n = ''settlement'' \<Longrightarrow> total (market_counters ex se out) ms n = 0"
  "take 8 n = ''markets_'' \<Longrightarrow> total position_counters rp n = 0"
  "take 8 n = ''markets_'' \<Longrightarrow> total settlement_counters rs n = 0"
proof -
  have "take 1 n = ''p''" if "take 9 n = ''position_''" using that by (cases n) simp_all
  moreover have "take 1 n = ''s''" if "take 10 n = ''settlement''" using that by (cases n) simp_all
  moreover have "take 1 n = ''m''" if "take 8 n = ''markets_''" using that by (cases n) simp_all
  ultimately show "take 9 n = ''position_'' \<Longrightarrow> total settlement_counters rs n = 0"
    "take 9 n = ''position_'' \<Longrightarrow> total (market_counters ex se out) ms n = 0"
    "take 10 n = ''settlement'' \<Longrightarrow> total position_counters rp n = 0"
    "take 10 n = ''settlement'' \<Longrightarrow> total (market_counters ex se out) ms n = 0"
    "take 8 n = ''markets_'' \<Longrightarrow> total position_counters rp n = 0"
    "take 8 n = ''markets_'' \<Longrightarrow> total settlement_counters rs n = 0"
    by (intro total_zero notI; force dest: position_prefix settlement_prefix market_prefix)+
qed

text \<open>A row as the exchange states it: its name is the first of the two name fields that is a text and not blank; its
  quantity field is the first of the two that is neither null nor empty, and is read or cannot be read.\<close>

definition is_text :: "json \<Rightarrow> bool" where
  "is_text v = (case v of JStr s \<Rightarrow> \<not> blank s | _ \<Rightarrow> False)"

definition name_of :: "jobj \<Rightarrow> string option" where
  "name_of row = (case find is_text [jget row ''ticker'', jget row ''market_ticker''] of
       Some (JStr s) \<Rightarrow> Some (py_strip s)
     | _ \<Rightarrow> None)"

definition has_result :: "jobj \<Rightarrow> bool" where
  "has_result row \<longleftrightarrow> is_text (jget row ''market_result'') \<or> is_text (jget row ''result'')"

definition quantity_field :: "jobj \<Rightarrow> json option" where
  "quantity_field row = find (\<lambda>v. v \<noteq> JNull \<and> v \<noteq> JStr []) [jget row ''position_fp'', jget row ''position'']"

definition quantity_of :: "jobj \<Rightarrow> decimal option" where
  "quantity_of row = (case quantity_field row of
       None \<Rightarrow> None
     | Some v \<Rightarrow> (case parse_fixed_point v of Inr (Some (q, _)) \<Rightarrow> Some q | _ \<Rightarrow> None))"

definition unreadable :: "jobj \<Rightarrow> bool" where
  "unreadable row \<longleftrightarrow> quantity_field row \<noteq> None \<and> quantity_of row = None"

lemma row_ticker_name: "row_ticker row = name_of row"
  by (auto simp: row_ticker_def first_text_def nonblank_text_def name_of_def is_text_def List.map_filter_def
      split: json.split)

lemma row_result_given: "row_result row = None \<longleftrightarrow> \<not> has_result row"
  by (auto simp: row_result_def first_text_def nonblank_text_def has_result_def is_text_def List.map_filter_def
      split: json.split)

lemma parse_nothing: "parse_fixed_point v = Inr None \<longleftrightarrow> v = JNull \<or> v = JStr []"
  by (auto simp: parse_fixed_point_def split: json.split option.split)

lemma row_quantity_field: "row_quantity row = (quantity_of row, quantity_field row \<noteq> None)"
proof -
  have "quantity_from row (k # ks) =
      (if jget row k = JNull \<or> jget row k = JStr [] then quantity_from row ks
       else (case parse_fixed_point (jget row k) of Inr (Some (q, _)) \<Rightarrow> Some q | _ \<Rightarrow> None, True))" for k ks
    using parse_nothing [of "jget row k"] by (auto split: sum.split option.split)
  then show ?thesis by (simp add: row_quantity_def quantity_of_def quantity_field_def del: quantity_from.simps(2))
qed

text \<open>The position rows of a market, and the quantity they leave it with: the last one that can be read.\<close>

definition names_market :: "jobj list \<Rightarrow> string \<Rightarrow> bool" where
  "names_market rows t \<longleftrightarrow> (\<exists>row \<in> set rows. name_of row = Some t)"

definition readings :: "jobj list \<Rightarrow> string \<Rightarrow> decimal list" where
  "readings rows t = List.map_filter quantity_of (filter (\<lambda>row. name_of row = Some t) rows)"

definition held :: "jobj list \<Rightarrow> string \<Rightarrow> decimal option" where
  "held rows t = (if readings rows t = [] then None else Some (last (readings rows t)))"

lemma readings_simps [simp]:
  "readings [] t = []"
  "readings (row # rows) t =
     (case (if name_of row = Some t then quantity_of row else None) of
        None \<Rightarrow> readings rows t | Some q \<Rightarrow> q # readings rows t)"
  by (auto simp: readings_def List.map_filter_def split: option.splits)

lemma dget_positions:
  "dget (foldl enter_position exchange rows) t =
     (if readings rows t = [] then dget exchange t else Some (last (readings rows t)))"
  by (induction rows arbitrary: exchange)
    (auto simp: enter_position_def row_ticker_name row_quantity_field split: option.splits)

lemma held_exchange: "dget (foldl enter_position [] rows) t = held rows t"
  by (simp add: dget_positions held_def)

lemma readings_empty: "readings rows t = [] \<longleftrightarrow> (\<forall>row \<in> set rows. name_of row = Some t \<longrightarrow> quantity_of row = None)"
  by (induction rows) (auto split: option.splits)

text \<open>The replayed markets with a property.\<close>

definition replayed_with :: "(string, decimal) dict \<Rightarrow> (string \<Rightarrow> decimal \<Rightarrow> bool) \<Rightarrow> nat" where
  "replayed_with replayed P = length (filter (\<lambda>(t, net). P t net) replayed)"

lemma replayed_with_split:
  "replayed_with replayed P = replayed_with replayed (\<lambda>t net. P t net \<and> Q t) + replayed_with replayed (\<lambda>t net. P t net \<and> \<not> Q t)"
  by (induction replayed) (auto simp: replayed_with_def)

lemma market_total:
  assumes "\<And>t net. count_list (market_counters ex se out (t, net)) n = (if P t net then 1 else 0)"
  shows "total (market_counters ex se out) replayed n = replayed_with replayed P"
  unfolding replayed_with_def by (rule total_filter) (use assms in \<open>auto split: prod.split\<close>)

lemma market_totals:
  "total (market_counters ex se out) ms ''markets_in_both'' = replayed_with ms (\<lambda>t net. dget ex t \<noteq> None)"
  "total (market_counters ex se out) ms ''markets_agreeing_on_quantity'' = replayed_with ms (\<lambda>t net. dget ex t = Some net)"
  "total (market_counters ex se out) ms ''markets_disagreeing_on_quantity''
     = replayed_with ms (\<lambda>t net. dget ex t \<notin> {None, Some net})"
  "total (market_counters ex se out) ms ''markets_replay_open_exchange_flat''
     = replayed_with ms (\<lambda>t net. dget ex t = Some 0 \<and> net \<noteq> 0)"
  "total (market_counters ex se out) ms ''markets_only_in_replay'' = replayed_with ms (\<lambda>t net. dget ex t = None)"
  "total (market_counters ex se out) ms ''markets_absent_and_flat_in_replay''
     = replayed_with ms (\<lambda>t net. dget ex t = None \<and> net = 0)"
  "total (market_counters ex se out) ms ''markets_absent_but_settled''
     = replayed_with ms (\<lambda>t net. dget ex t = None \<and> net \<noteq> 0 \<and> t \<in> set se)"
  "total (market_counters ex se out) ms ''markets_absent_but_outside_settlement_evidence''
     = replayed_with ms (\<lambda>t net. dget ex t = None \<and> net \<noteq> 0 \<and> t \<notin> set se \<and> t \<in> set out)"
  "total (market_counters ex se out) ms ''markets_absent_and_unexplained''
     = replayed_with ms (\<lambda>t net. dget ex t = None \<and> net \<noteq> 0 \<and> t \<notin> set se \<and> t \<notin> set out)"
  by (rule market_total; simp add: market_counters_def split: option.split)+

lemma position_totals:
  "total position_counters rows ''position_rows'' = length rows"
  "total position_counters rows ''position_rows_with_quantity'' = length (filter (\<lambda>row. quantity_of row \<noteq> None) rows)"
  "total position_counters rows ''position_rows_unparseable_quantity'' = length (filter unreadable rows)"
  "total position_counters rows ''position_rows_zero'' = length (filter (\<lambda>row. quantity_of row = Some 0) rows)"
  "total position_counters rows ''position_rows_nonzero''
     = length (filter (\<lambda>row. quantity_of row \<notin> {None, Some 0}) rows)"
  "total position_counters rows ''position_rows_with_realized_pnl''
     = length (filter (\<lambda>row. jget row ''realized_pnl_dollars'' \<noteq> JNull) rows)"
  "total position_counters rows ''position_rows_with_fees_paid''
     = length (filter (\<lambda>row. jget row ''fees_paid_dollars'' \<noteq> JNull) rows)"
proof -
  show "total position_counters rows ''position_rows'' = length rows"
    using total_filter [of position_counters "''position_rows''" "\<lambda>_. True" rows]
    by (simp add: position_counters_def row_quantity_field unreadable_def split: option.split)
qed (rule total_filter, simp add: position_counters_def row_quantity_field unreadable_def split: option.split)+

lemma settlement_totals:
  "total settlement_counters rows ''settlement_rows'' = length rows"
  "total settlement_counters rows ''settlement_rows_with_result'' = length (filter has_result rows)"
  "total settlement_counters rows ''settlement_rows_without_result'' = length (filter (\<lambda>row. \<not> has_result row) rows)"
proof -
  have none: "count_list (economics_counters row res) n = 0" if "take 12 n \<noteq> ''settlements_''" for row res n
    using that by (auto simp: count_list_0_iff dest: economics_prefix)
  show "total settlement_counters rows ''settlement_rows'' = length rows"
    using total_filter [of settlement_counters "''settlement_rows''" "\<lambda>_. True" rows]
    by (simp add: settlement_counters_def none)
  show "total settlement_counters rows ''settlement_rows_with_result'' = length (filter has_result rows)"
    "total settlement_counters rows ''settlement_rows_without_result'' = length (filter (\<lambda>row. \<not> has_result row) rows)"
    by (rule total_filter, simp add: settlement_counters_def row_result_given none)+
qed

text \<open>
  C40. Every count of the comparison and of the rows, from the rows and the replay directly (what the counters of the
  settlements' economics say of their fields is not restated). A market is held at the last quantity a
  position row of it could be read with; the replayed markets that are held agree, or disagree, some of them open in
  the replay and flat on the exchange; those that are not held are flat, settled, outside the settlement evidence or
  unexplained, in this order. The markets not held are of two kinds the report does not separate: those no position
  row names, and those every position row of which has a quantity that is missing or could not be read. The second kind is counted as
  absent too, and as unexplained where nothing else accounts for it, although the module says the two faults must not
  merge. The rows themselves are counted, with their readable and their unreadable quantities apart.
\<close>

theorem reconciliation_counts_every_market:
  "let d = rr_counts (probe_reconciliation positions settlements replayed outside);
       ps = objects_of positions; ss = objects_of settlements in
    d ''replayed_markets'' = length replayed
    \<and> d ''markets_in_both'' = replayed_with replayed (\<lambda>t net. held ps t \<noteq> None)
    \<and> d ''markets_agreeing_on_quantity'' = replayed_with replayed (\<lambda>t net. held ps t = Some net)
    \<and> d ''markets_disagreeing_on_quantity'' = replayed_with replayed (\<lambda>t net. held ps t \<notin> {None, Some net})
    \<and> d ''markets_replay_open_exchange_flat'' = replayed_with replayed (\<lambda>t net. held ps t = Some 0 \<and> net \<noteq> 0)
    \<and> d ''markets_only_in_positions'' = card {t. held ps t \<noteq> None \<and> t \<notin> set (dkeys replayed)}
    \<and> d ''markets_only_in_replay'' = replayed_with replayed (\<lambda>t net. \<not> names_market ps t)
        + replayed_with replayed (\<lambda>t net. names_market ps t \<and> held ps t = None)
    \<and> d ''markets_absent_and_flat_in_replay'' = replayed_with replayed (\<lambda>t net. held ps t = None \<and> net = 0)
    \<and> d ''markets_absent_but_settled''
        = replayed_with replayed (\<lambda>t net. held ps t = None \<and> net \<noteq> 0 \<and> names_market ss t)
    \<and> d ''markets_absent_but_outside_settlement_evidence''
        = replayed_with replayed (\<lambda>t net. held ps t = None \<and> net \<noteq> 0 \<and> \<not> names_market ss t \<and> t \<in> set outside)
    \<and> d ''markets_absent_and_unexplained''
        = replayed_with replayed (\<lambda>t net. \<not> names_market ps t \<and> net \<noteq> 0 \<and> \<not> names_market ss t \<and> t \<notin> set outside)
        + replayed_with replayed (\<lambda>t net. names_market ps t \<and> held ps t = None
            \<and> net \<noteq> 0 \<and> \<not> names_market ss t \<and> t \<notin> set outside)
    \<and> d ''position_rows'' = length ps
    \<and> d ''position_rows_with_quantity'' = length (filter (\<lambda>row. quantity_of row \<noteq> None) ps)
    \<and> d ''position_rows_unparseable_quantity'' = length (filter unreadable ps)
    \<and> d ''position_rows_zero'' = length (filter (\<lambda>row. quantity_of row = Some 0) ps)
    \<and> d ''position_rows_nonzero'' = length (filter (\<lambda>row. quantity_of row \<notin> {None, Some 0}) ps)
    \<and> d ''position_rows_with_realized_pnl'' = length (filter (\<lambda>row. jget row ''realized_pnl_dollars'' \<noteq> JNull) ps)
    \<and> d ''position_rows_with_fees_paid'' = length (filter (\<lambda>row. jget row ''fees_paid_dollars'' \<noteq> JNull) ps)
    \<and> d ''settlement_rows'' = length ss \<and> d ''settlement_markets'' = card {t. names_market ss t}
    \<and> d ''settlement_rows_with_result'' = length (filter has_result ss)
    \<and> d ''settlement_rows_without_result'' = length (filter (\<lambda>row. \<not> has_result row) ss)"
proof -
  define d where "d = rr_counts (probe_reconciliation positions settlements replayed outside)"
  define ps ss where "ps = objects_of positions" and "ss = objects_of settlements"
  let ?ex = "foldl enter_position [] ps"
  obtain settled where settled: "set settled = {t. \<exists>row \<in> set ss. row_ticker row = Some t}"
    and d: "\<And>n. n \<notin> {''settlement_markets'', ''replayed_markets'', ''markets_only_in_positions''} \<Longrightarrow>
      d n = total position_counters ps n + total settlement_counters ss n + total (market_counters ?ex settled outside) replayed n"
    and set_counts: "d ''replayed_markets'' = length replayed" "d ''settlement_markets'' = card (set settled)"
      "d ''markets_only_in_positions'' = card {t \<in> set (dkeys ?ex). t \<notin> set (dkeys replayed)}"
    unfolding d_def ps_def ss_def
    by (rule probe_counts [where positions = positions and settlements = settlements and replayed = replayed and outside = outside])
      blast
  have position: "d n = total position_counters ps n" if "take 9 n = ''position_''" for n
    using that by (subst d) (auto simp: phase_totals)
  have settlement: "d n = total settlement_counters ss n" if "take 10 n = ''settlement''" "n \<noteq> ''settlement_markets''" for n
    using that by (subst d) (auto simp: phase_totals)
  have market: "d n = total (market_counters ?ex settled outside) replayed n"
    if "take 8 n = ''markets_''" "n \<noteq> ''markets_only_in_positions''" for n
    using that by (subst d) (auto simp: phase_totals)
  have named: "set settled = {t. names_market ss t}" by (simp add: settled names_market_def row_ticker_name)
  have unnamed: "\<not> names_market ps t \<Longrightarrow> held ps t = None" for t
    by (auto simp: names_market_def held_def readings_empty)
  have keys: "{t \<in> set (dkeys ?ex). t \<notin> set (dkeys replayed)} = {t. held ps t \<noteq> None \<and> t \<notin> set (dkeys replayed)}"
    by (auto simp: held_exchange [symmetric] dom_map_of_conv_image_fst [symmetric])
  have cards: "d ''settlement_markets'' = card {t. names_market ss t}"
    "d ''markets_only_in_positions'' = card {t. held ps t \<noteq> None \<and> t \<notin> set (dkeys replayed)}"
    unfolding set_counts(2,3) keys named by simp_all
  have absent: "replayed_with replayed (\<lambda>t net. held ps t = None \<and> P t net)
      = replayed_with replayed (\<lambda>t net. \<not> names_market ps t \<and> P t net)
      + replayed_with replayed (\<lambda>t net. names_market ps t \<and> held ps t = None \<and> P t net)" for P
    unfolding replayed_with_split [of replayed "\<lambda>t net. held ps t = None \<and> P t net" "\<lambda>t. \<not> names_market ps t"]
    by (rule arg_cong2 [where f = "(+)"]; rule arg_cong [where f = "replayed_with replayed"]) (use unnamed in \<open>auto simp: fun_eq_iff\<close>)
  show ?thesis
    unfolding Let_def d_def [symmetric] ps_def [symmetric] ss_def [symmetric]
    using set_counts(1) cards absent [of "\<lambda>t net. True"] absent [of "\<lambda>t net. net \<noteq> 0 \<and> \<not> names_market ss t \<and> t \<notin> set outside"]
    by (simp add: position settlement market position_totals settlement_totals market_totals held_exchange named)
qed

end
