(* ===== verification/Metadata.thy ===== *)
theory Metadata
  imports Classify
begin

text \<open>
  \<^verbatim>\<open>metadata.py\<close>: the resolver that walks market, event, event metadata and series for a ticker, keeps every
  answer in a cache, and counts what it did. A failed lookup is an answer too; an exception that is not the router's
  own leaves the resolver.

  The lemmas: what was resolved first is what every later call returns, without a request, and each distinct market
  costs at most four reads of the exchange.
\<close>

record resolver_stats =
  rs_markets_requested :: nat
  rs_cache_hits :: nat
  rs_market_lookup_failures :: nat
  rs_partial_lookup_failures :: nat
  rs_events_observed :: nat
  rs_event_metadata_retrieved :: nat
  rs_event_metadata_failures :: nat
  rs_events_with_competition :: nat
  rs_events_with_scope :: nat
  rs_events_malformed :: nat

definition no_stats :: resolver_stats where
  "no_stats = \<lparr>rs_markets_requested = 0, rs_cache_hits = 0, rs_market_lookup_failures = 0, rs_partial_lookup_failures = 0,
     rs_events_observed = 0, rs_event_metadata_retrieved = 0, rs_event_metadata_failures = 0,
     rs_events_with_competition = 0, rs_events_with_scope = 0, rs_events_malformed = 0\<rparr>"

definition stats_as_dict :: "resolver_stats \<Rightarrow> (string, nat) dict" where
  "stats_as_dict st =
     [(''markets_requested'', rs_markets_requested st),
      (''cache_hits'', rs_cache_hits st),
      (''market_lookup_failures'', rs_market_lookup_failures st),
      (''partial_lookup_failures'', rs_partial_lookup_failures st),
      (''events_observed'', rs_events_observed st),
      (''event_metadata_retrieved'', rs_event_metadata_retrieved st),
      (''event_metadata_failures'', rs_event_metadata_failures st),
      (''events_with_competition'', rs_events_with_competition st),
      (''events_with_competition_scope'', rs_events_with_scope st),
      (''events_with_malformed_metadata'', rs_events_malformed st)]"

record resolver_state =
  rv_client :: client
  rv_stats :: resolver_stats
  rv_markets :: "(string, market_context) dict"
  rv_events :: "(string, jobj option) dict"
  rv_event_metadata :: "(string, jobj option) dict"
  rv_series :: "(string, jobj option) dict"

definition new_resolver :: "client \<Rightarrow> resolver_state" where
  "new_resolver c = \<lparr>rv_client = c, rv_stats = no_stats, rv_markets = [], rv_events = [], rv_event_metadata = [],
     rv_series = []\<rparr>"

definition failure_label :: "py_error \<Rightarrow> string" where
  "failure_label e =
     (case e of
        HttpStatusError status \<Rightarrow> error_name e @ ''(status='' @ show_int status @ '')''
      | RateLimitError status \<Rightarrow> error_name e @ ''(status='' @ show_int status @ '')''
      | AuthenticationError status \<Rightarrow> error_name e @ ''(status='' @ show_int status @ '')''
      | _ \<Rightarrow> error_name e)"

text \<open>The key of an event or a series: a non-blank string, stripped.\<close>

definition lookup_key :: "json \<Rightarrow> string option" where
  "lookup_key v = (case v of JStr s \<Rightarrow> if blank s then None else Some (py_strip s) | _ \<Rightarrow> None)"

definition partial_failure :: "resolver_state \<Rightarrow> resolver_state" where
  "partial_failure r = r\<lparr>rv_stats := (rv_stats r)\<lparr>rs_partial_lookup_failures := rs_partial_lookup_failures (rv_stats r) + 1\<rparr>\<rparr>"

definition resolve_event :: "environment \<Rightarrow> json \<Rightarrow> resolver_state \<Rightarrow> jobj option result \<times> resolver_state" where
  "resolve_event env event_ticker r =
     (case lookup_key event_ticker of
        None \<Rightarrow> (Inr None, r)
      | Some key \<Rightarrow>
          (case dget (rv_events r) key of
             Some event \<Rightarrow> (Inr event, r)
           | None \<Rightarrow>
               (case get_event env key (rv_client r) of (answer, c) \<Rightarrow>
                let r = r\<lparr>rv_client := c\<rparr> in
                case answer of
                  Inr event \<Rightarrow> (Inr (Some event), r\<lparr>rv_events := dput key (Some event) (rv_events r)\<rparr>)
                | Inl e \<Rightarrow>
                    if router_error e then (Inr None, (partial_failure r)\<lparr>rv_events := dput key None (rv_events r)\<rparr>)
                    else (Inl e, r))))"

definition resolve_series :: "environment \<Rightarrow> json \<Rightarrow> resolver_state \<Rightarrow> jobj option result \<times> resolver_state" where
  "resolve_series env series_ticker r =
     (case lookup_key series_ticker of
        None \<Rightarrow> (Inr None, r)
      | Some key \<Rightarrow>
          (case dget (rv_series r) key of
             Some series \<Rightarrow> (Inr series, r)
           | None \<Rightarrow>
               (case get_series env key (rv_client r) of (answer, c) \<Rightarrow>
                let r = r\<lparr>rv_client := c\<rparr> in
                case answer of
                  Inr series \<Rightarrow> (Inr (Some series), r\<lparr>rv_series := dput key (Some series) (rv_series r)\<rparr>)
                | Inl e \<Rightarrow>
                    if router_error e then (Inr None, (partial_failure r)\<lparr>rv_series := dput key None (rv_series r)\<rparr>)
                    else (Inl e, r))))"

text \<open>The counters of a retrieved document.\<close>

definition count_metadata :: "jobj \<Rightarrow> resolver_stats \<Rightarrow> resolver_stats" where
  "count_metadata metadata st =
     (case validate_metadata_string_field (Some metadata) ''competition'' of (competition, competition_error) \<Rightarrow>
      case validate_metadata_string_field (Some metadata) ''competition_scope'' of (scope, scope_error) \<Rightarrow>
      let st = st\<lparr>rs_event_metadata_retrieved := rs_event_metadata_retrieved st + 1\<rparr> in
      if competition_error \<noteq> None \<or> scope_error \<noteq> None then st\<lparr>rs_events_malformed := rs_events_malformed st + 1\<rparr>
      else
        st\<lparr>rs_events_with_competition := rs_events_with_competition st + (if text_or_empty competition \<noteq> [] then 1 else 0),
           rs_events_with_scope := rs_events_with_scope st + (if text_or_empty scope \<noteq> [] then 1 else 0)\<rparr>)"

definition resolve_event_metadata ::
  "environment \<Rightarrow> json \<Rightarrow> resolver_state \<Rightarrow> (jobj option \<times> string option) result \<times> resolver_state" where
  "resolve_event_metadata env event_ticker r =
     (case lookup_key event_ticker of
        None \<Rightarrow> (Inr (None, None), r)
      | Some key \<Rightarrow>
          (case dget (rv_event_metadata r) key of
             Some metadata \<Rightarrow> (Inr (metadata, None), r)
           | None \<Rightarrow>
               (case get_event_metadata env key (rv_client r) of (answer, c) \<Rightarrow>
                let st = (rv_stats r)\<lparr>rs_events_observed := rs_events_observed (rv_stats r) + 1\<rparr>;
                    r = r\<lparr>rv_client := c, rv_stats := st\<rparr> in
                case answer of
                  Inr metadata \<Rightarrow>
                    (Inr (Some metadata, None),
                     r\<lparr>rv_stats := count_metadata metadata st,
                       rv_event_metadata := dput key (Some metadata) (rv_event_metadata r)\<rparr>)
                | Inl e \<Rightarrow>
                    if router_error e
                    then (Inr (None, Some (failure_label e)),
                          r\<lparr>rv_stats := st\<lparr>rs_event_metadata_failures := rs_event_metadata_failures st + 1\<rparr>,
                            rv_event_metadata := dput key None (rv_event_metadata r)\<rparr>)
                    else (Inl e, r))))"

text \<open>\<open>market.get("event_ticker") or (market.get("event") or {}).get("event_ticker")\<close>.\<close>

definition market_event_ticker :: "jobj \<Rightarrow> json result" where
  "market_event_ticker market =
     (if truthy (jget market ''event_ticker'') then Inr (jget market ''event_ticker'')
      else if \<not> truthy (jget market ''event'') then Inr JNull
      else case jget market ''event'' of JObj event \<Rightarrow> Inr (jget event ''event_ticker'') | _ \<Rightarrow> Inl AttributeError)"

definition market_series_ticker :: "jobj option \<Rightarrow> jobj \<Rightarrow> json" where
  "market_series_ticker event market =
     (let v = get_field event ''series_ticker'' in if truthy v then v else jget market ''series_ticker'')"

definition remember :: "string \<Rightarrow> market_context \<Rightarrow> resolver_state \<Rightarrow> resolver_state" where
  "remember market_ticker ctx r = r\<lparr>rv_markets := dput market_ticker ctx (rv_markets r)\<rparr>"

definition failed_lookup :: "string \<Rightarrow> py_error \<Rightarrow> market_context" where
  "failed_lookup market_ticker e =
     \<lparr>mc_ticker = market_ticker, mc_market = None, mc_event = None, mc_series = None, mc_event_metadata = None,
      mc_lookup_error = Some (failure_label e), mc_event_metadata_error = None\<rparr>"

text \<open>The walk from a market that was read to its context.\<close>

definition resolve_market :: "environment \<Rightarrow> string \<Rightarrow> jobj \<Rightarrow> resolver_state \<Rightarrow> market_context result \<times> resolver_state" where
  "resolve_market env market_ticker market r =
     (case market_event_ticker market of
        Inl e \<Rightarrow> (Inl e, r)
      | Inr event_ticker \<Rightarrow>
        (case resolve_event env event_ticker r of
          (Inl e, r) \<Rightarrow> (Inl e, r)
        | (Inr event, r) \<Rightarrow>
        (case resolve_event_metadata env event_ticker r of
          (Inl e, r) \<Rightarrow> (Inl e, r)
        | (Inr (metadata, metadata_error), r) \<Rightarrow>
        (case resolve_series env (market_series_ticker event market) r of
          (Inl e, r) \<Rightarrow> (Inl e, r)
        | (Inr series, r) \<Rightarrow>
            let ctx = \<lparr>mc_ticker = market_ticker, mc_market = Some market, mc_event = event, mc_series = series,
                       mc_event_metadata = metadata, mc_lookup_error = None, mc_event_metadata_error = metadata_error\<rparr>
            in (Inr ctx, remember market_ticker ctx r)))))"

definition cache_hit :: "resolver_state \<Rightarrow> resolver_state" where
  "cache_hit r = r\<lparr>rv_stats := (rv_stats r)\<lparr>rs_cache_hits := rs_cache_hits (rv_stats r) + 1\<rparr>\<rparr>"

definition resolve :: "environment \<Rightarrow> string \<Rightarrow> resolver_state \<Rightarrow> market_context result \<times> resolver_state" where
  "resolve env market_ticker r =
     (case dget (rv_markets r) market_ticker of
        Some ctx \<Rightarrow> (Inr ctx, cache_hit r)
      | None \<Rightarrow>
          (case get_market env market_ticker (rv_client r) of (answer, c) \<Rightarrow>
           let st = (rv_stats r)\<lparr>rs_markets_requested := rs_markets_requested (rv_stats r) + 1\<rparr>;
               r = r\<lparr>rv_client := c, rv_stats := st\<rparr> in
           case answer of
             Inr market \<Rightarrow> resolve_market env market_ticker market r
           | Inl e \<Rightarrow>
               if router_error e
               then (Inr (failed_lookup market_ticker e),
                     remember market_ticker (failed_lookup market_ticker e)
                       (r\<lparr>rv_stats := st\<lparr>rs_market_lookup_failures := rs_market_lookup_failures st + 1\<rparr>\<rparr>))
               else (Inl e, r)))"

text \<open>One call after another.\<close>

fun resolve_all :: "environment \<Rightarrow> string list \<Rightarrow> resolver_state \<Rightarrow> market_context result list \<times> resolver_state" where
  "resolve_all env [] r = ([], r)"
| "resolve_all env (t # ts) r =
     (case resolve env t r of (answer, r) \<Rightarrow>
      case resolve_all env ts r of (answers, r) \<Rightarrow> (answer # answers, r))"

section \<open>The cost of a read\<close>

lemma retry_loop_count: "c_request_count (snd (retry_loop transport url delays c)) = c_request_count c"
proof (induction delays arbitrary: c)
  case Nil
  show ?case
    by (simp add: retry_loop.simps send_def Let_def exhaust_def note_failure_def split: attempt.split)
next
  case (Cons d ds)
  show ?case
    by (subst retry_loop.simps) (simp add: Cons send_def Let_def back_off_def note_failure_def split: attempt.split)
qed

lemma client_get_count: "c_request_count (snd (client_get env path params c)) \<le> c_request_count c + 1"
proof -
  let ?url = "build_url (cfg_base_url (env_config env)) path params" and ?n = "cfg_max_retries (env_config env)"
  have "c_request_count (snd (request_with_retries (env_transport env) (env_jitter env) ?url ?n
      (c\<lparr>c_request_count := c_request_count c + 1\<rparr>))) = c_request_count c + 1"
    by (simp add: request_with_retries_def Let_def retry_loop_count exhaust_def)
  then show ?thesis by (auto simp: client_get_def split: prod.split)
qed

lemma get_counts:
  "c_request_count (snd (get_market env t c)) \<le> c_request_count c + 1"
  "c_request_count (snd (get_event env t c)) \<le> c_request_count c + 1"
  "c_request_count (snd (get_series env t c)) \<le> c_request_count c + 1"
  "c_request_count (snd (get_event_metadata env t c)) \<le> c_request_count c + 1"
  using client_get_count [of env _ "[]" c]
  by (auto simp: get_market_def get_event_def get_series_def get_object_def get_event_metadata_def split: prod.split)
    (metis snd_conv)+

abbreviation requests :: "resolver_state \<Rightarrow> nat" where
  "requests r \<equiv> c_request_count (rv_client r)"

text \<open>What a helper keeps: the markets cache and the two counters of calls; it makes at most one read.\<close>

definition one_read :: "resolver_state \<Rightarrow> resolver_state \<Rightarrow> bool" where
  "one_read r r' \<longleftrightarrow> rv_markets r' = rv_markets r \<and> requests r' \<le> requests r + 1
     \<and> rs_markets_requested (rv_stats r') = rs_markets_requested (rv_stats r)
     \<and> rs_cache_hits (rv_stats r') = rs_cache_hits (rv_stats r)"

lemma count_metadata_keeps [simp]:
  "rs_markets_requested (count_metadata m st) = rs_markets_requested st"
  "rs_cache_hits (count_metadata m st) = rs_cache_hits st"
  by (simp_all add: count_metadata_def Let_def split: prod.split)

lemma helpers_read_once:
  "one_read r (snd (resolve_event env v r))"
  "one_read r (snd (resolve_series env v r))"
  "one_read r (snd (resolve_event_metadata env v r))"
  using get_counts
  by (simp_all add: resolve_event_def resolve_series_def resolve_event_metadata_def one_read_def partial_failure_def Let_def
      split: option.split prod.split sum.split) (metis snd_conv)+

lemma resolve_market_spec:
  assumes "resolve_market env t market r = (answer, r')"
  shows "requests r' \<le> requests r + 3
    \<and> rs_markets_requested (rv_stats r') = rs_markets_requested (rv_stats r)
    \<and> rs_cache_hits (rv_stats r') = rs_cache_hits (rv_stats r)
    \<and> rv_markets r' = (case answer of Inr ctx \<Rightarrow> dput t ctx (rv_markets r) | Inl _ \<Rightarrow> rv_markets r)"
proof (cases "market_event_ticker market")
  case (Inl e)
  then show ?thesis using assms by (auto simp: resolve_market_def)
next
  case (Inr v)
  obtain event r1 where r1: "resolve_event env v r = (event, r1)" by fastforce
  obtain metadata r2 where r2: "resolve_event_metadata env v r1 = (metadata, r2)" by fastforce
  have step: "one_read r r1" "one_read r1 r2" using helpers_read_once [of _ env v] r1 r2 by (metis snd_conv)+
  show ?thesis
  proof (cases event)
    case e: (Inr event)
    show ?thesis
    proof (cases metadata)
      case m: (Inr md)
      obtain series r3 where r3: "resolve_series env (market_series_ticker event market) r2 = (series, r3)" by fastforce
      then have "one_read r2 r3" using helpers_read_once(2) [of r2 env "market_series_ticker event market"] by simp
      then show ?thesis using assms Inr e m r1 r2 r3 step
        by (cases series) (auto simp: resolve_market_def one_read_def remember_def Let_def split: prod.splits)
    qed (use assms Inr e r1 r2 step in \<open>auto simp: resolve_market_def one_read_def\<close>)
  qed (use assms Inr r1 step in \<open>auto simp: resolve_market_def one_read_def\<close>)
qed

lemma resolve_miss:
  assumes "dget (rv_markets r) t = None" and "resolve env t r = (answer, r')"
  shows "requests r' \<le> requests r + 4
    \<and> rs_markets_requested (rv_stats r') = Suc (rs_markets_requested (rv_stats r))
    \<and> rs_cache_hits (rv_stats r') = rs_cache_hits (rv_stats r)
    \<and> rv_markets r' = (case answer of Inr ctx \<Rightarrow> dput t ctx (rv_markets r) | Inl _ \<Rightarrow> rv_markets r)"
proof -
  obtain got c where g: "get_market env t (rv_client r) = (got, c)" by fastforce
  then have c: "c_request_count c \<le> requests r + 1" using get_counts(1) [of env t "rv_client r"] by simp
  show ?thesis
  proof (cases got)
    case (Inl e)
    then show ?thesis using assms g c
      by (auto simp: resolve_def Let_def remember_def split: if_splits)
  next
    case (Inr market)
    with assms g have "resolve_market env t market
        (r\<lparr>rv_client := c, rv_stats := (rv_stats r)\<lparr>rs_markets_requested := rs_markets_requested (rv_stats r) + 1\<rparr>\<rparr>) = (answer, r')"
      by (simp add: resolve_def Let_def)
    from resolve_market_spec [OF this] show ?thesis using c by (auto split: sum.splits)
  qed
qed

lemma resolve_hit: "dget (rv_markets r) t = Some ctx \<Longrightarrow> resolve env t r = (Inr ctx, cache_hit r)"
  by (simp add: resolve_def)

lemma cache_hit_keeps [simp]:
  "rv_markets (cache_hit r) = rv_markets r" "rv_client (cache_hit r) = rv_client r"
  "rs_cache_hits (rv_stats (cache_hit r)) = Suc (rs_cache_hits (rv_stats r))"
  "rs_markets_requested (rv_stats (cache_hit r)) = rs_markets_requested (rv_stats r)"
  by (simp_all add: cache_hit_def)

section \<open>Reading through a cache\<close>

text \<open>What the three caches promise their callers.\<close>

locale read_through =
  fixes lookup :: "'k \<Rightarrow> 's \<Rightarrow> 'v result \<times> 's"
    and memo :: "'s \<Rightarrow> 'k \<Rightarrow> 'v option"
  assumes hit: "memo s k = Some v \<Longrightarrow> fst (lookup k s) = Inr v"
    and stored: "fst (lookup k s) = Inr v \<Longrightarrow> memo (snd (lookup k s)) k = Some v"
    and kept: "memo s k = Some v \<Longrightarrow> memo (snd (lookup k' s)) k = Some v"
begin

definition after :: "'k list \<Rightarrow> 's \<Rightarrow> 's" where
  "after ks s = fold (\<lambda>k s. snd (lookup k s)) ks s"

lemma memo_after: "memo s k = Some v \<Longrightarrow> memo (after ks s) k = Some v"
  unfolding after_def by (induction ks arbitrary: s) (auto dest: kept)

lemma first_answer_stays:
  "fst (lookup k s) = Inr v \<Longrightarrow> fst (lookup k (after ks (snd (lookup k s)))) = Inr v"
  using stored memo_after hit by blast

end

interpretation markets: read_through "resolve env" "\<lambda>r. dget (rv_markets r)" for env
proof
  fix r :: resolver_state and t ctx
  show "dget (rv_markets r) t = Some ctx \<Longrightarrow> fst (resolve env t r) = Inr ctx"
    by (simp add: resolve_hit)
  obtain answer r' where run: "resolve env t r = (answer, r')" by fastforce
  show "fst (resolve env t r) = Inr ctx \<Longrightarrow> dget (rv_markets (snd (resolve env t r))) t = Some ctx"
    using resolve_miss [OF _ run] resolve_hit [of r t _ env] run by (cases "dget (rv_markets r) t") simp_all
next
  fix r :: resolver_state and t ctx t'
  assume known: "dget (rv_markets r) t = Some ctx"
  obtain answer r' where run: "resolve env t' r = (answer, r')" by fastforce
  show "dget (rv_markets (snd (resolve env t' r))) t = Some ctx"
  proof (cases "dget (rv_markets r) t'")
    case None
    with known have "t' \<noteq> t" by auto
    then show ?thesis using resolve_miss [OF None run] run known by (cases answer) simp_all
  qed (use known in \<open>simp add: resolve_hit\<close>)
qed

definition event_memo :: "resolver_state \<Rightarrow> json \<Rightarrow> jobj option option" where
  "event_memo r v = (case lookup_key v of None \<Rightarrow> Some None | Some key \<Rightarrow> dget (rv_events r) key)"

definition series_memo :: "resolver_state \<Rightarrow> json \<Rightarrow> jobj option option" where
  "series_memo r v = (case lookup_key v of None \<Rightarrow> Some None | Some key \<Rightarrow> dget (rv_series r) key)"

interpretation events: read_through "resolve_event env" event_memo for env
  by unfold_locales
     (auto simp: resolve_event_def event_memo_def partial_failure_def Let_def split: option.splits prod.splits sum.splits)

interpretation series: read_through "resolve_series env" series_memo for env
  by unfold_locales
     (auto simp: resolve_series_def series_memo_def partial_failure_def Let_def split: option.splits prod.splits sum.splits)

section \<open>Resolving many markets\<close>

lemma resolve_all_state: "snd (resolve_all env ts r) = markets.after env ts r"
  unfolding markets.after_def by (induction ts arbitrary: r) (auto split: prod.split, metis snd_conv)

text \<open>The reads a list of calls makes, when every call is answered.\<close>

lemma resolve_all_spec:
  assumes "resolve_all env ts r = (answers, r')" and "\<forall>a \<in> set answers. \<exists>ctx. a = Inr ctx"
  shows "fst ` set (rv_markets r') = fst ` set (rv_markets r) \<union> set ts
    \<and> requests r' \<le> requests r + 4 * card (set ts - fst ` set (rv_markets r))
    \<and> rs_markets_requested (rv_stats r') = rs_markets_requested (rv_stats r) + card (set ts - fst ` set (rv_markets r))
    \<and> rs_markets_requested (rv_stats r') + rs_cache_hits (rv_stats r')
        = rs_markets_requested (rv_stats r) + rs_cache_hits (rv_stats r) + length ts"
  using assms
proof (induction ts arbitrary: r answers)
  case (Cons t ts)
  obtain answer r1 where r1: "resolve env t r = (answer, r1)" by fastforce
  obtain rest where rest: "resolve_all env ts r1 = (rest, r')" and answers: "answers = answer # rest"
    using Cons.prems(1) r1 by (auto split: prod.splits)
  then obtain ctx where ctx: "answer = Inr ctx" using Cons.prems(2) by auto
  note IH = Cons.IH [OF rest] Cons.prems(2) answers
  let ?known = "fst ` set (rv_markets r)"
  show ?case
  proof (cases "dget (rv_markets r) t")
    case (Some ctx')
    then have r1': "r1 = cache_hit r" using resolve_hit [OF Some, of env] r1 by simp
    have "t \<in> ?known" using Some by (auto dest: map_of_SomeD intro: rev_image_eqI)
    then have "set (t # ts) - ?known = set ts - ?known" "insert t (?known \<union> set ts) = ?known \<union> set ts" by auto
    then show ?thesis using IH r1' by (simp add: insert_absorb)
  next
    case None
    note miss = resolve_miss [OF None r1]
    have t: "t \<notin> ?known" using None by (simp add: map_of_eq_None_iff)
    have known: "fst ` set (rv_markets r1) = insert t ?known" using miss ctx by simp
    have "set (t # ts) - ?known = insert t (set ts - insert t ?known)" using t by auto
    then have "card (set (t # ts) - ?known) = Suc (card (set ts - insert t ?known))" by simp
    then show ?thesis using IH miss unfolding known by auto
  qed
qed simp

lemma resolve_all_remembered:
  assumes "resolve_all env ts r = (answers, r')"
  shows "length answers = length ts
    \<and> (\<forall>i < length ts. \<forall>ctx. answers ! i = Inr ctx \<longrightarrow> dget (rv_markets r') (ts ! i) = Some ctx)"
  using assms
proof (induction ts arbitrary: r answers)
  case (Cons t ts)
  obtain answer r1 where r1: "resolve env t r = (answer, r1)" by fastforce
  obtain rest where rest: "resolve_all env ts r1 = (rest, r')" and answers: "answers = answer # rest"
    using Cons.prems r1 by (auto split: prod.splits)
  have "dget (rv_markets r') t = Some ctx" if "answer = Inr ctx" for ctx
    using markets.stored [of env t r ctx] markets.memo_after [of r1 t ctx env ts] resolve_all_state [of env ts r1] that r1 rest
    by simp
  with Cons.IH [OF rest] answers show ?case by (auto simp: nth_Cons split: nat.split)
qed simp

text \<open>C5: a market is read once. However often and in whatever order a fresh resolver is asked, each distinct market
  costs at most four reads of the exchange, every call is counted as a request or as a cache hit, and asking again
  afterwards repeats the first answer, a failed lookup included, without another read.\<close>
theorem resolver_reads_each_market_once:
  assumes "resolve_all env ts (new_resolver c) = (answers, r)" and "\<forall>a \<in> set answers. \<exists>ctx. a = Inr ctx"
  shows "requests r \<le> c_request_count c + 4 * card (set ts)
    \<and> rs_markets_requested (rv_stats r) = card (set ts)
    \<and> rs_markets_requested (rv_stats r) + rs_cache_hits (rv_stats r) = length ts
    \<and> (\<forall>i < length ts. resolve env (ts ! i) r = (answers ! i, cache_hit r) \<and> requests (cache_hit r) = requests r)"
proof -
  note spec = resolve_all_spec [OF assms]
  note remembered = resolve_all_remembered [OF assms(1)]
  have "resolve env (ts ! i) r = (answers ! i, cache_hit r)" if i: "i < length ts" for i
  proof -
    obtain ctx where "answers ! i = Inr ctx" using assms(2) remembered i by (metis nth_mem)
    then show ?thesis using remembered i resolve_hit [of r "ts ! i" ctx env] by simp
  qed
  then show ?thesis using spec by (simp add: new_resolver_def no_stats_def)
qed

text \<open>The witness: an exchange that serves one market document for every path, asked three times about two markets.\<close>

definition market_page :: environment where
  "market_page = one_page\<lparr>env_decode := \<lambda>_. Some (JObj [(''market'', JObj [(''ticker'', JStr ''KXA'')])])\<rparr>"

theorem resolver_reads_each_market_once_witness:
  "\<exists>answers r. resolve_all market_page [''KXA'', ''KXB'', ''KXA''] (new_resolver new_client) = (answers, r)
    \<and> rs_markets_requested (rv_stats r) = 2 \<and> rs_cache_hits (rv_stats r) = 1 \<and> requests r \<le> 8"
proof -
  let ?ts = "[''KXA'', ''KXB'', ''KXA'']"
  obtain answers r where run: "resolve_all market_page ?ts (new_resolver new_client) = (answers, r)" by fastforce
  have read: "read_only (''/markets/'' @ ''KXA'')" "read_only (''/markets/'' @ ''KXB'')" by code_simp+
  have reads: "\<exists>ctx. fst (resolve market_page t r0) = Inr ctx" if "t \<in> {''KXA'', ''KXB''}" for t and r0 :: resolver_state
  proof (cases "dget (rv_markets r0) t")
    case None
    have "\<exists>c'. client_get market_page (''/markets/'' @ t) [] (rv_client r0)
        = (Inr [(''market'', JObj [(''ticker'', JStr ''KXA'')])], c')"
      by (rule one_page_get) (use read that in \<open>auto simp: market_page_def\<close>)
    with None show ?thesis
      by (elim exE) (simp add: resolve_def get_market_def get_object_def require_object_def jget_def resolve_market_def market_event_ticker_def
          resolve_event_def resolve_event_metadata_def resolve_series_def lookup_key_def market_series_ticker_def get_field_def Let_def)
  qed (simp add: resolve_hit)
  have "\<forall>a \<in> set answers. \<exists>ctx. a = Inr ctx"
    using run reads [of "''KXA''"] reads [of "''KXB''"] by (auto split: prod.splits) (metis fst_conv)+
  note spec = resolver_reads_each_market_once [OF run this]
  have "set ?ts = {''KXA'', ''KXB''}" by auto
  then have two: "card (set ?ts) = 2" by simp
  have "requests r \<le> 8 \<and> rs_markets_requested (rv_stats r) = 2 \<and> rs_cache_hits (rv_stats r) = 1"
    using spec unfolding two by (simp add: new_client_def)
  with run show ?thesis by blast
qed

end
