(* ===== verification/Closes.thy ===== *)
theory Closes
  imports Milestones Production
begin

text \<open>
  \<^verbatim>\<open>closes.py\<close>, the candlestick read of \<^verbatim>\<open>client.py\<close>, and \<^verbatim>\<open>close_coverage.py\<close>: the candles of a market,
  the label its closing price earns, the bounded fetch that looks for it, and the counts over the account's markets.

  The lemmas: a true close is the last usable candle, near enough and uncrossed; what the fetch calls a true close was
  served as one; a market costs at most four reads; and the coverage counts add up.
\<close>

section \<open>Candles\<close>

definition ALLOWED_PERIODS :: "int list" where "ALLOWED_PERIODS = [1, 60, 1440]"
definition MAX_CANDLES :: int where "MAX_CANDLES = 5000"
definition DEFAULT_MAX_GAP_SECONDS :: int where "DEFAULT_MAX_GAP_SECONDS = 15 * 60"
definition DEFAULT_MAX_SPREAD :: decimal where "DEFAULT_MAX_SPREAD = 10 / 100"
definition TRUE_CLOSE_MAX_PERIOD_MINUTES :: int where "TRUE_CLOSE_MAX_PERIOD_MINUTES = 60"

record candle =
  end_ts :: int
  yes_bid_close :: "decimal option"
  yes_ask_close :: "decimal option"
  trade_close :: "decimal option"
  candle_volume :: "decimal option"

definition candle_px :: "json \<Rightarrow> decimal option result" where
  "candle_px v = (case v of
       JNull \<Rightarrow> Inr None
     | JObj ob \<Rightarrow>
         rbind (parse_fixed_point (jget ob ''close_dollars'')) (\<lambda>dollars.
         rbind (case dollars of
                  Some (x, _) \<Rightarrow> Inr (Some x)
                | None \<Rightarrow>
                    (case jget ob ''close'' of
                       JNull \<Rightarrow> Inr None
                     | JInt cents \<Rightarrow> Inr (Some (ddiv (of_int cents) 100))
                     | _ \<Rightarrow> Inl SchemaError)) (\<lambda>value.
         case value of
           None \<Rightarrow> Inr None
         | Some x \<Rightarrow> if 0 \<le> x \<and> x \<le> 1 then Inr (Some x) else Inl SchemaError))
     | _ \<Rightarrow> Inl SchemaError)"

definition parse_candle :: "json \<Rightarrow> candle result" where
  "parse_candle v = (case v of
       JObj row \<Rightarrow>
         (case jget row ''end_period_ts'' of
            JInt ts \<Rightarrow>
              if ts \<le> 0 then Inl SchemaError
              else
                rbind (parse_fixed_point (if jget row ''volume_fp'' \<noteq> JNull then jget row ''volume_fp'' else jget row ''volume'')) (\<lambda>vol.
                rbind (candle_px (jget row ''yes_bid'')) (\<lambda>bid.
                rbind (candle_px (jget row ''yes_ask'')) (\<lambda>ask.
                rbind (candle_px (jget row ''price'')) (\<lambda>trade.
                Inr \<lparr>end_ts = ts, yes_bid_close = bid, yes_ask_close = ask, trade_close = trade,
                     candle_volume = map_option fst vol\<rparr>))))
          | _ \<Rightarrow> Inl SchemaError)
     | _ \<Rightarrow> Inl SchemaError)"

definition parse_candlesticks :: "jobj \<Rightarrow> candle list result" where
  "parse_candlesticks payload =
     (case jget payload ''candlesticks'' of
        JList rows \<Rightarrow>
          if MAX_CANDLES < int (length rows) then Inl SchemaError
          else
            rbind (traverse parse_candle rows) (\<lambda>found.
            let found = sort_key end_ts found in
            if distinct (map end_ts found) then Inr found else Inl SchemaError)
      | _ \<Rightarrow> Inl SchemaError)"

definition get_market_candlesticks ::
  "environment \<Rightarrow> string \<Rightarrow> string \<Rightarrow> int \<Rightarrow> int \<Rightarrow> int \<Rightarrow> bool \<Rightarrow> client \<Rightarrow> candle list result \<times> client" where
  "get_market_candlesticks env series_ticker ticker from_ts to_ts period_interval historical c =
     (if period_interval \<notin> set ALLOWED_PERIODS then (Inl SchemaError, c)
      else if to_ts \<le> from_ts then (Inl SchemaError, c)
      else if MAX_CANDLES \<le> (to_ts - from_ts) div (period_interval * 60) then (Inl SchemaError, c)
      else
        let path = (if historical then ''/historical/markets/'' @ ticker @ ''/candlesticks''
                    else ''/series/'' @ series_ticker @ ''/markets/'' @ ticker @ ''/candlesticks'')
        in (case client_get env path [(''start_ts'', JInt from_ts), (''end_ts'', JInt to_ts),
                   (''period_interval'', JInt period_interval)] c of (payload, c) \<Rightarrow>
            (rbind payload parse_candlesticks, c)))"

section \<open>The label of a close\<close>

datatype close_quality = TRUE_CLOSE | EARLIER_QUOTE_PROXY | MISSING

fun quality_value :: "close_quality \<Rightarrow> string" where
  "quality_value TRUE_CLOSE = ''TRUE_CLOSE''"
| "quality_value EARLIER_QUOTE_PROXY = ''EARLIER_QUOTE_PROXY''"
| "quality_value MISSING = ''MISSING''"

record resolved_close =
  rc_quality :: close_quality
  rc_cutoff_ts :: "int option"
  rc_period_minutes :: "int option"
  rc_source_endpoint :: "string option"
  rc_as_of_ts :: "int option"
  rc_yes_bid :: "decimal option"
  rc_yes_ask :: "decimal option"
  rc_last_trade :: "decimal option"
  rc_minutes_before_cutoff :: "int option"
  rc_flags :: "string list"
  rc_reason :: "string option"
  rc_cutoff_source :: "string option"

definition yes_mid :: "resolved_close \<Rightarrow> decimal option" where
  "yes_mid rc = (case (rc_yes_bid rc, rc_yes_ask rc) of
       (Some bid, Some ask) \<Rightarrow> Some (ddiv (dadd bid ask) 2) | _ \<Rightarrow> None)"

definition to_close_body :: "resolved_close \<Rightarrow> jobj" where
  "to_close_body rc =
     (if rc_quality rc = MISSING
      then [(''quality'', JStr (quality_value MISSING)),
            (''reason'', JStr (if text_or_empty (rc_reason rc) = [] then ''UNSPECIFIED'' else text_or_empty (rc_reason rc)))]
      else
        let num = (\<lambda>d. case d of None \<Rightarrow> JNull | Some x \<Rightarrow> json_float x);
            whole = (\<lambda>n. case n of None \<Rightarrow> JNull | Some i \<Rightarrow> JInt i);
            str = (\<lambda>t. case t of None \<Rightarrow> JNull | Some s \<Rightarrow> JStr s)
        in filter (\<lambda>(k, v). v \<noteq> JNull \<or> k = ''flags'')
             [(''quality'', JStr (quality_value (rc_quality rc))), (''yes_bid'', num (rc_yes_bid rc)),
              (''yes_ask'', num (rc_yes_ask rc)), (''yes_mid'', num (yes_mid rc)), (''last_trade'', num (rc_last_trade rc)),
              (''as_of_ts'', whole (rc_as_of_ts rc)), (''cutoff_ts'', whole (rc_cutoff_ts rc)),
              (''period_minutes'', whole (rc_period_minutes rc)),
              (''minutes_before_cutoff'', whole (rc_minutes_before_cutoff rc)),
              (''source_endpoint'', str (rc_source_endpoint rc)), (''flags'', JList (map JStr (rc_flags rc))),
              (''cutoff_source'', str (rc_cutoff_source rc))])"

definition missing_close :: "string \<Rightarrow> int option \<Rightarrow> resolved_close" where
  "missing_close reason cutoff_ts =
     \<lparr>rc_quality = MISSING, rc_cutoff_ts = cutoff_ts, rc_period_minutes = None, rc_source_endpoint = None, rc_as_of_ts = None,
      rc_yes_bid = None, rc_yes_ask = None, rc_last_trade = None, rc_minutes_before_cutoff = None, rc_flags = [],
      rc_reason = Some reason, rc_cutoff_source = None\<rparr>"

definition usable_candle :: "int \<Rightarrow> candle \<Rightarrow> bool" where
  "usable_candle cutoff k \<longleftrightarrow> end_ts k \<le> cutoff
     \<and> (yes_bid_close k \<noteq> None \<and> yes_ask_close k \<noteq> None \<or> trade_close k \<noteq> None)"

definition resolve_close :: "candle list \<Rightarrow> int option \<Rightarrow> int \<Rightarrow> string \<Rightarrow> int \<Rightarrow> decimal \<Rightarrow> resolved_close" where
  "resolve_close candles cutoff_ts period_minutes source_endpoint max_gap_seconds max_spread =
     (case cutoff_ts of
        None \<Rightarrow> missing_close ''NO_CUTOFF_SUPPLIED'' None
      | Some cutoff \<Rightarrow>
          if period_minutes \<notin> set ALLOWED_PERIODS then missing_close ''UNSUPPORTED_PERIOD'' cutoff_ts
          else if filter (usable_candle cutoff) candles = [] then missing_close ''NO_CANDLE_AT_OR_BEFORE_CUTOFF'' cutoff_ts
          else
            let latest = last (filter (usable_candle cutoff) candles); bid = yes_bid_close latest; ask = yes_ask_close latest in
            if (case (bid, ask) of (Some b, Some a) \<Rightarrow> a < b | _ \<Rightarrow> False) then missing_close ''CROSSED_QUOTE'' cutoff_ts
            else
              let flags = (if (case (bid, ask) of (Some b, Some a) \<Rightarrow> max_spread < dsub a b | _ \<Rightarrow> False)
                           then [''WIDE_SPREAD''] else [])
                        @ (if candle_volume latest = Some 0 then [''NO_VOLUME_IN_CANDLE''] else []);
                  gap = cutoff - end_ts latest;
                  near = (gap \<le> max_gap_seconds \<and> period_minutes \<le> TRUE_CLOSE_MAX_PERIOD_MINUTES);
                  flags = flags @ (if near then []
                           else if TRUE_CLOSE_MAX_PERIOD_MINUTES < period_minutes then [''PERIOD_TOO_LONG_FOR_CLOSE'']
                           else [''TOO_EARLY_FOR_CLOSE''])
              in
              \<lparr>rc_quality = (if near then TRUE_CLOSE else EARLIER_QUOTE_PROXY), rc_cutoff_ts = cutoff_ts,
               rc_period_minutes = Some period_minutes, rc_source_endpoint = Some source_endpoint,
               rc_as_of_ts = Some (end_ts latest), rc_yes_bid = bid, rc_yes_ask = ask, rc_last_trade = trade_close latest,
               rc_minutes_before_cutoff = Some (gap div 60), rc_flags = flags, rc_reason = None, rc_cutoff_source = None\<rparr>)"

definition endpoint_name :: "bool \<Rightarrow> string" where
  "endpoint_name historical = (if historical then ''historical_candlesticks'' else ''series_market_candlesticks'')"

section \<open>Looking for the close of a market\<close>

record close_search =
  fs_series_ticker :: string
  fs_ticker :: string
  fs_cutoff_source :: "string option"
  fs_max_gap_seconds :: int
  fs_max_spread :: decimal

definition better_proxy :: "resolved_close \<Rightarrow> resolved_close option \<Rightarrow> bool" where
  "better_proxy got best \<longleftrightarrow> rc_quality got = EARLIER_QUOTE_PROXY
     \<and> (case best of None \<Rightarrow> True
        | Some b \<Rightarrow> (case rc_as_of_ts b of None \<Rightarrow> 0 | Some t \<Rightarrow> t) < the (rc_as_of_ts got))"

text \<open>The loops over the tiers and, inside, the routes, as one list of reads: each with its period, its span and
  whether it is historical. \<open>Inl\<close> is the early return, \<open>Inr\<close> the best proxy at the end; a route that
  answered with candles skips the rest of its tier.\<close>

fun search_reads ::
  "environment \<Rightarrow> close_search \<Rightarrow> int \<Rightarrow> (int \<times> int \<times> bool) list \<Rightarrow> int option \<Rightarrow> resolved_close option \<Rightarrow> client
    \<Rightarrow> (resolved_close + resolved_close option) result \<times> client" where
  "search_reads env q cutoff [] answered best c = (Inr (Inr best), c)"
| "search_reads env q cutoff ((period, width, historical) # reads) answered best c =
     (if answered = Some period then search_reads env q cutoff reads answered best c
      else case get_market_candlesticks env (fs_series_ticker q) (fs_ticker q) (cutoff - width) cutoff period historical c of
          (Inl e, c) \<Rightarrow> (Inl e, c)
        | (Inr candles, c) \<Rightarrow>
            let got = (resolve_close candles (Some cutoff) period (endpoint_name historical) (fs_max_gap_seconds q)
                         (fs_max_spread q))\<lparr>rc_cutoff_source := fs_cutoff_source q\<rparr>
            in
            if rc_quality got = TRUE_CLOSE then (Inr (Inl got), c)
            else search_reads env q cutoff reads (if candles \<noteq> [] then Some period else answered)
                   (if better_proxy got best then Some got else best) c)"

definition close_reads :: "int \<Rightarrow> int \<Rightarrow> bool \<Rightarrow> (int \<times> int \<times> bool) list" where
  "close_reads lookback_minutes wide_lookback_hours allow_historical =
     concat (map (\<lambda>(period, width). map (\<lambda>historical. (period, width, historical)) (if allow_historical then [False, True] else [False]))
       [(1, lookback_minutes * 60), (60, wide_lookback_hours * 3600)])"

definition fetch_and_resolve ::
  "environment \<Rightarrow> close_search \<Rightarrow> int option \<Rightarrow> int \<Rightarrow> int \<Rightarrow> bool \<Rightarrow> client \<Rightarrow> resolved_close result \<times> client" where
  "fetch_and_resolve env q cutoff_ts lookback_minutes wide_lookback_hours allow_historical c =
     (case cutoff_ts of
        None \<Rightarrow> (Inr (missing_close ''NO_CUTOFF_SUPPLIED'' None), c)
      | Some cutoff \<Rightarrow>
          (case search_reads env q cutoff (close_reads lookback_minutes wide_lookback_hours allow_historical) None None c of
             (Inl e, c) \<Rightarrow> (Inl e, c)
           | (Inr (Inl got), c) \<Rightarrow> (Inr got, c)
           | (Inr (Inr (Some best)), c) \<Rightarrow> (Inr best, c)
           | (Inr (Inr None), c) \<Rightarrow>
               (Inr ((missing_close ''NO_CANDLE_AT_OR_BEFORE_CUTOFF'' cutoff_ts)\<lparr>rc_cutoff_source := fs_cutoff_source q\<rparr>), c)))"

section \<open>Coverage of the account's markets\<close>

definition EXCHANGE_STRIKE_DATE :: string where "EXCHANGE_STRIKE_DATE = ''EXCHANGE_STRIKE_DATE''"
definition EXCHANGE_MILESTONE_START :: string where "EXCHANGE_MILESTONE_START = ''EXCHANGE_MILESTONE_START''"

record close_coverage =
  markets_seen :: nat
  markets_considered :: nat
  true_close :: nat
  earlier_quote_proxy :: nat
  cc_missing :: nat
  no_cutoff :: nat
  cc_errors :: nat
  true_close_wide_spread :: nat
  cc_truncated :: nat
  cutoff_from_strike_date :: nat
  cutoff_from_milestone_start :: nat
  cutoff_conflict :: nat
  milestone_sweep_requests :: nat
  milestone_sweep_budget_exhausted :: nat
  milestone_sweep_failed :: nat

definition empty_coverage :: close_coverage where
  "empty_coverage = \<lparr>markets_seen = 0, markets_considered = 0, true_close = 0, earlier_quote_proxy = 0, cc_missing = 0,
     no_cutoff = 0, cc_errors = 0, true_close_wide_spread = 0, cc_truncated = 0, cutoff_from_strike_date = 0,
     cutoff_from_milestone_start = 0, cutoff_conflict = 0, milestone_sweep_requests = 0,
     milestone_sweep_budget_exhausted = 0, milestone_sweep_failed = 0\<rparr>"

definition coverage_as_dict :: "close_coverage \<Rightarrow> (string, nat) dict" where
  "coverage_as_dict cc =
     [(''markets_seen'', markets_seen cc), (''markets_considered'', markets_considered cc), (''true_close'', true_close cc),
      (''earlier_quote_proxy'', earlier_quote_proxy cc), (''missing'', cc_missing cc), (''no_cutoff'', no_cutoff cc),
      (''errors'', cc_errors cc), (''true_close_wide_spread'', true_close_wide_spread cc), (''truncated'', cc_truncated cc),
      (''cutoff_from_strike_date'', cutoff_from_strike_date cc),
      (''cutoff_from_milestone_start'', cutoff_from_milestone_start cc), (''cutoff_conflict'', cutoff_conflict cc),
      (''milestone_sweep_requests'', milestone_sweep_requests cc),
      (''milestone_sweep_budget_exhausted'', milestone_sweep_budget_exhausted cc),
      (''milestone_sweep_failed'', milestone_sweep_failed cc)]"

definition strike_epoch :: "json \<Rightarrow> int option" where
  "strike_epoch v = (case v of
       JStr s \<Rightarrow>
         if CHR ''T'' \<notin> set s then None
         else
           let s = concat (map (\<lambda>ch. if ch = CHR ''Z'' then ''+00:00'' else [ch]) s) in
           (case iso_micros s of
              None \<Rightarrow> None
            | Some us \<Rightarrow> if has_zone s then Some (dtrunc (total_seconds us)) else None)
     | _ \<Rightarrow> None)"

text \<open>What the loop over the markets carries: the counts and, once it has been swept, the milestone index.\<close>

type_synonym cover_state = "close_coverage \<times> milestone_start_index option"

definition sweep_starts :: "environment \<Rightarrow> cover_state \<Rightarrow> client \<Rightarrow> milestone_start_index result \<times> cover_state \<times> client" where
  "sweep_starts env s c =
     (case s of
        (out, Some ix) \<Rightarrow> (Inr ix, (out, Some ix), c)
      | (out, None) \<Rightarrow>
          (case build_milestone_start_index env START_INDEX_REQUEST_BUDGET DEFAULT_PAGE_LIMIT c of
             (Inl e, c) \<Rightarrow> (Inl e, (out, None), c)
           | (Inr ix, c) \<Rightarrow>
               (Inr ix, (out\<lparr>milestone_sweep_requests := sw_requests ix,
                   milestone_sweep_budget_exhausted := (if sw_budget_exhausted ix then 1 else 0),
                   milestone_sweep_failed := (if sw_fetch_failed ix then 1 else 0)\<rparr>, Some ix), c)))"

text \<open>The cutoff an event states and where it is from; \<open>Inr None\<close> when two sources disagree.\<close>

definition event_cutoff ::
  "environment \<Rightarrow> bool \<Rightarrow> string \<Rightarrow> cover_state \<Rightarrow> client \<Rightarrow> (int \<times> string) option option result \<times> cover_state \<times> client" where
  "event_cutoff env use_milestone_start event_ticker s c =
     (case get_event env event_ticker c of
        (Inl e, c) \<Rightarrow> (Inl e, s, c)
      | (Inr event, c) \<Rightarrow>
          let cutoff = strike_epoch (jget event ''strike_date''); from_event = map_option (\<lambda>t. (t, EXCHANGE_STRIKE_DATE)) cutoff in
          if \<not> use_milestone_start then (Inr (Some from_event), s, c)
          else (case sweep_starts env s c of
              (Inl e, s, c) \<Rightarrow> (Inl e, s, c)
            | (Inr ix, s, c) \<Rightarrow>
                (case (cutoff, start_for_event ix (Some event_ticker)) of
                   (None, Some stated) \<Rightarrow> (Inr (Some (Some (stated, EXCHANGE_MILESTONE_START))), s, c)
                 | (Some t, Some stated) \<Rightarrow> (if stated \<noteq> t then (Inr None, s, c) else (Inr (Some from_event), s, c))
                 | _ \<Rightarrow> (Inr (Some from_event), s, c))))"

text \<open>The \<open>try\<close> block: what it raises, or \<open>Inr None\<close> for a market it has counted, or the close it found.\<close>

definition cover_try ::
  "environment \<Rightarrow> bool \<Rightarrow> string \<Rightarrow> cover_state \<Rightarrow> client \<Rightarrow> resolved_close option result \<times> cover_state \<times> client" where
  "cover_try env use_milestone_start ticker s c =
     (case get_market env ticker c of
        (Inl e, c) \<Rightarrow> (Inl e, s, c)
      | (Inr market, c) \<Rightarrow>
          let series = (if truthy (jget market ''series_ticker'') then jget market ''series_ticker''
                        else JStr (takeWhile (\<lambda>ch. ch \<noteq> CHR ''-'') ticker)) in
          (case (case jget market ''event_ticker'' of
                   JStr event_ticker \<Rightarrow> event_cutoff env use_milestone_start event_ticker s c
                 | _ \<Rightarrow> (Inr (Some None), s, c)) of
             (Inl e, s, c) \<Rightarrow> (Inl e, s, c)
           | (Inr None, (out, ix), c) \<Rightarrow>
               (Inr None, (out\<lparr>cutoff_conflict := cutoff_conflict out + 1, no_cutoff := no_cutoff out + 1\<rparr>, ix), c)
           | (Inr (Some None), (out, ix), c) \<Rightarrow> (Inr None, (out\<lparr>no_cutoff := no_cutoff out + 1\<rparr>, ix), c)
           | (Inr (Some (Some (cutoff, src))), (out, ix), c) \<Rightarrow>
               let out = (if src = EXCHANGE_STRIKE_DATE then out\<lparr>cutoff_from_strike_date := cutoff_from_strike_date out + 1\<rparr>
                          else out\<lparr>cutoff_from_milestone_start := cutoff_from_milestone_start out + 1\<rparr>);
                   q = \<lparr>fs_series_ticker = py_str series, fs_ticker = ticker, fs_cutoff_source = Some src,
                        fs_max_gap_seconds = DEFAULT_MAX_GAP_SECONDS, fs_max_spread = DEFAULT_MAX_SPREAD\<rparr>
               in (case fetch_and_resolve env q (Some cutoff) 120 48 True c of (res, c) \<Rightarrow>
                   (map_sum id Some res, (out, ix), c))))"

definition count_close :: "resolved_close \<Rightarrow> close_coverage \<Rightarrow> close_coverage" where
  "count_close res out = (case rc_quality res of
       TRUE_CLOSE \<Rightarrow> out\<lparr>true_close := true_close out + 1,
           true_close_wide_spread := true_close_wide_spread out + (if ''WIDE_SPREAD'' \<in> set (rc_flags res) then 1 else 0)\<rparr>
     | EARLIER_QUOTE_PROXY \<Rightarrow> out\<lparr>earlier_quote_proxy := earlier_quote_proxy out + 1\<rparr>
     | MISSING \<Rightarrow> out\<lparr>cc_missing := cc_missing out + 1\<rparr>)"

fun cover_markets ::
  "environment \<Rightarrow> bool \<Rightarrow> string list \<Rightarrow> cover_state \<Rightarrow> client \<Rightarrow> close_coverage result \<times> client" where
  "cover_markets env use_milestone_start [] (out, ix) c = (Inr out, c)"
| "cover_markets env use_milestone_start (ticker # tickers) (out, ix) c =
     (case cover_try env use_milestone_start ticker (out\<lparr>markets_considered := markets_considered out + 1\<rparr>, ix) c of
        (Inl e, (out, ix), c) \<Rightarrow>
          if router_error e
          then cover_markets env use_milestone_start tickers (out\<lparr>cc_errors := cc_errors out + 1\<rparr>, ix) c
          else (Inl e, c)
      | (Inr None, s, c) \<Rightarrow> cover_markets env use_milestone_start tickers s c
      | (Inr (Some res), (out, ix), c) \<Rightarrow> cover_markets env use_milestone_start tickers (count_close res out, ix) c)"

definition fill_ticker :: "jobj \<Rightarrow> json" where
  "fill_ticker fill = (if truthy (jget fill ''ticker'') then jget fill ''ticker'' else jget fill ''market_ticker'')"

definition tickers_seen :: "jobj list \<Rightarrow> string list" where
  "tickers_seen fills = fold (\<lambda>fill tickers. case fill_ticker fill of
       JStr t \<Rightarrow> if t \<in> set tickers then tickers else tickers @ [t] | _ \<Rightarrow> tickers) fills []"

definition considered_markets :: "string list \<Rightarrow> string list \<Rightarrow> string list" where
  "considered_markets prefixes tickers =
     filter (\<lambda>t. prefixes = [] \<or> (\<exists>p \<in> set prefixes. starts_with t p)) tickers"

definition run_close_coverage ::
  "environment \<Rightarrow> int \<Rightarrow> string list \<Rightarrow> nat \<Rightarrow> bool \<Rightarrow> client \<Rightarrow> (close_coverage result \<times> client) option" where
  "run_close_coverage env max_fills prefixes max_markets use_milestone_start c =
     (case iter_fills env (Some max_fills) None new_stats False c of
        None \<Rightarrow> None
      | Some (fills, _, Some e, c) \<Rightarrow> Some (Inl e, c)
      | Some (fills, _, None, c) \<Rightarrow>
          let tickers = tickers_seen fills; considered = considered_markets prefixes tickers;
              out = empty_coverage\<lparr>markets_seen := length tickers,
                      cc_truncated := (if max_markets < length considered then 1 else 0)\<rparr>
          in Some (cover_markets env use_milestone_start (take max_markets considered) (out, None) c))"

section \<open>What a close rests on\<close>

text \<open>The candle a close may be read from: the last of a served payload that is at or before the cutoff and has a
  quote or a trade, with its quote uncrossed.\<close>

definition closing_candle :: "int \<Rightarrow> candle list \<Rightarrow> candle \<Rightarrow> bool" where
  "closing_candle cutoff candles k \<longleftrightarrow> k \<in> set candles \<and> usable_candle cutoff k
     \<and> (\<forall>k' \<in> set candles. usable_candle cutoff k' \<longrightarrow> end_ts k' \<le> end_ts k)
     \<and> (\<forall>bid ask. yes_bid_close k = Some bid \<longrightarrow> yes_ask_close k = Some ask \<longrightarrow> bid \<le> ask)"

definition read_off :: "close_search \<Rightarrow> int \<Rightarrow> resolved_close \<Rightarrow> candle \<Rightarrow> bool" where
  "read_off q cutoff rc k \<longleftrightarrow> rc_as_of_ts rc = Some (end_ts k) \<and> rc_yes_bid rc = yes_bid_close k
     \<and> rc_yes_ask rc = yes_ask_close k \<and> rc_last_trade rc = trade_close k \<and> rc_cutoff_ts rc = Some cutoff
     \<and> rc_cutoff_source rc = fs_cutoff_source q
     \<and> (rc_quality rc = TRUE_CLOSE \<longleftrightarrow> cutoff - end_ts k \<le> fs_max_gap_seconds q)"

definition served_close :: "close_search \<Rightarrow> int \<Rightarrow> jobj list \<Rightarrow> resolved_close \<Rightarrow> bool" where
  "served_close q cutoff pages rc \<longleftrightarrow> (\<exists>payload \<in> set pages. \<exists>candles k.
     parse_candlesticks payload = Inr candles \<and> closing_candle cutoff candles k \<and> read_off q cutoff rc k)"

lemma served_close_more: "served_close q cutoff pages rc \<Longrightarrow> set pages \<subseteq> set pages' \<Longrightarrow> served_close q cutoff pages' rc"
  by (auto simp: served_close_def)

lemma last_is_latest:
  assumes "sorted (map f xs)" and "x \<in> set xs"
  shows "f x \<le> f (last xs)"
  using assms by (induction xs) (auto simp: last_in_set)

lemma parsed_candles_sorted: "parse_candlesticks payload = Inr candles \<Longrightarrow> sorted (map end_ts candles)"
  unfolding parse_candlesticks_def
  by (auto simp: Let_def rbind_def split: json.splits if_splits sum.splits)

lemma resolve_close_reads:
  assumes parsed: "parse_candlesticks payload = Inr candles" and period: "period \<in> {1, 60}"
    and got: "rc = (resolve_close candles (Some cutoff) period src (fs_max_gap_seconds q) (fs_max_spread q))
                 \<lparr>rc_cutoff_source := fs_cutoff_source q\<rparr>"
    and found: "rc_quality rc \<noteq> MISSING" and page: "payload \<in> set pages"
  shows "served_close q cutoff pages rc"
proof -
  let ?us = "filter (usable_candle cutoff) candles"
  let ?k = "last ?us"
  have allowed: "period \<in> set ALLOWED_PERIODS" "period \<le> TRUE_CLOSE_MAX_PERIOD_MINUTES"
    using period by (auto simp: ALLOWED_PERIODS_def TRUE_CLOSE_MAX_PERIOD_MINUTES_def)
  have ne: "?us \<noteq> []" and straight: "\<not> (case (yes_bid_close ?k, yes_ask_close ?k) of (Some b, Some a) \<Rightarrow> a < b | _ \<Rightarrow> False)"
    using found allowed unfolding got resolve_close_def by (auto simp: missing_close_def Let_def split: if_splits)
  then have k: "?k \<in> set ?us" by (metis last_in_set)
  have "sorted (map end_ts ?us)" using parsed_candles_sorted [OF parsed] by (rule sorted_filter)
  then have "closing_candle cutoff candles ?k"
    using k straight last_is_latest [of end_ts ?us] by (auto simp: closing_candle_def not_less)
  moreover have "read_off q cutoff rc ?k"
    using ne straight allowed unfolding got resolve_close_def by (simp add: read_off_def Let_def)
  ultimately show ?thesis unfolding served_close_def using parsed page by blast
qed

text \<open>One read of the candles adds the payload it parsed to the pages of the log.\<close>

lemma candlesticks_page:
  assumes get: "get_market_candlesticks env series ticker a b period historical c = (answer, c')"
    and nonneg: "0 \<le> cfg_max_retries (env_config env)"
  shows "\<exists>xs. c_log c' = c_log c @ xs \<and> length xs \<le> nat (cfg_max_retries (env_config env)) + 1
    \<and> (\<forall>candles. answer = Inr candles \<longrightarrow> (\<exists>payload \<in> set (pages_of env xs). parse_candlesticks payload = Inr candles))"
proof (cases "period \<notin> set ALLOWED_PERIODS \<or> b \<le> a \<or> MAX_CANDLES \<le> (b - a) div (period * 60)")
  case True
  then have "answer = Inl SchemaError" "c' = c" using get by (auto simp: get_market_candlesticks_def split: if_splits)
  then show ?thesis by (intro exI [where x = "[]"]) simp
next
  case False
  then obtain path params payload where got: "client_get env path params c = (payload, c')"
    and answer: "answer = rbind payload parse_candlesticks"
    using get by (auto simp: get_market_candlesticks_def Let_def split: prod.splits)
  obtain xs where "c_log c' = c_log c @ xs" "length xs \<le> nat (cfg_max_retries (env_config env)) + 1"
    "pages_of env xs = (case payload of Inr payload \<Rightarrow> [payload] | Inl _ \<Rightarrow> [])"
    using got nonneg by (rule client_get_page)
  then show ?thesis using answer by (intro exI [where x = xs]) (auto simp: rbind_def split: sum.splits)
qed

text \<open>Whatever the search holds or answers was read off a payload it was served.\<close>

definition search_kept :: "close_search \<Rightarrow> int \<Rightarrow> jobj list \<Rightarrow> resolved_close option \<Rightarrow> bool" where
  "search_kept q cutoff pages best \<longleftrightarrow>
     (\<forall>rc. best = Some rc \<longrightarrow> rc_quality rc \<noteq> MISSING \<and> served_close q cutoff pages rc)"

definition search_result :: "close_search \<Rightarrow> int \<Rightarrow> jobj list \<Rightarrow> resolved_close + resolved_close option \<Rightarrow> bool" where
  "search_result q cutoff pages got = (case got of
       Inl rc \<Rightarrow> rc_quality rc \<noteq> MISSING \<and> served_close q cutoff pages rc
     | Inr best \<Rightarrow> search_kept q cutoff pages best)"

lemma search_reads_served:
  assumes "search_reads env q cutoff reads answered best c = (answer, c')"
    and nonneg: "0 \<le> cfg_max_retries (env_config env)" and "fst ` set reads \<subseteq> {1, 60}"
    and "search_kept q cutoff pages best"
  shows "\<exists>xs. c_log c' = c_log c @ xs \<and> length xs \<le> length reads * (nat (cfg_max_retries (env_config env)) + 1)
    \<and> (\<forall>got. answer = Inr got \<longrightarrow> search_result q cutoff (pages @ pages_of env xs) got)"
  using assms(1,3,4)
proof (induction reads arbitrary: answered best c pages)
  case Nil
  then show ?case by (intro exI [where x = "[]"]) (auto simp: search_result_def search_kept_def pages_of_def)
next
  case (Cons read reads)
  let ?R = "nat (cfg_max_retries (env_config env)) + 1"
  obtain period width historical where read: "read = (period, width, historical)" by (cases read)
  show ?case
  proof (cases "answered = Some period")
    case True
    then obtain xs where "c_log c' = c_log c @ xs" "length xs \<le> length reads * ?R"
      "\<forall>got. answer = Inr got \<longrightarrow> search_result q cutoff (pages @ pages_of env xs) got"
      using Cons.IH [of answered best c pages] Cons.prems read by auto
    then show ?thesis by (intro exI [where x = xs]) simp
  next
    case False
    obtain r c1 where get: "get_market_candlesticks env (fs_series_ticker q) (fs_ticker q) (cutoff - width) cutoff period historical c
        = (r, c1)" by fastforce
    obtain xs where xs: "c_log c1 = c_log c @ xs" "length xs \<le> ?R"
      "\<forall>candles. r = Inr candles \<longrightarrow> (\<exists>payload \<in> set (pages_of env xs). parse_candlesticks payload = Inr candles)"
      using candlesticks_page [OF get nonneg] by blast
    show ?thesis
    proof (cases r)
      case (Inl e)
      then have "answer = Inl e" "c' = c1" using Cons.prems(1) False get read by simp_all
      then show ?thesis using xs by (intro exI [where x = xs]) simp
    next
      case (Inr candles)
      let ?got = "(resolve_close candles (Some cutoff) period (endpoint_name historical) (fs_max_gap_seconds q)
            (fs_max_spread q))\<lparr>rc_cutoff_source := fs_cutoff_source q\<rparr>"
      let ?best = "if better_proxy ?got best then Some ?got else best"
      obtain payload where payload: "payload \<in> set (pages_of env xs)" "parse_candlesticks payload = Inr candles"
        using xs(3) Inr by blast
      have period: "period \<in> {1, 60}" using Cons.prems(2) read by auto
      have got: "served_close q cutoff (pages @ pages_of env xs) ?got" if "rc_quality ?got \<noteq> MISSING"
        using payload by (intro resolve_close_reads [OF payload(2) period refl that]) simp
      have kept: "search_kept q cutoff (pages @ pages_of env xs) ?best"
        using got Cons.prems(3) served_close_more [of q cutoff pages _ "pages @ pages_of env xs"]
        by (auto simp: search_kept_def better_proxy_def)
      show ?thesis
      proof (cases "rc_quality ?got = TRUE_CLOSE")
        case True
        then have "answer = Inr (Inl ?got)" "c' = c1" using Cons.prems(1) False get Inr read by (simp_all add: Let_def)
        then show ?thesis using xs got True by (intro exI [where x = xs]) (simp add: search_result_def)
      next
        case no: False
        then have "search_reads env q cutoff reads (if candles \<noteq> [] then Some period else answered) ?best c1 = (answer, c')"
          using Cons.prems(1) False get Inr read by (simp add: Let_def)
        with Cons.IH [of _ ?best c1 "pages @ pages_of env xs"] kept Cons.prems(2)
        obtain ys where ys: "c_log c' = c_log c1 @ ys" "length ys \<le> length reads * ?R"
          "\<forall>got. answer = Inr got \<longrightarrow> search_result q cutoff ((pages @ pages_of env xs) @ pages_of env ys) got" by force
        have "pages_of env (xs @ ys) = pages_of env xs @ pages_of env ys" by (simp add: pages_of_def)
        then show ?thesis using xs ys by (intro exI [where x = "xs @ ys"]) simp
      qed
    qed
  qed
qed

text \<open>C28: a close is read off the exchange, at most four reads per market. Whatever the bounded fetch answers other
  than \<open>MISSING\<close> shows, field for field, the last usable candle at or before the cutoff of a payload the exchange
  served during the fetch, a candle whose quote is not crossed, and it is called a \<open>TRUE_CLOSE\<close> exactly when that candle
  ended within the permitted gap of the cutoff: an earlier quote is never called a close. Without a cutoff nothing is
  read and nothing but \<open>MISSING\<close> is answered.\<close>

theorem close_is_served_and_near:
  assumes run: "fetch_and_resolve env q cutoff_ts lookback_minutes wide_lookback_hours allow_historical c = (Inr rc, c')"
    and nonneg: "0 \<le> cfg_max_retries (env_config env)"
  shows "(rc_quality rc \<noteq> MISSING \<longrightarrow> (\<exists>cutoff. cutoff_ts = Some cutoff
        \<and> served_close q cutoff (pages_of env (logged_since c c')) rc))
    \<and> length (logged_since c c') \<le> 4 * (nat (cfg_max_retries (env_config env)) + 1)
    \<and> (cutoff_ts = None \<longrightarrow> rc_quality rc = MISSING \<and> c' = c)"
proof (cases cutoff_ts)
  case None
  then have "rc_quality rc = MISSING" "c' = c" using run by (auto simp: fetch_and_resolve_def missing_close_def)
  then show ?thesis by (simp add: logged_since_def)
next
  case (Some cutoff)
  let ?reads = "close_reads lookback_minutes wide_lookback_hours allow_historical"
  obtain answer c1 where found: "search_reads env q cutoff ?reads None None c = (answer, c1)" by fastforce
  have reads: "fst ` set ?reads \<subseteq> {1, 60}" "length ?reads \<le> 4" by (auto simp: close_reads_def)
  have "search_kept q cutoff [] None" by (simp add: search_kept_def)
  from search_reads_served [OF found nonneg reads(1) this]
  obtain xs where xs: "c_log c1 = c_log c @ xs" "length xs \<le> length ?reads * (nat (cfg_max_retries (env_config env)) + 1)"
    "\<forall>got. answer = Inr got \<longrightarrow> search_result q cutoff (pages_of env xs) got" by auto
  have c1: "c' = c1" using run Some found by (auto simp: fetch_and_resolve_def split: sum.splits option.splits)
  have since: "logged_since c c' = xs" using xs(1) c1 by (simp add: logged_since_def)
  have "rc_quality rc = MISSING \<or> served_close q cutoff (pages_of env xs) rc"
    using run Some found xs(3)
    by (auto simp: fetch_and_resolve_def missing_close_def search_result_def search_kept_def split: sum.splits option.splits)
  moreover have "length xs \<le> 4 * (nat (cfg_max_retries (env_config env)) + 1)"
    using xs(2) mult_le_mono1 [OF reads(2)] by (rule order_trans)
  ultimately show ?thesis using Some since by auto
qed

definition quiet_market :: close_search where
  "quiet_market = \<lparr>fs_series_ticker = ''S'', fs_ticker = ''T'', fs_cutoff_source = None, fs_max_gap_seconds = DEFAULT_MAX_GAP_SECONDS,
     fs_max_spread = DEFAULT_MAX_SPREAD\<rparr>"

definition candle_payload :: jobj where
  "candle_payload = [(''candlesticks'', JList
     [JObj [(''end_period_ts'', JInt 1700000000), (''yes_bid'', JObj [(''close'', JInt 48)]), (''yes_ask'', JObj [(''close'', JInt 52)])],
      JObj [(''end_period_ts'', JInt 1700003600), (''yes_bid'', JObj [(''close'', JInt 95)]), (''yes_ask'', JObj [(''close'', JInt 97)])]])]"

definition candle_page :: environment where
  "candle_page = one_page\<lparr>env_decode := (\<lambda>body. if body = ''page'' then Some (JObj candle_payload) else None)\<rparr>"

definition quote_at :: "int \<Rightarrow> decimal \<Rightarrow> decimal \<Rightarrow> candle" where
  "quote_at ts bid ask = \<lparr>end_ts = ts, yes_bid_close = Some bid, yes_ask_close = Some ask, trade_close = None, candle_volume = None\<rparr>"

lemma candle_payload_parsed:
  "parse_candlesticks candle_payload = Inr [quote_at 1700000000 (48 / 100) (52 / 100), quote_at 1700003600 (95 / 100) (97 / 100)]"
  by code_simp

theorem close_is_served_and_near_witness:
  "\<exists>rc c'. fetch_and_resolve candle_page quiet_market (Some 1700000060) 120 48 True new_client = (Inr rc, c')
    \<and> rc_quality rc = TRUE_CLOSE \<and> rc_as_of_ts rc = Some 1700000000
    \<and> served_close quiet_market 1700000060 (pages_of candle_page (logged_since new_client c')) rc"
proof -
  have path: "read_only ''/series/S/markets/T/candlesticks''" by code_simp
  have "\<exists>c'. client_get candle_page ''/series/S/markets/T/candlesticks''
      [(''start_ts'', JInt 1699992860), (''end_ts'', JInt 1700000060), (''period_interval'', JInt 1)] new_client
      = (Inr candle_payload, c')"
    using path by (intro one_page_get) (simp_all add: candle_page_def)
  then obtain c' where get: "client_get candle_page ''/series/S/markets/T/candlesticks''
      [(''start_ts'', JInt 1699992860), (''end_ts'', JInt 1700000060), (''period_interval'', JInt 1)] new_client
      = (Inr candle_payload, c')" by blast
  have nonneg: "0 \<le> cfg_max_retries (env_config candle_page)" by (simp add: candle_page_def one_page_def)
  let ?ks = "[quote_at 1700000000 (48 / 100) (52 / 100), quote_at 1700003600 (95 / 100) (97 / 100)]"
  have got: "get_market_candlesticks candle_page ''S'' ''T'' 1699992860 1700000060 1 False new_client = (Inr ?ks, c')"
    using get candle_payload_parsed by (simp add: get_market_candlesticks_def ALLOWED_PERIODS_def MAX_CANDLES_def)
  have close: "rc_quality (resolve_close ?ks (Some 1700000060) 1 src DEFAULT_MAX_GAP_SECONDS DEFAULT_MAX_SPREAD) = TRUE_CLOSE"
    "rc_as_of_ts (resolve_close ?ks (Some 1700000060) 1 src DEFAULT_MAX_GAP_SECONDS DEFAULT_MAX_SPREAD) = Some 1700000000" for src
    by (simp_all add: resolve_close_def quote_at_def usable_candle_def Let_def ALLOWED_PERIODS_def DEFAULT_MAX_GAP_SECONDS_def
        TRUE_CLOSE_MAX_PERIOD_MINUTES_def)
  have "\<exists>rc. fetch_and_resolve candle_page quiet_market (Some 1700000060) 120 48 True new_client = (Inr rc, c')
    \<and> rc_quality rc = TRUE_CLOSE \<and> rc_as_of_ts rc = Some 1700000000"
    using got close by (simp add: fetch_and_resolve_def close_reads_def quiet_market_def Let_def)
  then show ?thesis using close_is_served_and_near [OF _ nonneg] by fastforce
qed

section \<open>The coverage counts add up\<close>

text \<open>The books of the counts while a market is open (\<open>pending\<close>) and, after its cutoff is counted, before its close is
  (\<open>dated\<close>).\<close>

definition coverage_books :: "close_coverage \<Rightarrow> nat \<Rightarrow> nat \<Rightarrow> bool" where
  "coverage_books out pending dated \<longleftrightarrow>
     markets_considered out = true_close out + earlier_quote_proxy out + cc_missing out + no_cutoff out + cc_errors out + pending
     \<and> true_close_wide_spread out \<le> true_close out \<and> cutoff_conflict out \<le> no_cutoff out
     \<and> true_close out + earlier_quote_proxy out + cc_missing out + dated \<le> cutoff_from_strike_date out + cutoff_from_milestone_start out
     \<and> cutoff_from_strike_date out + cutoff_from_milestone_start out
         \<le> true_close out + earlier_quote_proxy out + cc_missing out + cc_errors out + dated"

definition same_books :: "close_coverage \<Rightarrow> close_coverage \<Rightarrow> bool" where
  "same_books out out' \<longleftrightarrow> (\<forall>pending dated. coverage_books out' pending dated = coverage_books out pending dated)
     \<and> markets_considered out' = markets_considered out \<and> markets_seen out' = markets_seen out"

lemma same_books_refl [simp]: "same_books out out"
  by (simp add: same_books_def)

lemma sweep_starts_books: "sweep_starts env (out, ix) c = (r, (out', ix'), c') \<Longrightarrow> same_books out out'"
  by (auto simp: sweep_starts_def same_books_def coverage_books_def split: option.splits prod.splits sum.splits)

lemma event_cutoff_books: "event_cutoff env use t (out, ix) c = (r, (out', ix'), c') \<Longrightarrow> same_books out out'"
  unfolding event_cutoff_def Let_def
  by (auto split: option.splits prod.splits sum.splits if_splits dest!: sweep_starts_books)

lemma found_close_is_some [simp]: "map_sum id Some r \<noteq> Inr None"
  by (cases r) simp_all

lemma cover_try_books:
  assumes "cover_try env use ticker (out, ix) c = (r, (out', ix'), c')" and books: "coverage_books out 1 0"
  shows "(case r of Inl e \<Rightarrow> coverage_books out' 1 0 \<or> coverage_books out' 1 1 | Inr None \<Rightarrow> coverage_books out' 0 0
      | Inr (Some res) \<Rightarrow> coverage_books out' 1 1)
    \<and> markets_considered out' = markets_considered out \<and> markets_seen out' = markets_seen out"
proof (cases "get_market env ticker c")
  case (Pair answer c1)
  show ?thesis
  proof (cases answer)
    case (Inl e)
    then show ?thesis using assms Pair by (auto simp: cover_try_def)
  next
    case (Inr market)
    obtain r2 out2 ix2 c2 where ev: "(case jget market ''event_ticker'' of
        JStr event_ticker \<Rightarrow> event_cutoff env use event_ticker (out, ix) c1 | _ \<Rightarrow> (Inr (Some None), (out, ix), c1))
        = (r2, (out2, ix2), c2)" by (metis prod.exhaust)
    have same: "same_books out out2"
      using ev by (auto split: json.splits dest: event_cutoff_books)
    then have books2: "coverage_books out2 1 0" and fixed: "markets_considered out2 = markets_considered out"
      "markets_seen out2 = markets_seen out" using books by (simp_all add: same_books_def)
    have run: "cover_try env use ticker (out, ix) c = (r, (out', ix'), c')" by (rule assms(1))
    show ?thesis
      using run books2 fixed unfolding cover_try_def Pair Inr prod.case sum.case Let_def ev
      by (auto simp: coverage_books_def split: sum.splits option.splits prod.splits if_splits)
  qed
qed

lemma cover_markets_books:
  assumes "cover_markets env use tickers (out, ix) c = (Inr out', c')" and "coverage_books out 0 0"
  shows "coverage_books out' 0 0 \<and> markets_considered out' = markets_considered out + length tickers
    \<and> markets_seen out' = markets_seen out"
  using assms
proof (induction tickers arbitrary: out ix c)
  case (Cons ticker tickers)
  let ?out = "out\<lparr>markets_considered := markets_considered out + 1\<rparr>"
  obtain r out1 ix1 c1 where attempt: "cover_try env use ticker (?out, ix) c = (r, (out1, ix1), c1)"
    by (metis prod.exhaust)
  have "coverage_books ?out 1 0" using Cons.prems(2) by (simp add: coverage_books_def)
  note step = cover_try_books [OF attempt this]
  have rest: ?case if "cover_markets env use tickers (out2, ix1) c1 = (Inr out', c')" "coverage_books out2 0 0"
      "markets_considered out2 = markets_considered out1" "markets_seen out2 = markets_seen out1" for out2
    using Cons.IH [OF that(1,2)] that(3,4) step by simp
  show ?case
  proof (cases r)
    case (Inl e)
    then show ?thesis using Cons.prems(1) step unfolding cover_markets.simps attempt
      by (intro rest [of "out1\<lparr>cc_errors := cc_errors out1 + 1\<rparr>"]) (auto simp: coverage_books_def split: if_splits)
  next
    case (Inr found)
    show ?thesis
    proof (cases found)
      case None
      then show ?thesis using Cons.prems(1) step Inr unfolding cover_markets.simps attempt by (intro rest [of out1]) auto
    next
      case (Some res)
      then show ?thesis using Cons.prems(1) step Inr unfolding cover_markets.simps attempt
        by (intro rest [of "count_close res out1"]) (auto simp: count_close_def coverage_books_def split: close_quality.splits)
    qed
  qed
qed simp

text \<open>A coverage run counts each considered market once: as a true close, a proxy, missing, without a cutoff, or an
  error; the two sources of a cutoff account for every market that was resolved.\<close>

theorem coverage_adds_up:
  assumes "run_close_coverage env max_fills prefixes max_markets use c = Some (Inr out, c')"
  shows "markets_considered out = true_close out + earlier_quote_proxy out + cc_missing out + no_cutoff out + cc_errors out"
    and "true_close_wide_spread out \<le> true_close out" and "cutoff_conflict out \<le> no_cutoff out"
    and "markets_considered out \<le> max_markets" and "markets_considered out \<le> markets_seen out"
proof -
  let ?out = "\<lambda>fills. empty_coverage\<lparr>markets_seen := length (tickers_seen fills),
      cc_truncated := (if max_markets < length (considered_markets prefixes (tickers_seen fills)) then 1 else 0)\<rparr>"
  obtain fills c1 where run: "cover_markets env use
      (take max_markets (considered_markets prefixes (tickers_seen fills))) (?out fills, None) c1 = (Inr out, c')"
    using assms unfolding run_close_coverage_def Let_def by (auto split: option.splits prod.splits)
  have out0: "coverage_books (?out fills) 0 0" "markets_considered (?out fills) = 0"
    "markets_seen (?out fills) = length (tickers_seen fills)" by (simp_all add: coverage_books_def empty_coverage_def)
  have "length (considered_markets prefixes (tickers_seen fills)) \<le> length (tickers_seen fills)"
    by (simp add: considered_markets_def)
  moreover have "coverage_books out 0 0" "markets_seen out = length (tickers_seen fills)"
    "markets_considered out = min (length (considered_markets prefixes (tickers_seen fills))) max_markets"
    using cover_markets_books [OF run out0(1)] out0(2,3) by simp_all
  ultimately show "markets_considered out \<le> max_markets" "markets_considered out \<le> markets_seen out"
    and "markets_considered out = true_close out + earlier_quote_proxy out + cc_missing out + no_cutoff out + cc_errors out"
    and "true_close_wide_spread out \<le> true_close out" "cutoff_conflict out \<le> no_cutoff out"
    unfolding coverage_books_def by linarith+
qed

end
