(* ===== verification/LedgerText.thy ===== *)
theory LedgerText
  imports Milestones Production
begin

text \<open>
  What the append-only JSONL ledgers of the consumer's contract (\<^verbatim>\<open>routed_ledger.py\<close>,
  \<^verbatim>\<open>execution_evidence_ledger.py\<close>) share: the text Python's \<^verbatim>\<open>json.dumps\<close> writes for a record, the lines
  \<^verbatim>\<open>str.splitlines\<close> reads back, the arithmetic of JSON numbers, and the way a batch of rows is filed
  against the keys already on file. The JSON decoder is a parameter, as in \<open>Client\<close> and \<open>LedgerCompare\<close>.

  The lemmas: a written record is one line, and the lines of an extended file are the old lines and the new; filing is
  append-only, files each key once, and files nothing the second time. The locale \<open>append_only\<close> holds the laws of
  filing; each ledger interprets it.
\<close>

section \<open>Numbers\<close>

text \<open>A JSON number in Python: an \<open>int\<close>, or the exact value of a binary64 \<open>float\<close>.\<close>

datatype number = Whole int | Binary rat

definition json_number :: "json \<Rightarrow> number option" where
  "json_number v = (case v of JInt i \<Rightarrow> Some (Whole i) | JFloat x \<Rightarrow> Some (Binary (fround x)) | _ \<Rightarrow> None)"

definition is_number :: "json \<Rightarrow> bool" where
  "is_number v \<longleftrightarrow> json_number v \<noteq> None"

fun num_value :: "number \<Rightarrow> rat" where
  "num_value (Whole i) = of_int i"
| "num_value (Binary x) = x"

definition num_float :: "number \<Rightarrow> rat" where
  "num_float n = fround (num_value n)"

definition num_op :: "(int \<Rightarrow> int \<Rightarrow> int) \<Rightarrow> (rat \<Rightarrow> rat \<Rightarrow> rat) \<Rightarrow> number \<Rightarrow> number \<Rightarrow> number" where
  "num_op whole binary a b = (case (a, b) of
       (Whole i, Whole j) \<Rightarrow> Whole (whole i j)
     | _ \<Rightarrow> Binary (fround (binary (num_float a) (num_float b))))"

definition num_add :: "number \<Rightarrow> number \<Rightarrow> number" where "num_add = num_op (+) (+)"
definition num_sub :: "number \<Rightarrow> number \<Rightarrow> number" where "num_sub = num_op (-) (-)"
definition num_mul :: "number \<Rightarrow> number \<Rightarrow> number" where "num_mul = num_op (*) (*)"

text \<open>\<open>test(v)\<close> of a value that is a number, and of two that are.\<close>

definition number_is :: "(rat \<Rightarrow> bool) \<Rightarrow> json \<Rightarrow> bool" where
  "number_is test v = (case json_number v of None \<Rightarrow> False | Some n \<Rightarrow> test (num_value n))"

section \<open>Lines\<close>

definition LF :: char where "LF = CHR 0x0A"

definition line_break :: "char \<Rightarrow> bool" where
  "line_break c \<longleftrightarrow> of_char c \<in> {0x0A, 0x0B, 0x0C, 0x0D, 0x1C, 0x1D, 0x1E :: nat}"

text \<open>\<open>str.splitlines\<close>; a carriage return and a line feed are one break.\<close>

function py_splitlines :: "string \<Rightarrow> string list" where
  "py_splitlines s =
     (if s = [] then []
      else takeWhile (\<lambda>c. \<not> line_break c) s
        # (case dropWhile (\<lambda>c. \<not> line_break c) s of
             [] \<Rightarrow> []
           | c # r \<Rightarrow> py_splitlines (if c = CHR 0x0D \<and> take 1 r = [LF] then drop 1 r else r)))"
  by pat_completeness auto
termination
proof (relation "measure length")
  fix s c r
  assume "dropWhile (\<lambda>c. \<not> line_break c) s = c # r"
  then have "length (c # r) \<le> length s" by (metis length_dropWhile_le)
  then show "(if c = CHR 0x0D \<and> take 1 r = [LF] then drop 1 r else r, s) \<in> measure length" by (auto simp: less_Suc_eq_le)
qed simp

declare py_splitlines.simps [simp del]

section \<open>Writing JSON\<close>

text \<open>\<open>json.dumps\<close> of ASCII text, with sorted keys and the separators \<open>,\<close> and \<open>:\<close>.\<close>

definition quote_json_char :: "char \<Rightarrow> string" where
  "quote_json_char c =
     (if c = CHR 0x22 then [CHR 0x5C, c]
      else if c = CHR 0x5C then [c, c]
      else if c = CHR 0x0A then [CHR 0x5C, CHR ''n'']
      else if c = CHR 0x0D then [CHR 0x5C, CHR ''r'']
      else if c = CHR 0x09 then [CHR 0x5C, CHR ''t'']
      else if c = CHR 0x08 then [CHR 0x5C, CHR ''b'']
      else if c = CHR 0x0C then [CHR 0x5C, CHR ''f'']
      else if of_char c < (32 :: nat)
           then [CHR 0x5C] @ ''u00'' @ [PyText.hex_char (of_char c div 16), PyText.hex_char (of_char c mod 16)]
      else [c])"

definition quote_json :: "string \<Rightarrow> string" where
  "quote_json s = [CHR 0x22] @ concat (map quote_json_char s) @ [CHR 0x22]"

fun json_dump :: "json \<Rightarrow> string" where
  "json_dump JNull = ''null''"
| "json_dump (JBool b) = (if b then ''true'' else ''false'')"
| "json_dump (JInt i) = show_int i"
| "json_dump (JFloat x) = show_float x"
| "json_dump (JStr s) = quote_json s"
| "json_dump (JList xs) = ''['' @ join '','' (map json_dump xs) @ '']''"
| "json_dump (JObj ob) =
     ''{'' @ join '','' (map (\<lambda>(k, t). quote_json k @ '':'' @ t) (sort_key fst (map (\<lambda>(k, v). (k, json_dump v)) ob))) @ ''}''"

definition json_line :: "jobj \<Rightarrow> string" where
  "json_line r = json_dump (JObj r) @ [LF]"

text \<open>What \<open>json.loads\<close> makes of that text: the same value, its objects in the order of their keys.\<close>

fun sorted_json :: "json \<Rightarrow> json" where
  "sorted_json (JList xs) = JList (map sorted_json xs)"
| "sorted_json (JObj ob) = JObj (sort_key fst (map (\<lambda>(k, v). (k, sorted_json v)) ob))"
| "sorted_json v = v"

definition sorted_row :: "jobj \<Rightarrow> jobj" where
  "sorted_row r = sort_key fst (map (\<lambda>(k, v). (k, sorted_json v)) r)"

definition reads_back :: "(string \<Rightarrow> json option) \<Rightarrow> jobj \<Rightarrow> bool" where
  "reads_back decode r \<longleftrightarrow> decode (json_dump (JObj r)) = Some (JObj (sorted_row r))"

lemma jget_Cons: "jget ((k', v) # d) k = (if k = k' then v else jget d k)"
  by (simp add: jget_def)

section \<open>Filing rows against the keys on file\<close>

datatype 'r filing = Filed 'r | Present 'r | Clash 'r 'r | Rejected string

definition file_one :: "('i \<Rightarrow> string + 'r) \<Rightarrow> ('r \<Rightarrow> 'k) \<Rightarrow> ('r \<Rightarrow> 'r \<Rightarrow> bool) \<Rightarrow> ('k, 'r) dict \<Rightarrow> 'i \<Rightarrow> 'r filing" where
  "file_one admit key same on_file i = (case admit i of
       Inl why \<Rightarrow> Rejected why
     | Inr r \<Rightarrow> (case dget on_file (key r) of
           None \<Rightarrow> Filed r
         | Some prior \<Rightarrow> if same prior r then Present r else Clash prior r))"

fun put_filed :: "('r \<Rightarrow> 'k) \<Rightarrow> 'r filing \<Rightarrow> ('k, 'r) dict \<Rightarrow> ('k, 'r) dict" where
  "put_filed key (Filed r) on_file = dput (key r) r on_file"
| "put_filed key _ on_file = on_file"

fun file_all ::
  "('i \<Rightarrow> string + 'r) \<Rightarrow> ('r \<Rightarrow> 'k) \<Rightarrow> ('r \<Rightarrow> 'r \<Rightarrow> bool) \<Rightarrow> ('k, 'r) dict \<Rightarrow> 'i list \<Rightarrow> 'r filing list" where
  "file_all admit key same on_file [] = []"
| "file_all admit key same on_file (i # is) =
     (let f = file_one admit key same on_file i
      in f # file_all admit key same (put_filed key f on_file) is)"

fun filed_row :: "'r filing \<Rightarrow> 'r list" where
  "filed_row (Filed r) = [r]"
| "filed_row _ = []"

definition filed_rows :: "'r filing list \<Rightarrow> 'r list" where
  "filed_rows fs = concat (map filed_row fs)"

text \<open>How a verdict is repeated by a second run.\<close>

fun repeated :: "'r filing \<Rightarrow> 'r filing \<Rightarrow> bool" where
  "repeated (Filed r) g \<longleftrightarrow> g = Present r"
| "repeated (Present r) g \<longleftrightarrow> g = Present r"
| "repeated (Clash _ r) g \<longleftrightarrow> (\<exists>prior. g = Clash prior r)"
| "repeated (Rejected why) g \<longleftrightarrow> g = Rejected why"

lemma filed_rows_simps [simp]:
  "filed_rows [] = []" "filed_rows (f # fs) = filed_row f @ filed_rows fs"
  by (simp_all add: filed_rows_def)

lemma filed_row_set: "r \<in> set (filed_row f) \<longleftrightarrow> f = Filed r"
  by (cases f) auto

lemma in_filed_rows: "r \<in> set (filed_rows fs) \<longleftrightarrow> Filed r \<in> set fs"
  by (auto simp: filed_rows_def filed_row_set)

lemma dget_put_filed: "dget (put_filed key f on_file) k =
    (case f of Filed r \<Rightarrow> if k = key r then Some r else dget on_file k | _ \<Rightarrow> dget on_file k)"
  by (cases f) simp_all

text \<open>What filing yields, for any ledger whose rows are the same as themselves.\<close>

locale append_only =
  fixes admit :: "'i \<Rightarrow> string + 'r"
    and key :: "'r \<Rightarrow> 'k"
    and same :: "'r \<Rightarrow> 'r \<Rightarrow> bool"
  assumes same_refl: "admit i = Inr r \<Longrightarrow> same r r"

context append_only
begin

lemma filed_from: "Filed r \<in> set (file_all admit key same on_file is) \<Longrightarrow>
    dget on_file (key r) = None \<and> (\<exists>i \<in> set is. admit i = Inr r)"
proof (induction "is" arbitrary: on_file)
  case (Cons i "is")
  show ?case
  proof (cases "file_one admit key same on_file i = Filed r")
    case True
    then have "admit i = Inr r" "dget on_file (key r) = None"
      by (auto simp: file_one_def split: sum.splits option.splits if_splits)
    then show ?thesis by simp
  next
    case False
    then have "dget (put_filed key (file_one admit key same on_file i) on_file) (key r) = None \<and> (\<exists>i \<in> set is. admit i = Inr r)"
      using Cons by (auto simp: Let_def)
    then show ?thesis
      by (auto simp: dget_put_filed split: filing.splits if_splits)
  qed
qed simp

text \<open>Each key is filed once.\<close>

lemma filed_distinct: "distinct (map key (filed_rows (file_all admit key same on_file is)))"
proof (induction "is" arbitrary: on_file)
  case (Cons i "is")
  let ?f = "file_one admit key same on_file i"
  have "key r \<noteq> key r'" if "?f = Filed r" "Filed r' \<in> set (file_all admit key same (put_filed key ?f on_file) is)" for r r'
    using filed_from [OF that(2)] that(1) by (auto simp: dget_put_filed split: if_splits)
  then show ?case using Cons [of "put_filed key ?f on_file"]
    by (cases ?f) (auto simp: Let_def in_filed_rows image_iff)
qed simp

text \<open>Filing the same rows again, once the rows it filed are on file, repeats every verdict but files nothing. A row
  read back from a file need not be the row written, only alike to every comparison.\<close>

definition alike :: "'r \<Rightarrow> 'r \<Rightarrow> bool" where
  "alike p p' \<longleftrightarrow> (\<forall>r. same p r \<longleftrightarrow> same p' r)"

definition kept :: "('k, 'r) dict \<Rightarrow> ('k, 'r) dict \<Rightarrow> bool" where
  "kept d later \<longleftrightarrow> (\<forall>k p. dget d k = Some p \<longrightarrow> (\<exists>p'. dget later k = Some p' \<and> alike p p'))"

lemma file_again:
  assumes "kept on_file later"
    and "\<And>r. Filed r \<in> set (file_all admit key same on_file is) \<Longrightarrow> \<exists>p'. dget later (key r) = Some p' \<and> alike r p'"
  shows "list_all2 repeated (file_all admit key same on_file is) (file_all admit key same later is)"
  using assms
proof (induction "is" arbitrary: on_file)
  case (Cons i "is")
  let ?f = "file_one admit key same on_file i" and ?g = "file_one admit key same later i"
  have filed: "\<exists>p'. dget later (key r) = Some p' \<and> alike r p'" if "?f = Filed r" for r
    using Cons.prems(2) [of r] that by (simp add: Let_def)
  have head: "repeated ?f ?g"
  proof (cases "admit i")
    case (Inr r)
    show ?thesis
    proof (cases "dget on_file (key r)")
      case None
      then have f: "?f = Filed r" using Inr by (simp add: file_one_def)
      obtain p' where "dget later (key r) = Some p'" "alike r p'" using filed [OF f] by blast
      moreover have "same r r" using Inr by (rule same_refl)
      ultimately have "?g = Present r" using Inr by (simp add: file_one_def alike_def)
      then show ?thesis using f by simp
    next
      case (Some p)
      then obtain p' where "dget later (key r) = Some p'" "alike p p'" using Cons.prems(1) by (auto simp: kept_def)
      then show ?thesis using Some Inr by (simp add: file_one_def alike_def)
    qed
  qed (simp add: file_one_def)
  have stays: "put_filed key ?g later = later" using head by (cases ?f; cases ?g) auto
  have "kept (put_filed key ?f on_file) later"
    using Cons.prems(1) filed by (auto simp: kept_def dget_put_filed split: filing.splits if_splits)
  then have "list_all2 repeated (file_all admit key same (put_filed key ?f on_file) is) (file_all admit key same later is)"
    using Cons.prems(2) by (intro Cons.IH) (simp_all add: Let_def)
  then show ?case using head stays by (simp add: Let_def)
qed simp

end

lemma repeated_files_nothing: "list_all2 repeated fs gs \<Longrightarrow> filed_rows gs = []"
proof (induction rule: list_all2_induct)
  case (Cons f fs g gs)
  then show ?case by (cases f; cases g) auto
qed simp

section \<open>A record is a line\<close>

text \<open>Text a file ends its records with: empty, or closed by a line feed.\<close>

definition whole_lines :: "string \<Rightarrow> bool" where
  "whole_lines text \<longleftrightarrow> text = [] \<or> last text = LF"

lemma line_break_LF: "line_break LF" "LF \<noteq> CHR 0x0D"
  by (simp_all add: line_break_def LF_def)

lemma splitlines_Nil [simp]: "py_splitlines [] = []"
  by (simp add: py_splitlines.simps)

lemma splitlines_line: "\<forall>c \<in> set line. \<not> line_break c \<Longrightarrow> py_splitlines (line @ LF # t) = line # py_splitlines t"
  by (subst py_splitlines.simps) (simp add: takeWhile_append dropWhile_append line_break_LF)

lemma splitlines_append:
  assumes "whole_lines s"
  shows "py_splitlines (s @ t) = py_splitlines s @ py_splitlines t"
  using assms
proof (induction s rule: py_splitlines.induct)
  case (1 s)
  show ?case
  proof (cases "s = []")
    case False
    then have last: "last s = LF" using 1(2) by (simp add: whole_lines_def)
    let ?P = "\<lambda>c. \<not> line_break c"
    have "LF \<in> set s" using last False by (metis last_in_set)
    then obtain c r where d: "dropWhile ?P s = c # r"
      by (metis dropWhile_eq_Nil_conv line_break_LF(1) neq_Nil_conv)
    have split: "s = takeWhile ?P s @ c # r" using d by (metis takeWhile_dropWhile_id)
    have ex: "\<exists>x \<in> set s. \<not> ?P x" using \<open>LF \<in> set s\<close> line_break_LF by blast
    let ?skip = "\<lambda>r. if c = CHR 0x0D \<and> take 1 r = [LF] then drop 1 r else r"
    have r: "r = [] \<or> last r = LF" using last split by (metis last_ConsR last_appendR list.distinct(1))
    have same: "?skip (r @ t) = ?skip r @ t"
    proof (cases r)
      case Nil
      then have "c = LF" using last split by (metis last_snoc)
      then show ?thesis using Nil line_break_LF by simp
    qed simp
    have "whole_lines (?skip r)"
      using r by (cases r) (auto simp: whole_lines_def split: if_splits)
    then have IH: "py_splitlines (?skip r @ t) = py_splitlines (?skip r) @ py_splitlines t"
      using 1(1) [OF False d] by simp
    have tw: "takeWhile ?P (s @ t) = takeWhile ?P s" and dw: "dropWhile ?P (s @ t) = c # (r @ t)"
      using ex d by (auto simp: takeWhile_append1 dropWhile_append1)
    have "py_splitlines (s @ t) = takeWhile ?P s # py_splitlines (?skip (r @ t))"
      using False by (subst py_splitlines.simps) (simp only: tw dw append_is_Nil_conv if_False list.case simp_thms)
    also have "\<dots> = py_splitlines s @ py_splitlines t"
      unfolding same IH using False d by (subst (3) py_splitlines.simps) simp
    finally show ?thesis .
  qed simp
qed

definition printable :: "string \<Rightarrow> bool" where
  "printable s \<longleftrightarrow> (\<forall>c \<in> set s. (32 :: nat) \<le> of_char c)"

lemma printable_simps [simp]:
  "printable []" "printable (c # s) \<longleftrightarrow> (32 :: nat) \<le> of_char c \<and> printable s"
  "printable (s @ t) \<longleftrightarrow> printable s \<and> printable t" "printable (concat ss) \<longleftrightarrow> (\<forall>s \<in> set ss. printable s)"
  by (auto simp: printable_def)

lemma printable_subset: "set t \<subseteq> set s \<Longrightarrow> printable s \<Longrightarrow> printable t"
  by (auto simp: printable_def)

lemma printable_join: "printable sep \<Longrightarrow> \<forall>s \<in> set ss. printable s \<Longrightarrow> printable (join sep ss)"
  by (induction sep ss rule: join.induct) auto

lemma printable_digits: "list_all is_digit s \<Longrightarrow> printable s"
  by (auto simp: list_all_iff printable_def is_digit_def less_eq_char_def)

lemma hex_char_printable: "n < 16 \<Longrightarrow> (32 :: nat) \<le> of_char (PyText.hex_char n)"
proof -
  assume "n < 16"
  then have "PyText.hex_char n \<in> set ''0123456789abcdef''" unfolding PyText.hex_char_def by (intro nth_mem) simp
  moreover have "\<forall>c \<in> set ''0123456789abcdef''. (32 :: nat) \<le> of_char c" by simp
  ultimately show ?thesis by blast
qed

lemma printable_quote: "printable (quote_json s)"
proof -
  have "printable (quote_json_char c)" for c
    unfolding quote_json_char_def by (auto simp: hex_char_printable)
  then show ?thesis by (simp add: quote_json_def)
qed

lemma printable_show_nat: "printable (show_nat n)"
  by (rule printable_digits) (rule show_nat_digits)

lemma printable_show_int: "printable (show_int i)"
  using printable_show_nat by (simp add: show_int_def)

lemma printable_show_float: "printable (show_float x)"
proof -
  have strip: "printable (strip_zeros s)" if "printable s" for s
  proof -
    have "set (rev (dropWhile (\<lambda>c. c = CHR ''0'') (rev s))) \<subseteq> set s" using set_dropWhileD by fastforce
    then have "printable (rev (dropWhile (\<lambda>c. c = CHR ''0'') (rev s)))" using that by (rule printable_subset)
    then show ?thesis by (simp add: strip_zeros_def Let_def)
  qed
  have parts: "printable (take n s)" "printable (drop n s)" if "printable s" for n s
    using that by (meson printable_subset set_take_subset set_drop_subset)+
  have zeros: "printable (replicate n (CHR ''0''))" for n by (simp add: printable_def)
  have e: "printable (exponent_text n)" for n by (simp add: exponent_text_def printable_show_nat)
  show ?thesis
    unfolding show_float_def Let_def
    by (simp add: strip parts zeros e printable_show_nat)
qed

lemma printable_json_dump: "printable (json_dump v)"
proof (induction v)
  case (JList xs)
  then show ?case by (auto intro!: printable_join)
next
  case (JObj ob)
  have "printable (json_dump v)" if "(k, v) \<in> set ob" for k v using JObj [OF that] by simp
  then show ?case by (auto intro!: printable_join simp: printable_quote)
qed (simp_all add: printable_show_int printable_show_float printable_quote)

lemma printable_one_line: "printable s \<Longrightarrow> \<forall>c \<in> set s. \<not> line_break c"
  by (force simp: printable_def line_break_def)

lemma json_line_splits: "py_splitlines (json_line r @ t) = json_dump (JObj r) # py_splitlines t"
  using splitlines_line [OF printable_one_line [OF printable_json_dump [of "JObj r"]]]
  by (simp only: json_line_def append_assoc append_Cons append_Nil)

lemma json_lines_split: "py_splitlines (concat (map json_line rs)) = map (\<lambda>r. json_dump (JObj r)) rs"
  by (induction rs) (simp_all add: json_line_splits)

lemma json_dump_not_blank: "\<not> blank (json_dump (JObj r))"
  by (auto simp: blank_iff is_space_def)

lemma json_lines_whole: "whole_lines text \<Longrightarrow> whole_lines (text @ concat (map json_line rs))"
  by (induction rs rule: rev_induct) (simp_all add: whole_lines_def json_line_def)

section \<open>A row read back\<close>

lemma map_of_sort_key: "distinct (map fst r) \<Longrightarrow> map_of (sort_key fst r) = map_of r"
proof
  fix k
  assume d: "distinct (map fst r)"
  then have s: "distinct (map fst (sort_key fst r))"
    by (metis mset_map mset_sort mset_eq_imp_distinct_iff)
  have "map_of (sort_key fst r) k = Some v \<longleftrightarrow> map_of r k = Some v" for v
    using map_of_eq_Some_iff [OF d] map_of_eq_Some_iff [OF s] by simp
  then show "map_of (sort_key fst r) k = map_of r k" by (metis not_Some_eq)
qed

lemma jget_sorted_row: "distinct (dkeys r) \<Longrightarrow> jget (sorted_row r) k = sorted_json (jget r k)"
proof -
  assume d: "distinct (dkeys r)"
  let ?m = "map (\<lambda>(k, v). (k, sorted_json v)) r"
  have keys: "map fst ?m = dkeys r" by auto
  have "map_of (sort_key fst ?m) = map_of ?m" by (rule map_of_sort_key) (simp only: keys d)
  moreover have "map_of ?m k = map_option sorted_json (map_of r k)" by (induction r) auto
  ultimately show ?thesis by (simp add: jget_def sorted_row_def split: option.split)
qed

lemma dkeys_sorted_row [simp]: "set (dkeys (sorted_row r)) = set (dkeys r)"
proof -
  have "map fst (map (\<lambda>(k, v). (k, sorted_json v)) r) = dkeys r" by auto
  then have "fst ` set (map (\<lambda>(k, v). (k, sorted_json v)) r) = fst ` set r" by (metis set_map)
  then show ?thesis unfolding sorted_row_def set_map set_sort .
qed

lemma sorted_json_atoms [simp]:
  "sorted_json v = JNull \<longleftrightarrow> v = JNull" "sorted_json v = JStr s \<longleftrightarrow> v = JStr s" "sorted_json v = JBool b \<longleftrightarrow> v = JBool b"
  "sorted_json v = JInt i \<longleftrightarrow> v = JInt i" "sorted_json v = JFloat x \<longleftrightarrow> v = JFloat x"
  "json_number (sorted_json v) = json_number v" "jstr (sorted_json v) = jstr v" "is_number (sorted_json v) = is_number v"
  by (cases v; simp add: json_number_def jstr_def is_number_def)+

lemma sort_key_map_fst: "sort_key fst (map (\<lambda>(k, v). (k, g v)) xs) = map (\<lambda>(k, v). (k, g v)) (sort_key fst xs)"
proof -
  let ?g = "\<lambda>(k, v). (k, g v)"
  have step: "insort_key fst (k, g v) (map ?g ys) = map ?g (insort_key fst (k, v) ys)" for k v ys
    by (induction ys) auto
  show ?thesis
  proof (induction xs)
    case (Cons x xs)
    then show ?case using step by (cases x) simp
  qed simp
qed

lemma canon_sorted_json [simp]: "canon (sorted_json v) = canon v"
proof (induction v)
  case (JObj ob)
  then have "map (\<lambda>(k, v). (k, canon (sorted_json v))) ob = map (\<lambda>(k, v). (k, canon v)) ob" by fastforce
  then have "map (\<lambda>(k, v). (k, canon v)) (map (\<lambda>(k, v). (k, sorted_json v)) ob) = map (\<lambda>(k, v). (k, canon v)) ob"
    by (simp only: map_map comp_def case_prod_unfold fst_conv snd_conv)
  then have "sort_key fst (map (\<lambda>(k, v). (k, canon v)) (sort_key fst (map (\<lambda>(k, v). (k, sorted_json v)) ob)))
      = sort_key fst (map (\<lambda>(k, v). (k, canon v)) ob)"
    by (simp only: sort_key_map_fst [of canon, symmetric] sort_key_id_if_sorted [OF sorted_sort_key])
  then show ?case by simp
qed (auto simp: comp_def)

end
