(* ===== verification/RoutedLedger.thy ===== *)
theory RoutedLedger
  imports LedgerText
begin

text \<open>
  \<^verbatim>\<open>contract/edge_finder_contract/routed_ledger.py\<close>: the accounting ledger a destination keeps of routed
  wagers and their settlements: how a row of the router becomes a record or is refused, how a batch is filed against the
  ledger, and the check of a whole ledger. A path is modelled by the text of its file (empty when there is none); the
  JSON decoder is a parameter. \<open>RowRefused\<close> is a \<open>ValueError\<close>, and its text is the left side of a sum where the code
  catches it.

  The lemmas: importing is append-only and idempotent and keeps a valid ledger valid.
\<close>

section \<open>The contract\<close>

definition ECONOMICS_V2 :: string where "ECONOMICS_V2 = ''router-settlement-economics.v2''"
definition ENTRY_METHOD :: string where "ENTRY_METHOD = ''IMPORTED_RECEIPT''"
definition VENUE :: string where "VENUE = ''kalshi''"

definition WAGER_INPUT_FIELDS :: "string list" where
  "WAGER_INPUT_FIELDS = [''source_bet_key'', ''import_batch_id'', ''entry_method'', ''game_date'', ''market_ticker'', ''side'',
     ''executed_at'', ''contracts'', ''execution_price'', ''actual_price'', ''stake'', ''fees_paid'', ''fees_are_estimated'',
     ''venue'', ''fee_state'', ''execution_action'']"

definition WAGER_REQUIRED :: "string list" where
  "WAGER_REQUIRED = [''source_bet_key'', ''import_batch_id'', ''entry_method'', ''game_date'', ''market_ticker'', ''side'',
     ''executed_at'', ''contracts'', ''stake'', ''fees_paid'', ''fees_are_estimated'', ''venue'']"

definition WAGER_CANONICAL_FIELDS :: "string list" where
  "WAGER_CANONICAL_FIELDS = [''entry_method'', ''game_date'', ''market_ticker'', ''side'', ''executed_at'', ''contracts'',
     ''execution_price'', ''stake'', ''fees_paid'', ''fees_are_estimated'', ''venue'']"

definition SETTLEMENT_INPUT_FIELDS :: "string list" where
  "SETTLEMENT_INPUT_FIELDS = [''source_bet_key'', ''market_ticker'', ''side'', ''settlement_status'', ''settled_at'', ''result'',
     ''gross_return'', ''net_profit_loss'', ''refusals'', ''venue'', ''economics_version'']"

definition SETTLEMENT_CANONICAL_FIELDS :: "string list" where
  "SETTLEMENT_CANONICAL_FIELDS = filter (\<lambda>f. f \<noteq> ''source_bet_key'') SETTLEMENT_INPUT_FIELDS"

definition PROVENANCE_FIELDS :: "string list" where
  "PROVENANCE_FIELDS = [''recommendation_id'', ''recommendation'', ''model_version'', ''model_evaluation_id'',
     ''model_fair_probability'', ''model_probability'', ''model_supported'', ''p_model'', ''fair_probability'', ''fair_prob'',
     ''edge'', ''expected_value'', ''ev'', ''projection_id'', ''prediction_id'', ''prediction_record_id'', ''thesis_id'',
     ''authority'', ''confidence'', ''kelly'', ''stake_recommendation'', ''gate'', ''qualification'', ''readiness'', ''decision_id'']"

text \<open>The alternatives of \<open>_PROVENANCE_RE\<close>, which is anchored at the start.\<close>

definition PROVENANCE_PREFIXES :: "string list" where
  "PROVENANCE_PREFIXES = [''model_'', ''fair_'', ''edge_'', ''probabilit'', ''recommendation'', ''prediction_'', ''thesis'',
     ''authority'', ''confidence'']"

definition MONEY_TOLERANCE :: rat where "MONEY_TOLERANCE = fround (1 / 10 ^ 9)"

record ledger_spec =
  ls_sport :: string
  ls_id_prefix :: string
  ls_wager_schema :: string
  ls_settlement_schema :: string
  ls_ledger_dir :: string
  ls_wagers_file :: string
  ls_settlements_file :: string

definition mint :: "string \<Rightarrow> json \<Rightarrow> string + string" where
  "mint prefix source_bet_key = (case source_bet_key of
       JStr s \<Rightarrow> if blank s then Inl ''source_bet_key is required'' else Inr (prefix @ ''-'' @ take 24 (sha256_hex s))
     | _ \<Rightarrow> Inl ''source_bet_key is required'')"

definition mint_wager_id :: "ledger_spec \<Rightarrow> json \<Rightarrow> string + string" where
  "mint_wager_id spec = mint (ls_id_prefix spec @ ''w'')"

definition mint_settlement_id :: "ledger_spec \<Rightarrow> json \<Rightarrow> string + string" where
  "mint_settlement_id spec = mint (ls_id_prefix spec @ ''s'')"

definition aware_ts :: "json \<Rightarrow> bool" where
  "aware_ts v = (case v of
       JStr s \<Rightarrow>
         CHR ''T'' \<in> set s
         \<and> (let t = concat (map (\<lambda>c. if c = CHR ''Z'' then ''+00:00'' else [c]) s) in iso_micros t \<noteq> None \<and> has_zone t)
     | _ \<Rightarrow> False)"

definition nonempty :: "json \<Rightarrow> bool" where
  "nonempty v = (case v of JStr s \<Rightarrow> \<not> blank s | _ \<Rightarrow> False)"

definition is_provenance :: "string \<Rightarrow> bool" where
  "is_provenance k \<longleftrightarrow> k \<in> set PROVENANCE_FIELDS \<or> list_ex (starts_with k) PROVENANCE_PREFIXES"

definition provenance_fields :: "jobj \<Rightarrow> string list" where
  "provenance_fields row = sort (filter is_provenance (dkeys row))"

text \<open>\<open>_DATE.match\<close>: its \<open>$\<close> also stands before a final line feed.\<close>

definition date_shape :: "string \<Rightarrow> bool" where
  "date_shape s \<longleftrightarrow> (case s of
       y1 # y2 # y3 # y4 # h1 # m1 # m2 # h2 # d1 # d2 # rest \<Rightarrow>
         list_all is_digit [y1, y2, y3, y4, m1, m2, d1, d2] \<and> h1 = CHR ''-'' \<and> h2 = CHR ''-'' \<and> (rest = [] \<or> rest = [LF])
     | _ \<Rightarrow> False)"

section \<open>What is wrong with a record\<close>

definition problem :: "bool \<Rightarrow> string \<Rightarrow> string list" where
  "problem wrong what = (if wrong then [what] else [])"

definition names_text :: "string list \<Rightarrow> string" where
  "names_text ks = py_repr (JList (map JStr ks))"

definition provenance_problem :: "string list \<Rightarrow> string" where
  "provenance_problem bad = ''model/recommendation provenance field(s) '' @ names_text bad @ '' are not accounting facts''"

definition stake_disagrees :: "json \<Rightarrow> json \<Rightarrow> json \<Rightarrow> json \<Rightarrow> bool" where
  "stake_disagrees c px st fee = (case (json_number c, json_number px, json_number st, json_number fee) of
       (Some c, Some px, Some st, Some fee) \<Rightarrow>
         0 < num_value c
         \<and> num_value (num_mul (Binary (fround (1 / 10 ^ 6))) (if 1 < num_value st then st else Binary 1))
             < \<bar>num_value (num_sub st (num_add (num_mul c px) fee))\<bar>
     | _ \<Rightarrow> False)"

definition wager_problems_head :: "ledger_spec \<Rightarrow> jobj \<Rightarrow> string list" where
  "wager_problems_head spec rec =
     (let bad = provenance_fields rec; key = jget rec ''source_bet_key'' in
       problem (bad \<noteq> []) (provenance_problem bad)
     @ concat (map (\<lambda>name. problem (\<not> nonempty (jget rec name)) (name @ '' is required''))
         [''wager_id'', ''source_bet_key'', ''import_batch_id'', ''market_ticker'', ''game_date'', ''executed_at''])
     @ problem (jget rec ''schema_version'' \<noteq> JStr (ls_wager_schema spec)) (''schema_version must be '' @ ls_wager_schema spec)
     @ problem (nonempty key \<and> (case mint_wager_id spec key of Inr i \<Rightarrow> jget rec ''wager_id'' \<noteq> JStr i | _ \<Rightarrow> False))
         ''wager_id is not the id this ledger mints from source_bet_key''
     @ problem (jget rec ''entry_method'' \<noteq> JStr ENTRY_METHOD) (''entry_method must be '' @ ENTRY_METHOD)
     @ problem (jget rec ''side'' \<notin> set [JStr ''YES'', JStr ''NO'']) ''side must be YES or NO'')"

definition wager_problems_body :: "jobj \<Rightarrow> string list" where
  "wager_problems_body rec =
     (let date = jget rec ''game_date''; when = jget rec ''executed_at''; c = jget rec ''contracts'';
          px = jget rec ''execution_price''; st = jget rec ''stake''; fee = jget rec ''fees_paid'' in
       problem (nonempty date \<and> (case date of JStr s \<Rightarrow> \<not> date_shape s | _ \<Rightarrow> False)) ''game_date must be YYYY-MM-DD''
     @ problem (nonempty when \<and> \<not> aware_ts when) ''executed_at must be an RFC 3339 timestamp with a zone''
     @ problem (\<not> number_is (\<lambda>x. 0 < x) c) ''contracts must be a positive number''
     @ problem (\<not> number_is (\<lambda>x. 0 < x \<and> x < 1) px)
         ''execution_price must be a number strictly between 0 and 1 (dollars per contract)''
     @ problem (\<not> number_is (\<lambda>x. 0 < x) st) ''stake must be a positive number''
     @ problem (\<not> number_is (\<lambda>x. 0 \<le> x) fee) ''fees_paid must be a non-negative number''
     @ problem (jget rec ''fees_are_estimated'' \<noteq> JBool False)
         ''fees_are_estimated must be false: only the exchange's own reported fees are accepted''
     @ problem (jget rec ''venue'' \<noteq> JStr VENUE) ''venue must be kalshi''
     @ problem (jget rec ''execution_action'' \<notin> set [JNull, JStr ''BUY'', JStr ''SELL''])
         ''execution_action must be BUY, SELL or absent''
     @ problem (stake_disagrees c px st fee) ''stake does not equal contracts x execution_price + fees_paid'')"

definition validate_wager :: "ledger_spec \<Rightarrow> jobj \<Rightarrow> string list" where
  "validate_wager spec rec = wager_problems_head spec rec @ wager_problems_body rec"

definition is_text :: "json \<Rightarrow> bool" where
  "is_text v \<longleftrightarrow> jstr v \<noteq> None"

definition settlement_problems_head :: "ledger_spec \<Rightarrow> jobj \<Rightarrow> string list" where
  "settlement_problems_head spec rec =
     (let bad = provenance_fields rec; key = jget rec ''source_bet_key''; when = jget rec ''settled_at'' in
       problem (bad \<noteq> []) (provenance_problem bad)
     @ concat (map (\<lambda>name. problem (\<not> nonempty (jget rec name)) (name @ '' is required''))
         [''settlement_id'', ''source_bet_key'', ''market_ticker'', ''settled_at''])
     @ problem (jget rec ''schema_version'' \<noteq> JStr (ls_settlement_schema spec))
         (''schema_version must be '' @ ls_settlement_schema spec)
     @ problem (nonempty key \<and> (case mint_settlement_id spec key of Inr i \<Rightarrow> jget rec ''settlement_id'' \<noteq> JStr i | _ \<Rightarrow> False))
         ''settlement_id is not the id this ledger mints from source_bet_key''
     @ problem (jget rec ''side'' \<notin> set [JStr ''YES'', JStr ''NO'']) ''side must be YES or NO''
     @ problem (jget rec ''settlement_status'' \<noteq> JStr ''SETTLED'')
         ''settlement_status must be SETTLED (an unsettled wager simply has no settlement row)''
     @ problem (nonempty when \<and> \<not> aware_ts when) ''settled_at must be an RFC 3339 timestamp with a zone''
     @ problem (jget rec ''result'' \<notin> set [JStr ''WON'', JStr ''LOST'', JNull]) ''result must be WON, LOST or absent''
     @ problem (jget rec ''economics_version'' \<noteq> JStr ECONOMICS_V2) (''economics_version must be '' @ ECONOMICS_V2)
     @ problem (jget rec ''venue'' \<noteq> JStr VENUE) ''venue must be kalshi'')"

definition settlement_problems_money :: "jobj \<Rightarrow> string list" where
  "settlement_problems_money rec =
     (let listed = (case jget rec ''refusals'' of JList rs \<Rightarrow> if list_all is_text rs then Some rs else None | _ \<Rightarrow> None);
          refused = (listed \<noteq> None \<and> listed \<noteq> Some []);
          g = jget rec ''gross_return''; n = jget rec ''net_profit_loss'';
          established = (g \<noteq> JNull \<and> n \<noteq> JNull) in
       problem (listed = None) ''refusals must be a list of strings''
     @ concat (map (\<lambda>(name, v). problem (v \<noteq> JNull \<and> \<not> is_number v) (name @ '' must be a number or absent''))
         [(''gross_return'', g), (''net_profit_loss'', n)])
     @ problem (number_is (\<lambda>x. x < 0) g) ''gross_return may not be negative''
     @ problem (established \<and> refused) ''a settlement with established money may not also carry refusals''
     @ problem (\<not> established \<and> \<not> refused) ''a settlement without established money must say why (refusals)'')"

definition validate_settlement :: "ledger_spec \<Rightarrow> jobj \<Rightarrow> string list" where
  "validate_settlement spec rec = settlement_problems_head spec rec @ settlement_problems_money rec"

section \<open>Reading and extending a ledger file\<close>

fun read_jsonl :: "(string \<Rightarrow> json option) \<Rightarrow> string list \<Rightarrow> jobj list result" where
  "read_jsonl decode [] = Inr []"
| "read_jsonl decode (line # lines) =
     (if blank line then read_jsonl decode lines
      else case decode line of
        Some (JObj row) \<Rightarrow> rbind (read_jsonl decode lines) (\<lambda>rows. Inr (row # rows))
      | _ \<Rightarrow> Inl ValueError)"

definition append_lines :: "string \<Rightarrow> jobj list \<Rightarrow> string" where
  "append_lines text recs =
     (if recs = [] then text
      else text @ (if text \<noteq> [] \<and> last text \<noteq> LF then [LF] else []) @ concat (map json_line recs))"

definition differs :: "json \<Rightarrow> json \<Rightarrow> bool" where
  "differs a b = (case (json_number a, json_number b) of
       (Some x, Some y) \<Rightarrow> MONEY_TOLERANCE < \<bar>fround (num_float x - num_float y)\<bar>
     | _ \<Rightarrow> \<not> py_eq a b)"

definition conflicting_fields :: "jobj \<Rightarrow> jobj \<Rightarrow> string list \<Rightarrow> string list" where
  "conflicting_fields existing incoming names = filter (\<lambda>f. differs (jget existing f) (jget incoming f)) names"

section \<open>A row of the router as a record\<close>

definition build_wager :: "ledger_spec \<Rightarrow> json \<Rightarrow> string + jobj" where
  "build_wager spec row = (case row of
       JObj ob \<Rightarrow>
         let prov = provenance_fields ob; unknown = sorted_set (filter (\<lambda>k. k \<notin> set WAGER_INPUT_FIELDS) (dkeys ob));
             missing = filter (\<lambda>f. f \<notin> set (dkeys ob)) WAGER_REQUIRED;
             prices = filter (\<lambda>f. f \<in> set (dkeys ob)) [''execution_price'', ''actual_price'']
         in
         if prov \<noteq> [] then Inl (provenance_problem prov)
         else if unknown \<noteq> [] then Inl (''unknown field(s) '' @ names_text unknown)
         else if missing \<noteq> [] then Inl (''missing field(s) '' @ names_text missing)
         else if length prices \<noteq> 1 then Inl ''a row carries exactly one of execution_price / actual_price''
         else rbind (mint_wager_id spec (jget ob ''source_bet_key'')) (\<lambda>wager_id.
           let kept = map (\<lambda>k. (k, jget ob k)) (filter (\<lambda>k. k \<in> set (dkeys ob) \<and> k \<noteq> ''actual_price'') WAGER_INPUT_FIELDS);
               rec = dput ''schema_version'' (JStr (ls_wager_schema spec)) (dput ''wager_id'' (JStr wager_id)
                       (dput ''execution_price'' (jget ob (hd prices)) kept));
               problems = validate_wager spec rec
           in if problems \<noteq> [] then Inl (join ''; '' problems) else Inr rec)
     | _ \<Rightarrow> Inl ''row is not an object'')"

definition build_settlement :: "ledger_spec \<Rightarrow> json \<Rightarrow> string + jobj" where
  "build_settlement spec row = (case row of
       JObj ob \<Rightarrow>
         let prov = provenance_fields ob; unknown = sorted_set (filter (\<lambda>k. k \<notin> set SETTLEMENT_INPUT_FIELDS) (dkeys ob));
             missing = filter (\<lambda>f. f \<notin> set (dkeys ob)
                 \<and> f \<notin> set [''result'', ''gross_return'', ''net_profit_loss'', ''economics_version'']) SETTLEMENT_INPUT_FIELDS
         in
         if prov \<noteq> [] then Inl (provenance_problem prov)
         else if unknown \<noteq> [] then Inl (''unknown field(s) '' @ names_text unknown)
         else if missing \<noteq> [] then Inl (''missing field(s) '' @ names_text missing)
         else rbind (mint_settlement_id spec (jget ob ''source_bet_key'')) (\<lambda>settlement_id.
           let rec = dput ''schema_version'' (JStr (ls_settlement_schema spec)) (dput ''settlement_id'' (JStr settlement_id)
                       (map (\<lambda>k. (k, jget ob k)) SETTLEMENT_INPUT_FIELDS));
               problems = validate_settlement spec rec
           in if problems \<noteq> [] then Inl (join ''; '' problems) else Inr rec)
     | _ \<Rightarrow> Inl ''row is not an object'')"

section \<open>Importing a batch\<close>

datatype row_status = NEW | DUPLICATE_NOOP | CONFLICT | REFUSED

fun status_text :: "row_status \<Rightarrow> string" where
  "status_text NEW = ''NEW''"
| "status_text DUPLICATE_NOOP = ''DUPLICATE_NOOP''"
| "status_text CONFLICT = ''CONFLICT''"
| "status_text REFUSED = ''REFUSED''"

record import_result =
  ir_rows :: "jobj list"
  ir_written :: nat
  ir_duplicate :: nat
  ir_refused :: nat

definition empty_result :: import_result where
  "empty_result = \<lparr>ir_rows = [], ir_written = 0, ir_duplicate = 0, ir_refused = 0\<rparr>"

definition conflicted :: "import_result \<Rightarrow> bool" where
  "conflicted res \<longleftrightarrow> 0 < ir_refused res"

definition import_receipts :: "import_result \<Rightarrow> string \<Rightarrow> json \<Rightarrow> jobj" where
  "import_receipts res kind import_batch_id =
     [(''kind'', JStr kind), (''written'', JInt (int (ir_written res))), (''alreadyPresent'', JInt (int (ir_duplicate res))),
      (''refused'', JInt (int (ir_refused res))), (''rows'', JList (map JObj (ir_rows res)))]
     @ (if import_batch_id = JNull then [] else [(''importBatchId'', import_batch_id)])"

definition row_receipt :: "nat \<Rightarrow> json \<Rightarrow> string \<Rightarrow> json \<Rightarrow> row_status \<Rightarrow> string \<Rightarrow> string list \<Rightarrow> jobj" where
  "row_receipt index key id_field ident status reason names =
     [(''row'', JInt (int index)), (''source_bet_key'', case key of JStr s \<Rightarrow> key | _ \<Rightarrow> JNull), (id_field, ident),
      (''status'', JStr (status_text status)), (''duplicate_status'', JStr (status_text status)),
      (''success'', JBool (status \<in> set [NEW, DUPLICATE_NOOP]))]
     @ (if reason \<noteq> [] then [(''reason'', JStr reason)] else [])
     @ (if names \<noteq> [] then [(''conflicting_fields'', JList (map JStr names))] else [])"

text \<open>What the two loops differ in: how a row becomes a record or is refused, the record's id, the fields that must
  agree, and the reason a conflict is given.\<close>

record importer =
  im_admit :: "json \<Rightarrow> string + jobj"
  im_id_field :: string
  im_names :: "string list"
  im_conflict :: string

definition source_key :: "jobj \<Rightarrow> json" where
  "source_key rec = jget rec ''source_bet_key''"

definition row_key :: "json \<Rightarrow> json" where
  "row_key row = (case row of JObj ob \<Rightarrow> source_key ob | _ \<Rightarrow> JNull)"

text \<open>The loop of \<open>import_wagers\<close> and of \<open>import_settlements\<close>; it returns the records to append.\<close>

fun import_loop ::
  "importer \<Rightarrow> nat \<Rightarrow> json list \<Rightarrow> (json, jobj) dict \<Rightarrow> jobj list \<Rightarrow> import_result \<Rightarrow> jobj list \<times> import_result" where
  "import_loop im i [] on_file added res = (added, res)"
| "import_loop im i (row # rows) on_file added res =
     (case im_admit im row of
        Inl why \<Rightarrow>
          import_loop im (Suc i) rows on_file added
            (res\<lparr>ir_refused := ir_refused res + 1,
                 ir_rows := ir_rows res @ [row_receipt i (row_key row) (im_id_field im) JNull REFUSED why []]\<rparr>)
      | Inr rec \<Rightarrow>
          let receipt = row_receipt i (row_key row) (im_id_field im) (jget rec (im_id_field im)) in
          (case dget on_file (source_key rec) of
             Some prior \<Rightarrow>
               let diff = conflicting_fields prior rec (im_names im) in
               if diff \<noteq> []
               then import_loop im (Suc i) rows on_file added
                      (res\<lparr>ir_refused := ir_refused res + 1, ir_rows := ir_rows res @ [receipt CONFLICT (im_conflict im) diff]\<rparr>)
               else import_loop im (Suc i) rows on_file added
                      (res\<lparr>ir_duplicate := ir_duplicate res + 1, ir_rows := ir_rows res @ [receipt DUPLICATE_NOOP [] []]\<rparr>)
           | None \<Rightarrow>
               import_loop im (Suc i) rows (dput (source_key rec) rec on_file) (added @ [rec])
                 (res\<lparr>ir_written := ir_written res + 1, ir_rows := ir_rows res @ [receipt NEW [] []]\<rparr>)))"

text \<open>\<open>{r.get("source_bet_key"): r for r in rows}\<close>; a list or an object is no key.\<close>

definition keyed_rows :: "jobj list \<Rightarrow> (json, jobj) dict result" where
  "keyed_rows rows =
     (if list_all (\<lambda>r. hashable (source_key r)) rows
      then Inr (fold (\<lambda>r. dput (canon (source_key r)) r) rows []) else Inl TypeError)"

definition read_keyed :: "(string \<Rightarrow> json option) \<Rightarrow> string \<Rightarrow> (json, jobj) dict result" where
  "read_keyed decode text = rbind (read_jsonl decode (py_splitlines text)) keyed_rows"

definition admit_wager :: "ledger_spec \<Rightarrow> string option \<Rightarrow> json \<Rightarrow> string + jobj" where
  "admit_wager spec batch row =
     (if (case (batch, row) of (Some b, JObj ob) \<Rightarrow> jget ob ''import_batch_id'' \<noteq> JStr b | _ \<Rightarrow> False)
      then Inl ''row import_batch_id disagrees with the payload envelope'' else build_wager spec row)"

definition wager_importer :: "ledger_spec \<Rightarrow> string option \<Rightarrow> importer" where
  "wager_importer spec batch =
     \<lparr>im_admit = admit_wager spec batch, im_id_field = ''wager_id'', im_names = WAGER_CANONICAL_FIELDS,
      im_conflict = ''this order is already on the ledger with different economics; an existing row is never rewritten''\<rparr>"

definition plan_wagers ::
  "(string \<Rightarrow> json option) \<Rightarrow> ledger_spec \<Rightarrow> string \<Rightarrow> json list \<Rightarrow> string option \<Rightarrow> (jobj list \<times> import_result) result" where
  "plan_wagers decode spec text rows batch =
     rbind (read_keyed decode text) (\<lambda>on_file. Inr (import_loop (wager_importer spec batch) 0 rows on_file [] empty_result))"

definition import_wagers ::
  "(string \<Rightarrow> json option) \<Rightarrow> ledger_spec \<Rightarrow> string \<Rightarrow> json list \<Rightarrow> string option \<Rightarrow> (import_result \<times> string) result" where
  "import_wagers decode spec text rows batch =
     rbind (plan_wagers decode spec text rows batch) (\<lambda>(added, res). Inr (res, append_lines text added))"

definition admit_settlement :: "ledger_spec \<Rightarrow> (json, jobj) dict \<Rightarrow> json \<Rightarrow> string + jobj" where
  "admit_settlement spec wagers row = rbind (build_settlement spec row) (\<lambda>rec.
     case dget wagers (source_key rec) of
       None \<Rightarrow> Inl (''ORPHAN: no wager with this source_bet_key is on the '' @ ls_sport spec @ '' wager ledger'')
     | Some wager \<Rightarrow>
         if \<not> py_eq (jget wager ''market_ticker'') (jget rec ''market_ticker'') \<or> \<not> py_eq (jget wager ''side'') (jget rec ''side'')
         then Inl ''settlement market/side disagree with the wager it settles'' else Inr rec)"

definition settlement_importer :: "ledger_spec \<Rightarrow> (json, jobj) dict \<Rightarrow> importer" where
  "settlement_importer spec wagers =
     \<lparr>im_admit = admit_settlement spec wagers, im_id_field = ''settlement_id'', im_names = SETTLEMENT_CANONICAL_FIELDS,
      im_conflict = ''this wager already has a different settlement; a market settles once and an existing row is never rewritten''\<rparr>"

definition plan_settlements ::
  "(string \<Rightarrow> json option) \<Rightarrow> ledger_spec \<Rightarrow> string \<Rightarrow> string \<Rightarrow> json list \<Rightarrow> (jobj list \<times> import_result) result" where
  "plan_settlements decode spec wager_text text rows =
     rbind (read_keyed decode wager_text) (\<lambda>wagers.
     rbind (read_keyed decode text) (\<lambda>on_file. Inr (import_loop (settlement_importer spec wagers) 0 rows on_file [] empty_result)))"

definition import_settlements ::
  "(string \<Rightarrow> json option) \<Rightarrow> ledger_spec \<Rightarrow> string \<Rightarrow> string \<Rightarrow> json list \<Rightarrow> (import_result \<times> string) result" where
  "import_settlements decode spec wager_text text rows =
     rbind (plan_settlements decode spec wager_text text rows) (\<lambda>(added, res). Inr (res, append_lines text added))"

section \<open>The check of a whole ledger\<close>

fun check_lines ::
  "(string \<Rightarrow> json option) \<Rightarrow> (jobj \<Rightarrow> string list) \<Rightarrow> string list \<Rightarrow> string \<Rightarrow> nat \<Rightarrow> string list \<Rightarrow> json list
    \<Rightarrow> (string list \<times> jobj list) result" where
  "check_lines decode validator names rel i [] keys = Inr ([], [])"
| "check_lines decode validator names rel i (line # lines) keys =
     (let at_line = rel @ '' line '' @ show_nat i @ '': '';
          bad = (\<lambda>what. rbind (check_lines decode validator names rel (Suc i) lines keys) (\<lambda>(fs, rows).
            Inr ((at_line @ what) # fs, rows)))
      in if blank line then bad ''blank line''
      else case decode line of
        None \<Rightarrow> bad ''not JSON''
      | Some (JObj row) \<Rightarrow>
          let key = source_key row; unknown = sorted_set (filter (\<lambda>k. k \<notin> set names) (dkeys row)) in
          if \<not> hashable key then Inl TypeError
          else rbind (check_lines decode validator names rel (Suc i) lines (canon key # keys)) (\<lambda>(fs, rows).
            Inr (map (\<lambda>reason. at_line @ reason) (validator row)
                 @ problem (unknown \<noteq> []) (at_line @ ''unknown field(s) '' @ names_text unknown)
                 @ problem (canon key \<in> set keys) (at_line @ ''duplicate source_bet_key'') @ fs, row # rows))
      | Some _ \<Rightarrow> bad ''not an object'')"

definition wagers_rel :: "ledger_spec \<Rightarrow> string" where
  "wagers_rel spec = ls_ledger_dir spec @ ''/'' @ ls_wagers_file spec"

definition settlements_rel :: "ledger_spec \<Rightarrow> string" where
  "settlements_rel spec = ls_ledger_dir spec @ ''/'' @ ls_settlements_file spec"

definition appended_to :: "(string, string) dict \<Rightarrow> string \<Rightarrow> string \<Rightarrow> string list" where
  "appended_to base_texts rel text = (case dget base_texts rel of
       None \<Rightarrow> []
     | Some base \<Rightarrow> problem (\<not> starts_with text base) (rel @ '': not append-only against the base ref''))"

fun orphans :: "json list \<Rightarrow> nat \<Rightarrow> jobj list \<Rightarrow> string list" where
  "orphans wager_keys i [] = []"
| "orphans wager_keys i (s # ss) =
     problem (canon (source_key s) \<notin> set wager_keys)
       (''settlements row '' @ show_nat i @ '': ORPHAN settlement (no wager with its key)'')
     @ orphans wager_keys (Suc i) ss"

record ledger_check =
  lc_wagers :: nat
  lc_settlements :: nat
  lc_failures :: "string list"

definition lc_ok :: "ledger_check \<Rightarrow> bool" where
  "lc_ok k \<longleftrightarrow> lc_failures k = []"

definition validate_ledger ::
  "(string \<Rightarrow> json option) \<Rightarrow> ledger_spec \<Rightarrow> string \<Rightarrow> string \<Rightarrow> (string, string) dict \<Rightarrow> ledger_check result" where
  "validate_ledger decode spec wager_text stext base_texts =
     rbind (check_lines decode (validate_wager spec) (WAGER_INPUT_FIELDS @ [''wager_id'', ''schema_version'']) (wagers_rel spec) 1
              (py_splitlines wager_text) []) (\<lambda>(wager_failures, wagers).
     rbind (check_lines decode (validate_settlement spec) (SETTLEMENT_INPUT_FIELDS @ [''settlement_id'', ''schema_version''])
              (settlements_rel spec) 1 (py_splitlines stext) []) (\<lambda>(settlement_failures, settlements).
     Inr \<lparr>lc_wagers = length wagers, lc_settlements = length settlements,
          lc_failures = wager_failures @ appended_to base_texts (wagers_rel spec) wager_text
            @ settlement_failures @ appended_to base_texts (settlements_rel spec) stext
            @ orphans (map (\<lambda>w. canon (source_key w)) wagers) 1 settlements\<rparr>))"

section \<open>The command line\<close>

definition EXIT_OK :: int where "EXIT_OK = 0"
definition EXIT_REFUSED :: int where "EXIT_REFUSED = 1"
definition EXIT_BAD_INPUT :: int where "EXIT_BAD_INPUT = 2"

definition read_payload :: "json \<Rightarrow> string \<Rightarrow> (json \<times> json list) result" where
  "read_payload payload kind = (case payload of
       JObj ob \<Rightarrow>
         if kind = ''wagers'' then
           (case jget ob ''importBatchId'' of
              JStr b \<Rightarrow> if blank b then Inl ValueError
                else (case jget ob ''rows'' of JList rows \<Rightarrow> Inr (JStr b, rows) | _ \<Rightarrow> Inl ValueError)
            | _ \<Rightarrow> Inl ValueError)
         else
           (case (if ''settlements'' \<in> set (dkeys ob) then jget ob ''settlements'' else jget ob ''rows'') of
              JList rows \<Rightarrow> Inr (jget ob ''importBatchId'', rows)
            | _ \<Rightarrow> Inl ValueError)
     | _ \<Rightarrow> Inl ValueError)"

text \<open>\<open>run_import_cli\<close> from the text of its payload and of the two files: the exit status, the result, and the ledger's
  texts afterwards. What it does not catch is the left side.\<close>

definition run_import_cli ::
  "(string \<Rightarrow> json option) \<Rightarrow> ledger_spec \<Rightarrow> string \<Rightarrow> string \<Rightarrow> string \<Rightarrow> string
    \<Rightarrow> (int \<times> jobj option \<times> string \<times> string) result" where
  "run_import_cli decode spec kind payload wager_text stext =
     (case (case decode payload of
              None \<Rightarrow> Inl ValueError
            | Some v \<Rightarrow> rbind (read_payload v kind) (\<lambda>(batch, rows).
                if kind = ''wagers''
                then rbind (import_wagers decode spec wager_text rows (jstr batch)) (\<lambda>(res, text).
                       Inr (res, batch, text, stext))
                else rbind (import_settlements decode spec wager_text stext rows) (\<lambda>(res, text).
                       Inr (res, batch, wager_text, text)))) of
        Inl e \<Rightarrow> if e = ValueError then Inr (EXIT_BAD_INPUT, None, wager_text, stext) else Inl e
      | Inr (res, batch, w, s) \<Rightarrow>
          Inr (if conflicted res then EXIT_REFUSED else EXIT_OK, Some (import_receipts res kind batch), w, s))"

definition run_validate_cli ::
  "(string \<Rightarrow> json option) \<Rightarrow> ledger_spec \<Rightarrow> string \<Rightarrow> string \<Rightarrow> (string, string) dict \<Rightarrow> int result" where
  "run_validate_cli decode spec wager_text stext base_texts =
     rbind (validate_ledger decode spec wager_text stext base_texts) (\<lambda>k.
       Inr (if lc_ok k then EXIT_OK else EXIT_REFUSED))"

section \<open>Both imports file append-only\<close>

definition agrees :: "importer \<Rightarrow> jobj \<Rightarrow> jobj \<Rightarrow> bool" where
  "agrees im prior rec \<longleftrightarrow> conflicting_fields prior rec (im_names im) = []"

definition filings :: "importer \<Rightarrow> (json, jobj) dict \<Rightarrow> json list \<Rightarrow> jobj filing list" where
  "filings im = file_all (im_admit im) source_key (agrees im)"

lemma differs_refl [simp]: "\<not> differs v v"
  by (auto simp: differs_def MONEY_TOLERANCE_def flt.rnd_0 not_less flt.rnd_nonneg split: option.split)

lemma agrees_refl: "agrees im r r"
  by (simp add: agrees_def conflicting_fields_def)

interpretation routed: append_only "im_admit im" source_key "agrees im" for im
  by unfold_locales (rule agrees_refl)

fun is_present :: "'r filing \<Rightarrow> bool" where
  "is_present (Present _) = True"
| "is_present _ = False"

definition tallied :: "import_result \<Rightarrow> jobj filing list \<Rightarrow> import_result \<Rightarrow> bool" where
  "tallied res fs res' \<longleftrightarrow>
     ir_written res' = ir_written res + length (filed_rows fs)
     \<and> ir_duplicate res' = ir_duplicate res + length (filter is_present fs)
     \<and> ir_written res' + ir_duplicate res' + ir_refused res' = ir_written res + ir_duplicate res + ir_refused res + length fs
     \<and> length (ir_rows res') = length (ir_rows res) + length fs"

lemma import_loop_files:
  "\<exists>res'. import_loop im i rows on_file added res = (added @ filed_rows (filings im on_file rows), res')
    \<and> tallied res (filings im on_file rows) res'"
proof (induction rows arbitrary: i on_file added res)
  case (Cons row rows)
  let ?f = "file_one (im_admit im) source_key (agrees im) on_file row"
  have fs: "filings im on_file (row # rows) = ?f # filings im (put_filed source_key ?f on_file) rows"
    by (simp add: filings_def Let_def)
  show ?case
  proof (cases "im_admit im row")
    case (Inl why)
    then have f: "?f = Rejected why" by (simp add: file_one_def)
    let ?res = "res\<lparr>ir_refused := ir_refused res + 1,
        ir_rows := ir_rows res @ [row_receipt i (row_key row) (im_id_field im) JNull REFUSED why []]\<rparr>"
    obtain res' where "import_loop im (Suc i) rows on_file added ?res = (added @ filed_rows (filings im on_file rows), res')"
      "tallied ?res (filings im on_file rows) res'" using Cons by blast
    then show ?thesis unfolding fs f using Inl by (intro exI [where x = res']) (simp add: tallied_def)
  next
    case (Inr rec)
    let ?receipt = "row_receipt i (row_key row) (im_id_field im) (jget rec (im_id_field im))"
    show ?thesis
    proof (cases "dget on_file (source_key rec)")
      case None
      then have f: "?f = Filed rec" using Inr by (simp add: file_one_def)
      let ?on = "dput (source_key rec) rec on_file"
        and ?res = "res\<lparr>ir_written := ir_written res + 1, ir_rows := ir_rows res @ [?receipt NEW [] []]\<rparr>"
      obtain res' where "import_loop im (Suc i) rows ?on (added @ [rec]) ?res = ((added @ [rec]) @ filed_rows (filings im ?on rows), res')"
        "tallied ?res (filings im ?on rows) res'" using Cons by blast
      then show ?thesis unfolding fs f using Inr None by (intro exI [where x = res']) (simp add: tallied_def Let_def)
    next
      case (Some prior)
      show ?thesis
      proof (cases "agrees im prior rec")
        case True
        then have f: "?f = Present rec" using Inr Some by (simp add: file_one_def)
        let ?res = "res\<lparr>ir_duplicate := ir_duplicate res + 1, ir_rows := ir_rows res @ [?receipt DUPLICATE_NOOP [] []]\<rparr>"
        obtain res' where "import_loop im (Suc i) rows on_file added ?res = (added @ filed_rows (filings im on_file rows), res')"
          "tallied ?res (filings im on_file rows) res'" using Cons by blast
        then show ?thesis unfolding fs f using Inr Some True
          by (intro exI [where x = res']) (simp add: tallied_def Let_def agrees_def)
      next
        case False
        then have f: "?f = Clash prior rec" using Inr Some by (simp add: file_one_def)
        let ?res = "res\<lparr>ir_refused := ir_refused res + 1, ir_rows := ir_rows res
            @ [?receipt CONFLICT (im_conflict im) (conflicting_fields prior rec (im_names im))]\<rparr>"
        obtain res' where "import_loop im (Suc i) rows on_file added ?res = (added @ filed_rows (filings im on_file rows), res')"
          "tallied ?res (filings im on_file rows) res'" using Cons by blast
        then show ?thesis unfolding fs f using Inr Some False
          by (intro exI [where x = res']) (simp add: tallied_def Let_def agrees_def)
      qed
    qed
  qed
qed (simp add: filings_def tallied_def)

section \<open>What an admitted row is\<close>

lemma checks_of_sorted_json [simp]:
  "nonempty (sorted_json v) = nonempty v" "aware_ts (sorted_json v) = aware_ts v" "mint prefix (sorted_json v) = mint prefix v"
  "(case sorted_json v of JStr s \<Rightarrow> f s | _ \<Rightarrow> d) = (case v of JStr s \<Rightarrow> f s | _ \<Rightarrow> d)"
  "hashable (sorted_json v) = hashable v"
  by (cases v; simp add: nonempty_def aware_ts_def mint_def hashable_def)+

lemma comparisons_of_sorted_json [simp]:
  "number_is test (sorted_json v) = number_is test v" "is_text (sorted_json v) = is_text v"
  "differs (sorted_json v) w = differs v w"
  by (simp_all add: number_is_def is_text_def differs_def py_eq_def split: option.split)

lemma stake_disagrees_sorted [simp]:
  "stake_disagrees (sorted_json c) (sorted_json px) (sorted_json st) (sorted_json fee) = stake_disagrees c px st fee"
  by (simp add: stake_disagrees_def)

lemma listed_sorted [simp]:
  "(case sorted_json v of JList rs \<Rightarrow> if list_all is_text rs then Some rs else None | _ \<Rightarrow> None) =
     (case v of JList rs \<Rightarrow> if list_all is_text rs then Some (map sorted_json rs) else None | _ \<Rightarrow> None)"
  by (cases v) (simp_all add: list_all_iff)

lemma problem_Nil [simp]: "problem wrong what = [] \<longleftrightarrow> \<not> wrong"
  by (simp add: problem_def)

lemma provenance_sorted [simp]: "provenance_fields (sorted_row r) = [] \<longleftrightarrow> provenance_fields r = []"
proof -
  have "provenance_fields r = [] \<longleftrightarrow> (\<forall>k \<in> set (dkeys r). \<not> is_provenance k)" for r
    by (auto simp: provenance_fields_def filter_empty_conv simp flip: set_empty)
  then show ?thesis by (simp only: dkeys_sorted_row)
qed

lemma validate_wager_sorted:
  assumes "distinct (dkeys r)" and "validate_wager spec r = []"
  shows "validate_wager spec (sorted_row r) = []"
  using assms(2)
  by (simp add: validate_wager_def wager_problems_head_def wager_problems_body_def jget_sorted_row [OF assms(1)] Let_def mint_wager_id_def
      split: sum.splits)

lemma validate_settlement_sorted:
  assumes "distinct (dkeys r)" and "validate_settlement spec r = []"
  shows "validate_settlement spec (sorted_row r) = []"
  using assms(2)
  by (simp add: validate_settlement_def settlement_problems_head_def settlement_problems_money_def
      jget_sorted_row [OF assms(1)] Let_def mint_settlement_id_def split: sum.splits json.splits if_splits) auto

definition record_ok :: "(jobj \<Rightarrow> string list) \<Rightarrow> string list \<Rightarrow> jobj \<Rightarrow> bool" where
  "record_ok validator names r \<longleftrightarrow> distinct (dkeys r) \<and> set (dkeys r) \<subseteq> set names \<and> validator r = [] \<and> validator (sorted_row r) = []
     \<and> (\<exists>s. source_key r = JStr s)"

definition WAGER_NAMES :: "string list" where "WAGER_NAMES = WAGER_INPUT_FIELDS @ [''wager_id'', ''schema_version'']"
definition SETTLEMENT_NAMES :: "string list" where
  "SETTLEMENT_NAMES = SETTLEMENT_INPUT_FIELDS @ [''settlement_id'', ''schema_version'']"

lemma dkeys_pairs: "map fst (map (\<lambda>k. (k, f k)) ks) = ks"
  by (simp add: comp_def)

lemma distinct_fields: "distinct WAGER_INPUT_FIELDS" "distinct SETTLEMENT_INPUT_FIELDS"
  by code_simp+

lemma nonempty_text: "nonempty v \<Longrightarrow> \<exists>s. v = JStr s"
  by (simp add: nonempty_def split: json.splits)

lemma build_wager_ok:
  assumes "build_wager spec row = Inr r"
  shows "record_ok (validate_wager spec) WAGER_NAMES r"
proof -
  from assms obtain ob wager_id price kept where
    r: "r = dput ''schema_version'' (JStr (ls_wager_schema spec)) (dput ''wager_id'' (JStr wager_id) (dput ''execution_price'' price kept))"
    and kept: "kept = map (\<lambda>k. (k, jget ob k)) (filter (\<lambda>k. k \<in> set (dkeys ob) \<and> k \<noteq> ''actual_price'') WAGER_INPUT_FIELDS)"
    and ok: "validate_wager spec r = []"
    by (auto simp: build_wager_def Let_def result_simps split: json.splits if_splits)
  have "distinct (dkeys kept)" unfolding kept dkeys_pairs using distinct_fields by simp
  then have d: "distinct (dkeys r)" unfolding r by (intro distinct_dput)
  have "set (dkeys kept) \<subseteq> set WAGER_INPUT_FIELDS" unfolding kept dkeys_pairs by auto
  then have n: "set (dkeys r) \<subseteq> set WAGER_NAMES"
    unfolding r by (auto simp: WAGER_NAMES_def) (simp add: WAGER_INPUT_FIELDS_def)
  have "nonempty (source_key r)" using ok by (simp add: validate_wager_def wager_problems_head_def Let_def source_key_def)
  then show ?thesis using d n ok validate_wager_sorted [OF d ok] nonempty_text by (simp add: record_ok_def)
qed

lemma admit_wager_ok: "admit_wager spec batch row = Inr r \<Longrightarrow> record_ok (validate_wager spec) WAGER_NAMES r"
  by (auto simp: admit_wager_def build_wager_ok split: if_splits)

lemma build_settlement_ok:
  assumes "build_settlement spec row = Inr r"
  shows "record_ok (validate_settlement spec) SETTLEMENT_NAMES r"
proof -
  from assms obtain ob settlement_id where
    r: "r = dput ''schema_version'' (JStr (ls_settlement_schema spec)) (dput ''settlement_id'' (JStr settlement_id)
         (map (\<lambda>k. (k, jget ob k)) SETTLEMENT_INPUT_FIELDS))"
    and ok: "validate_settlement spec r = []"
    by (auto simp: build_settlement_def Let_def result_simps split: json.splits if_splits)
  have "distinct (dkeys (map (\<lambda>k. (k, jget ob k)) SETTLEMENT_INPUT_FIELDS))" unfolding dkeys_pairs by (rule distinct_fields)
  then have d: "distinct (dkeys r)" unfolding r by (intro distinct_dput)
  have n: "set (dkeys r) \<subseteq> set SETTLEMENT_NAMES"
    unfolding r by (auto simp: SETTLEMENT_NAMES_def)
  have "nonempty (source_key r)"
    using ok by (simp add: validate_settlement_def settlement_problems_head_def Let_def source_key_def)
  then show ?thesis using d n ok validate_settlement_sorted [OF d ok] nonempty_text by (simp add: record_ok_def)
qed

lemma admit_settlement_ok:
  "admit_settlement spec wagers row = Inr r \<Longrightarrow> record_ok (validate_settlement spec) SETTLEMENT_NAMES r
    \<and> dget wagers (source_key r) \<noteq> None"
  by (auto simp: admit_settlement_def result_simps build_settlement_ok split: option.splits if_splits)

section \<open>The ledger after an import\<close>

lemma append_lines_whole: "whole_lines text \<Longrightarrow> append_lines text recs = text @ concat (map json_line recs)"
  by (auto simp: append_lines_def whole_lines_def)

lemma append_lines_split:
  "whole_lines text \<Longrightarrow> py_splitlines (append_lines text recs) = py_splitlines text @ map (\<lambda>r. json_dump (JObj r)) recs"
  by (simp add: append_lines_whole splitlines_append json_lines_split)

lemma read_jsonl_append:
  "read_jsonl decode (xs @ ys) = rbind (read_jsonl decode xs) (\<lambda>rows. rbind (read_jsonl decode ys) (\<lambda>rows'. Inr (rows @ rows')))"
proof (induction xs)
  case Nil
  then show ?case by (cases "read_jsonl decode ys") simp_all
qed (auto simp: rbind_assoc split: option.split json.split)

lemma read_jsonl_written:
  "\<forall>r \<in> set rs. reads_back decode r \<Longrightarrow> read_jsonl decode (map (\<lambda>r. json_dump (JObj r)) rs) = Inr (map sorted_row rs)"
proof (induction rs)
  case (Cons r rs)
  then show ?case using json_dump_not_blank [of r] by (simp add: reads_back_def del: json_dump.simps)
qed simp

lemma read_appended:
  assumes "whole_lines text" and "\<forall>r \<in> set rs. reads_back decode r" and "read_jsonl decode (py_splitlines text) = Inr rows"
  shows "read_jsonl decode (py_splitlines (append_lines text rs)) = Inr (rows @ map sorted_row rs)"
  using assms by (simp add: append_lines_split read_jsonl_append read_jsonl_written del: json_dump.simps)

lemma dget_fold_dput:
  "distinct (map key rs) \<Longrightarrow>
    (\<forall>r \<in> set rs. dget (fold (\<lambda>r. dput (key r) r) rs d) (key r) = Some r)
    \<and> (\<forall>k. k \<notin> key ` set rs \<longrightarrow> dget (fold (\<lambda>r. dput (key r) r) rs d) k = dget d k)"
  by (induction rs arbitrary: d) (auto simp: image_iff)

lemma source_key_sorted: "record_ok validator names r \<Longrightarrow> source_key (sorted_row r) = source_key r"
  by (auto simp: record_ok_def source_key_def jget_sorted_row)

text \<open>The rows a batch files, read back with the rest, are where the batch finds them the next time.\<close>

lemma read_keyed_appended:
  assumes whole: "whole_lines text" and on: "read_keyed decode text = Inr on_file"
    and ok: "\<forall>r \<in> set rs. reads_back decode r \<and> record_ok validator names r" and apart: "distinct (map source_key rs)"
  shows "\<exists>later. read_keyed decode (append_lines text rs) = Inr later
    \<and> (\<forall>r \<in> set rs. dget later (source_key r) = Some (sorted_row r))
    \<and> (\<forall>k. k \<notin> source_key ` set rs \<longrightarrow> dget later k = dget on_file k)"
proof -
  obtain rows where rows: "read_jsonl decode (py_splitlines text) = Inr rows" and keyed: "keyed_rows rows = Inr on_file"
    using on by (auto simp: read_keyed_def result_simps)
  then have hash: "list_all (\<lambda>r. hashable (source_key r)) rows"
    and on_file: "on_file = fold (\<lambda>r. dput (canon (source_key r)) r) rows []"
    by (auto simp: keyed_rows_def split: if_splits)
  have keys: "source_key (sorted_row r) = source_key r" "canon (source_key r) = source_key r" "hashable (source_key r)"
    if "r \<in> set rs" for r
    using ok that source_key_sorted [of validator names r] by (auto simp: record_ok_def hashable_def)
  let ?new = "map sorted_row rs"
  let ?later = "fold (\<lambda>r. dput (canon (source_key r)) r) ?new on_file"
  have new_keys: "map (\<lambda>r. canon (source_key r)) ?new = map source_key rs" using keys by simp
  have "read_keyed decode (append_lines text rs) = Inr ?later"
    using read_appended [OF whole _ rows, of rs] ok hash keys on_file
    by (auto simp: read_keyed_def keyed_rows_def list_all_iff)
  moreover have "(\<forall>r \<in> set ?new. dget ?later (canon (source_key r)) = Some r)
      \<and> (\<forall>k. k \<notin> (\<lambda>r. canon (source_key r)) ` set ?new \<longrightarrow> dget ?later k = dget on_file k)"
    by (rule dget_fold_dput) (simp only: new_keys apart)
  ultimately show ?thesis using keys by (auto simp: image_iff)
qed

lemma filings_again:
  assumes whole: "whole_lines text" and on: "read_keyed decode text = Inr on_file"
    and adm: "\<And>row r. im_admit im row = Inr r \<Longrightarrow> record_ok validator names r"
    and backs: "\<forall>r \<in> set (filed_rows (filings im on_file rows)). reads_back decode r"
  shows "\<exists>later. read_keyed decode (append_lines text (filed_rows (filings im on_file rows))) = Inr later
    \<and> list_all2 repeated (filings im on_file rows) (filings im later rows)"
proof -
  let ?rs = "filed_rows (filings im on_file rows)"
  have ok: "record_ok validator names r \<and> dget on_file (source_key r) = None" if "r \<in> set ?rs" for r
    using that routed.filed_from [of r im on_file rows] adm by (auto simp: in_filed_rows filings_def)
  have apart: "distinct (map source_key ?rs)" unfolding filings_def by (rule routed.filed_distinct)
  obtain later where later: "read_keyed decode (append_lines text ?rs) = Inr later"
    and new: "\<forall>r \<in> set ?rs. dget later (source_key r) = Some (sorted_row r)"
    and old: "\<forall>k. k \<notin> source_key ` set ?rs \<longrightarrow> dget later k = dget on_file k"
    using read_keyed_appended [OF whole on _ apart, of validator names] backs ok by blast
  have alike: "routed.alike im r (sorted_row r)" if "r \<in> set ?rs" for r
    using ok [OF that] by (simp add: routed.alike_def agrees_def conflicting_fields_def record_ok_def jget_sorted_row)
  have "routed.kept im on_file later"
    unfolding routed.kept_def
  proof (intro allI impI)
    fix k p
    assume k: "dget on_file k = Some p"
    then have "k \<notin> source_key ` set ?rs" using ok by fastforce
    then show "\<exists>p'. dget later k = Some p' \<and> routed.alike im p p'" using old k by (auto simp: routed.alike_def)
  qed
  then have "list_all2 repeated (filings im on_file rows) (filings im later rows)"
    unfolding filings_def
    by (rule routed.file_again) (use new alike in \<open>auto simp: in_filed_rows filings_def\<close>)
  then show ?thesis using later by blast
qed

lemma repeated_counts:
  "list_all2 repeated fs gs \<Longrightarrow> filed_rows gs = [] \<and> length gs = length fs
    \<and> length (filter is_present gs) = length (filter is_present fs) + length (filed_rows fs)"
proof (induction rule: list_all2_induct)
  case (Cons f fs g gs)
  then show ?case by (cases f; cases g) auto
qed simp

lemma plan_wagers_files:
  assumes "plan_wagers decode spec text rows batch = Inr (added, res)"
  obtains on_file where "read_keyed decode text = Inr on_file" and "added = filed_rows (filings (wager_importer spec batch) on_file rows)"
    and "tallied empty_result (filings (wager_importer spec batch) on_file rows) res"
proof -
  obtain on_file where on: "read_keyed decode text = Inr on_file"
    and run: "import_loop (wager_importer spec batch) 0 rows on_file [] empty_result = (added, res)"
    using assms by (auto simp: plan_wagers_def result_simps)
  show thesis
    using import_loop_files [of "wager_importer spec batch" 0 rows on_file "[]" empty_result] run by (intro that [OF on]) auto
qed

lemma plan_settlements_files:
  assumes "plan_settlements decode spec wager_text text rows = Inr (added, res)"
  obtains wagers on_file where "read_keyed decode wager_text = Inr wagers" and "read_keyed decode text = Inr on_file"
    and "added = filed_rows (filings (settlement_importer spec wagers) on_file rows)"
    and "tallied empty_result (filings (settlement_importer spec wagers) on_file rows) res"
proof -
  obtain wagers on_file where on: "read_keyed decode wager_text = Inr wagers" "read_keyed decode text = Inr on_file"
    and run: "import_loop (settlement_importer spec wagers) 0 rows on_file [] empty_result = (added, res)"
    using assms by (auto simp: plan_settlements_def result_simps)
  show thesis
    using import_loop_files [of "settlement_importer spec wagers" 0 rows on_file "[]" empty_result] run by (intro that [OF on]) auto
qed

lemma importer_simps [simp]:
  "im_admit (wager_importer spec batch) = admit_wager spec batch"
  "im_admit (settlement_importer spec wagers) = admit_settlement spec wagers"
  by (simp_all add: wager_importer_def settlement_importer_def)

lemma tallied_again:
  assumes "list_all2 repeated fs gs" and "tallied empty_result fs res" and "tallied empty_result gs res2"
  shows "ir_written res2 = 0 \<and> ir_duplicate res2 = ir_duplicate res + ir_written res \<and> ir_refused res2 = ir_refused res"
  using assms repeated_counts [OF assms(1)] by (simp add: tallied_def empty_result_def)

text \<open>Importing settlements again files nothing either.\<close>

theorem second_settlement_import_files_nothing:
  assumes run: "plan_settlements decode spec wager_text text rows = Inr (added, res)" and whole: "whole_lines text"
    and backs: "\<forall>r \<in> set added. reads_back decode r"
  shows "\<exists>res2. import_settlements decode spec wager_text (append_lines text added) rows = Inr (res2, append_lines text added)
    \<and> ir_written res2 = 0 \<and> ir_duplicate res2 = ir_duplicate res + ir_written res \<and> ir_refused res2 = ir_refused res"
proof -
  obtain wagers on_file where f: "read_keyed decode wager_text = Inr wagers" "read_keyed decode text = Inr on_file"
    "added = filed_rows (filings (settlement_importer spec wagers) on_file rows)"
    "tallied empty_result (filings (settlement_importer spec wagers) on_file rows) res"
    using run by (rule plan_settlements_files)
  let ?im = "settlement_importer spec wagers"
  have "\<exists>later. read_keyed decode (append_lines text added) = Inr later \<and> list_all2 repeated (filings ?im on_file rows) (filings ?im later rows)"
    unfolding f(3) by (rule filings_again [OF whole f(2), where validator = "validate_settlement spec" and names = SETTLEMENT_NAMES])
      (use backs f(3) admit_settlement_ok in auto)
  then obtain later where later: "read_keyed decode (append_lines text added) = Inr later"
    and again: "list_all2 repeated (filings ?im on_file rows) (filings ?im later rows)" by blast
  obtain res2 where "import_loop ?im 0 rows later [] empty_result = ([], res2)" "tallied empty_result (filings ?im later rows) res2"
    using import_loop_files [of ?im 0 rows later "[]" empty_result] repeated_counts [OF again] by auto
  then show ?thesis using tallied_again [OF again f(4)] f(1) later
    by (auto simp: import_settlements_def plan_settlements_def append_lines_def)
qed

text \<open>Importing is idempotent. A batch of wagers that was imported leaves a ledger whose lines read back as the old
  rows followed by the records filed, in order; importing the same batch into it files nothing, leaves the file as it is,
  answers DUPLICATE_NOOP to every row that was NEW or DUPLICATE_NOOP, and refuses what it refused before. The ledger's
  text ends its lines and the JSON decoder reads back what was written.\<close>

theorem second_import_files_nothing:
  assumes run: "plan_wagers decode spec text rows batch = Inr (added, res)" and whole: "whole_lines text"
    and backs: "\<forall>r \<in> set added. reads_back decode r"
  shows "\<exists>old res2. import_wagers decode spec text rows batch = Inr (res, append_lines text added)
    \<and> read_jsonl decode (py_splitlines text) = Inr old
    \<and> read_jsonl decode (py_splitlines (append_lines text added)) = Inr (old @ map sorted_row added)
    \<and> import_wagers decode spec (append_lines text added) rows batch = Inr (res2, append_lines text added)
    \<and> ir_written res = length added \<and> ir_written res2 = 0
    \<and> ir_duplicate res2 = ir_duplicate res + ir_written res \<and> ir_refused res2 = ir_refused res"
proof -
  obtain on_file where f: "read_keyed decode text = Inr on_file" "added = filed_rows (filings (wager_importer spec batch) on_file rows)"
    "tallied empty_result (filings (wager_importer spec batch) on_file rows) res"
    using run by (rule plan_wagers_files)
  let ?im = "wager_importer spec batch"
  obtain old where old: "read_jsonl decode (py_splitlines text) = Inr old" using f(1) by (auto simp: read_keyed_def result_simps)
  have "\<exists>later. read_keyed decode (append_lines text added) = Inr later \<and> list_all2 repeated (filings ?im on_file rows) (filings ?im later rows)"
    unfolding f(2) by (rule filings_again [OF whole f(1), where validator = "validate_wager spec" and names = WAGER_NAMES])
      (use backs f(2) admit_wager_ok in auto)
  then obtain later where later: "read_keyed decode (append_lines text added) = Inr later"
    and again: "list_all2 repeated (filings ?im on_file rows) (filings ?im later rows)" by blast
  obtain res2 where "import_loop ?im 0 rows later [] empty_result = ([], res2)" "tallied empty_result (filings ?im later rows) res2"
    using import_loop_files [of ?im 0 rows later "[]" empty_result] repeated_counts [OF again] by auto
  moreover have "ir_written res = length added" using f(2,3) by (simp add: tallied_def empty_result_def)
  moreover have "import_wagers decode spec text rows batch = Inr (res, append_lines text added)"
    using run by (simp add: import_wagers_def)
  ultimately show ?thesis using tallied_again [OF again f(3)] later old read_appended [OF whole backs old]
    by (auto simp: import_wagers_def plan_wagers_def append_lines_def)
qed

section \<open>A valid ledger stays valid\<close>

definition key_trail :: "jobj list \<Rightarrow> json list \<Rightarrow> json list" where
  "key_trail rows keys = rev (map (\<lambda>r. canon (source_key r)) rows) @ keys"

text \<open>The lines that pass the check are the lines that read as rows; what follows them is checked against their keys.\<close>

lemma check_lines_clean:
  assumes "check_lines decode validator names rel i xs keys = Inr ([], rows)"
  shows "read_jsonl decode xs = Inr rows
    \<and> check_lines decode validator names rel i (xs @ ys) keys =
        rbind (check_lines decode validator names rel (i + length xs) ys (key_trail rows keys)) (\<lambda>(fs, rs). Inr (fs, rows @ rs))"
  using assms
proof (induction xs arbitrary: i keys rows)
  case Nil
  then show ?case by (cases "check_lines decode validator names rel i ys keys") (auto simp: key_trail_def)
next
  case (Cons line xs)
  from Cons.prems obtain row where row: "\<not> blank line" "decode line = Some (JObj row)" "hashable (source_key row)"
    by (auto simp: Let_def result_simps split: if_splits option.splits json.splits)
  then obtain rest where rest: "check_lines decode validator names rel (Suc i) xs (canon (source_key row) # keys) = Inr ([], rest)"
    and clean: "validator row = []" "sorted_set (filter (\<lambda>k. k \<notin> set names) (dkeys row)) = []" "canon (source_key row) \<notin> set keys"
    and rows: "rows = row # rest"
    using Cons.prems by (auto simp: Let_def result_simps split: if_splits)
  note IH = Cons.IH [OF rest]
  have trail: "key_trail rest (canon (source_key row) # keys) = key_trail rows keys" by (simp add: key_trail_def rows)
  show ?case
    using IH row clean rows trail by (simp add: Let_def rbind_assoc comp_def split_def problem_def)
qed

lemma check_lines_written:
  assumes "\<forall>r \<in> set rs. reads_back decode r \<and> record_ok validator names r" and "distinct (map source_key rs)"
    and "\<forall>r \<in> set rs. source_key r \<notin> set keys"
  shows "check_lines decode validator names rel i (map (\<lambda>r. json_dump (JObj r)) rs) keys = Inr ([], map sorted_row rs)"
  using assms
proof (induction rs arbitrary: i keys)
  case (Cons r rs)
  have ok: "record_ok validator names r" "reads_back decode r" using Cons.prems(1) by simp_all
  obtain s where s: "source_key r = JStr s" using ok by (auto simp: record_ok_def)
  have key: "source_key (sorted_row r) = JStr s" using source_key_sorted [OF ok(1)] s by simp
  have none: "filter (\<lambda>k. k \<notin> set names) (dkeys (sorted_row r)) = []"
    using ok(1) dkeys_sorted_row [of r] by (auto simp: record_ok_def filter_empty_conv)
  have "check_lines decode validator names rel (Suc i) (map (\<lambda>r. json_dump (JObj r)) rs) (JStr s # keys) = Inr ([], map sorted_row rs)"
    using Cons.prems s by (intro Cons.IH) (auto simp: image_iff)
  then show ?case
    using ok none key s Cons.prems(3) json_dump_not_blank [of r]
    by (simp add: Let_def reads_back_def record_ok_def hashable_def del: json_dump.simps)
qed simp

lemma keys_on_file:
  "dget (fold (\<lambda>r. dput (canon (source_key r)) r) rows d) k = None \<longleftrightarrow> dget d k = None \<and> k \<notin> (\<lambda>r. canon (source_key r)) ` set rows"
  by (induction rows arbitrary: d) auto

text \<open>One file of the ledger, extended by records of keys it does not hold.\<close>

lemma check_extended:
  assumes clean: "check_lines decode validator names rel 1 (py_splitlines text) [] = Inr ([], old)" and whole: "whole_lines text"
    and on_file: "read_keyed decode text = Inr on_file"
    and ok: "\<forall>r \<in> set rs. reads_back decode r \<and> record_ok validator names r \<and> dget on_file (source_key r) = None"
    and apart: "distinct (map source_key rs)"
  shows "check_lines decode validator names rel 1 (py_splitlines (append_lines text rs)) [] = Inr ([], old @ map sorted_row rs)"
proof -
  note c = check_lines_clean [OF clean]
  have fold: "on_file = fold (\<lambda>r. dput (canon (source_key r)) r) old []"
    using on_file c by (auto simp: read_keyed_def keyed_rows_def result_simps split: if_splits)
  have "source_key r \<notin> set (key_trail old [])" if "r \<in> set rs" for r
    using ok that keys_on_file [of old "[]" "source_key r"] by (auto simp: fold key_trail_def)
  then have "check_lines decode validator names rel (1 + length (py_splitlines text)) (map (\<lambda>r. json_dump (JObj r)) rs) (key_trail old [])
      = Inr ([], map sorted_row rs)"
    using ok apart by (intro check_lines_written) auto
  then show ?thesis unfolding append_lines_split [OF whole] using c by (simp del: json_dump.simps)
qed

lemma orphans_none: "orphans keys i ss = [] \<longleftrightarrow> (\<forall>s \<in> set ss. canon (source_key s) \<in> set keys)"
  by (induction ss arbitrary: i) auto

lemma validate_ledger_clean:
  "(\<exists>k. validate_ledger decode spec wtext stext base = Inr k \<and> lc_ok k \<and> lc_wagers k = w \<and> lc_settlements k = s) \<longleftrightarrow>
     (\<exists>wagers settlements.
        check_lines decode (validate_wager spec) WAGER_NAMES (wagers_rel spec) 1 (py_splitlines wtext) [] = Inr ([], wagers)
        \<and> check_lines decode (validate_settlement spec) SETTLEMENT_NAMES (settlements_rel spec) 1 (py_splitlines stext) []
            = Inr ([], settlements)
        \<and> appended_to base (wagers_rel spec) wtext = [] \<and> appended_to base (settlements_rel spec) stext = []
        \<and> (\<forall>r \<in> set settlements. canon (source_key r) \<in> (\<lambda>r. canon (source_key r)) ` set wagers)
        \<and> w = length wagers \<and> s = length settlements)"
  unfolding validate_ledger_def WAGER_NAMES_def [symmetric] SETTLEMENT_NAMES_def [symmetric] lc_ok_def
  by (auto simp: result_simps orphans_none split: prod.splits)

definition valid_ledger :: "(string \<Rightarrow> json option) \<Rightarrow> ledger_spec \<Rightarrow> string \<Rightarrow> string \<Rightarrow> (string, string) dict \<Rightarrow> nat \<Rightarrow> nat \<Rightarrow> bool" where
  "valid_ledger decode spec wtext stext base w s \<longleftrightarrow> whole_lines wtext \<and> whole_lines stext
     \<and> (\<exists>k. validate_ledger decode spec wtext stext base = Inr k \<and> lc_ok k \<and> lc_wagers k = w \<and> lc_settlements k = s)"

lemma filed_ok:
  assumes "r \<in> set (filed_rows (filings im on_file rows))" and "\<And>row r. im_admit im row = Inr r \<Longrightarrow> P r"
  shows "P r \<and> dget on_file (source_key r) = None"
  using assms routed.filed_from [of r im on_file rows] by (auto simp: in_filed_rows filings_def)

lemma appended_to_self: "wagers_rel spec \<noteq> settlements_rel spec \<Longrightarrow> whole_lines text \<Longrightarrow>
    appended_to [(rel, text)] rel (append_lines text rs) = []"
  by (simp add: appended_to_def append_lines_whole)

lemma wagers_extended:
  assumes valid: "valid_ledger decode spec wtext stext base w s" and two: "wagers_rel spec \<noteq> settlements_rel spec"
    and run: "plan_wagers decode spec wtext rows batch = Inr (added, res)" and backs: "\<forall>r \<in> set added. reads_back decode r"
  shows "valid_ledger decode spec (append_lines wtext added) stext [(wagers_rel spec, wtext)] (w + ir_written res) s"
proof -
  obtain wagers settlements where c:
    "check_lines decode (validate_wager spec) WAGER_NAMES (wagers_rel spec) 1 (py_splitlines wtext) [] = Inr ([], wagers)"
    "check_lines decode (validate_settlement spec) SETTLEMENT_NAMES (settlements_rel spec) 1 (py_splitlines stext) [] = Inr ([], settlements)"
    "\<forall>r \<in> set settlements. canon (source_key r) \<in> (\<lambda>r. canon (source_key r)) ` set wagers"
    "w = length wagers" "s = length settlements" and whole: "whole_lines wtext" "whole_lines stext"
    using valid by (auto simp: valid_ledger_def validate_ledger_clean)
  obtain on_file where f: "read_keyed decode wtext = Inr on_file" "added = filed_rows (filings (wager_importer spec batch) on_file rows)"
    "tallied empty_result (filings (wager_importer spec batch) on_file rows) res"
    using run by (rule plan_wagers_files)
  have ok: "record_ok (validate_wager spec) WAGER_NAMES r \<and> dget on_file (source_key r) = None" if "r \<in> set added" for r
    using that unfolding f(2) by (rule filed_ok) (simp add: admit_wager_ok)
  have "distinct (map source_key added)" unfolding f(2) filings_def by (rule routed.filed_distinct)
  then have "check_lines decode (validate_wager spec) WAGER_NAMES (wagers_rel spec) 1 (py_splitlines (append_lines wtext added)) []
      = Inr ([], wagers @ map sorted_row added)"
    using ok backs by (intro check_extended [OF c(1) whole(1) f(1)]) auto
  moreover have "ir_written res = length added" using f(2,3) by (simp add: tallied_def empty_result_def)
  moreover have "whole_lines (append_lines wtext added)" using whole by (simp add: append_lines_whole json_lines_whole)
  moreover have "appended_to [(wagers_rel spec, wtext)] (settlements_rel spec) stext = []" using two by (simp add: appended_to_def)
  ultimately show ?thesis using c whole appended_to_self [OF two whole(1)]
    unfolding valid_ledger_def validate_ledger_clean by auto
qed

lemma settlements_extended:
  assumes valid: "valid_ledger decode spec wtext stext base w s" and two: "wagers_rel spec \<noteq> settlements_rel spec"
    and run: "plan_settlements decode spec wtext stext rows = Inr (added, res)" and backs: "\<forall>r \<in> set added. reads_back decode r"
  shows "valid_ledger decode spec wtext (append_lines stext added) [(settlements_rel spec, stext)] w (s + ir_written res)"
proof -
  obtain wagers settlements where c:
    "check_lines decode (validate_wager spec) WAGER_NAMES (wagers_rel spec) 1 (py_splitlines wtext) [] = Inr ([], wagers)"
    "check_lines decode (validate_settlement spec) SETTLEMENT_NAMES (settlements_rel spec) 1 (py_splitlines stext) [] = Inr ([], settlements)"
    "\<forall>r \<in> set settlements. canon (source_key r) \<in> (\<lambda>r. canon (source_key r)) ` set wagers"
    "w = length wagers" "s = length settlements" and whole: "whole_lines wtext" "whole_lines stext"
    using valid by (auto simp: valid_ledger_def validate_ledger_clean)
  obtain on_wagers on_file where f: "read_keyed decode wtext = Inr on_wagers" "read_keyed decode stext = Inr on_file"
    "added = filed_rows (filings (settlement_importer spec on_wagers) on_file rows)"
    "tallied empty_result (filings (settlement_importer spec on_wagers) on_file rows) res"
    using run by (rule plan_settlements_files)
  have ok: "(record_ok (validate_settlement spec) SETTLEMENT_NAMES r \<and> dget on_wagers (source_key r) \<noteq> None) \<and> dget on_file (source_key r) = None"
    if "r \<in> set added" for r
    using that unfolding f(3) by (rule filed_ok) (auto dest: admit_settlement_ok)
  have "distinct (map source_key added)" unfolding f(3) filings_def by (rule routed.filed_distinct)
  then have "check_lines decode (validate_settlement spec) SETTLEMENT_NAMES (settlements_rel spec) 1
      (py_splitlines (append_lines stext added)) [] = Inr ([], settlements @ map sorted_row added)"
    using ok backs by (intro check_extended [OF c(2) whole(2) f(2)]) auto
  moreover have "canon (source_key (sorted_row r)) \<in> (\<lambda>r. canon (source_key r)) ` set wagers" if "r \<in> set added" for r
  proof -
    note r = ok [OF that]
    have "on_wagers = fold (\<lambda>r. dput (canon (source_key r)) r) wagers []"
      using f(1) check_lines_clean [OF c(1)] by (auto simp: read_keyed_def keyed_rows_def result_simps split: if_splits)
    then have "source_key r \<in> (\<lambda>r. canon (source_key r)) ` set wagers"
      using r keys_on_file [of wagers "[]" "source_key r"] by auto
    moreover obtain t where "source_key r = JStr t" using r by (auto simp: record_ok_def)
    moreover have "source_key (sorted_row r) = source_key r" using r source_key_sorted by blast
    ultimately show ?thesis by simp
  qed
  moreover have "ir_written res = length added" using f(3,4) by (simp add: tallied_def empty_result_def)
  moreover have "whole_lines (append_lines stext added)" using whole by (simp add: append_lines_whole json_lines_whole)
  moreover have "appended_to [(settlements_rel spec, stext)] (wagers_rel spec) wtext = []" using two by (simp add: appended_to_def)
  ultimately show ?thesis using c whole appended_to_self [OF two whole(2)]
    unfolding valid_ledger_def validate_ledger_clean by auto
qed

text \<open>C38: a valid ledger stays valid. Whatever rows an import of wagers is given, and whatever settlement rows the import that
  follows is given, the two files it leaves pass the whole check -- every line a record of the right shape with this
  ledger's id, no key twice, no settlement without its wager -- are append-only against the files it started from, and
  hold exactly as many more records as the imports say they wrote. The JSON decoder reads back what was written.\<close>

theorem valid_ledger_stays_valid:
  assumes valid: "valid_ledger decode spec wtext stext base w s" and two: "wagers_rel spec \<noteq> settlements_rel spec"
    and wagers: "plan_wagers decode spec wtext wrows batch = Inr (added, wres)"
    and settlements: "plan_settlements decode spec (append_lines wtext added) stext srows = Inr (settled, sres)"
    and backs: "\<forall>r \<in> set (added @ settled). reads_back decode r"
  shows "import_wagers decode spec wtext wrows batch = Inr (wres, append_lines wtext added)
    \<and> import_settlements decode spec (append_lines wtext added) stext srows = Inr (sres, append_lines stext settled)
    \<and> valid_ledger decode spec (append_lines wtext added) (append_lines stext settled)
        [(wagers_rel spec, wtext), (settlements_rel spec, stext)] (w + ir_written wres) (s + ir_written sres)"
proof -
  note first = wagers_extended [OF valid two wagers]
  have "valid_ledger decode spec (append_lines wtext added) (append_lines stext settled) [(settlements_rel spec, stext)]
      (w + ir_written wres) (s + ir_written sres)"
    using backs by (intro settlements_extended [OF first two settlements]) auto
  moreover have whole: "whole_lines wtext" "whole_lines stext" using valid by (auto simp: valid_ledger_def)
  moreover have "appended_to [(wagers_rel spec, wtext), (settlements_rel spec, stext)] (wagers_rel spec) (append_lines wtext added) = []"
    "appended_to [(wagers_rel spec, wtext), (settlements_rel spec, stext)] (settlements_rel spec) (append_lines stext settled) = []"
    using two whole by (simp_all add: appended_to_def append_lines_whole)
  ultimately show ?thesis using wagers settlements
    by (auto simp: valid_ledger_def validate_ledger_clean import_wagers_def import_settlements_def)
qed

section \<open>A concrete ledger\<close>

definition example_spec :: ledger_spec where
  "example_spec = \<lparr>ls_sport = ''NBA'', ls_id_prefix = ''nba'', ls_wager_schema = ''nba_routed_wager.v1'',
     ls_settlement_schema = ''nba_routed_settlement.v1'', ls_ledger_dir = ''ledger'', ls_wagers_file = ''wagers.jsonl'',
     ls_settlements_file = ''settlements.jsonl''\<rparr>"

definition example_wager_row :: jobj where
  "example_wager_row = [(''source_bet_key'', JStr ''kalshi:v1:ab''), (''import_batch_id'', JStr ''b1''),
     (''entry_method'', JStr ''IMPORTED_RECEIPT''), (''game_date'', JStr ''2026-01-05''), (''market_ticker'', JStr ''KXNBA''),
     (''side'', JStr ''YES''), (''executed_at'', JStr ''2026-01-05T20:00:00Z''), (''contracts'', JInt 10),
     (''execution_price'', JFloat (1 / 2)), (''stake'', JFloat (21 / 4)), (''fees_paid'', JFloat (1 / 4)),
     (''fees_are_estimated'', JBool False), (''venue'', JStr ''kalshi'')]"

definition example_wager :: jobj where
  "example_wager = example_wager_row
     @ [(''wager_id'', JStr (''nbaw-'' @ take 24 (sha256_hex ''kalshi:v1:ab''))), (''schema_version'', JStr ''nba_routed_wager.v1'')]"

definition example_settlement_row :: jobj where
  "example_settlement_row = [(''source_bet_key'', JStr ''kalshi:v1:ab''), (''market_ticker'', JStr ''KXNBA''), (''side'', JStr ''YES''),
     (''settlement_status'', JStr ''SETTLED''), (''settled_at'', JStr ''2026-01-06T05:00:00Z''), (''result'', JStr ''WON''),
     (''gross_return'', JInt 10), (''net_profit_loss'', JFloat (19 / 4)), (''refusals'', JList []), (''venue'', JStr ''kalshi''),
     (''economics_version'', JStr ''router-settlement-economics.v2'')]"

definition example_settlement :: jobj where
  "example_settlement = example_settlement_row
     @ [(''settlement_id'', JStr (''nbas-'' @ take 24 (sha256_hex ''kalshi:v1:ab''))),
        (''schema_version'', JStr ''nba_routed_settlement.v1'')]"

definition example_decode :: "string \<Rightarrow> json option" where
  "example_decode s =
     (if s = json_dump (JObj example_wager) then Some (JObj (sorted_row example_wager))
      else if s = json_dump (JObj example_settlement) then Some (JObj (sorted_row example_settlement)) else None)"

lemma example_times: "aware_ts (JStr ''2026-01-05T20:00:00Z'')" "aware_ts (JStr ''2026-01-06T05:00:00Z'')"
  "date_shape ''2026-01-05''"
  by code_simp+

lemma example_money: "\<not> stake_disagrees (JInt 10) (JFloat (1 / 2)) (JFloat (21 / 4)) (JFloat (1 / 4))"
  "number_is (\<lambda>x. 0 < x) (JInt 10)" "number_is (\<lambda>x. 0 < x \<and> x < 1) (JFloat (1 / 2))" "number_is (\<lambda>x. 0 < x) (JFloat (21 / 4))"
  "number_is (\<lambda>x. 0 \<le> x) (JFloat (1 / 4))" "\<not> number_is (\<lambda>x. x < 0) (JInt 10)" "is_number (JInt 10)" "is_number (JFloat (19 / 4))"
  by code_simp+

lemma example_names: "provenance_fields example_wager_row = []" "provenance_fields example_settlement_row = []"
  by code_simp+

lemma provenance_append: "provenance_fields (xs @ ys) = [] \<longleftrightarrow> provenance_fields xs = [] \<and> provenance_fields ys = []"
proof -
  have "provenance_fields r = [] \<longleftrightarrow> (\<forall>k \<in> set (dkeys r). \<not> is_provenance k)" for r
    by (auto simp: provenance_fields_def filter_empty_conv simp flip: set_empty)
  then show ?thesis by auto
qed

lemma example_ids: "provenance_fields [(''wager_id'', a), (''schema_version'', b)] = []"
  "provenance_fields [(''settlement_id'', a), (''schema_version'', b)] = []"
proof -
  have "\<not> is_provenance ''wager_id''" "\<not> is_provenance ''settlement_id''" "\<not> is_provenance ''schema_version''" by code_simp+
  then show "provenance_fields [(''wager_id'', a), (''schema_version'', b)] = []"
    "provenance_fields [(''settlement_id'', a), (''schema_version'', b)] = []"
    by (simp_all add: provenance_fields_def)
qed

lemma example_wager_builds: "build_wager example_spec (JObj example_wager_row) = Inr example_wager"
proof -
  have fields: "sorted_set (filter (\<lambda>k. k \<notin> set WAGER_INPUT_FIELDS) (dkeys example_wager_row)) = []"
    "filter (\<lambda>f. f \<notin> set (dkeys example_wager_row)) WAGER_REQUIRED = []"
    "filter (\<lambda>f. f \<in> set (dkeys example_wager_row)) [''execution_price'', ''actual_price''] = [''execution_price'']"
    "map (\<lambda>k. (k, jget example_wager_row k)) (filter (\<lambda>k. k \<in> set (dkeys example_wager_row) \<and> k \<noteq> ''actual_price'') WAGER_INPUT_FIELDS)
      = example_wager_row"
    by code_simp+
  have "mint_wager_id example_spec (jget example_wager_row ''source_bet_key'') = Inr (''nbaw-'' @ take 24 (sha256_hex ''kalshi:v1:ab''))"
    by (simp add: mint_wager_id_def mint_def example_spec_def example_wager_row_def jget_def blank_iff is_space_def)
  moreover have "dput ''schema_version'' (JStr (ls_wager_schema example_spec)) (dput ''wager_id'' (JStr (''nbaw-'' @ take 24 (sha256_hex ''kalshi:v1:ab'')))
      (dput ''execution_price'' (jget example_wager_row ''execution_price'') example_wager_row)) = example_wager"
    by (simp add: example_wager_def example_wager_row_def jget_def example_spec_def)
  moreover have "validate_wager example_spec example_wager = []"
  proof -
    have "provenance_fields example_wager = []"
      unfolding example_wager_def provenance_append using example_names example_ids by simp
    then show ?thesis
      unfolding validate_wager_def wager_problems_head_def wager_problems_body_def Let_def
      by (simp add: example_wager_def example_wager_row_def jget_def example_spec_def example_times example_money
          mint_wager_id_def mint_def nonempty_def blank_iff is_space_def ENTRY_METHOD_def VENUE_def)
  qed
  ultimately show ?thesis using fields example_names by (simp add: build_wager_def)
qed

lemma example_settlement_builds: "build_settlement example_spec (JObj example_settlement_row) = Inr example_settlement"
proof -
  have fields: "sorted_set (filter (\<lambda>k. k \<notin> set SETTLEMENT_INPUT_FIELDS) (dkeys example_settlement_row)) = []"
    "filter (\<lambda>f. f \<notin> set (dkeys example_settlement_row)
       \<and> f \<notin> set [''result'', ''gross_return'', ''net_profit_loss'', ''economics_version'']) SETTLEMENT_INPUT_FIELDS = []"
    "map (\<lambda>k. (k, jget example_settlement_row k)) SETTLEMENT_INPUT_FIELDS = example_settlement_row"
    by code_simp+
  have "mint_settlement_id example_spec (jget example_settlement_row ''source_bet_key'')
      = Inr (''nbas-'' @ take 24 (sha256_hex ''kalshi:v1:ab''))"
    by (simp add: mint_settlement_id_def mint_def example_spec_def example_settlement_row_def jget_def blank_iff is_space_def)
  moreover have "dput ''schema_version'' (JStr (ls_settlement_schema example_spec)) (dput ''settlement_id''
      (JStr (''nbas-'' @ take 24 (sha256_hex ''kalshi:v1:ab''))) example_settlement_row) = example_settlement"
    by (simp add: example_settlement_def example_settlement_row_def example_spec_def)
  moreover have "validate_settlement example_spec example_settlement = []"
  proof -
    have "provenance_fields example_settlement = []"
      unfolding example_settlement_def provenance_append using example_names example_ids by simp
    then show ?thesis
      unfolding validate_settlement_def settlement_problems_head_def settlement_problems_money_def Let_def
      by (simp add: example_settlement_def example_settlement_row_def jget_def example_spec_def example_times example_money
          mint_settlement_id_def mint_def nonempty_def blank_iff is_space_def ECONOMICS_V2_def VENUE_def)
  qed
  ultimately show ?thesis using fields example_names by (simp add: build_settlement_def Let_def)
qed

lemma dump_starts:
  assumes "\<forall>(k', v) \<in> set ob. k \<le> k'" and "k \<in> set (dkeys ob)"
  shows "\<exists>rest. json_dump (JObj ob) = ''{'' @ quote_json k @ rest"
proof -
  let ?t = "map (\<lambda>(k, v). (k, json_dump v)) ob"
  obtain x xs where x: "sort_key fst ?t = x # xs" using assms(2) by (cases "sort_key fst ?t") (auto simp flip: length_0_conv)
  have sorted: "sorted (map fst (x # xs))" using sorted_sort_key [of fst ?t] by (simp only: x)
  have keys: "set (map fst (x # xs)) = set (dkeys ob)" unfolding x [symmetric] by (auto simp: image_iff) force+
  then have "k \<in> set (map fst (x # xs))" "fst x \<in> set (dkeys ob)" using assms(2) by auto
  then have "fst x \<le> k" "k \<le> fst x" using sorted assms(1) by auto
  then have "fst x = k" by simp
  then show ?thesis using x by (cases x; cases xs) auto
qed
lemma example_reads_back: "reads_back example_decode example_wager" "reads_back example_decode example_settlement"
proof -
  have "\<forall>(k, v) \<in> set example_wager. ''contracts'' \<le> k" "''contracts'' \<in> set (dkeys example_wager)"
    by (simp_all add: example_wager_def example_wager_row_def)
  from dump_starts [OF this] obtain s where s: "json_dump (JObj example_wager) = ''{'' @ quote_json ''contracts'' @ s" ..
  have "\<forall>(k, v) \<in> set example_settlement. ''economics_version'' \<le> k" "''economics_version'' \<in> set (dkeys example_settlement)"
    by (simp_all add: example_settlement_def example_settlement_row_def)
  from dump_starts [OF this] obtain t where t: "json_dump (JObj example_settlement) = ''{'' @ quote_json ''economics_version'' @ t" ..
  have "json_dump (JObj example_wager) \<noteq> json_dump (JObj example_settlement)"
    unfolding s t by (simp add: quote_json_def quote_json_char_def)
  then show "reads_back example_decode example_wager" "reads_back example_decode example_settlement"
    by (simp_all add: reads_back_def example_decode_def del: json_dump.simps)
qed

lemma example_keys: "source_key example_wager = JStr ''kalshi:v1:ab''" "source_key example_settlement = JStr ''kalshi:v1:ab''"
  "source_key (sorted_row example_wager) = JStr ''kalshi:v1:ab''"
proof -
  show "source_key example_wager = JStr ''kalshi:v1:ab''" "source_key example_settlement = JStr ''kalshi:v1:ab''"
    by (simp_all add: source_key_def jget_def example_wager_def example_wager_row_def example_settlement_def example_settlement_row_def)
  moreover have "record_ok (validate_wager example_spec) WAGER_NAMES example_wager"
    using example_wager_builds by (rule build_wager_ok)
  ultimately show "source_key (sorted_row example_wager) = JStr ''kalshi:v1:ab''" using source_key_sorted by metis
qed

lemma example_wagers_plan:
  "\<exists>res. plan_wagers example_decode example_spec [] [JObj example_wager_row] (Some ''b1'') = Inr ([example_wager], res) \<and> ir_written res = 1"
proof -
  have "admit_wager example_spec (Some ''b1'') (JObj example_wager_row) = Inr example_wager"
    by (simp add: admit_wager_def example_wager_builds) (simp add: example_wager_row_def jget_def)
  then show ?thesis
    by (simp add: plan_wagers_def read_keyed_def keyed_rows_def wager_importer_def empty_result_def Let_def)
qed

lemma example_settlements_plan:
  "\<exists>res. plan_settlements example_decode example_spec (append_lines [] [example_wager]) [] [JObj example_settlement_row]
      = Inr ([example_settlement], res) \<and> ir_written res = 1"
proof -
  let ?on = "[(JStr ''kalshi:v1:ab'', sorted_row example_wager)]"
  have "read_jsonl example_decode (py_splitlines (append_lines [] [example_wager])) = Inr [sorted_row example_wager]"
    using read_appended [of "[]" "[example_wager]" example_decode "[]"] example_reads_back by (simp add: whole_lines_def)
  then have wagers: "read_keyed example_decode (append_lines [] [example_wager]) = Inr ?on"
    using example_keys by (simp add: read_keyed_def keyed_rows_def hashable_def)
  have "jget (sorted_row example_wager) ''market_ticker'' = JStr ''KXNBA''" "jget (sorted_row example_wager) ''side'' = JStr ''YES''"
    by (subst jget_sorted_row; simp add: example_wager_def example_wager_row_def jget_def)+
  then have "admit_settlement example_spec ?on (JObj example_settlement_row) = Inr example_settlement"
    using example_keys
    by (simp add: admit_settlement_def example_settlement_builds)
      (simp add: example_settlement_def example_settlement_row_def jget_def)
  then show ?thesis using wagers
    by (simp add: plan_settlements_def read_keyed_def keyed_rows_def settlement_importer_def empty_result_def Let_def)
qed

theorem valid_ledger_stays_valid_witness:
  "\<exists>wres sres. valid_ledger example_decode example_spec [] [] [] 0 0
    \<and> plan_wagers example_decode example_spec [] [JObj example_wager_row] (Some ''b1'') = Inr ([example_wager], wres)
    \<and> plan_settlements example_decode example_spec (append_lines [] [example_wager]) [] [JObj example_settlement_row]
        = Inr ([example_settlement], sres)
    \<and> valid_ledger example_decode example_spec (append_lines [] [example_wager]) (append_lines [] [example_settlement])
        [(''ledger/wagers.jsonl'', []), (''ledger/settlements.jsonl'', [])] 1 1"
proof -
  have none: "valid_ledger example_decode example_spec [] [] [] 0 0"
    by (simp add: valid_ledger_def validate_ledger_clean whole_lines_def appended_to_def)
  have paths: "wagers_rel example_spec = ''ledger/wagers.jsonl''" "settlements_rel example_spec = ''ledger/settlements.jsonl''"
    by (simp_all add: wagers_rel_def settlements_rel_def example_spec_def)
  obtain wres where w: "plan_wagers example_decode example_spec [] [JObj example_wager_row] (Some ''b1'') = Inr ([example_wager], wres)"
    "ir_written wres = 1" using example_wagers_plan by blast
  obtain sres where s: "plan_settlements example_decode example_spec (append_lines [] [example_wager]) [] [JObj example_settlement_row]
      = Inr ([example_settlement], sres)" "ir_written sres = 1" using example_settlements_plan by blast
  show ?thesis
    using valid_ledger_stays_valid [OF none _ w(1) s(1)] none w s example_reads_back paths by auto
qed

theorem second_import_files_nothing_witness:
  "\<exists>res res2. plan_wagers example_decode example_spec [] [JObj example_wager_row] (Some ''b1'') = Inr ([example_wager], res)
    \<and> import_wagers example_decode example_spec [] [JObj example_wager_row] (Some ''b1'') = Inr (res, append_lines [] [example_wager])
    \<and> import_wagers example_decode example_spec (append_lines [] [example_wager]) [JObj example_wager_row] (Some ''b1'')
        = Inr (res2, append_lines [] [example_wager])
    \<and> ir_written res = 1 \<and> ir_written res2 = 0 \<and> ir_duplicate res2 = ir_duplicate res + 1"
proof -
  obtain res where w: "plan_wagers example_decode example_spec [] [JObj example_wager_row] (Some ''b1'') = Inr ([example_wager], res)"
    "ir_written res = 1" using example_wagers_plan by blast
  show ?thesis
    using second_import_files_nothing [OF w(1)] w example_reads_back by (auto simp: whole_lines_def)
qed

end
