(* ===== verification/Calendar.thy ===== *)
theory Calendar
  imports Execution
begin

text \<open>
  The calendar of \<open>TimeAxis\<close> is consistent: \<open>ord2ymd\<close> inverts \<open>ymd2ord\<close> and yields a date of the calendar, so the
  instants \<^verbatim>\<open>timeaxis.py\<close> renders are read back by its own parser as the same second.
\<close>

section \<open>Day and month of a year\<close>

definition year_day :: "bool \<Rightarrow> int \<Rightarrow> int \<times> int" where
  "year_day leap n =
     (let month = (n + 50) div 32;
          preceding = [0, 31, 59, 90, 120, 151, 181, 212, 243, 273, 304, 334] ! nat (month - 1)
                      + (if 2 < month \<and> leap then 1 else 0)
      in if preceding > n
         then let month' = month - 1;
                  preceding' = preceding
                    - ([31, 28, 31, 30, 31, 30, 31, 31, 30, 31, 30, 31] ! nat (month' - 1)
                       + (if month' = 2 \<and> leap then 1 else 0))
              in (month', n - preceding' + 1)
         else (month, n - preceding + 1))"

text \<open>Whether a month and a day are the \<open>n\<close>-th of a year, counted from 0.\<close>

definition dated :: "bool \<Rightarrow> int \<Rightarrow> int \<times> int \<Rightarrow> bool" where
  "dated leap n md \<longleftrightarrow> (case md of (m, d) \<Rightarrow>
     1 \<le> m \<and> m \<le> 12 \<and> 1 \<le> d
     \<and> d \<le> (if m = 2 \<and> leap then 29 else [31, 28, 31, 30, 31, 30, 31, 31, 30, 31, 30, 31] ! nat (m - 1))
     \<and> [0, 31, 59, 90, 120, 151, 181, 212, 243, 273, 304, 334] ! nat (m - 1) + (if 2 < m \<and> leap then 1 else 0) + d = n + 1)"

lemma year_day_dated:
  assumes "0 \<le> n" "n \<le> 364"
  shows "dated leap n (year_day leap n)"
proof -
  have "list_all (\<lambda>n. dated True n (year_day True n)) [0..364]" "list_all (\<lambda>n. dated False n (year_day False n)) [0..364]"
    by code_simp+
  then show ?thesis using assms by (cases leap) (auto simp: list_all_iff)
qed

lemma dated_date:
  assumes "dated (is_leap y) n (m, d)"
  shows "1 \<le> m" "m \<le> 12" "1 \<le> d" "d \<le> days_in_month y m" "d \<le> 31" "ymd2ord y m d = days_before_year y + n + 1"
proof -
  show "1 \<le> m" "m \<le> 12" "1 \<le> d" "d \<le> days_in_month y m" "ymd2ord y m d = days_before_year y + n + 1"
    using assms by (auto simp: dated_def days_in_month_def ymd2ord_def days_before_month_def)
  then have "nat (m - 1) < 12" by auto
  then have "[31, 28, 31, 30, 31, 30, 31, 31, 30, 31, 30, 31] ! nat (m - 1) \<in> set [31, 28, 31, 30, 31, 30, 31, 31, 30, 31, 30, 31 :: int]"
    by (intro nth_mem) simp
  then have "[31, 28, 31, 30, 31, 30, 31, 31, 30, 31, 30, 31] ! nat (m - 1) \<le> (31 :: int)" by auto
  then show "d \<le> 31" using \<open>d \<le> days_in_month y m\<close> by (auto simp: days_in_month_def split: if_splits)
qed

section \<open>The year of a day\<close>

text \<open>A year in its cycles of 400, 100 and 4.\<close>

lemma year_in_cycles:
  fixes y :: int
  assumes "0 \<le> b" "b \<le> 3" "0 \<le> c" "c \<le> 24" "0 \<le> e" "e \<le> 3" and y: "y = 400 * a + 100 * b + 4 * c + e + 1"
  shows "days_before_year y = 146097 * a + 36524 * b + 1461 * c + 365 * e"
    and "is_leap y \<longleftrightarrow> e = 3 \<and> (c \<noteq> 24 \<or> b = 3)"
proof -
  let ?p = "y - 1"
  have "?p div 4 = 100 * a + 25 * b + c" "?p div 100 = 4 * a + b" "?p div 400 = a"
    using assms by simp_all
  then show "days_before_year y = 146097 * a + 36524 * b + 1461 * c + 365 * e"
    by (simp add: days_before_year_def Let_def) (simp add: y)
  have "y mod 4 = (e + 1) mod 4" "y mod 100 = (4 * c + e + 1) mod 100" "y mod 400 = (100 * b + 4 * c + e + 1) mod 400"
  proof -
    have "y = (e + 1) + (100 * a + 25 * b + c) * 4" "y = (4 * c + e + 1) + (4 * a + b) * 100"
      "y = (100 * b + 4 * c + e + 1) + a * 400" using y by simp_all
    then show "y mod 4 = (e + 1) mod 4" "y mod 100 = (4 * c + e + 1) mod 100" "y mod 400 = (100 * b + 4 * c + e + 1) mod 400"
      by (metis mod_mult_self1)+
  qed
  moreover have "(e + 1) mod 4 = 0 \<longleftrightarrow> e = 3" using assms by presburger
  moreover have "(4 * c + e + 1) mod 100 = 0 \<longleftrightarrow> c = 24 \<and> e = 3"
  proof (cases "4 * c + e = 99")
    case True
    then have "c = 24" "e = 3" using assms by linarith+
    then show ?thesis by simp
  next
    case False
    then have "0 < 4 * c + e + 1" "4 * c + e + 1 < 100" using assms by linarith+
    then show ?thesis using False by auto
  qed
  moreover have "(100 * b + 4 * c + e + 1) mod 400 = 0 \<longleftrightarrow> b = 3 \<and> c = 24 \<and> e = 3"
  proof (cases "100 * b + 4 * c + e = 399")
    case True
    then have "b = 3" "c = 24" "e = 3" using assms by linarith+
    then show ?thesis by simp
  next
    case False
    then have "0 < 100 * b + 4 * c + e + 1" "100 * b + 4 * c + e + 1 < 400" using assms by linarith+
    then show ?thesis using False by auto
  qed
  ultimately show "is_leap y \<longleftrightarrow> e = 3 \<and> (c \<noteq> 24 \<or> b = 3)" unfolding is_leap_def by auto
qed

lemma ord2ymd_inverts:
  assumes "ord2ymd n0 = (y, m, d)"
  shows "\<exists>n. dated (is_leap y) n (m, d) \<and> days_before_year y + n + 1 = n0"
    and "1 \<le> n0 \<Longrightarrow> n0 \<le> max_ordinal \<Longrightarrow> 1 \<le> y \<and> y \<le> 9999" and "364878 \<le> n0 \<Longrightarrow> 1000 \<le> y"
proof -
  define n1 where "n1 = (n0 - 1) mod 146097"
  define n2 where "n2 = n1 mod 36524"
  define n3 where "n3 = n2 mod 1461"
  define a b c e r where "a = (n0 - 1) div 146097" and "b = n1 div 36524" and "c = n2 div 1461" and "e = n3 div 365" and "r = n3 mod 365"
  note parts = n1_def n2_def n3_def a_def b_def c_def e_def r_def
  have sums: "n0 - 1 = 146097 * a + n1" "n1 = 36524 * b + n2" "n2 = 1461 * c + n3" "n3 = 365 * e + r"
    unfolding parts by (simp_all only: mult_div_mod_eq)
  then have n0: "n0 = 146097 * a + 36524 * b + 1461 * c + 365 * e + r + 1" by linarith
  have mods: "0 \<le> n1" "n1 \<le> 146096" "0 \<le> n2" "n2 \<le> 36523" "0 \<le> n3" "n3 \<le> 1460" "0 \<le> r" "r \<le> 364"
    using pos_mod_bound [of 146097 "n0 - 1"] pos_mod_bound [of 36524 n1] pos_mod_bound [of 1461 n2] pos_mod_bound [of 365 n3]
    unfolding n1_def [symmetric] n2_def [symmetric] n3_def [symmetric] r_def [symmetric] by (simp_all add: parts)
  have range: "0 \<le> b" "b \<le> 4" "0 \<le> c" "c \<le> 24" "0 \<le> e" "e \<le> 4" "0 \<le> r" "r \<le> 364" using mods sums by linarith+
  have last: "b = 4 \<Longrightarrow> c = 0 \<and> e = 0 \<and> r = 0" "e = 4 \<Longrightarrow> r = 0 \<and> c < 24"
    using mods sums range by (intro conjI; linarith)+
  have ymd: "ord2ymd n0 = (if e = 4 \<or> b = 4 then (a * 400 + 1 + b * 100 + c * 4 + e - 1, 12, 31)
      else (a * 400 + 1 + b * 100 + c * 4 + e, year_day (e = 3 \<and> (c \<noteq> 24 \<or> b = 3)) r))"
    unfolding ord2ymd_def year_day_def Let_def n1_def [symmetric] n2_def [symmetric] n3_def [symmetric] a_def [symmetric]
      b_def [symmetric] c_def [symmetric] e_def [symmetric] r_def [symmetric]
    by (simp only: if_distrib [where f = "Pair (a * 400 + 1 + b * 100 + c * 4 + e)"])
  have december: "dated True 365 (12, 31)" by code_simp
  show "1 \<le> y \<and> y \<le> 9999" if "1 \<le> n0" "n0 \<le> max_ordinal"
  proof -
    have "0 \<le> a" "a \<le> 24" using that sums(1) mods unfolding max_ordinal_def by linarith+
    moreover have "y = 400 * a + 100 * b + 4 * c + e + (if e = 4 \<or> b = 4 then 0 else 1)" using assms ymd by (auto split: if_splits)
    moreover have "c = 0 \<and> e = 0 \<and> r = 0 \<or> b \<le> 3" using last range by linarith
    ultimately show ?thesis using range n0 that(2) unfolding max_ordinal_def by (auto split: if_splits)
  qed
  show "1000 \<le> y" if "364878 \<le> n0"
  proof (rule ccontr)
    assume "\<not> 1000 \<le> y"
    then have small: "400 * a + 100 * b + 4 * c + e + (if e = 4 \<or> b = 4 then 0 else 1) \<le> 999"
      using assms ymd by (auto split: if_splits)
    have "146097 * a + n1 \<ge> 364877" using that sums(1) by simp
    then have "2 \<le> a" using mods by linarith
    then have "a = 2" "b \<le> 1" using small range by (auto split: if_splits)
    then have "b = 1" "36159 \<le> n2" using sums mods range that by linarith+
    then have "c = 24 \<and> e = 3" using sums mods range last by linarith
    then show False using \<open>a = 2\<close> \<open>b = 1\<close> small by simp
  qed
  consider "b = 4" | "e = 4" "b \<le> 3" | "b \<le> 3" "e \<le> 3" using range by linarith
  then show "\<exists>n. dated (is_leap y) n (m, d) \<and> days_before_year y + n + 1 = n0"
  proof cases
    case 1
    then have y: "y = 400 * a + 100 * 3 + 4 * 24 + 3 + 1" "m = 12" "d = 31" using assms ymd last by auto
    show ?thesis using december year_in_cycles [of 3 24 3 y a] 1 last n0 y by (intro exI [where x = 365]) simp
  next
    case 2
    then have y: "y = 400 * a + 100 * b + 4 * c + 3 + 1" "m = 12" "d = 31" using assms ymd by auto
    show ?thesis using december year_in_cycles [of b c 3 y a] 2 last range n0 y by (intro exI [where x = 365]) simp
  next
    case 3
    then have y: "y = 400 * a + 100 * b + 4 * c + e + 1" and md: "(m, d) = year_day (e = 3 \<and> (c \<noteq> 24 \<or> b = 3)) r"
      using assms ymd by auto
    note cycles = year_in_cycles [of b c e y a]
    have "dated (is_leap y) r (m, d)" unfolding md using cycles(2) year_day_dated 3 range y by simp
    then show ?thesis using cycles(1) 3 range n0 y by (intro exI [where x = r]) simp
  qed
qed

text \<open>A day between 0001-01-01 and 9999-12-31 has a date of the calendar, whose ordinal it is.\<close>

lemma ord2ymd_sound:
  assumes "ord2ymd n = (y, m, d)" and "1 \<le> n" "n \<le> max_ordinal"
  shows "ymd_ordinal y m d = Some n" and "1 \<le> m" "m \<le> 12" "1 \<le> d" "d \<le> 31" "1 \<le> y" "y \<le> 9999"
proof -
  obtain k where k: "dated (is_leap y) k (m, d)" "days_before_year y + k + 1 = n" using ord2ymd_inverts(1) [OF assms(1)] by blast
  have "1 \<le> y \<and> y \<le> 9999" using assms by (rule ord2ymd_inverts(2))
  then show "ymd_ordinal y m d = Some n" "1 \<le> m" "m \<le> 12" "1 \<le> d" "d \<le> 31" "1 \<le> y" "y \<le> 9999"
    using dated_date [OF k(1)] k(2) by (simp_all add: ymd_ordinal_def)
qed

section \<open>A rendered instant reads back\<close>

lemma digit_char_facts [simp]:
  assumes "n < 10"
  shows "is_digit (digit_char n)" "digit_val (digit_char n) = n"
    "digit_char n \<noteq> CHR ''-''" "digit_char n \<noteq> CHR ''W''" "digit_char n \<noteq> CHR '':''" "digit_char n \<noteq> CHR ''+''"
    "digit_char n \<noteq> CHR ''T''" "digit_char n \<noteq> CHR ''Z''" "CHR ''-'' \<noteq> digit_char n" "CHR ''+'' \<noteq> digit_char n"
    "CHR ''Z'' \<noteq> digit_char n"
proof -
  show d: "is_digit (digit_char n)" "digit_val (digit_char n) = n" using assms by (rule digit_char_is_digit, rule digit_char_val)
  have "\<not> is_digit (CHR ''-'')" "\<not> is_digit (CHR ''W'')" "\<not> is_digit (CHR '':'')" "\<not> is_digit (CHR ''+'')"
    "\<not> is_digit (CHR ''T'')" "\<not> is_digit (CHR ''Z'')" by (simp_all add: is_digit_def less_eq_char_def)
  then show "digit_char n \<noteq> CHR ''-''" "digit_char n \<noteq> CHR ''W''" "digit_char n \<noteq> CHR '':''" "digit_char n \<noteq> CHR ''+''"
    "digit_char n \<noteq> CHR ''T''" "digit_char n \<noteq> CHR ''Z''" "CHR ''-'' \<noteq> digit_char n" "CHR ''+'' \<noteq> digit_char n"
    "CHR ''Z'' \<noteq> digit_char n" using d by metis+
qed

lemma four_digits:
  assumes "1000 \<le> n" "n \<le> 9999"
  shows "show_nat n = [digit_char (n div 1000), digit_char (n div 100 mod 10), digit_char (n div 10 mod 10), digit_char (n mod 10)]"
proof -
  have "n div 10 div 10 = n div 100" "n div 100 div 10 = n div 1000" by (simp_all flip: div_mult2_eq)
  moreover have "\<not> n < 10" "\<not> n div 10 < 10" "\<not> n div 100 < 10" "n div 1000 < 10" using assms by auto
  ultimately show ?thesis
    by (subst show_nat.simps, simp, subst show_nat.simps, simp, subst show_nat.simps, simp, subst show_nat.simps, simp)
qed

lemma fixnum_two: "a < 10 \<Longrightarrow> b < 10 \<Longrightarrow> fixnum 2 [digit_char a, digit_char b] = Some (int (10 * a + b))"
  by (simp add: fixnum_def digits_val_def)

lemma pad2_read: "0 \<le> n \<Longrightarrow> n < 100 \<Longrightarrow> fixnum 2 (pad2 n) = Some n"
  unfolding pad2_def by (subst fixnum_two) (auto simp: nat_less_iff)

text \<open>The text of a date and a time of day, with the zone the parser puts for \<open>Z\<close>.\<close>

lemma iso_date_read:
  assumes "1000 \<le> y" "y \<le> 9999" "0 \<le> m" "m < 100" "0 \<le> d" "d < 100"
  shows "iso_date (show_nat (nat y) @ ''-'' @ pad2 m @ ''-'' @ pad2 d) = ymd_ordinal y m d"
proof -
  have y: "fixnum 4 (show_nat (nat y)) = Some y" "length (show_nat (nat y)) = 4"
  proof -
    let ?n = "nat y"
    have n: "1000 \<le> ?n" "?n \<le> 9999" using assms by auto
    show len: "length (show_nat ?n) = 4" unfolding four_digits [OF n] by simp
    show "fixnum 4 (show_nat ?n) = Some y" using assms len show_nat_digits by (simp add: fixnum_def digits_val_show_nat)
  qed
  obtain a b where m: "pad2 m = [digit_char a, digit_char b]" "a < 10" using assms by (auto simp: pad2_def nat_less_iff)
  show ?thesis
    using y pad2_read [of m] pad2_read [of d] assms m by (simp add: iso_date_def Let_def pad2_def nth_append)
qed

lemma pad2_take [simp]: "length (pad2 n) = 2" "take 2 (pad2 n @ r) = pad2 n" "drop 2 (pad2 n @ r) = r" "take 2 (pad2 n) = pad2 n" "drop 2 (pad2 n) = []"
  by (simp_all add: pad2_def)

lemma hms_step:
  assumes "0 \<le> v" "v < 100"
  shows "sep \<noteq> Some False \<Longrightarrow> hms (Suc n) sep (pad2 v @ '':'' @ r) = map_option (apfst ((#) v)) (hms n (Some True) r)"
    and "hms 0 sep (pad2 v) = Some ([v], [])"
  by (subst hms.simps; use pad2_read [OF assms] in \<open>auto simp: Let_def simp del: hms.simps split: option.splits\<close>)+

lemma hms_read:
  assumes "0 \<le> h" "h < 100" "0 \<le> mi" "mi < 100" "0 \<le> s" "s < 100"
  shows "hms_us (pad2 h @ '':'' @ pad2 mi @ '':'' @ pad2 s) = Some (h, mi, s, 0)"
proof -
  have "hms (Suc (Suc 0)) None (pad2 h @ '':'' @ (pad2 mi @ '':'' @ pad2 s)) = Some ([h, mi, s], [])"
    using assms by (simp only: hms_step option.distinct not_False_eq_True option.inject True_not_False option.map apfst_conv)
  then show ?thesis by (simp add: hms_us_def Let_def numeral_2_eq_2)
qed

lemma time_of_day:
  assumes "0 \<le> t" "t < 86400"
  shows "0 \<le> t div 3600" "t div 3600 \<le> 23" "0 \<le> t div 60 mod 60" "t div 60 mod 60 \<le> 59" "0 \<le> t mod 60" "t mod 60 \<le> 59"
    and "t div 3600 * 3600 + t div 60 mod 60 * 60 + t mod 60 = (t :: int)"
proof -
  define q where "q = t div 60"
  have "q div 60 = t div 3600" unfolding q_def by (simp flip: zdiv_zmult2_eq)
  moreover have "q * 60 + t mod 60 = t" "q div 60 * 60 + q mod 60 = q" unfolding q_def by (rule div_mult_mod_eq)+
  moreover show m: "0 \<le> t div 60 mod 60" "t div 60 mod 60 \<le> 59" "0 \<le> t mod 60" "t mod 60 \<le> 59"
    using pos_mod_bound [of 60 t] pos_mod_bound [of 60 "t div 60"] by simp_all
  ultimately show "t div 3600 * 3600 + t div 60 mod 60 * 60 + t mod 60 = t" unfolding q_def by linarith
  then show "0 \<le> t div 3600" "t div 3600 \<le> 23" using assms m by linarith+
qed

text \<open>The text of an instant reads back as the instant, and names its zone.\<close>

lemma render_instant_text:
  assumes "render_instant s = Some text" and "epoch_ordinal + s div 86400 \<ge> 364878"
  obtains y m d h mi sec where "text = show_nat (nat y) @ ''-'' @ pad2 m @ ''-'' @ pad2 d @ ''T'' @ pad2 h @ '':'' @ pad2 mi @ '':'' @ pad2 sec @ ''Z''"
    and "1000 \<le> y" "y \<le> 9999" "1 \<le> m" "m \<le> 12" "1 \<le> d" "d \<le> 31" "0 \<le> h" "h \<le> 23" "0 \<le> mi" "mi \<le> 59" "0 \<le> sec" "sec \<le> 59"
    and "ymd_ordinal y m d = Some (epoch_ordinal + s div 86400)" and "h * 3600 + mi * 60 + sec = s mod 86400"
proof -
  let ?n = "epoch_ordinal + s div 86400" and ?t = "s mod 86400"
  obtain y m d where o: "ord2ymd ?n = (y, m, d)" by (metis prod.exhaust)
  then have n: "1 \<le> ?n" "?n \<le> max_ordinal"
    and body: "text = show_nat (nat y) @ ''-'' @ pad2 m @ ''-'' @ pad2 d @ ''T'' @ pad2 (?t div 3600) @ '':'' @ pad2 (?t div 60 mod 60)
      @ '':'' @ pad2 (?t mod 60) @ ''Z''"
    using assms(1) by (auto simp: render_instant_def Let_def split: if_splits)
  have t: "0 \<le> ?t" "?t < 86400" by simp_all
  show thesis using that [OF body] ord2ymd_sound [OF o n] ord2ymd_inverts(3) [OF o assms(2)] time_of_day [OF t] by blast
qed

abbreviation date_text :: "int \<Rightarrow> int \<Rightarrow> int \<Rightarrow> string" where
  "date_text y m d \<equiv> show_nat (nat y) @ ''-'' @ pad2 m @ ''-'' @ pad2 d"

abbreviation clock_text :: "int \<Rightarrow> int \<Rightarrow> int \<Rightarrow> string" where
  "clock_text h mi s \<equiv> pad2 h @ '':'' @ pad2 mi @ '':'' @ pad2 s"

lemma zone_read:
  assumes "0 \<le> h" "h \<le> 23" "0 \<le> mi" "mi \<le> 59" "0 \<le> s" "s \<le> 59" and zone: "z \<in> {''+00:00'', ''Z''}"
  shows "iso_time (clock_text h mi s @ z) = Some ((h * 3600 + mi * 60 + s) * 1000000, Some 0)"
proof -
  have hms: "0 \<le> h" "h < 100" "0 \<le> mi" "mi < 100" "0 \<le> s" "s < 100" using assms by simp_all
  let ?main = "clock_text h mi s"
  have digits: "c \<in> set (pad2 n) \<Longrightarrow> 0 \<le> n \<Longrightarrow> n < 100 \<Longrightarrow> c \<noteq> CHR ''-'' \<and> c \<noteq> CHR ''+'' \<and> c \<noteq> CHR ''Z''" for c n
    by (auto simp: pad2_def nat_less_iff)
  have chars: "c \<in> set ?main \<Longrightarrow> c \<noteq> CHR ''-'' \<and> c \<noteq> CHR ''+'' \<and> c \<noteq> CHR ''Z''" for c
    using digits [of c h] digits [of c mi] digits [of c s] assms by auto
  have none: "CHR ''-'' \<notin> set ?main" "CHR ''+'' \<notin> set ?main" "CHR ''Z'' \<notin> set ?main" using chars by blast+
  have zc: "zone_char (?main @ z) = Some (hd z)"
  proof (cases "z = ''Z''")
    case True
    then show ?thesis using none by (simp add: zone_char_def)
  next
    case False
    then have "z = ''+00:00''" using zone by simp
    then show ?thesis using none by (simp add: zone_char_def)
  qed
  have main: "takeWhile (\<lambda>c. c \<noteq> hd z) (?main @ z) = ?main"
  proof -
    have "hd z = CHR ''+'' \<or> hd z = CHR ''Z''" and z: "hd z # tl z = z" using zone by auto
    then have out: "\<forall>c \<in> set ?main. c \<noteq> hd z" using none by metis
    have "takeWhile (\<lambda>c. c \<noteq> hd z) (?main @ hd z # tl z) = takeWhile (\<lambda>c. c \<noteq> hd z) ?main" by (rule takeWhile_tail) simp
    also have "\<dots> = ?main" using out by (simp only: takeWhile_eq_all_conv)
    finally show ?thesis unfolding z .
  qed
  have zero: "hms_us ''00:00'' = Some (0, 0, 0, 0)" by code_simp
  have rest: "drop (Suc (length ?main)) (?main @ z) = tl z" using zone by auto
  have long: "\<not> length (?main @ z) < 2" "h \<le> 23 \<and> mi \<le> 59 \<and> s \<le> 59" using assms by simp_all
  have "iso_time (?main @ z) = Some ((h * 3600 + mi * 60 + s) * 1000000, Some 0)"
  proof (cases "z = ''Z''")
    case True
    then show ?thesis unfolding iso_time_def Let_def zc option.case main rest hms_read [OF hms] using long by simp
  next
    case False
    then have "hd z = CHR ''+''" "tl z = ''00:00''" using zone by simp_all
    then show ?thesis unfolding iso_time_def Let_def zc option.case main rest hms_read [OF hms] using long zero by simp
  qed
  then show ?thesis by simp
qed

lemma rendered_iso:
  assumes "1000 \<le> y" "y \<le> 9999" "1 \<le> m" "m \<le> 12" "1 \<le> d" "d \<le> 31" "0 \<le> h" "h \<le> 23" "0 \<le> mi" "mi \<le> 59" "0 \<le> sec" "sec \<le> 59"
    and "ymd_ordinal y m d = Some n" and z: "z \<in> {''+00:00'', ''Z''}" and s: "s = date_text y m d @ ''T'' @ clock_text h mi sec @ z"
  shows "iso_micros s = Some (((n - epoch_ordinal) * 86400 + h * 3600 + mi * 60 + sec) * 1000000)"
    and "iso_separator s = Some 10" and "\<exists>us. iso_time (drop 11 s) = Some (us, Some 0)"
proof -
  have y: "1000 \<le> nat y" "nat y \<le> 9999" using assms by auto
  have len: "length (show_nat (nat y)) = 4" unfolding four_digits [OF y] by simp
  have "nat m div 10 < 10" using assms by auto
  then have "s ! 4 = CHR ''-''" "s ! 5 \<noteq> CHR ''W''" "length s = 19 + length z" unfolding s using len by (simp_all add: nth_append pad2_def)
  then show sep: "iso_separator s = Some 10" by (simp add: iso_separator_def Let_def)
  have parts: "take 10 s = date_text y m d" "drop (Suc 10) s = clock_text h mi sec @ z" unfolding s using len by simp_all
  have time: "iso_time (clock_text h mi sec @ z) = Some ((h * 3600 + mi * 60 + sec) * 1000000, Some 0)"
    by (rule zone_read) (rule assms)+
  then show "\<exists>us. iso_time (drop 11 s) = Some (us, Some 0)" using parts(2) by simp
  have "iso_date (date_text y m d) = Some n" using assms by (subst iso_date_read) auto
  moreover have "clock_text h mi sec @ z \<noteq> []" "\<not> length s < 7" using \<open>length s = 19 + length z\<close> by (simp_all add: pad2_def)
  ultimately show "iso_micros s = Some (((n - epoch_ordinal) * 86400 + h * 3600 + mi * 60 + sec) * 1000000)"
    using sep time unfolding iso_micros_def Let_def by (simp only: parts if_False option.case prod.case) (simp add: algebra_simps)
qed

lemma strip_edges: "s \<noteq> [] \<Longrightarrow> \<not> is_space (hd s) \<Longrightarrow> \<not> is_space (last s) \<Longrightarrow> py_strip s = s"
proof -
  assume s: "s \<noteq> []" "\<not> is_space (hd s)" "\<not> is_space (last s)"
  then have "dropWhile is_space s = s" "dropWhile is_space (rev s) = rev s" by (auto simp: dropWhile_eq_self_iff hd_rev)
  then show ?thesis by (simp add: py_strip_def)
qed

lemma rendered_zulu:
  assumes "render_instant s = Some text" and "- 30610224000 \<le> s"
  shows "iso_micros (zulu (py_strip text)) = Some (s * 1000000)" and "text \<noteq> []" "py_strip text = text" "CHR ''T'' \<in> set text"
    and "last text = CHR ''Z''" "CHR ''Z'' \<notin> set (butlast text)" "length text = 20"
    and "t \<in> {text, butlast text @ ''+00:00''} \<Longrightarrow>
      iso_micros t = Some (s * 1000000) \<and> iso_separator t = Some 10 \<and> (\<exists>us. iso_time (drop 11 t) = Some (us, Some 0))"
proof -
  have late: "epoch_ordinal + s div 86400 \<ge> 364878" using zdiv_mono1 [OF assms(2), of 86400] by (simp add: epoch_ordinal_def)
  obtain y m d h mi sec where shape: "text = show_nat (nat y) @ ''-'' @ pad2 m @ ''-'' @ pad2 d @ ''T'' @ pad2 h @ '':'' @ pad2 mi @ '':'' @ pad2 sec @ ''Z''"
    and range: "1000 \<le> y" "y \<le> 9999" "1 \<le> m" "m \<le> 12" "1 \<le> d" "d \<le> 31" "0 \<le> h" "h \<le> 23" "0 \<le> mi" "mi \<le> 59" "0 \<le> sec" "sec \<le> 59"
    and date: "ymd_ordinal y m d = Some (epoch_ordinal + s div 86400)" and time: "h * 3600 + mi * 60 + sec = s mod 86400"
    by (rule render_instant_text [OF assms(1) late])
  let ?front = "date_text y m d @ ''T'' @ clock_text h mi sec"
  have front: "butlast text = ?front" "last text = CHR ''Z''" "text = ?front @ ''Z''" unfolding shape by (simp_all add: butlast_append)
  have sum: "s div 86400 * 86400 + h * 3600 + mi * 60 + sec = s" using time div_mult_mod_eq [of s 86400] by linarith
  show read: "iso_micros t = Some (s * 1000000) \<and> iso_separator t = Some 10 \<and> (\<exists>us. iso_time (drop 11 t) = Some (us, Some 0))"
    if "t \<in> {text, butlast text @ ''+00:00''}" for t
  proof -
    have z: "(if t = text then ''Z'' else ''+00:00'') \<in> {''+00:00'', ''Z''}"
      "t = date_text y m d @ ''T'' @ clock_text h mi sec @ (if t = text then ''Z'' else ''+00:00'')"
      using that front by auto
    show ?thesis using rendered_iso [OF range date z] sum by simp
  qed
  have y: "1000 \<le> nat y" "nat y \<le> 9999" using range by auto
  show "length text = 20" unfolding shape four_digits [OF y] by simp
  have "nat y div 1000 < 10" using y by auto
  then have "is_digit (hd text)" unfolding shape four_digits [OF y] by simp
  moreover show "text \<noteq> []" unfolding shape by simp
  ultimately have head: "\<not> is_space (hd text)" by (auto simp: is_digit_def is_space_def less_eq_char_def)
  show "py_strip text = text" using head front \<open>text \<noteq> []\<close> by (intro strip_edges) (simp_all add: is_space_def)
  then show "iso_micros (zulu (py_strip text)) = Some (s * 1000000)" using read front \<open>text \<noteq> []\<close> by (simp add: zulu_def)
  show "last text = CHR ''Z''" by (rule front)
  show "CHR ''T'' \<in> set text" unfolding shape by simp
  have digits: "CHR ''Z'' \<notin> set (pad2 n)" if "0 \<le> n" "n < 100" for n using that by (auto simp: pad2_def nat_less_iff)
  have "CHR ''Z'' \<notin> set (show_nat (nat y))" using show_nat_digits(1) [of "nat y"] by (auto simp: list_all_iff is_digit_def less_eq_char_def)
  then show "CHR ''Z'' \<notin> set (butlast text)" unfolding front(1) using digits range by simp
qed

lemma max_instant: "render_instant s = Some text \<Longrightarrow> s < 10 ^ 15"
  by (auto simp: render_instant_def Let_def max_ordinal_def epoch_ordinal_def split: if_splits)

text \<open>C3: what the time axis renders, it reads back. The text written for an instant from the year 1970 on is parsed to
  exactly the whole seconds of that instant, and rendering those seconds again gives the same text: no date of the
  calendar, leap years and century years included, is written as another.\<close>

theorem rendered_time_reads_back:
  assumes "seconds_to_rfc3339 (Some x) = Some (Some text)" and "1 \<le> x"
  shows "parse_rfc3339_seconds (Some text) = Some (of_int \<lfloor>x\<rfloor>) \<and> seconds_to_rfc3339 (Some (of_int \<lfloor>x\<rfloor>)) = Some (Some text)"
proof -
  have render: "render_instant \<lfloor>x\<rfloor> = Some text" and floor: "1 \<le> \<lfloor>x\<rfloor>"
    using assms by (auto simp: seconds_to_rfc3339_def dtrunc_def)
  have old: "- 30610224000 \<le> \<lfloor>x\<rfloor>" using floor by simp
  note z = rendered_zulu [OF render old]
  have "parse_rfc3339_seconds (Some text) = Some (of_int \<lfloor>x\<rfloor>)"
    using z floor max_instant [OF render] by (intro seconds_of_instant) simp_all
  moreover have "dtrunc (of_int \<lfloor>x\<rfloor>) = \<lfloor>x\<rfloor>" using floor by (simp add: dtrunc_def)
  ultimately show ?thesis using render by (simp add: seconds_to_rfc3339_def)
qed

theorem rendered_time_reads_back_witness:
  "seconds_to_rfc3339 (Some (19030499998 / 10)) = Some (Some ''2030-04-22T00:59:59Z'')
    \<and> parse_rfc3339_seconds (Some ''2030-04-22T00:59:59Z'') = Some 1903049999"
proof -
  have "seconds_to_rfc3339 (Some (19030499998 / 10)) = Some (Some ''2030-04-22T00:59:59Z'')" "\<lfloor>19030499998 / 10 :: rat\<rfloor> = 1903049999"
    by code_simp+
  then show ?thesis using rendered_time_reads_back [of "19030499998 / 10"] by simp
qed

end
