(* ===== verification/Admission.thy ===== *)
theory Admission
  imports RoutedLedger Calendar
begin

text \<open>
  The router and the ledger together: whether the row \<open>Production\<close> makes of an eligible order for a destination of the
  shared ledger is a row \<open>RoutedLedger\<close> admits. The lemmas bound what binary rounding does to the amounts, so that the
  ledger's own recomputation of the stake agrees with the router's.
\<close>

section \<open>The error of a rounding\<close>

lemma rsig_close:
  assumes b: "2 \<le> b" and p: "0 < p" and x: "0 \<le> x"
  shows "\<bar>rsig b p x - x\<bar> \<le> x / (2 * of_nat b ^ (p - 1))"
proof (cases "x = 0")
  case False
  let ?B = "of_nat b :: rat"
  have x0: "0 < x" using False x by simp
  define u where "u = ?B powi (flog b x - (int p - 1))"
  have u: "0 < u" using b by (simp add: u_def zero_less_power_int)
  have r: "rsig b p x = of_int (rhe (x / u)) * u" using x0 by (simp add: rsig_def Let_def u_def)
  have "rsig b p x - x = (of_int (rhe (x / u)) - x / u) * u" using u by (simp add: r left_diff_distrib)
  then have "\<bar>rsig b p x - x\<bar> = \<bar>of_int (rhe (x / u)) - x / u\<bar> * u" using u by (simp add: abs_mult)
  also have "\<dots> \<le> 1 / 2 * u" using rhe_close u by (intro mult_right_mono) simp_all
  also have "u = ?B powi flog b x / ?B ^ (p - 1)"
    using b p unfolding u_def by (subst power_int_diff) (simp_all add: of_nat_diff flip: power_int_of_nat)
  also have "1 / 2 * \<dots> \<le> 1 / 2 * (x / ?B ^ (p - 1))"
    using flog_bounds(1) [OF b x0] b by (intro mult_left_mono divide_right_mono) simp_all
  finally show ?thesis by simp
qed simp

text \<open>One part in \<open>10 ^ 15\<close> is more than a float loses, and more than a Decimal loses.\<close>

definition tiny :: rat where "tiny = 1 / 10 ^ 15"

lemma fround_close: "0 \<le> x \<Longrightarrow> (1 - tiny) * x \<le> fround x \<and> fround x \<le> (1 + tiny) * x"
proof -
  assume x: "0 \<le> x"
  have "\<bar>fround x - x\<bar> \<le> x / (2 * 2 ^ 52)" using rsig_close [of 2 53 x] x by (simp add: fround_def)
  also have "\<dots> \<le> tiny * x" using x by (simp add: tiny_def field_simps)
  finally show ?thesis by (simp add: algebra_simps) linarith
qed

lemma dround_close: "0 \<le> x \<Longrightarrow> (1 - tiny) * x \<le> dround x \<and> dround x \<le> (1 + tiny) * x"
proof -
  assume x: "0 \<le> x"
  have "\<bar>dround x - x\<bar> \<le> x / (2 * 10 ^ 27)" using rsig_close [of 10 28 x] x by (simp add: dround_def)
  also have "\<dots> \<le> tiny * x" using x by (simp add: tiny_def field_simps)
  finally show ?thesis by (simp add: algebra_simps) linarith
qed

lemma fround_frepr: "fround (frepr (fround x)) = fround x"
proof (cases "find (\<lambda>n. fround (rsig 10 n (fround x)) = fround x) [1..<18]")
  case (Some n)
  then have "fround (rsig 10 n (fround x)) = fround x" by (auto simp: find_Some_iff)
  then show ?thesis using Some by (simp add: frepr_def)
qed (simp add: frepr_def flt.rnd_idem)

lemma json_float_number [simp]: "json_number (json_float x) = Some (Binary (fround x))"
  by (simp add: json_number_def json_float_def fround_frepr)

section \<open>The stake the ledger recomputes\<close>

text \<open>How far a chain of roundings of a sum of products may drift.\<close>

lemma recomputed_stake:
  assumes c: "0 < c" and p: "0 \<le> p" and f: "0 \<le> f"
    and s: "s = dadd (dmul p c) f"
  defines "S \<equiv> fround s" and "A \<equiv> fround (fround (fround c * fround p) + fround f)"
  shows "\<bar>S - A\<bar> \<le> 20 * tiny * S"
proof -
  let ?w = "p * c"
  have w: "0 \<le> ?w" using c p by simp
  have d: "0 \<le> dround ?w" "0 \<le> s" using w f s by (simp_all add: dadd_def dmul_def dec.rnd_nonneg)
  have d1: "(1 - tiny) * ?w \<le> dround ?w" "dround ?w \<le> (1 + tiny) * ?w" using dround_close [OF w] by simp_all
  have d2: "(1 - tiny) * (dround ?w + f) \<le> s" "s \<le> (1 + tiny) * (dround ?w + f)"
    using dround_close [of "dround ?w + f"] d f s by (simp_all add: dadd_def dmul_def)
  have s1: "(1 - tiny) * s \<le> S" "S \<le> (1 + tiny) * s" using fround_close d unfolding S_def by blast+
  have cp: "(1 - tiny) * c \<le> fround c" "fround c \<le> (1 + tiny) * c" "(1 - tiny) * p \<le> fround p" "fround p \<le> (1 + tiny) * p"
    "(1 - tiny) * f \<le> fround f" "fround f \<le> (1 + tiny) * f" using fround_close c p f by (simp_all add: less_imp_le)
  have nn: "0 \<le> fround c" "0 \<le> fround p" "0 \<le> fround f" using c p f by (simp_all add: flt.rnd_nonneg)
  have t: "0 < tiny" "tiny < 1" by (simp_all add: tiny_def)
  have "((1 - tiny) * c) * ((1 - tiny) * p) \<le> fround c * fround p" "fround c * fround p \<le> ((1 + tiny) * c) * ((1 + tiny) * p)"
    using cp nn c p t by (intro mult_mono; simp)+
  moreover have "(1 - 2 * tiny) * ?w \<le> (1 - tiny) * (1 - tiny) * ?w" "(1 + tiny) * (1 + tiny) * ?w \<le> (1 + 3 * tiny) * ?w"
    using w by (intro mult_right_mono; simp add: tiny_def)+
  ultimately have m: "(1 - 2 * tiny) * ?w \<le> fround c * fround p" "fround c * fround p \<le> (1 + 3 * tiny) * ?w"
    by (simp_all add: ac_simps)
  define CP M F where "CP = fround c * fround p" and "M = fround CP" and "F = fround f"
  have CP: "0 \<le> CP" using nn by (simp add: CP_def)
  then have M: "(1 - tiny) * CP \<le> M" "M \<le> (1 + tiny) * CP" "0 \<le> M"
    using fround_close [of CP] unfolding M_def by (simp_all add: flt.rnd_nonneg)
  have A: "(1 - tiny) * (M + F) \<le> A" "A \<le> (1 + tiny) * (M + F)"
    using fround_close [of "M + F"] M nn unfolding A_def M_def F_def CP_def by simp_all
  define W where "W = ?w"
  note facts = d1 d2 s1 cp(5,6) m A M w f d
  note scaled = facts [unfolded CP_def [symmetric] F_def [symmetric] W_def [symmetric]]
  have "S - A \<le> 20 * tiny * S" using scaled by (simp add: tiny_def algebra_simps)
  moreover have "A - S \<le> 20 * tiny * S" using scaled by (simp add: tiny_def algebra_simps)
  ultimately show ?thesis by (simp add: abs_le_iff)
qed

lemma stake_agrees:
  assumes c: "0 < c" and p: "0 \<le> p" and f: "0 \<le> f" and s: "s = dadd (dmul p c) f"
  shows "\<not> stake_disagrees (json_float c) (json_float p) (json_float s) (json_float f)"
proof -
  define S A where "S = fround s" and "A = fround (fround (fround c * fround p) + fround f)"
  define T where "T = fround (fround (fround (1 / 10 ^ 6)) * fround (if 1 < S then S else 1))"
  have SA: "\<bar>S - A\<bar> \<le> 20 * tiny * S" unfolding S_def A_def by (rule recomputed_stake [OF assms])
  have S: "0 \<le> S" using c p f s unfolding S_def by (simp add: flt.rnd_nonneg dadd_def dec.rnd_nonneg dmul_def)
  have "\<bar>fround (S - A)\<bar> \<le> (1 + tiny) * \<bar>S - A\<bar>" using fround_close [of "\<bar>S - A\<bar>"] by (simp add: flt.rnd_abs)
  also have "\<dots> \<le> (1 + tiny) * (20 * tiny * S)" using SA by (intro mult_left_mono) (simp_all add: tiny_def)
  also have "\<dots> = ((1 + tiny) * (20 * tiny)) * S" by simp
  also have "\<dots> \<le> 1 / 10 ^ 12 * S" using S by (intro mult_right_mono) (simp_all add: tiny_def)
  finally have small: "\<bar>fround (S - A)\<bar> \<le> 1 / 10 ^ 12 * S" .
  have one: "fround 1 = 1" using fround_int [of 1] by simp
  have m: "fround (if 1 < S then S else 1) = (if 1 < S then S else 1)" using one by (simp add: S_def flt.rnd_idem)
  have "(1 - tiny) * (1 / 10 ^ 6) \<le> fround (1 / 10 ^ 6)" using fround_close [of "1 / 10 ^ 6"] by simp
  then have "1 / 10 ^ 7 \<le> fround (1 / 10 ^ 6)" by (simp add: tiny_def)
  then have "1 / 10 ^ 7 * S \<le> fround (1 / 10 ^ 6) * (if 1 < S then S else 1)" using S by (intro mult_mono) auto
  moreover have "(1 - tiny) * (fround (1 / 10 ^ 6) * (if 1 < S then S else 1)) \<le> T"
    unfolding T_def m flt.rnd_idem using S by (intro conjunct1 [OF fround_close]) (simp add: flt.rnd_nonneg)
  ultimately have "1 / 10 ^ 8 * S \<le> T" using S by (simp add: tiny_def algebra_simps)
  then have "\<not> T < \<bar>fround (S - A)\<bar>" using small S by simp
  then show ?thesis
    by (simp add: stake_disagrees_def num_op_def num_add_def num_sub_def num_mul_def num_float_def flt.rnd_idem
        S_def A_def T_def if_distrib [of num_value] one cong: if_cong)
qed

section \<open>The row of an eligible order\<close>

lemma rendered_aware:
  assumes "render_instant s = Some text" and "- 30610224000 \<le> s"
  shows "aware_ts (JStr text)" "nonempty (JStr text)"
proof -
  note z = rendered_zulu [OF assms]
  have split: "text = butlast text @ [CHR ''Z'']" using z(2,5) by (metis append_butlast_last_id)
  have "concat (map (\<lambda>c. if c = CHR ''Z'' then ''+00:00'' else [c]) (butlast text)) = concat (map (\<lambda>c. [c]) (butlast text))"
    using z(6) by (intro arg_cong [where f = concat] map_cong) auto
  then have "concat (map (\<lambda>c. if c = CHR ''Z'' then ''+00:00'' else [c]) text) = butlast text @ ''+00:00''"
    by (subst split) simp
  then show "aware_ts (JStr text)" using z(4) z(8) [of "butlast text @ ''+00:00''"] by (auto simp: aware_ts_def has_zone_def Let_def)
  show "nonempty (JStr text)" using z by (simp add: nonempty_def blank_def)
qed

lemma executed_at_aware:
  assumes "executed_at w = Inr v" and "1 \<le> w_first_execution_time w"
  shows "\<exists>text. v = JStr text \<and> aware_ts v \<and> nonempty v"
proof -
  have "0 \<le> dtrunc (w_first_execution_time w)" using assms(2) by (simp add: dtrunc_def)
  moreover obtain t where "render_instant (dtrunc (w_first_execution_time w)) = Some t" "v = JStr t"
    using assms(1) by (auto simp: executed_at_def seconds_to_rfc3339_def split: option.splits)
  ultimately show ?thesis using rendered_aware by force
qed

lemma date_shape_nonempty: "date_shape s \<Longrightarrow> nonempty (JStr s)"
  by (auto simp: date_shape_def nonempty_def blank_iff is_digit_def is_space_def less_eq_char_def split: list.splits)

lemma accounting_names: "set (dkeys r) \<subseteq> set WAGER_NAMES \<Longrightarrow> provenance_fields r = []"
proof -
  assume r: "set (dkeys r) \<subseteq> set WAGER_NAMES"
  have "list_all (\<lambda>k. \<not> is_provenance k) WAGER_NAMES" by code_simp
  then show ?thesis using r by (auto simp: provenance_fields_def filter_empty_conv list_all_iff simp flip: set_empty)
qed

definition ACCOUNTED_FIELDS :: "string list" where
  "ACCOUNTED_FIELDS = [''source_bet_key'', ''import_batch_id'', ''entry_method'', ''game_date'', ''market_ticker'', ''side'',
     ''executed_at'', ''contracts'', ''execution_price'', ''stake'', ''fees_paid'', ''fees_are_estimated'', ''venue'']"

lemma ACCOUNTED_FIELDS_facts:
  "sorted_set (filter (\<lambda>k. k \<notin> set WAGER_INPUT_FIELDS) ACCOUNTED_FIELDS) = []"
  "filter (\<lambda>f. f \<notin> set ACCOUNTED_FIELDS) WAGER_REQUIRED = []"
  "filter (\<lambda>f. f \<in> set ACCOUNTED_FIELDS) [''execution_price'', ''actual_price''] = [''execution_price'']"
  "filter (\<lambda>k. k \<in> set ACCOUNTED_FIELDS \<and> k \<noteq> ''actual_price'') WAGER_INPUT_FIELDS = ACCOUNTED_FIELDS"
  "set ACCOUNTED_FIELDS \<subseteq> set WAGER_NAMES"
  "''execution_price'' \<in> set ACCOUNTED_FIELDS" "''wager_id'' \<notin> set ACCOUNTED_FIELDS" "''schema_version'' \<notin> set ACCOUNTED_FIELDS"
  "distinct ACCOUNTED_FIELDS"
  by code_simp+

lemma dput_present: "k \<in> set (dkeys d) \<Longrightarrow> dput k (jget d k) d = d"
  by (induction d) (force simp: jget_Cons)+

lemma jget_self: "distinct (dkeys d) \<Longrightarrow> map (\<lambda>k. (k, jget d k)) (dkeys d) = d"
proof -
  assume "distinct (dkeys d)"
  then have "map (\<lambda>(k, v). (k, jget d k)) d = map (\<lambda>kv. kv) d" by (intro map_cong) (auto simp: jget_def)
  then show ?thesis by (simp add: split_def comp_def)
qed

text \<open>A row of these fields is admitted exactly when the record it makes has no problem.\<close>

lemma build_accounted:
  assumes "dkeys row = ACCOUNTED_FIELDS" and key: "jget row ''source_bet_key'' = JStr s" "\<not> blank s"
    and ident: "ident = ls_id_prefix spec @ ''w-'' @ take 24 (sha256_hex s)"
  shows "build_wager spec (JObj row) =
    (let rec = row @ [(''wager_id'', JStr ident), (''schema_version'', JStr (ls_wager_schema spec))]
     in if validate_wager spec rec = [] then Inr rec else Inl (join ''; '' (validate_wager spec rec)))"
proof -
  have mint: "mint_wager_id spec (jget row ''source_bet_key'') = Inr ident"
    using key by (simp add: mint_wager_id_def mint_def ident)
  have kept: "map (\<lambda>k. (k, jget row k)) ACCOUNTED_FIELDS = row" using jget_self [of row] assms(1) ACCOUNTED_FIELDS_facts by simp
  have keys: "fst ` set row = set ACCOUNTED_FIELDS" using assms(1) by (metis set_map)
  have made: "dput ''schema_version'' (JStr (ls_wager_schema spec)) (dput ''wager_id'' (JStr ident)
      (dput ''execution_price'' (jget row ''execution_price'') row))
      = row @ [(''wager_id'', JStr ident), (''schema_version'', JStr (ls_wager_schema spec))]"
    using keys ACCOUNTED_FIELDS_facts by (simp add: dput_present dput_new)
  have names: "provenance_fields row = []" using accounting_names [of row] assms(1) ACCOUNTED_FIELDS_facts by simp
  have "build_wager spec (JObj row) = (let rec = dput ''schema_version'' (JStr (ls_wager_schema spec)) (dput ''wager_id'' (JStr ident)
      (dput ''execution_price'' (jget row ''execution_price'') row))
     in if validate_wager spec rec = [] then Inr rec else Inl (join ''; '' (validate_wager spec rec)))"
    unfolding build_wager_def json.case names assms(1) mint Let_def ACCOUNTED_FIELDS_facts
    by (simp add: kept)
  then show ?thesis unfolding made .
qed

lemma source_key_text:
  assumes "production_source_key a t i = Inr k"
  shows "\<not> blank k"
proof -
  define h where "h = sha256_hex (key_material a t i)"
  have "k = SOURCE_KEY_VERSION @ '':'' @ h"
    using assms unfolding production_source_key_def h_def [symmetric] by (simp split: if_splits)
  then have "CHR '':'' \<in> set k" by simp
  moreover have "\<not> is_space (CHR '':'')" by (simp add: is_space_def)
  ultimately show ?thesis unfolding blank_iff by blast
qed

lemma minted_text: "nonempty (JStr (prefix @ ''w-'' @ t))"
  by (auto simp: nonempty_def blank_iff is_space_def)

lemma accounted_record_problems:
  assumes row: "accounted_row w batch = Inr row" and key: "\<not> blank (w_source_key w)" and batch: "\<not> blank batch"
    and ticker: "\<not> blank (w_market_ticker w)" and side: "w_side w \<in> {''YES'', ''NO''}" and start: "1 \<le> w_first_execution_time w"
    and c: "0 < w_contracts w" and p: "0 \<le> w_vwap_price w" and f: "0 \<le> w_total_fees w"
    and stake: "w_stake w = dadd (dmul (w_vwap_price w) (w_contracts w)) (w_total_fees w)"
    and ident: "ident = ls_id_prefix spec @ ''w-'' @ take 24 (sha256_hex (w_source_key w))"
  shows "dkeys row = ACCOUNTED_FIELDS \<and> jget row ''source_bet_key'' = JStr (w_source_key w) \<and> jget row ''import_batch_id'' = JStr batch
    \<and> (validate_wager spec (row @ [(''wager_id'', JStr ident), (''schema_version'', JStr (ls_wager_schema spec))]) = []
       \<longleftrightarrow> 0 < w_vwap_price w \<and> fround (w_vwap_price w) < 1 \<and> date_shape (w_game_date w))"
proof -
  obtain t where t: "executed_at w = Inr t" "aware_ts t" "nonempty t"
    using row executed_at_aware [OF _ start] by (auto simp: accounted_row_def result_simps)
  have r: "row = [(''source_bet_key'', JStr (w_source_key w)), (''import_batch_id'', JStr batch),
        (''entry_method'', JStr ''IMPORTED_RECEIPT''), (''game_date'', JStr (w_game_date w)),
        (''market_ticker'', JStr (w_market_ticker w)), (''side'', JStr (w_side w)), (''executed_at'', t),
        (''contracts'', json_float (w_contracts w)), (''execution_price'', json_float (w_vwap_price w)),
        (''stake'', json_float (w_stake w)), (''fees_paid'', json_float (w_total_fees w)),
        (''fees_are_estimated'', JBool False), (''venue'', JStr ''kalshi'')]"
    using row t by (simp add: accounted_row_def)
  have keys: "dkeys row = ACCOUNTED_FIELDS" by (simp add: r ACCOUNTED_FIELDS_def)
  define rec where "rec = row @ [(''wager_id'', JStr ident), (''schema_version'', JStr (ls_wager_schema spec))]"
  have names: "provenance_fields rec = []"
    using keys ACCOUNTED_FIELDS_facts(5) by (intro accounting_names) (auto simp: rec_def WAGER_NAMES_def simp flip: set_map)
  have g: "jget rec ''source_bet_key'' = JStr (w_source_key w)" "jget rec ''import_batch_id'' = JStr batch"
    "jget rec ''entry_method'' = JStr ''IMPORTED_RECEIPT''" "jget rec ''game_date'' = JStr (w_game_date w)"
    "jget rec ''market_ticker'' = JStr (w_market_ticker w)" "jget rec ''side'' = JStr (w_side w)" "jget rec ''executed_at'' = t"
    "jget rec ''contracts'' = json_float (w_contracts w)" "jget rec ''execution_price'' = json_float (w_vwap_price w)"
    "jget rec ''stake'' = json_float (w_stake w)" "jget rec ''fees_paid'' = json_float (w_total_fees w)"
    "jget rec ''fees_are_estimated'' = JBool False" "jget rec ''venue'' = JStr ''kalshi''"
    "jget rec ''wager_id'' = JStr ident" "jget rec ''schema_version'' = JStr (ls_wager_schema spec)"
    "jget rec ''execution_action'' = JNull"
    by (simp_all add: r rec_def jget_def)
  have mint: "mint_wager_id spec (JStr (w_source_key w)) = Inr ident" using key by (simp add: mint_wager_id_def mint_def ident)
  have texts: "nonempty (JStr (w_source_key w))" "nonempty (JStr batch)" "nonempty (JStr (w_market_ticker w))" "nonempty (JStr ident)"
    using key batch ticker minted_text ident by (simp_all add: nonempty_def)
  have st: "0 < w_stake w" if "0 < w_vwap_price w"
    using that c f unfolding stake dadd_def dmul_def dec.rnd_pos by (intro add_pos_nonneg) (simp_all add: dec.rnd_pos)
  have agrees: "\<not> stake_disagrees (json_float (w_contracts w)) (json_float (w_vwap_price w)) (json_float (w_stake w)) (json_float (w_total_fees w))"
    using c p f stake by (rule stake_agrees)
  have "validate_wager spec rec = [] \<longleftrightarrow> 0 < w_vwap_price w \<and> fround (w_vwap_price w) < 1 \<and> date_shape (w_game_date w)"
    unfolding validate_wager_def wager_problems_head_def wager_problems_body_def Let_def
    using texts t agrees side c f st
    by (auto simp: g names mint number_is_def flt.rnd_pos flt.rnd_nonneg ENTRY_METHOD_def VENUE_def date_shape_nonempty)
  then show ?thesis using keys unfolding rec_def by (simp add: r jget_def)
qed

section \<open>What the ledger does with an eligible order\<close>

lemma eligible_is_built:
  assumes "evaluate_order x sp gd status now dests stabilize incl combo cdests legs = Inr (Some w, None, fin)"
  shows "\<exists>sport date vwap fee finality. sp = Some sport \<and> gd = Some date \<and> o_vwap_price x = Some vwap \<and> o_total_fee x = Some fee
    \<and> Production.build_wager x sport date vwap fee finality combo legs = Inr w"
  using assms
  by (auto simp: evaluate_order_def Let_def result_simps split: if_splits option.splits)

text \<open>C13: what the router delivers the ledger takes. An eligible order of positive quantity, a price between 0 and 1
  dollars and a non-negative fee, made into a row of the shared ledger, is admitted -- with the record's stake
  agreeing with the ledger's own recomputation, whatever the roundings of the router's decimals and of both sides'
  floats -- exactly when the price of the side held is strictly between 0 and 1 as a float and the game date has the
  shape YYYY-MM-DD; an order filled at exactly 0 or 1 is refused. The order's ticker and the batch are not blank and the
  order was executed after the epoch.\<close>

theorem eligible_wager_is_admitted:
  assumes eligible: "evaluate_order x sp gd status now dests stabilize incl combo cdests legs = Inr (Some w, None, fin)"
    and row: "to_shared_ledger_row sport w batch = Inr row"
    and order: "0 < o_total_quantity x" "\<forall>p. o_vwap_price x = Some p \<longrightarrow> 0 \<le> p \<and> p \<le> 1" "\<forall>fee. o_total_fee x = Some fee \<longrightarrow> 0 \<le> fee"
      "\<not> blank (o_ticker x)" "1 \<le> o_first_execution_time x"
  shows "((\<exists>rec. admit_wager spec (Some batch) (JObj row) = Inr rec)
      \<longleftrightarrow> 0 < w_vwap_price w \<and> fround (w_vwap_price w) < 1 \<and> date_shape (w_game_date w))
    \<and> (\<forall>rec. admit_wager spec (Some batch) (JObj row) = Inr rec \<longrightarrow>
        set row \<subseteq> set rec \<and> mint_wager_id spec (JStr (w_source_key w)) = Inr (the (jstr (jget rec ''wager_id''))))"
proof -
  obtain sport' date vwap fee finality where o: "o_vwap_price x = Some vwap" "o_total_fee x = Some fee"
    and built: "Production.build_wager x sport' date vwap fee finality combo legs = Inr w"
    using eligible_is_built [OF eligible] by blast
  have prices: "0 \<le> vwap" "vwap \<le> 1" "0 \<le> fee" using order o by auto
  obtain a t i where key: "production_source_key a t i = Inr (w_source_key w)"
    using built by (auto simp: Production.build_wager_def Let_def result_simps)
  have w: "w_market_ticker w = o_ticker x" "w_side w \<in> {''YES'', ''NO''}" "w_first_execution_time w = o_first_execution_time x"
    "w_contracts w = o_total_quantity x" "w_total_fees w = fee" "0 \<le> w_vwap_price w"
    "w_stake w = dadd (dmul (w_vwap_price w) (w_contracts w)) (w_total_fees w)"
    using built prices by (auto simp: Production.build_wager_def Let_def result_simps dsub_def dec.rnd_nonneg EXPOSURE_SIDE_DESTINATIONS_def split: if_splits)
  have "accounted_row w batch = Inr row" "\<not> blank batch" using row by (auto simp: to_shared_ledger_row_def split: if_splits)
  note facts = accounted_record_problems [OF this(1) source_key_text [OF key] this(2), of _ spec, unfolded w(1,3,4,5), OF order(4) w(2) order(5,1) w(6) prices(3)]
  define ident where "ident = ls_id_prefix spec @ ''w-'' @ take 24 (sha256_hex (w_source_key w))"
  define rec where "rec = row @ [(''wager_id'', JStr ident), (''schema_version'', JStr (ls_wager_schema spec))]"
  have p: "dkeys row = ACCOUNTED_FIELDS" "jget row ''source_bet_key'' = JStr (w_source_key w)" "jget row ''import_batch_id'' = JStr batch"
    "validate_wager spec rec = [] \<longleftrightarrow> 0 < w_vwap_price w \<and> fround (w_vwap_price w) < 1 \<and> date_shape (w_game_date w)"
    using facts [of ident] w ident_def unfolding rec_def by auto
  have built: "build_wager spec (JObj row) = (if validate_wager spec rec = [] then Inr rec else Inl (join ''; '' (validate_wager spec rec)))"
    using build_accounted [OF p(1,2) source_key_text [OF key] ident_def] unfolding rec_def by (simp add: Let_def)
  then have admit: "admit_wager spec (Some batch) (JObj row) = (if validate_wager spec rec = [] then Inr rec else Inl (join ''; '' (validate_wager spec rec)))"
    using p(3) by (simp add: admit_wager_def)
  have "''wager_id'' \<notin> set (dkeys row)" using p(1) ACCOUNTED_FIELDS_facts by simp
  then have "dget row ''wager_id'' = None" by (simp add: map_of_eq_None_iff)
  then have "jget rec ''wager_id'' = JStr ident" by (simp add: rec_def jget_def map_add_def)
  moreover have "mint_wager_id spec (JStr (w_source_key w)) = Inr ident"
    using source_key_text [OF key] by (simp add: mint_wager_id_def mint_def ident_def)
  moreover have "set row \<subseteq> set rec" by (auto simp: rec_def)
  ultimately show ?thesis using admit p(4) by (auto simp: jstr_def)
qed

text \<open>The NO order of ten contracts at 40 cents, delivered to the NBA ledger.\<close>

theorem eligible_wager_is_admitted_witness:
  "\<exists>w fin row rec. evaluate_order (sample_order 1789430401) (Some ''NBA'') (Some ''2026-09-20'') (Some ''settled'') 0 [''NBA'']
      False False False [] [] = Inr (Some w, None, fin)
    \<and> to_shared_ledger_row ''NBA'' w ''b1'' = Inr row \<and> w_vwap_price w = 2 / 5
    \<and> admit_wager example_spec (Some ''b1'') (JObj row) = Inr rec"
proof -
  let ?x = "sample_order 1789430401"
  obtain w fin where e: "evaluate_order ?x (Some ''NBA'') (Some ''2026-09-20'') (Some ''settled'') 0 [''NBA''] False False False [] []
      = Inr (Some w, None, fin)"
    using evaluate_order_gates [of ?x "Some ''NBA''" "Some ''2026-09-20''" "Some ''settled''" 0 "[''NBA'']" False False False "[]" "[]"]
    by (auto simp: sample_order_def passes_gates_def)
  obtain finality where built: "Production.build_wager ?x ''NBA'' ''2026-09-20'' (3 / 5) (1 / 10) finality False [] = Inr w"
    using eligible_is_built [OF e] unfolding sample_order_def [of 1789430401] by (auto simp only: order_execution.select_convs option.inject)
  have "dsub 1 (3 / 5) = 2 / 5" by code_simp
  then have w: "w_sport w = ''NBA''" "w_game_date w = ''2026-09-20''" "w_vwap_price w = 2 / 5" "w_first_execution_time w = 1789430401"
    using built by (auto simp: Production.build_wager_def Let_def result_simps sample_order_def)
  have "seconds_to_rfc3339 (Some 1789430401) = Some (Some ''2026-09-15T00:00:01Z'')" by code_simp
  then obtain row where row: "to_shared_ledger_row ''NBA'' w ''b1'' = Inr row"
    using w by (simp add: to_shared_ledger_row_def accounted_row_def executed_at_def blank_iff is_space_def)
  have "fround (2 / 5) < 1" "date_shape ''2026-09-20''" by code_simp+
  then obtain rec where "admit_wager example_spec (Some ''b1'') (JObj row) = Inr rec"
    using eligible_wager_is_admitted [OF e row, of example_spec] w by (auto simp: sample_order_def blank_iff is_space_def)
  then show ?thesis using e row w by blast
qed

end
