(* ===== verification/EvidenceLedger.thy ===== *)
theory EvidenceLedger
  imports RoutedLedger
begin

text \<open>
  \<^verbatim>\<open>contract/standalone/execution_evidence_ledger.py\<close>: the append-only ledger of execution evidence a public
  destination keeps beside its wagers: the privacy screen, the shape of the three kinds of row, the import, the check of a
  whole file, and the link of an execution to a recommendation. A path is modelled by the text of its file and the JSON
  decoder is a parameter, as in \<open>RoutedLedger\<close>; text is ASCII without the control character DEL, which this
  module's \<open>json.dumps\<close> would escape and the other ledger's would not. A regular expression is the function that decides it; its
  \<open>$\<close> also stands before a final line feed. Arithmetic on \<open>window_seconds\<close> and the times is that of \<open>LedgerText\<close>.

  The lemmas: a valid row has a key; an import keeps a valid file valid, is idempotent, and lets no raw id in; a link is
  made exactly when one recommendation matches.
\<close>

section \<open>Shapes\<close>

definition EVIDENCE_SCHEMA_VERSION :: string where "EVIDENCE_SCHEMA_VERSION = ''edge_finder.execution_evidence.v1''"
definition CLOSE_QUALITIES :: "string list" where "CLOSE_QUALITIES = [''TRUE_CLOSE'', ''EARLIER_QUOTE_PROXY'', ''MISSING'']"
definition LINK_STATUSES :: "string list" where "LINK_STATUSES = [''LINKED'', ''AMBIGUOUS'', ''MISSING'']"

definition lower_hex :: "char \<Rightarrow> bool" where
  "lower_hex c \<longleftrightarrow> is_digit c \<or> c \<in> set ''abcdef''"

definition any_hex :: "char \<Rightarrow> bool" where
  "any_hex c \<longleftrightarrow> lower_hex c \<or> c \<in> set ''ABCDEF''"

text \<open>\<open>[0-9a-f]{n}$\<close> from the start of a text.\<close>

definition hex_text :: "nat \<Rightarrow> string \<Rightarrow> bool" where
  "hex_text n s \<longleftrightarrow> n \<le> length s \<and> list_all lower_hex (take n s) \<and> (drop n s = [] \<or> drop n s = [LF])"

definition digest_shape :: "string \<Rightarrow> bool" where
  "digest_shape = hex_text 32"

definition source_key_shape :: "string \<Rightarrow> bool" where
  "source_key_shape s \<longleftrightarrow> starts_with s ''kalshi:v1:'' \<and> hex_text 64 (drop 10 s)"

fun hex_groups :: "nat list \<Rightarrow> string \<Rightarrow> bool" where
  "hex_groups [] s = True"
| "hex_groups [n] s = (n \<le> length s \<and> list_all any_hex (take n s))"
| "hex_groups (n # ns) s =
     (n \<le> length s \<and> list_all any_hex (take n s) \<and> take 1 (drop n s) = ''-'' \<and> hex_groups ns (drop (Suc n) s))"

definition uuid_in :: "string \<Rightarrow> bool" where
  "uuid_in s \<longleftrightarrow> list_ex (\<lambda>i. hex_groups [8, 4, 4, 4, 12] (drop i s)) [0..<length s]"

text \<open>\<open>_RAW_ID_NAME_RE\<close>, which ignores case: one of the words, \<open>id\<close> or \<open>ids\<close> with an underscore or none between, at the
  end, after the start or an underscore; or the whole of one of four names.\<close>

definition RAW_ID_ENDINGS :: "string list" where
  "RAW_ID_ENDINGS = concat (map (\<lambda>w. concat (map (\<lambda>sep. map (\<lambda>ids. w @ sep @ ids) [''id'', ''ids'']) [[], ''_'']))
     [''order'', ''fill'', ''trade'', ''client_order'', ''exec'', ''execution''])"

definition ends_with :: "string \<Rightarrow> string \<Rightarrow> bool" where
  "ends_with s e \<longleftrightarrow> length e \<le> length s \<and> drop (length s - length e) s = e"

definition raw_id_name :: "string \<Rightarrow> bool" where
  "raw_id_name name =
     (let s = py_lower name; s = (if s \<noteq> [] \<and> last s = LF then butlast s else s) in
      list_ex (\<lambda>e. ends_with s e \<and> (let front = take (length s - length e) s in front = [] \<or> last front = CHR ''_''))
        RAW_ID_ENDINGS
      \<or> s \<in> set [''fill'', ''fills'', ''order'', ''orders''])"

fun walk_strings :: "json \<Rightarrow> string list" where
  "walk_strings (JStr s) = [s]"
| "walk_strings (JObj ob) = concat (map (\<lambda>(k, v). k # walk_strings v) ob)"
| "walk_strings (JList xs) = concat (map walk_strings xs)"
| "walk_strings _ = []"

fun walk_keys :: "json \<Rightarrow> string list" where
  "walk_keys (JObj ob) = concat (map (\<lambda>(k, v). k # walk_keys v) ob)"
| "walk_keys (JList xs) = concat (map walk_keys xs)"
| "walk_keys _ = []"

definition privacy_problems :: "json \<Rightarrow> string list" where
  "privacy_problems row =
     map (\<lambda>k. ''field name '' @ py_repr (JStr k) @ '' looks like a raw exchange id; only *_digest fields are accepted'')
       (filter raw_id_name (walk_keys row))
     @ problem (list_ex uuid_in (walk_strings row))
         ''a string value is shaped like a UUID (a raw order/fill/trade id); refused''"

definition ev_aware_ts :: "json \<Rightarrow> bool" where
  "ev_aware_ts v = (case v of JStr s \<Rightarrow> CHR ''T'' \<in> set s \<and> iso_micros s \<noteq> None \<and> has_zone s | _ \<Rightarrow> False)"

definition text_is :: "(string \<Rightarrow> bool) \<Rightarrow> json \<Rightarrow> bool" where
  "text_is test v = (case v of JStr s \<Rightarrow> test s | _ \<Rightarrow> False)"

text \<open>\<open>_price\<close> looks at the float; an order between two numbers is exact.\<close>

definition is_price :: "json \<Rightarrow> bool" where
  "is_price v = (case json_number v of None \<Rightarrow> False | Some n \<Rightarrow> 0 < num_float n \<and> num_float n < 1)"

definition number_less :: "json \<Rightarrow> json \<Rightarrow> bool" where
  "number_less v w = (case (json_number v, json_number w) of (Some x, Some y) \<Rightarrow> num_value x < num_value y | _ \<Rightarrow> False)"

section \<open>What is wrong with a row\<close>

definition COMMON_FIELDS :: "string list" where
  "COMMON_FIELDS = [''schema_version'', ''kind'', ''producer'', ''source_bet_key'', ''recorded_at'']"

definition EXECUTION_FIELDS :: "string list" where
  "EXECUTION_FIELDS = [''order_id_digest'', ''fill_id_digests'', ''fill_count'', ''first_fill_ts'', ''last_fill_ts'',
     ''execution_action'', ''all_taker'', ''flags'']"

definition CLOSE_FIELDS :: "string list" where "CLOSE_FIELDS = [''market_ticker'', ''side'', ''close'']"

definition CLOSE_BODY :: "string list" where
  "CLOSE_BODY = [''quality'', ''yes_bid'', ''yes_ask'', ''yes_mid'', ''last_trade'', ''as_of_ts'', ''cutoff_ts'',
     ''period_minutes'', ''minutes_before_cutoff'', ''source_endpoint'', ''flags'', ''reason'']"

definition LINK_FIELDS :: "string list" where
  "LINK_FIELDS = [''status'', ''recommendation_ref'', ''model_run_ref'', ''model_as_of'', ''link_basis'']"

text \<open>\<open>_ALLOWED\<close> and \<open>_PRODUCERS\<close>.\<close>

definition allowed_fields :: "(string, string list) dict" where
  "allowed_fields = [(''EXECUTION'', COMMON_FIELDS @ EXECUTION_FIELDS), (''CLOSE'', COMMON_FIELDS @ CLOSE_FIELDS),
     (''LINK'', COMMON_FIELDS @ LINK_FIELDS)]"

definition producers_of :: "(string, string list) dict" where
  "producers_of = [(''EXECUTION'', [''router'']), (''CLOSE'', [''router'', ''edge_finder'']), (''LINK'', [''edge_finder''])]"

definition unknown_fields :: "jobj \<Rightarrow> string list \<Rightarrow> string list" where
  "unknown_fields ob names = sorted_set (filter (\<lambda>k. k \<notin> set names) (dkeys ob))"

definition execution_problems :: "jobj \<Rightarrow> string list" where
  "execution_problems ob =
     (let first = jget ob ''first_fill_ts''; final = jget ob ''last_fill_ts'' in
       problem (\<not> text_is digest_shape (jget ob ''order_id_digest'')) ''order_id_digest must be 32 lowercase hex characters''
     @ (case jget ob ''fill_id_digests'' of
          JList ds \<Rightarrow>
            if \<not> list_all (text_is digest_shape) ds then [''fill_id_digests must be a list of 32-hex digests (possibly empty)'']
            else problem (\<not> distinct ds) ''fill_id_digests contains a duplicate''
        | _ \<Rightarrow> [''fill_id_digests must be a list of 32-hex digests (possibly empty)''])
     @ problem (case jget ob ''fill_count'' of JInt i \<Rightarrow> i < 0 | _ \<Rightarrow> True) ''fill_count must be a non-negative integer''
     @ concat (map (\<lambda>name. problem (\<not> number_is (\<lambda>x. 0 < x) (jget ob name)) (name @ '' must be a positive epoch time''))
         [''first_fill_ts'', ''last_fill_ts''])
     @ problem (number_less final first) ''last_fill_ts precedes first_fill_ts''
     @ problem (jget ob ''execution_action'' \<notin> set [JNull, JStr ''BUY'', JStr ''SELL''])
         ''execution_action must be BUY, SELL or null (null = not established)''
     @ problem (\<not> list_ex (py_eq (jget ob ''all_taker'')) [JNull, JBool True, JBool False])
         ''all_taker must be true, false or null (null = not established)''
     @ problem (case jget ob ''flags'' of JList fs \<Rightarrow> \<not> list_all is_text fs | _ \<Rightarrow> True) ''flags must be a list of strings'')"

definition PRICE_NAMES :: "string list" where "PRICE_NAMES = [''yes_bid'', ''yes_ask'', ''yes_mid'', ''last_trade'']"

text \<open>What is wrong with a close that carries a quote; \<open>q\<close> is its quality.\<close>

definition quote_problems :: "string \<Rightarrow> string list \<Rightarrow> jobj \<Rightarrow> string list" where
  "quote_problems q prices c =
     (let bid = jget c ''yes_bid''; ask = jget c ''yes_ask''; as_of = jget c ''as_of_ts''; cutoff = jget c ''cutoff_ts'';
          minutes = (case jget c ''period_minutes'' of JInt i \<Rightarrow> Some i | _ \<Rightarrow> None) in
       problem (prices = []) (''a '' @ q @ '' close must carry at least one price'')
     @ problem ((bid = JNull) \<noteq> (ask = JNull)) ''yes_bid and yes_ask are recorded together or not at all''
     @ problem (is_price bid \<and> is_price ask \<and> number_less ask bid) ''crossed quote: yes_ask below yes_bid''
     @ concat (map (\<lambda>name. problem (\<not> number_is (\<lambda>x. 0 < x) (jget c name))
           (''close.'' @ name @ '' must be a positive epoch time'')) [''as_of_ts'', ''cutoff_ts''])
     @ problem (number_less cutoff as_of) ''a close observed AFTER its cutoff is not a pre-start close''
     @ problem (\<not> text_is (\<lambda>s. s \<noteq> []) (jget c ''source_endpoint'')) ''close.source_endpoint is required''
     @ problem (case minutes of Some i \<Rightarrow> i \<le> 0 | None \<Rightarrow> True) ''close.period_minutes must be a positive integer''
     @ problem (q = ''TRUE_CLOSE'' \<and> (case minutes of Some i \<Rightarrow> 60 < i | None \<Rightarrow> False))
         ''a TRUE_CLOSE cannot come from a candle longer than 60 minutes'')"

definition close_body_problems :: "jobj \<Rightarrow> string list" where
  "close_body_problems c =
     (let unknown = unknown_fields c CLOSE_BODY; prices = filter (\<lambda>n. jget c n \<noteq> JNull) PRICE_NAMES in
       problem (unknown \<noteq> []) (''unknown close field(s) '' @ names_text unknown)
     @ (case jget c ''quality'' of
          JStr q \<Rightarrow>
            if q \<notin> set CLOSE_QUALITIES then [''close.quality must be one of '' @ names_text CLOSE_QUALITIES]
            else concat (map (\<lambda>n. problem (\<not> is_price (jget c n))
                   (''close.'' @ n @ '' must be a number strictly between 0 and 1 (dollars)'')) prices)
              @ (if q = ''MISSING''
                 then problem (prices \<noteq> []) ''a MISSING close carries no price''
                   @ problem (\<not> text_is (\<lambda>s. s \<noteq> []) (jget c ''reason'')) ''a MISSING close must state its reason''
                 else quote_problems q prices c)
        | _ \<Rightarrow> [''close.quality must be one of '' @ names_text CLOSE_QUALITIES]))"

definition close_problems :: "jobj \<Rightarrow> string list" where
  "close_problems ob =
     problem (\<not> text_is (\<lambda>s. \<not> blank s) (jget ob ''market_ticker'')) ''market_ticker is required''
   @ problem (jget ob ''side'' \<notin> set [JStr ''YES'', JStr ''NO'']) ''side must be YES or NO''
   @ (case jget ob ''close'' of JObj c \<Rightarrow> close_body_problems c | _ \<Rightarrow> [''close must be an object''])"

definition link_problems :: "jobj \<Rightarrow> string list" where
  "link_problems ob =
     (let refs = filter (\<lambda>n. jget ob n \<noteq> JNull) [''recommendation_ref'', ''model_run_ref''];
          as_of = jget ob ''model_as_of'';
          basis = problem (case jget ob ''link_basis'' of JObj b \<Rightarrow> b = [] | _ \<Rightarrow> True)
                    ''link_basis (how the match was made) is required'' in
      case jget ob ''status'' of
        JStr s \<Rightarrow>
          if s \<notin> set LINK_STATUSES then [''status must be one of '' @ names_text LINK_STATUSES]
          else concat (map (\<lambda>n. problem (\<not> text_is digest_shape (jget ob n))
                 (n @ '' must be an opaque 32-hex reference (digest), not a private identifier'')) refs)
            @ (if s = ''LINKED''
               then problem (''recommendation_ref'' \<notin> set refs) ''a LINKED row must carry recommendation_ref''
                 @ problem (\<not> ev_aware_ts as_of)
                     ''a LINKED row must carry model_as_of as an RFC 3339 timestamp with a zone''
               else problem (refs \<noteq> [] \<or> as_of \<noteq> JNull) (''a '' @ s @ '' row carries no reference and no model_as_of''))
            @ basis
      | _ \<Rightarrow> [''status must be one of '' @ names_text LINK_STATUSES])"

definition common_problems :: "string \<Rightarrow> jobj \<Rightarrow> string list" where
  "common_problems kind ob =
     (let unknown = unknown_fields ob (the (dget allowed_fields kind)); producers = the (dget producers_of kind) in
       problem (unknown \<noteq> []) (''unknown field(s) '' @ names_text unknown)
     @ problem (jget ob ''schema_version'' \<noteq> JStr EVIDENCE_SCHEMA_VERSION) (''schema_version must be '' @ EVIDENCE_SCHEMA_VERSION)
     @ problem (\<not> text_is (\<lambda>s. s \<in> set producers) (jget ob ''producer''))
         (kind @ '' rows may only be produced by '' @ names_text (sort producers))
     @ problem (\<not> text_is source_key_shape (jget ob ''source_bet_key'')) ''source_bet_key must be kalshi:v1:<64 hex>''
     @ problem (''recorded_at'' \<in> set (dkeys ob) \<and> \<not> ev_aware_ts (jget ob ''recorded_at''))
         ''recorded_at must be an RFC 3339 timestamp with a zone'')"

definition kind_problems :: "string \<Rightarrow> jobj \<Rightarrow> string list" where
  "kind_problems kind ob =
     (if kind = ''EXECUTION'' then execution_problems ob else if kind = ''CLOSE'' then close_problems ob else link_problems ob)"

text \<open>A list or an object is looked up in no dictionary or set: the lookup raises.\<close>

definition validate_row :: "json \<Rightarrow> string list result" where
  "validate_row row = (case row of
       JObj ob \<Rightarrow>
         let p = privacy_problems row; kind = jget ob ''kind'' in
         if p \<noteq> [] then Inr p
         else if \<not> hashable kind then Inl TypeError
         else if \<not> text_is (\<lambda>k. k \<in> set (dkeys allowed_fields)) kind
           then Inr [''kind must be one of '' @ names_text (sort (dkeys allowed_fields))]
         else if \<not> hashable (jget ob ''producer'') then Inl TypeError
         else let k = the (jstr kind) in Inr (common_problems k ob @ kind_problems k ob)
     | _ \<Rightarrow> Inr [''row is not an object''])"

section \<open>Keys and files\<close>

definition item :: "json \<Rightarrow> string \<Rightarrow> json result" where
  "item v k = (case v of
       JObj ob \<Rightarrow> (case dget ob k of None \<Rightarrow> Inl KeyError | Some w \<Rightarrow> Inr w)
     | _ \<Rightarrow> Inl TypeError)"

text \<open>\<open>row_key\<close>: the tuple, as what it compares equal by.\<close>

definition evidence_key :: "json \<Rightarrow> json result" where
  "evidence_key row =
     rbind (item row ''kind'') (\<lambda>kind.
     rbind (item row ''source_bet_key'') (\<lambda>key.
       if kind = JStr ''EXECUTION'' then Inr (JList [canon kind, canon key])
       else if kind = JStr ''CLOSE''
         then rbind (item row ''close'') (\<lambda>c. rbind (item c ''quality'') (\<lambda>q. Inr (JList [canon kind, canon key, canon q])))
       else rbind (item row ''status'') (\<lambda>s.
         Inr (JList [canon kind, canon key, canon s, canon (case row of JObj ob \<Rightarrow> jget ob ''recommendation_ref'' | _ \<Rightarrow> JNull)]))))"

text \<open>A tuple that holds a list or an object is no dictionary key.\<close>

definition hashed_key :: "json \<Rightarrow> json result" where
  "hashed_key row = rbind (evidence_key row) (\<lambda>k.
     if (case k of JList ks \<Rightarrow> list_all hashable ks | _ \<Rightarrow> False) then Inr k else Inl TypeError)"

definition identity :: "jobj \<Rightarrow> jobj" where
  "identity ob = filter (\<lambda>(k, v). k \<noteq> ''recorded_at'') ob"

definition row_fields :: "json \<Rightarrow> jobj" where
  "row_fields row = (case row of JObj ob \<Rightarrow> ob | _ \<Rightarrow> [])"

text \<open>The text of \<open>RowRefused\<close> is the left side; \<open>name\<close> is the file's.\<close>

fun read_rows :: "(string \<Rightarrow> json option) \<Rightarrow> string \<Rightarrow> nat \<Rightarrow> string list \<Rightarrow> string + json list" where
  "read_rows decode name n [] = Inr []"
| "read_rows decode name n (line # lines) =
     (if blank line then read_rows decode name (Suc n) lines
      else case decode line of
        None \<Rightarrow> Inl (name @ '' line '' @ show_nat n @ '' is not JSON'')
      | Some v \<Rightarrow> rbind (read_rows decode name (Suc n) lines) (\<lambda>rows. Inr (v # rows)))"

definition read_evidence :: "(string \<Rightarrow> json option) \<Rightarrow> string \<Rightarrow> string \<Rightarrow> string + json list" where
  "read_evidence decode name text = read_rows decode name 1 (py_splitlines text)"

text \<open>\<open>{row_key(r): r for r in rows}\<close>; only an object has a key.\<close>

fun keyed_evidence :: "json list \<Rightarrow> (json, jobj) dict \<Rightarrow> (json, jobj) dict result" where
  "keyed_evidence [] d = Inr d"
| "keyed_evidence (r # rs) d = rbind (hashed_key r) (\<lambda>k. keyed_evidence rs (dput k (row_fields r) d))"

section \<open>Importing\<close>

definition evidence_receipt :: "nat \<Rightarrow> row_status \<Rightarrow> string \<Rightarrow> jobj" where
  "evidence_receipt i status reason =
     [(''row'', JInt (int i)), (''status'', JStr (status_text status)), (''success'', JBool (status \<in> set [NEW, DUPLICATE_NOOP]))]
     @ (if reason \<noteq> [] then [(''reason'', JStr reason)] else [])"

text \<open>The loop of \<open>import_rows\<close>; it returns the rows to append.\<close>

fun evidence_loop :: "nat \<Rightarrow> json list \<Rightarrow> (json, jobj) dict \<Rightarrow> jobj list \<Rightarrow> import_result \<Rightarrow> (jobj list \<times> import_result) result" where
  "evidence_loop i [] on_file added res = Inr (added, res)"
| "evidence_loop i (row # rows) on_file added res =
     rbind (validate_row row) (\<lambda>problems.
       if problems \<noteq> []
       then evidence_loop (Suc i) rows on_file added
              (res\<lparr>ir_refused := ir_refused res + 1, ir_rows := ir_rows res @ [evidence_receipt i REFUSED (join ''; '' problems)]\<rparr>)
       else rbind (hashed_key row) (\<lambda>key.
         case dget on_file key of
           Some prior \<Rightarrow>
             if py_eq (JObj (identity prior)) (JObj (identity (row_fields row)))
             then evidence_loop (Suc i) rows on_file added
                    (res\<lparr>ir_duplicate := ir_duplicate res + 1, ir_rows := ir_rows res @ [evidence_receipt i DUPLICATE_NOOP []]\<rparr>)
             else evidence_loop (Suc i) rows on_file added
                    (res\<lparr>ir_refused := ir_refused res + 1,
                         ir_rows := ir_rows res @ [evidence_receipt i CONFLICT
                           ''same key already on the ledger with different content; an existing row is never rewritten'']\<rparr>)
         | None \<Rightarrow>
             evidence_loop (Suc i) rows (dput key (row_fields row) on_file) (added @ [row_fields row])
               (res\<lparr>ir_written := ir_written res + 1, ir_rows := ir_rows res @ [evidence_receipt i NEW []]\<rparr>)))"

text \<open>A refusal to read the ledger is a \<open>ValueError\<close> nothing catches. The rows are appended to the text as it is.\<close>

definition plan_evidence :: "(string \<Rightarrow> json option) \<Rightarrow> string \<Rightarrow> json list \<Rightarrow> (jobj list \<times> import_result) result" where
  "plan_evidence decode text rows =
     (case read_evidence decode [] text of
        Inl _ \<Rightarrow> Inl ValueError
      | Inr old \<Rightarrow> rbind (keyed_evidence old []) (\<lambda>on_file. evidence_loop 0 rows on_file [] empty_result))"

definition import_rows :: "(string \<Rightarrow> json option) \<Rightarrow> string \<Rightarrow> json list \<Rightarrow> (import_result \<times> string) result" where
  "import_rows decode text rows =
     rbind (plan_evidence decode text rows) (\<lambda>(added, res). Inr (res, text @ concat (map json_line added)))"

section \<open>The check of a file\<close>

fun check_rows :: "nat \<Rightarrow> json list \<Rightarrow> json list \<Rightarrow> json list option \<Rightarrow> string list result" where
  "check_rows n [] seen wager_keys = Inr []"
| "check_rows n (row # rows) seen wager_keys =
     rbind (validate_row row) (\<lambda>bad.
       let at_row = ''row '' @ show_nat n @ '': '' in
       if bad \<noteq> [] then rbind (check_rows (Suc n) rows seen wager_keys) (\<lambda>ps. Inr ((at_row @ join ''; '' bad) # ps))
       else rbind (hashed_key row) (\<lambda>k.
            rbind (check_rows (Suc n) rows (k # seen) wager_keys) (\<lambda>ps.
            Inr (problem (k \<in> set seen) (at_row @ ''duplicate key'')
                 @ problem (case wager_keys of None \<Rightarrow> False | Some ks \<Rightarrow> canon (jget (row_fields row) ''source_bet_key'') \<notin> set ks)
                     (at_row @ ''no wager with this source_bet_key (orphan evidence)'') @ ps))))"

definition validate_evidence ::
  "(string \<Rightarrow> json option) \<Rightarrow> string \<Rightarrow> string \<Rightarrow> json list option \<Rightarrow> string list result" where
  "validate_evidence decode name text wager_keys =
     (case read_evidence decode name text of
        Inl why \<Rightarrow> Inr [why]
      | Inr rows \<Rightarrow> check_rows 1 rows [] wager_keys)"

section \<open>The recommendation of an execution\<close>

definition py_number :: "json \<Rightarrow> number option" where
  "py_number v = (case v of JBool b \<Rightarrow> Some (Whole (if b then 1 else 0)) | _ \<Rightarrow> json_number v)"

text \<open>Whether one candidate matches; the subtraction raises where \<open>first\<close> is no number.\<close>

definition candidate_hits :: "json \<Rightarrow> number \<Rightarrow> string \<Rightarrow> string \<Rightarrow> jobj \<Rightarrow> bool result" where
  "candidate_hits first window ticker side c =
     (if jget c ''market_ticker'' = JStr ticker \<and> jget c ''side'' = JStr side then
        (case json_number (jget c ''created_at_ts'') of
           None \<Rightarrow> Inr False
         | Some created \<Rightarrow>
             (case py_number first of
                None \<Rightarrow> Inl TypeError
              | Some t \<Rightarrow> let age = num_value (num_sub t created) in Inr (0 \<le> age \<and> age \<le> num_value window)))
      else Inr False)"

fun matching :: "json \<Rightarrow> number \<Rightarrow> string \<Rightarrow> string \<Rightarrow> jobj list \<Rightarrow> jobj list result" where
  "matching first window ticker side [] = Inr []"
| "matching first window ticker side (c # cs) =
     rbind (candidate_hits first window ticker side c) (\<lambda>hit.
     rbind (matching first window ticker side cs) (\<lambda>hits. Inr (if hit then c # hits else hits)))"

text \<open>\<open>sorted({...})\<close>: a list or an object is in no set, and texts, numbers and \<open>None\<close> do not sort together.\<close>

definition distinct_refs :: "jobj list \<Rightarrow> json list result" where
  "distinct_refs hits =
     (let refs = map (\<lambda>c. jget c ''recommendation_ref'') hits; ks = remdups (map canon refs) in
      if \<not> list_all hashable refs then Inl TypeError
      else if 2 \<le> length ks \<and> \<not> list_all is_text ks \<and> \<not> list_all is_number ks then Inl TypeError
      else Inr ks)"

definition created_at :: "jobj \<Rightarrow> rat" where
  "created_at c = (case json_number (jget c ''created_at_ts'') of None \<Rightarrow> 0 | Some x \<Rightarrow> num_value x)"

text \<open>\<open>max(hits, key=...)\<close>: the first of the latest.\<close>

definition latest :: "jobj list \<Rightarrow> jobj" where
  "latest hits = foldl (\<lambda>best c. if created_at best < created_at c then c else best) (hd hits) (tl hits)"

definition link_recommendation ::
  "json \<Rightarrow> jobj list \<Rightarrow> json \<Rightarrow> string \<Rightarrow> string \<Rightarrow> jobj result" where
  "link_recommendation execution candidates window_seconds market_ticker side =
     (case py_number window_seconds of
        None \<Rightarrow> Inl TypeError
      | Some window \<Rightarrow>
     if num_value window \<le> 0 then Inl ValueError
     else rbind (item execution ''first_fill_ts'') (\<lambda>first.
       rbind (matching first window market_ticker side candidates) (\<lambda>hits.
       rbind (distinct_refs hits) (\<lambda>refs.
       rbind (item execution ''source_bet_key'') (\<lambda>key.
       let basis = [(''match'', JStr ''market+side exact; created before first fill''), (''window_seconds'', window_seconds),
             (''candidates_considered'', JInt (int (length hits)))];
           base = [(''schema_version'', JStr EVIDENCE_SCHEMA_VERSION), (''kind'', JStr ''LINK''), (''producer'', JStr ''edge_finder''),
             (''source_bet_key'', key), (''link_basis'', JObj basis)]
       in if hits = [] then Inr (base @ [(''status'', JStr ''MISSING'')])
          else if 1 < length refs then Inr (base @ [(''status'', JStr ''AMBIGUOUS'')])
          else let pick = latest hits in
            rbind (item (JObj pick) ''recommendation_ref'') (\<lambda>ref.
            rbind (item (JObj pick) ''model_as_of'') (\<lambda>as_of.
            Inr (base @ [(''status'', JStr ''LINKED''), (''recommendation_ref'', ref),
                         (''model_run_ref'', jget pick ''model_run_ref''), (''model_as_of'', as_of)]))))))))"

section \<open>The command line\<close>

text \<open>\<open>main\<close> for each command: the exit status, the receipts and the ledger's text afterwards; what is raised is the left
  side.\<close>

definition evidence_receipts :: "import_result \<Rightarrow> jobj" where
  "evidence_receipts res =
     [(''kind'', JStr ''execution_evidence''), (''written'', JInt (int (ir_written res))),
      (''alreadyPresent'', JInt (int (ir_duplicate res))), (''refused'', JInt (int (ir_refused res))),
      (''rows'', JList (map JObj (ir_rows res)))]"

definition main_import :: "(string \<Rightarrow> json option) \<Rightarrow> string \<Rightarrow> string \<Rightarrow> (int \<times> jobj option \<times> string) result" where
  "main_import decode payload text =
     (case decode payload of
        None \<Rightarrow> Inl ValueError
      | Some v \<Rightarrow>
          (case (case v of JObj ob \<Rightarrow> jget ob ''evidence'' | _ \<Rightarrow> JNull) of
             JList rows \<Rightarrow> rbind (import_rows decode text rows) (\<lambda>(res, text').
               Inr (if 0 < ir_refused res then 1 else 0, Some (evidence_receipts res), text'))
           | _ \<Rightarrow> Inr (2, None, text)))"

fun wager_key_set :: "json list \<Rightarrow> json list result" where
  "wager_key_set [] = Inr []"
| "wager_key_set (r # rs) = (case r of
       JObj ob \<Rightarrow>
         if hashable (jget ob ''source_bet_key'')
         then rbind (wager_key_set rs) (\<lambda>ks. Inr (canon (jget ob ''source_bet_key'') # ks)) else Inl TypeError
     | _ \<Rightarrow> Inl AttributeError)"

definition main_validate ::
  "(string \<Rightarrow> json option) \<Rightarrow> string \<Rightarrow> string \<Rightarrow> string option \<Rightarrow> (int \<times> string list) result" where
  "main_validate decode name text wagers =
     rbind (case wagers of
              None \<Rightarrow> Inr None
            | Some w \<Rightarrow> (case read_evidence decode [] w of
                Inl _ \<Rightarrow> Inl ValueError
              | Inr rows \<Rightarrow> rbind (wager_key_set rows) (\<lambda>ks. Inr (Some ks)))) (\<lambda>keys.
     rbind (validate_evidence decode name text keys) (\<lambda>problems.
     Inr (if problems \<noteq> [] then 1 else 0, problems)))"

section \<open>A valid row has a key\<close>

lemma text_is_text: "text_is test v \<Longrightarrow> \<exists>s. v = JStr s \<and> test s"
  by (simp add: text_is_def split: json.splits)

lemma jget_dget: "jget ob k = v \<Longrightarrow> v \<noteq> JNull \<Longrightarrow> dget ob k = Some v"
  by (simp add: jget_def split: option.splits)

lemma item_JObj: "jget ob k = v \<Longrightarrow> v \<noteq> JNull \<Longrightarrow> item (JObj ob) k = Inr v"
  using jget_dget [of ob k v] by (simp add: item_def)

lemma validate_rowE:
  assumes "validate_row row = Inr []"
  obtains ob kind where "row = JObj ob" and "privacy_problems row = []" and "jget ob ''kind'' = JStr kind"
    and "kind \<in> {''EXECUTION'', ''CLOSE'', ''LINK''}" and "hashable (jget ob ''producer'')"
    and "common_problems kind ob = []" and "kind_problems kind ob = []"
proof -
  obtain ob where ob: "row = JObj ob" using assms by (auto simp: validate_row_def split: json.splits)
  show thesis
    using assms that ob
    by (auto simp: validate_row_def Let_def jstr_def allowed_fields_def dest!: text_is_text split: if_splits)
qed

lemma validate_rowI:
  assumes "privacy_problems (JObj ob) = []" "jget ob ''kind'' = JStr kind" "kind \<in> {''EXECUTION'', ''CLOSE'', ''LINK''}"
    and "common_problems kind ob = []" "kind_problems kind ob = []"
  shows "validate_row (JObj ob) = Inr []"
proof -
  have "text_is (\<lambda>s. s \<in> set (the (dget producers_of kind))) (jget ob ''producer'')"
    using assms(4) by (simp add: common_problems_def Let_def)
  then have "hashable (jget ob ''producer'')" by (auto simp: hashable_def dest!: text_is_text)
  then show ?thesis using assms by (auto simp: validate_row_def Let_def hashable_def text_is_def allowed_fields_def jstr_def)
qed

lemma valid_row_key:
  assumes "validate_row row = Inr []"
  shows "\<exists>ob k. row = JObj ob \<and> hashed_key row = Inr k"
proof -
  obtain ob kind where r: "row = JObj ob" "jget ob ''kind'' = JStr kind" "kind \<in> {''EXECUTION'', ''CLOSE'', ''LINK''}"
    and c: "common_problems kind ob = []" and p: "kind_problems kind ob = []"
    using assms by (rule validate_rowE)
  obtain key where key: "jget ob ''source_bet_key'' = JStr key"
    using c by (auto simp: common_problems_def Let_def dest!: text_is_text)
  note items = item_JObj [OF r(2)] item_JObj [OF key]
  consider "kind = ''EXECUTION''" | "kind = ''CLOSE''" | "kind = ''LINK''" using r(3) by auto
  then show ?thesis
  proof cases
    case 1
    then show ?thesis using r items by (simp add: hashed_key_def evidence_key_def hashable_def)
  next
    case 2
    then obtain q body where q: "jget ob ''close'' = JObj body" "jget body ''quality'' = JStr q"
      using p by (auto simp: kind_problems_def close_problems_def close_body_problems_def Let_def split: json.splits)
    then show ?thesis using 2 r items item_JObj [OF q(1)] item_JObj [OF q(2)]
      by (simp add: hashed_key_def evidence_key_def hashable_def)
  next
    case 3
    then have l: "link_problems ob = []" using p by (simp add: kind_problems_def)
    then obtain s where s: "jget ob ''status'' = JStr s" by (auto simp: link_problems_def Let_def split: json.splits)
    have "hashable (canon (jget ob ''recommendation_ref''))"
      using l s by (cases "jget ob ''recommendation_ref''")
        (auto simp: link_problems_def Let_def hashable_def text_is_def split: if_splits)
    then show ?thesis using 3 r items item_JObj [OF s]
      by (simp add: hashed_key_def evidence_key_def hashable_def)
  qed
qed

section \<open>Importing is filing\<close>

definition admit_evidence :: "json \<Rightarrow> string + jobj" where
  "admit_evidence row = (case validate_row row of
       Inr [] \<Rightarrow> Inr (row_fields row)
     | Inr problems \<Rightarrow> Inl (join ''; '' problems)
     | Inl _ \<Rightarrow> Inl [])"

definition filing_key :: "jobj \<Rightarrow> json" where
  "filing_key ob = (case hashed_key (JObj ob) of Inr k \<Rightarrow> k | Inl _ \<Rightarrow> JNull)"

definition same_evidence :: "jobj \<Rightarrow> jobj \<Rightarrow> bool" where
  "same_evidence p r \<longleftrightarrow> py_eq (JObj (identity p)) (JObj (identity r))"

interpretation evidence: append_only admit_evidence filing_key same_evidence
  by unfold_locales (simp add: same_evidence_def)

abbreviation evidence_filings :: "(json, jobj) dict \<Rightarrow> json list \<Rightarrow> jobj filing list" where
  "evidence_filings \<equiv> file_all admit_evidence filing_key same_evidence"

lemma evidence_loop_files:
  "evidence_loop i rows on_file added res = Inr (added', res') \<Longrightarrow>
     added' = added @ filed_rows (evidence_filings on_file rows) \<and> tallied res (evidence_filings on_file rows) res'"
proof (induction rows arbitrary: i on_file added res)
  case Nil
  then show ?case by (simp add: tallied_def)
next
  case (Cons row rows)
  let ?f = "file_one admit_evidence filing_key same_evidence on_file row"
  have fs: "evidence_filings on_file (row # rows) = ?f # evidence_filings (put_filed filing_key ?f on_file) rows"
    by (simp add: Let_def)
  obtain problems where v: "validate_row row = Inr problems" using Cons.prems by (cases "validate_row row") simp_all
  show ?case
  proof (cases "problems = []")
    case False
    then have f: "?f = Rejected (join ''; '' problems)" using v by (simp add: file_one_def admit_evidence_def split: list.split)
    have "evidence_loop (Suc i) rows on_file added
        (res\<lparr>ir_refused := ir_refused res + 1, ir_rows := ir_rows res @ [evidence_receipt i REFUSED (join ''; '' problems)]\<rparr>)
      = Inr (added', res')" using Cons.prems v False by simp
    from Cons.IH [OF this] show ?thesis unfolding fs f by (simp add: tallied_def)
  next
    case True
    then obtain ob k where k: "row = JObj ob" "hashed_key row = Inr k" using valid_row_key v by blast
    then have key: "filing_key (row_fields row) = k" by (simp add: filing_key_def row_fields_def)
    have admit: "admit_evidence row = Inr (row_fields row)" using v True by (simp add: admit_evidence_def)
    show ?thesis
    proof (cases "dget on_file k")
      case None
      then have f: "?f = Filed (row_fields row)" using admit key by (simp add: file_one_def)
      have "evidence_loop (Suc i) rows (dput k (row_fields row) on_file) (added @ [row_fields row])
          (res\<lparr>ir_written := ir_written res + 1, ir_rows := ir_rows res @ [evidence_receipt i NEW []]\<rparr>) = Inr (added', res')"
        using Cons.prems v True k None by simp
      from Cons.IH [OF this] show ?thesis unfolding fs f using key by (simp add: tallied_def)
    next
      case (Some prior)
      show ?thesis
      proof (cases "same_evidence prior (row_fields row)")
        case same: True
        then have f: "?f = Present (row_fields row)" using admit key Some by (simp add: file_one_def)
        have "evidence_loop (Suc i) rows on_file added
            (res\<lparr>ir_duplicate := ir_duplicate res + 1, ir_rows := ir_rows res @ [evidence_receipt i DUPLICATE_NOOP []]\<rparr>) = Inr (added', res')"
          using Cons.prems v True k Some same by (simp add: same_evidence_def)
        from Cons.IH [OF this] show ?thesis unfolding fs f by (simp add: tallied_def)
      next
        case other: False
        then have f: "?f = Clash prior (row_fields row)" using admit key Some by (simp add: file_one_def)
        have "evidence_loop (Suc i) rows on_file added
            (res\<lparr>ir_refused := ir_refused res + 1, ir_rows := ir_rows res @ [evidence_receipt i CONFLICT
               ''same key already on the ledger with different content; an existing row is never rewritten'']\<rparr>) = Inr (added', res')"
          using Cons.prems v True k Some other by (simp add: same_evidence_def)
        from Cons.IH [OF this] show ?thesis unfolding fs f by (simp add: tallied_def)
      qed
    qed
  qed
qed

section \<open>A row read back is as valid as the row written\<close>

text \<open>No object of a decoded value has a key twice.\<close>

fun well_keyed :: "json \<Rightarrow> bool" where
  "well_keyed (JObj ob) \<longleftrightarrow> distinct (dkeys ob) \<and> (\<forall>kv \<in> set ob. well_keyed (snd kv))"
| "well_keyed (JList xs) \<longleftrightarrow> (\<forall>x \<in> set xs. well_keyed x)"
| "well_keyed _ \<longleftrightarrow> True"

lemma sorted_JObj: "sorted_json (JObj ob) = JObj (sorted_row ob)"
  by (simp add: sorted_row_def)

lemma walks_sorted [simp]:
  "set (walk_strings (sorted_json v)) = set (walk_strings v)" "set (walk_keys (sorted_json v)) = set (walk_keys v)"
proof -
  have "set (walk_strings (sorted_json v)) = set (walk_strings v) \<and> set (walk_keys (sorted_json v)) = set (walk_keys v)"
  proof (induction v)
    case (JObj ob)
    then have "(\<Union>kv \<in> set ob. insert (fst kv) (set (walk_strings (sorted_json (snd kv))))) = (\<Union>kv \<in> set ob. insert (fst kv) (set (walk_strings (snd kv))))"
      "(\<Union>kv \<in> set ob. insert (fst kv) (set (walk_keys (sorted_json (snd kv))))) = (\<Union>kv \<in> set ob. insert (fst kv) (set (walk_keys (snd kv))))"
      by (intro SUP_cong; force)+
    then show ?case by (simp add: split_def)
  qed auto
  then show "set (walk_strings (sorted_json v)) = set (walk_strings v)" "set (walk_keys (sorted_json v)) = set (walk_keys v)" by simp_all
qed

lemma privacy_none: "privacy_problems v = [] \<longleftrightarrow> (\<forall>k \<in> set (walk_keys v). \<not> raw_id_name k) \<and> (\<forall>s \<in> set (walk_strings v). \<not> uuid_in s)"
  by (auto simp: privacy_problems_def filter_empty_conv list_ex_iff)

lemma unknown_none: "unknown_fields ob names = [] \<longleftrightarrow> set (dkeys ob) \<subseteq> set names"
  by (auto simp: unknown_fields_def sorted_set_def filter_empty_conv simp flip: set_empty)

lemma text_checks_sorted [simp]: "text_is test (sorted_json v) = text_is test v" "ev_aware_ts (sorted_json v) = ev_aware_ts v"
  by (simp_all add: text_is_def ev_aware_ts_def)

lemma number_checks_sorted [simp]: "is_price (sorted_json v) = is_price v"
  "number_less (sorted_json v) w = number_less v w" "number_less v (sorted_json w) = number_less v w" "py_eq (sorted_json v) w = py_eq v w"
  by (simp_all add: is_price_def number_less_def py_eq_def)

lemma list_texts_sorted: "list_all (text_is test) ds \<Longrightarrow> map sorted_json ds = ds"
  by (induction ds) (auto dest: text_is_text)

lemma case_JInt_sorted [simp]: "(case sorted_json v of JInt i \<Rightarrow> f i | _ \<Rightarrow> d) = (case v of JInt i \<Rightarrow> f i | _ \<Rightarrow> d)"
  by (cases v) simp_all

lemma case_texts_sorted [simp]:
  "(case sorted_json v of JList fs \<Rightarrow> \<not> list_all is_text fs | _ \<Rightarrow> True) = (case v of JList fs \<Rightarrow> \<not> list_all is_text fs | _ \<Rightarrow> True)"
  by (cases v) (simp_all add: list_all_iff)

lemma case_nonempty_sorted [simp]:
  "(case sorted_json v of JObj b \<Rightarrow> b = [] | _ \<Rightarrow> True) = (case v of JObj b \<Rightarrow> b = [] | _ \<Rightarrow> True)"
proof (cases v)
  case (JObj ob)
  then show ?thesis by (cases ob) (auto simp flip: length_0_conv)
qed simp_all

lemma unknown_sorted: "unknown_fields (sorted_row r) names = [] \<longleftrightarrow> unknown_fields r names = []"
  by (simp only: unknown_none dkeys_sorted_row)

lemma execution_sorted:
  assumes "distinct (dkeys r)" and "execution_problems r = []"
  shows "execution_problems (sorted_row r) = []"
proof -
  obtain ds where ds: "jget r ''fill_id_digests'' = JList ds" "list_all (text_is digest_shape) ds"
    using assms(2) by (auto simp: execution_problems_def Let_def split: json.splits if_splits)
  then show ?thesis
    using assms(2) list_texts_sorted [OF ds(2)] by (simp add: execution_problems_def Let_def jget_sorted_row [OF assms(1)])
qed

lemma close_body_sorted:
  assumes "distinct (dkeys c)" and "close_body_problems c = []"
  shows "close_body_problems (sorted_row c) = []"
proof -
  have prices: "filter (\<lambda>n. jget (sorted_row c) n \<noteq> JNull) PRICE_NAMES = filter (\<lambda>n. jget c n \<noteq> JNull) PRICE_NAMES"
    by (simp add: jget_sorted_row [OF assms(1)])
  obtain q where q: "jget c ''quality'' = JStr q" using assms(2) by (auto simp: close_body_problems_def Let_def split: json.splits)
  have quotes: "quote_problems q ps (sorted_row c) = quote_problems q ps c" for ps
    by (simp add: quote_problems_def Let_def jget_sorted_row [OF assms(1)])
  show ?thesis
    using assms(2) q unfolding close_body_problems_def Let_def prices
    by (simp add: quotes unknown_sorted jget_sorted_row [OF assms(1)] comp_def split: if_splits)
qed

lemma close_sorted:
  assumes "well_keyed (JObj r)" and "close_problems r = []"
  shows "close_problems (sorted_row r) = []"
proof -
  have d: "distinct (dkeys r)" using assms(1) by simp
  obtain c where c: "jget r ''close'' = JObj c" using assms(2) by (auto simp: close_problems_def split: json.splits)
  then have "(''close'', JObj c) \<in> set r" by (auto simp: jget_def split: option.splits dest: map_of_SomeD)
  then have "distinct (dkeys c)" using assms(1) by force
  then have "close_body_problems (sorted_row c) = []" using assms(2) c by (intro close_body_sorted) (simp_all add: close_problems_def)
  then show ?thesis using assms(2) c
    by (simp add: close_problems_def jget_sorted_row [OF d] sorted_JObj del: sorted_json.simps)
qed

lemma link_sorted:
  assumes "distinct (dkeys r)" and "link_problems r = []"
  shows "link_problems (sorted_row r) = []"
  using assms(2) by (simp add: link_problems_def Let_def jget_sorted_row [OF assms(1)] comp_def split: json.splits if_splits) auto

lemma valid_row_sorted:
  assumes "well_keyed (JObj r)" and "validate_row (JObj r) = Inr []"
  shows "validate_row (JObj (sorted_row r)) = Inr []"
proof -
  have d: "distinct (dkeys r)" using assms(1) by simp
  obtain kind where r: "privacy_problems (JObj r) = []" "jget r ''kind'' = JStr kind" "kind \<in> {''EXECUTION'', ''CLOSE'', ''LINK''}"
    and c: "common_problems kind r = []" and p: "kind_problems kind r = []"
    using assms(2) by (elim validate_rowE) simp
  show ?thesis
  proof (rule validate_rowI)
    show "privacy_problems (JObj (sorted_row r)) = []" using r(1) unfolding privacy_none sorted_JObj [symmetric] by (simp only: walks_sorted)
    show "jget (sorted_row r) ''kind'' = JStr kind" "kind \<in> {''EXECUTION'', ''CLOSE'', ''LINK''}" using r by (simp_all add: jget_sorted_row [OF d])
    show "common_problems kind (sorted_row r) = []" using c
      by (simp add: common_problems_def Let_def unknown_sorted jget_sorted_row [OF d]) (metis dkeys_sorted_row set_map)
    show "kind_problems kind (sorted_row r) = []"
      using p execution_sorted [OF d] close_sorted [OF assms(1)] link_sorted [OF d] by (auto simp: kind_problems_def split: if_splits)
  qed
qed

lemma dget_sorted_row: "distinct (dkeys r) \<Longrightarrow> dget (sorted_row r) k = map_option sorted_json (dget r k)"
proof -
  assume d: "distinct (dkeys r)"
  let ?m = "map (\<lambda>(k, v). (k, sorted_json v)) r"
  have "map fst ?m = dkeys r" by auto
  then have "map_of (sort_key fst ?m) = map_of ?m" by (intro map_of_sort_key) (simp only: d)
  moreover have "map_of ?m k = map_option sorted_json (map_of r k)" by (induction r) auto
  ultimately show ?thesis by (simp add: sorted_row_def)
qed

lemma hashed_key_sorted:
  assumes "well_keyed (JObj r)" and "validate_row (JObj r) = Inr []"
  shows "hashed_key (JObj (sorted_row r)) = hashed_key (JObj r)"
proof -
  have d: "distinct (dkeys r)" using assms(1) by simp
  have item: "item (JObj (sorted_row r)) k = rbind (item (JObj r) k) (\<lambda>v. Inr (sorted_json v))" for k
    by (simp add: item_def dget_sorted_row [OF d] split: option.split)
  obtain kind where kind: "jget r ''kind'' = JStr kind" and p: "kind_problems kind r = []" using assms(2) by (elim validate_rowE) simp
  note k = item_JObj [OF kind]
  have tail: "canon (jget (sorted_row r) ''recommendation_ref'') = canon (jget r ''recommendation_ref'')"
    by (simp add: jget_sorted_row [OF d])
  show ?thesis
  proof (cases "kind = ''CLOSE''")
    case True
    then obtain q c where c: "jget r ''close'' = JObj c" "jget c ''quality'' = JStr q"
      using p by (auto simp: kind_problems_def close_problems_def close_body_problems_def Let_def split: json.splits)
    then have "(''close'', JObj c) \<in> set r" by (auto simp: jget_def split: option.splits dest: map_of_SomeD)
    then have "distinct (dkeys c)" using assms(1) by force
    then have "jget (sorted_row c) ''quality'' = JStr q" using c by (simp add: jget_sorted_row)
    then show ?thesis using True k item_JObj [OF c(1)] item_JObj [OF c(2)]
      by (simp add: hashed_key_def evidence_key_def item [of "''kind''"] item [of "''close''"] item [of "''source_bet_key''"] sorted_JObj item_JObj rbind_assoc
          del: sorted_json.simps)
  next
    case False
    then show ?thesis using k
      by (cases "kind = ''EXECUTION''")
        (simp_all add: hashed_key_def evidence_key_def item [of "''kind''"] item [of "''status''"] item [of "''source_bet_key''"] rbind_assoc tail)
  qed
qed

lemma identity_sorted: "distinct (dkeys p) \<Longrightarrow> canon (JObj (identity (sorted_row p))) = canon (JObj (identity p))"
proof -
  have "identity (sorted_row p) = sorted_row (identity p)"
    unfolding identity_def sorted_row_def by (simp add: filter_sort filter_map comp_def split_def)
  then show ?thesis by (simp only: sorted_JObj [symmetric] canon_sorted_json)
qed

section \<open>The file after an import\<close>

text \<open>A row as an import files it.\<close>

definition evidence_ok :: "jobj \<Rightarrow> bool" where
  "evidence_ok r \<longleftrightarrow> well_keyed (JObj r) \<and> validate_row (JObj r) = Inr []"

lemma evidence_ok_facts:
  assumes "evidence_ok r"
  shows "validate_row (JObj (sorted_row r)) = Inr []" "hashed_key (JObj r) = Inr (filing_key r)"
    "hashed_key (JObj (sorted_row r)) = Inr (filing_key r)" "distinct (dkeys r)"
    "jget (sorted_row r) ''source_bet_key'' = sorted_json (jget r ''source_bet_key'')"
proof -
  have v: "well_keyed (JObj r)" "validate_row (JObj r) = Inr []" using assms by (simp_all add: evidence_ok_def)
  show "validate_row (JObj (sorted_row r)) = Inr []" using v by (rule valid_row_sorted)
  obtain k where "hashed_key (JObj r) = Inr k" using valid_row_key [OF v(2)] by blast
  then show "hashed_key (JObj r) = Inr (filing_key r)" "hashed_key (JObj (sorted_row r)) = Inr (filing_key r)"
    using hashed_key_sorted [OF v] by (simp_all add: filing_key_def)
  show "distinct (dkeys r)" using v(1) by simp
  then show "jget (sorted_row r) ''source_bet_key'' = sorted_json (jget r ''source_bet_key'')" by (rule jget_sorted_row)
qed

lemma admitted_evidence:
  assumes "admit_evidence row = Inr r" and "well_keyed row"
  shows "evidence_ok r"
proof -
  have v: "validate_row row = Inr []" "r = row_fields row" using assms(1) by (auto simp: admit_evidence_def split: sum.splits list.splits)
  obtain ob where "row = JObj ob" using v(1) by (rule validate_rowE)
  then show ?thesis using v assms(2) by (simp add: evidence_ok_def row_fields_def)
qed

lemma read_rows_append:
  "read_rows decode name n (xs @ ys) = rbind (read_rows decode name n xs) (\<lambda>rows.
     rbind (read_rows decode name (n + length xs) ys) (\<lambda>rows'. Inr (rows @ rows')))"
proof (induction xs arbitrary: n)
  case Nil
  then show ?case by (cases "read_rows decode name n ys") simp_all
qed (auto simp: rbind_assoc split: option.split)

lemma read_rows_written:
  "\<forall>r \<in> set rs. reads_back decode r \<Longrightarrow>
     read_rows decode name n (map (\<lambda>r. json_dump (JObj r)) rs) = Inr (map (\<lambda>r. JObj (sorted_row r)) rs)"
proof (induction rs arbitrary: n)
  case (Cons r rs)
  then show ?case using json_dump_not_blank [of r] by (simp add: reads_back_def del: json_dump.simps)
qed simp

lemma read_evidence_extended:
  assumes "whole_lines text" and "\<forall>r \<in> set rs. reads_back decode r" and "read_evidence decode name text = Inr old"
  shows "read_evidence decode name (text @ concat (map json_line rs)) = Inr (old @ map (\<lambda>r. JObj (sorted_row r)) rs)"
  using assms
  by (simp add: read_evidence_def splitlines_append json_lines_split read_rows_append read_rows_written del: json_dump.simps)

lemma keyed_evidence_append: "keyed_evidence (xs @ ys) d = rbind (keyed_evidence xs d) (keyed_evidence ys)"
  by (induction xs arbitrary: d) (simp_all add: rbind_assoc)

lemma keyed_evidence_written:
  "\<forall>r \<in> set rs. evidence_ok r \<Longrightarrow>
     keyed_evidence (map (\<lambda>r. JObj (sorted_row r)) rs) d = Inr (fold (\<lambda>r. dput (filing_key r) (sorted_row r)) rs d)"
  by (induction rs arbitrary: d) (simp_all add: evidence_ok_facts row_fields_def)

lemma fold_dput_written:
  "distinct (map filing_key rs) \<Longrightarrow>
    (\<forall>r \<in> set rs. dget (fold (\<lambda>r. dput (filing_key r) (sorted_row r)) rs d) (filing_key r) = Some (sorted_row r))
    \<and> (\<forall>k. k \<notin> filing_key ` set rs \<longrightarrow> dget (fold (\<lambda>r. dput (filing_key r) (sorted_row r)) rs d) k = dget d k)"
  by (induction rs arbitrary: d) (auto simp: image_iff)

text \<open>Filing again against the extended file repeats every verdict.\<close>

lemma evidence_again:
  assumes rows: "\<forall>row \<in> set rows. well_keyed row" and fs_def: "fs = evidence_filings on_file rows"
    and later_def: "later = fold (\<lambda>r. dput (filing_key r) (sorted_row r)) (filed_rows fs) on_file"
  shows "list_all2 repeated fs (evidence_filings later rows)"
    and "distinct (map filing_key (filed_rows fs))"
    and "\<forall>r \<in> set (filed_rows fs). evidence_ok r \<and> dget on_file (filing_key r) = None"
proof -
  show ok: "\<forall>r \<in> set (filed_rows fs). evidence_ok r \<and> dget on_file (filing_key r) = None"
    using evidence.filed_from [of _ on_file rows] rows admitted_evidence by (fastforce simp: in_filed_rows fs_def)
  show apart: "distinct (map filing_key (filed_rows fs))" unfolding fs_def by (rule evidence.filed_distinct)
  note l = fold_dput_written [OF apart, of on_file, folded later_def]
  have alike: "evidence.alike r (sorted_row r)" if "r \<in> set (filed_rows fs)" for r
    using ok that evidence_ok_facts(4) [of r] identity_sorted [of r] by (simp add: evidence.alike_def same_evidence_def py_eq_def)
  have "evidence.kept on_file later"
    unfolding evidence.kept_def
  proof (intro allI impI)
    fix k p
    assume k: "dget on_file k = Some p"
    then have "k \<notin> filing_key ` set (filed_rows fs)" using ok by fastforce
    then show "\<exists>p'. dget later k = Some p' \<and> evidence.alike p p'" using l k by (auto simp: evidence.alike_def)
  qed
  then show "list_all2 repeated fs (evidence_filings later rows)"
    unfolding fs_def by (rule evidence.file_again) (use l alike in \<open>auto simp: in_filed_rows fs_def\<close>)
qed

lemma evidence_loop_runs:
  "(\<exists>out. evidence_loop i rows on_file added res = Inr out) \<longleftrightarrow> (\<forall>row \<in> set rows. \<exists>ps. validate_row row = Inr ps)"
proof (induction rows arbitrary: i on_file added res)
  case (Cons row rows)
  show ?case
  proof (cases "validate_row row")
    case (Inr problems)
    show ?thesis
    proof (cases "problems = []")
      case True
      then obtain k where "hashed_key row = Inr k" using valid_row_key Inr by blast
      then show ?thesis using Inr True Cons.IH by (simp split: option.split)
    qed (use Inr Cons.IH in simp)
  qed simp
qed simp

lemma check_rows_append:
  assumes "check_rows n xs seen ks = Inr []"
  shows "\<exists>found. length found = length xs \<and> set found \<inter> set seen = {} \<and> list_all2 (\<lambda>x k. hashed_key x = Inr k) xs found
    \<and> check_rows n (xs @ ys) seen ks = check_rows (n + length xs) ys (rev found @ seen) ks"
  using assms
proof (induction xs arbitrary: n seen)
  case (Cons x xs)
  then obtain k where x: "validate_row x = Inr []" "hashed_key x = Inr k"
    using valid_row_key by (auto simp: result_simps Let_def split: if_splits)
  then have rest: "check_rows (Suc n) xs (k # seen) ks = Inr []" and k: "k \<notin> set seen"
    and mine: "(case ks of None \<Rightarrow> False | Some ks \<Rightarrow> canon (jget (row_fields x) ''source_bet_key'') \<notin> set ks) = False"
    using Cons.prems by (auto simp: result_simps Let_def)
  obtain found where "length found = length xs" "set found \<inter> set (k # seen) = {}" "list_all2 (\<lambda>x k. hashed_key x = Inr k) xs found"
    "check_rows (Suc n) (xs @ ys) (k # seen) ks = check_rows (Suc n + length xs) ys (rev found @ k # seen) ks"
    using Cons.IH [OF rest] by blast
  then show ?case using x k mine by (intro exI [where x = "k # found"]) (auto simp: Let_def problem_def rbind_def split: sum.split)
qed simp

lemma check_rows_written:
  assumes "\<forall>r \<in> set rs. evidence_ok r" "distinct (map filing_key rs)" "\<forall>r \<in> set rs. filing_key r \<notin> set seen"
    and "\<forall>r \<in> set rs. case ks of None \<Rightarrow> True | Some ks \<Rightarrow> canon (jget r ''source_bet_key'') \<in> set ks"
  shows "check_rows n (map (\<lambda>r. JObj (sorted_row r)) rs) seen ks = Inr []"
  using assms
proof (induction rs arbitrary: n seen)
  case (Cons r rs)
  have "check_rows (Suc n) (map (\<lambda>r. JObj (sorted_row r)) rs) (filing_key r # seen) ks = Inr []"
    using Cons.prems by (intro Cons.IH) (auto simp: image_iff)
  then show ?case using Cons.prems evidence_ok_facts [of r] by (simp add: Let_def row_fields_def split: option.splits)
qed simp

lemma keyed_evidence_keys:
  assumes "list_all2 (\<lambda>x k. hashed_key x = Inr k) xs ks"
  shows "\<exists>d'. keyed_evidence xs d = Inr d' \<and> (\<forall>k. dget d' k = None \<longleftrightarrow> dget d k = None \<and> k \<notin> set ks)"
  using assms
proof (induction xs ks arbitrary: d rule: list_all2_induct)
  case (Cons x xs k ks)
  then obtain d' where "keyed_evidence xs (dput k (row_fields x) d) = Inr d'"
    "\<forall>k'. dget d' k' = None \<longleftrightarrow> dget (dput k (row_fields x) d) k' = None \<and> k' \<notin> set ks" by blast
  then show ?case using Cons.hyps by auto
qed simp

lemma read_rows_name: "read_rows decode name n ls = Inr rows \<longleftrightarrow> read_rows decode name' n' ls = Inr rows"
  by (induction ls arbitrary: n n' rows) (auto simp: result_simps split: option.splits)

lemma read_evidence_name: "read_evidence decode name text = Inr rows \<longleftrightarrow> read_evidence decode name' text = Inr rows"
  unfolding read_evidence_def by (rule read_rows_name)

lemma plan_evidence_files:
  assumes "plan_evidence decode text rows = Inr (added, res)"
  obtains old on_file where "read_evidence decode [] text = Inr old" and "keyed_evidence old [] = Inr on_file"
    and "added = filed_rows (evidence_filings on_file rows)" and "tallied empty_result (evidence_filings on_file rows) res"
    and "\<forall>row \<in> set rows. \<exists>ps. validate_row row = Inr ps"
proof -
  obtain old on_file where f: "read_evidence decode [] text = Inr old" "keyed_evidence old [] = Inr on_file"
    and run: "evidence_loop 0 rows on_file [] empty_result = Inr (added, res)"
    using assms by (auto simp: plan_evidence_def result_simps split: sum.splits)
  show thesis using that [OF f] evidence_loop_files [OF run] evidence_loop_runs [of 0 rows on_file "[]" empty_result] run by auto
qed

text \<open>C25: the evidence ledger grows safely. However many rows an import is given, and whatever they hold, a valid file
  stays valid: what is appended are rows of the batch that pass the whole check -- no field named like a raw exchange id,
  no text shaped like one, the kind's own producer and shape, no key twice -- each row of the batch is counted once, and
  importing the batch again leaves the file as it is and repeats every verdict, with DUPLICATE_NOOP where the row was
  new. The rows are decoded JSON, the file ends its lines, the decoder reads back what was written, and rows for wagers
  the check knows stay among them.\<close>

theorem evidence_file_stays_valid:
  assumes valid: "validate_evidence decode name text ks = Inr []" and whole: "whole_lines text"
    and run: "plan_evidence decode text rows = Inr (added, res)"
    and decoded: "\<forall>row \<in> set rows. well_keyed row" and backs: "\<forall>r \<in> set added. reads_back decode r"
    and owned: "\<forall>r \<in> set added. case ks of None \<Rightarrow> True | Some ks \<Rightarrow> canon (jget r ''source_bet_key'') \<in> set ks"
  shows "\<exists>text' res2. import_rows decode text rows = Inr (res, text') \<and> starts_with text' text
    \<and> validate_evidence decode name text' ks = Inr []
    \<and> (\<forall>r \<in> set added. JObj r \<in> set rows \<and> privacy_problems (JObj r) = [])
    \<and> ir_written res = length added \<and> ir_written res + ir_duplicate res + ir_refused res = length rows
    \<and> import_rows decode text' rows = Inr (res2, text')
    \<and> ir_written res2 = 0 \<and> ir_duplicate res2 = ir_duplicate res + ir_written res \<and> ir_refused res2 = ir_refused res"
proof -
  let ?text = "text @ concat (map json_line added)"
  obtain old on_file where f: "read_evidence decode [] text = Inr old" "keyed_evidence old [] = Inr on_file"
    and added: "added = filed_rows (evidence_filings on_file rows)" and tally: "tallied empty_result (evidence_filings on_file rows) res"
    and runs: "\<forall>row \<in> set rows. \<exists>ps. validate_row row = Inr ps" using run by (rule plan_evidence_files)
  define later where "later = fold (\<lambda>r. dput (filing_key r) (sorted_row r)) added on_file"
  note again = evidence_again [OF decoded refl later_def [unfolded added], folded added]
  have old: "read_evidence decode name text = Inr old" using f(1) read_evidence_name by blast
  have read: "read_evidence decode n ?text = Inr (old @ map (\<lambda>r. JObj (sorted_row r)) added)" for n
    using read_evidence_extended [OF whole backs, of n old] f(1) read_evidence_name by blast
  have "check_rows 1 old [] ks = Inr []" using valid old by (simp add: validate_evidence_def)
  from check_rows_append [OF this, of "map (\<lambda>r. JObj (sorted_row r)) added"]
  obtain found where found: "list_all2 (\<lambda>x k. hashed_key x = Inr k) old found"
    "check_rows 1 (old @ map (\<lambda>r. JObj (sorted_row r)) added) [] ks
      = check_rows (1 + length old) (map (\<lambda>r. JObj (sorted_row r)) added) (rev found) ks" by auto
  have "\<forall>k. dget on_file k = None \<longleftrightarrow> k \<notin> set found" using keyed_evidence_keys [OF found(1), of "[]"] f(2) by auto
  then have "check_rows (1 + length old) (map (\<lambda>r. JObj (sorted_row r)) added) (rev found) ks = Inr []"
    using again owned by (intro check_rows_written) auto
  then have still: "validate_evidence decode name ?text ks = Inr []" using read [of name] found(2) by (simp add: validate_evidence_def)
  have "keyed_evidence (old @ map (\<lambda>r. JObj (sorted_row r)) added) [] = Inr later"
    using f(2) again(3) keyed_evidence_written [of added on_file] by (simp add: keyed_evidence_append later_def)
  moreover obtain added2 res2 where r2: "evidence_loop 0 rows later [] empty_result = Inr (added2, res2)"
    using runs evidence_loop_runs [of 0 rows later "[]" empty_result] by (metis prod.exhaust)
  moreover have "added2 = []" "tallied empty_result (evidence_filings later rows) res2"
    using evidence_loop_files [OF r2] repeated_files_nothing [OF again(1)] by simp_all
  ultimately have second: "import_rows decode ?text rows = Inr (res2, ?text)" and tally2: "tallied empty_result (evidence_filings later rows) res2"
    using read [of "[]"] by (simp_all add: import_rows_def plan_evidence_def)
  have mine: "JObj r \<in> set rows \<and> privacy_problems (JObj r) = []" if r: "r \<in> set added" for r
  proof -
    obtain row where row: "row \<in> set rows" "admit_evidence row = Inr r"
      using r evidence.filed_from [of r on_file rows] unfolding added by (auto simp: in_filed_rows)
    then have v: "validate_row row = Inr []" "r = row_fields row" by (auto simp: admit_evidence_def split: sum.splits list.splits)
    obtain ob where ob: "row = JObj ob" "privacy_problems row = []" using v(1) by (rule validate_rowE)
    then show ?thesis using row v by (simp add: row_fields_def)
  qed
  have "length (evidence_filings on_file rows) = length rows" for on_file by (induction rows arbitrary: on_file) (simp_all add: Let_def)
  then have counts: "ir_written res = length added \<and> ir_written res + ir_duplicate res + ir_refused res = length rows"
    using tally added by (simp add: tallied_def empty_result_def)
  have first: "import_rows decode text rows = Inr (res, ?text)" using run by (simp add: import_rows_def)
  show ?thesis
    using first still mine counts second tallied_again [OF again(1) tally tally2] by (intro exI [where x = ?text] exI [where x = res2]) auto
qed

section \<open>A link is a unique recommendation\<close>

lemma uuid_has_dash: "uuid_in s \<Longrightarrow> CHR ''-'' \<in> set s"
proof -
  assume "uuid_in s"
  then obtain i where "take 1 (drop 8 (drop i s)) = ''-''" by (auto simp: uuid_in_def list_ex_iff)
  then have "CHR ''-'' \<in> set (take 1 (drop 8 (drop i s)))" by simp
  then show ?thesis by (meson in_set_dropD in_set_takeD)
qed

lemma hex_text_no_dash: "hex_text n s \<Longrightarrow> CHR ''-'' \<notin> set s"
proof -
  assume h: "hex_text n s"
  have "\<not> lower_hex (CHR ''-'')" by code_simp
  then have "CHR ''-'' \<notin> set (take n s)" using h by (auto simp: hex_text_def list_all_iff)
  moreover have "CHR ''-'' \<notin> set (drop n s)" using h by (auto simp: hex_text_def LF_def)
  ultimately show ?thesis by (metis Un_iff append_take_drop_id set_append)
qed

lemma source_key_no_dash: "source_key_shape s \<Longrightarrow> CHR ''-'' \<notin> set s"
proof -
  assume k: "source_key_shape s"
  then obtain r where "s = ''kalshi:v1:'' @ r" by (auto simp: source_key_shape_def starts_with_iff)
  moreover from this have "hex_text 64 r" using k by (simp add: source_key_shape_def)
  then have "CHR ''-'' \<notin> set r" by (rule hex_text_no_dash)
  ultimately show ?thesis by auto
qed

lemma digest_no_uuid: "digest_shape s \<Longrightarrow> \<not> uuid_in s"
  using uuid_has_dash hex_text_no_dash unfolding digest_shape_def by blast

text \<open>When a candidate recommends an execution whose first fill was at \<open>t\<close>.\<close>

definition recommends :: "number \<Rightarrow> number \<Rightarrow> string \<Rightarrow> string \<Rightarrow> jobj \<Rightarrow> bool" where
  "recommends t window ticker side c \<longleftrightarrow> jget c ''market_ticker'' = JStr ticker \<and> jget c ''side'' = JStr side
     \<and> (case json_number (jget c ''created_at_ts'') of
          None \<Rightarrow> False
        | Some created \<Rightarrow> 0 \<le> num_value (num_sub t created) \<and> num_value (num_sub t created) \<le> num_value window)"

lemma matching_filter:
  "py_number first = Some t \<Longrightarrow> matching first window ticker side cs = Inr (filter (recommends t window ticker side) cs)"
  by (induction cs) (auto simp: candidate_hits_def recommends_def Let_def split: option.splits)

lemma latest_in: "hits \<noteq> [] \<Longrightarrow> latest hits \<in> set hits \<and> (\<forall>c \<in> set hits. created_at c \<le> created_at (latest hits))"
proof -
  have fold: "foldl (\<lambda>best c. if created_at best < created_at c then c else best) b cs \<in> insert b (set cs)
    \<and> (\<forall>c \<in> insert b (set cs). created_at c \<le> created_at (foldl (\<lambda>best c. if created_at best < created_at c then c else best) b cs))" for b cs
  proof (induction cs arbitrary: b)
    case (Cons c cs)
    show ?case using Cons [of "if created_at b < created_at c then c else b"] by (auto split: if_splits)
  qed simp
  assume "hits \<noteq> []"
  then show ?thesis using fold [of "hd hits" "tl hits"] by (cases hits) (auto simp: latest_def)
qed

text \<open>What the sport repository's decision records are to hold.\<close>

definition candidate_ok :: "jobj \<Rightarrow> bool" where
  "candidate_ok c \<longleftrightarrow> text_is digest_shape (jget c ''recommendation_ref'')
     \<and> (jget c ''model_run_ref'' = JNull \<or> text_is digest_shape (jget c ''model_run_ref''))
     \<and> ev_aware_ts (jget c ''model_as_of'') \<and> text_is (\<lambda>s. \<not> uuid_in s) (jget c ''model_as_of'')"

lemma distinct_refs_texts:
  assumes "\<forall>c \<in> set hits. candidate_ok c"
  shows "\<exists>refs. distinct_refs hits = Inr refs \<and> (1 < length refs \<longleftrightarrow> (\<exists>c \<in> set hits. \<exists>c' \<in> set hits. jget c ''recommendation_ref'' \<noteq> jget c' ''recommendation_ref''))"
proof -
  let ?r = "\<lambda>c. jget c ''recommendation_ref''"
  have t: "\<exists>s. ?r c = JStr s" if "c \<in> set hits" for c using assms that by (auto simp: candidate_ok_def dest!: text_is_text)
  then have c: "map canon (map ?r hits) = map ?r hits" by fastforce
  have "hashable (?r x) \<and> is_text (?r x)" if "x \<in> set hits" for x using t [OF that] by (auto simp: hashable_def is_text_def jstr_def)
  then have "list_all hashable (map ?r hits)" "list_all is_text (remdups (map ?r hits))" by (auto simp: list_all_iff)
  then have "distinct_refs hits = Inr (remdups (map ?r hits))" unfolding distinct_refs_def Let_def c by simp
  moreover have "1 < length (remdups (map ?r hits)) \<longleftrightarrow> (\<exists>c \<in> set hits. \<exists>c' \<in> set hits. ?r c \<noteq> ?r c')"
  proof -
    have "length (remdups (map ?r hits)) = card (?r ` set hits)" by (simp add: length_remdups_card_conv)
    moreover have "card (?r ` set hits) \<le> 1 \<longleftrightarrow> (\<forall>c \<in> set hits. \<forall>c' \<in> set hits. ?r c = ?r c')"
      by (auto simp: card_le_Suc0_iff_eq)
    ultimately show ?thesis by (auto simp flip: not_le)
  qed
  ultimately show ?thesis by blast
qed

text \<open>The row of a link is a valid row.\<close>

lemma jget_Nil: "jget [] k = JNull"
  by (simp add: jget_def)

lemma link_row_valid:
  assumes key: "source_key_shape key" and w: "is_number w"
    and tail: "tail = [(''status'', JStr ''MISSING'')] \<or> tail = [(''status'', JStr ''AMBIGUOUS'')]
      \<or> (candidate_ok c \<and> tail = [(''status'', JStr ''LINKED''), (''recommendation_ref'', jget c ''recommendation_ref''),
           (''model_run_ref'', jget c ''model_run_ref''), (''model_as_of'', jget c ''model_as_of'')])"
  shows "validate_row (JObj ([(''schema_version'', JStr EVIDENCE_SCHEMA_VERSION), (''kind'', JStr ''LINK''), (''producer'', JStr ''edge_finder''),
             (''source_bet_key'', JStr key), (''link_basis'', JObj [(''match'', JStr ''market+side exact; created before first fill''),
               (''window_seconds'', w), (''candidates_considered'', JInt n)])] @ tail)) = Inr []" (is "validate_row (JObj (?base @ tail)) = _")
proof -
  define row where "row = ?base @ tail"
  have names: "list_all (\<lambda>k. \<not> raw_id_name k \<and> \<not> uuid_in k) (COMMON_FIELDS @ LINK_FIELDS
      @ [''match'', ''window_seconds'', ''candidates_considered''])" by code_simp
  have texts: "list_all (\<lambda>s. \<not> uuid_in s) ([EVIDENCE_SCHEMA_VERSION, ''LINK'', ''edge_finder'', ''market+side exact; created before first fill'']
      @ LINK_STATUSES)" by code_simp
  have nokey: "\<not> uuid_in key" using key source_key_no_dash uuid_has_dash by blast
  have wn: "walk_strings w = []" "walk_keys w = []" using w by (cases w; simp add: is_number_def json_number_def)+
  have cand: "walk_keys (jget c k) = []" "\<forall>s \<in> set (walk_strings (jget c k)). \<not> uuid_in s"
    if "candidate_ok c" "k \<in> {''recommendation_ref'', ''model_run_ref'', ''model_as_of''}" for k
    using that by (auto simp: candidate_ok_def digest_no_uuid dest!: text_is_text)
  have walk_append: "walk_keys (JObj (xs @ ys)) = walk_keys (JObj xs) @ walk_keys (JObj ys)"
    "walk_strings (JObj (xs @ ys)) = walk_strings (JObj xs) @ walk_strings (JObj ys)" for xs ys by simp_all
  have base: "walk_keys (JObj ?base) = [''schema_version'', ''kind'', ''producer'', ''source_bet_key'', ''link_basis'', ''match'',
      ''window_seconds'', ''candidates_considered'']"
    "walk_strings (JObj ?base) = [''schema_version'', EVIDENCE_SCHEMA_VERSION, ''kind'', ''LINK'', ''producer'', ''edge_finder'',
      ''source_bet_key'', key, ''link_basis'', ''match'', ''market+side exact; created before first fill'', ''window_seconds'',
      ''candidates_considered'']"
    using wn by simp_all
  have tails: "set (walk_keys (JObj tail)) \<subseteq> set LINK_FIELDS"
    "\<forall>s \<in> set (walk_strings (JObj tail)). s \<in> set (LINK_FIELDS @ LINK_STATUSES) \<or> \<not> uuid_in s"
  proof -
    consider "tail = [(''status'', JStr ''MISSING'')]" | "tail = [(''status'', JStr ''AMBIGUOUS'')]"
      | "candidate_ok c" "tail = [(''status'', JStr ''LINKED''), (''recommendation_ref'', jget c ''recommendation_ref''),
           (''model_run_ref'', jget c ''model_run_ref''), (''model_as_of'', jget c ''model_as_of'')]" using tail by blast
    then have "set (walk_keys (JObj tail)) \<subseteq> set LINK_FIELDS
      \<and> (\<forall>s \<in> set (walk_strings (JObj tail)). s \<in> set (LINK_FIELDS @ LINK_STATUSES) \<or> \<not> uuid_in s)"
    proof cases
      case 3
      show ?thesis using cand [OF 3(1), of "''recommendation_ref''"] cand [OF 3(1), of "''model_run_ref''"] cand [OF 3(1), of "''model_as_of''"]
        unfolding 3(2) by (auto simp: LINK_FIELDS_def LINK_STATUSES_def)
    qed (simp_all add: LINK_FIELDS_def LINK_STATUSES_def)
    then show "set (walk_keys (JObj tail)) \<subseteq> set LINK_FIELDS"
      "\<forall>s \<in> set (walk_strings (JObj tail)). s \<in> set (LINK_FIELDS @ LINK_STATUSES) \<or> \<not> uuid_in s" by blast+
  qed
  have kb: "list_all (\<lambda>k. \<not> raw_id_name k \<and> \<not> uuid_in k) (walk_keys (JObj ?base))" unfolding base by code_simp
  have sb: "list_all (\<lambda>s. s = key \<or> \<not> uuid_in s) (walk_strings (JObj ?base))"
  proof -
    have "list_all (\<lambda>s. \<not> uuid_in s) [''schema_version'', EVIDENCE_SCHEMA_VERSION, ''kind'', ''LINK'', ''producer'', ''edge_finder'',
      ''source_bet_key'', ''link_basis'', ''match'', ''market+side exact; created before first fill'', ''window_seconds'',
      ''candidates_considered'']" by code_simp
    then show ?thesis unfolding base by simp
  qed
  have fields: "\<forall>k \<in> set LINK_FIELDS. \<not> raw_id_name k \<and> \<not> uuid_in k" "\<forall>s \<in> set LINK_STATUSES. \<not> uuid_in s"
    using names texts by (simp_all add: list_all_iff)
  have "\<forall>k \<in> set (walk_keys (JObj ?base)) \<union> set (walk_keys (JObj tail)). \<not> raw_id_name k"
    using kb [unfolded list_all_iff] tails(1) fields(1) by blast
  moreover have "\<not> uuid_in s" if s: "s \<in> set (walk_strings (JObj ?base)) \<union> set (walk_strings (JObj tail))" for s
  proof (cases "s \<in> set (walk_strings (JObj ?base))")
    case True
    then have "s = key \<or> \<not> uuid_in s" by (rule bspec [OF sb [unfolded list_all_iff]])
    then show ?thesis
    proof
      assume "s = key"
      then show ?thesis using nokey by (simp only: not_False_eq_True)
    qed
  next
    case False
    then have "s \<in> set (walk_strings (JObj tail))" using s unfolding Un_iff by blast
    then have "s \<in> set LINK_FIELDS \<or> s \<in> set LINK_STATUSES \<or> \<not> uuid_in s" by (rule bspec [OF tails(2) [unfolded set_append Un_iff disj_assoc]])
    then show ?thesis using fields by blast
  qed
  ultimately have p: "privacy_problems (JObj row) = []" unfolding privacy_none row_def walk_append set_append by blast
  have kind: "jget row ''kind'' = JStr ''LINK''" unfolding row_def by (simp add: jget_def)
  have f: "jget row ''schema_version'' = JStr EVIDENCE_SCHEMA_VERSION" "jget row ''producer'' = JStr ''edge_finder''"
    "jget row ''source_bet_key'' = JStr key" "''recorded_at'' \<notin> set (dkeys row)" "set (dkeys row) \<subseteq> set (COMMON_FIELDS @ LINK_FIELDS)"
    using tail unfolding row_def by (auto simp: jget_def COMMON_FIELDS_def LINK_FIELDS_def)
  have common: "common_problems ''LINK'' row = []"
  proof -
    have "unknown_fields row (the (dget allowed_fields ''LINK'')) = []"
      using f(5) unfolding unknown_none by (simp add: allowed_fields_def)
    then show ?thesis using key f(4) unfolding common_problems_def Let_def f(1,2,3) by (simp add: text_is_def producers_of_def)
  qed
  have basis: "(case jget row ''link_basis'' of JObj b \<Rightarrow> b = [] | _ \<Rightarrow> True) = False" unfolding row_def by (simp add: jget_def)
  have status: "jget row k = jget tail k" if "k \<in> {''status'', ''recommendation_ref'', ''model_run_ref'', ''model_as_of''}" for k
    using that unfolding row_def by (auto simp: jget_def)
  have "link_problems row = []"
    using tail unfolding link_problems_def Let_def basis
    by (auto simp: status jget_Cons LINK_STATUSES_def candidate_ok_def text_is_def jget_Nil)
  then have "kind_problems ''LINK'' row = []" by (simp add: kind_problems_def)
  then show ?thesis using validate_rowI [OF p kind _ common] unfolding row_def by simp
qed

text \<open>The row in two parts: what every link says, and what the matching records \<open>hits\<close> add to it.\<close>

definition link_head :: "string \<Rightarrow> json \<Rightarrow> jobj list \<Rightarrow> jobj" where
  "link_head key w hits = [(''schema_version'', JStr EVIDENCE_SCHEMA_VERSION), (''kind'', JStr ''LINK''), (''producer'', JStr ''edge_finder''),
      (''source_bet_key'', JStr key), (''link_basis'', JObj [(''match'', JStr ''market+side exact; created before first fill''),
        (''window_seconds'', w), (''candidates_considered'', JInt (int (length hits)))])]"

definition two_recommend :: "jobj list \<Rightarrow> bool" where
  "two_recommend hits \<longleftrightarrow> (\<exists>c \<in> set hits. \<exists>c' \<in> set hits. jget c ''recommendation_ref'' \<noteq> jget c' ''recommendation_ref'')"

definition link_tail :: "jobj list \<Rightarrow> jobj" where
  "link_tail hits =
     (if hits = [] then [(''status'', JStr ''MISSING'')] else if two_recommend hits then [(''status'', JStr ''AMBIGUOUS'')]
      else [(''status'', JStr ''LINKED''), (''recommendation_ref'', jget (latest hits) ''recommendation_ref''),
            (''model_run_ref'', jget (latest hits) ''model_run_ref''), (''model_as_of'', jget (latest hits) ''model_as_of'')])"

lemma link_made:
  assumes first: "dget execution ''first_fill_ts'' = Some f" "py_number f = Some t"
    and key: "dget execution ''source_bet_key'' = Some (JStr key)" "source_key_shape key"
    and window: "json_number w = Some n" "0 < num_value n"
    and ok: "\<forall>c \<in> set hits. candidate_ok c" and hits: "hits = filter (recommends t n ticker side) candidates"
  shows "link_recommendation (JObj execution) candidates w ticker side = Inr (link_head key w hits @ link_tail hits)"
    "validate_row (JObj (link_head key w hits @ link_tail hits)) = Inr []"
proof -
  obtain refs where refs: "distinct_refs hits = Inr refs" "1 < length refs \<longleftrightarrow> two_recommend hits"
    using distinct_refs_texts [OF ok] unfolding two_recommend_def by blast
  have pick: "candidate_ok (latest hits)" if "hits \<noteq> []" using latest_in [OF that] ok by auto
  have w: "py_number w = Some n" "is_number w" using window by (auto simp: py_number_def is_number_def json_number_def split: json.splits)
  have items: "item (JObj (latest hits)) ''recommendation_ref'' = Inr (jget (latest hits) ''recommendation_ref'')"
    "item (JObj (latest hits)) ''model_as_of'' = Inr (jget (latest hits) ''model_as_of'')" if "hits \<noteq> []"
    using pick [OF that] by (auto intro!: item_JObj simp: candidate_ok_def text_is_def)
  show "link_recommendation (JObj execution) candidates w ticker side = Inr (link_head key w hits @ link_tail hits)"
    using first key w window items refs hits [symmetric]
    unfolding link_recommendation_def matching_filter [OF first(2)] link_head_def link_tail_def
    by (auto simp: item_def matching_filter [OF first(2)] not_le Let_def)
  show "validate_row (JObj (link_head key w hits @ link_tail hits)) = Inr []"
    unfolding link_head_def by (rule link_row_valid [OF key(2) w(2), where c = "latest hits"]) (use pick in \<open>auto simp: link_tail_def\<close>)
qed

lemma link_says:
  defines "row \<equiv> \<lambda>key w hits. link_head key w hits @ link_tail hits"
  shows "hits = [] \<Longrightarrow> jget (row key w hits) ''status'' = JStr ''MISSING''"
    "hits \<noteq> [] \<Longrightarrow> two_recommend hits \<Longrightarrow> jget (row key w hits) ''status'' = JStr ''AMBIGUOUS''"
    "hits \<noteq> [] \<Longrightarrow> \<not> two_recommend hits \<Longrightarrow> jget (row key w hits) ''status'' = JStr ''LINKED''
       \<and> (\<forall>k \<in> {''recommendation_ref'', ''model_run_ref'', ''model_as_of''}. jget (row key w hits) k = jget (latest hits) k)"
  by (simp_all add: row_def link_head_def link_tail_def jget_Cons)

text \<open>C8: a link is never a guess. From an execution with a first fill and a source key, a positive window and
  decision records that carry digests and times, the row always exists and is one the ledger accepts. It is LINKED exactly
  when some record matches -- same market and side, made no later than the first fill and within the window -- and all
  the records that match carry one and the same recommendation, which it then names, with the model run and time of the
  latest of them; AMBIGUOUS exactly when two matching records carry different recommendations; MISSING when none matches.\<close>

theorem link_is_never_a_guess:
  assumes first: "dget execution ''first_fill_ts'' = Some f" "py_number f = Some t"
    and key: "dget execution ''source_bet_key'' = Some (JStr key)" "source_key_shape key"
    and window: "json_number w = Some n" "0 < num_value n"
    and candidates: "\<forall>c \<in> set candidates. candidate_ok c"
    and hits: "hits = filter (recommends t n ticker side) candidates"
  shows "\<exists>row. link_recommendation (JObj execution) candidates w ticker side = Inr row \<and> validate_row (JObj row) = Inr []
    \<and> (jget row ''status'' = JStr ''MISSING'' \<longleftrightarrow> hits = [])
    \<and> (jget row ''status'' = JStr ''AMBIGUOUS'' \<longleftrightarrow>
         (\<exists>c \<in> set hits. \<exists>c' \<in> set hits. jget c ''recommendation_ref'' \<noteq> jget c' ''recommendation_ref''))
    \<and> (\<forall>ref. jget row ''status'' = JStr ''LINKED'' \<and> jget row ''recommendation_ref'' = JStr ref \<longleftrightarrow>
         hits \<noteq> [] \<and> (\<forall>c \<in> set hits. jget c ''recommendation_ref'' = JStr ref))
    \<and> (jget row ''status'' = JStr ''LINKED'' \<longrightarrow>
         (\<exists>c \<in> set hits. jget row ''model_run_ref'' = jget c ''model_run_ref'' \<and> jget row ''model_as_of'' = jget c ''model_as_of''
            \<and> (\<forall>c' \<in> set hits. created_at c' \<le> created_at c)))"
proof -
  have ok: "\<forall>c \<in> set hits. candidate_ok c" using candidates hits by simp
  define row where "row = link_head key w hits @ link_tail hits"
  note made = link_made [OF first key window ok hits, folded row_def] and says = link_says [of hits key w, folded row_def]
  consider (none) "hits = []" | (several) "hits \<noteq> []" "two_recommend hits" | (one) "hits \<noteq> []" "\<not> two_recommend hits" by blast
  then show ?thesis
  proof cases
    case none
    then show ?thesis using made says by simp
  next
    case several
    then obtain c c' where two: "c \<in> set hits" "c' \<in> set hits" "jget c ''recommendation_ref'' \<noteq> jget c' ''recommendation_ref''"
      unfolding two_recommend_def by blast
    then have "\<not> (\<forall>c \<in> set hits. jget c ''recommendation_ref'' = JStr ref)" for ref by metis
    then show ?thesis using made says(2) [OF several] two several(1) by auto
  next
    case one
    have pick: "latest hits \<in> set hits" "\<forall>c \<in> set hits. created_at c \<le> created_at (latest hits)" using latest_in [OF one(1)] by auto
    have same: "jget c ''recommendation_ref'' = jget (latest hits) ''recommendation_ref''" if "c \<in> set hits" for c
      using one(2) that pick(1) unfolding two_recommend_def by blast
    have all: "(\<forall>c \<in> set hits. jget c ''recommendation_ref'' = JStr r) \<longleftrightarrow> jget (latest hits) ''recommendation_ref'' = JStr r" for r
      using same pick(1) by metis
    have linked: "jget row ''status'' = JStr ''LINKED''" "jget row ''recommendation_ref'' = jget (latest hits) ''recommendation_ref''"
      "jget row ''model_run_ref'' = jget (latest hits) ''model_run_ref''" "jget row ''model_as_of'' = jget (latest hits) ''model_as_of''"
      using says(3) [OF one] by simp_all
    have none: "(\<exists>c \<in> set hits. \<exists>c' \<in> set hits. jget c ''recommendation_ref'' \<noteq> jget c' ''recommendation_ref'') = False"
      using one(2) unfolding two_recommend_def by blast
    have "\<exists>c \<in> set hits. jget row ''model_run_ref'' = jget c ''model_run_ref'' \<and> jget row ''model_as_of'' = jget c ''model_as_of''
        \<and> (\<forall>c' \<in> set hits. created_at c' \<le> created_at c)"
      using linked pick by (intro bexI [where x = "latest hits"]) simp_all
    then show ?thesis unfolding made(1) none
      by (intro exI [where x = row] conjI) (simp_all add: linked one(1) all made(2))
  qed
qed

section \<open>A concrete file and a concrete link\<close>

definition example_digest :: string where "example_digest = replicate 32 (CHR ''a'')"
definition example_key :: string where "example_key = ''kalshi:v1:'' @ replicate 64 (CHR ''b'')"

definition example_execution :: jobj where
  "example_execution = [(''schema_version'', JStr EVIDENCE_SCHEMA_VERSION), (''kind'', JStr ''EXECUTION''), (''producer'', JStr ''router''),
     (''source_bet_key'', JStr example_key), (''recorded_at'', JStr ''2026-11-03T00:00:00Z''),
     (''order_id_digest'', JStr example_digest), (''fill_id_digests'', JList [JStr example_digest]), (''fill_count'', JInt 1),
     (''first_fill_ts'', JInt 1794000000), (''last_fill_ts'', JFloat (17940000005 / 10)), (''execution_action'', JStr ''BUY''),
     (''all_taker'', JBool True), (''flags'', JList [])]"

definition example_rows :: "string \<Rightarrow> json option" where
  "example_rows s = (if s = json_dump (JObj example_execution) then Some (JObj (sorted_row example_execution)) else None)"

lemma example_execution_valid: "validate_row (JObj example_execution) = Inr []" "well_keyed (JObj example_execution)"
proof -
  show "validate_row (JObj example_execution) = Inr []" by code_simp
  show "well_keyed (JObj example_execution)" by (simp add: example_execution_def)
qed

theorem evidence_file_stays_valid_witness:
  "\<exists>res text'. import_rows example_rows [] [JObj example_execution, JNull, JObj example_execution] = Inr (res, text')
    \<and> validate_evidence example_rows ''evidence.jsonl'' text' None = Inr []
    \<and> ir_written res = 1 \<and> ir_written res + ir_duplicate res + ir_refused res = 3"
proof -
  obtain k where k: "hashed_key (JObj example_execution) = Inr k" using valid_row_key [OF example_execution_valid(1)] by blast
  have none: "validate_row JNull = Inr [''row is not an object'']" by (simp add: validate_row_def)
  obtain res where plan: "plan_evidence example_rows [] [JObj example_execution, JNull, JObj example_execution] = Inr ([example_execution], res)"
    using k none example_execution_valid(1)
    by (simp add: plan_evidence_def read_evidence_def row_fields_def)
  have "reads_back example_rows example_execution" by (simp add: reads_back_def example_rows_def del: json_dump.simps)
  moreover have "validate_evidence example_rows ''evidence.jsonl'' [] None = Inr []"
    by (simp add: validate_evidence_def read_evidence_def)
  ultimately show ?thesis
    using evidence_file_stays_valid [OF _ _ plan, of "''evidence.jsonl''" None] example_execution_valid(2)
    by (auto simp: whole_lines_def)
qed

definition example_candidate :: jobj where
  "example_candidate = [(''market_ticker'', JStr ''KXNFL''), (''side'', JStr ''YES''), (''created_at_ts'', JInt 1793999990),
     (''recommendation_ref'', JStr example_digest), (''model_as_of'', JStr ''2026-11-02T00:00:00Z'')]"

theorem link_is_never_a_guess_witness:
  "\<exists>row. link_recommendation (JObj example_execution) [example_candidate] (JInt 60) ''KXNFL'' ''YES'' = Inr row
    \<and> jget row ''status'' = JStr ''LINKED'' \<and> jget row ''recommendation_ref'' = JStr example_digest"
proof -
  have e: "dget example_execution ''first_fill_ts'' = Some (JInt 1794000000)" "dget example_execution ''source_bet_key'' = Some (JStr example_key)"
    by (simp_all add: example_execution_def)
  have n: "py_number (JInt 1794000000) = Some (Whole 1794000000)" "json_number (JInt 60) = Some (Whole 60)"
    by (simp_all add: py_number_def json_number_def)
  have k: "source_key_shape example_key" "candidate_ok example_candidate" by code_simp+
  have r: "recommends (Whole 1794000000) (Whole 60) ''KXNFL'' ''YES'' example_candidate"
    "jget example_candidate ''recommendation_ref'' = JStr example_digest"
    by (simp_all add: recommends_def example_candidate_def jget_def json_number_def num_sub_def num_op_def)
  have c: "\<forall>c \<in> set [example_candidate]. candidate_ok c" using k by simp
  show ?thesis
    using link_is_never_a_guess [OF e(1) n(1) e(2) k(1) n(2) _ c refl, of "''KXNFL''" "''YES''"] r by auto
qed

end
