(* ===== verification/ExecEvidence.thy ===== *)
theory ExecEvidence
  imports Admission EvidenceLedger Closes Destinations
begin

text \<open>
  \<^verbatim>\<open>execution_evidence.py\<close> and \<^verbatim>\<open>evidence_emission.py\<close>: what the router publishes of the orders and fills behind a
  wager, as digests and times, and when it publishes anything at all. \<open>os.environ\<close> is an association list of texts and
  \<open>now\<close> the whole seconds of the clock.

  The lemmas meet \<open>EvidenceLedger\<close>: the row of an order is one its importer accepts, and which closes it accepts.
\<close>

section \<open>Execution evidence\<close>

definition EVIDENCE_ROW_VERSION :: string where "EVIDENCE_ROW_VERSION = ''router_execution_evidence.v2''"
definition FILL_IDS_MISSING :: string where "FILL_IDS_MISSING = ''FILL_IDS_MISSING''"
definition ACTION_NOT_ESTABLISHED :: string where "ACTION_NOT_ESTABLISHED = ''ACTION_NOT_ESTABLISHED''"
definition TAKER_NOT_ESTABLISHED :: string where "TAKER_NOT_ESTABLISHED = ''TAKER_NOT_ESTABLISHED''"
definition PRICE_NOT_ESTABLISHED :: string where "PRICE_NOT_ESTABLISHED = ''PRICE_NOT_ESTABLISHED''"
definition ID_KINDS :: "string list" where "ID_KINDS = [''order'', ''fill'', ''recommendation'', ''model_run'']"
definition DIGEST_HEX_CHARS :: nat where "DIGEST_HEX_CHARS = 32"

definition id_digest :: "string \<Rightarrow> string \<Rightarrow> string result" where
  "id_digest kind value =
     (if kind \<notin> set ID_KINDS then Inl ValueError
      else Inr (take DIGEST_HEX_CHARS (sha256_hex (''kalshi-router.execution-evidence.v1|'' @ kind @ ''|'' @ value))))"

text \<open>\<open>_num\<close>: an integral value as an \<open>int\<close>, another as a \<open>float\<close>.\<close>

definition json_num :: "decimal \<Rightarrow> json" where
  "json_num x = (if x = of_int (rhe x) then JInt (rhe x) else json_float x)"

record execution_evidence =
  ee_source_bet_key :: string
  ee_order_id_digest :: string
  ee_fill_id_digests :: "string list"
  ee_fill_count :: nat
  ee_first_fill_ts :: json
  ee_last_fill_ts :: json
  ee_execution_action :: "string option"
  ee_all_taker :: "bool option"
  ee_flags :: "string list"
  ee_vwap_price :: json
  ee_total_quantity :: json
  ee_total_fee :: json

definition json_text :: "string option \<Rightarrow> json" where
  "json_text t = (case t of None \<Rightarrow> JNull | Some s \<Rightarrow> JStr s)"

definition json_flag :: "bool option \<Rightarrow> json" where
  "json_flag b = (case b of None \<Rightarrow> JNull | Some x \<Rightarrow> JBool x)"

definition to_sidecar_row :: "execution_evidence \<Rightarrow> jobj" where
  "to_sidecar_row ev =
     [(''schema_version'', JStr EVIDENCE_ROW_VERSION), (''source_bet_key'', JStr (ee_source_bet_key ev)),
      (''order_id_digest'', JStr (ee_order_id_digest ev)), (''fill_id_digests'', JList (map JStr (ee_fill_id_digests ev))),
      (''fill_count'', JInt (int (ee_fill_count ev))), (''first_fill_ts'', ee_first_fill_ts ev),
      (''last_fill_ts'', ee_last_fill_ts ev), (''execution_action'', json_text (ee_execution_action ev)),
      (''all_taker'', json_flag (ee_all_taker ev)), (''flags'', JList (map JStr (ee_flags ev))),
      (''vwap_price'', ee_vwap_price ev), (''total_quantity'', ee_total_quantity ev), (''total_fee'', ee_total_fee ev)]"

definition build_execution_evidence :: "order_execution \<Rightarrow> production_wager option \<Rightarrow> execution_evidence result" where
  "build_execution_evidence x wager =
     rbind (production_source_key (o_subaccount_number x) (o_ticker x) (o_order_id x)) (\<lambda>key.
     if (case wager of None \<Rightarrow> False | Some w \<Rightarrow> w_source_key w \<noteq> key) then Inl ValueError
     else
       let action = map_option action_text (o_legacy_action x);
           flags = (if o_fill_ids x = [] then [FILL_IDS_MISSING] else [])
             @ (if action = None then [ACTION_NOT_ESTABLISHED] else [])
             @ (if o_all_taker x = None then [TAKER_NOT_ESTABLISHED] else [])
             @ (if o_vwap_price x = None then [PRICE_NOT_ESTABLISHED] else [])
       in rbind (id_digest ''order'' (o_order_id x)) (\<lambda>order_digest.
          rbind (traverse (id_digest ''fill'') (remdups (o_fill_ids x))) (\<lambda>fill_digests.
          Inr \<lparr>ee_source_bet_key = key, ee_order_id_digest = order_digest, ee_fill_id_digests = sort fill_digests,
               ee_fill_count = o_fill_count x, ee_first_fill_ts = json_num (o_first_execution_time x),
               ee_last_fill_ts = json_num (o_last_execution_time x), ee_execution_action = action,
               ee_all_taker = o_all_taker x, ee_flags = flags,
               ee_vwap_price = (case o_vwap_price x of None \<Rightarrow> JNull | Some p \<Rightarrow> json_num p),
               ee_total_quantity = json_num (o_total_quantity x),
               ee_total_fee = (case o_total_fee x of None \<Rightarrow> JNull | Some f \<Rightarrow> json_num f)\<rparr>)))"

section \<open>Emission\<close>

definition EMIT_ENV :: string where "EMIT_ENV = ''ROUTER_EMIT_EXECUTION_EVIDENCE''"

definition emission_allowed :: "destination_profile \<Rightarrow> (string, string) dict \<Rightarrow> bool \<times> string" where
  "emission_allowed profile env =
     (if dget env EMIT_ENV \<noteq> Some ''1'' then (False, ''operator switch ROUTER_EMIT_EXECUTION_EVIDENCE is not 1'')
      else if pr_evidence_importer profile \<in> {None, Some []} \<or> pr_evidence_ledger_path profile \<in> {None, Some []}
        then (False, ''destination has not declared an execution-evidence importer'')
      else if \<not> list_ex (starts_with (the (pr_evidence_ledger_path profile))) (pr_committable_prefixes profile)
        then (False, ''evidence ledger path is outside the destination's committable prefixes'')
      else (True, ''ok''))"

text \<open>The clock is within the calendar.\<close>

definition now_iso :: "int \<Rightarrow> string" where
  "now_iso now = (case render_instant now of Some t \<Rightarrow> t | None \<Rightarrow> [])"

definition execution_row :: "execution_evidence \<Rightarrow> int \<Rightarrow> jobj" where
  "execution_row ev now =
     [(''schema_version'', JStr EVIDENCE_SCHEMA_VERSION), (''kind'', JStr ''EXECUTION''), (''producer'', JStr ''router''),
      (''source_bet_key'', JStr (ee_source_bet_key ev)), (''recorded_at'', JStr (now_iso now)),
      (''order_id_digest'', JStr (ee_order_id_digest ev)), (''fill_id_digests'', JList (map JStr (ee_fill_id_digests ev))),
      (''fill_count'', JInt (int (ee_fill_count ev))), (''first_fill_ts'', ee_first_fill_ts ev), (''last_fill_ts'', ee_last_fill_ts ev),
      (''execution_action'', json_text (ee_execution_action ev)), (''all_taker'', json_flag (ee_all_taker ev)),
      (''flags'', JList (map JStr (ee_flags ev)))]"

definition close_row :: "string \<Rightarrow> string \<Rightarrow> string \<Rightarrow> resolved_close \<Rightarrow> int \<Rightarrow> jobj" where
  "close_row source_bet_key market_ticker side rc now =
     [(''schema_version'', JStr EVIDENCE_SCHEMA_VERSION), (''kind'', JStr ''CLOSE''), (''producer'', JStr ''router''),
      (''source_bet_key'', JStr source_bet_key), (''recorded_at'', JStr (now_iso now)),
      (''market_ticker'', JStr market_ticker), (''side'', JStr side), (''close'', JObj (to_close_body rc))]"

definition build_payload :: "destination_profile \<Rightarrow> jobj list \<Rightarrow> (string, string) dict \<Rightarrow> jobj option" where
  "build_payload profile rows env =
     (if fst (emission_allowed profile env) then Some [(''evidence'', JList (map JObj rows))] else None)"

section \<open>The texts of a row carry no raw id\<close>

lemma uuid_long: "uuid_in s \<Longrightarrow> 36 \<le> length s"
proof -
  assume "uuid_in s"
  then obtain i where "hex_groups [8, 4, 4, 4, 12] (drop i s)" by (auto simp: uuid_in_def list_ex_iff)
  then have "36 \<le> length (drop i s)" by auto
  then show ?thesis by simp
qed

lemma short_not_uuid: "length s < 36 \<Longrightarrow> \<not> uuid_in s"
  using uuid_long by force

lemma hex_text_exact: "length s = n \<Longrightarrow> set s \<subseteq> set ''0123456789abcdef'' \<Longrightarrow> hex_text n s"
proof -
  assume s: "length s = n" "set s \<subseteq> set ''0123456789abcdef''"
  have "list_all lower_hex ''0123456789abcdef''" by code_simp
  then show ?thesis using s by (auto simp: hex_text_def list_all_iff)
qed

lemma digest_facts:
  assumes "id_digest kind value = Inr d"
  shows "digest_shape d" "length d = 32" "\<not> uuid_in d"
proof -
  define h where "h = sha256_hex (''kalshi-router.execution-evidence.v1|'' @ kind @ ''|'' @ value)"
  have d: "d = take 32 h"
    using assms unfolding id_digest_def h_def [symmetric] DIGEST_HEX_CHARS_def by (simp split: if_splits)
  have "length h = 64" "set h \<subseteq> set ''0123456789abcdef''" unfolding h_def using sha256_hex_chars by simp_all
  then show len: "length d = 32" unfolding d by simp
  show "digest_shape d" unfolding digest_shape_def
    using \<open>set h \<subseteq> _\<close> set_take_subset [of 32 h] len unfolding d by (intro hex_text_exact) blast+
  then show "\<not> uuid_in d" by (rule digest_no_uuid)
qed

lemma source_key_facts:
  assumes "production_source_key a t i = Inr k"
  shows "source_key_shape k" "\<not> uuid_in k"
proof -
  define h where "h = sha256_hex (key_material a t i)"
  have k: "k = ''kalshi:v1:'' @ h"
    using assms unfolding production_source_key_def h_def [symmetric] SOURCE_KEY_VERSION_def by (simp split: if_splits)
  have "hex_text 64 h" unfolding h_def using sha256_hex_chars by (intro hex_text_exact) simp_all
  then show "source_key_shape k" unfolding k by (simp add: source_key_shape_def starts_with_def)
  then show "\<not> uuid_in k" using source_key_no_dash uuid_has_dash by blast
qed

lemma now_facts:
  assumes "render_instant now \<noteq> None" and "0 \<le> now"
  shows "ev_aware_ts (JStr (now_iso now))" "\<not> uuid_in (now_iso now)"
proof -
  obtain t where t: "render_instant now = Some t" using assms(1) by blast
  have old: "- 30610224000 \<le> now" using assms(2) by simp
  note z = rendered_zulu [OF t old]
  show "ev_aware_ts (JStr (now_iso now))" using z(4) z(8) [of t] t by (auto simp: ev_aware_ts_def now_iso_def has_zone_def)
  show "\<not> uuid_in (now_iso now)" using z(7) t by (intro short_not_uuid) (simp add: now_iso_def)
qed

text \<open>The field names are lower-case words, on which the lowering of the id pattern does nothing.\<close>

definition plain_name :: "string \<Rightarrow> bool" where
  "plain_name s \<longleftrightarrow> length s < 36 \<and> list_all (\<lambda>c. CHR ''_'' \<le> c) s
     \<and> list_all (\<lambda>e. ends_with s e \<longrightarrow> (let front = take (length s - length e) s in front \<noteq> [] \<and> last front \<noteq> CHR ''_'')) RAW_ID_ENDINGS
     \<and> s \<notin> set [''fill'', ''fills'', ''order'', ''orders'']"

lemma plain_name_facts:
  assumes "plain_name s"
  shows "\<not> raw_id_name s" "length s < 36"
proof -
  have high: "list_all (\<lambda>c. CHR ''_'' \<le> c) s" using assms by (simp add: plain_name_def)
  have "lower_char c = c" if "CHR ''_'' \<le> c" for c using that unfolding lower_char_def by (auto simp: less_eq_char_def)
  then have "py_lower s = s" using high by (simp add: py_lower_def list_all_iff map_idI)
  moreover have "(if s \<noteq> [] \<and> last s = LF then butlast s else s) = s"
  proof -
    have "\<not> CHR ''_'' \<le> LF" by (simp add: LF_def less_eq_char_def)
    then show ?thesis using high last_in_set [of s] unfolding list_all_iff by metis
  qed
  ultimately show "\<not> raw_id_name s" using assms by (auto simp: raw_id_name_def plain_name_def Let_def list_all_iff list_ex_iff)
  show "length s < 36" using assms by (simp add: plain_name_def)
qed

section \<open>The ledger accepts the row of an order\<close>

lemma json_num_value:
  assumes "0 < x" "x < 2 ^ 53"
  shows "\<exists>n. json_number (json_num x) = Some n \<and> num_value n = fround x"
proof (cases "x = of_int (rhe x)")
  case True
  then have "\<bar>rhe x\<bar> < 2 ^ 53" using assms of_int_less_iff [of "rhe x" "2 ^ 53", where ?'a = rat] of_int_0_less_iff [of "rhe x", where ?'a = rat]
    by simp
  then have "fround x = of_int (rhe x)" using True fround_int by metis
  then show ?thesis using True by (simp add: json_num_def json_number_def)
next
  case False
  then show ?thesis using json_float_number [of x] by (simp add: json_num_def)
qed

text \<open>What the evidence of an order is.\<close>

lemma built_evidence:
  assumes built: "build_execution_evidence x wager = Inr ev" and distinct: "inj_on (id_digest ''fill'') (set (o_fill_ids x))"
  shows "source_key_shape (ee_source_bet_key ev)" "digest_shape (ee_order_id_digest ev)"
    "\<forall>d \<in> set (ee_fill_id_digests ev). digest_shape d" "distinct (ee_fill_id_digests ev)"
    "ee_execution_action ev \<in> {None, Some ''BUY'', Some ''SELL''}"
    "set (ee_flags ev) \<subseteq> {FILL_IDS_MISSING, ACTION_NOT_ESTABLISHED, TAKER_NOT_ESTABLISHED, PRICE_NOT_ESTABLISHED}"
    "ee_first_fill_ts ev = json_num (o_first_execution_time x)" "ee_last_fill_ts ev = json_num (o_last_execution_time x)"
    "production_source_key (o_subaccount_number x) (o_ticker x) (o_order_id x) = Inr (ee_source_bet_key ev)"
    "\<forall>w. wager = Some w \<longrightarrow> w_source_key w = ee_source_bet_key ev"
proof -
  obtain key od fd where b: "production_source_key (o_subaccount_number x) (o_ticker x) (o_order_id x) = Inr key"
    "id_digest ''order'' (o_order_id x) = Inr od" "traverse (id_digest ''fill'') (remdups (o_fill_ids x)) = Inr fd"
    "\<forall>w. wager = Some w \<longrightarrow> w_source_key w = key"
    and ev: "ee_source_bet_key ev = key" "ee_order_id_digest ev = od" "ee_fill_id_digests ev = sort fd"
      "ee_execution_action ev = map_option action_text (o_legacy_action x)"
      "ee_flags ev = (if o_fill_ids x = [] then [FILL_IDS_MISSING] else [])
             @ (if map_option action_text (o_legacy_action x) = None then [ACTION_NOT_ESTABLISHED] else [])
             @ (if o_all_taker x = None then [TAKER_NOT_ESTABLISHED] else [])
             @ (if o_vwap_price x = None then [PRICE_NOT_ESTABLISHED] else [])"
      "ee_first_fill_ts ev = json_num (o_first_execution_time x)" "ee_last_fill_ts ev = json_num (o_last_execution_time x)"
    using built by (auto simp: build_execution_evidence_def Let_def result_simps split: if_splits option.splits)
  show "source_key_shape (ee_source_bet_key ev)" using b(1) source_key_facts ev by simp
  show "digest_shape (ee_order_id_digest ev)" using b(2) digest_facts ev by simp
  have t: "list_all2 (\<lambda>i d. id_digest ''fill'' i = Inr d) (remdups (o_fill_ids x)) fd" using b(3) by (simp add: traverse_Inr_iff)
  then have "\<forall>d \<in> set fd. \<exists>i. id_digest ''fill'' i = Inr d" by (auto simp: list_all2_conv_all_nth in_set_conv_nth) metis
  then show "\<forall>d \<in> set (ee_fill_id_digests ev). digest_shape d" using digest_facts(1) ev by auto
  have "map (id_digest ''fill'') (remdups (o_fill_ids x)) = map Inr fd" using t by (simp add: list_all2_conv_all_nth list_eq_iff_nth_eq)
  moreover have "distinct (map (id_digest ''fill'') (remdups (o_fill_ids x)))" using distinct by (simp add: distinct_map)
  ultimately show "distinct (ee_fill_id_digests ev)" using ev by (simp add: distinct_map)
  show "ee_execution_action ev \<in> {None, Some ''BUY'', Some ''SELL''}"
  proof -
    have "action_text a \<in> {''BUY'', ''SELL''}" for a by (cases a) simp_all
    then show ?thesis using ev by (cases "o_legacy_action x") auto
  qed
  show "set (ee_flags ev) \<subseteq> {FILL_IDS_MISSING, ACTION_NOT_ESTABLISHED, TAKER_NOT_ESTABLISHED, PRICE_NOT_ESTABLISHED}" using ev by auto
  show "ee_first_fill_ts ev = json_num (o_first_execution_time x)" "ee_last_fill_ts ev = json_num (o_last_execution_time x)"
    "production_source_key (o_subaccount_number x) (o_ticker x) (o_order_id x) = Inr (ee_source_bet_key ev)"
    "\<forall>w. wager = Some w \<longrightarrow> w_source_key w = ee_source_bet_key ev" using ev b by simp_all
qed

text \<open>Its times, and what its row says.\<close>

lemma built_times:
  assumes x: "0 < x" "x \<le> y" "y < 2 ^ 53"
  shows "number_is (\<lambda>x. 0 < x) (json_num x)" "number_is (\<lambda>x. 0 < x) (json_num y)" "\<not> number_less (json_num y) (json_num x)"
    "walk_strings (json_num x) = []" "walk_keys (json_num x) = []"
proof -
  have bounds: "x < 2 ^ 53" "0 < y" using x by linarith+
  obtain n m where n: "json_number (json_num x) = Some n" "num_value n = fround x" "json_number (json_num y) = Some m" "num_value m = fround y"
    using json_num_value [OF x(1) bounds(1)] json_num_value [OF bounds(2) x(3)] by blast
  show "number_is (\<lambda>x. 0 < x) (json_num x)" "number_is (\<lambda>x. 0 < x) (json_num y)" using n bounds x by (simp_all add: number_is_def flt.rnd_pos)
  show "\<not> number_less (json_num y) (json_num x)" using n flt.rnd_mono [OF x(2)] by (simp add: number_less_def)
  show "walk_strings (json_num x) = []" "walk_keys (json_num x) = []" by (simp_all add: json_num_def json_float_def)
qed

lemma execution_row_fields:
  "jget (execution_row ev now) ''schema_version'' = JStr EVIDENCE_SCHEMA_VERSION" "jget (execution_row ev now) ''kind'' = JStr ''EXECUTION''"
  "jget (execution_row ev now) ''producer'' = JStr ''router''" "jget (execution_row ev now) ''source_bet_key'' = JStr (ee_source_bet_key ev)"
  "jget (execution_row ev now) ''recorded_at'' = JStr (now_iso now)" "jget (execution_row ev now) ''order_id_digest'' = JStr (ee_order_id_digest ev)"
  "jget (execution_row ev now) ''fill_id_digests'' = JList (map JStr (ee_fill_id_digests ev))"
  "jget (execution_row ev now) ''fill_count'' = JInt (int (ee_fill_count ev))"
  "jget (execution_row ev now) ''first_fill_ts'' = ee_first_fill_ts ev" "jget (execution_row ev now) ''last_fill_ts'' = ee_last_fill_ts ev"
  "jget (execution_row ev now) ''execution_action'' = json_text (ee_execution_action ev)"
  "jget (execution_row ev now) ''all_taker'' = json_flag (ee_all_taker ev)" "jget (execution_row ev now) ''flags'' = JList (map JStr (ee_flags ev))"
  "set (dkeys (execution_row ev now)) = set (COMMON_FIELDS @ EXECUTION_FIELDS)"
  by (simp_all add: execution_row_def jget_def) (auto simp: COMMON_FIELDS_def EXECUTION_FIELDS_def)

lemma execution_row_private:
  assumes built: "build_execution_evidence x wager = Inr ev" and distinct: "inj_on (id_digest ''fill'') (set (o_fill_ids x))"
    and now: "render_instant now \<noteq> None" "0 \<le> now"
  shows "privacy_problems (JObj (execution_row ev now)) = []"
proof -
  note b = built_evidence [OF built distinct]
  have plain: "walk_strings (json_num t) = []" "walk_keys (json_num t) = []" for t by (simp_all add: json_num_def json_float_def)
  have texts: "walk_strings (json_text t) = (case t of None \<Rightarrow> [] | Some s \<Rightarrow> [s])" "walk_keys (json_text t) = []"
    "walk_strings (json_flag f) = []" "walk_keys (json_flag f) = []" for t f by (simp_all add: json_text_def json_flag_def split: option.split)
  have "list_all plain_name (COMMON_FIELDS @ EXECUTION_FIELDS)" by code_simp
  then have names: "\<not> raw_id_name k" "length k < 36" if "k \<in> set (COMMON_FIELDS @ EXECUTION_FIELDS)" for k
    using that plain_name_facts unfolding list_all_iff by blast+
  have "set (walk_keys (JObj (execution_row ev now))) \<subseteq> set (COMMON_FIELDS @ EXECUTION_FIELDS)"
    unfolding execution_row_def by (auto simp: b(7,8) plain texts COMMON_FIELDS_def EXECUTION_FIELDS_def)
  moreover have "\<not> uuid_in s" if s: "s \<in> set (walk_strings (JObj (execution_row ev now)))" for s
  proof -
    have "s \<in> set (COMMON_FIELDS @ EXECUTION_FIELDS) \<or> s \<in> {ee_source_bet_key ev, now_iso now, ee_order_id_digest ev}
      \<or> s \<in> set (ee_fill_id_digests ev) \<or> s \<in> set (ee_flags ev)
      \<or> s \<in> {EVIDENCE_SCHEMA_VERSION, ''EXECUTION'', ''router'', ''BUY'', ''SELL''}"
      using s b(5) unfolding execution_row_def
      by (auto simp: b(7,8) plain texts COMMON_FIELDS_def EXECUTION_FIELDS_def split: option.splits)
    moreover have "length s < 36" if "s \<in> set (ee_flags ev)"
      using b(6) that by (auto simp: FILL_IDS_MISSING_def ACTION_NOT_ESTABLISHED_def TAKER_NOT_ESTABLISHED_def PRICE_NOT_ESTABLISHED_def)
    moreover have "length s < 36" if "s \<in> {EVIDENCE_SCHEMA_VERSION, ''EXECUTION'', ''router'', ''BUY'', ''SELL''}"
      using that by (auto simp: EVIDENCE_SCHEMA_VERSION_def)
    moreover have "\<not> uuid_in (ee_source_bet_key ev)" using source_key_facts(2) [OF b(9)] .
    ultimately show ?thesis using names short_not_uuid digest_no_uuid b(2,3) now_facts(2) [OF now] by blast
  qed
  ultimately show ?thesis using names(1) unfolding privacy_none by blast
qed

text \<open>C20: what the router says of an order is what the ledger takes, and nothing else leaves. The evidence of any
  order executed before the year 285 million, given to the wager of that order or to none, makes a row the evidence
  ledger's importer accepts whole: its source key is the wager's, its order and fill ids are digests of 32 characters, no
  two alike, no text of it is shaped like a raw id, and its times are in order after both sides' roundings. The digests
  of the order's distinct fills do not collide, and the clock is after the epoch.\<close>

theorem execution_row_accepted:
  assumes built: "build_execution_evidence x wager = Inr ev" and distinct: "inj_on (id_digest ''fill'') (set (o_fill_ids x))"
    and times: "0 < o_first_execution_time x" "o_first_execution_time x \<le> o_last_execution_time x" "o_last_execution_time x < 2 ^ 53"
    and now: "render_instant now \<noteq> None" "0 \<le> now"
  shows "validate_row (JObj (execution_row ev now)) = Inr [] \<and> privacy_problems (JObj (execution_row ev now)) = []
    \<and> production_source_key (o_subaccount_number x) (o_ticker x) (o_order_id x) = Inr (ee_source_bet_key ev)
    \<and> (\<forall>w. wager = Some w \<longrightarrow> w_source_key w = ee_source_bet_key ev)
    \<and> id_digest ''order'' (o_order_id x) = Inr (ee_order_id_digest ev)"
proof -
  note b = built_evidence [OF built distinct] and g = execution_row_fields [of ev now]
  note t = built_times [OF times, folded b(7,8)] and privacy = execution_row_private [OF built distinct now]
  have common: "common_problems ''EXECUTION'' (execution_row ev now) = []"
  proof -
    have "unknown_fields (execution_row ev now) (the (dget allowed_fields ''EXECUTION'')) = []"
      using g(14) unfolding unknown_none by (simp add: allowed_fields_def)
    then show ?thesis using b(1) now_facts [OF now] unfolding common_problems_def Let_def g by (simp add: text_is_def producers_of_def)
  qed
  have "inj JStr" by (simp add: inj_def)
  then have "distinct (map JStr (ee_fill_id_digests ev))" using b(4) by (simp add: distinct_map inj_on_subset [OF _ subset_UNIV])
  moreover have "json_text (ee_execution_action ev) \<in> {JNull, JStr ''BUY'', JStr ''SELL''}" using b(5) by (auto simp: json_text_def)
  moreover have "list_ex (py_eq (json_flag (ee_all_taker ev))) [JNull, JBool True, JBool False]"
    by (auto simp: json_flag_def py_eq_def split: option.split)
  ultimately have "execution_problems (execution_row ev now) = []"
    using b(2,3) t(1-3) unfolding execution_problems_def Let_def g
    by (simp add: text_is_def g is_text_def jstr_def list_all_iff)
  then have "kind_problems ''EXECUTION'' (execution_row ev now) = []" by (simp add: kind_problems_def)
  then have "validate_row (JObj (execution_row ev now)) = Inr []" using validate_rowI [OF privacy g(2) _ common] by simp
  moreover have "id_digest ''order'' (o_order_id x) = Inr (ee_order_id_digest ev)"
    using built by (auto simp: build_execution_evidence_def Let_def result_simps split: if_splits)
  ultimately show ?thesis using privacy b(9,10) by blast
qed

definition example_clock :: int where "example_clock = 1790000000"

lemma example_clock_ok: "render_instant example_clock \<noteq> None" "0 \<le> example_clock"
  by code_simp+

theorem execution_row_accepted_witness:
  "\<exists>ev. build_execution_evidence (sample_order 1789430401) None = Inr ev
     \<and> validate_row (JObj (execution_row ev example_clock)) = Inr [] \<and> ee_flags ev = [TAKER_NOT_ESTABLISHED]"
proof -
  let ?x = "sample_order 1789430401"
  obtain ev where ev: "build_execution_evidence ?x None = Inr ev" "ee_flags ev = [TAKER_NOT_ESTABLISHED]"
    by (simp add: build_execution_evidence_def production_source_key_def id_digest_def ID_KINDS_def sample_order_def Let_def result_simps)
  have "inj_on (id_digest ''fill'') (set (o_fill_ids ?x))" by (simp add: sample_order_def)
  then have "validate_row (JObj (execution_row ev example_clock)) = Inr []"
    using execution_row_accepted [OF ev(1) _ _ _ _ example_clock_ok] by (simp add: sample_order_def)
  then show ?thesis using ev by blast
qed

section \<open>Which closes the ledger accepts\<close>

lemma jget_dropped:
  "distinct (dkeys L) \<Longrightarrow> jget (filter (\<lambda>(k, v). v \<noteq> JNull \<or> P k) L) k = jget L k"
proof (induction L)
  case (Cons kv L)
  obtain k' v where kv: "kv = (k', v)" by (cases kv)
  have "jget L k' = JNull" using Cons.prems kv by (force simp: jget_def map_of_eq_None_iff split: option.split)
  then show ?case using Cons kv by (auto simp: jget_Cons)
qed simp

lemma dkeys_within: "set (dkeys (filter P L)) \<subseteq> A \<longleftrightarrow> (\<forall>x \<in> set (filter (\<lambda>(k, v). k \<notin> A) L). \<not> P x)"
  by (induction L) (auto split: prod.splits)

lemma validate_row_iff:
  assumes "jget ob ''kind'' = JStr kind" and "kind \<in> {''EXECUTION'', ''CLOSE'', ''LINK''}"
  shows "validate_row (JObj ob) = Inr [] \<longleftrightarrow> privacy_problems (JObj ob) = [] \<and> common_problems kind ob = [] \<and> kind_problems kind ob = []"
proof
  assume "validate_row (JObj ob) = Inr []"
  then show "privacy_problems (JObj ob) = [] \<and> common_problems kind ob = [] \<and> kind_problems kind ob = []"
    by (rule validate_rowE) (use assms in simp)
next
  assume "privacy_problems (JObj ob) = [] \<and> common_problems kind ob = [] \<and> kind_problems kind ob = []"
  then show "validate_row (JObj ob) = Inr []" using assms by (intro validate_rowI) auto
qed

text \<open>The prices a close carries.\<close>

definition quoted :: "resolved_close \<Rightarrow> decimal set" where
  "quoted rc = {p. Some p \<in> {rc_yes_bid rc, rc_yes_ask rc, yes_mid rc, rc_last_trade rc}}"

text \<open>The shape \<open>resolve_close\<close> gives a close that is not \<open>MISSING\<close>.\<close>

definition resolved_shape :: "resolved_close \<Rightarrow> bool" where
  "resolved_shape rc \<longleftrightarrow> rc_quality rc \<noteq> MISSING
     \<and> (\<exists>t cutoff. rc_as_of_ts rc = Some t \<and> rc_cutoff_ts rc = Some cutoff \<and> 0 < t \<and> t \<le> cutoff)
     \<and> (\<exists>p. rc_period_minutes rc = Some p \<and> 0 < p \<and> (rc_quality rc = TRUE_CLOSE \<longrightarrow> p \<le> 60))
     \<and> (rc_yes_bid rc \<noteq> None \<and> rc_yes_ask rc \<noteq> None \<or> rc_last_trade rc \<noteq> None)
     \<and> (\<forall>b a. rc_yes_bid rc = Some b \<and> rc_yes_ask rc = Some a \<longrightarrow> b \<le> a)"

lemma resolve_close_shape:
  assumes rc: "rc = (resolve_close candles (Some cutoff) period endpoint gap spread)\<lparr>rc_cutoff_source := src\<rparr>"
    and found: "rc_quality rc \<noteq> MISSING" and candles: "\<forall>k \<in> set candles. 0 < end_ts k"
  shows "resolved_shape rc" "rc_source_endpoint rc = Some endpoint" "rc_cutoff_source rc = src"
    "set (rc_flags rc) \<subseteq> {''WIDE_SPREAD'', ''NO_VOLUME_IN_CANDLE'', ''PERIOD_TOO_LONG_FOR_CLOSE'', ''TOO_EARLY_FOR_CLOSE''}"
proof -
  let ?us = "filter (usable_candle cutoff) candles"
  have p: "period \<in> set ALLOWED_PERIODS" and us: "?us \<noteq> []"
    and sane: "\<not> (case (yes_bid_close (last ?us), yes_ask_close (last ?us)) of (Some b, Some a) \<Rightarrow> a < b | _ \<Rightarrow> False)"
    using found by (auto simp: rc resolve_close_def missing_close_def Let_def split: if_splits)
  have "last ?us \<in> set candles" "usable_candle cutoff (last ?us)" using last_in_set [OF us] by simp_all
  then have l: "0 < end_ts (last ?us)" "end_ts (last ?us) \<le> cutoff"
    "yes_bid_close (last ?us) \<noteq> None \<and> yes_ask_close (last ?us) \<noteq> None \<or> trade_close (last ?us) \<noteq> None"
    using candles by (auto simp: usable_candle_def)
  define near where "near \<longleftrightarrow> cutoff - end_ts (last ?us) \<le> gap \<and> period \<le> TRUE_CLOSE_MAX_PERIOD_MINUTES"
  have r: "rc_quality rc = (if near then TRUE_CLOSE else EARLIER_QUOTE_PROXY)" "rc_cutoff_ts rc = Some cutoff"
    "rc_period_minutes rc = Some period" "rc_as_of_ts rc = Some (end_ts (last ?us))" "rc_yes_bid rc = yes_bid_close (last ?us)"
    "rc_yes_ask rc = yes_ask_close (last ?us)" "rc_last_trade rc = trade_close (last ?us)"
    using p us sane by (simp_all add: rc resolve_close_def Let_def near_def)
  show "rc_source_endpoint rc = Some endpoint" "rc_cutoff_source rc = src" using p us sane by (simp_all add: rc resolve_close_def Let_def)
  show "set (rc_flags rc) \<subseteq> {''WIDE_SPREAD'', ''NO_VOLUME_IN_CANDLE'', ''PERIOD_TOO_LONG_FOR_CLOSE'', ''TOO_EARLY_FOR_CLOSE''}"
    using p us sane by (simp add: rc resolve_close_def Let_def) auto
  have "0 < period" using p by (auto simp: ALLOWED_PERIODS_def)
  then show "resolved_shape rc" using l sane
    by (auto simp: resolved_shape_def r near_def TRUE_CLOSE_MAX_PERIOD_MINUTES_def not_less split: if_splits)
qed

definition body_fields :: "resolved_close \<Rightarrow> jobj" where
  "body_fields rc =
     (let num = (\<lambda>d. case d of None \<Rightarrow> JNull | Some x \<Rightarrow> json_float x); whole = (\<lambda>n. case n of None \<Rightarrow> JNull | Some i \<Rightarrow> JInt i) in
      [(''quality'', JStr (quality_value (rc_quality rc))), (''yes_bid'', num (rc_yes_bid rc)),
       (''yes_ask'', num (rc_yes_ask rc)), (''yes_mid'', num (yes_mid rc)), (''last_trade'', num (rc_last_trade rc)),
       (''as_of_ts'', whole (rc_as_of_ts rc)), (''cutoff_ts'', whole (rc_cutoff_ts rc)),
       (''period_minutes'', whole (rc_period_minutes rc)),
       (''minutes_before_cutoff'', whole (rc_minutes_before_cutoff rc)),
       (''source_endpoint'', json_text (rc_source_endpoint rc)), (''flags'', JList (map JStr (rc_flags rc))),
       (''cutoff_source'', json_text (rc_cutoff_source rc))])"

lemma to_close_body_fields:
  "rc_quality rc \<noteq> MISSING \<Longrightarrow> to_close_body rc = filter (\<lambda>(k, v). v \<noteq> JNull \<or> k = ''flags'') (body_fields rc)"
  by (simp add: to_close_body_def body_fields_def Let_def json_text_def)

lemma body_problems_iff:
  assumes shape: "resolved_shape rc" and endpoint: "rc_source_endpoint rc = Some e" "e \<noteq> []"
  shows "close_body_problems (to_close_body rc) = [] \<longleftrightarrow>
    rc_cutoff_source rc = None \<and> (rc_yes_bid rc = None \<longleftrightarrow> rc_yes_ask rc = None) \<and> (\<forall>p \<in> quoted rc. 0 < fround p \<and> fround p < 1)"
proof -
  have q: "rc_quality rc \<noteq> MISSING" using shape by (simp add: resolved_shape_def)
  have body: "to_close_body rc = filter (\<lambda>(k, v). v \<noteq> JNull \<or> k = ''flags'') (body_fields rc)" using q by (rule to_close_body_fields)
  have "distinct (dkeys (body_fields rc))" by (simp add: body_fields_def Let_def)
  then have j: "jget (to_close_body rc) k = jget (body_fields rc) k" for k unfolding body by (rule jget_dropped)
  let ?num = "\<lambda>d. case d of None \<Rightarrow> JNull | Some x \<Rightarrow> json_float x"
  have g: "jget (to_close_body rc) ''quality'' = JStr (quality_value (rc_quality rc))"
    "jget (to_close_body rc) ''yes_bid'' = ?num (rc_yes_bid rc)" "jget (to_close_body rc) ''yes_ask'' = ?num (rc_yes_ask rc)"
    "jget (to_close_body rc) ''yes_mid'' = ?num (yes_mid rc)" "jget (to_close_body rc) ''last_trade'' = ?num (rc_last_trade rc)"
    "jget (to_close_body rc) ''source_endpoint'' = JStr e"
    unfolding j by (simp_all add: body_fields_def Let_def jget_def json_text_def endpoint)
  obtain t cutoff p where n: "rc_as_of_ts rc = Some t" "rc_cutoff_ts rc = Some cutoff" "0 < t" "t \<le> cutoff" "rc_period_minutes rc = Some p" "0 < p"
    "rc_quality rc = TRUE_CLOSE \<Longrightarrow> p \<le> 60"
    using shape by (auto simp: resolved_shape_def)
  have h: "jget (to_close_body rc) ''as_of_ts'' = JInt t" "jget (to_close_body rc) ''cutoff_ts'' = JInt cutoff"
    "jget (to_close_body rc) ''period_minutes'' = JInt p"
    unfolding j by (simp_all add: body_fields_def Let_def jget_def n)
  have src: "unknown_fields (to_close_body rc) CLOSE_BODY = [] \<longleftrightarrow> rc_cutoff_source rc = None"
  proof -
    have "filter (\<lambda>(k, v). k \<notin> set CLOSE_BODY) (body_fields rc) = [(''cutoff_source'', json_text (rc_cutoff_source rc))]"
      by (simp add: body_fields_def Let_def CLOSE_BODY_def)
    then show ?thesis unfolding unknown_none body dkeys_within by (simp add: json_text_def split: option.split)
  qed
  have json: "json_float x \<noteq> JNull" for x by (simp add: json_float_def)
  have null: "?num d = JNull \<longleftrightarrow> d = None" for d by (cases d) (simp_all add: json)
  have price: "is_price (json_float x) \<longleftrightarrow> 0 < fround x \<and> fround x < 1" for x
    by (simp add: is_price_def num_float_def flt.rnd_idem)
  have one: "(?num d \<noteq> JNull \<longrightarrow> is_price (?num d)) \<longleftrightarrow> (\<forall>p. d = Some p \<longrightarrow> 0 < fround p \<and> fround p < 1)" for d
    by (cases d) (simp_all add: price json)
  have prices: "(\<forall>n \<in> set PRICE_NAMES. jget (to_close_body rc) n \<noteq> JNull \<longrightarrow> is_price (jget (to_close_body rc) n))
      \<longleftrightarrow> (\<forall>p \<in> quoted rc. 0 < fround p \<and> fround p < 1)"
    unfolding PRICE_NAMES_def by (simp only: set_simps ball_simps insert_iff empty_iff g one simp_thms) (auto simp: quoted_def)
  have some: "filter (\<lambda>n. jget (to_close_body rc) n \<noteq> JNull) PRICE_NAMES \<noteq> []"
    using shape by (auto simp: PRICE_NAMES_def g null resolved_shape_def)
  have straight: "\<not> number_less (?num (rc_yes_ask rc)) (?num (rc_yes_bid rc))"
    using shape flt.rnd_mono by (auto simp: resolved_shape_def number_less_def json_number_def[of JNull] not_less split: option.splits)
  have "quality_value (rc_quality rc) \<in> set CLOSE_QUALITIES" "quality_value (rc_quality rc) \<noteq> ''MISSING''"
    "quality_value (rc_quality rc) = ''TRUE_CLOSE'' \<Longrightarrow> p \<le> 60"
    using q n(7) by (cases "rc_quality rc"; simp add: CLOSE_QUALITIES_def)+
  moreover have "quote_problems (quality_value (rc_quality rc)) ps (to_close_body rc) = []
      \<longleftrightarrow> ps \<noteq> [] \<and> (rc_yes_bid rc = None \<longleftrightarrow> rc_yes_ask rc = None)" if "quality_value (rc_quality rc) = ''TRUE_CLOSE'' \<Longrightarrow> p \<le> 60" for ps
    using that straight n endpoint unfolding quote_problems_def Let_def g h
    by (auto simp: null number_is_def json_number_def[of "JInt _"] number_less_def[of "JInt _" "JInt _"] text_is_def g h)
  ultimately show ?thesis
    using src prices some unfolding close_body_problems_def Let_def g by auto
qed

lemma walk_set:
  "set (walk_keys (JObj L)) = set (dkeys L) \<union> (\<Union>v \<in> snd ` set L. set (walk_keys v))"
  "set (walk_strings (JObj L)) = set (dkeys L) \<union> (\<Union>v \<in> snd ` set L. set (walk_strings v))"
  by (induction L) (auto split: prod.splits)

lemma walk_filtered:
  "set (walk_strings (JObj (filter P L))) \<subseteq> set (walk_strings (JObj L))" "set (walk_keys (JObj (filter P L))) \<subseteq> set (walk_keys (JObj L))"
  by auto

definition CLOSE_NAMES :: "string list" where
  "CLOSE_NAMES = COMMON_FIELDS @ CLOSE_FIELDS @ [''quality'', ''yes_bid'', ''yes_ask'', ''yes_mid'', ''last_trade'', ''as_of_ts'', ''cutoff_ts'',
     ''period_minutes'', ''minutes_before_cutoff'', ''source_endpoint'', ''flags'', ''cutoff_source'']"

definition CLOSE_TEXTS :: "string list" where
  "CLOSE_TEXTS = [EVIDENCE_SCHEMA_VERSION, ''CLOSE'', ''router'', ''YES'', ''NO'', ''TRUE_CLOSE'', ''EARLIER_QUOTE_PROXY'', ''MISSING'',
     ''historical_candlesticks'', ''series_market_candlesticks'',
     ''WIDE_SPREAD'', ''NO_VOLUME_IN_CANDLE'', ''PERIOD_TOO_LONG_FOR_CLOSE'', ''TOO_EARLY_FOR_CLOSE'']"

lemma close_names_private: "list_all (\<lambda>k. \<not> raw_id_name k \<and> length k < 36) CLOSE_NAMES" "list_all (\<lambda>s. length s < 36) CLOSE_TEXTS"
proof -
  have "list_all plain_name CLOSE_NAMES" by code_simp
  then show "list_all (\<lambda>k. \<not> raw_id_name k \<and> length k < 36) CLOSE_NAMES" using plain_name_facts by (simp add: list_all_iff)
qed code_simp

lemma body_private:
  assumes q: "rc_quality rc \<noteq> MISSING" and endpoint: "rc_source_endpoint rc = Some (endpoint_name historical)" and src: "rc_cutoff_source rc = None"
    and flags: "set (rc_flags rc) \<subseteq> {''WIDE_SPREAD'', ''NO_VOLUME_IN_CANDLE'', ''PERIOD_TOO_LONG_FOR_CLOSE'', ''TOO_EARLY_FOR_CLOSE''}"
  shows "set (walk_keys (JObj (to_close_body rc))) \<subseteq> set CLOSE_NAMES"
    "set (walk_strings (JObj (to_close_body rc))) \<subseteq> set CLOSE_NAMES \<union> set CLOSE_TEXTS"
proof -
  define num where "num d = (case d of None \<Rightarrow> JNull | Some x \<Rightarrow> json_float x)" for d
  define whole where "whole n = (case n of None \<Rightarrow> JNull | Some i \<Rightarrow> JInt i)" for n
  have w: "walk_strings (num d) = []" "walk_keys (num d) = []" "walk_strings (whole n) = []" "walk_keys (whole n) = []" for d n
    by (simp_all add: num_def whole_def json_float_def split: option.split)
  have fields: "body_fields rc =
      [(''quality'', JStr (quality_value (rc_quality rc))), (''yes_bid'', num (rc_yes_bid rc)),
       (''yes_ask'', num (rc_yes_ask rc)), (''yes_mid'', num (yes_mid rc)), (''last_trade'', num (rc_last_trade rc)),
       (''as_of_ts'', whole (rc_as_of_ts rc)), (''cutoff_ts'', whole (rc_cutoff_ts rc)),
       (''period_minutes'', whole (rc_period_minutes rc)),
       (''minutes_before_cutoff'', whole (rc_minutes_before_cutoff rc)),
       (''source_endpoint'', JStr (endpoint_name historical)), (''flags'', JList (map JStr (rc_flags rc))),
       (''cutoff_source'', JNull)]"
    by (simp add: body_fields_def Let_def num_def whole_def json_text_def endpoint src)
  have "set (walk_keys (JObj (body_fields rc))) \<subseteq> set CLOSE_NAMES"
    unfolding fields by (simp add: w CLOSE_NAMES_def)
  then show "set (walk_keys (JObj (to_close_body rc))) \<subseteq> set CLOSE_NAMES"
    unfolding to_close_body_fields [OF q] using walk_filtered(2) by blast
  have texts: "quality_value (rc_quality rc) \<in> set CLOSE_TEXTS" "endpoint_name historical \<in> set CLOSE_TEXTS"
    by (cases "rc_quality rc"; simp add: CLOSE_TEXTS_def) (simp add: endpoint_name_def CLOSE_TEXTS_def)
  have flag_texts: "set (rc_flags rc) \<subseteq> set CLOSE_TEXTS" by (rule subset_trans [OF flags]) (simp add: CLOSE_TEXTS_def)
  have "set (walk_strings (JObj (body_fields rc))) \<subseteq> set CLOSE_NAMES \<union> ({quality_value (rc_quality rc), endpoint_name historical} \<union> set (rc_flags rc))"
    unfolding fields by (simp add: w CLOSE_NAMES_def comp_def) blast
  then have "set (walk_strings (JObj (body_fields rc))) \<subseteq> set CLOSE_NAMES \<union> set CLOSE_TEXTS" using texts flag_texts by blast
  then show "set (walk_strings (JObj (to_close_body rc))) \<subseteq> set CLOSE_NAMES \<union> set CLOSE_TEXTS"
    unfolding to_close_body_fields [OF q] using walk_filtered(1) by blast
qed

lemma close_row_fields:
  "jget (close_row key ticker side rc now) ''schema_version'' = JStr EVIDENCE_SCHEMA_VERSION" "jget (close_row key ticker side rc now) ''kind'' = JStr ''CLOSE''"
  "jget (close_row key ticker side rc now) ''producer'' = JStr ''router''" "jget (close_row key ticker side rc now) ''source_bet_key'' = JStr key"
  "jget (close_row key ticker side rc now) ''recorded_at'' = JStr (now_iso now)" "jget (close_row key ticker side rc now) ''market_ticker'' = JStr ticker"
  "jget (close_row key ticker side rc now) ''side'' = JStr side" "jget (close_row key ticker side rc now) ''close'' = JObj (to_close_body rc)"
  "set (dkeys (close_row key ticker side rc now)) = set (COMMON_FIELDS @ CLOSE_FIELDS)"
  by (simp_all add: close_row_def jget_def) (auto simp: COMMON_FIELDS_def CLOSE_FIELDS_def)

lemma close_row_private:
  assumes b: "set (walk_keys (JObj (to_close_body rc))) \<subseteq> set CLOSE_NAMES"
      "set (walk_strings (JObj (to_close_body rc))) \<subseteq> set CLOSE_NAMES \<union> set CLOSE_TEXTS"
    and key: "production_source_key account t order_id = Inr key" and ticker: "\<not> uuid_in ticker" and side: "side \<in> {''YES'', ''NO''}"
    and now: "render_instant now \<noteq> None" "0 \<le> now"
  shows "privacy_problems (JObj (close_row key ticker side rc now)) = []"
proof -
  define row where "row = close_row key ticker side rc now"
  have k: "set (dkeys row) \<subseteq> set CLOSE_NAMES" using close_row_fields(9) [of key ticker side rc now] unfolding row_def CLOSE_NAMES_def set_append by blast
  define said where "said = {EVIDENCE_SCHEMA_VERSION, ''CLOSE'', ''router'', side, key, now_iso now, ticker}"
  have v: "snd ` set row = JStr ` said \<union> {JObj (to_close_body rc)}"
    unfolding row_def close_row_def said_def by (simp add: insert_commute)
  have "set (walk_keys (JObj row)) = set (dkeys row) \<union> set (walk_keys (JObj (to_close_body rc)))"
    unfolding walk_set(1) [of row] v by (simp del: walk_keys.simps(1))
  then have ks: "set (walk_keys (JObj row)) \<subseteq> set CLOSE_NAMES" using k b(1) by blast
  have ss: "set (walk_strings (JObj row)) = set (dkeys row) \<union> said \<union> set (walk_strings (JObj (to_close_body rc)))"
    unfolding walk_set(2) [of row] v by (auto simp del: walk_strings.simps(2))
  have short: "\<not> uuid_in s" if "s \<in> set CLOSE_NAMES \<or> s \<in> set CLOSE_TEXTS" for s
    using that close_names_private short_not_uuid unfolding list_all_iff by blast
  have "\<not> uuid_in EVIDENCE_SCHEMA_VERSION" "\<not> uuid_in ''CLOSE''" "\<not> uuid_in ''router''" "\<not> uuid_in side"
    using side by (auto intro!: short_not_uuid simp: EVIDENCE_SCHEMA_VERSION_def)
  then have "\<not> uuid_in s" if "s \<in> said" for s
    using that ticker source_key_facts(2) [OF key] now_facts(2) [OF now] unfolding said_def by blast
  then have "\<not> uuid_in s" if "s \<in> set (walk_strings (JObj row))" for s using that short ss k b(2) by blast
  moreover have "\<not> raw_id_name n" if "n \<in> set (walk_keys (JObj row))" for n
    using that ks close_names_private(1) unfolding list_all_iff by blast
  ultimately show ?thesis unfolding privacy_none row_def by blast
qed

text \<open>C4: which resolved closes the evidence ledger accepts. The row the router writes of a close it resolved passes the
  importer exactly when no cutoff source was recorded with it, its bid and ask are both quoted or both missing, and each
  price it carries rounds to a double strictly between 0 and 1. The resolver itself asks for none of the three.\<close>

theorem close_row_accepted_iff:
  assumes rc: "rc = (resolve_close candles (Some cutoff) period (endpoint_name historical) gap spread)\<lparr>rc_cutoff_source := src\<rparr>"
    and found: "rc_quality rc \<noteq> MISSING" and candles: "\<forall>k \<in> set candles. 0 < end_ts k"
    and key: "production_source_key account ticker order_id = Inr key"
    and ticker: "\<not> blank ticker" "\<not> uuid_in ticker" and side: "side \<in> {''YES'', ''NO''}"
    and now: "render_instant now \<noteq> None" "0 \<le> now"
  shows "validate_row (JObj (close_row key ticker side rc now)) = Inr [] \<longleftrightarrow>
    src = None \<and> (rc_yes_bid rc = None \<longleftrightarrow> rc_yes_ask rc = None) \<and> (\<forall>p \<in> quoted rc. 0 < fround p \<and> fround p < 1)"
proof -
  note shape = resolve_close_shape [OF rc found candles]
  define row where "row = close_row key ticker side rc now"
  note g = close_row_fields [of key ticker side rc now, folded row_def]
  have common: "common_problems ''CLOSE'' row = []"
  proof -
    have "unknown_fields row (the (dget allowed_fields ''CLOSE'')) = []" using g(9) unfolding unknown_none by (simp add: allowed_fields_def)
    then show ?thesis using source_key_facts(1) [OF key] now_facts [OF now] unfolding common_problems_def Let_def g
      by (simp add: text_is_def producers_of_def)
  qed
  have "endpoint_name historical \<noteq> []" by (simp add: endpoint_name_def)
  note body = body_problems_iff [OF shape(1,2) this]
  have problems: "kind_problems ''CLOSE'' row = [] \<longleftrightarrow> close_body_problems (to_close_body rc) = []"
    using ticker(1) side by (auto simp: kind_problems_def close_problems_def g text_is_def)
  have privacy: "privacy_problems (JObj row) = []" if "rc_cutoff_source rc = None"
    unfolding row_def using body_private [OF found shape(2) that shape(4)] key ticker(2) side now by (rule close_row_private)
  have "validate_row (JObj row) = Inr [] \<longleftrightarrow>
      privacy_problems (JObj row) = [] \<and> common_problems ''CLOSE'' row = [] \<and> kind_problems ''CLOSE'' row = []"
    using g(2) by (intro validate_row_iff) simp_all
  then show ?thesis using common problems body privacy shape(3) unfolding row_def [symmetric] by auto
qed

theorem close_row_accepted_iff_witness:
  "\<exists>key rc. production_source_key None ''T'' ''O1'' = Inr key
    \<and> rc = resolve_close [quote_at 1700000000 (48 / 100) (52 / 100)] (Some 1700000060) 1 (endpoint_name False)
        DEFAULT_MAX_GAP_SECONDS DEFAULT_MAX_SPREAD
    \<and> validate_row (JObj (close_row key ''T'' ''YES'' rc example_clock)) = Inr []
    \<and> validate_row (JObj (close_row key ''T'' ''YES'' (rc\<lparr>rc_cutoff_source := Some ''strike_date''\<rparr>) example_clock)) \<noteq> Inr []"
proof -
  let ?rc = "resolve_close [quote_at 1700000000 (48 / 100) (52 / 100)] (Some 1700000060) 1 (endpoint_name False)
        DEFAULT_MAX_GAP_SECONDS DEFAULT_MAX_SPREAD"
  have rc: "rc_quality ?rc = TRUE_CLOSE" "rc_yes_bid ?rc = Some (48 / 100)" "rc_yes_ask ?rc = Some (52 / 100)" "rc_last_trade ?rc = None"
    "?rc\<lparr>rc_cutoff_source := None\<rparr> = ?rc"
    by (simp_all add: resolve_close_def quote_at_def usable_candle_def Let_def ALLOWED_PERIODS_def DEFAULT_MAX_GAP_SECONDS_def
        TRUE_CLOSE_MAX_PERIOD_MINUTES_def)
  obtain key where key: "production_source_key None ''T'' ''O1'' = Inr key" by (simp add: production_source_key_def)
  have ticker: "\<not> blank ''T''" "\<not> uuid_in ''T''" by code_simp+
  have candles: "\<forall>k \<in> set [quote_at 1700000000 (48 / 100) (52 / 100)]. 0 < end_ts k" by (simp add: quote_at_def)
  have "ddiv (dadd (48 / 100) (52 / 100)) 2 = (1 / 2)" by code_simp
  then have mid: "yes_mid ?rc = Some (1 / 2)" unfolding yes_mid_def rc(2,3) by (simp only: prod.case option.case)
  then have quoted: "quoted ?rc = {48 / 100, 52 / 100, 1 / 2}" unfolding quoted_def rc(2-4) mid by auto
  have range: "0 < fround (48 / 100)" "fround (48 / 100) < 1" "0 < fround (52 / 100)" "fround (52 / 100) < 1" "0 < fround (1 / 2)" "fround (1 / 2) < 1"
    by code_simp+
  note row = close_row_accepted_iff [OF refl _ candles key ticker _ example_clock_ok, where cutoff = 1700000060 and period = 1
      and historical = False and gap = DEFAULT_MAX_GAP_SECONDS and spread = DEFAULT_MAX_SPREAD]
  have "validate_row (JObj (close_row key ''T'' ''YES'' (?rc\<lparr>rc_cutoff_source := None\<rparr>) example_clock)) = Inr []"
    unfolding row [of None "''YES''", unfolded rc(5), OF _ insertI1, unfolded rc(1), OF close_quality.distinct(3)] rc(5) quoted
    using rc range by simp
  moreover have "validate_row (JObj (close_row key ''T'' ''YES'' (?rc\<lparr>rc_cutoff_source := Some ''strike_date''\<rparr>) example_clock)) \<noteq> Inr []"
    using row [of "Some ''strike_date''" "''YES''"] rc by simp
  ultimately show ?thesis using key rc(5) by auto
qed

end
