(* ===== verification/Spec2Isabelle.thy ===== *)
theory Spec2Isabelle
  imports Engine AccountDiag SettleWager ShadowWager Delivery Backfill Client History Reconcile Metadata Closes ExecEvidence
begin

text \<open>
  kalshi-bet-router, the Python program under \<^verbatim>\<open>src/src/kalshi_router\<close> (paths below are relative to it).

  \<^bold>\<open>The program.\<close> The router reads an account's fills, positions and settlements from an exchange
  (\<^verbatim>\<open>client.py\<close> over \<^verbatim>\<open>http.py\<close>), normalizes them (\<^verbatim>\<open>models.py\<close>), replays the fills into signed
  positions and their episodes (\<^verbatim>\<open>accounting/\<close>), finds the sport of a market from the exchange's own
  documents (\<^verbatim>\<open>metadata.py\<close>, \<^verbatim>\<open>classify.py\<close> over \<^verbatim>\<open>competitions.py\<close>, \<^verbatim>\<open>taxonomy.py\<close>,
  \<^verbatim>\<open>milestones.py\<close>), decides which submitted orders may be written into which
  downstream ledger (\<^verbatim>\<open>production.py\<close>), prices what each wager returned when its market settled
  (\<^verbatim>\<open>settlement.py\<close>), finds the state of a settled wager's parent row (\<^verbatim>\<open>settlement_parents.py\<close>),
  catches up on the past once (\<^verbatim>\<open>backfill.py\<close>, compared by \<^verbatim>\<open>ledger_compare.py\<close>), and lands a proposal
  through a delivery branch (\<^verbatim>\<open>delivery_branch.py\<close>, \<^verbatim>\<open>scripts/deliver_branch.py\<close>) and an automatic merge
  gate (\<^verbatim>\<open>automerge.py\<close> over \<^verbatim>\<open>receipts.py\<close> and \<^verbatim>\<open>destinations.py\<close>). On the other side of the proposal two
  modules the consumer vendors from this repository keep the books: the shared ledger of wagers and settlements
  (\<^verbatim>\<open>../../contract/edge_finder_contract/routed_ledger.py\<close>) and the ledger of execution evidence, closes and links
  (\<^verbatim>\<open>../../contract/standalone/execution_evidence_ledger.py\<close>), the latter fed by \<^verbatim>\<open>execution_evidence.py\<close> and
  \<^verbatim>\<open>evidence_emission.py\<close>.

  \<^bold>\<open>The theories.\<close>
  \<^item> \<open>Prelude\<close>: results of code that may raise (\<open>error + 'a\<close>), insertion-ordered dictionaries, grouping,
    de-duplication, the ASCII part of Python's strings. \<open>PyDecimal\<close>: rationals rounded to 28 decimal or 53 binary digits,
    half to even, which is Python's \<open>Decimal\<close> in its default context and its \<open>float\<close>; the locale \<open>rounding\<close> is
    what both promise. \<open>Json\<close>: decoded JSON and \<^verbatim>\<open>fixedpoint.py\<close>. \<open>PyText\<close>: \<open>str\<close> and \<open>repr\<close> of
    JSON values. \<open>TimeAxis\<close>: \<^verbatim>\<open>timeaxis.py\<close> with the calendar. \<open>Sha256\<close>: the digest on 32-bit words.
  \<^item> \<open>Fills\<close>, \<open>Settlements\<close>: \<^verbatim>\<open>models.py\<close>, every parser with every refusal.
  \<^item> \<open>Execution\<close>: \<^verbatim>\<open>accounting/ordering.py\<close>, \<^verbatim>\<open>execution.py\<close> and \<^verbatim>\<open>identity.py\<close>: the canonical
    order of fills, order groups and their average price, episode identities.
  \<^item> \<open>Position\<close>: \<^verbatim>\<open>accounting/position.py\<close>: a ledger of one market and its five transitions (open, increase,
    reduce, close, reverse), settlement at expiry, realized profit. \<open>Keyed\<close>: the locale of a ledger per key, proved once for
    any step with an invariant. \<open>Engine\<close>: \<^verbatim>\<open>accounting/engine.py\<close>: replay over every market, settlements, coverage,
    authority, the claims that depend on them. \<open>AccountDiag\<close>: \<^verbatim>\<open>accounting/diagnostics.py\<close>, the counts a run publishes.
  \<^item> \<open>Production\<close>: \<^verbatim>\<open>production.py\<close>: source keys, the cutover, finality, the gates in their
    order, the counters, the health word, and the row each destination is given.
  \<^item> \<open>SettleWager\<close>: \<^verbatim>\<open>settlement.py\<close>: both economics contracts and the batch that never splits a fee.
    \<open>ShadowWager\<close>: \<^verbatim>\<open>wager.py\<close>: the date of a contest and the wager an episode would become.
  \<^item> \<open>Destinations\<close>, \<open>Receipts\<close>, \<open>Automerge\<close>, \<open>Delivery\<close>: the destination profiles and their commands, the
    receipt vocabulary, the twelve conditions of the merge gate, the delivery branch and the partition of settled rows.
  \<^item> \<open>LedgerCompare\<close>, \<open>Backfill\<close>: the comparison with existing ledgers and the catch-up.
  \<^item> \<open>Client\<close>: one request with its retries, the allowlist, the cursor walks (\<^verbatim>\<open>client.py\<close>, \<^verbatim>\<open>http.py\<close>, the
    checks of \<^verbatim>\<open>config.py\<close> and \<^verbatim>\<open>safety.py\<close>). \<open>History\<close>: \<^verbatim>\<open>history.py\<close> on top of those walks,
    \<^verbatim>\<open>coverage.py\<close> and \<^verbatim>\<open>finality.py\<close>. \<open>Reconcile\<close>: \<^verbatim>\<open>reconcile.py\<close>.
    \<open>Counters\<close>: the counts of a report filled from lists of names, shared by \<open>LedgerCompare\<close> and \<open>Reconcile\<close>.

  \<^item> \<open>Sports\<close>, \<open>Competitions\<close>, \<open>SeriesRegistry\<close>: the sports and the tables of names (\<^verbatim>\<open>sports.py\<close>,
    \<^verbatim>\<open>competitions.py\<close>, \<^verbatim>\<open>series_registry.py\<close>). \<open>Taxonomy\<close>: \<^verbatim>\<open>taxonomy.py\<close>. \<open>Milestones\<close>:
    \<^verbatim>\<open>milestones.py\<close>, whose two indexes interpret one locale of agreement. \<open>Evidence\<close>, \<open>Classify\<close>: \<^verbatim>\<open>classify.py\<close> with
    the readers of a combo's legs (\<^verbatim>\<open>refusals.py\<close>) and \<^verbatim>\<open>combo_decode.py\<close>. \<open>Metadata\<close>: \<^verbatim>\<open>metadata.py\<close>,
    three caches over \<open>Client\<close> that interpret one locale of reading through. \<open>SchemaNames\<close>: the printable schema names. \<open>Closes\<close>: \<^verbatim>\<open>closes.py\<close> and
    \<^verbatim>\<open>close_coverage.py\<close>, closing prices from candles.
  \<^item> \<open>LedgerText\<close>: Python's numbers, lines and \<open>json.dumps\<close> as the ledgers use them, the filing of new rows against the
    keys on file, and the locale \<open>append_only\<close> of what both ledgers promise of it. \<open>RoutedLedger\<close>: \<^verbatim>\<open>routed_ledger.py\<close>, the
    shared ledger, whose two files interpret that locale; \<open>EvidenceLedger\<close>: \<^verbatim>\<open>execution_evidence_ledger.py\<close>, which interprets it
    again. \<open>Calendar\<close>: the inverse of rendering a time. \<open>Admission\<close>: the accounted row of \<^verbatim>\<open>production.py\<close> met with the shared
    ledger's checks, both sides' roundings included. \<open>ExecEvidence\<close>: \<^verbatim>\<open>execution_evidence.py\<close> and
    \<^verbatim>\<open>evidence_emission.py\<close>, met with the evidence ledger's checks.

  A definition has the name of the function, class or constant it models; where one clause or loop of a function
  is a definition of its own, a comment says which. A class is a record, an enum a datatype, an exception a value
  of \<open>py_error\<close>. State that Python mutates is passed and returned.

  \<^bold>\<open>What is shown.\<close> Normalization refuses rather than guesses (C1). A market's sport, the level that answers and the
  warning beside it are what the ladder of evidence names (C2), which is the documented rule but for one case the theorem
  states: a refusal of the series metadata does not stop the registry from answering. A combo whose legs are all stated is
  placed by all of them, and what the code answers when some are not is stated beside it (C6). The taxonomy answers the only claimant of a competition whatever its order (C26), a
  game's start is what every milestone says (C35), and the resolver reads each market once (C5). A rendered time
  reads back (C3). A position's ledger stays well formed (C7), a fill
  that crosses zero splits the episode (C9) and a settlement is applied exactly when sizes agree (C10). Replay does
  not depend on the order fills arrive in (C11), conserves signed quantity exactly (C12), balances every episode (C14), and its published counts account for every fill, transition, settlement and
  episode (C15); a complete-position claim and an
  importable identity are earned (C16, C17). An order reaches a ledger exactly when every gate passes and the
  health word means what it says (C18, C19, C21). The shared ledger admits the row of an eligible order exactly when its price
  and game date have the shape it asks for (C13), and its files stay valid and append-only under any import (C38). The row of
  an order's execution is always accepted by the evidence ledger and carries no raw id (C20), a resolved close is exactly
  when it has no cutoff source, no one-sided quote and no price of 0 or 1 (C4), the file stays valid under any import
  (C25), and a link to a recommendation is never a guess (C8). A shadow run counts every episode once and builds only rows the destination accepts (C22). Settled
  money adds up and fees are never apportioned (C23, C24). A close is read off a served candle and an early quote is
  never called one (C28). The merge gate says MERGE exactly on the stated promise and never merges
  outside what a router commit may touch; a pushed proposal is adopted by every later run (C27, C29 to C32). Every counter of the one-pass
  comparison is a direct count of its inputs, tolerances included (C33), the catch-up is idempotent (C34).
  A request is bounded and read-only, and a walk ends (C36, C37). A complete
  history has read the live and then the archived fills route through, and is every fill on their pages, less the counted
  rejections (C39). Every count of the reconciliation report, the settlement economics apart, is a direct count of the rows and the replay; the markets it
  calls absent include those a position row names with an unreadable quantity (C40).

  \<^bold>\<open>Parameters.\<close> Code that is not in the repository is an argument: git and the destination's importer in
  \<open>Delivery\<close>, the HTTP transport, the JSON decoder (of a ledger's line too) and the random jitter in \<open>Client\<close>. The transport's n-th answer
  is arbitrary, so it stands for every stateful server.

  \<^bold>\<open>Bounds.\<close> A \<open>Decimal\<close> operation rounds to 28 digits; exactness statements ask for six decimal places, prices in
  [0, 1] and volumes below \<open>10 ^ 22\<close> contracts in a market (C12, C14), \<open>10 ^ 16\<close> in an order (\<open>weighted_average_price_exact\<close>) and a billion in a wager
  (\<open>position_returns_add_up\<close>), which keeps every intermediate value within 28 digits. \<open>decimal_places\<close> looks at 400 places, more than any binary64 value has. The fills walk is a partial
  function, \<open>None\<close> standing for a walk that never returns; C37 shows it returns whenever the server has finitely
  many cursors. Every other loop is structural or has its measure.

  \<^bold>\<open>Not modelled.\<close> Texts: exception messages, the reasons the merge gate prints, the rendered reports. Strings are ASCII.
  Decimal and float exponent ranges, infinities and NaNs (a ledger's money text apart, \<open>LedgerCompare.money\<close>).
  Files, environment, subprocesses and request signing. The contract reconciliation, the snapshot capture and the rest of the contract package (packets, schemas, health) are
  left out; the audit, the command line and the workflow scripts orchestrate and print.
\<close>

end
